(* ===== verification/Prelude.thy ===== *)
theory Prelude
  imports Main
begin

text \<open>
  Shared vocabulary of the development: the collections of simplification rules the component
  theories extend, the result type of fallible operations, and the facts on lists that several
  components use.
\<close>

section \<open>Rule collections\<close>

named_theorems js_simps \<open>laws of the JavaScript containers (Map, Set, string methods)\<close>
named_theorems bus_defs \<open>definitions of the bus operations, unfolded together\<close>
named_theorems bus_inv \<open>preservation lemmas for the well-formedness of the bus state\<close>
named_theorems kernel_defs \<open>definitions of the extension kernel\<close>
named_theorems attempt_defs \<open>definitions of the execution-attempt decisions\<close>

section \<open>Names\<close>

text \<open>
  Subject keys, transport names, correlation identifiers and package names are strings in the
  source; the synonyms record which is meant.
\<close>

type_synonym subject = string
type_synonym transport_name = string
type_synonym priority = int
type_synonym ident = string
type_synonym millis = int

section \<open>Lists\<close>

lemma distinct_map_fst_filter [simp]:
  "distinct (map fst xs) \<Longrightarrow> distinct (map fst (filter P xs))"
  by (induction xs) auto

lemma length_filter_eq_iff: "length (filter P xs) = length xs \<longleftrightarrow> (\<forall>x \<in> set xs. P x)"
proof
  assume "length (filter P xs) = length xs"
  then show "\<forall>x \<in> set xs. P x" using length_filter_less [of _ xs P] by fastforce
qed (simp add: filter_id_conv [THEN iffD2])

lemma fold_invariant_list:
  assumes "\<And>x s. x \<in> set xs \<Longrightarrow> P s \<Longrightarrow> P (f x s)" and "P s"
  shows "P (fold f xs s)"
  using assms by (induction xs arbitrary: s) auto

lemma sorted_wrt_filter: "sorted_wrt R xs \<Longrightarrow> sorted_wrt R (filter P xs)"
  by (induction xs) auto

lemma triple_eta: "x = (fst x, fst (snd x), snd (snd x))"
  by (cases x) auto

text \<open>
  JavaScript's \<open>findIndex\<close>: the position of the first element that satisfies the predicate,
  \<open>-1\<close> when there is none.
\<close>

fun find_index :: "('a \<Rightarrow> bool) \<Rightarrow> 'a list \<Rightarrow> int" where
  "find_index P [] = - 1"
| "find_index P (x # xs) =
     (if P x then 0 else (let i = find_index P xs in if i = - 1 then - 1 else i + 1))"

lemma find_index_ge: "- 1 \<le> find_index P xs"
  by (induction xs) (auto simp: Let_def)

lemma find_index_neg_iff: "find_index P xs = - 1 \<longleftrightarrow> (\<forall>x \<in> set xs. \<not> P x)"
proof (induction xs)
  case (Cons x xs)
  have "find_index P xs + 1 \<noteq> - 1" using find_index_ge [of P xs] by simp
  with Cons show ?case by (auto simp: Let_def)
qed simp

lemma find_index_nonneg:
  "find_index P xs \<noteq> - 1 \<Longrightarrow>
     0 \<le> find_index P xs \<and> nat (find_index P xs) < length xs
     \<and> P (xs ! nat (find_index P xs))
     \<and> drop (nat (find_index P xs)) xs = dropWhile (\<lambda>x. \<not> P x) xs"
proof (induction xs)
  case (Cons x xs)
  show ?case
  proof (cases "P x")
    case False
    with Cons.prems have ne: "find_index P xs \<noteq> - 1" by (auto simp: Let_def)
    let ?i = "find_index P xs"
    from Cons.IH [OF ne] have "0 \<le> ?i" by simp
    then have "nat (?i + 1) = Suc (nat ?i)" by simp
    with Cons.IH [OF ne] ne False show ?thesis by (simp add: Let_def)
  qed simp
qed simp

section \<open>Fallible operations\<close>

text \<open>
  An operation that throws returns \<open>Inl e\<close>; the loops of the source that call such an
  operation stop at the first error.
\<close>

end
