(* ===== verification/JS_Collections.thy ===== *)
theory JS_Collections
  imports Prelude "HOL-Library.Multiset"
begin

text \<open>
  The JavaScript standard library as the modelled source uses it: \<open>Map\<close> and \<open>Set\<close> with their
  insertion order, \<open>Array.prototype.sort\<close> (a stable sort by a comparator) and the string methods
  \<open>startsWith\<close>, \<open>endsWith\<close>, \<open>split\<close> and \<open>slice(0, -n)\<close>. Iteration order is observable in the source
  (handler lists are collected by iterating a \<open>Map\<close>), so maps are association lists.
\<close>

section \<open>Map: insertion-ordered association lists\<close>

type_synonym ('k, 'v) js_map = "('k \<times> 'v) list"

definition map_get :: "('k, 'v) js_map \<Rightarrow> 'k \<Rightarrow> 'v option" where
  "map_get m k = map_of m k"

definition map_has :: "('k, 'v) js_map \<Rightarrow> 'k \<Rightarrow> bool" where
  "map_has m k \<longleftrightarrow> k \<in> set (map fst m)"

definition map_keys :: "('k, 'v) js_map \<Rightarrow> 'k list" where
  "map_keys m = map fst m"

text \<open>\<open>Map.set\<close> overwrites in place and appends a new key.\<close>

fun map_set :: "'k \<Rightarrow> 'v \<Rightarrow> ('k, 'v) js_map \<Rightarrow> ('k, 'v) js_map" where
  "map_set k v [] = [(k, v)]"
| "map_set k v ((k', v') # m) = (if k = k' then (k, v) # m else (k', v') # map_set k v m)"

definition map_delete :: "'k \<Rightarrow> ('k, 'v) js_map \<Rightarrow> ('k, 'v) js_map" where
  "map_delete k m = filter (\<lambda>e. fst e \<noteq> k) m"

definition map_wf :: "('k, 'v) js_map \<Rightarrow> bool" where
  "map_wf m \<longleftrightarrow> distinct (map fst m)"

text \<open>What a client of a keyed store relies on, whatever its representation.\<close>

locale keyed_store =
  fixes get :: "'m \<Rightarrow> 'k \<Rightarrow> 'v option"
    and put :: "'k \<Rightarrow> 'v \<Rightarrow> 'm \<Rightarrow> 'm"
    and del :: "'k \<Rightarrow> 'm \<Rightarrow> 'm"
    and keys :: "'m \<Rightarrow> 'k list"
    and wf :: "'m \<Rightarrow> bool"
  assumes get_put: "get (put k v m) k' = (if k' = k then Some v else get m k')"
    and get_del: "get (del k m) k' = (if k' = k then None else get m k')"
    and keys_get: "k \<in> set (keys m) \<longleftrightarrow> get m k \<noteq> None"
    and wf_put: "wf m \<Longrightarrow> wf (put k v m)"
    and wf_del: "wf m \<Longrightarrow> wf (del k m)"
begin

lemma get_put_same: "get (put k v m) k = Some v"
  by (simp add: get_put)

lemma get_put_other: "k' \<noteq> k \<Longrightarrow> get (put k v m) k' = get m k'"
  by (simp add: get_put)

lemma get_del_same: "get (del k m) k = None"
  by (simp add: get_del)

lemma keys_put: "set (keys (put k v m)) = insert k (set (keys m))"
  by (auto simp: keys_get get_put split: if_splits)

lemma keys_del: "set (keys (del k m)) = set (keys m) - {k}"
  by (auto simp: keys_get get_del split: if_splits)

lemma fold_put_other: "k \<notin> set (map fst kvs) \<Longrightarrow> get (fold (\<lambda>(k, v). put k v) kvs m) k = get m k"
  by (induction kvs arbitrary: m) (auto simp: get_put)

lemma fold_put_wf: "wf m \<Longrightarrow> wf (fold (\<lambda>(k, v). put k v) kvs m)"
  by (induction kvs arbitrary: m) (auto simp: wf_put)

end

lemma map_of_map_set: "map_of (map_set k v m) k' = (if k' = k then Some v else map_of m k')"
  by (induction m) auto

lemma map_set_keys: "fst ` set (map_set k v m) = insert k (fst ` set m)"
  by (induction k v m rule: map_set.induct) (simp_all add: insert_commute)

lemma map_set_wf: "map_wf m \<Longrightarrow> map_wf (map_set k v m)"
  unfolding map_wf_def by (induction k v m rule: map_set.induct) (simp_all add: map_set_keys)

lemma map_of_map_delete: "map_of (map_delete k m) k' = (if k' = k then None else map_of m k')"
  unfolding map_delete_def by (induction m) auto

interpretation jm: keyed_store map_get map_set map_delete map_keys map_wf
proof
  fix k :: 'k and m :: "('k, 'v) js_map"
  show "k \<in> set (map_keys m) \<longleftrightarrow> map_get m k \<noteq> None"
    unfolding map_keys_def map_get_def by (auto simp: map_of_eq_None_iff)
qed (auto simp: map_get_def map_of_map_set map_of_map_delete map_set_wf,
     simp add: map_wf_def map_delete_def)

lemmas js_map_laws [js_simps] =
  jm.get_put jm.get_del jm.wf_put jm.wf_del jm.keys_put jm.keys_del

lemma map_wf_Nil [simp]: "map_wf []"
  by (simp add: map_wf_def)

lemma map_get_Nil [simp]: "map_get [] k = None"
  by (simp add: map_get_def)

lemma map_has_get: "map_has m k \<longleftrightarrow> map_get m k \<noteq> None"
  using jm.keys_get [of k m] by (simp add: map_has_def map_keys_def)

lemma map_get_mem: "map_get m k = Some v \<Longrightarrow> (k, v) \<in> set m"
  by (simp add: map_get_def map_of_SomeD)

lemma mem_map_get: "map_wf m \<Longrightarrow> (k, v) \<in> set m \<Longrightarrow> map_get m k = Some v"
  by (simp add: map_get_def map_wf_def)

lemma map_set_mem: "(k', v') \<in> set (map_set k v m) \<Longrightarrow> (k' = k \<and> v' = v) \<or> (k', v') \<in> set m"
  by (induction m) (auto split: if_splits)

lemma map_delete_mem: "e \<in> set (map_delete k m) \<longleftrightarrow> e \<in> set m \<and> fst e \<noteq> k"
  by (auto simp: map_delete_def)

lemma filter_values_by_key:
  "\<forall>(k, e) \<in> set m. f e = k \<Longrightarrow> map_wf m \<Longrightarrow>
     filter (\<lambda>y. f y = k) (map snd m) = (case map_get m k of None \<Rightarrow> [] | Some e \<Rightarrow> [e])"
proof (induction m)
  case (Cons x m)
  obtain a b where x: "x = (a, b)" by (cases x)
  with Cons.prems have "f b = a" "a \<notin> fst ` set m" "map_wf m" by (auto simp: map_wf_def)
  then have "map_get m a = None" by (simp add: map_get_def map_of_eq_None_iff)
  with Cons.IH \<open>f b = a\<close> \<open>map_wf m\<close> Cons.prems(1) show ?case
    by (auto simp: x map_get_def split: option.splits)
qed simp

lemma map_set_fresh: "k \<notin> fst ` set m \<Longrightarrow> map_set k v m = m @ [(k, v)]"
  by (induction m) auto

text \<open>Copying the entries of one map into a new one, transforming the values, keeps the order.\<close>

lemma fold_map_set_fresh:
  "distinct (map fst m @ map fst xs) \<Longrightarrow>
     fold (\<lambda>(k, v). map_set k (f v)) xs m = m @ map (\<lambda>(k, v). (k, f v)) xs"
proof (induction xs arbitrary: m)
  case (Cons x xs)
  obtain k v where x: "x = (k, v)" by (cases x)
  have "k \<notin> fst ` set m" using Cons.prems x by auto
  then show ?case using Cons.IH [of "m @ [(k, f v)]"] Cons.prems x by (simp add: map_set_fresh)
qed simp

lemma map_get_map: "map_get (map (\<lambda>(k, v). (k, f v)) m) k = map_option f (map_get m k)"
  unfolding map_get_def by (induction m) auto

lemma map_get_fold_copy:
  "map_wf m \<Longrightarrow> map_get (fold (\<lambda>(k, v). map_set k (f v)) m []) k = map_option f (map_get m k)"
  using fold_map_set_fresh [of "[]" m f] by (simp add: map_wf_def map_get_map)

section \<open>Set: insertion-ordered distinct lists\<close>

definition set_add :: "'a \<Rightarrow> 'a list \<Rightarrow> 'a list" where
  "set_add x xs = (if x \<in> set xs then xs else xs @ [x])"

definition set_delete :: "'a \<Rightarrow> 'a list \<Rightarrow> 'a list" where
  "set_delete x xs = filter (\<lambda>y. y \<noteq> x) xs"

definition set_of_list :: "'a list \<Rightarrow> 'a list" where
  "set_of_list xs = fold set_add xs []"

lemma set_set_add [simp]: "set (set_add x xs) = insert x (set xs)"
  by (auto simp: set_add_def)

lemma distinct_set_add [simp]: "distinct xs \<Longrightarrow> distinct (set_add x xs)"
  by (simp add: set_add_def)

lemma set_set_delete [simp]: "set (set_delete x xs) = set xs - {x}"
  by (auto simp: set_delete_def)

lemma distinct_set_delete [simp]: "distinct xs \<Longrightarrow> distinct (set_delete x xs)"
  by (simp add: set_delete_def)

lemma fold_set_add: "set (fold set_add xs acc) = set acc \<union> set xs"
  by (induction xs arbitrary: acc) auto

lemma fold_set_add_distinct: "distinct acc \<Longrightarrow> distinct (fold set_add xs acc)"
  by (induction xs arbitrary: acc) auto

lemma set_set_of_list [simp]: "set (set_of_list xs) = set xs"
  by (simp add: set_of_list_def fold_set_add)

lemma distinct_set_of_list [simp]: "distinct (set_of_list xs)"
  by (simp add: set_of_list_def fold_set_add_distinct)

section \<open>Array.prototype.sort\<close>

text \<open>
  The comparator returns a number; a result of at most 0 keeps the first argument in front.
  ECMAScript requires the sort to be stable, which determines the result for every consistent
  comparator: insertion sort computes it, and \<open>js_sort_unique\<close> below shows that nothing else does.
\<close>

fun js_insort :: "('a \<Rightarrow> 'a \<Rightarrow> int) \<Rightarrow> 'a \<Rightarrow> 'a list \<Rightarrow> 'a list" where
  "js_insort cmp x [] = [x]"
| "js_insort cmp x (y # ys) = (if cmp x y \<le> 0 then x # y # ys else y # js_insort cmp x ys)"

definition js_sort :: "('a \<Rightarrow> 'a \<Rightarrow> int) \<Rightarrow> 'a list \<Rightarrow> 'a list" where
  "js_sort cmp xs = foldr (js_insort cmp) xs []"

lemma js_sort_Nil [simp]: "js_sort cmp [] = []"
  by (simp add: js_sort_def)

lemma js_sort_Cons: "js_sort cmp (x # xs) = js_insort cmp x (js_sort cmp xs)"
  by (simp add: js_sort_def)

lemma mset_js_insort: "mset (js_insort cmp x ys) = add_mset x (mset ys)"
  by (induction ys) auto

lemma mset_js_sort [simp]: "mset (js_sort cmp xs) = mset xs"
  by (induction xs) (auto simp: js_sort_Cons mset_js_insort)

lemma set_js_sort [simp]: "set (js_sort cmp xs) = set xs"
  by (rule mset_eq_setD) simp

lemma length_js_sort [simp]: "length (js_sort cmp xs) = length xs"
  by (rule mset_eq_length) simp

lemma distinct_js_sort [simp]: "distinct (js_sort cmp xs) = distinct xs"
  by (rule mset_eq_imp_distinct_iff) simp

locale js_comparator =
  fixes cmp :: "'a \<Rightarrow> 'a \<Rightarrow> int"
  assumes cmp_refl: "cmp x x \<le> 0"
    and cmp_total: "cmp x y \<le> 0 \<or> cmp y x \<le> 0"
    and cmp_trans: "cmp x y \<le> 0 \<Longrightarrow> cmp y z \<le> 0 \<Longrightarrow> cmp x z \<le> 0"
begin

abbreviation ordered :: "'a list \<Rightarrow> bool" where
  "ordered \<equiv> sorted_wrt (\<lambda>x y. cmp x y \<le> 0)"

lemma set_js_insort: "set (js_insort cmp x ys) = insert x (set ys)"
  by (induction ys) auto

lemma ordered_insort: "ordered ys \<Longrightarrow> ordered (js_insort cmp x ys)"
proof (induction ys)
  case (Cons y ys)
  show ?case
  proof (cases "cmp x y \<le> 0")
    case True
    with Cons.prems show ?thesis by (auto intro: cmp_trans)
  next
    case False
    with cmp_total have "cmp y x \<le> 0" by blast
    with False Cons show ?thesis by (simp add: set_js_insort)
  qed
qed simp

lemma js_sort_ordered: "ordered (js_sort cmp xs)"
  by (induction xs) (auto simp: js_sort_Cons ordered_insort)

text \<open>Stability: the elements equivalent to any given one keep their relative order.\<close>

abbreviation equiv_to :: "'a \<Rightarrow> 'a \<Rightarrow> bool" where
  "equiv_to k y \<equiv> cmp k y \<le> 0 \<and> cmp y k \<le> 0"

lemma filter_insort_equiv:
  "filter (equiv_to k) (js_insort cmp x ys) = filter (equiv_to k) (x # ys)"
proof (induction ys)
  case (Cons y ys)
  show ?case
  proof (cases "cmp x y \<le> 0")
    case False
    then have "\<not> (equiv_to k x \<and> equiv_to k y)" by (meson cmp_trans)
    with False Cons.IH show ?thesis by auto
  qed simp
qed simp

lemma js_sort_stable: "filter (equiv_to k) (js_sort cmp xs) = filter (equiv_to k) xs"
proof (induction xs)
  case (Cons x xs)
  have "filter (equiv_to k) (js_sort cmp (x # xs)) = filter (equiv_to k) (x # js_sort cmp xs)"
    by (simp only: js_sort_Cons filter_insort_equiv)
  with Cons.IH show ?case by simp
qed simp

lemma insort_least: "\<forall>y \<in> set ys. cmp x y \<le> 0 \<Longrightarrow> js_insort cmp x ys = x # ys"
  by (cases ys) auto

lemma js_sort_id: "ordered xs \<Longrightarrow> js_sort cmp xs = xs"
  by (induction xs) (auto simp: js_sort_Cons insort_least)

text \<open>An ordered list is determined by its equivalence classes in order.\<close>

lemma ordered_equiv_unique:
  assumes "ordered xs" and "ordered ys"
    and "\<And>k. filter (equiv_to k) xs = filter (equiv_to k) ys"
  shows "xs = ys"
  using assms
proof (induction xs arbitrary: ys)
  case Nil
  show ?case
  proof (cases ys)
    case (Cons y ys')
    have "y \<in> set (filter (equiv_to y) ys)" using Cons by (simp add: cmp_refl)
    with Nil.prems(3) [of y] show ?thesis by (metis filter.simps(1) empty_iff list.set(1))
  qed simp
next
  case (Cons x xs)
  have "x \<in> set (filter (equiv_to x) (x # xs))" by (simp add: cmp_refl)
  then have xin: "x \<in> set ys" using Cons.prems(3) [of x] by (metis filter_set Set.filter_eq mem_Collect_eq)
  then obtain y ys' where ys: "ys = y # ys'" by (cases ys) auto
  have "y \<in> set (filter (equiv_to y) ys)" using ys by (simp add: cmp_refl)
  then have yin: "y \<in> set (x # xs)" using Cons.prems(3) [of y] by (metis filter_set Set.filter_eq mem_Collect_eq)
  have xy: "cmp x y \<le> 0" using yin Cons.prems(1) by (auto simp: cmp_refl)
  have yx: "cmp y x \<le> 0" using xin Cons.prems(2) ys by (auto simp: cmp_refl)
  have hd_eq: "x = y" using Cons.prems(3) [of x] xy yx ys by (auto simp: cmp_refl)
  have "filter (equiv_to k) xs = filter (equiv_to k) ys'" for k
    using Cons.prems(3) [of k] ys hd_eq by (auto split: if_splits)
  with Cons.IH [of ys'] Cons.prems(1,2) ys hd_eq show ?case by simp
qed

theorem js_sort_unique:
  assumes "ordered ys" and "\<And>k. filter (equiv_to k) ys = filter (equiv_to k) xs"
  shows "ys = js_sort cmp xs"
  by (rule ordered_equiv_unique) (simp_all add: assms js_sort_ordered js_sort_stable)

lemma js_sort_filter: "js_sort cmp (filter Q xs) = filter Q (js_sort cmp xs)"
proof (rule js_sort_unique [symmetric])
  show "ordered (filter Q (js_sort cmp xs))" by (rule sorted_wrt_filter) (rule js_sort_ordered)
  show "filter (equiv_to k) (filter Q (js_sort cmp xs)) = filter (equiv_to k) (filter Q xs)" for k
    using arg_cong [OF js_sort_stable [of k xs], of "filter Q"]
    by (simp only: filter_filter conj_commute)
qed

end

text \<open>The comparator \<open>(a, b) => b.priority - a.priority\<close> the bus uses for every priority order.\<close>

definition by_priority_desc :: "('a \<Rightarrow> int) \<Rightarrow> 'a \<Rightarrow> 'a \<Rightarrow> int" where
  "by_priority_desc prio a b = prio b - prio a"

interpretation prio: js_comparator "by_priority_desc p" for p :: "'a \<Rightarrow> int"
  by unfold_locales (auto simp: by_priority_desc_def)

section \<open>Strings\<close>

definition starts_with :: "string \<Rightarrow> string \<Rightarrow> bool" where
  "starts_with s p \<longleftrightarrow> take (length p) s = p"

definition ends_with :: "string \<Rightarrow> string \<Rightarrow> bool" where
  "ends_with s p \<longleftrightarrow> drop (length s - length p) s = p"

text \<open>\<open>s.slice(0, -n)\<close>: everything but the last \<open>n\<close> characters.\<close>

definition slice_to :: "string \<Rightarrow> nat \<Rightarrow> string" where
  "slice_to s n = take (length s - n) s"

text \<open>\<open>s.split(c)\<close> for a one-character separator: always at least one part.\<close>

fun split_on :: "char \<Rightarrow> string \<Rightarrow> string list" where
  "split_on c [] = [[]]"
| "split_on c (x # xs) =
     (if x = c then [] # split_on c xs
      else (case split_on c xs of [] \<Rightarrow> [[x]] | p # ps \<Rightarrow> (x # p) # ps))"

lemma starts_with_iff: "starts_with s p \<longleftrightarrow> (\<exists>r. s = p @ r)"
proof
  assume "starts_with s p"
  then have "s = p @ drop (length p) s" unfolding starts_with_def by (metis append_take_drop_id)
  then show "\<exists>r. s = p @ r" ..
qed (auto simp: starts_with_def)

lemma ends_with_iff: "ends_with s p \<longleftrightarrow> (\<exists>r. s = r @ p)"
proof
  assume "ends_with s p"
  then have "s = take (length s - length p) s @ p"
    unfolding ends_with_def by (metis append_take_drop_id)
  then show "\<exists>r. s = r @ p" ..
qed (auto simp: ends_with_def)

lemma slice_to_append: "n = length q \<Longrightarrow> slice_to (p @ q) n = p"
  by (simp add: slice_to_def)

lemma split_on_nonempty [simp]: "split_on c s \<noteq> []"
  by (induction s) (auto split: list.splits)

text \<open>Joining the parts with the separator gives the string back.\<close>

fun join_with :: "string \<Rightarrow> string list \<Rightarrow> string" where
  "join_with sep [] = []"
| "join_with sep [p] = p"
| "join_with sep (p # q # ps) = p @ sep @ join_with sep (q # ps)"

lemma join_split: "join_with [c] (split_on c s) = s"
proof (induction s)
  case (Cons x xs)
  obtain p ps where ps: "split_on c xs = p # ps" by (cases "split_on c xs") auto
  with Cons.IH show ?case by (cases ps) auto
qed simp

lemma split_no_sep: "c \<notin> set s \<Longrightarrow> split_on c s = [s]"
  by (induction s) auto

text \<open>Decimal digits of an integer, as template literals print it.\<close>

fun show_nat :: "nat \<Rightarrow> string" where
  "show_nat n = (if n < 10 then [char_of (n + 48)] else show_nat (n div 10) @ [char_of (n mod 10 + 48)])"

declare show_nat.simps [simp del]

definition show_int :: "int \<Rightarrow> string" where
  "show_int i = (if i < 0 then ''-'' @ show_nat (nat (- i)) else show_nat (nat i))"

end
