(* ===== verification/Handler_Registry.thy ===== *)
theory Handler_Registry
  imports JS_Collections
begin

text \<open>
  Priority-ordered handler lists: \<open>core/bus-core/src/utils/insert-sorted.ts\<close> (binary-search
  insertion) and \<open>handler-merging.ts\<close>. The abstract contract of a registry is stated as a locale: its
  contents are the stable sort, by descending priority, of the registrations in the order they were
  made. \<open>insertSorted\<close> is shown to implement it.
\<close>

record 'h handler_entry =
  he_handler :: 'h
  he_priority :: priority

section \<open>Binary-search insertion\<close>

text \<open>
  The loop of \<open>insertSorted\<close>; \<open>>>> 1\<close> is division by two on array indices (arrays are far shorter
  than \<open>2^31\<close>).
\<close>

function insert_position :: "'h handler_entry list \<Rightarrow> priority \<Rightarrow> nat \<Rightarrow> nat \<Rightarrow> nat" where
  "insert_position entries p low high =
     (if low < high
      then (let mid = (low + high) div 2
            in if he_priority (entries ! mid) \<ge> p then insert_position entries p (mid + 1) high
               else insert_position entries p low mid)
      else low)"
  by pat_completeness auto
termination
  by (relation "measure (\<lambda>(entries, p, low, high). high - low)") auto

declare insert_position.simps [simp del]

definition insertSorted :: "'h handler_entry list \<Rightarrow> 'h handler_entry \<Rightarrow> 'h handler_entry list" where
  "insertSorted entries entry =
     (let low = insert_position entries (he_priority entry) 0 (length entries)
      in take low entries @ entry # drop low entries)"

definition mergeSortedHandlerArrays :: "'h handler_entry list list \<Rightarrow> 'h handler_entry list" where
  "mergeSortedHandlerArrays arrays =
     (case arrays of
        [] \<Rightarrow> []
      | [arr] \<Rightarrow> arr
      | _ \<Rightarrow> js_sort (by_priority_desc he_priority) (concat arrays))"

abbreviation prio_sorted :: "'h handler_entry list \<Rightarrow> bool" where
  "prio_sorted \<equiv> sorted_wrt (\<lambda>a b. he_priority b \<le> he_priority a)"

lemma prio_sorted_ordered: "prio_sorted xs \<longleftrightarrow> prio.ordered he_priority xs"
  by (simp add: by_priority_desc_def)

section \<open>The loop finds the end of the block of higher or equal priorities\<close>

lemma insert_position_bounds:
  "low \<le> high \<Longrightarrow> low \<le> insert_position entries p low high \<and> insert_position entries p low high \<le> high"
proof (induction entries p low high rule: insert_position.induct)
  case (1 entries p low high)
  show ?case
  proof (cases "low < high")
    case True
    let ?mid = "(low + high) div 2"
    have mid: "low \<le> ?mid" "?mid < high" using True by auto
    show ?thesis
      using "1.IH" [OF True refl] mid True
      by (subst insert_position.simps; subst (2) insert_position.simps) (auto simp: Let_def)
  next
    case False
    with 1 show ?thesis by (simp add: insert_position.simps)
  qed
qed

lemma insert_position_split:
  assumes "prio_sorted entries" and "low \<le> high" and "high \<le> length entries"
    and "\<forall>i < low. p \<le> he_priority (entries ! i)"
    and "\<forall>i. high \<le> i \<and> i < length entries \<longrightarrow> he_priority (entries ! i) < p"
  shows "(\<forall>i < insert_position entries p low high. p \<le> he_priority (entries ! i))
     \<and> (\<forall>i. insert_position entries p low high \<le> i \<and> i < length entries
            \<longrightarrow> he_priority (entries ! i) < p)"
  using assms
proof (induction entries p low high rule: insert_position.induct)
  case (1 entries p low high)
  show ?case
  proof (cases "low < high")
    case True
    let ?mid = "(low + high) div 2"
    have mid: "low \<le> ?mid" "?mid < high" "?mid < length entries" using True "1.prems"(3) by auto
    have mono: "i < j \<Longrightarrow> j < length entries \<Longrightarrow> he_priority (entries ! j) \<le> he_priority (entries ! i)"
      for i j using "1.prems"(1) by (simp add: sorted_wrt_iff_nth_less)
    have step: "insert_position entries p low high =
        (if p \<le> he_priority (entries ! ?mid) then insert_position entries p (?mid + 1) high
         else insert_position entries p low ?mid)"
      using True by (subst insert_position.simps) (simp add: Let_def)
    show ?thesis
    proof (cases "p \<le> he_priority (entries ! ?mid)")
      case ge: True
      have low': "\<forall>i < ?mid + 1. p \<le> he_priority (entries ! i)"
        using mono [of _ ?mid] mid ge by (metis less_Suc_eq Suc_eq_plus1 order_trans)
      from "1.IH"(1) [OF True refl ge "1.prems"(1) _ "1.prems"(3) low' "1.prems"(5)] mid True ge
      show ?thesis unfolding step by (simp add: Let_def)
    next
      case lt: False
      have high': "\<forall>i. ?mid \<le> i \<and> i < length entries \<longrightarrow> he_priority (entries ! i) < p"
        using mono [of ?mid] lt by (metis le_neq_implies_less not_le order_le_less_trans)
      from "1.IH"(2) [OF True refl lt "1.prems"(1) mid(1) _ "1.prems"(4) high'] mid True lt
      show ?thesis unfolding step by (simp add: Let_def)
    qed
  next
    case False
    with "1.prems" show ?thesis by (simp add: insert_position.simps)
  qed
qed

text \<open>The insertion point is the end of the prefix of entries of at least this priority.\<close>

lemma insertSorted_eq:
  assumes "prio_sorted entries"
  shows "insertSorted entries e =
     takeWhile (\<lambda>x. he_priority e \<le> he_priority x) entries @ e
       # dropWhile (\<lambda>x. he_priority e \<le> he_priority x) entries"
proof -
  let ?n = "insert_position entries (he_priority e) 0 (length entries)"
  let ?P = "\<lambda>x. he_priority e \<le> he_priority x"
  have n: "?n \<le> length entries" using insert_position_bounds [of 0 "length entries"] by simp
  have split: "\<forall>i < ?n. ?P (entries ! i)"
    "\<forall>i. ?n \<le> i \<and> i < length entries \<longrightarrow> he_priority (entries ! i) < he_priority e"
    using insert_position_split [OF assms, of 0 "length entries" "he_priority e"] by simp_all
  have "takeWhile ?P entries = take ?n entries"
    by (rule takeWhile_eq_take_P_nth) (use split in \<open>auto simp: not_le\<close>)
  moreover from this have "dropWhile ?P entries = drop ?n entries"
    using n by (metis dropWhile_eq_drop length_take min.absorb2)
  ultimately show ?thesis by (simp add: insertSorted_def Let_def)
qed

section \<open>Contract of a priority registry\<close>

text \<open>
  A client registers entries one at a time and reads the list back. The contract: adding an entry to
  an ordered registry gives the stable sort of the old contents followed by the new entry. It
  follows that the contents are the stable sort of the whole registration history, and that removing
  entries by a predicate gives what registering only the others would have given.
\<close>

locale priority_registry =
  fixes add :: "'e list \<Rightarrow> 'e \<Rightarrow> 'e list"
    and pri :: "'e \<Rightarrow> int"
  assumes add_sorts: "prio.ordered pri es \<Longrightarrow> add es e = js_sort (by_priority_desc pri) (es @ [e])"
begin

lemma sort_snoc:
  "js_sort (by_priority_desc pri) (js_sort (by_priority_desc pri) hist @ [e])
     = js_sort (by_priority_desc pri) (hist @ [e])"
  by (rule prio.js_sort_unique [OF prio.js_sort_ordered])
     (simp add: prio.js_sort_stable)

lemma add_ordered: "prio.ordered pri es \<Longrightarrow> prio.ordered pri (add es e)"
  by (simp only: add_sorts prio.js_sort_ordered)

lemma set_add: "prio.ordered pri es \<Longrightarrow> set (add es e) = insert e (set es)"
  by (simp add: add_sorts)

theorem history: "foldl add [] hist = js_sort (by_priority_desc pri) hist"
proof (induction hist rule: rev_induct)
  case (snoc e hist)
  then have "foldl add [] (hist @ [e]) = add (js_sort (by_priority_desc pri) hist) e" by simp
  then show ?case by (simp only: add_sorts [OF prio.js_sort_ordered] sort_snoc)
qed simp

theorem removal: "filter Q (foldl add [] hist) = foldl add [] (filter Q hist)"
  by (simp only: history prio.js_sort_filter)

end

lemma insertSorted_sorts:
  assumes "prio_sorted es"
  shows "insertSorted es e = js_sort (by_priority_desc he_priority) (es @ [e])"
proof (rule prio.js_sort_unique)
  let ?P = "\<lambda>x. he_priority e \<le> he_priority x"
  have "\<forall>x \<in> set (dropWhile ?P es). he_priority x < he_priority e"
  proof
    fix x
    assume x: "x \<in> set (dropWhile ?P es)"
    then obtain y ys where d: "dropWhile ?P es = y # ys" by (cases "dropWhile ?P es") auto
    then have y: "he_priority y < he_priority e" using hd_dropWhile [of ?P es] by (auto simp: not_le)
    have "prio_sorted (y # ys)" using assms d by (metis sorted_wrt_append takeWhile_dropWhile_id)
    with x d y show "he_priority x < he_priority e" by auto
  qed
  then have lt: "x \<in> set (dropWhile ?P es) \<Longrightarrow> he_priority x < he_priority e" for x by blast
  have parts: "prio_sorted (takeWhile ?P es @ dropWhile ?P es)"
    using assms by (simp only: takeWhile_dropWhile_id)
  show "prio.ordered he_priority (insertSorted es e)"
    unfolding prio_sorted_ordered [symmetric] insertSorted_eq [OF assms]
    using parts [unfolded sorted_wrt_append] lt
    by (auto simp: sorted_wrt_append dest: set_takeWhileD intro: less_imp_le)
  have none: "filter (prio.equiv_to he_priority k) (dropWhile ?P es) = []"
    if "prio.equiv_to he_priority k e" for k
    using lt that by (force simp: filter_empty_conv by_priority_desc_def)
  show "filter (prio.equiv_to he_priority k) (insertSorted es e)
      = filter (prio.equiv_to he_priority k) (es @ [e])" for k
  proof -
    have "filter (prio.equiv_to he_priority k) es
        = filter (prio.equiv_to he_priority k) (takeWhile ?P es)
          @ filter (prio.equiv_to he_priority k) (dropWhile ?P es)"
      by (metis filter_append takeWhile_dropWhile_id)
    with none [of k] show ?thesis by (simp add: insertSorted_eq [OF assms])
  qed
qed

interpretation handlers: priority_registry insertSorted he_priority
  by unfold_locales (simp add: insertSorted_sorts prio_sorted_ordered)

lemma insertSorted_prio_sorted: "prio_sorted es \<Longrightarrow> prio_sorted (insertSorted es e)"
  using handlers.add_ordered prio_sorted_ordered by blast

lemma set_insertSorted: "set (insertSorted es e) = insert e (set es)"
  using set_append [of "take n es" "drop n es" for n]
  by (auto simp: insertSorted_def Let_def dest: in_set_takeD in_set_dropD)

lemma mergeSortedHandlerArrays_eq:
  "\<forall>arr \<in> set arrays. prio_sorted arr \<Longrightarrow>
     mergeSortedHandlerArrays arrays = js_sort (by_priority_desc he_priority) (concat arrays)"
  by (auto simp: mergeSortedHandlerArrays_def prio_sorted_ordered prio.js_sort_id split: list.splits)

lemma set_mergeSortedHandlerArrays: "set (mergeSortedHandlerArrays arrays) = \<Union> (set (map set arrays))"
proof (cases arrays)
  case (Cons a rest)
  then show ?thesis by (cases rest) (simp_all add: mergeSortedHandlerArrays_def)
qed (simp add: mergeSortedHandlerArrays_def)

text \<open>
  C35. Binary-search insertion refines the registry contract: after any sequence of registrations the
  handler list is the stable sort of the registrations by descending priority, so equal priorities
  stay in registration order.
\<close>

theorem insertSorted_history:
  "foldl insertSorted [] hist = js_sort (by_priority_desc he_priority) hist"
  by (rule handlers.history)

end
