(* ===== verification/Subject_Matching.thy ===== *)
theory Subject_Matching
  imports JS_Collections
begin

text \<open>
  Subject keys and subscription patterns: \<open>core/bus-core/src/utils/subscription-matching.ts\<close> and
  the subject-key helpers of \<open>core/makaio-core\<close>. A full subject key is \<open>namespace.subject\<close>; a
  pattern is an exact key, \<open>ns.*\<close> (the subjects of one namespace), \<open>ns:*\<close> (the child namespaces) or
  the global \<open>*\<close>.
\<close>

section \<open>Subject definitions\<close>

datatype default_transports = DT_all | DT_localOnly

text \<open>The part of a \<open>SubjectDefinition\<close> the bus reads: the key and its \<open>$meta\<close>.\<close>

record subject_definition =
  sd_subject :: string
  sd_namespace :: string
  sd_isRequest :: bool
  sd_local :: bool
  sd_channel :: bool
  sd_defaultTransports :: "default_transports option"

definition getFullSubjectForSubjectDefinition :: "subject_definition \<Rightarrow> subject" where
  "getFullSubjectForSubjectDefinition d = sd_namespace d @ ''.'' @ sd_subject d"

section \<open>Pattern matching\<close>

definition matchesSubscription :: "subject \<Rightarrow> string \<Rightarrow> bool" where
  "matchesSubscription subj pattern =
     (if pattern = ''*'' then True
      else if \<not> ends_with pattern ''*'' then subj = pattern
      else if ends_with pattern '':*'' then starts_with subj (slice_to pattern 2 @ '':'')
      else if ends_with pattern ''.*'' then starts_with subj (slice_to pattern 2 @ ''.'')
      else False)"

fun matchesAnySubscription :: "subject \<Rightarrow> string list \<Rightarrow> bool" where
  "matchesAnySubscription subj [] = False"
| "matchesAnySubscription subj (p # ps) =
     (if matchesSubscription subj p then True else matchesAnySubscription subj ps)"

lemma matchesAny_iff: "matchesAnySubscription subj ps \<longleftrightarrow> (\<exists>p \<in> set ps. matchesSubscription subj p)"
  by (induction ps) auto

subsection \<open>What each kind of pattern matches\<close>

lemma matches_global [simp]: "matchesSubscription subj ''*''"
  by (simp add: matchesSubscription_def)

lemma matches_exact:
  "CHR ''*'' \<notin> set pattern \<Longrightarrow> matchesSubscription subj pattern \<longleftrightarrow> subj = pattern"
  by (auto simp: matchesSubscription_def ends_with_iff)

lemma matches_subject_wildcard:
  "matchesSubscription subj (ns @ ''.*'') \<longleftrightarrow> (\<exists>r. subj = ns @ ''.'' @ r)"
proof -
  have "\<not> ends_with (ns @ ''.*'') '':*''" by (auto simp: ends_with_def)
  moreover have "ends_with (ns @ ''.*'') ''.*''" "ends_with (ns @ ''.*'') ''*''"
    by (auto simp: ends_with_def Suc_diff_le)
  moreover have "ns @ ''.*'' \<noteq> ''*''" by (cases ns) auto
  ultimately show ?thesis
    by (simp add: matchesSubscription_def slice_to_append starts_with_iff)
qed

lemma matches_namespace_wildcard:
  "matchesSubscription subj (ns @ '':*'') \<longleftrightarrow> (\<exists>r. subj = ns @ '':'' @ r)"
proof -
  have "ends_with (ns @ '':*'') '':*''" "ends_with (ns @ '':*'') ''*''"
    by (auto simp: ends_with_def Suc_diff_le)
  moreover have "ns @ '':*'' \<noteq> ''*''" by (cases ns) auto
  ultimately show ?thesis
    by (simp add: matchesSubscription_def slice_to_append starts_with_iff)
qed

text \<open>The remaining patterns end in a star that follows neither separator: they match nothing.\<close>

lemma matches_malformed:
  assumes "c \<noteq> CHR ''.''" and "c \<noteq> CHR '':''"
  shows "\<not> matchesSubscription subj (p @ [c] @ ''*'')"
  using assms by (auto simp: matchesSubscription_def ends_with_iff)

lemma dot_prefix_unique:
  assumes "CHR ''.'' \<notin> set a" and "CHR ''.'' \<notin> set b" and "a @ ''.'' @ x = b @ ''.'' @ y"
  shows "a = b \<and> x = y"
  using assms
proof (induction a arbitrary: b)
  case Nil
  then show ?case by (cases b) auto
next
  case (Cons c a)
  then show ?case by (cases b) auto
qed

text \<open>A full key determines its namespace when namespace names contain no dot.\<close>

lemma full_subject_inject:
  assumes "CHR ''.'' \<notin> set (sd_namespace d)" and "CHR ''.'' \<notin> set (sd_namespace d')"
    and "getFullSubjectForSubjectDefinition d = getFullSubjectForSubjectDefinition d'"
  shows "sd_namespace d = sd_namespace d' \<and> sd_subject d = sd_subject d'"
  using dot_prefix_unique [OF assms(1,2)] assms(3)
  by (simp add: getFullSubjectForSubjectDefinition_def)

text \<open>
  Namespace isolation of the subject wildcard: with dot-free namespace names, the pattern
  \<open>ns.*\<close> matches the full key of a subject exactly when the subject belongs to \<open>ns\<close>; in particular
  a child namespace \<open>ns:child\<close> is not matched.
\<close>

lemma subject_wildcard_isolated:
  assumes "CHR ''.'' \<notin> set (sd_namespace d)" and "CHR ''.'' \<notin> set ns"
  shows "matchesSubscription (getFullSubjectForSubjectDefinition d) (ns @ ''.*'')
           \<longleftrightarrow> sd_namespace d = ns"
  using dot_prefix_unique [OF assms]
  by (auto simp: matches_subject_wildcard getFullSubjectForSubjectDefinition_def)

end
