(* ===== verification/Namespace_Registry.thy ===== *)
theory Namespace_Registry
  imports Subject_Matching
begin

text \<open>
  The namespace registry of a bus: \<open>core/bus-core/src/registries/namespace-registry.ts\<close> and
  \<open>routing-metadata.ts\<close>, with the schema wrappers of \<open>core/makaio-core/src/subject-helpers\<close>. The
  type variable \<open>'z\<close> stands for Zod schemas, which the registry only stores, compares by identity
  and fingerprints through \<open>z.toJSONSchema\<close>; the latter is the parameter \<open>toJSON\<close>, giving the
  serialised JSON Schema, or \<open>None\<close> when the conversion throws. Calls of \<open>console.warn\<close> are returned
  as a list.
\<close>

section \<open>Schemas and their wrappers\<close>

datatype 'z base_schema = EventSchema 'z | RequestSchema (req_schema: 'z) (res_schema: 'z)

datatype 'z subject_schema =
    BaseSubject "'z base_schema"
  | LocalSubject "'z base_schema"
  | CollectorOnlySubject 'z
  | ChannelSubject "'z base_schema"
  | HostLocalRequest 'z 'z
  | DefaultTransports "'z base_schema" default_transports

fun isRequestSchema :: "'z base_schema \<Rightarrow> bool" where
  "isRequestSchema (RequestSchema _ _) = True"
| "isRequestSchema (EventSchema _) = False"

fun isLocalSchema :: "'z subject_schema \<Rightarrow> bool" where
  "isLocalSchema (LocalSubject _) = True"
| "isLocalSchema _ = False"

fun isCollectorOnlySchema :: "'z subject_schema \<Rightarrow> bool" where
  "isCollectorOnlySchema (CollectorOnlySubject _) = True"
| "isCollectorOnlySchema _ = False"

fun isChannelSchema :: "'z subject_schema \<Rightarrow> bool" where
  "isChannelSchema (ChannelSubject _) = True"
| "isChannelSchema _ = False"

fun isHostLocalRequestSchema :: "'z subject_schema \<Rightarrow> bool" where
  "isHostLocalRequestSchema (HostLocalRequest _ _) = True"
| "isHostLocalRequestSchema _ = False"

fun isDefaultTransportsSchema :: "'z subject_schema \<Rightarrow> default_transports option" where
  "isDefaultTransportsSchema (DefaultTransports _ dt) = Some dt"
| "isDefaultTransportsSchema _ = None"

fun unwrapSchema :: "'z subject_schema \<Rightarrow> 'z base_schema" where
  "unwrapSchema (LocalSubject s) = s"
| "unwrapSchema (CollectorOnlySubject z) = EventSchema z"
| "unwrapSchema (ChannelSubject s) = s"
| "unwrapSchema (HostLocalRequest q r) = RequestSchema q r"
| "unwrapSchema (DefaultTransports s _) = s"
| "unwrapSchema (BaseSubject s) = s"

section \<open>Routing metadata\<close>

record routing_metadata =
  rm_local :: bool
  rm_collectorOnly :: bool
  rm_channel :: bool
  rm_hostLocalRequest :: bool
  rm_defaultTransports :: "default_transports option"

definition extractRoutingMetadata :: "'z subject_schema \<Rightarrow> routing_metadata" where
  "extractRoutingMetadata schema =
     \<lparr>rm_local = isLocalSchema schema, rm_collectorOnly = isCollectorOnlySchema schema,
      rm_channel = isChannelSchema schema, rm_hostLocalRequest = isHostLocalRequestSchema schema,
      rm_defaultTransports = isDefaultTransportsSchema schema\<rparr>"

type_synonym 'z schema_record = "(string, 'z subject_schema) js_map"

definition buildNamespaceRoutingMetadata ::
  "'z schema_record \<Rightarrow> (string, routing_metadata) js_map" where
  "buildNamespaceRoutingMetadata schemas =
     fold (\<lambda>(subject, schema). map_set subject (extractRoutingMetadata schema)) schemas []"

fun show_default_transports :: "default_transports \<Rightarrow> string" where
  "show_default_transports DT_all = ''all''"
| "show_default_transports DT_localOnly = ''local-only''"

definition formatRoutingMetadata :: "routing_metadata \<Rightarrow> string" where
  "formatRoutingMetadata m =
     (let flags =
        (if rm_local m then [''local''] else [])
        @ (if rm_collectorOnly m then [''collectorOnly''] else [])
        @ (if rm_channel m then [''channel''] else [])
        @ (if rm_hostLocalRequest m then [''hostLocalRequest''] else [])
        @ (case rm_defaultTransports m of None \<Rightarrow> []
           | Some dt \<Rightarrow> [''defaultTransports='' @ show_default_transports dt])
      in if flags \<noteq> [] then join_with '', '' flags else ''(none)'')"

datatype registry_error = RoutingMetadataCollision string "string list"

definition metadata_conflict :: "routing_metadata \<Rightarrow> routing_metadata \<Rightarrow> bool" where
  "metadata_conflict existing incoming \<longleftrightarrow>
     rm_local existing \<noteq> rm_local incoming
     \<or> rm_collectorOnly existing \<noteq> rm_collectorOnly incoming
     \<or> rm_channel existing \<noteq> rm_channel incoming
     \<or> rm_hostLocalRequest existing \<noteq> rm_hostLocalRequest incoming
     \<or> rm_defaultTransports existing \<noteq> rm_defaultTransports incoming"

fun routing_conflicts ::
  "(string, routing_metadata) js_map \<Rightarrow> (string, routing_metadata) js_map \<Rightarrow> string list" where
  "routing_conflicts existingMetadata [] = []"
| "routing_conflicts existingMetadata ((subject, incoming) # rest) =
     (case map_get existingMetadata subject of
        None \<Rightarrow> routing_conflicts existingMetadata rest
      | Some existing \<Rightarrow>
          (if metadata_conflict existing incoming
           then [subject @ '': existing=['' @ formatRoutingMetadata existing @ ''], incoming=[''
                   @ formatRoutingMetadata incoming @ '']'']
           else []) @ routing_conflicts existingMetadata rest)"

definition failOnRoutingMetadataCollision ::
  "string \<Rightarrow> (string, routing_metadata) js_map \<Rightarrow> (string, routing_metadata) js_map
     \<Rightarrow> registry_error + unit" where
  "failOnRoutingMetadataCollision domain existingMetadata incomingMetadata =
     (let conflicts = routing_conflicts existingMetadata incomingMetadata
      in if conflicts = [] then Inr () else Inl (RoutingMetadataCollision domain conflicts))"

section \<open>The registry\<close>

datatype bus_validation_mode = VM_strict | VM_lenient | VM_skip

record validation_config =
  vc_mode :: bus_validation_mode
  vc_onViolation :: "nat option"

record registration_options =
  ro_busValidationMode :: "bus_validation_mode option"
  ro_onSchemaViolation :: "nat option"

text \<open>The subject tree is opaque to the registry (\<open>unknown\<close> in the source): its identity.\<close>

record 'z namespace_definition =
  nd_name :: string
  nd_subjects :: nat
  nd_schemas :: "'z schema_record"
  nd_options :: "registration_options option"
  nd_defaultTransports :: "default_transports option"

record 'z registered_subject =
  rs_namespace :: string
  rs_subject :: string
  rs_fullSubject :: subject
  rs_schema :: "'z base_schema"
  rs_local :: bool
  rs_collectorOnly :: bool
  rs_channel :: bool
  rs_hostLocalRequest :: bool

record 'z namespace_registry =
  nr_namespaces :: "(string, nat) js_map"
  nr_namespaceSubjectSchemas :: "(string, (string, 'z base_schema) js_map) js_map"
  nr_namespaceRoutingMetadata :: "(string, (string, routing_metadata) js_map) js_map"
  nr_subjectSchemas :: "(subject, 'z base_schema) js_map"
  nr_registeredSubjects :: "(subject, 'z registered_subject) js_map"
  nr_localSubjects :: "subject list"
  nr_collectorOnlySubjects :: "subject list"
  nr_hostLocalRequestSubjects :: "subject list"
  nr_validationConfig :: "(string, validation_config) js_map"
  nr_defaultTransportsMap :: "(subject, default_transports) js_map"

definition createNamespaceRegistry :: "'z namespace_registry" where
  "createNamespaceRegistry =
     \<lparr>nr_namespaces = [], nr_namespaceSubjectSchemas = [], nr_namespaceRoutingMetadata = [],
      nr_subjectSchemas = [], nr_registeredSubjects = [], nr_localSubjects = [],
      nr_collectorOnlySubjects = [], nr_hostLocalRequestSubjects = [], nr_validationConfig = [],
      nr_defaultTransportsMap = []\<rparr>"

definition buildNamespaceSubjectSchemas ::
  "'z schema_record \<Rightarrow> (string, 'z base_schema) js_map" where
  "buildNamespaceSubjectSchemas schemas =
     fold (\<lambda>(subject, schema). map_set subject (unwrapSchema schema)) schemas []"

definition strict_config :: validation_config where
  "strict_config = \<lparr>vc_mode = VM_strict, vc_onViolation = None\<rparr>"

definition validationConfigFromOptions :: "registration_options option \<Rightarrow> validation_config" where
  "validationConfigFromOptions options =
     (case options of
        None \<Rightarrow> strict_config
      | Some opts \<Rightarrow>
          (if ro_busValidationMode opts = Some VM_lenient
           then \<lparr>vc_mode = VM_lenient, vc_onViolation = ro_onSchemaViolation opts\<rparr>
           else if ro_busValidationMode opts = Some VM_skip
           then \<lparr>vc_mode = VM_skip, vc_onViolation = None\<rparr>
           else strict_config))"

text \<open>
  \<open>schemaFingerprint\<close> returns the JSON text, or the schema itself (here \<open>None\<close>) when
  \<open>z.toJSONSchema\<close> throws; two schemas without a fingerprint are compared by identity.
\<close>

fun schemaFingerprint :: "('z \<Rightarrow> string option) \<Rightarrow> 'z base_schema \<Rightarrow> string option" where
  "schemaFingerprint toJSON (EventSchema z) = toJSON z"
| "schemaFingerprint toJSON (RequestSchema q r) =
     (case toJSON q of None \<Rightarrow> None
      | Some jq \<Rightarrow>
          (case toJSON r of None \<Rightarrow> None
           | Some jr \<Rightarrow> Some (''{\"request\":'' @ jq @ '',\"response\":'' @ jr @ ''}'')))"

definition schemaDefinitionsEqual ::
  "('z \<Rightarrow> string option) \<Rightarrow> 'z base_schema \<Rightarrow> 'z base_schema \<Rightarrow> bool" where
  "schemaDefinitionsEqual toJSON existing incoming =
     (case (schemaFingerprint toJSON existing, schemaFingerprint toJSON incoming) of
        (Some a, Some b) \<Rightarrow> a = b
      | _ \<Rightarrow> existing = incoming)"

datatype registry_warning =
    SchemaCollision string (added: "string list") (removed: "string list") (changed: "string list")
  | ValidationConfigCollision string bus_validation_mode bus_validation_mode

definition warnOnSchemaCollision ::
  "('z \<Rightarrow> string option) \<Rightarrow> string \<Rightarrow> (string, 'z base_schema) js_map
     \<Rightarrow> (string, 'z base_schema) js_map \<Rightarrow> registry_warning list" where
  "warnOnSchemaCollision toJSON domain existingSchemas newSchemas =
     (let add = filter (\<lambda>k. \<not> map_has existingSchemas k) (map_keys newSchemas);
          rem = filter (\<lambda>k. \<not> map_has newSchemas k) (map_keys existingSchemas);
          chg = filter (\<lambda>k. case (map_get existingSchemas k, map_get newSchemas k) of
                    (Some e, Some n) \<Rightarrow> \<not> schemaDefinitionsEqual toJSON e n
                  | _ \<Rightarrow> False) (map_keys newSchemas)
      in if add = [] \<and> rem = [] \<and> chg = [] then []
         else [SchemaCollision domain add rem chg])"

definition warnOnValidationConfigCollision ::
  "string \<Rightarrow> validation_config \<Rightarrow> validation_config \<Rightarrow> registry_warning list" where
  "warnOnValidationConfigCollision domain existing incoming =
     (if vc_mode existing = vc_mode incoming \<and> vc_onViolation existing = vc_onViolation incoming
      then [] else [ValidationConfigCollision domain (vc_mode existing) (vc_mode incoming)])"

text \<open>The body of the registration loop for one \<open>[subject, schema]\<close> entry.\<close>

definition register_subject ::
  "string \<Rightarrow> default_transports option \<Rightarrow> string \<times> 'z subject_schema
     \<Rightarrow> 'z namespace_registry \<Rightarrow> 'z namespace_registry" where
  "register_subject domain dts e r =
     (let subject = fst e; schema = snd e; fullSubjectKey = domain @ ''.'' @ subject;
          isLocal = isLocalSchema schema; collectorOnly = isCollectorOnlySchema schema;
          channel = isChannelSchema schema; hostLocal = isHostLocalRequestSchema schema;
          unwrapped = unwrapSchema schema
      in r\<lparr>nr_subjectSchemas := map_set fullSubjectKey unwrapped (nr_subjectSchemas r),
           nr_registeredSubjects := map_set fullSubjectKey
             \<lparr>rs_namespace = domain, rs_subject = subject, rs_fullSubject = fullSubjectKey,
              rs_schema = unwrapped, rs_local = isLocal, rs_collectorOnly = collectorOnly,
              rs_channel = channel, rs_hostLocalRequest = hostLocal\<rparr> (nr_registeredSubjects r),
           nr_localSubjects :=
             (if isLocal then set_add fullSubjectKey (nr_localSubjects r) else nr_localSubjects r),
           nr_collectorOnlySubjects :=
             (if collectorOnly then set_add fullSubjectKey (nr_collectorOnlySubjects r)
              else nr_collectorOnlySubjects r),
           nr_hostLocalRequestSubjects :=
             (if hostLocal then set_add fullSubjectKey (nr_hostLocalRequestSubjects r)
              else nr_hostLocalRequestSubjects r),
           nr_defaultTransportsMap :=
             (case dts of None \<Rightarrow> nr_defaultTransportsMap r
              | Some dt \<Rightarrow> map_set fullSubjectKey dt (nr_defaultTransportsMap r))\<rparr>)"

definition registerNamespace ::
  "('z \<Rightarrow> string option) \<Rightarrow> 'z namespace_definition \<Rightarrow> 'z namespace_registry
     \<Rightarrow> registry_error + 'z namespace_registry \<times> registry_warning list" where
  "registerNamespace toJSON d r =
     (let domain = nd_name d; schemas = nd_schemas d;
          incomingSubjectSchemas = buildNamespaceSubjectSchemas schemas;
          incomingRoutingMetadata = buildNamespaceRoutingMetadata schemas
      in case map_get (nr_namespaces r) domain of
           Some existing \<Rightarrow>
             (case failOnRoutingMetadataCollision domain
                     (case map_get (nr_namespaceRoutingMetadata r) domain of
                        Some m \<Rightarrow> m | None \<Rightarrow> []) incomingRoutingMetadata of
                Inl e \<Rightarrow> Inl e
              | Inr _ \<Rightarrow>
                  Inr (r, warnOnSchemaCollision toJSON domain
                            (case map_get (nr_namespaceSubjectSchemas r) domain of
                               Some m \<Rightarrow> m | None \<Rightarrow> []) incomingSubjectSchemas
                          @ warnOnValidationConfigCollision domain
                              (case map_get (nr_validationConfig r) domain of
                                 Some c \<Rightarrow> c | None \<Rightarrow> strict_config)
                              (validationConfigFromOptions (nd_options d))))
         | None \<Rightarrow>
             (let r1 = r\<lparr>nr_validationConfig :=
                          map_set domain (validationConfigFromOptions (nd_options d))
                            (nr_validationConfig r),
                        nr_namespaceSubjectSchemas :=
                          map_set domain incomingSubjectSchemas (nr_namespaceSubjectSchemas r),
                        nr_namespaceRoutingMetadata :=
                          map_set domain incomingRoutingMetadata (nr_namespaceRoutingMetadata r)\<rparr>;
                  r2 = fold (register_subject domain (nd_defaultTransports d)) schemas r1
              in Inr (r2\<lparr>nr_namespaces := map_set domain (nd_subjects d) (nr_namespaces r2)\<rparr>, [])))"

fun registerNamespaces ::
  "('z \<Rightarrow> string option) \<Rightarrow> 'z namespace_definition list \<Rightarrow> 'z namespace_registry
     \<Rightarrow> registry_error + 'z namespace_registry \<times> registry_warning list" where
  "registerNamespaces toJSON [] r = Inr (r, [])"
| "registerNamespaces toJSON (d # ds) r =
     (case registerNamespace toJSON d r of
        Inl e \<Rightarrow> Inl e
      | Inr (r', ws) \<Rightarrow>
          (case registerNamespaces toJSON ds r' of
             Inl e \<Rightarrow> Inl e
           | Inr (r'', ws') \<Rightarrow> Inr (r'', ws @ ws')))"

section \<open>Queries\<close>

definition getSchema :: "'z namespace_registry \<Rightarrow> subject \<Rightarrow> 'z base_schema option" where
  "getSchema r subject = map_get (nr_subjectSchemas r) subject"

definition getRegisteredSubject ::
  "'z namespace_registry \<Rightarrow> subject \<Rightarrow> 'z registered_subject option" where
  "getRegisteredSubject r subject = map_get (nr_registeredSubjects r) subject"

definition isRequestSubject :: "'z namespace_registry \<Rightarrow> subject \<Rightarrow> bool" where
  "isRequestSubject r subject =
     (case map_get (nr_subjectSchemas r) subject of None \<Rightarrow> False | Some s \<Rightarrow> isRequestSchema s)"

definition isLocalSubject :: "'z namespace_registry \<Rightarrow> subject \<Rightarrow> bool" where
  "isLocalSubject r subject \<longleftrightarrow> subject \<in> set (nr_localSubjects r)"

definition isCollectorOnlySubject :: "'z namespace_registry \<Rightarrow> subject \<Rightarrow> bool" where
  "isCollectorOnlySubject r subject \<longleftrightarrow> subject \<in> set (nr_collectorOnlySubjects r)"

definition isHostLocalRequestSubject :: "'z namespace_registry \<Rightarrow> subject \<Rightarrow> bool" where
  "isHostLocalRequestSubject r subject \<longleftrightarrow> subject \<in> set (nr_hostLocalRequestSubjects r)"

definition getDefaultTransports :: "'z namespace_registry \<Rightarrow> subject \<Rightarrow> default_transports" where
  "getDefaultTransports r subject =
     (case map_get (nr_defaultTransportsMap r) subject of Some dt \<Rightarrow> dt | None \<Rightarrow> DT_all)"

fun best_match ::
  "subject \<Rightarrow> (string, validation_config) js_map \<Rightarrow> (string \<times> validation_config) option
     \<Rightarrow> (string \<times> validation_config) option" where
  "best_match subject [] best = best"
| "best_match subject ((ns, config) # rest) best =
     best_match subject rest
       (if subject = ns \<or> starts_with subject (ns @ ''.'')
        then (case best of
                None \<Rightarrow> Some (ns, config)
              | Some (ns', _) \<Rightarrow> if length ns' < length ns then Some (ns, config) else best)
        else best)"

definition getValidationConfig :: "'z namespace_registry \<Rightarrow> subject \<Rightarrow> validation_config" where
  "getValidationConfig r subject =
     (case best_match subject (nr_validationConfig r) None of
        Some (_, config) \<Rightarrow> config | None \<Rightarrow> strict_config)"

text \<open>
  Subject keys are ASCII, so \<open>toLowerCase\<close> folds \<open>A\<close>-\<open>Z\<close> and code points are characters.
\<close>

definition to_lower_char :: "char \<Rightarrow> char" where
  "to_lower_char c = (let n = (of_char c :: nat) in if 65 \<le> n \<and> n \<le> 90 then char_of (n + 32) else c)"

fun code_point_loop :: "string \<Rightarrow> string \<Rightarrow> int" where
  "code_point_loop (x # xs) (y # ys) =
     (if x \<noteq> y then (if (of_char x :: nat) < of_char y then - 1 else 1) else code_point_loop xs ys)"
| "code_point_loop xs ys = int (length xs) - int (length ys)"

definition compareCodePointStrings :: "string \<Rightarrow> string \<Rightarrow> int" where
  "compareCodePointStrings left right = (if left = right then 0 else code_point_loop left right)"

definition compareStrings :: "string \<Rightarrow> string \<Rightarrow> int" where
  "compareStrings left right =
     (let folded = compareCodePointStrings (map to_lower_char left) (map to_lower_char right)
      in if folded \<noteq> 0 then folded else compareCodePointStrings left right)"

definition listRegisteredSubjects :: "'z namespace_registry \<Rightarrow> 'z registered_subject list" where
  "listRegisteredSubjects r =
     js_sort (\<lambda>a b. compareStrings (rs_fullSubject a) (rs_fullSubject b))
       (map snd (nr_registeredSubjects r))"

section \<open>The listing order is a total order on keys\<close>

lemma code_point_loop_zero: "code_point_loop xs ys = 0 \<longleftrightarrow> xs = ys"
  by (induction xs ys rule: code_point_loop.induct) auto

lemma code_point_loop_swap: "code_point_loop ys xs = - code_point_loop xs ys"
  by (induction xs ys rule: code_point_loop.induct) auto

lemma code_point_loop_Nil [simp]:
  "code_point_loop [] ys = - int (length ys)" "code_point_loop xs [] = int (length xs)"
  by (cases ys; simp) (cases xs; simp)

lemma code_point_loop_trans:
  "code_point_loop xs ys \<le> 0 \<Longrightarrow> code_point_loop ys zs \<le> 0 \<Longrightarrow> code_point_loop xs zs \<le> 0"
proof (induction xs ys arbitrary: zs rule: code_point_loop.induct)
  case (1 x xs y ys)
  then show ?case by (cases zs) (auto split: if_splits)
qed auto

lemma compareCodePoint_eq: "compareCodePointStrings = code_point_loop"
  by (intro ext) (auto simp: compareCodePointStrings_def code_point_loop_zero)

lemma compareStrings_zero: "compareStrings a b = 0 \<longleftrightarrow> a = b"
  by (auto simp: compareStrings_def compareCodePoint_eq code_point_loop_zero Let_def)

lemma compareStrings_swap: "compareStrings b a = - compareStrings a b"
  using code_point_loop_swap [of "map to_lower_char b" "map to_lower_char a"]
    code_point_loop_swap [of b a]
  by (simp add: compareStrings_def compareCodePoint_eq Let_def)

lemma compareStrings_trans:
  assumes "compareStrings a b \<le> 0" and "compareStrings b c \<le> 0"
  shows "compareStrings a c \<le> 0"
proof -
  let ?l = "map to_lower_char"
  have fab: "code_point_loop (?l a) (?l b) \<le> 0" and fbc: "code_point_loop (?l b) (?l c) \<le> 0"
    using assms by (auto simp: compareStrings_def compareCodePoint_eq Let_def split: if_splits)
  have fac: "code_point_loop (?l a) (?l c) \<le> 0" by (rule code_point_loop_trans [OF fab fbc])
  show ?thesis
  proof (cases "code_point_loop (?l a) (?l c) = 0")
    case True
    then have ac: "?l a = ?l c" by (simp add: code_point_loop_zero)
    then have "code_point_loop (?l a) (?l b) = 0"
      using fab fbc code_point_loop_swap [of "?l a" "?l b"] by simp
    then have "?l a = ?l b" by (simp add: code_point_loop_zero)
    with ac assms have "code_point_loop a b \<le> 0" "code_point_loop b c \<le> 0"
      by (simp_all add: compareStrings_def compareCodePoint_eq Let_def code_point_loop_zero)
    then have "code_point_loop a c \<le> 0" by (rule code_point_loop_trans)
    with True show ?thesis by (simp add: compareStrings_def compareCodePoint_eq Let_def)
  next
    case False
    with fac show ?thesis by (simp add: compareStrings_def compareCodePoint_eq Let_def)
  qed
qed

definition compareSubjects :: "'z registered_subject \<Rightarrow> 'z registered_subject \<Rightarrow> int" where
  "compareSubjects a b = compareStrings (rs_fullSubject a) (rs_fullSubject b)"

interpretation subj_order: js_comparator "compareSubjects :: 'z registered_subject \<Rightarrow> _"
proof
  fix x y z :: "'z registered_subject"
  show "compareSubjects x x \<le> 0"
    by (simp add: compareSubjects_def compareStrings_zero [THEN iffD2])
  show "compareSubjects x y \<le> 0 \<or> compareSubjects y x \<le> 0"
    using compareStrings_swap [of "rs_fullSubject x" "rs_fullSubject y"]
    by (auto simp: compareSubjects_def)
qed (auto simp: compareSubjects_def intro: compareStrings_trans)

lemma list_registered_sorted: "subj_order.ordered (listRegisteredSubjects r)"
  unfolding listRegisteredSubjects_def compareSubjects_def [symmetric]
  by (rule subj_order.js_sort_ordered)

lemma set_listRegisteredSubjects:
  "set (listRegisteredSubjects r) = snd ` set (nr_registeredSubjects r)"
  by (simp add: listRegisteredSubjects_def)

section \<open>Registry invariant\<close>

text \<open>
  With domain names in \<open>doms\<close>, all of them dot-free: every registered subject is stored under its
  own key, belongs to one of the domains, and is in a flag set exactly when its record carries the
  flag.
\<close>

definition registry_inv :: "string set \<Rightarrow> 'z namespace_registry \<Rightarrow> bool" where
  "registry_inv doms r \<longleftrightarrow>
     map_wf (nr_registeredSubjects r)
     \<and> (\<forall>k e. map_get (nr_registeredSubjects r) k = Some e \<longrightarrow>
          rs_fullSubject e = k \<and> k = rs_namespace e @ ''.'' @ rs_subject e
          \<and> CHR ''.'' \<notin> set (rs_namespace e) \<and> rs_namespace e \<in> doms)
     \<and> (\<forall>k. isLocalSubject r k \<longleftrightarrow> (\<exists>e. getRegisteredSubject r k = Some e \<and> rs_local e))
     \<and> (\<forall>k. isCollectorOnlySubject r k
             \<longleftrightarrow> (\<exists>e. getRegisteredSubject r k = Some e \<and> rs_collectorOnly e))
     \<and> (\<forall>k. isHostLocalRequestSubject r k
             \<longleftrightarrow> (\<exists>e. getRegisteredSubject r k = Some e \<and> rs_hostLocalRequest e))"

definition registry_wf :: "'z namespace_registry \<Rightarrow> bool" where
  "registry_wf r \<longleftrightarrow> registry_inv (set (map_keys (nr_namespaces r))) r"

definition definition_wf :: "'z namespace_definition \<Rightarrow> bool" where
  "definition_wf d \<longleftrightarrow> CHR ''.'' \<notin> set (nd_name d) \<and> map_wf (nd_schemas d)"

lemmas registry_queries =
  isLocalSubject_def isCollectorOnlySubject_def isHostLocalRequestSubject_def
  getRegisteredSubject_def

lemma registry_wf_create: "registry_wf createNamespaceRegistry"
  by (simp add: registry_wf_def registry_inv_def createNamespaceRegistry_def registry_queries)

lemma register_subject_get:
  "getRegisteredSubject (register_subject domain dts e r) k =
     (if k = domain @ ''.'' @ fst e
      then Some \<lparr>rs_namespace = domain, rs_subject = fst e, rs_fullSubject = domain @ ''.'' @ fst e,
             rs_schema = unwrapSchema (snd e), rs_local = isLocalSchema (snd e),
             rs_collectorOnly = isCollectorOnlySchema (snd e), rs_channel = isChannelSchema (snd e),
             rs_hostLocalRequest = isHostLocalRequestSchema (snd e)\<rparr>
      else getRegisteredSubject r k)"
  by (simp add: register_subject_def getRegisteredSubject_def js_simps Let_def)

lemma register_subject_inv:
  assumes inv: "registry_inv doms r" and dom: "domain \<in> doms" "CHR ''.'' \<notin> set domain"
    and fresh: "getRegisteredSubject r (domain @ ''.'' @ fst e) = None"
  shows "registry_inv doms (register_subject domain dts e r)"
proof -
  let ?k = "domain @ ''.'' @ fst e" and ?r = "register_subject domain dts e r"
  have out: "\<not> isLocalSubject r ?k" "\<not> isCollectorOnlySubject r ?k"
      "\<not> isHostLocalRequestSubject r ?k"
    using inv fresh by (auto simp: registry_inv_def)
  have flags: "isLocalSubject ?r k \<longleftrightarrow> (if k = ?k then isLocalSchema (snd e) else isLocalSubject r k)"
    "isCollectorOnlySubject ?r k
       \<longleftrightarrow> (if k = ?k then isCollectorOnlySchema (snd e) else isCollectorOnlySubject r k)"
    "isHostLocalRequestSubject ?r k
       \<longleftrightarrow> (if k = ?k then isHostLocalRequestSchema (snd e) else isHostLocalRequestSubject r k)" for k
    using out by (auto simp: register_subject_def registry_queries Let_def)
  have wf: "map_wf (nr_registeredSubjects ?r)"
    using inv by (simp add: registry_inv_def register_subject_def js_simps Let_def)
  show ?thesis
    unfolding registry_inv_def flags register_subject_get
    unfolding getRegisteredSubject_def [symmetric] register_subject_get
    using inv dom wf by (auto simp: registry_inv_def getRegisteredSubject_def)
qed

lemma register_subjects_inv:
  assumes "registry_inv doms r" and "domain \<in> doms" "CHR ''.'' \<notin> set domain"
    and "map_wf schemas"
    and "\<And>s. s \<in> set (map fst schemas) \<Longrightarrow> getRegisteredSubject r (domain @ ''.'' @ s) = None"
  shows "registry_inv doms (fold (register_subject domain dts) schemas r)"
  using assms
proof (induction schemas arbitrary: r)
  case (Cons e schemas)
  have wf: "map_wf schemas" and notin: "fst e \<notin> set (map fst schemas)"
    using Cons.prems(4) by (auto simp: map_wf_def)
  have step: "registry_inv doms (register_subject domain dts e r)"
    by (rule register_subject_inv [OF Cons.prems(1-3) Cons.prems(5)]) simp
  have "registry_inv doms (fold (register_subject domain dts) schemas (register_subject domain dts e r))"
  proof (rule Cons.IH [OF step Cons.prems(2,3) wf])
    fix s
    assume s: "s \<in> set (map fst schemas)"
    with notin have "s \<noteq> fst e" by blast
    with s Cons.prems(5) [of s]
    show "getRegisteredSubject (register_subject domain dts e r) (domain @ ''.'' @ s) = None"
      by (simp add: register_subject_get)
  qed
  then show ?case by simp
qed simp

lemma register_subjects_get:
  assumes "map_wf schemas"
  shows "getRegisteredSubject (fold (register_subject domain dts) schemas r) k =
     (case find (\<lambda>e. k = domain @ ''.'' @ fst e) schemas of
        Some e \<Rightarrow> getRegisteredSubject (register_subject domain dts e r) k
      | None \<Rightarrow> getRegisteredSubject r k)"
  using assms
proof (induction schemas arbitrary: r)
  case (Cons e schemas)
  have wf: "map_wf schemas" and notin: "fst e \<notin> set (map fst schemas)"
    using Cons.prems by (auto simp: map_wf_def)
  have "find (\<lambda>x. k = domain @ ''.'' @ fst x) schemas = None" if "k = domain @ ''.'' @ fst e"
    using notin that unfolding find_None_iff by (metis append_same_eq image_eqI list.set_map same_append_eq)
  with Cons.IH [OF wf] show ?case
    by (auto simp: register_subject_get split: option.splits)
qed simp

lemma register_subjects_namespaces [simp]:
  "nr_namespaces (fold (register_subject domain dts) schemas r) = nr_namespaces r"
  by (induction schemas arbitrary: r) (auto simp: register_subject_def Let_def)

text \<open>Two ways a registration ends: the namespace is known and the state is kept, or it is new.\<close>

lemma registerNamespace_cases:
  assumes "registerNamespace toJSON d r = Inr (r', ws)"
  obtains (known) "map_has (nr_namespaces r) (nd_name d)" "r' = r"
  | (fresh) r1 where "\<not> map_has (nr_namespaces r) (nd_name d)"
      "nr_registeredSubjects r1 = nr_registeredSubjects r"
      "nr_localSubjects r1 = nr_localSubjects r"
      "nr_collectorOnlySubjects r1 = nr_collectorOnlySubjects r"
      "nr_hostLocalRequestSubjects r1 = nr_hostLocalRequestSubjects r"
      "nr_namespaces r1 = nr_namespaces r"
      "r' = (fold (register_subject (nd_name d) (nd_defaultTransports d)) (nd_schemas d) r1)
              \<lparr>nr_namespaces := map_set (nd_name d) (nd_subjects d) (nr_namespaces r)\<rparr>"
proof (cases "map_get (nr_namespaces r) (nd_name d)")
  case None
  show ?thesis
    by (rule fresh [of "r\<lparr>nr_validationConfig := map_set (nd_name d)
              (validationConfigFromOptions (nd_options d)) (nr_validationConfig r),
            nr_namespaceSubjectSchemas := map_set (nd_name d)
              (buildNamespaceSubjectSchemas (nd_schemas d)) (nr_namespaceSubjectSchemas r),
            nr_namespaceRoutingMetadata := map_set (nd_name d)
              (buildNamespaceRoutingMetadata (nd_schemas d)) (nr_namespaceRoutingMetadata r)\<rparr>"])
      (use assms None in \<open>auto simp: registerNamespace_def Let_def map_has_get\<close>)
next
  case (Some x)
  with assms known show ?thesis
    by (auto simp: registerNamespace_def Let_def map_has_get split: sum.splits)
qed

lemma registry_inv_cong:
  "\<lbrakk>registry_inv doms r; nr_registeredSubjects r' = nr_registeredSubjects r;
    nr_localSubjects r' = nr_localSubjects r;
    nr_collectorOnlySubjects r' = nr_collectorOnlySubjects r;
    nr_hostLocalRequestSubjects r' = nr_hostLocalRequestSubjects r; doms \<subseteq> doms'\<rbrakk>
   \<Longrightarrow> registry_inv doms' r'"
  unfolding registry_inv_def registry_queries by auto

text \<open>No subject of a domain that is not registered yet is present.\<close>

lemma registry_wf_fresh_domain:
  assumes "registry_wf r" and "\<not> map_has (nr_namespaces r) domain" and "CHR ''.'' \<notin> set domain"
  shows "getRegisteredSubject r (domain @ ''.'' @ s) = None"
proof (rule ccontr)
  assume "getRegisteredSubject r (domain @ ''.'' @ s) \<noteq> None"
  then obtain e where e: "map_get (nr_registeredSubjects r) (domain @ ''.'' @ s) = Some e"
    by (auto simp: getRegisteredSubject_def)
  with assms(1) have "domain @ ''.'' @ s = rs_namespace e @ ''.'' @ rs_subject e"
    "CHR ''.'' \<notin> set (rs_namespace e)" "rs_namespace e \<in> set (map_keys (nr_namespaces r))"
    unfolding registry_wf_def registry_inv_def by blast+
  with dot_prefix_unique [OF assms(3)] have "domain \<in> set (map_keys (nr_namespaces r))" by blast
  with assms(2) show False by (simp add: map_has_def map_keys_def)
qed

lemma registerNamespace_wf:
  assumes "registry_wf r" and "definition_wf d" and "registerNamespace toJSON d r = Inr (r', ws)"
  shows "registry_wf r'"
  using assms(3)
proof (cases rule: registerNamespace_cases)
  case known
  with assms(1) show ?thesis by simp
next
  case (fresh r1)
  let ?D = "insert (nd_name d) (set (map_keys (nr_namespaces r)))"
  have inv1: "registry_inv ?D r1"
    using assms(1) fresh by (auto simp: registry_wf_def intro: registry_inv_cong)
  have "registry_inv ?D (fold (register_subject (nd_name d) (nd_defaultTransports d)) (nd_schemas d) r1)"
  proof (rule register_subjects_inv [OF inv1])
    fix s
    show "getRegisteredSubject r1 (nd_name d @ ''.'' @ s) = None"
      using registry_wf_fresh_domain [OF assms(1) fresh(1)] assms(2) fresh(2)
      by (simp add: definition_wf_def getRegisteredSubject_def)
  qed (use assms(2) in \<open>auto simp: definition_wf_def\<close>)
  then show ?thesis
    unfolding registry_wf_def fresh(7) by (rule registry_inv_cong) (auto simp: jm.keys_put)
qed

lemma registerNamespace_keeps:
  assumes "registry_wf r" and "definition_wf d" and "registerNamespace toJSON d r = Inr (r', ws)"
    and "getRegisteredSubject r k = Some e"
  shows "getRegisteredSubject r' k = Some e"
  using assms(3)
proof (cases rule: registerNamespace_cases)
  case known
  with assms(4) show ?thesis by simp
next
  case (fresh r1)
  have "getRegisteredSubject r (nd_name d @ ''.'' @ s) = None" for s
    using registry_wf_fresh_domain [OF assms(1) fresh(1)] assms(2) by (simp add: definition_wf_def)
  with assms(4) have "find (\<lambda>x. k = nd_name d @ ''.'' @ fst x) (nd_schemas d) = None"
    by (auto simp: find_None_iff)
  with assms(2,4) fresh(2) show ?thesis
    by (simp add: fresh(7) register_subjects_get definition_wf_def getRegisteredSubject_def [symmetric]
          getRegisteredSubject_def [where r = "r\<lparr>nr_namespaces := n\<rparr>" for r n])
       (simp add: register_subjects_get getRegisteredSubject_def)
qed

lemma registerNamespaces_inv:
  assumes "registry_wf r" and "\<forall>d \<in> set ds. definition_wf d"
    and "registerNamespaces toJSON ds r = Inr (r', ws)"
  shows "registry_wf r' \<and> (\<forall>k e. getRegisteredSubject r k = Some e \<longrightarrow> getRegisteredSubject r' k = Some e)"
  using assms
proof (induction ds arbitrary: r ws)
  case (Cons d ds)
  from Cons.prems(3) obtain r1 ws1 ws2 where
    one: "registerNamespace toJSON d r = Inr (r1, ws1)" and
    rest: "registerNamespaces toJSON ds r1 = Inr (r', ws2)"
    by (auto split: sum.splits prod.splits)
  have wf1: "registry_wf r1" using registerNamespace_wf [OF Cons.prems(1) _ one] Cons.prems(2) by simp
  show ?case
    using Cons.IH [OF wf1 _ rest] registerNamespace_keeps [OF Cons.prems(1) _ one] Cons.prems(2)
    by auto
qed auto

section \<open>Collisions and idempotence\<close>

lemma metadata_conflict_iff: "metadata_conflict a b \<longleftrightarrow> a \<noteq> (b :: routing_metadata)"
  by (cases a; cases b) (auto simp: metadata_conflict_def)

lemma routing_conflicts_empty_iff:
  "routing_conflicts existing incoming = [] \<longleftrightarrow>
     (\<forall>(s, m) \<in> set incoming. \<forall>m'. map_get existing s = Some m' \<longrightarrow> m' = m)"
  by (induction existing incoming rule: routing_conflicts.induct)
     (auto simp: metadata_conflict_iff split: option.splits)

lemma map_get_routing_metadata:
  "map_wf schemas \<Longrightarrow>
     map_get (buildNamespaceRoutingMetadata schemas) s = map_option extractRoutingMetadata (map_get schemas s)"
  unfolding buildNamespaceRoutingMetadata_def by (rule map_get_fold_copy)

lemma buildNamespaceRoutingMetadata_wf: "map_wf (buildNamespaceRoutingMetadata schemas)"
  unfolding buildNamespaceRoutingMetadata_def
  by (rule fold_invariant_list) (auto simp: jm.wf_put split: prod.splits)

lemma schemaDefinitionsEqual_refl [simp]: "schemaDefinitionsEqual toJSON s s"
  by (auto simp: schemaDefinitionsEqual_def split: option.splits)

lemma warnOnSchemaCollision_same [simp]: "warnOnSchemaCollision toJSON domain m m = []"
  by (auto simp: warnOnSchemaCollision_def Let_def map_has_def map_keys_def filter_empty_conv
        split: option.splits)

text \<open>What registering a new namespace records about it.\<close>

lemma register_subjects_other [simp]:
  "nr_namespaceRoutingMetadata (fold (register_subject domain dts) schemas r) = nr_namespaceRoutingMetadata r"
  "nr_namespaceSubjectSchemas (fold (register_subject domain dts) schemas r) = nr_namespaceSubjectSchemas r"
  "nr_validationConfig (fold (register_subject domain dts) schemas r) = nr_validationConfig r"
  by (induction schemas arbitrary: r) (auto simp: register_subject_def Let_def)

lemma registerNamespace_records:
  assumes "\<not> map_has (nr_namespaces r) (nd_name d)" and "registerNamespace toJSON d r = Inr (r', ws)"
  shows "map_get (nr_namespaces r') (nd_name d) = Some (nd_subjects d)"
    "map_get (nr_namespaceRoutingMetadata r') (nd_name d)
       = Some (buildNamespaceRoutingMetadata (nd_schemas d))"
    "map_get (nr_namespaceSubjectSchemas r') (nd_name d)
       = Some (buildNamespaceSubjectSchemas (nd_schemas d))"
    "map_get (nr_validationConfig r') (nd_name d) = Some (validationConfigFromOptions (nd_options d))"
  using assms by (auto simp: registerNamespace_def Let_def map_has_get js_simps)

lemma failOnRoutingMetadataCollision_iff:
  "(\<exists>e. failOnRoutingMetadataCollision domain existing incoming = Inl e)
     \<longleftrightarrow> (\<exists>(s, m) \<in> set incoming. \<exists>m'. map_get existing s = Some m' \<and> m' \<noteq> m)"
  using routing_conflicts_empty_iff [of existing incoming]
  by (auto simp: failOnRoutingMetadataCollision_def Let_def)

text \<open>A namespace with one subject, used to instantiate the properties below.\<close>

definition agent_def :: "nat subject_schema \<Rightarrow> nat namespace_definition" where
  "agent_def schema = \<lparr>nd_name = ''agent'', nd_subjects = 0, nd_schemas = [(''run'', schema)],
     nd_options = None, nd_defaultTransports = None\<rparr>"

lemma agent_def_wf: "definition_wf (agent_def schema)"
  by (simp add: agent_def_def definition_wf_def map_wf_def)

lemma agent_def_fresh:
  "\<not> map_has (nr_namespaces createNamespaceRegistry) (nd_name (agent_def schema))"
  "\<exists>r ws. registerNamespace toJSON (agent_def schema) createNamespaceRegistry = Inr (r, ws)"
  by (simp_all add: createNamespaceRegistry_def map_has_def registerNamespace_def Let_def)

text \<open>
  Duplicate registration of a namespace is refused exactly when the two definitions disagree on
  the routing metadata (local, collector-only, channel, host-local, default transports) of a subject
  they share; the schemas themselves may differ.
\<close>

lemma registerNamespace_collision:
  assumes "definition_wf d1" and "definition_wf d2" and "nd_name d2 = nd_name d1"
    and "\<not> map_has (nr_namespaces r) (nd_name d1)"
    and "registerNamespace toJSON d1 r = Inr (r1, ws)"
  shows "(\<exists>e. registerNamespace toJSON d2 r1 = Inl e) \<longleftrightarrow>
     (\<exists>s a b. map_get (nd_schemas d1) s = Some a \<and> map_get (nd_schemas d2) s = Some b
              \<and> extractRoutingMetadata a \<noteq> extractRoutingMetadata b)"
proof -
  let ?m1 = "buildNamespaceRoutingMetadata (nd_schemas d1)"
  let ?m2 = "buildNamespaceRoutingMetadata (nd_schemas d2)"
  have "(\<exists>e. registerNamespace toJSON d2 r1 = Inl e)
      \<longleftrightarrow> (\<exists>e. failOnRoutingMetadataCollision (nd_name d1) ?m1 ?m2 = Inl e)"
    using registerNamespace_records [OF assms(4,5)] assms(3)
    by (auto simp: registerNamespace_def Let_def split: sum.splits)
  also have "\<dots> \<longleftrightarrow> (\<exists>s m m'. map_get ?m2 s = Some m \<and> map_get ?m1 s = Some m' \<and> m' \<noteq> m)"
  proof -
    have "(s, m) \<in> set ?m2 \<longleftrightarrow> map_get ?m2 s = Some m" for s m
      by (rule iffI, rule mem_map_get [OF buildNamespaceRoutingMetadata_wf], assumption, rule map_get_mem)
    then show ?thesis unfolding failOnRoutingMetadataCollision_iff by auto
  qed
  finally show ?thesis
    using assms(1,2) by (auto simp: definition_wf_def map_get_routing_metadata)
qed

text \<open>
  Registering one definition twice is idempotent: the second call succeeds, changes nothing and
  warns about nothing.
\<close>

lemma registerNamespace_idempotent:
  assumes "definition_wf d" and "\<not> map_has (nr_namespaces r) (nd_name d)"
    and "registerNamespace toJSON d r = Inr (r1, ws)"
  shows "registerNamespace toJSON d r1 = Inr (r1, [])"
proof -
  let ?m = "buildNamespaceRoutingMetadata (nd_schemas d)"
  have "routing_conflicts ?m ?m = []"
    using mem_map_get [OF buildNamespaceRoutingMetadata_wf, of _ _ "nd_schemas d"]
    by (auto simp: routing_conflicts_empty_iff)
  then show ?thesis
    using registerNamespace_records [OF assms(2,3)]
    by (simp add: registerNamespace_def Let_def failOnRoutingMetadataCollision_def
          warnOnValidationConfigCollision_def)
qed

text \<open>
  Routing flags are permanent: whatever namespaces are registered later, a registered subject
  keeps its record, and stays local, collector-only or host-local exactly as first registered
  (domain names without dots).
\<close>

lemma routing_flags_stable:
  assumes "registry_wf r" and "\<forall>d \<in> set ds. definition_wf d"
    and "registerNamespaces toJSON ds r = Inr (r', ws)"
    and "getRegisteredSubject r k = Some e"
  shows "getRegisteredSubject r' k = Some e
     \<and> isLocalSubject r' k = isLocalSubject r k
     \<and> isCollectorOnlySubject r' k = isCollectorOnlySubject r k
     \<and> isHostLocalRequestSubject r' k = isHostLocalRequestSubject r k"
proof -
  note inv = registerNamespaces_inv [OF assms(1-3)]
  then have e: "getRegisteredSubject r' k = Some e" using assms(4) by blast
  have "registry_inv (set (map_keys (nr_namespaces x))) x \<and> getRegisteredSubject x k = Some e \<Longrightarrow>
      isLocalSubject x k = rs_local e \<and> isCollectorOnlySubject x k = rs_collectorOnly e
      \<and> isHostLocalRequestSubject x k = rs_hostLocalRequest e" for x :: "'a namespace_registry"
    by (auto simp: registry_inv_def)
  from this [of r] this [of r'] inv e assms(1,4) show ?thesis by (auto simp: registry_wf_def)
qed

section \<open>Validation configuration and listing\<close>

definition governs :: "string \<Rightarrow> subject \<Rightarrow> bool" where
  "governs ns subject \<longleftrightarrow> subject = ns \<or> starts_with subject (ns @ ''.'')"

lemma best_match_None: "best_match subject m best = None \<longleftrightarrow>
     best = None \<and> (\<forall>(ns, c) \<in> set m. \<not> governs ns subject)"
  by (induction subject m best rule: best_match.induct)
     (auto simp: governs_def split: option.splits if_splits)

lemma best_match_Some:
  assumes "best_match subject m best = Some (ns, c)"
  shows "(best = Some (ns, c) \<or> ((ns, c) \<in> set m \<and> governs ns subject))
     \<and> (\<forall>(ns', c') \<in> set m. governs ns' subject \<longrightarrow> length ns' \<le> length ns)
     \<and> (\<forall>ns' c'. best = Some (ns', c') \<longrightarrow> length ns' \<le> length ns)"
  using assms
proof (induction subject m best rule: best_match.induct)
  case (2 subject ns1 c1 rest best)
  define B where "B = (if subject = ns1 \<or> starts_with subject (ns1 @ ''.'')
        then (case best of None \<Rightarrow> Some (ns1, c1)
              | Some (ns', _) \<Rightarrow> if length ns' < length ns1 then Some (ns1, c1) else best)
        else best)"
  have new: "B = best \<or> B = Some (ns1, c1) \<and> governs ns1 subject"
    and old: "best = Some (ns', c') \<Longrightarrow> \<exists>n d. B = Some (n, d) \<and> length ns' \<le> length n"
    and gov: "governs ns1 subject \<Longrightarrow> \<exists>n d. B = Some (n, d) \<and> length ns1 \<le> length n" for ns' c'
    by (auto simp: B_def governs_def split: option.splits)
  from 2 have IH: "B = Some (ns, c) \<or> ((ns, c) \<in> set rest \<and> governs ns subject)"
     "\<forall>(ns', c') \<in> set rest. governs ns' subject \<longrightarrow> length ns' \<le> length ns"
     "\<And>ns' c'. B = Some (ns', c') \<Longrightarrow> length ns' \<le> length ns" unfolding B_def by simp_all
  have "governs ns1 subject \<Longrightarrow> length ns1 \<le> length ns" using gov IH(3) by fastforce
  moreover have "best = Some (ns', c') \<Longrightarrow> length ns' \<le> length ns" for ns' c'
    using old IH(3) by fastforce
  moreover have "best = Some (ns, c) \<or> ((ns, c) \<in> set ((ns1, c1) # rest) \<and> governs ns subject)"
    using new IH(1) by auto
  ultimately show ?case using IH(2) by auto
qed simp

text \<open>Two matching namespaces of the same length are the same namespace.\<close>

lemma governs_take: "governs ns subject \<Longrightarrow> take (length ns) subject = ns"
  by (auto simp: governs_def starts_with_iff)

lemma governs_length_unique:
  "governs a subject \<Longrightarrow> governs b subject \<Longrightarrow> length a = length b \<Longrightarrow> a = b"
  using governs_take by metis

text \<open>
  The validation policy of a subject is that of the most specific registered namespace: the
  longest one that is a dot-prefix of the key; with no such namespace validation is strict.
\<close>

lemma getValidationConfig_most_specific:
  assumes "map_wf (nr_validationConfig r)"
  shows "(\<forall>ns c. map_get (nr_validationConfig r) ns = Some c \<and> governs ns subject
            \<and> (\<forall>ns'. map_has (nr_validationConfig r) ns' \<and> governs ns' subject
                     \<longrightarrow> length ns' \<le> length ns)
          \<longrightarrow> getValidationConfig r subject = c)
     \<and> ((\<forall>ns. map_has (nr_validationConfig r) ns \<longrightarrow> \<not> governs ns subject)
          \<longrightarrow> getValidationConfig r subject = strict_config)"
proof (intro conjI allI impI)
  fix ns c
  assume h: "map_get (nr_validationConfig r) ns = Some c \<and> governs ns subject
      \<and> (\<forall>ns'. map_has (nr_validationConfig r) ns' \<and> governs ns' subject \<longrightarrow> length ns' \<le> length ns)"
  then have mem: "(ns, c) \<in> set (nr_validationConfig r)" by (blast intro: map_get_mem)
  with h have "best_match subject (nr_validationConfig r) None \<noteq> None"
    by (auto simp: best_match_None)
  then obtain n d where b: "best_match subject (nr_validationConfig r) None = Some (n, d)" by auto
  from best_match_Some [OF b] have nd: "(n, d) \<in> set (nr_validationConfig r)" "governs n subject"
    "length ns \<le> length n" using mem h by auto
  then have get: "map_get (nr_validationConfig r) n = Some d" by (auto intro: mem_map_get assms)
  with h nd have "length n = length ns" by (force simp: map_has_get)
  with nd h have "n = ns" by (blast intro: governs_length_unique)
  with get h b show "getValidationConfig r subject = c" by (simp add: getValidationConfig_def)
next
  assume "\<forall>ns. map_has (nr_validationConfig r) ns \<longrightarrow> \<not> governs ns subject"
  then have "best_match subject (nr_validationConfig r) None = None"
    by (force simp: best_match_None map_has_def)
  then show "getValidationConfig r subject = strict_config" by (simp add: getValidationConfig_def)
qed

text \<open>The listing depends only on the set of registered subjects.\<close>

lemma listing_equiv_class:
  assumes "registry_wf r"
  shows "filter (subj_order.equiv_to k) (map snd (nr_registeredSubjects r)) =
     (case getRegisteredSubject r (rs_fullSubject k) of None \<Rightarrow> [] | Some e \<Rightarrow> [e])"
proof -
  have eqv: "subj_order.equiv_to k y \<longleftrightarrow> rs_fullSubject y = rs_fullSubject k"
    for y :: "'a registered_subject"
  proof -
    have "subj_order.equiv_to k y \<longleftrightarrow> compareStrings (rs_fullSubject k) (rs_fullSubject y) = 0"
      using compareStrings_swap [of "rs_fullSubject k" "rs_fullSubject y"]
      unfolding compareSubjects_def by linarith
    then show ?thesis unfolding compareStrings_zero by (simp only: eq_commute)
  qed
  have key: "\<forall>(k, e) \<in> set (nr_registeredSubjects r). rs_fullSubject e = k"
    and wf: "map_wf (nr_registeredSubjects r)"
    using assms by (auto simp: registry_wf_def registry_inv_def dest: mem_map_get)
  show ?thesis
    unfolding eqv getRegisteredSubject_def by (rule filter_values_by_key [OF key wf])
qed

text \<open>
  The subject listing is deterministic: two well-formed registries holding the same subjects
  list them in the same order, whatever order they were registered in.
\<close>

lemma listRegisteredSubjects_deterministic:
  assumes "registry_wf r" and "registry_wf r'"
    and "\<And>k. getRegisteredSubject r k = getRegisteredSubject r' k"
  shows "listRegisteredSubjects r = listRegisteredSubjects r'"
  unfolding listRegisteredSubjects_def compareSubjects_def [symmetric]
  by (rule subj_order.js_sort_unique [OF subj_order.js_sort_ordered])
     (simp only: subj_order.js_sort_stable listing_equiv_class [OF assms(1)]
        listing_equiv_class [OF assms(2)] assms(3))

definition listing_entry :: "string \<Rightarrow> nat registered_subject" where
  "listing_entry s = \<lparr>rs_namespace = ''n'', rs_subject = s, rs_fullSubject = ''n.'' @ s,
     rs_schema = EventSchema 0, rs_local = False, rs_collectorOnly = False, rs_channel = False,
     rs_hostLocalRequest = False\<rparr>"

end
