(* ===== verification/Payload_Filter.thy ===== *)
theory Payload_Filter
  imports JS_Collections
begin

text \<open>
  JavaScript values as the bus sees payloads, and the declarative payload filters of
  \<open>core/bus-core/src/utils/payload-filter.ts\<close> and \<open>core/makaio-core/src/types/filter.ts\<close>. Numbers are
  integers: filters compare them with \<open>===\<close> only, and \<open>NaN\<close> is not a JSON value. A function value
  is its name.
\<close>

section \<open>Values\<close>

datatype js_value =
    JUndefined
  | JNull
  | JBool bool
  | JNum int
  | JStr string
  | JArr "js_value list"
  | JObj "(string \<times> js_value) list"
  | JFun string

datatype js_prim = PStr string | PNum int | PBool bool | PNull

fun prim_value :: "js_prim \<Rightarrow> js_value" where
  "prim_value (PStr s) = JStr s"
| "prim_value (PNum n) = JNum n"
| "prim_value (PBool b) = JBool b"
| "prim_value PNull = JNull"

text \<open>Members every object inherits from \<open>Object.prototype\<close>, and arrays from \<open>Array.prototype\<close>.\<close>

definition object_members :: "string list" where
  "object_members =
     [''constructor'', ''hasOwnProperty'', ''isPrototypeOf'', ''propertyIsEnumerable'',
      ''toLocaleString'', ''toString'', ''valueOf'']"

definition array_members :: "string list" where
  "array_members =
     [''at'', ''concat'', ''copyWithin'', ''entries'', ''every'', ''fill'', ''filter'', ''find'',
      ''findIndex'', ''findLast'', ''findLastIndex'', ''flat'', ''flatMap'', ''forEach'',
      ''includes'', ''indexOf'', ''join'', ''keys'', ''lastIndexOf'', ''map'', ''pop'', ''push'',
      ''reduce'', ''reduceRight'', ''reverse'', ''shift'', ''slice'', ''some'', ''sort'', ''splice'',
      ''toReversed'', ''toSorted'', ''toSpliced'', ''unshift'', ''values'', ''with'']"

definition inherited_member :: "string list \<Rightarrow> string \<Rightarrow> js_value" where
  "inherited_member names p = (if p \<in> set names then JFun p else JUndefined)"

text \<open>An array index key: a canonical decimal numeral.\<close>

fun digits_value :: "nat \<Rightarrow> string \<Rightarrow> nat option" where
  "digits_value acc [] = Some acc"
| "digits_value acc (c # cs) =
     (let d = of_char c in
      if 48 \<le> d \<and> d \<le> 57 then digits_value (10 * acc + (d - 48)) cs else None)"

definition array_index :: "string \<Rightarrow> nat option" where
  "array_index p =
     (if p = [] \<or> (hd p = CHR ''0'' \<and> p \<noteq> ''0'') then None else digits_value 0 p)"

text \<open>Member access \<open>v[p]\<close> on an object or an array.\<close>

fun js_member :: "js_value \<Rightarrow> string \<Rightarrow> js_value" where
  "js_member (JObj fields) p =
     (case map_of fields p of Some v \<Rightarrow> v | None \<Rightarrow> inherited_member object_members p)"
| "js_member (JArr vs) p =
     (if p = ''length'' then JNum (int (length vs))
      else (case array_index p of
              Some i \<Rightarrow> if i < length vs then vs ! i else JUndefined
            | None \<Rightarrow> inherited_member (array_members @ object_members) p))"
| "js_member _ p = JUndefined"

text \<open>\<open>typeof v === 'object'\<close> and not null.\<close>

fun is_object :: "js_value \<Rightarrow> bool" where
  "is_object (JObj _) = True"
| "is_object (JArr _) = True"
| "is_object _ = False"

section \<open>Filters\<close>

text \<open>
  An operator is a primitive (equality) or an object; the object form keeps every key it may carry,
  because the source tests the keys one after the other.
\<close>

record operator_object =
  op_in :: "js_prim list option"
  op_ne :: "js_prim option"
  op_exists :: "bool option"
  op_startsWith :: "string option"
  op_endsWith :: "string option"

datatype filter_operator = OpPrim js_prim | OpObj operator_object

type_synonym payload_filter = "(string, filter_operator) js_map"

fun isOperatorObject :: "filter_operator \<Rightarrow> bool" where
  "isOperatorObject (OpPrim _) = False"
| "isOperatorObject (OpObj ob) =
     (op_in ob \<noteq> None \<or> op_ne ob \<noteq> None \<or> op_exists ob \<noteq> None
      \<or> op_startsWith ob \<noteq> None \<or> op_endsWith ob \<noteq> None)"

fun walk_path :: "js_value \<Rightarrow> string list \<Rightarrow> js_value" where
  "walk_path current [] = current"
| "walk_path current (part # parts) =
     (if is_object current then walk_path (js_member current part) parts else JUndefined)"

definition getPath :: "js_value \<Rightarrow> string \<Rightarrow> js_value" where
  "getPath ob path =
     (if ob = JNull \<or> ob = JUndefined then JUndefined else walk_path ob (split_on CHR ''.'' path))"

definition strict_eq :: "js_value \<Rightarrow> js_prim \<Rightarrow> bool" where
  "strict_eq actual p \<longleftrightarrow> actual = prim_value p"

fun value_starts_with :: "js_value \<Rightarrow> string \<Rightarrow> bool" where
  "value_starts_with (JStr s) p = starts_with s p"
| "value_starts_with _ p = False"

fun value_ends_with :: "js_value \<Rightarrow> string \<Rightarrow> bool" where
  "value_ends_with (JStr s) p = ends_with s p"
| "value_ends_with _ p = False"

fun matchOperator :: "js_value \<Rightarrow> filter_operator \<Rightarrow> bool" where
  "matchOperator actual (OpPrim p) = strict_eq actual p"
| "matchOperator actual (OpObj ob) =
     (case op_in ob of Some ps \<Rightarrow> list_ex (strict_eq actual) ps
      | None \<Rightarrow> (case op_ne ob of Some p \<Rightarrow> \<not> strict_eq actual p
      | None \<Rightarrow> (case op_exists ob of Some b \<Rightarrow>
                    (if b then actual \<noteq> JUndefined else \<not> actual \<noteq> JUndefined)
      | None \<Rightarrow> (case op_startsWith ob of Some p \<Rightarrow> value_starts_with actual p
      | None \<Rightarrow> (case op_endsWith ob of Some p \<Rightarrow> value_ends_with actual p
      | None \<Rightarrow> False)))))"

fun matchesFilter :: "js_value \<Rightarrow> payload_filter \<Rightarrow> bool" where
  "matchesFilter payload [] = True"
| "matchesFilter payload ((path, operator) # rest) =
     (if \<not> matchOperator (getPath payload path) operator then False
      else matchesFilter payload rest)"

text \<open>\<open>{ ...base, ...override }\<close>: later keys overwrite, in the base's order, new keys after.\<close>

definition spread_onto :: "('k, 'v) js_map \<Rightarrow> ('k, 'v) js_map \<Rightarrow> ('k, 'v) js_map" where
  "spread_onto base ext = fold (\<lambda>(k, v). map_set k v) ext base"

fun mergeFilters :: "payload_filter option \<Rightarrow> payload_filter option \<Rightarrow> payload_filter option" where
  "mergeFilters None None = None"
| "mergeFilters None (Some override) = Some override"
| "mergeFilters (Some base) None = Some base"
| "mergeFilters (Some base) (Some override) = Some (spread_onto base override)"

section \<open>Properties\<close>

lemma matchesFilter_iff:
  "matchesFilter payload f \<longleftrightarrow> (\<forall>(path, operator) \<in> set f. matchOperator (getPath payload path) operator)"
  by (induction f) (auto split: if_splits)

lemma map_get_spread: 
  "map_wf ext \<Longrightarrow> map_get (spread_onto base ext) k =
     (case map_get ext k of Some v \<Rightarrow> Some v | None \<Rightarrow> map_get base k)"
  unfolding spread_onto_def
proof (induction ext arbitrary: base)
  case (Cons e ext)
  obtain k' v' where e: "e = (k', v')" by (cases e)
  have wf: "map_wf ext" and notin: "k' \<notin> set (map fst ext)"
    using Cons.prems e by (auto simp: map_wf_def)
  then have "map_get ext k' = None" by (simp add: map_get_def map_of_eq_None_iff)
  with Cons.IH [OF wf, of "map_set k' v' base"] show ?case
    by (auto simp: e js_simps map_get_def map_of_map_set split: option.splits)
qed simp

lemma spread_onto_wf: "map_wf base \<Longrightarrow> map_wf (spread_onto base ext)"
  unfolding spread_onto_def by (rule jm.fold_put_wf)

lemma matchesFilter_get:
  assumes "map_wf f"
  shows "matchesFilter payload f \<longleftrightarrow>
     (\<forall>path operator. map_get f path = Some operator \<longrightarrow> matchOperator (getPath payload path) operator)"
  using assms by (auto simp: matchesFilter_iff dest: map_get_mem mem_map_get)

text \<open>Walking a dotted path composes: the path \<open>p.q\<close> is \<open>q\<close> read at \<open>p\<close>.\<close>

lemma walk_path_append:
  "ys \<noteq> [] \<Longrightarrow> walk_path v (xs @ ys) =
     (if is_object (walk_path v xs) then walk_path (walk_path v xs) ys else JUndefined)"
proof (induction xs arbitrary: v)
  case Nil
  then show ?case by (cases ys) auto
qed auto

text \<open>
  Merging two filters: on a payload, the merged filter accepts exactly what the override
  accepts together with the base conditions on the paths the override leaves alone.
\<close>

lemma mergeFilters_semantics:
  assumes "map_wf base" and "map_wf override"
    and "mergeFilters (Some base) (Some override) = Some merged"
  shows "matchesFilter payload merged \<longleftrightarrow>
     matchesFilter payload override
     \<and> matchesFilter payload (filter (\<lambda>e. \<not> map_has override (fst e)) base)"
proof -
  have m: "merged = spread_onto base override" using assms(3) by simp
  let ?base = "filter (\<lambda>e. \<not> map_has override (fst e)) base"
  have wfb: "map_wf ?base" using assms(1) by (simp add: map_wf_def)
  have getb: "map_get ?base k = (if map_has override k then None else map_get base k)" for k
    unfolding map_get_def by (induction base) auto
  have getm: "map_get merged k =
      (case map_get override k of Some v \<Rightarrow> Some v | None \<Rightarrow> map_get base k)" for k
    by (simp add: m map_get_spread [OF assms(2)])
  have wfm: "map_wf merged" by (simp add: m spread_onto_wf [OF assms(1)])
  show ?thesis
    unfolding matchesFilter_get [OF wfm] matchesFilter_get [OF assms(2)] matchesFilter_get [OF wfb]
      getm getb
    by (auto simp: map_has_get split: option.splits if_splits)
qed

end
