(* ===== verification/Bus_Context.thy ===== *)
theory Bus_Context
  imports Handler_Registry Namespace_Registry Payload_Filter
begin

text \<open>
  The state of a bus and the lookups on it: the wire messages of
  \<open>core/bus-core/src/types/transports.ts\<close>, the \<open>MakaioBusContext\<close> of \<open>types/bus.ts\<close>, the handler
  lookups of \<open>methods/request/getMatchingHandlers.ts\<close> and the transport lookups of
  \<open>utils/transport.ts\<close>. Functions, promises and transport objects are external: they are identified
  by numbers, as the code compares them by identity only.
\<close>

section \<open>Wire messages\<close>

datatype delivery_class = Relayable | FirstHopOnly

record bus_transport_error =
  te_message :: string
  te_code :: "string option"
  te_subject :: "string option"
  te_data :: "(string \<times> js_value) list option"

record request_message =
  rq_subject :: string
  rq_namespace :: string
  rq_payload :: js_value
  rq_correlationId :: ident
  rq_messageId :: ident
  rq_timeout :: "millis option"
  rq_readinessTimeout :: "millis option"
  rq_priority :: "priority option"
  rq_deadline :: "millis option"

record response_message =
  rp_correlationId :: ident
  rp_result :: "js_value option"
  rp_error :: "bus_transport_error option"

record event_message =
  ev_subject :: string
  ev_namespace :: string
  ev_payload :: js_value
  ev_messageId :: ident
  ev_correlationId :: "ident option"

record broadcast_message =
  bm_subject :: string
  bm_namespace :: string
  bm_payload :: js_value
  bm_correlationId :: ident
  bm_messageId :: ident
  bm_timeout :: "millis option"

record broadcast_response_message =
  br_correlationId :: ident
  br_results :: "(string \<times> js_value) list option"
  br_error :: "bus_transport_error option"

text \<open>
  Delivery classes arrive from an untrusted peer: the field holds the string received, if any.
\<close>

record subscribe_message =
  sm_ackId :: "ident option"
  sm_subjects :: "(string, priority list) js_map"
  sm_deliveryClasses :: "(string, string) js_map"
  sm_filters :: "(string, payload_filter) js_map option"

record unsubscribe_message =
  um_ackId :: "ident option"
  um_subjects :: "(string, priority list) js_map"

datatype bus_message =
    RequestMsg request_message
  | ResponseMsg response_message
  | EventMsg event_message
  | BroadcastMsg broadcast_message
  | BroadcastResponseMsg broadcast_response_message
  | HeartbeatMsg millis
  | SubscribeMsg subscribe_message
  | UnsubscribeMsg unsubscribe_message
  | SubscribeSyncCompleteMsg
  | SubscriptionAckMsg ident

fun getSubjectFromBusMessage :: "bus_message \<Rightarrow> subject option" where
  "getSubjectFromBusMessage (RequestMsg m) = Some (rq_namespace m @ ''.'' @ rq_subject m)"
| "getSubjectFromBusMessage (EventMsg m) = Some (ev_namespace m @ ''.'' @ ev_subject m)"
| "getSubjectFromBusMessage (BroadcastMsg m) = Some (bm_namespace m @ ''.'' @ bm_subject m)"
| "getSubjectFromBusMessage _ = None"

section \<open>Bus context\<close>

text \<open>
  An effective handler is the function passed to \<open>on\<close>, or the filtering closure \<open>on\<close> allocates
  around it; the closure has an identity of its own.
\<close>

datatype effective_handler = Plain nat | Filtered (closure: nat) nat payload_filter

record remote_route =
  rt_transport :: transport_name
  rt_priority :: priority

text \<open>
  A transport object: its identity, the current answer of the optional \<open>isReady()\<close>, the identity of
  its optional \<open>ready\<close> promise, the optional \<open>canSend\<close>, and which optional methods it implements.
\<close>

record transport =
  tp_id :: nat
  tp_isReady :: "bool option"
  tp_ready :: "nat option"
  tp_canSend :: "(bus_message \<Rightarrow> bool) option"
  tp_cancelRequest :: bool
  tp_sendToConnection :: bool
  tp_onBroadcastResults :: bool

record 'z bus_context =
  eventHandlers :: "(string, effective_handler handler_entry list) js_map"
  requestHandlers :: "(string, effective_handler handler_entry list) js_map"
  interceptorHandlers :: "(string, effective_handler handler_entry list) js_map"
  anyHandlers :: "nat list"
  messageObservers :: "nat list"
  registeredTransports :: "(transport_name, transport) js_map"
  pendingReady :: "(transport_name, nat) js_map"
  namespaceRegistry :: "'z namespace_registry"
  remoteRequestHandlers :: "(string, remote_route list) js_map"
  remoteEventHandlers :: "(string, transport_name list) js_map"
  remoteSubscriptionDeliveryClasses :: "(string, (transport_name, delivery_class) js_map) js_map"
  nextObject :: nat

definition empty_context :: "'z bus_context" where
  "empty_context =
     \<lparr>eventHandlers = [], requestHandlers = [], interceptorHandlers = [], anyHandlers = [],
      messageObservers = [], registeredTransports = [], pendingReady = [],
      namespaceRegistry = createNamespaceRegistry, remoteRequestHandlers = [],
      remoteEventHandlers = [], remoteSubscriptionDeliveryClasses = [], nextObject = 0\<rparr>"

section \<open>Handler lookup\<close>

definition matching_entries ::
  "(string, 'h handler_entry list) js_map \<Rightarrow> subject \<Rightarrow> 'h handler_entry list" where
  "matching_entries m subject =
     mergeSortedHandlerArrays (map snd (filter (\<lambda>e. matchesSubscription subject (fst e)) m))"

definition getMatchingHandlerEntries ::
  "'z bus_context \<Rightarrow> subject \<Rightarrow> effective_handler handler_entry list" where
  "getMatchingHandlerEntries ctx fullSubjectKey = matching_entries (requestHandlers ctx) fullSubjectKey"

definition getMatchingHandlers :: "'z bus_context \<Rightarrow> subject \<Rightarrow> effective_handler list" where
  "getMatchingHandlers ctx fullSubjectKey = map he_handler (getMatchingHandlerEntries ctx fullSubjectKey)"

definition getMatchingEventHandlers :: "'z bus_context \<Rightarrow> subject \<Rightarrow> effective_handler list" where
  "getMatchingEventHandlers ctx subject = map he_handler (matching_entries (eventHandlers ctx) subject)"

definition blocked_transports :: "'z bus_context \<Rightarrow> subject \<Rightarrow> transport_name list" where
  "blocked_transports ctx fullSubjectKey =
     fold (\<lambda>(pattern, byTransport) acc.
             if matchesSubscription fullSubjectKey pattern
             then fold (\<lambda>(t, c) acc. if c \<noteq> Relayable then set_add t acc else acc) byTransport acc
             else acc)
       (remoteSubscriptionDeliveryClasses ctx) []"

text \<open>The inner loop over the entries of one pattern, with the result and the routes seen so far.\<close>

fun collect_routes ::
  "(remote_route \<Rightarrow> bool) \<Rightarrow> remote_route list \<Rightarrow> remote_route list \<Rightarrow> remote_route list" where
  "collect_routes ok [] result = result"
| "collect_routes ok (entry # entries) result =
     collect_routes ok entries
       (if \<not> ok entry \<or> entry \<in> set result then result else result @ [entry])"

definition getMatchingRemoteEntries ::
  "'z bus_context \<Rightarrow> subject \<Rightarrow> bool \<Rightarrow> remote_route list" where
  "getMatchingRemoteEntries ctx fullSubjectKey excludeFirstHopOnly =
     (let blocked = (if excludeFirstHopOnly then blocked_transports ctx fullSubjectKey else []);
          known = (\<lambda>pattern t. case map_get (remoteSubscriptionDeliveryClasses ctx) pattern of
                      None \<Rightarrow> False | Some byTransport \<Rightarrow> map_has byTransport t);
          result = fold (\<lambda>(pattern, entries) acc.
                     if matchesSubscription fullSubjectKey pattern
                     then collect_routes
                            (\<lambda>e. rt_transport e \<notin> set blocked
                                 \<and> \<not> (excludeFirstHopOnly \<and> \<not> known pattern (rt_transport e)))
                            entries acc
                     else acc)
                   (remoteRequestHandlers ctx) []
      in js_sort (by_priority_desc rt_priority) result)"

section \<open>Transport lookup\<close>

definition transport_names :: "'z bus_context \<Rightarrow> transport_name list" where
  "transport_names ctx = map_keys (registeredTransports ctx)"

definition getTransport :: "'z bus_context \<Rightarrow> transport_name \<Rightarrow> transport option" where
  "getTransport ctx name = map_get (registeredTransports ctx) name"

text \<open>The \<open><\<close> of strings: lexicographic by code unit (\<open>compareCodePointStrings\<close> has the same order).\<close>

definition compareNames :: "string \<Rightarrow> string \<Rightarrow> int" where
  "compareNames a b = (if code_point_loop a b < 0 then - 1 else if code_point_loop a b > 0 then 1 else 0)"

definition getSortedTransports ::
  "'z bus_context \<Rightarrow> transport_name option \<Rightarrow> (transport_name \<times> transport) list" where
  "getSortedTransports ctx exclude =
     List.map_filter (\<lambda>name. map_option (Pair name) (getTransport ctx name))
       (js_sort compareNames (filter (\<lambda>name. Some name \<noteq> exclude) (transport_names ctx)))"

definition transport_ready :: "transport \<Rightarrow> bool" where
  "transport_ready t \<longleftrightarrow> tp_isReady t \<noteq> Some False"

definition transport_accepts :: "transport \<Rightarrow> bus_message option \<Rightarrow> bool" where
  "transport_accepts t message =
     (case message of
        Some m \<Rightarrow> (case tp_canSend t of Some canSend \<Rightarrow> canSend m | None \<Rightarrow> transport_ready t)
      | None \<Rightarrow> transport_ready t)"

definition getReadyTransports ::
  "'z bus_context \<Rightarrow> transport_name option \<Rightarrow> bus_message option \<Rightarrow> (transport_name \<times> transport) list" where
  "getReadyTransports ctx exclude message =
     filter (\<lambda>e. transport_accepts (snd e) message) (getSortedTransports ctx exclude)"

section \<open>What the lookups return\<close>

lemma set_collect_routes: "set (collect_routes ok es res) = set res \<union> {e \<in> set es. ok e}"
  by (induction ok es res rule: collect_routes.induct) auto

lemma distinct_collect_routes: "distinct res \<Longrightarrow> distinct (collect_routes ok es res)"
  by (induction ok es res rule: collect_routes.induct) auto

lemma set_blocked_inner:
  "set (fold (\<lambda>(t, c) acc. if c \<noteq> Relayable then set_add t acc else acc) m acc)
     = set acc \<union> {t. \<exists>c. (t, c) \<in> set m \<and> c \<noteq> Relayable}"
  by (induction m arbitrary: acc) (auto split: if_splits)

lemma set_blocked_outer:
  "set (fold (\<lambda>(pattern, byTransport) acc.
             if matchesSubscription key pattern
             then fold (\<lambda>(t, c) acc. if c \<noteq> Relayable then set_add t acc else acc) byTransport acc
             else acc) m acc)
     = set acc \<union> {t. \<exists>p byT c. (p, byT) \<in> set m \<and> matchesSubscription key p \<and> (t, c) \<in> set byT
                                   \<and> c \<noteq> Relayable}"
  by (induction m arbitrary: acc) (auto 0 4 simp: set_blocked_inner split: if_splits)

lemma set_blocked_transports:
  "t \<in> set (blocked_transports ctx key) \<longleftrightarrow>
     (\<exists>p byT c. (p, byT) \<in> set (remoteSubscriptionDeliveryClasses ctx)
        \<and> matchesSubscription key p \<and> (t, c) \<in> set byT \<and> c \<noteq> Relayable)"
  unfolding blocked_transports_def set_blocked_outer by simp

lemma fold_collect:
  "set (fold (\<lambda>(pattern, entries) acc.
          if M pattern then collect_routes (ok pattern) entries acc else acc) m acc)
     = set acc \<union> {e. \<exists>p es. (p, es) \<in> set m \<and> M p \<and> e \<in> set es \<and> ok p e}"
  by (induction m arbitrary: acc) (auto 0 4 simp: set_collect_routes split: if_splits)

lemma fold_collect_distinct:
  "distinct acc \<Longrightarrow> distinct (fold (\<lambda>(pattern, entries) acc.
          if M pattern then collect_routes (ok pattern) entries acc else acc) m acc)"
  by (induction m arbitrary: acc) (auto simp: distinct_collect_routes)

text \<open>The delivery class learned from a transport for a pattern.\<close>

definition learned_class :: "'z bus_context \<Rightarrow> string \<Rightarrow> transport_name \<Rightarrow> delivery_class option" where
  "learned_class ctx pattern t =
     (case map_get (remoteSubscriptionDeliveryClasses ctx) pattern of
        None \<Rightarrow> None | Some byTransport \<Rightarrow> map_get byTransport t)"

lemma known_learned:
  "(case map_get (remoteSubscriptionDeliveryClasses ctx) p of
      None \<Rightarrow> False | Some byTransport \<Rightarrow> map_has byTransport t) \<longleftrightarrow> learned_class ctx p t \<noteq> None"
  by (simp add: learned_class_def map_has_get split: option.splits)

lemma set_getMatchingRemoteEntries:
  "r \<in> set (getMatchingRemoteEntries ctx key ex) \<longleftrightarrow>
     (\<exists>p es. (p, es) \<in> set (remoteRequestHandlers ctx) \<and> matchesSubscription key p \<and> r \<in> set es
        \<and> (ex \<longrightarrow> rt_transport r \<notin> set (blocked_transports ctx key)
                 \<and> learned_class ctx p (rt_transport r) \<noteq> None))"
  unfolding getMatchingRemoteEntries_def Let_def set_js_sort fold_collect known_learned by auto

lemma getMatchingRemoteEntries_sorted:
  "sorted_wrt (\<lambda>a b. rt_priority b \<le> rt_priority a) (getMatchingRemoteEntries ctx key ex)"
  unfolding getMatchingRemoteEntries_def Let_def
  using prio.js_sort_ordered [of rt_priority] by (simp only: by_priority_desc_def diff_le_0_iff_le)

lemma getMatchingRemoteEntries_distinct: "distinct (getMatchingRemoteEntries ctx key ex)"
  by (simp add: getMatchingRemoteEntries_def Let_def fold_collect_distinct)

text \<open>
  Relay boundary of route selection: for a request that has already crossed one hop, a remote
  route is eligible only if every matching subscription of its transport was explicitly advertised
  as relayable, and at least one was; a missing or unknown delivery class excludes the route.
\<close>

lemma relayed_routes_are_relayable:
  assumes "r \<in> set (getMatchingRemoteEntries ctx key True)"
  shows "(\<forall>p c. matchesSubscription key p \<and> learned_class ctx p (rt_transport r) = Some c
               \<longrightarrow> c = Relayable)
     \<and> (\<exists>p es. map_get (remoteSubscriptionDeliveryClasses ctx) p \<noteq> None
               \<and> (p, es) \<in> set (remoteRequestHandlers ctx) \<and> r \<in> set es
               \<and> matchesSubscription key p \<and> learned_class ctx p (rt_transport r) = Some Relayable)"
proof -
  from assms obtain p es where p: "(p, es) \<in> set (remoteRequestHandlers ctx)"
    "matchesSubscription key p" "r \<in> set es" "learned_class ctx p (rt_transport r) \<noteq> None"
    and nb: "rt_transport r \<notin> set (blocked_transports ctx key)"
    by (auto simp: set_getMatchingRemoteEntries)
  have all: "c = Relayable"
    if q: "matchesSubscription key q" and c: "learned_class ctx q (rt_transport r) = Some c" for q c
  proof -
    obtain byT where byT: "map_get (remoteSubscriptionDeliveryClasses ctx) q = Some byT"
      "map_get byT (rt_transport r) = Some c"
      using c by (auto simp: learned_class_def split: option.splits)
    then have "(q, byT) \<in> set (remoteSubscriptionDeliveryClasses ctx)" "(rt_transport r, c) \<in> set byT"
      by (auto dest: map_get_mem)
    with nb q show ?thesis by (auto simp: set_blocked_transports)
  qed
  moreover have "map_get (remoteSubscriptionDeliveryClasses ctx) p \<noteq> None"
    using p(4) by (auto simp: learned_class_def split: option.splits)
  ultimately show ?thesis using p by fastforce
qed

definition relay_ctx :: "nat bus_context" where
  "relay_ctx = empty_context\<lparr>
     remoteRequestHandlers := [(''ns.*'', [\<lparr>rt_transport = ''ws'', rt_priority = 5\<rparr>,
                                           \<lparr>rt_transport = ''tab'', rt_priority = 9\<rparr>])],
     remoteSubscriptionDeliveryClasses :=
       [(''ns.*'', [(''ws'', Relayable), (''tab'', Relayable)]), (''ns.go'', [(''tab'', FirstHopOnly)])]\<rparr>"

section \<open>Context invariant: local part\<close>

definition handler_map_wf :: "(string, 'h handler_entry list) js_map \<Rightarrow> bool" where
  "handler_map_wf m \<longleftrightarrow> map_wf m \<and> (\<forall>(k, es) \<in> set m. prio_sorted es \<and> es \<noteq> [])"

lemma handler_map_wf_Nil [simp]: "handler_map_wf []"
  by (simp add: handler_map_wf_def)

lemma handler_map_wf_get:
  "handler_map_wf m \<Longrightarrow> map_get m k = Some es \<Longrightarrow> prio_sorted es \<and> es \<noteq> []"
  by (auto simp: handler_map_wf_def dest: map_get_mem)

lemma handler_map_wf_put:
  "handler_map_wf m \<Longrightarrow> prio_sorted es \<Longrightarrow> es \<noteq> [] \<Longrightarrow> handler_map_wf (map_set k es m)"
  by (auto simp: handler_map_wf_def jm.wf_put dest: map_set_mem)

lemma handler_map_wf_del: "handler_map_wf m \<Longrightarrow> handler_map_wf (map_delete k m)"
  by (auto simp: handler_map_wf_def jm.wf_del map_delete_mem)

lemma matching_entries_sorted:
  assumes "handler_map_wf m"
  shows "prio_sorted (matching_entries m key)"
proof -
  have "\<forall>arr \<in> set (map snd (filter (\<lambda>e. matchesSubscription key (fst e)) m)). prio_sorted arr"
    using assms by (auto simp: handler_map_wf_def)
  from mergeSortedHandlerArrays_eq [OF this] show ?thesis
    using prio.js_sort_ordered prio_sorted_ordered by (metis matching_entries_def)
qed

lemma set_matching_entries:
  "e \<in> set (matching_entries m key) \<longleftrightarrow>
     (\<exists>p es. (p, es) \<in> set m \<and> matchesSubscription key p \<and> e \<in> set es)"
  by (force simp: matching_entries_def set_mergeSortedHandlerArrays)

end
