(* ===== verification/Subscriptions.thy ===== *)
theory Subscriptions
  imports Bus_Context
begin

text \<open>
  Subscription state and its propagation: \<open>registries/advertised-state.ts\<close>,
  \<open>registries/remote-subscriptions.ts\<close>, \<open>registries/subscription-delivery.ts\<close>, \<open>methods/on.ts\<close>,
  \<open>methods/intercept.ts\<close> and the registration part of \<open>registries/transport-registry.ts\<close>, all of
  \<open>core/bus-core/src\<close>. Calls of \<open>subscribe\<close> and \<open>unsubscribe\<close> on a transport are returned in the order
  they are made; each is best-effort in the source, so no failure comes back.
\<close>

section \<open>Advertised state\<close>

datatype advert =
    AdvSubscribe subject "priority list" delivery_class
  | AdvUnsubscribe subject

type_synonym outbox = "(transport_name \<times> advert) list"

definition local_priorities :: "'z bus_context \<Rightarrow> subject \<Rightarrow> priority list" where
  "local_priorities ctx subject = map he_priority (getMatchingHandlerEntries ctx subject)"

text \<open>The loop over the learned routes: the target's own and those not marked relayable are skipped.\<close>

fun add_foreign_priorities ::
  "(transport_name \<Rightarrow> bool) \<Rightarrow> transport_name \<Rightarrow> remote_route list \<Rightarrow> priority list \<Rightarrow> priority list" where
  "add_foreign_priorities relayable target [] prioritySet = prioritySet"
| "add_foreign_priorities relayable target (entry # entries) prioritySet =
     add_foreign_priorities relayable target entries
       (if rt_transport entry = target then prioritySet
        else if \<not> relayable (rt_transport entry) then prioritySet
        else set_add (rt_priority entry) prioritySet)"

definition is_relayable :: "'z bus_context \<Rightarrow> subject \<Rightarrow> transport_name \<Rightarrow> bool" where
  "is_relayable ctx subject t \<longleftrightarrow> learned_class ctx subject t = Some Relayable"

definition advertised_priorities :: "'z bus_context \<Rightarrow> transport_name \<Rightarrow> subject \<Rightarrow> priority list" where
  "advertised_priorities ctx target subject =
     (let prioritySet = fold set_add (local_priorities ctx subject) []
      in case map_get (remoteRequestHandlers ctx) subject of
           None \<Rightarrow> prioritySet
         | Some remoteEntries \<Rightarrow>
             if isHostLocalRequestSubject (namespaceRegistry ctx) subject then prioritySet
             else add_foreign_priorities (is_relayable ctx subject) target remoteEntries prioritySet)"

definition hasForeignEventHandlers :: "'z bus_context \<Rightarrow> transport_name \<Rightarrow> subject \<Rightarrow> bool" where
  "hasForeignEventHandlers ctx target subject \<longleftrightarrow>
     \<not> isHostLocalRequestSubject (namespaceRegistry ctx) subject
     \<and> (case map_get (remoteEventHandlers ctx) subject of
          None \<Rightarrow> False
        | Some ts \<Rightarrow> list_ex (\<lambda>t. t \<noteq> target \<and> is_relayable ctx subject t) ts)"

definition pushAdvertisedSubject :: "'z bus_context \<Rightarrow> transport_name \<Rightarrow> subject \<Rightarrow> advert" where
  "pushAdvertisedSubject ctx target subject =
     (let prioritySet = advertised_priorities ctx target subject;
          hasLocalEventHandlers = map_has (eventHandlers ctx) subject;
          hasLocalHandlers = (getMatchingHandlerEntries ctx subject \<noteq> [] \<or> hasLocalEventHandlers);
          isHostLocalRequest = isHostLocalRequestSubject (namespaceRegistry ctx) subject
      in if prioritySet = [] \<and> \<not> hasLocalEventHandlers \<and> \<not> hasForeignEventHandlers ctx target subject
         then AdvUnsubscribe subject
         else AdvSubscribe subject prioritySet
                (if hasLocalHandlers \<and> isHostLocalRequest then FirstHopOnly else Relayable))"

definition expandHostLocalWildcardSubjects :: "'z bus_context \<Rightarrow> subject list \<Rightarrow> subject list" where
  "expandHostLocalWildcardSubjects ctx affected =
     fold (\<lambda>registered acc.
             if \<not> rs_hostLocalRequest registered then acc
             else if list_ex (\<lambda>pattern. matchesSubscription (rs_fullSubject registered) pattern) affected
             then set_add (rs_fullSubject registered) acc else acc)
       (listRegisteredSubjects (namespaceRegistry ctx)) (set_of_list affected)"

definition pushAdvertisedSubjectsToPeers ::
  "'z bus_context \<Rightarrow> transport_name option \<Rightarrow> subject list \<Rightarrow> outbox" where
  "pushAdvertisedSubjectsToPeers ctx exclude affected =
     (let expanded = expandHostLocalWildcardSubjects ctx affected
      in concat (map (\<lambda>name. map (\<lambda>subject. (name, pushAdvertisedSubject ctx name subject)) expanded)
           (filter (\<lambda>name. \<not> (exclude \<noteq> None \<and> Some name = exclude)
                           \<and> getTransport ctx name \<noteq> None) (transport_names ctx))))"

text \<open>
  The initial synchronisation of a transport: first the adverts of all subjects, later, when they
  have settled, the completion handshake, which the second function decides.
\<close>

definition sync_subjects :: "'z bus_context \<Rightarrow> subject list" where
  "sync_subjects ctx =
     fold set_add
       (map_keys (requestHandlers ctx) @ map_keys (eventHandlers ctx)
        @ map_keys (remoteRequestHandlers ctx) @ map_keys (remoteEventHandlers ctx)
        @ map_keys (remoteSubscriptionDeliveryClasses ctx)
        @ map rs_fullSubject
            (filter (\<lambda>r. rs_hostLocalRequest r \<and> getMatchingHandlerEntries ctx (rs_fullSubject r) \<noteq> [])
              (listRegisteredSubjects (namespaceRegistry ctx)))) []"

definition syncAllSubjectsToTransport :: "'z bus_context \<Rightarrow> transport_name \<Rightarrow> outbox" where
  "syncAllSubjectsToTransport ctx name =
     map (\<lambda>subject. (name, pushAdvertisedSubject ctx name subject)) (sync_subjects ctx)"

definition sync_handshake :: "bool \<Rightarrow> transport \<Rightarrow> bus_message option" where
  "sync_handshake aborted t =
     (if aborted then None
      else if tp_isReady t = Some False then None
      else if tp_ready t \<noteq> None then Some SubscribeSyncCompleteMsg else None)"

section \<open>Remote subscriptions\<close>

definition normalizeSubscriptionDeliveryClass :: "string option \<Rightarrow> delivery_class" where
  "normalizeSubscriptionDeliveryClass value =
     (if value = Some ''relayable'' then Relayable else FirstHopOnly)"

definition removeRemoteEventSubscription ::
  "subject \<Rightarrow> transport_name \<Rightarrow> 'z bus_context \<Rightarrow> 'z bus_context" where
  "removeRemoteEventSubscription subject t ctx =
     (case map_get (remoteEventHandlers ctx) subject of
        None \<Rightarrow> ctx
      | Some ts \<Rightarrow>
          (let ts' = set_delete t ts
           in ctx\<lparr>remoteEventHandlers :=
                (if ts' = [] then map_delete subject (remoteEventHandlers ctx)
                 else map_set subject ts' (remoteEventHandlers ctx))\<rparr>))"

definition subscribe_subject ::
  "transport_name \<Rightarrow> (string, string) js_map \<Rightarrow> string \<times> priority list
     \<Rightarrow> 'z bus_context \<Rightarrow> 'z bus_context" where
  "subscribe_subject source classes e ctx =
     (let subject = fst e; priorities = snd e;
          deliveryClass = normalizeSubscriptionDeliveryClass (map_get classes subject);
          existing = (case map_get (remoteRequestHandlers ctx) subject of None \<Rightarrow> [] | Some es \<Rightarrow> es);
          filtered = filter (\<lambda>r. rt_transport r \<noteq> source) existing
                     @ map (\<lambda>p. \<lparr>rt_transport = source, rt_priority = p\<rparr>) priorities;
          ctx1 = ctx\<lparr>remoteRequestHandlers :=
                   (if filtered \<noteq> [] then map_set subject filtered (remoteRequestHandlers ctx)
                    else map_delete subject (remoteRequestHandlers ctx))\<rparr>;
          byTransport = (case map_get (remoteSubscriptionDeliveryClasses ctx1) subject of
                           None \<Rightarrow> [] | Some m \<Rightarrow> m);
          ctx2 = ctx1\<lparr>remoteSubscriptionDeliveryClasses :=
                   map_set subject (map_set source deliveryClass byTransport)
                     (remoteSubscriptionDeliveryClasses ctx1)\<rparr>
      in if priorities = []
         then ctx2\<lparr>remoteEventHandlers :=
                map_set subject
                  (set_add source (case map_get (remoteEventHandlers ctx2) subject of
                                     None \<Rightarrow> [] | Some ts \<Rightarrow> ts))
                  (remoteEventHandlers ctx2)\<rparr>
         else removeRemoteEventSubscription subject source ctx2)"

definition propagateSubscribe ::
  "transport_name \<Rightarrow> subscribe_message \<Rightarrow> 'z bus_context \<Rightarrow> 'z bus_context \<times> outbox" where
  "propagateSubscribe source m ctx =
     (let ctx' = fold (subscribe_subject source (sm_deliveryClasses m)) (sm_subjects m) ctx
      in (ctx', pushAdvertisedSubjectsToPeers ctx' (Some source) (map_keys (sm_subjects m))))"

definition unsubscribe_subject ::
  "transport_name \<Rightarrow> subject \<Rightarrow> 'z bus_context \<Rightarrow> 'z bus_context" where
  "unsubscribe_subject source subject ctx =
     (let ctx1 = (case map_get (remoteRequestHandlers ctx) subject of
                    None \<Rightarrow> ctx
                  | Some existing \<Rightarrow>
                      (let filtered = filter (\<lambda>r. rt_transport r \<noteq> source) existing
                       in ctx\<lparr>remoteRequestHandlers :=
                            (if filtered = [] then map_delete subject (remoteRequestHandlers ctx)
                             else map_set subject filtered (remoteRequestHandlers ctx))\<rparr>));
          ctx2 = removeRemoteEventSubscription subject source ctx1
      in case map_get (remoteSubscriptionDeliveryClasses ctx2) subject of
           None \<Rightarrow> ctx2
         | Some byTransport \<Rightarrow>
             (let m = map_delete source byTransport
              in ctx2\<lparr>remoteSubscriptionDeliveryClasses :=
                   (if m = [] then map_delete subject (remoteSubscriptionDeliveryClasses ctx2)
                    else map_set subject m (remoteSubscriptionDeliveryClasses ctx2))\<rparr>))"

definition propagateUnsubscribe ::
  "transport_name \<Rightarrow> unsubscribe_message \<Rightarrow> 'z bus_context \<Rightarrow> 'z bus_context \<times> outbox" where
  "propagateUnsubscribe source m ctx =
     (let ctx' = fold (unsubscribe_subject source) (map_keys (um_subjects m)) ctx
      in (ctx', pushAdvertisedSubjectsToPeers ctx' (Some source) (map_keys (um_subjects m))))"

text \<open>
  The three loops of \<open>purgeRemoteHandlersForTransport\<close> iterate over a map; an entry the transport
  occurs in is overwritten in place, or deleted when nothing is left.
\<close>

fun purge_map ::
  "('v \<Rightarrow> bool) \<Rightarrow> ('v \<Rightarrow> 'v) \<Rightarrow> ('v \<Rightarrow> bool) \<Rightarrow> ('k, 'v) js_map \<Rightarrow> ('k, 'v) js_map" where
  "purge_map hit f isEmpty [] = []"
| "purge_map hit f isEmpty ((k, v) # m) =
     (if \<not> hit v then (k, v) # purge_map hit f isEmpty m
      else if isEmpty (f v) then purge_map hit f isEmpty m
      else (k, f v) # purge_map hit f isEmpty m)"

definition affected_keys :: "('v \<Rightarrow> bool) \<Rightarrow> ('k, 'v) js_map \<Rightarrow> 'k list" where
  "affected_keys hit m = map fst (filter (\<lambda>e. hit (snd e)) m)"

definition routes_hit :: "transport_name \<Rightarrow> remote_route list \<Rightarrow> bool" where
  "routes_hit t es \<longleftrightarrow> length (filter (\<lambda>r. rt_transport r \<noteq> t) es) \<noteq> length es"

definition purgeRemoteHandlersForTransport ::
  "transport_name \<Rightarrow> 'z bus_context \<Rightarrow> 'z bus_context \<times> outbox" where
  "purgeRemoteHandlersForTransport t ctx =
     (let affected = set_of_list
            (affected_keys (routes_hit t) (remoteRequestHandlers ctx)
             @ affected_keys (\<lambda>ts. t \<in> set ts) (remoteEventHandlers ctx)
             @ affected_keys (\<lambda>byT. map_has byT t) (remoteSubscriptionDeliveryClasses ctx));
          ctx' = ctx\<lparr>
            remoteRequestHandlers :=
              purge_map (routes_hit t) (filter (\<lambda>r. rt_transport r \<noteq> t)) (\<lambda>es. es = [])
                (remoteRequestHandlers ctx),
            remoteEventHandlers :=
              purge_map (\<lambda>ts. t \<in> set ts) (set_delete t) (\<lambda>ts. ts = []) (remoteEventHandlers ctx),
            remoteSubscriptionDeliveryClasses :=
              purge_map (\<lambda>byT. map_has byT t) (map_delete t) (\<lambda>byT. byT = [])
                (remoteSubscriptionDeliveryClasses ctx)\<rparr>
      in (ctx', if affected \<noteq> [] then pushAdvertisedSubjectsToPeers ctx' (Some t) affected else []))"

section \<open>Local handlers\<close>

datatype handler_kind = HK_event | HK_request | HK_both
datatype handler_map = EventMap | RequestMap

record on_options =
  oo_handlerKind :: "handler_kind option"
  oo_filter :: "payload_filter option"
  oo_priority :: "priority option"

definition no_on_options :: on_options where
  "no_on_options = \<lparr>oo_handlerKind = None, oo_filter = None, oo_priority = None\<rparr>"

definition insert_entry ::
  "string \<Rightarrow> effective_handler \<Rightarrow> priority \<Rightarrow> (string, effective_handler handler_entry list) js_map
     \<Rightarrow> (string, effective_handler handler_entry list) js_map" where
  "insert_entry key h p m =
     (let m' = (if map_has m key then m else map_set key [] m);
          entries = (case map_get m' key of None \<Rightarrow> [] | Some es \<Rightarrow> es)
      in map_set key (insertSorted entries \<lparr>he_handler = h, he_priority = p\<rparr>) m')"

fun remove_first :: "('a \<Rightarrow> bool) \<Rightarrow> 'a list \<Rightarrow> 'a list" where
  "remove_first P [] = []"
| "remove_first P (x # xs) = (if P x then xs else x # remove_first P xs)"

definition remove_entry ::
  "string \<Rightarrow> effective_handler \<Rightarrow> (string, effective_handler handler_entry list) js_map
     \<Rightarrow> (string, effective_handler handler_entry list) js_map" where
  "remove_entry key h m =
     (case map_get m key of
        None \<Rightarrow> m
      | Some entries \<Rightarrow>
          (let entries' = remove_first (\<lambda>e. he_handler e = h) entries
           in if entries' = [] then map_delete key m else map_set key entries' m))"

fun addToHandlerMap ::
  "handler_map \<Rightarrow> string \<Rightarrow> effective_handler \<Rightarrow> priority \<Rightarrow> 'z bus_context \<Rightarrow> 'z bus_context" where
  "addToHandlerMap EventMap key h p ctx = ctx\<lparr>eventHandlers := insert_entry key h p (eventHandlers ctx)\<rparr>"
| "addToHandlerMap RequestMap key h p ctx = ctx\<lparr>requestHandlers := insert_entry key h p (requestHandlers ctx)\<rparr>"

fun removeFromHandlerMap ::
  "handler_map \<Rightarrow> string \<Rightarrow> effective_handler \<Rightarrow> 'z bus_context \<Rightarrow> 'z bus_context" where
  "removeFromHandlerMap EventMap key h ctx = ctx\<lparr>eventHandlers := remove_entry key h (eventHandlers ctx)\<rparr>"
| "removeFromHandlerMap RequestMap key h ctx = ctx\<lparr>requestHandlers := remove_entry key h (requestHandlers ctx)\<rparr>"

definition handler_maps :: "subject_definition \<Rightarrow> on_options \<Rightarrow> handler_map list" where
  "handler_maps d opts =
     (let isWildcard = (CHR ''*'' \<in> set (sd_subject d) \<or> CHR '':'' \<in> set (sd_subject d));
          isAmbiguousWildcard = (isWildcard \<and> \<not> sd_isRequest d);
          handlerKind = (if isWildcard then oo_handlerKind opts else None)
      in case handlerKind of
           Some HK_both \<Rightarrow> [EventMap, RequestMap]
         | Some HK_event \<Rightarrow> [EventMap]
         | Some HK_request \<Rightarrow> [RequestMap]
         | None \<Rightarrow> (if isAmbiguousWildcard then [EventMap, RequestMap]
                   else if sd_isRequest d then [RequestMap] else [EventMap]))"

text \<open>Wrapping allocates a closure when a filter is given.\<close>

definition wrap_handler ::
  "nat \<Rightarrow> payload_filter option \<Rightarrow> 'z bus_context \<Rightarrow> effective_handler \<times> 'z bus_context" where
  "wrap_handler h filt ctx =
     (case filt of
        None \<Rightarrow> (Plain h, ctx)
      | Some f \<Rightarrow> (Filtered (nextObject ctx) h f, ctx\<lparr>nextObject := nextObject ctx + 1\<rparr>))"

record registration =
  reg_maps :: "handler_map list"
  reg_key :: string
  reg_handler :: effective_handler

definition on ::
  "subject_definition \<Rightarrow> nat \<Rightarrow> on_options \<Rightarrow> 'z bus_context
     \<Rightarrow> registration \<times> 'z bus_context \<times> outbox" where
  "on d h opts ctx =
     (let key = getFullSubjectForSubjectDefinition d;
          maps = handler_maps d opts;
          p = (case oo_priority opts of None \<Rightarrow> 0 | Some p \<Rightarrow> p)
      in case wrap_handler h (oo_filter opts) ctx of
           (eff, ctx1) \<Rightarrow>
             (let ctx2 = fold (\<lambda>mk. addToHandlerMap mk key eff p) maps ctx1
              in (\<lparr>reg_maps = maps, reg_key = key, reg_handler = eff\<rparr>, ctx2,
                  pushAdvertisedSubjectsToPeers ctx2 None [key])))"

text \<open>The cleanup function returned by \<open>on\<close>.\<close>

definition on_unsubscribe :: "registration \<Rightarrow> 'z bus_context \<Rightarrow> 'z bus_context \<times> outbox" where
  "on_unsubscribe r ctx =
     (let ctx' = fold (\<lambda>mk. removeFromHandlerMap mk (reg_key r) (reg_handler r)) (reg_maps r) ctx
      in (ctx', pushAdvertisedSubjectsToPeers ctx' None [reg_key r]))"

definition intercept ::
  "subject_definition \<Rightarrow> nat \<Rightarrow> priority option \<Rightarrow> payload_filter option \<Rightarrow> 'z bus_context
     \<Rightarrow> (string \<times> effective_handler) \<times> 'z bus_context" where
  "intercept d h prio filt ctx =
     (let key = getFullSubjectForSubjectDefinition d; p = (case prio of None \<Rightarrow> 0 | Some p \<Rightarrow> p)
      in case wrap_handler h filt ctx of
           (eff, ctx1) \<Rightarrow>
             ((key, eff), ctx1\<lparr>interceptorHandlers := insert_entry key eff p (interceptorHandlers ctx1)\<rparr>))"

definition intercept_unsubscribe :: "string \<times> effective_handler \<Rightarrow> 'z bus_context \<Rightarrow> 'z bus_context" where
  "intercept_unsubscribe r ctx =
     ctx\<lparr>interceptorHandlers := remove_entry (fst r) (snd r) (interceptorHandlers ctx)\<rparr>"

section \<open>Transport registration\<close>

definition trackPendingReady ::
  "transport_name \<Rightarrow> nat option \<Rightarrow> 'z bus_context \<Rightarrow> 'z bus_context" where
  "trackPendingReady name readyPromise ctx =
     (case readyPromise of None \<Rightarrow> ctx
      | Some p \<Rightarrow> ctx\<lparr>pendingReady := map_set name p (pendingReady ctx)\<rparr>)"

text \<open>The cleanup that runs when a tracked promise settles.\<close>

definition ready_settled :: "transport_name \<Rightarrow> nat \<Rightarrow> 'z bus_context \<Rightarrow> 'z bus_context" where
  "ready_settled name p ctx =
     (if map_get (pendingReady ctx) name = Some p
      then ctx\<lparr>pendingReady := map_delete name (pendingReady ctx)\<rparr> else ctx)"

definition registerTransport ::
  "transport_name \<Rightarrow> transport \<Rightarrow> 'z bus_context \<Rightarrow> 'z bus_context \<times> outbox" where
  "registerTransport name t ctx =
     (let (ctx1, out1) =
            (if map_has (registeredTransports ctx) name
             then (let (c, out) = purgeRemoteHandlersForTransport name ctx
                   in (c\<lparr>pendingReady := map_delete name (pendingReady c)\<rparr>, out))
             else (ctx, []));
          ctx2 = ctx1\<lparr>registeredTransports := map_set name t (registeredTransports ctx1)\<rparr>;
          ctx3 = trackPendingReady name (tp_ready t) ctx2
      in (ctx3, out1 @ syncAllSubjectsToTransport ctx3 name))"

definition unregister :: "transport_name \<Rightarrow> transport \<Rightarrow> 'z bus_context \<Rightarrow> 'z bus_context \<times> outbox" where
  "unregister name t ctx =
     (case map_get (registeredTransports ctx) name of
        None \<Rightarrow> (ctx, [])
      | Some current \<Rightarrow>
          if tp_id current = tp_id t
          then purgeRemoteHandlersForTransport name
                 (ctx\<lparr>registeredTransports := map_delete name (registeredTransports ctx),
                      pendingReady := map_delete name (pendingReady ctx)\<rparr>)
          else (ctx, []))"

definition getPendingReadyEntries ::
  "'z bus_context \<Rightarrow> transport_name list option \<Rightarrow> (transport_name \<times> nat) list" where
  "getPendingReadyEntries ctx names =
     (case names of None \<Rightarrow> pendingReady ctx
      | Some ns \<Rightarrow> filter (\<lambda>e. fst e \<in> set ns) (pendingReady ctx))"

end
