(* ===== verification/Subscription_Laws.thy ===== *)
theory Subscription_Laws
  imports Subscriptions
begin

text \<open>
  What the subscription operations do to the remote directory: the abstract view is one optional
  record per transport and subject pattern (the priorities it advertised and the delivery class);
  subscribe replaces the sender's record, unsubscribe removes it, purge removes all records of a
  transport. The three maps of the bus context implement this view, coherently.
\<close>

section \<open>Abstract view\<close>

definition routes_of :: "'z bus_context \<Rightarrow> string \<Rightarrow> transport_name \<Rightarrow> priority list" where
  "routes_of ctx s t =
     map rt_priority (filter (\<lambda>r. rt_transport r = t)
       (case map_get (remoteRequestHandlers ctx) s of None \<Rightarrow> [] | Some es \<Rightarrow> es))"

definition event_sub :: "'z bus_context \<Rightarrow> string \<Rightarrow> transport_name \<Rightarrow> bool" where
  "event_sub ctx s t \<longleftrightarrow>
     t \<in> set (case map_get (remoteEventHandlers ctx) s of None \<Rightarrow> [] | Some ts \<Rightarrow> ts)"

definition peer_view :: "'z bus_context \<Rightarrow> transport_name \<Rightarrow> string \<Rightarrow> (priority list \<times> delivery_class) option" where
  "peer_view ctx t s = map_option (\<lambda>c. (routes_of ctx s t, c)) (learned_class ctx s t)"

text \<open>
  Well-formedness of the remote state: maps with distinct keys and no empty containers; a transport
  with a delivery class for a subject has either priorities or an event-only entry, never both, and
  conversely.
\<close>

definition remote_wf :: "'z bus_context \<Rightarrow> bool" where
  "remote_wf ctx \<longleftrightarrow>
     map_wf (remoteRequestHandlers ctx) \<and> map_wf (remoteEventHandlers ctx)
     \<and> map_wf (remoteSubscriptionDeliveryClasses ctx)
     \<and> (\<forall>s es. map_get (remoteRequestHandlers ctx) s = Some es \<longrightarrow> es \<noteq> [])
     \<and> (\<forall>s ts. map_get (remoteEventHandlers ctx) s = Some ts \<longrightarrow> ts \<noteq> [] \<and> distinct ts)
     \<and> (\<forall>s m. map_get (remoteSubscriptionDeliveryClasses ctx) s = Some m \<longrightarrow> m \<noteq> [] \<and> map_wf m)
     \<and> (\<forall>s t. learned_class ctx s t = None \<longrightarrow> routes_of ctx s t = [] \<and> \<not> event_sub ctx s t)
     \<and> (\<forall>s t. learned_class ctx s t \<noteq> None \<longrightarrow> (routes_of ctx s t = [] \<longleftrightarrow> event_sub ctx s t))"

lemma remote_wf_empty: "remote_wf empty_context"
  by (simp add: remote_wf_def empty_context_def routes_of_def event_sub_def learned_class_def)

subsection \<open>Event-only entries\<close>

lemma removeRemoteEvent_frame [simp]:
  "remoteRequestHandlers (removeRemoteEventSubscription s t ctx) = remoteRequestHandlers ctx"
  "remoteSubscriptionDeliveryClasses (removeRemoteEventSubscription s t ctx)
     = remoteSubscriptionDeliveryClasses ctx"
  "registeredTransports (removeRemoteEventSubscription s t ctx) = registeredTransports ctx"
  "namespaceRegistry (removeRemoteEventSubscription s t ctx) = namespaceRegistry ctx"
  "requestHandlers (removeRemoteEventSubscription s t ctx) = requestHandlers ctx"
  "eventHandlers (removeRemoteEventSubscription s t ctx) = eventHandlers ctx"
  "interceptorHandlers (removeRemoteEventSubscription s t ctx) = interceptorHandlers ctx"
  "pendingReady (removeRemoteEventSubscription s t ctx) = pendingReady ctx"
  by (simp_all add: removeRemoteEventSubscription_def Let_def split: option.splits)

lemma event_sub_remove:
  "event_sub (removeRemoteEventSubscription s t ctx) s' t' \<longleftrightarrow> event_sub ctx s' t' \<and> \<not> (s' = s \<and> t' = t)"
  by (auto simp: removeRemoteEventSubscription_def event_sub_def js_simps Let_def
        set_delete_def filter_empty_conv split: option.splits if_splits)

lemma removeRemoteEvent_wf:
  assumes "map_wf (remoteEventHandlers ctx)"
    and "\<forall>s ts. map_get (remoteEventHandlers ctx) s = Some ts \<longrightarrow> ts \<noteq> [] \<and> distinct ts"
  shows "map_wf (remoteEventHandlers (removeRemoteEventSubscription s t ctx))
     \<and> (\<forall>s' ts. map_get (remoteEventHandlers (removeRemoteEventSubscription s t ctx)) s' = Some ts
              \<longrightarrow> ts \<noteq> [] \<and> distinct ts)"
  using assms by (auto simp: removeRemoteEventSubscription_def js_simps Let_def
        split: option.splits if_splits)

subsection \<open>Subscribe\<close>

lemma subscribe_subject_frame [simp]:
  "registeredTransports (subscribe_subject src cls e ctx) = registeredTransports ctx"
  "namespaceRegistry (subscribe_subject src cls e ctx) = namespaceRegistry ctx"
  "requestHandlers (subscribe_subject src cls e ctx) = requestHandlers ctx"
  "eventHandlers (subscribe_subject src cls e ctx) = eventHandlers ctx"
  "interceptorHandlers (subscribe_subject src cls e ctx) = interceptorHandlers ctx"
  "pendingReady (subscribe_subject src cls e ctx) = pendingReady ctx"
  by (simp_all add: subscribe_subject_def Let_def)

lemma filter_route_self:
  "filter (\<lambda>r. rt_transport r = t) (map (\<lambda>p. \<lparr>rt_transport = src, rt_priority = p\<rparr>) ps)
     = (if t = src then map (\<lambda>p. \<lparr>rt_transport = src, rt_priority = p\<rparr>) ps else [])"
  by (induction ps) auto

lemma filter_route_other:
  "filter (\<lambda>r. rt_transport r \<noteq> src \<and> rt_transport r = t) es
     = (if t = src then [] else filter (\<lambda>r. rt_transport r = t) es)"
  by (induction es) auto

lemma remoteRequest_subscribe:
  "map_get (remoteRequestHandlers (subscribe_subject src cls e ctx)) s =
     (if s = fst e
      then (let es = filter (\<lambda>r. rt_transport r \<noteq> src)
                       (case map_get (remoteRequestHandlers ctx) s of None \<Rightarrow> [] | Some es \<Rightarrow> es)
                     @ map (\<lambda>p. \<lparr>rt_transport = src, rt_priority = p\<rparr>) (snd e)
            in if es = [] then None else Some es)
      else map_get (remoteRequestHandlers ctx) s)"
  by (auto simp: subscribe_subject_def Let_def js_simps)

lemma routes_of_subscribe:
  "routes_of (subscribe_subject src cls e ctx) s t =
     (if s = fst e \<and> t = src then snd e else routes_of ctx s t)"
proof (cases "s = fst e")
  case True
  let ?old = "case map_get (remoteRequestHandlers ctx) s of None \<Rightarrow> [] | Some es \<Rightarrow> es"
  let ?es = "filter (\<lambda>r. rt_transport r \<noteq> src) ?old
               @ map (\<lambda>p. \<lparr>rt_transport = src, rt_priority = p\<rparr>) (snd e)"
  have "routes_of (subscribe_subject src cls e ctx) s t
      = map rt_priority (filter (\<lambda>r. rt_transport r = t) ?es)"
    using True by (auto simp: routes_of_def remoteRequest_subscribe Let_def filter_empty_conv)
  then show ?thesis
    using True by (auto simp: routes_of_def filter_route_self filter_route_other o_def)
qed (simp add: routes_of_def remoteRequest_subscribe)

lemma learned_subscribe:
  "learned_class (subscribe_subject src cls e ctx) s t =
     (if s = fst e \<and> t = src then Some (normalizeSubscriptionDeliveryClass (map_get cls s))
      else learned_class ctx s t)"
  by (auto simp: subscribe_subject_def learned_class_def Let_def js_simps split: option.splits)

lemma event_sub_subscribe:
  "event_sub (subscribe_subject src cls e ctx) s t \<longleftrightarrow>
     (if s = fst e \<and> t = src then snd e = [] else event_sub ctx s t)"
proof (cases "snd e = []")
  case True
  then show ?thesis
    by (auto simp: subscribe_subject_def Let_def event_sub_def js_simps split: option.splits)
next
  case False
  then have "event_sub (subscribe_subject src cls e ctx) s t
      \<longleftrightarrow> event_sub ctx s t \<and> \<not> (s = fst e \<and> t = src)"
    unfolding subscribe_subject_def Let_def by (simp add: event_sub_remove) (simp add: event_sub_def)
  with False show ?thesis by auto
qed

lemma subscribe_subject_maps_wf:
  assumes "remote_wf ctx"
  shows "map_wf (remoteRequestHandlers (subscribe_subject src cls e ctx))
     \<and> map_wf (remoteSubscriptionDeliveryClasses (subscribe_subject src cls e ctx))
     \<and> (\<forall>s m. map_get (remoteSubscriptionDeliveryClasses (subscribe_subject src cls e ctx)) s = Some m
            \<longrightarrow> m \<noteq> [] \<and> map_wf m)
     \<and> map_wf (remoteEventHandlers (subscribe_subject src cls e ctx))
     \<and> (\<forall>s ts. map_get (remoteEventHandlers (subscribe_subject src cls e ctx)) s = Some ts
            \<longrightarrow> ts \<noteq> [] \<and> distinct ts)"
proof -
  have ne: "map_set k v m \<noteq> []" for k :: 'k and v :: 'v and m
    by (cases m) (auto split: prod.splits if_splits)
  have add_ne: "set_add x xs \<noteq> []" for x :: 'x and xs by (auto simp: set_add_def)
  let ?c = "subscribe_subject src cls e ctx"
  have rr: "map_wf (remoteRequestHandlers ?c)" and dc: "map_wf (remoteSubscriptionDeliveryClasses ?c)"
    using assms by (auto simp: remote_wf_def subscribe_subject_def Let_def js_simps)
  have inner: "\<forall>s m. map_get (remoteSubscriptionDeliveryClasses ?c) s = Some m \<longrightarrow> m \<noteq> [] \<and> map_wf m"
    using assms
    by (auto simp: remote_wf_def subscribe_subject_def Let_def js_simps ne split: option.splits if_splits)
  have ev: "map_wf (remoteEventHandlers ?c)
     \<and> (\<forall>s ts. map_get (remoteEventHandlers ?c) s = Some ts \<longrightarrow> ts \<noteq> [] \<and> distinct ts)"
  proof (cases "snd e = []")
    case True
    with assms show ?thesis
      by (auto simp: remote_wf_def subscribe_subject_def Let_def js_simps add_ne split: option.splits if_splits)
  next
    case False
    then show ?thesis
      unfolding subscribe_subject_def Let_def
      by (simp only: if_False) (rule removeRemoteEvent_wf; use assms in \<open>simp add: remote_wf_def\<close>)
  qed
  from rr dc inner ev show ?thesis by blast
qed

lemma subscribe_subject_wf:
  assumes "remote_wf ctx"
  shows "remote_wf (subscribe_subject src cls e ctx)"
  using subscribe_subject_maps_wf [OF assms, of src cls e] assms
  unfolding remote_wf_def routes_of_subscribe learned_subscribe event_sub_subscribe
  by (auto simp: remoteRequest_subscribe Let_def split: if_splits)


lemma subscribe_view:
  "peer_view (subscribe_subject src cls e ctx) t s =
     (if s = fst e \<and> t = src
      then Some (snd e, normalizeSubscriptionDeliveryClass (map_get cls s)) else peer_view ctx t s)"
  by (simp add: peer_view_def routes_of_subscribe learned_subscribe)

subsection \<open>Unsubscribe\<close>

lemma unsubscribe_subject_frame [simp]:
  "registeredTransports (unsubscribe_subject src s ctx) = registeredTransports ctx"
  "namespaceRegistry (unsubscribe_subject src s ctx) = namespaceRegistry ctx"
  "requestHandlers (unsubscribe_subject src s ctx) = requestHandlers ctx"
  "eventHandlers (unsubscribe_subject src s ctx) = eventHandlers ctx"
  "interceptorHandlers (unsubscribe_subject src s ctx) = interceptorHandlers ctx"
  "pendingReady (unsubscribe_subject src s ctx) = pendingReady ctx"
  by (simp_all add: unsubscribe_subject_def Let_def split: option.splits)

lemma remoteRequest_unsubscribe:
  "map_get (remoteRequestHandlers (unsubscribe_subject src s0 ctx)) s =
     (if s = s0
      then (case map_get (remoteRequestHandlers ctx) s of
              None \<Rightarrow> None
            | Some es \<Rightarrow> (let fs = filter (\<lambda>r. rt_transport r \<noteq> src) es in if fs = [] then None else Some fs))
      else map_get (remoteRequestHandlers ctx) s)"
  by (auto simp: unsubscribe_subject_def Let_def js_simps split: option.splits)

lemma classes_unsubscribe:
  "map_get (remoteSubscriptionDeliveryClasses (unsubscribe_subject src s0 ctx)) s =
     (if s = s0
      then (case map_get (remoteSubscriptionDeliveryClasses ctx) s of
              None \<Rightarrow> None
            | Some m \<Rightarrow> (let m' = map_delete src m in if m' = [] then None else Some m'))
      else map_get (remoteSubscriptionDeliveryClasses ctx) s)"
  by (auto simp: unsubscribe_subject_def Let_def js_simps split: option.splits)

lemma event_unsubscribe:
  "remoteEventHandlers (unsubscribe_subject src s0 ctx)
     = remoteEventHandlers (removeRemoteEventSubscription s0 src ctx)"
  by (simp add: unsubscribe_subject_def removeRemoteEventSubscription_def Let_def split: option.splits)

lemma map_get_delete_Nil: "map_delete k m = [] \<Longrightarrow> t \<noteq> k \<Longrightarrow> map_get m t = None"
  using jm.get_del [of k m t] by auto

lemma learned_unsubscribe:
  "learned_class (unsubscribe_subject src s0 ctx) s t =
     (if s = s0 \<and> t = src then None else learned_class ctx s t)"
  unfolding learned_class_def classes_unsubscribe
  by (auto simp: Let_def js_simps map_get_delete_Nil split: option.splits)

lemma routes_of_unsubscribe:
  "routes_of (unsubscribe_subject src s0 ctx) s t =
     (if s = s0 \<and> t = src then [] else routes_of ctx s t)"
proof -
  have "filter (\<lambda>r. rt_transport r \<noteq> src) es = [] \<Longrightarrow> t \<noteq> src \<Longrightarrow> filter (\<lambda>r. rt_transport r = t) es = []"
    for es by (auto simp: filter_empty_conv)
  then show ?thesis
    unfolding routes_of_def remoteRequest_unsubscribe
    by (auto simp: Let_def filter_route_other split: option.splits)
qed

lemma event_sub_unsubscribe:
  "event_sub (unsubscribe_subject src s0 ctx) s t \<longleftrightarrow> event_sub ctx s t \<and> \<not> (s = s0 \<and> t = src)"
  unfolding event_sub_remove [symmetric] by (simp add: event_sub_def event_unsubscribe)

lemma unsubscribe_subject_wf:
  assumes "remote_wf ctx"
  shows "remote_wf (unsubscribe_subject src s0 ctx)"
proof -
  let ?c = "unsubscribe_subject src s0 ctx"
  have rr: "map_wf (remoteRequestHandlers ?c)" and dc: "map_wf (remoteSubscriptionDeliveryClasses ?c)"
    using assms by (auto simp: remote_wf_def unsubscribe_subject_def Let_def js_simps split: option.splits)
  have "map_wf (remoteEventHandlers ?c)
     \<and> (\<forall>s ts. map_get (remoteEventHandlers ?c) s = Some ts \<longrightarrow> ts \<noteq> [] \<and> distinct ts)"
    unfolding event_unsubscribe by (rule removeRemoteEvent_wf) (use assms in \<open>auto simp: remote_wf_def\<close>)
  moreover have "\<forall>s es. map_get (remoteRequestHandlers ?c) s = Some es \<longrightarrow> es \<noteq> []"
    using assms by (auto simp: remote_wf_def remoteRequest_unsubscribe Let_def split: option.splits if_splits)
  moreover have "\<forall>s m. map_get (remoteSubscriptionDeliveryClasses ?c) s = Some m \<longrightarrow> m \<noteq> [] \<and> map_wf m"
    using assms by (auto simp: remote_wf_def classes_unsubscribe Let_def js_simps split: option.splits if_splits)
  ultimately show ?thesis
    using rr dc assms
    unfolding remote_wf_def routes_of_unsubscribe learned_unsubscribe event_sub_unsubscribe by auto
qed

lemma unsubscribe_view:
  "peer_view (unsubscribe_subject src s0 ctx) t s =
     (if s = s0 \<and> t = src then None else peer_view ctx t s)"
  by (simp add: peer_view_def routes_of_unsubscribe learned_unsubscribe)

subsection \<open>Purge\<close>

lemma purge_map_keys: "fst ` set (purge_map hit f em m) \<subseteq> fst ` set m"
  by (induction hit f em m rule: purge_map.induct) auto

lemma purge_map_wf: "map_wf m \<Longrightarrow> map_wf (purge_map hit f em m)"
  unfolding map_wf_def
proof (induction hit f em m rule: purge_map.induct)
  case (2 hit f em k v m)
  then show ?case using purge_map_keys [of hit f em m] by auto
qed simp

lemma purge_map_get:
  "map_wf m \<Longrightarrow> map_get (purge_map hit f em m) k =
     (case map_get m k of
        None \<Rightarrow> None
      | Some v \<Rightarrow> if \<not> hit v then Some v else if em (f v) then None else Some (f v))"
proof (induction hit f em m rule: purge_map.induct)
  case (2 hit f em k' v m)
  then have "map_wf m" and notin: "k' \<notin> fst ` set m" by (auto simp: map_wf_def)
  moreover have "k' \<notin> fst ` set (purge_map hit f em m)" using notin purge_map_keys [of hit f em m] by auto
  then have "map_of (purge_map hit f em m) k' = None" by (simp add: map_of_eq_None_iff)
  ultimately show ?case using 2 by (auto simp: map_get_def)
qed simp

lemma routes_hit_iff: "routes_hit t es \<longleftrightarrow> (\<exists>r \<in> set es. rt_transport r = t)"
  unfolding routes_hit_def length_filter_eq_iff by blast

lemma purge_frame [simp]:
  "registeredTransports (fst (purgeRemoteHandlersForTransport t ctx)) = registeredTransports ctx"
  "namespaceRegistry (fst (purgeRemoteHandlersForTransport t ctx)) = namespaceRegistry ctx"
  "requestHandlers (fst (purgeRemoteHandlersForTransport t ctx)) = requestHandlers ctx"
  "eventHandlers (fst (purgeRemoteHandlersForTransport t ctx)) = eventHandlers ctx"
  "interceptorHandlers (fst (purgeRemoteHandlersForTransport t ctx)) = interceptorHandlers ctx"
  "pendingReady (fst (purgeRemoteHandlersForTransport t ctx)) = pendingReady ctx"
  by (simp_all add: purgeRemoteHandlersForTransport_def Let_def)

lemma purge_gets:
  assumes "remote_wf ctx"
  shows "map_get (remoteRequestHandlers (fst (purgeRemoteHandlersForTransport t0 ctx))) s =
      (case map_get (remoteRequestHandlers ctx) s of None \<Rightarrow> None
       | Some es \<Rightarrow> if filter (\<lambda>r. rt_transport r \<noteq> t0) es = [] then None
                    else Some (filter (\<lambda>r. rt_transport r \<noteq> t0) es))"
    "map_get (remoteEventHandlers (fst (purgeRemoteHandlersForTransport t0 ctx))) s =
      (case map_get (remoteEventHandlers ctx) s of None \<Rightarrow> None
       | Some ts \<Rightarrow> if set_delete t0 ts = [] then None else Some (set_delete t0 ts))"
    "map_get (remoteSubscriptionDeliveryClasses (fst (purgeRemoteHandlersForTransport t0 ctx))) s =
      (case map_get (remoteSubscriptionDeliveryClasses ctx) s of None \<Rightarrow> None
       | Some m \<Rightarrow> if map_delete t0 m = [] then None else Some (map_delete t0 m))"
proof -
  have wf: "map_wf (remoteRequestHandlers ctx)" "map_wf (remoteEventHandlers ctx)"
    "map_wf (remoteSubscriptionDeliveryClasses ctx)"
    and ne: "\<And>es. map_get (remoteRequestHandlers ctx) s = Some es \<Longrightarrow> es \<noteq> []"
    "\<And>ts. map_get (remoteEventHandlers ctx) s = Some ts \<Longrightarrow> ts \<noteq> []"
    "\<And>m. map_get (remoteSubscriptionDeliveryClasses ctx) s = Some m \<Longrightarrow> m \<noteq> []"
    using assms by (auto simp: remote_wf_def)
  have id1: "\<not> routes_hit t0 es \<Longrightarrow> filter (\<lambda>r. rt_transport r \<noteq> t0) es = es" for es
    by (auto simp: routes_hit_iff filter_id_conv)
  have id2: "t0 \<notin> set ts \<Longrightarrow> set_delete t0 ts = ts" for ts
    by (auto simp: set_delete_def filter_id_conv)
  have id3: "\<not> map_has m t0 \<Longrightarrow> map_delete t0 m = m" for m :: "(transport_name, delivery_class) js_map"
    unfolding map_delete_def map_has_def by (induction m) auto
  show "map_get (remoteRequestHandlers (fst (purgeRemoteHandlersForTransport t0 ctx))) s =
      (case map_get (remoteRequestHandlers ctx) s of None \<Rightarrow> None
       | Some es \<Rightarrow> if filter (\<lambda>r. rt_transport r \<noteq> t0) es = [] then None
                    else Some (filter (\<lambda>r. rt_transport r \<noteq> t0) es))"
    using ne(1) by (auto simp: purgeRemoteHandlersForTransport_def Let_def purge_map_get wf id1
        split: option.splits)
  show "map_get (remoteEventHandlers (fst (purgeRemoteHandlersForTransport t0 ctx))) s =
      (case map_get (remoteEventHandlers ctx) s of None \<Rightarrow> None
       | Some ts \<Rightarrow> if set_delete t0 ts = [] then None else Some (set_delete t0 ts))"
    using ne(2) by (auto simp: purgeRemoteHandlersForTransport_def Let_def purge_map_get wf id2
        split: option.splits)
  show "map_get (remoteSubscriptionDeliveryClasses (fst (purgeRemoteHandlersForTransport t0 ctx))) s =
      (case map_get (remoteSubscriptionDeliveryClasses ctx) s of None \<Rightarrow> None
       | Some m \<Rightarrow> if map_delete t0 m = [] then None else Some (map_delete t0 m))"
    using ne(3) by (auto simp: purgeRemoteHandlersForTransport_def Let_def purge_map_get wf id3
        split: option.splits)
qed

lemma purge_points:
  assumes "remote_wf ctx"
  shows "routes_of (fst (purgeRemoteHandlersForTransport t0 ctx)) s t
        = (if t = t0 then [] else routes_of ctx s t)"
    "event_sub (fst (purgeRemoteHandlersForTransport t0 ctx)) s t \<longleftrightarrow> t \<noteq> t0 \<and> event_sub ctx s t"
    "learned_class (fst (purgeRemoteHandlersForTransport t0 ctx)) s t
        = (if t = t0 then None else learned_class ctx s t)"
proof -
  have nil: "filter (\<lambda>r. rt_transport r \<noteq> t0) es = [] \<Longrightarrow> t \<noteq> t0 \<Longrightarrow> filter (\<lambda>r. rt_transport r = t) es = []"
    for es by (auto simp: filter_empty_conv)
  show "routes_of (fst (purgeRemoteHandlersForTransport t0 ctx)) s t
        = (if t = t0 then [] else routes_of ctx s t)"
    unfolding routes_of_def purge_gets [OF assms]
    by (auto simp: filter_route_other nil split: option.splits)
  show "event_sub (fst (purgeRemoteHandlersForTransport t0 ctx)) s t \<longleftrightarrow> t \<noteq> t0 \<and> event_sub ctx s t"
    unfolding event_sub_def purge_gets [OF assms]
    by (auto simp: set_delete_def filter_empty_conv split: option.splits)
  show "learned_class (fst (purgeRemoteHandlersForTransport t0 ctx)) s t
        = (if t = t0 then None else learned_class ctx s t)"
    unfolding learned_class_def purge_gets [OF assms]
    by (auto simp: js_simps map_get_delete_Nil split: option.splits)
qed

lemma purge_wf:
  assumes "remote_wf ctx"
  shows "remote_wf (fst (purgeRemoteHandlersForTransport t0 ctx))"
proof -
  let ?c = "fst (purgeRemoteHandlersForTransport t0 ctx)"
  have "map_wf (remoteRequestHandlers ?c)" "map_wf (remoteEventHandlers ?c)"
    "map_wf (remoteSubscriptionDeliveryClasses ?c)"
    using assms by (auto simp: remote_wf_def purgeRemoteHandlersForTransport_def Let_def intro: purge_map_wf)
  then show ?thesis
    using assms unfolding remote_wf_def purge_points [OF assms] purge_gets [OF assms]
    by (auto simp: js_simps split: option.splits if_splits)
qed

lemma purge_view:
  "remote_wf ctx \<Longrightarrow> peer_view (fst (purgeRemoteHandlersForTransport t0 ctx)) t s =
     (if t = t0 then None else peer_view ctx t s)"
  by (simp add: peer_view_def purge_points)

section \<open>Contract of the remote directory\<close>

text \<open>
  What a client of the directory relies on, with the state abstract: records are written, removed
  one at a time, and dropped per transport.
\<close>

locale peer_directory =
  fixes view :: "'st \<Rightarrow> 't \<Rightarrow> 's \<Rightarrow> 'r option"
    and put :: "'t \<Rightarrow> 's \<Rightarrow> 'r \<Rightarrow> 'st \<Rightarrow> 'st"
    and del :: "'t \<Rightarrow> 's \<Rightarrow> 'st \<Rightarrow> 'st"
    and drop_peer :: "'t \<Rightarrow> 'st \<Rightarrow> 'st"
    and ok :: "'st \<Rightarrow> bool"
  assumes view_put: "view (put t s r st) t' s' = (if t' = t \<and> s' = s then Some r else view st t' s')"
    and view_del: "view (del t s st) t' s' = (if t' = t \<and> s' = s then None else view st t' s')"
    and view_drop: "ok st \<Longrightarrow> view (drop_peer t st) t' s' = (if t' = t then None else view st t' s')"
    and ok_put: "ok st \<Longrightarrow> ok (put t s r st)"
    and ok_del: "ok st \<Longrightarrow> ok (del t s st)"
    and ok_drop: "ok st \<Longrightarrow> ok (drop_peer t st)"
begin

lemma view_put_all:
  "distinct (map fst es) \<Longrightarrow>
     view (fold (\<lambda>(s, r). put t s r) es st) t' s' =
       (if t' = t then (case map_of es s' of Some r \<Rightarrow> Some r | None \<Rightarrow> view st t' s') else view st t' s')"
proof (induction es arbitrary: st)
  case (Cons e es)
  obtain s r where e: "e = (s, r)" by (cases e)
  have "s' = s \<Longrightarrow> map_of es s' = None" using Cons.prems e by (auto simp: map_of_eq_None_iff)
  with Cons.IH [of "put t s r st"] Cons.prems e show ?case
    by (auto simp: view_put split: option.splits)
qed simp

lemma view_del_all:
  "view (fold (del t) ss st) t' s' = (if t' = t \<and> s' \<in> set ss then None else view st t' s')"
  by (induction ss arbitrary: st) (auto simp: view_del)

lemma ok_put_all: "ok st \<Longrightarrow> ok (fold (\<lambda>(s, r). put t s r) es st)"
  by (rule fold_invariant_list) (auto simp: ok_put split: prod.splits)

lemma ok_del_all: "ok st \<Longrightarrow> ok (fold (del t) ss st)"
  by (rule fold_invariant_list) (auto simp: ok_del)

theorem drop_forgets: "ok st \<Longrightarrow> view (drop_peer t (fold (\<lambda>(s, r). put t s r) es st)) t s = None"
  by (simp add: view_drop ok_put_all)

theorem put_del_restores:
  "distinct (map fst es) \<Longrightarrow> (\<And>s. s \<in> fst ` set es \<Longrightarrow> view st t s = None) \<Longrightarrow>
     view (fold (del t) (map fst es) (fold (\<lambda>(s, r). put t s r) es st)) = view st"
  by (intro ext)
     (force simp: view_del_all view_put_all map_of_eq_None_iff split: option.splits dest: map_of_SomeD)

end

definition put_record ::
  "transport_name \<Rightarrow> string \<Rightarrow> priority list \<times> delivery_class \<Rightarrow> 'z bus_context \<Rightarrow> 'z bus_context" where
  "put_record t s r =
     subscribe_subject t (if snd r = Relayable then [(s, ''relayable'')] else []) (s, fst r)"

interpretation directory: peer_directory peer_view put_record unsubscribe_subject
  "\<lambda>t ctx. fst (purgeRemoteHandlersForTransport t ctx)" remote_wf
proof
  fix t t' :: transport_name and s s' :: string and r :: "priority list \<times> delivery_class" and st :: "'z bus_context"
  have norm: "normalizeSubscriptionDeliveryClass
      (map_get (if snd r = Relayable then [(s, ''relayable'')] else []) s) = snd r"
    by (cases "snd r") (auto simp: normalizeSubscriptionDeliveryClass_def map_get_def)
  show "peer_view (put_record t s r st) t' s' = (if t' = t \<and> s' = s then Some r else peer_view st t' s')"
    using norm by (auto simp: put_record_def subscribe_view)
  show "remote_wf st \<Longrightarrow> remote_wf (put_record t s r st)"
    by (simp add: put_record_def subscribe_subject_wf)
qed (auto simp: unsubscribe_view purge_view unsubscribe_subject_wf purge_wf)

lemma subscribe_subject_put:
  "subscribe_subject src cls e
     = put_record src (fst e) (snd e, normalizeSubscriptionDeliveryClass (map_get cls (fst e)))"
proof -
  have "normalizeSubscriptionDeliveryClass (map_get cls (fst e))
      = normalizeSubscriptionDeliveryClass
          (map_get (if normalizeSubscriptionDeliveryClass (map_get cls (fst e)) = Relayable
                    then [(fst e, ''relayable'')] else []) (fst e))"
    by (auto simp: normalizeSubscriptionDeliveryClass_def map_get_def)
  then show ?thesis
    by (intro ext) (simp add: put_record_def subscribe_subject_def)
qed

definition message_records ::
  "subscribe_message \<Rightarrow> (string \<times> priority list \<times> delivery_class) list" where
  "message_records m = map (\<lambda>(s, ps). (s, ps,
     normalizeSubscriptionDeliveryClass (map_get (sm_deliveryClasses m) s))) (sm_subjects m)"

lemma propagateSubscribe_fold:
  "fst (propagateSubscribe src m ctx) = fold (\<lambda>(s, r). put_record src s r) (message_records m) ctx"
proof -
  have "fold (subscribe_subject src cls) es ctx = fold (\<lambda>(s, r). put_record src s r)
      (map (\<lambda>(s, ps). (s, ps, normalizeSubscriptionDeliveryClass (map_get cls s))) es) ctx" for cls es
    by (induction es arbitrary: ctx) (auto simp: subscribe_subject_put)
  then show ?thesis by (simp add: propagateSubscribe_def message_records_def Let_def)
qed

lemma message_records_keys: "map fst (message_records m) = map fst (sm_subjects m)"
  by (simp add: message_records_def o_def case_prod_beta)

lemma map_of_message_records:
  "map_of (message_records m) s =
     map_option (\<lambda>ps. (ps, normalizeSubscriptionDeliveryClass (map_get (sm_deliveryClasses m) s)))
       (map_get (sm_subjects m) s)"
proof -
  have "map_of (map (\<lambda>(s, ps). (s, ps, f s)) es) s = map_option (\<lambda>ps. (ps, f s)) (map_of es s)"
    for es :: "(string \<times> priority list) list" and f :: "string \<Rightarrow> delivery_class"
    by (induction es) auto
  then show ?thesis by (simp add: message_records_def map_get_def)
qed

text \<open>
  C34. A subscribe message replaces, and only replaces, what its sender had advertised for the listed
  subjects: afterwards the directory holds exactly the message's priorities with the delivery class
  normalised (anything but an explicit \<open>relayable\<close> becomes \<open>first-hop-only\<close>), and every other record
  is as before.
\<close>

theorem propagateSubscribe_refines:
  assumes "map_wf (sm_subjects m)"
  shows "peer_view (fst (propagateSubscribe src m ctx)) t s =
     (case map_get (sm_subjects m) s of
        Some ps \<Rightarrow> if t = src
                   then Some (ps, normalizeSubscriptionDeliveryClass (map_get (sm_deliveryClasses m) s))
                   else peer_view ctx t s
      | None \<Rightarrow> peer_view ctx t s)"
  using assms directory.view_put_all [of "message_records m" src ctx t s]
  by (auto simp: propagateSubscribe_fold message_records_keys map_of_message_records map_wf_def
        split: option.splits)

theorem propagateSubscribe_refines_witness:
  "peer_view (fst (propagateSubscribe ''ws''
      \<lparr>sm_ackId = None, sm_subjects = [(''ns.a'', [5, 1])], sm_deliveryClasses = [(''ns.a'', ''anything'')],
       sm_filters = None\<rparr> (empty_context :: nat bus_context))) ''ws'' ''ns.a''
     = Some ([5, 1], FirstHopOnly)"
  by (subst propagateSubscribe_refines)
     (auto simp: map_wf_def map_get_def normalizeSubscriptionDeliveryClass_def)

text \<open>
  Subscribing and then unsubscribing the same subjects leaves no trace: the directory is as it
  was before, for a sender that had no record for them; other transports' records are untouched
  throughout.
\<close>

lemma subscribe_unsubscribe_roundtrip:
  assumes "map_wf (sm_subjects m)" and "map_keys (um_subjects u) = map_keys (sm_subjects m)"
    and "\<forall>s \<in> set (map_keys (sm_subjects m)). peer_view ctx src s = None"
  shows "peer_view (fst (propagateUnsubscribe src u (fst (propagateSubscribe src m ctx)))) = peer_view ctx"
  using directory.put_del_restores [of "message_records m" ctx src] assms
  by (simp add: propagateUnsubscribe_def Let_def propagateSubscribe_fold message_records_keys map_keys_def
        map_wf_def set_map [symmetric] del: set_map)

end
