(* ===== verification/Bus_Invariant.thy ===== *)
theory Bus_Invariant
  imports Subscription_Laws
begin

text \<open>
  What a bus tells its peers (the advertised state), and the reachable states of a bus: every
  operation that changes handler, transport or subscription state is a step, and the invariant of the
  reachable states is proved by rule induction.
\<close>

section \<open>The advertised state\<close>

lemma set_add_foreign_priorities:
  "set (add_foreign_priorities rel target es acc)
     = set acc \<union> {p. \<exists>t. t \<noteq> target \<and> rel t \<and> \<lparr>rt_transport = t, rt_priority = p\<rparr> \<in> set es}"
proof (induction rel target es acc rule: add_foreign_priorities.induct)
  case (2 rel target e es acc)
  obtain t p where "e = \<lparr>rt_transport = t, rt_priority = p\<rparr>" by (cases e)
  with 2 show ?case by (auto split: if_splits)
qed simp

lemma routes_of_iff:
  "p \<in> set (routes_of ctx s t) \<longleftrightarrow>
     (\<exists>es. map_get (remoteRequestHandlers ctx) s = Some es \<and> \<lparr>rt_transport = t, rt_priority = p\<rparr> \<in> set es)"
proof -
  have eta: "p \<in> set (map rt_priority (filter (\<lambda>r. rt_transport r = t) es))
      \<longleftrightarrow> \<lparr>rt_transport = t, rt_priority = p\<rparr> \<in> set es" for es
  proof (induction es)
    case (Cons e es)
    obtain t' p' where "e = \<lparr>rt_transport = t', rt_priority = p'\<rparr>" by (cases e)
    with Cons.IH show ?case by auto
  qed simp
  show ?thesis
    unfolding routes_of_def eta by (cases "map_get (remoteRequestHandlers ctx) s") auto
qed

lemma set_advertised_priorities:
  "set (advertised_priorities ctx target s) = set (local_priorities ctx s)
     \<union> (if isHostLocalRequestSubject (namespaceRegistry ctx) s then {}
        else {p. \<exists>t. t \<noteq> target \<and> is_relayable ctx s t \<and> p \<in> set (routes_of ctx s t)})"
  by (auto simp: advertised_priorities_def Let_def fold_set_add set_add_foreign_priorities routes_of_iff
        split: option.splits)

lemma hasForeignEventHandlers_iff:
  "hasForeignEventHandlers ctx target s \<longleftrightarrow>
     \<not> isHostLocalRequestSubject (namespaceRegistry ctx) s
     \<and> (\<exists>t. t \<noteq> target \<and> is_relayable ctx s t \<and> event_sub ctx s t)"
  by (auto simp: hasForeignEventHandlers_def event_sub_def list_ex_iff split: option.splits)

text \<open>
  What is advertised to a peer, exactly: the priorities of the matching local request handlers
  and, unless the subject is host-local, those learned from other transports that marked the subject
  relayable; the subject is withdrawn when there is neither a priority nor an event handler to speak
  for. The peer's own advertisements never contribute, nor do first-hop-only ones.
\<close>

lemma advertised_state_exact:
  assumes "P = set (local_priorities ctx s)
      \<union> (if isHostLocalRequestSubject (namespaceRegistry ctx) s then {}
         else {p. \<exists>t. t \<noteq> target \<and> is_relayable ctx s t \<and> p \<in> set (routes_of ctx s t)})"
    and "E \<longleftrightarrow> map_has (eventHandlers ctx) s
      \<or> (\<not> isHostLocalRequestSubject (namespaceRegistry ctx) s
         \<and> (\<exists>t. t \<noteq> target \<and> is_relayable ctx s t \<and> event_sub ctx s t))"
  shows "case pushAdvertisedSubject ctx target s of
           AdvUnsubscribe s' \<Rightarrow> s' = s \<and> P = {} \<and> \<not> E
         | AdvSubscribe s' ps c \<Rightarrow> s' = s \<and> set ps = P \<and> (P \<noteq> {} \<or> E)"
proof -
  have "set (advertised_priorities ctx target s) = P"
    unfolding assms(1) by (rule set_advertised_priorities)
  moreover have "E \<longleftrightarrow> map_has (eventHandlers ctx) s \<or> hasForeignEventHandlers ctx target s"
    unfolding assms(2) hasForeignEventHandlers_iff by simp
  ultimately show ?thesis by (auto simp: pushAdvertisedSubject_def Let_def)
qed

definition advert_ctx :: "nat bus_context" where
  "advert_ctx = relay_ctx\<lparr>
     requestHandlers := [(''ns.*'', [\<lparr>he_handler = Plain 0, he_priority = 3\<rparr>])],
     registeredTransports := []\<rparr>"

text \<open>
  Host-local requests never travel beyond the first hop: for a host-local subject the
  advertisement depends on the local handlers alone, is marked first-hop-only, and is withdrawn as
  soon as no local handler remains, whatever other peers have advertised.
\<close>

lemma host_local_not_readvertised:
  assumes "isHostLocalRequestSubject (namespaceRegistry ctx) s"
  shows "pushAdvertisedSubject ctx target s =
     (if getMatchingHandlerEntries ctx s = [] \<and> \<not> map_has (eventHandlers ctx) s
      then AdvUnsubscribe s
      else AdvSubscribe s (set_of_list (local_priorities ctx s)) FirstHopOnly)"
proof -
  have prios: "advertised_priorities ctx target s = set_of_list (local_priorities ctx s)"
    using assms by (auto simp: advertised_priorities_def set_of_list_def Let_def split: option.splits)
  have "set_of_list (local_priorities ctx s) = [] \<longleftrightarrow> getMatchingHandlerEntries ctx s = []"
    by (metis local_priorities_def map_is_Nil_conv set_empty set_set_of_list)
  then show ?thesis
    using assms by (simp add: pushAdvertisedSubject_def Let_def prios hasForeignEventHandlers_iff)
qed

text \<open>Split horizon: purging the target's own records does not change what it is told.\<close>

lemma add_foreign_filter:
  "add_foreign_priorities rel target (filter (\<lambda>r. rt_transport r \<noteq> target) es) acc
     = add_foreign_priorities rel target es acc"
  by (induction es arbitrary: acc) auto

lemma add_foreign_cong:
  "(\<And>t. t \<noteq> target \<Longrightarrow> rel t = rel' t) \<Longrightarrow>
     add_foreign_priorities rel target es acc = add_foreign_priorities rel' target es acc"
  by (induction es arbitrary: acc) auto

text \<open>
  Split horizon: what a bus advertises to a transport does not depend on what that transport
  itself has subscribed to, so a peer is never offered its own handlers back.
\<close>

lemma advert_ignores_own_records:
  assumes "remote_wf ctx"
  shows "pushAdvertisedSubject (fst (purgeRemoteHandlersForTransport target ctx)) target s
           = pushAdvertisedSubject ctx target s"
proof -
  let ?c = "fst (purgeRemoteHandlersForTransport target ctx)"
  have loc: "getMatchingHandlerEntries ?c s = getMatchingHandlerEntries ctx s"
    by (simp add: getMatchingHandlerEntries_def)
  then have lp: "local_priorities ?c s = local_priorities ctx s" by (simp add: local_priorities_def)
  have rel: "t \<noteq> target \<Longrightarrow> is_relayable ?c s t = is_relayable ctx s t" for t
    by (simp add: is_relayable_def purge_points [OF assms])
  have "add_foreign_priorities (is_relayable ?c s) target (filter (\<lambda>r. rt_transport r \<noteq> target) es) acc
      = add_foreign_priorities (is_relayable ctx s) target es acc" for es acc
    unfolding add_foreign_filter by (rule add_foreign_cong) (rule rel)
  moreover have "filter (\<lambda>r. rt_transport r \<noteq> target) es = [] \<Longrightarrow>
      add_foreign_priorities (is_relayable ctx s) target es acc = acc" for es acc
    using add_foreign_filter [of "is_relayable ctx s" target es acc] by simp
  ultimately have "advertised_priorities ?c target s = advertised_priorities ctx target s"
    by (auto simp: advertised_priorities_def lp purge_gets [OF assms] Let_def split: option.splits)
  moreover have "hasForeignEventHandlers ?c target s = hasForeignEventHandlers ctx target s"
    using rel by (auto simp: hasForeignEventHandlers_iff purge_points [OF assms])
  ultimately show ?thesis by (simp add: pushAdvertisedSubject_def loc Let_def)
qed


lemma propagateSubscribe_wf: "remote_wf ctx \<Longrightarrow> remote_wf (fst (propagateSubscribe src m ctx))"
  unfolding propagateSubscribe_fold by (rule directory.ok_put_all)

lemma propagateUnsubscribe_wf: "remote_wf ctx \<Longrightarrow> remote_wf (fst (propagateUnsubscribe src m ctx))"
  unfolding propagateUnsubscribe_def Let_def fst_conv by (rule directory.ok_del_all)

section \<open>Who is told about a change\<close>

lemma mem_expand_affected:
  "s \<in> set affected \<Longrightarrow> s \<in> set (expandHostLocalWildcardSubjects ctx affected)"
  unfolding expandHostLocalWildcardSubjects_def
  by (rule fold_invariant_list [where P = "\<lambda>acc. s \<in> set acc"]) auto

lemma pushToPeers_mem:
  "(n, a) \<in> set (pushAdvertisedSubjectsToPeers ctx ex affected) \<longleftrightarrow>
     map_has (registeredTransports ctx) n \<and> Some n \<noteq> ex
     \<and> (\<exists>s \<in> set (expandHostLocalWildcardSubjects ctx affected). a = pushAdvertisedSubject ctx n s)"
  by (auto simp: pushAdvertisedSubjectsToPeers_def Let_def transport_names_def getTransport_def
        map_has_get jm.keys_get)

text \<open>
  A disconnected transport is forgotten and everyone is told: after the purge no record of the
  transport remains, and for every subject it had a record for, each other registered transport is
  sent the advertisement computed from the purged state.
\<close>

lemma purge_forgets_and_notifies:
  assumes "remote_wf ctx"
  shows "peer_view (fst (purgeRemoteHandlersForTransport t ctx)) t s = None
     \<and> (peer_view ctx t s \<noteq> None \<and> map_has (registeredTransports ctx) n \<and> n \<noteq> t
        \<longrightarrow> (n, pushAdvertisedSubject (fst (purgeRemoteHandlersForTransport t ctx)) n s)
              \<in> set (snd (purgeRemoteHandlersForTransport t ctx)))"
proof (intro conjI impI)
  show "peer_view (fst (purgeRemoteHandlersForTransport t ctx)) t s = None"
    by (simp add: purge_view [OF assms])
  assume h: "peer_view ctx t s \<noteq> None \<and> map_has (registeredTransports ctx) n \<and> n \<noteq> t"
  then obtain byT where byT: "map_get (remoteSubscriptionDeliveryClasses ctx) s = Some byT" "map_has byT t"
    by (auto simp: peer_view_def learned_class_def map_has_get split: option.splits)
  let ?aff = "set_of_list
            (affected_keys (routes_hit t) (remoteRequestHandlers ctx)
             @ affected_keys (\<lambda>ts. t \<in> set ts) (remoteEventHandlers ctx)
             @ affected_keys (\<lambda>byT. map_has byT t) (remoteSubscriptionDeliveryClasses ctx))"
  have s: "s \<in> set ?aff" using map_get_mem [OF byT(1)] byT(2) by (force simp: affected_keys_def)
  then have ne: "?aff \<noteq> []" by (simp only: length_greater_0_conv [symmetric] length_pos_if_in_set)
  have "snd (purgeRemoteHandlersForTransport t ctx)
      = pushAdvertisedSubjectsToPeers (fst (purgeRemoteHandlersForTransport t ctx)) (Some t) ?aff"
    using ne by (simp add: purgeRemoteHandlersForTransport_def Let_def)
  then show "(n, pushAdvertisedSubject (fst (purgeRemoteHandlersForTransport t ctx)) n s)
              \<in> set (snd (purgeRemoteHandlersForTransport t ctx))"
    using h mem_expand_affected [OF s] by (auto simp: pushToPeers_mem)
qed

section \<open>Reachable states of a bus\<close>

definition bus_wf :: "'z bus_context \<Rightarrow> bool" where
  "bus_wf ctx \<longleftrightarrow>
     handler_map_wf (eventHandlers ctx) \<and> handler_map_wf (requestHandlers ctx)
     \<and> handler_map_wf (interceptorHandlers ctx)
     \<and> remote_wf ctx
     \<and> map_wf (registeredTransports ctx) \<and> map_wf (pendingReady ctx)
     \<and> (\<forall>t. map_has (pendingReady ctx) t \<longrightarrow> map_has (registeredTransports ctx) t)
     \<and> (\<forall>t s. peer_view ctx t s \<noteq> None \<longrightarrow> map_has (registeredTransports ctx) t)"

text \<open>
  The steps: handler registration and removal, transport registration and removal, subscription
  messages from a registered transport (removal detaches the receive handler), sessions of a
  registered transport becoming pending and settling, and namespace registration.
\<close>

inductive bus_step :: "'z bus_context \<Rightarrow> 'z bus_context \<Rightarrow> bool" where
  step_on: "bus_step ctx (fst (snd (on d h opts ctx)))"
| step_off: "bus_step ctx (fst (on_unsubscribe r ctx))"
| step_intercept: "bus_step ctx (snd (intercept d h p f ctx))"
| step_intercept_off: "bus_step ctx (intercept_unsubscribe ri ctx)"
| step_register: "bus_step ctx (fst (registerTransport name t ctx))"
| step_unregister: "bus_step ctx (fst (unregister name t ctx))"
| step_subscribe:
    "map_has (registeredTransports ctx) src \<Longrightarrow> map_wf (sm_subjects m) \<Longrightarrow>
       bus_step ctx (fst (propagateSubscribe src m ctx))"
| step_unsubscribe:
    "map_has (registeredTransports ctx) src \<Longrightarrow> bus_step ctx (fst (propagateUnsubscribe src u ctx))"
| step_session:
    "map_has (registeredTransports ctx) name \<Longrightarrow> bus_step ctx (trackPendingReady name (Some p) ctx)"
| step_settled: "bus_step ctx (ready_settled name p ctx)"
| step_namespace:
    "registerNamespace toJSON d (namespaceRegistry ctx) = Inr (r, ws) \<Longrightarrow>
       bus_step ctx (ctx\<lparr>namespaceRegistry := r\<rparr>)"

inductive reachable :: "'z bus_context \<Rightarrow> bool" where
  reach_init: "reachable empty_context"
| reach_step: "reachable ctx \<Longrightarrow> bus_step ctx ctx' \<Longrightarrow> reachable ctx'"

inductive_cases bus_stepE: "bus_step ctx ctx'"

subsection \<open>Handler maps\<close>

lemma insert_entry_wf: "handler_map_wf m \<Longrightarrow> handler_map_wf (insert_entry k h p m)"
proof -
  assume m: "handler_map_wf m"
  let ?m = "if map_has m k then m else map_set k [] m"
  let ?es = "case map_get ?m k of None \<Rightarrow> [] | Some es \<Rightarrow> es"
  let ?e = "\<lparr>he_handler = h, he_priority = p\<rparr>"
  have sorted: "prio_sorted ?es"
    using m by (auto simp: js_simps map_has_get split: option.splits dest: handler_map_wf_get)
  have ne: "insertSorted ?es ?e \<noteq> []" by (simp add: insertSorted_def Let_def)
  have set_twice: "map_set k v (map_set k w m) = map_set k v m" for v w by (induction m) auto
  have "insert_entry k h p m = map_set k (insertSorted ?es ?e) m"
    by (simp add: insert_entry_def Let_def set_twice)
  then show ?thesis
    using handler_map_wf_put [OF m insertSorted_prio_sorted [OF sorted] ne] by simp
qed

lemma remove_first_subset: "x \<in> set (remove_first P xs) \<Longrightarrow> x \<in> set xs"
  by (induction xs) (auto split: if_splits)

lemma remove_first_sorted: "sorted_wrt R xs \<Longrightarrow> sorted_wrt R (remove_first P xs)"
  by (induction xs) (auto dest: remove_first_subset)

lemma remove_entry_wf: "handler_map_wf m \<Longrightarrow> handler_map_wf (remove_entry k h m)"
  by (auto simp: remove_entry_def Let_def handler_map_wf_del remove_first_sorted handler_map_wf_get
        intro: handler_map_wf_put split: option.splits)


lemma remote_view_cong:
  assumes "remoteRequestHandlers ctx' = remoteRequestHandlers ctx"
    and "remoteEventHandlers ctx' = remoteEventHandlers ctx"
    and "remoteSubscriptionDeliveryClasses ctx' = remoteSubscriptionDeliveryClasses ctx"
  shows "remote_wf ctx' = remote_wf ctx" "peer_view ctx' = peer_view ctx"
  using assms
  by (simp_all add: remote_wf_def routes_of_def event_sub_def learned_class_def peer_view_def fun_eq_iff)

lemma handler_change_wf [bus_inv]:
  assumes "bus_wf ctx"
    and "handler_map_wf (eventHandlers ctx')" "handler_map_wf (requestHandlers ctx')"
      "handler_map_wf (interceptorHandlers ctx')"
    and "remoteRequestHandlers ctx' = remoteRequestHandlers ctx"
      "remoteEventHandlers ctx' = remoteEventHandlers ctx"
      "remoteSubscriptionDeliveryClasses ctx' = remoteSubscriptionDeliveryClasses ctx"
      "registeredTransports ctx' = registeredTransports ctx" "pendingReady ctx' = pendingReady ctx"
  shows "bus_wf ctx'"
  using assms remote_view_cong [of ctx' ctx] by (simp add: bus_wf_def)

lemma bus_wf_handlers:
  assumes "bus_wf ctx"
  shows "handler_map_wf (eventHandlers ctx)" "handler_map_wf (requestHandlers ctx)"
    "handler_map_wf (interceptorHandlers ctx)"
  using assms by (auto simp: bus_wf_def)

lemma bus_wf_remote: "bus_wf ctx \<Longrightarrow> remote_wf ctx"
  by (simp add: bus_wf_def)

lemma bus_wf_registered: "bus_wf ctx \<Longrightarrow> peer_view ctx t s \<noteq> None \<Longrightarrow> map_has (registeredTransports ctx) t"
  unfolding bus_wf_def by blast

lemma remote_wf_routes: "remote_wf ctx \<Longrightarrow> routes_of ctx s t \<noteq> [] \<Longrightarrow> learned_class ctx s t \<noteq> None"
  unfolding remote_wf_def by blast

lemma addToHandlerMap_wf:
  assumes "bus_wf ctx"
  shows "bus_wf (addToHandlerMap mk k h p ctx)"
  by (rule handler_change_wf [OF assms]; cases mk)
     (simp_all add: insert_entry_wf bus_wf_handlers [OF assms])

lemma removeFromHandlerMap_wf:
  assumes "bus_wf ctx"
  shows "bus_wf (removeFromHandlerMap mk k h ctx)"
  by (rule handler_change_wf [OF assms]; cases mk)
     (simp_all add: remove_entry_wf bus_wf_handlers [OF assms])

lemma wrap_handler_wf:
  assumes "bus_wf ctx"
  shows "bus_wf (snd (wrap_handler h f ctx))"
  by (rule handler_change_wf [OF assms]; cases f)
     (simp_all add: wrap_handler_def bus_wf_handlers [OF assms])

lemma on_wf [bus_inv]: "bus_wf ctx \<Longrightarrow> bus_wf (fst (snd (on d h opts ctx)))"
  using wrap_handler_wf [of ctx h "oo_filter opts"]
  by (auto simp: on_def Let_def split: prod.splits intro!: fold_invariant_list [where P = bus_wf]
        addToHandlerMap_wf)

lemma on_unsubscribe_wf [bus_inv]: "bus_wf ctx \<Longrightarrow> bus_wf (fst (on_unsubscribe r ctx))"
  by (auto simp: on_unsubscribe_def Let_def intro!: fold_invariant_list [where P = bus_wf]
        removeFromHandlerMap_wf)

lemma intercept_wf [bus_inv]: "bus_wf ctx \<Longrightarrow> bus_wf (snd (intercept d h p f ctx))"
proof -
  assume "bus_wf ctx"
  then have wf: "bus_wf (snd (wrap_handler h f ctx))" by (rule wrap_handler_wf)
  show ?thesis
    unfolding intercept_def Let_def case_prod_beta snd_conv
    by (rule handler_change_wf [OF wf]) (simp_all add: bus_wf_handlers [OF wf] insert_entry_wf)
qed

lemma intercept_unsubscribe_wf [bus_inv]: "bus_wf ctx \<Longrightarrow> bus_wf (intercept_unsubscribe r ctx)"
  unfolding intercept_unsubscribe_def
  by (rule handler_change_wf) (auto intro: remove_entry_wf bus_wf_handlers)

subsection \<open>Transports and subscriptions\<close>

lemma put_record_frame [simp]:
  "registeredTransports (put_record t s r ctx) = registeredTransports ctx"
  "requestHandlers (put_record t s r ctx) = requestHandlers ctx"
  "eventHandlers (put_record t s r ctx) = eventHandlers ctx"
  "interceptorHandlers (put_record t s r ctx) = interceptorHandlers ctx"
  "pendingReady (put_record t s r ctx) = pendingReady ctx"
  by (simp_all add: put_record_def)

lemma bus_wf_frame:
  assumes "bus_wf ctx" and "remote_wf ctx'"
    and "requestHandlers ctx' = requestHandlers ctx" "eventHandlers ctx' = eventHandlers ctx"
      "interceptorHandlers ctx' = interceptorHandlers ctx"
      "registeredTransports ctx' = registeredTransports ctx" "pendingReady ctx' = pendingReady ctx"
    and "\<And>t s. peer_view ctx' t s \<noteq> None \<Longrightarrow> map_has (registeredTransports ctx) t"
  shows "bus_wf ctx'"
  using assms by (simp add: bus_wf_def)

lemma fold_put_frame:
  "registeredTransports (fold (\<lambda>(s, r). put_record t s r) es ctx) = registeredTransports ctx"
  "requestHandlers (fold (\<lambda>(s, r). put_record t s r) es ctx) = requestHandlers ctx"
  "eventHandlers (fold (\<lambda>(s, r). put_record t s r) es ctx) = eventHandlers ctx"
  "interceptorHandlers (fold (\<lambda>(s, r). put_record t s r) es ctx) = interceptorHandlers ctx"
  "pendingReady (fold (\<lambda>(s, r). put_record t s r) es ctx) = pendingReady ctx"
  by (induction es arbitrary: ctx) auto

lemma fold_unsub_frame:
  "registeredTransports (fold (unsubscribe_subject t) ss ctx) = registeredTransports ctx"
  "requestHandlers (fold (unsubscribe_subject t) ss ctx) = requestHandlers ctx"
  "eventHandlers (fold (unsubscribe_subject t) ss ctx) = eventHandlers ctx"
  "interceptorHandlers (fold (unsubscribe_subject t) ss ctx) = interceptorHandlers ctx"
  "pendingReady (fold (unsubscribe_subject t) ss ctx) = pendingReady ctx"
  by (induction ss arbitrary: ctx) auto

lemma propagateSubscribe_bus_wf [bus_inv]:
  assumes "bus_wf ctx" and "map_has (registeredTransports ctx) src" and "map_wf (sm_subjects m)"
  shows "bus_wf (fst (propagateSubscribe src m ctx))"
proof (rule bus_wf_frame [OF assms(1)])
  show "remote_wf (fst (propagateSubscribe src m ctx))"
    using assms(1) by (simp add: bus_wf_def propagateSubscribe_wf)
  fix t s
  assume "peer_view (fst (propagateSubscribe src m ctx)) t s \<noteq> None"
  then have "t = src \<or> peer_view ctx t s \<noteq> None"
    using assms(3) directory.view_put_all [of "message_records m" src ctx t s]
    by (auto simp: propagateSubscribe_fold message_records_keys map_wf_def split: if_splits)
  then show "map_has (registeredTransports ctx) t" using assms(1,2) bus_wf_registered by blast
qed (simp_all add: propagateSubscribe_fold fold_put_frame)

lemma propagateUnsubscribe_bus_wf [bus_inv]:
  assumes "bus_wf ctx"
  shows "bus_wf (fst (propagateUnsubscribe src u ctx))"
proof (rule bus_wf_frame [OF assms])
  show "remote_wf (fst (propagateUnsubscribe src u ctx))"
    using assms by (simp add: bus_wf_def propagateUnsubscribe_wf)
  fix t s
  assume "peer_view (fst (propagateUnsubscribe src u ctx)) t s \<noteq> None"
  then have "peer_view ctx t s \<noteq> None"
    by (auto simp: propagateUnsubscribe_def Let_def directory.view_del_all split: if_splits)
  then show "map_has (registeredTransports ctx) t" by (rule bus_wf_registered [OF assms])
qed (simp_all add: propagateUnsubscribe_def Let_def fold_unsub_frame)

lemma purge_bus_wf:
  assumes "bus_wf ctx"
  shows "bus_wf (fst (purgeRemoteHandlersForTransport t ctx))"
proof (rule bus_wf_frame [OF assms])
  have wf: "remote_wf ctx" using assms by (simp add: bus_wf_def)
  then show "remote_wf (fst (purgeRemoteHandlersForTransport t ctx))" by (rule purge_wf)
  fix t' s
  assume "peer_view (fst (purgeRemoteHandlersForTransport t ctx)) t' s \<noteq> None"
  with purge_view [OF wf] have "peer_view ctx t' s \<noteq> None" by (auto split: if_splits)
  then show "map_has (registeredTransports ctx) t'" by (rule bus_wf_registered [OF assms])
qed simp_all

lemma map_has_set: "map_has (map_set k v m) k' \<longleftrightarrow> k' = k \<or> map_has m k'"
  by (simp add: map_has_get js_simps)

lemma map_has_delete: "map_has (map_delete k m) k' \<longleftrightarrow> k' \<noteq> k \<and> map_has m k'"
  by (simp add: map_has_get js_simps)

lemma trackPendingReady_wf [bus_inv]:
  assumes "bus_wf ctx" and "map_has (registeredTransports ctx) name"
  shows "bus_wf (trackPendingReady name p ctx)"
  using assms remote_view_cong [of "trackPendingReady name p ctx" ctx]
  by (auto simp: bus_wf_def trackPendingReady_def js_simps map_has_set split: option.splits)

lemma ready_settled_wf [bus_inv]: "bus_wf ctx \<Longrightarrow> bus_wf (ready_settled name p ctx)"
  using remote_view_cong [of "ready_settled name p ctx" ctx]
  by (auto simp: bus_wf_def ready_settled_def js_simps map_has_delete)

lemma set_transport_wf:
  assumes "bus_wf ctx"
  shows "bus_wf (ctx\<lparr>registeredTransports := map_set name t (registeredTransports ctx)\<rparr>)"
  using assms remote_view_cong [of "ctx\<lparr>registeredTransports := map_set name t (registeredTransports ctx)\<rparr>" ctx]
  by (auto simp: bus_wf_def js_simps map_has_set)

lemma drop_pending_wf:
  assumes "bus_wf ctx"
  shows "bus_wf (ctx\<lparr>pendingReady := map_delete name (pendingReady ctx)\<rparr>)"
  using assms remote_view_cong [of "ctx\<lparr>pendingReady := map_delete name (pendingReady ctx)\<rparr>" ctx]
  by (auto simp: bus_wf_def js_simps map_has_delete)

lemma registerTransport_wf [bus_inv]:
  assumes "bus_wf ctx"
  shows "bus_wf (fst (registerTransport name t ctx))"
proof -
  define c1 where "c1 = (if map_has (registeredTransports ctx) name
      then (fst (purgeRemoteHandlersForTransport name ctx))\<lparr>pendingReady :=
             map_delete name (pendingReady (fst (purgeRemoteHandlersForTransport name ctx)))\<rparr>
      else ctx)"
  have "bus_wf c1"
    unfolding c1_def using assms drop_pending_wf [OF purge_bus_wf [OF assms]] by simp
  then have "bus_wf (c1\<lparr>registeredTransports := map_set name t (registeredTransports c1)\<rparr>)"
    by (rule set_transport_wf)
  then have "bus_wf (trackPendingReady name (tp_ready t)
      (c1\<lparr>registeredTransports := map_set name t (registeredTransports c1)\<rparr>))"
    by (rule trackPendingReady_wf) (simp add: map_has_set)
  moreover have "fst (registerTransport name t ctx) = trackPendingReady name (tp_ready t)
      (c1\<lparr>registeredTransports := map_set name t (registeredTransports c1)\<rparr>)"
    by (simp add: registerTransport_def c1_def Let_def case_prod_beta)
  ultimately show ?thesis by simp
qed

lemma purge_delete_commute:
  "fst (purgeRemoteHandlersForTransport name (ctx\<lparr>registeredTransports := r, pendingReady := q\<rparr>))
     = (fst (purgeRemoteHandlersForTransport name ctx))\<lparr>registeredTransports := r, pendingReady := q\<rparr>"
  by (simp add: purgeRemoteHandlersForTransport_def Let_def)

lemma unregister_wf [bus_inv]:
  assumes "bus_wf ctx"
  shows "bus_wf (fst (unregister name t ctx))"
proof -
  let ?p = "fst (purgeRemoteHandlersForTransport name ctx)"
  let ?c = "?p\<lparr>registeredTransports := map_delete name (registeredTransports ctx),
               pendingReady := map_delete name (pendingReady ctx)\<rparr>"
  have wf: "bus_wf ?p" by (rule purge_bus_wf [OF assms])
  have gone: "peer_view ?p name s = None" for s
    using assms by (simp add: bus_wf_def purge_view)
  have "bus_wf ?c"
    using wf gone assms remote_view_cong [of ?c ?p]
    by (auto simp: bus_wf_def js_simps map_has_delete)
  then show ?thesis
    using assms by (auto simp: unregister_def purge_delete_commute split: option.splits)
qed

lemma namespace_wf [bus_inv]: "bus_wf ctx \<Longrightarrow> bus_wf (ctx\<lparr>namespaceRegistry := r\<rparr>)"
  by (rule handler_change_wf) (auto intro: bus_wf_handlers)

lemma bus_wf_empty: "bus_wf empty_context"
  using remote_wf_empty
  by (simp add: bus_wf_def empty_context_def map_has_def peer_view_def learned_class_def)

lemma bus_step_wf: "bus_step ctx ctx' \<Longrightarrow> bus_wf ctx \<Longrightarrow> bus_wf ctx'"
  by (erule bus_stepE) (auto intro: bus_inv)

lemma reachable_wf: "reachable ctx \<Longrightarrow> bus_wf ctx"
  by (induction rule: reachable.induct) (auto intro: bus_wf_empty bus_step_wf)

text \<open>
  C5. In every reachable state: handler lists are sorted by descending priority with no empty list
  kept; the three maps of remote state are coherent; every record, and every pending readiness entry,
  belongs to a transport that is registered.
\<close>

theorem reachable_invariant:
  assumes "reachable ctx"
  shows "bus_wf ctx"
  using assms by (rule reachable_wf)

lemma two_peers_reachable:
  "reachable (fst (propagateSubscribe ''ws'' m (fst (registerTransport ''ws'' t empty_context))))"
  if "map_wf (sm_subjects m)"
  by (rule reach_step [OF reach_step [OF reach_init step_register] step_subscribe])
     (use that in \<open>simp_all add: registerTransport_def Let_def trackPendingReady_def map_has_set
        map_has_def empty_context_def split: option.splits\<close>)

theorem reachable_invariant_witness:
  "bus_wf (fst (propagateSubscribe ''ws''
     \<lparr>sm_ackId = None, sm_subjects = [(''ns.a'', [7])], sm_deliveryClasses = [], sm_filters = None\<rparr>
     (fst (registerTransport ''ws'' \<lparr>tp_id = 1, tp_isReady = None, tp_ready = Some 4,
        tp_canSend = None, tp_cancelRequest = True, tp_sendToConnection = False, tp_onBroadcastResults = False\<rparr>
        (empty_context :: nat bus_context)))))"
  by (rule reachable_invariant [OF two_peers_reachable]) (simp add: map_wf_def)

text \<open>
  Requests are never routed to a transport that is gone: in every reachable state each remote
  route offered for a subject leads to a registered transport.
\<close>

lemma reachable_routes_registered:
  assumes "reachable ctx" and "r \<in> set (getMatchingRemoteEntries ctx key ex)"
  shows "getTransport ctx (rt_transport r) \<noteq> None"
proof -
  have wf: "bus_wf ctx" using assms(1) by (rule reachable_wf)
  from assms(2) obtain p es where pe: "(p, es) \<in> set (remoteRequestHandlers ctx)" "r \<in> set es"
    by (auto simp: set_getMatchingRemoteEntries)
  then have "map_get (remoteRequestHandlers ctx) p = Some es"
    using bus_wf_remote [OF wf] by (auto simp: remote_wf_def intro: mem_map_get)
  with pe(2) have "rt_priority r \<in> set (routes_of ctx p (rt_transport r))"
    by (auto simp: routes_of_def)
  then have "routes_of ctx p (rt_transport r) \<noteq> []" by auto
  then have "learned_class ctx p (rt_transport r) \<noteq> None"
    by (rule remote_wf_routes [OF bus_wf_remote [OF wf]])
  then have "peer_view ctx (rt_transport r) p \<noteq> None" by (simp add: peer_view_def)
  from bus_wf_registered [OF wf this] show ?thesis by (simp add: getTransport_def map_has_get)
qed

end
