(* ===== verification/Local_Handlers.thy ===== *)
theory Local_Handlers
  imports Bus_Invariant
begin

text \<open>
  Registration and removal of local handlers (\<open>core/bus-core/src/methods/on.ts\<close>,
  \<open>methods/intercept.ts\<close>): what registering adds, and what the returned cleanup function removes.
\<close>

lemma remove_first_insert:
  assumes "\<forall>x \<in> set es. he_handler x \<noteq> he_handler e"
  shows "remove_first (\<lambda>x. he_handler x = he_handler e) (insertSorted es e) = es"
proof -
  have "remove_first P (xs @ e # ys) = xs @ ys" if "\<forall>x \<in> set xs. \<not> P x" "P e" for P xs ys
    using that by (induction xs) auto
  from this [of "take n es" "\<lambda>x. he_handler x = he_handler e" "drop n es" for n] assms
  show ?thesis by (auto simp: insertSorted_def Let_def dest: in_set_takeD)
qed

lemma map_get_insert_entry:
  "map_get (insert_entry k h p m) k' =
     (if k' = k then Some (insertSorted (case map_get m k of None \<Rightarrow> [] | Some es \<Rightarrow> es)
                            \<lparr>he_handler = h, he_priority = p\<rparr>)
      else map_get m k')"
  by (auto simp: insert_entry_def Let_def js_simps map_has_get)

lemma map_get_remove_entry:
  "map_get (remove_entry k h m) k' =
     (if k' = k
      then (case map_get m k of None \<Rightarrow> None
            | Some es \<Rightarrow> (let es' = remove_first (\<lambda>e. he_handler e = h) es in if es' = [] then None else Some es'))
      else map_get m k')"
  by (auto simp: remove_entry_def Let_def js_simps split: option.splits)

lemma remove_insert_entry:
  assumes "handler_map_wf m"
    and "\<And>es e. map_get m k = Some es \<Longrightarrow> e \<in> set es \<Longrightarrow> he_handler e \<noteq> h"
  shows "map_get (remove_entry k h (insert_entry k h p m)) = map_get m"
proof
  fix k'
  let ?es = "case map_get m k of None \<Rightarrow> [] | Some es \<Rightarrow> es"
  have "remove_first (\<lambda>e. he_handler e = h) (insertSorted ?es \<lparr>he_handler = h, he_priority = p\<rparr>) = ?es"
    using remove_first_insert [of ?es "\<lparr>he_handler = h, he_priority = p\<rparr>"] assms(2)
    by (auto split: option.splits)
  moreover have "?es = [] \<longleftrightarrow> map_get m k = None"
    using handler_map_wf_get [OF assms(1)] by (auto split: option.splits)
  ultimately show "map_get (remove_entry k h (insert_entry k h p m)) k' = map_get m k'"
    by (auto simp: map_get_remove_entry map_get_insert_entry Let_def split: option.splits)
qed

lemma handler_maps_distinct: "distinct (handler_maps d opts)"
  by (auto simp: handler_maps_def Let_def split: option.splits handler_kind.splits)

definition handler_table ::
  "handler_map \<Rightarrow> 'z bus_context \<Rightarrow> (string, effective_handler handler_entry list) js_map" where
  "handler_table mk ctx = (case mk of EventMap \<Rightarrow> eventHandlers ctx | RequestMap \<Rightarrow> requestHandlers ctx)"

lemma handler_table_add:
  "handler_table mk (addToHandlerMap mk' k h p ctx) =
     (if mk = mk' then insert_entry k h p (handler_table mk ctx) else handler_table mk ctx)"
  by (cases mk; cases mk') (auto simp: handler_table_def)

lemma handler_table_remove:
  "handler_table mk (removeFromHandlerMap mk' k h ctx) =
     (if mk = mk' then remove_entry k h (handler_table mk ctx) else handler_table mk ctx)"
  by (cases mk; cases mk') (auto simp: handler_table_def)

lemma handler_table_add_all:
  "distinct mks \<Longrightarrow> handler_table mk (fold (\<lambda>mk. addToHandlerMap mk k h p) mks ctx) =
     (if mk \<in> set mks then insert_entry k h p (handler_table mk ctx) else handler_table mk ctx)"
  by (induction mks arbitrary: ctx) (auto simp: handler_table_add)

lemma handler_table_remove_all:
  "distinct mks \<Longrightarrow> handler_table mk (fold (\<lambda>mk. removeFromHandlerMap mk k h) mks ctx) =
     (if mk \<in> set mks then remove_entry k h (handler_table mk ctx) else handler_table mk ctx)"
  by (induction mks arbitrary: ctx) (auto simp: handler_table_remove)

lemma handler_table_wrap [simp]: "handler_table mk (snd (wrap_handler h f ctx)) = handler_table mk ctx"
  by (cases mk) (auto simp: handler_table_def wrap_handler_def split: option.splits)

text \<open>
  Registering a handler and calling the returned cleanup restores the handler tables, provided
  the effective handler was not already registered for the subject (a filtered registration always
  allocates a new one).
\<close>

lemma on_then_unsubscribe:
  assumes "bus_wf ctx" and "on d h opts ctx = (reg, ctx', out)"
    and "\<And>mk es e. map_get (handler_table mk ctx) (reg_key reg) = Some es \<Longrightarrow> e \<in> set es
           \<Longrightarrow> he_handler e \<noteq> reg_handler reg"
  shows "map_get (handler_table mk (fst (on_unsubscribe reg ctx'))) = map_get (handler_table mk ctx)"
proof -
  let ?key = "getFullSubjectForSubjectDefinition d"
  let ?eff = "fst (wrap_handler h (oo_filter opts) ctx)"
  let ?p = "case oo_priority opts of None \<Rightarrow> 0 | Some p \<Rightarrow> p"
  have reg: "reg = \<lparr>reg_maps = handler_maps d opts, reg_key = ?key, reg_handler = ?eff\<rparr>"
    and ctx': "ctx' = fold (\<lambda>mk. addToHandlerMap mk ?key ?eff ?p) (handler_maps d opts)
                        (snd (wrap_handler h (oo_filter opts) ctx))"
    using assms(2) by (auto simp: on_def Let_def split: prod.splits)
  have wf: "handler_map_wf (handler_table mk ctx)"
    using bus_wf_handlers [OF assms(1)] by (cases mk) (auto simp: handler_table_def)
  have "map_get (remove_entry ?key ?eff (insert_entry ?key ?eff ?p (handler_table mk ctx)))
      = map_get (handler_table mk ctx)"
    by (rule remove_insert_entry [OF wf]) (use assms(3) in \<open>simp add: reg\<close>)
  then show ?thesis
    by (simp add: on_unsubscribe_def Let_def reg ctx' handler_table_add_all handler_table_remove_all
          handler_maps_distinct)
qed

definition ping :: subject_definition where
  "ping = \<lparr>sd_subject = ''ping'', sd_namespace = ''ns'', sd_isRequest = True, sd_local = False,
     sd_channel = False, sd_defaultTransports = None\<rparr>"

definition at_priority :: "priority \<Rightarrow> on_options" where
  "at_priority p = no_on_options\<lparr>oo_priority := Some p\<rparr>"

text \<open>
  The proviso is needed: cleanup identifies the entry by the handler function alone and removes
  the first, hence highest-priority, one. When one function is registered twice for a subject, with
  priorities \<open>p < q\<close>, the cleanup of the registration at \<open>p\<close> removes the entry at \<open>q\<close>.
\<close>

lemma unsubscribe_removes_highest_priority:
  assumes "p < q"
    and "on ping h (at_priority p) (empty_context :: nat bus_context) = (r1, c1, out1)"
    and "on ping h (at_priority q) c1 = (r2, c2, out2)"
  shows "requestHandlers (fst (on_unsubscribe r1 c2))
           = [(''ns.ping'', [\<lparr>he_handler = Plain h, he_priority = p\<rparr>])]"
proof -
  have ins: "insertSorted [\<lparr>he_handler = Plain h, he_priority = p\<rparr>] \<lparr>he_handler = Plain h, he_priority = q\<rparr>
      = [\<lparr>he_handler = Plain h, he_priority = q\<rparr>, \<lparr>he_handler = Plain h, he_priority = p\<rparr>]"
    using assms(1) by (simp add: insertSorted_eq)
  have one: "insertSorted [] e = [e]" for e :: "effective_handler handler_entry"
    by (simp add: insertSorted_eq)
  show ?thesis
    using assms(2,3)
    by (auto simp: on_def on_unsubscribe_def Let_def ping_def at_priority_def no_on_options_def
          handler_maps_def wrap_handler_def getFullSubjectForSubjectDefinition_def insert_entry_def
          remove_entry_def map_has_def map_get_def empty_context_def ins one)
qed

end
