(* ===== verification/Routing.thy ===== *)
theory Routing
  imports Bus_Invariant
begin

text \<open>
  Construction of the list a request walks (\<open>core/bus-core/src/methods/request/merged-list.ts\<close>) and
  the choice of transports for outbound messages (\<open>methods/request/normalizeTransportTargets.ts\<close>,
  \<open>methods/resolve-effective-transports.ts\<close>, and the option handling of \<open>methods/request.ts\<close>).
\<close>

section \<open>Merged list\<close>

datatype merged_entry =
    LocalEntry effective_handler (me_priority: priority)
  | RemoteEntry transport_name (me_priority: priority)

fun is_local :: "merged_entry \<Rightarrow> bool" where
  "is_local (LocalEntry _ _) = True"
| "is_local (RemoteEntry _ _) = False"

definition merged_compare :: "merged_entry \<Rightarrow> merged_entry \<Rightarrow> int" where
  "merged_compare a b =
     (if me_priority b \<noteq> me_priority a then me_priority b - me_priority a
      else if is_local a \<and> \<not> is_local b then - 1
      else if \<not> is_local a \<and> is_local b then 1
      else 0)"

definition local_entry :: "effective_handler handler_entry \<Rightarrow> merged_entry" where
  "local_entry e = LocalEntry (he_handler e) (he_priority e)"

definition remote_entry :: "remote_route \<Rightarrow> merged_entry" where
  "remote_entry r = RemoteEntry (rt_transport r) (rt_priority r)"

definition buildMergedList ::
  "effective_handler handler_entry list \<Rightarrow> remote_route list \<Rightarrow> merged_entry list" where
  "buildMergedList localEntries remoteEntries =
     js_sort merged_compare (map local_entry localEntries @ map remote_entry remoteEntries)"

definition resolveRemoteEntries ::
  "'z bus_context \<Rightarrow> remote_route list \<Rightarrow> transport_name list option \<Rightarrow> remote_route list" where
  "resolveRemoteEntries ctx remoteEntries allowedTransports =
     (case allowedTransports of
        None \<Rightarrow> remoteEntries
      | Some [] \<Rightarrow> remoteEntries
      | Some allowed \<Rightarrow>
          (let filtered = filter (\<lambda>e. rt_transport e \<in> set allowed) remoteEntries
           in if filtered \<noteq> [] then filtered
              else map (\<lambda>t. \<lparr>rt_transport = t, rt_priority = 0\<rparr>)
                     (filter (\<lambda>t. case getTransport ctx t of None \<Rightarrow> False | Some tr \<Rightarrow> transport_ready tr)
                       (set_of_list allowed))))"

definition resolveStartIndex :: "merged_entry list \<Rightarrow> priority option \<Rightarrow> int" where
  "resolveStartIndex merged cursor =
     (case cursor of None \<Rightarrow> 0 | Some c \<Rightarrow> find_index (\<lambda>e. me_priority e < c) merged)"

definition resolveRemoteCursor ::
  "merged_entry list \<Rightarrow> nat \<Rightarrow> priority \<Rightarrow> priority option \<Rightarrow> priority option" where
  "resolveRemoteCursor merged nextIndex entryPriority incomingCursor =
     (if nextIndex < 2 then incomingCursor
      else (let base = me_priority (merged ! (nextIndex - 2))
            in Some (if base = entryPriority then base + 1 else base)))"

section \<open>Transport selection\<close>

type_synonym transport_spec = "transport_name list option"

definition isExplicitLocalOnlyTransportSpec :: "transport_spec \<Rightarrow> bool" where
  "isExplicitLocalOnlyTransportSpec transports \<longleftrightarrow> transports = Some []"

definition normalizeTransportTargets ::
  "'z bus_context \<Rightarrow> transport_spec \<Rightarrow> subject_definition \<Rightarrow> bus_message option
     \<Rightarrow> (transport_name \<times> transport) list" where
  "normalizeTransportTargets ctx transports d message =
     (if sd_local d then []
      else if isCollectorOnlySubject (namespaceRegistry ctx) (getFullSubjectForSubjectDefinition d) then []
      else (case transports of
              None \<Rightarrow> (if sd_defaultTransports d = Some DT_localOnly then []
                      else getReadyTransports ctx None message)
            | Some names \<Rightarrow>
                (if isExplicitLocalOnlyTransportSpec transports then []
                 else List.map_filter (\<lambda>name. map_option (Pair name) (getTransport ctx name)) names)))"

definition resolveEffectiveTransports ::
  "'z bus_context \<Rightarrow> subject_definition \<Rightarrow> subject \<Rightarrow> transport_spec \<Rightarrow> transport_spec" where
  "resolveEffectiveTransports ctx d fullSubjectKey callerTransports =
     (case callerTransports of
        Some ts \<Rightarrow> Some ts
      | None \<Rightarrow>
          (case sd_defaultTransports d of
             Some dt \<Rightarrow> (if dt = DT_localOnly then Some [] else None)
           | None \<Rightarrow> (if getDefaultTransports (namespaceRegistry ctx) fullSubjectKey = DT_localOnly
                     then Some [] else None)))"

definition resolveLocalOnly ::
  "'z bus_context \<Rightarrow> subject_definition \<Rightarrow> subject \<Rightarrow> transport_spec \<Rightarrow> bool" where
  "resolveLocalOnly ctx d fullSubjectKey transports \<longleftrightarrow>
     sd_local d \<or> isExplicitLocalOnlyTransportSpec (resolveEffectiveTransports ctx d fullSubjectKey transports)"

definition resolveAllowedTransports :: "transport_spec \<Rightarrow> transport_spec" where
  "resolveAllowedTransports transports =
     (case transports of None \<Rightarrow> None | Some names \<Rightarrow> (if names \<noteq> [] then Some names else None))"

section \<open>Order of the merged list\<close>

interpretation merged: js_comparator merged_compare
  by unfold_locales (auto simp: merged_compare_def split: if_splits)

lemma merged_sorted: "sorted_wrt (\<lambda>a b. me_priority b \<le> me_priority a) (buildMergedList ls rs)"
proof -
  have "merged_compare a b \<le> 0 \<Longrightarrow> me_priority b \<le> me_priority a" for a b
    by (auto simp: merged_compare_def split: if_splits)
  then show ?thesis
    using merged.js_sort_ordered by (metis (mono_tags, lifting) buildMergedList_def sorted_wrt_mono_rel)
qed

lemma merged_locals:
  assumes "prio_sorted ls"
  shows "filter is_local (buildMergedList ls rs) = map local_entry ls"
proof -
  have "merged.ordered (map local_entry ls)"
    using assms by (auto simp: sorted_wrt_map merged_compare_def local_entry_def elim: sorted_wrt_mono_rel [rotated])
  moreover have "filter is_local (map local_entry ls @ map remote_entry rs) = map local_entry ls"
    by (simp add: filter_map o_def local_entry_def remote_entry_def)
  ultimately show ?thesis
    by (simp add: buildMergedList_def merged.js_sort_filter [symmetric] merged.js_sort_id)
qed

lemma merged_remotes:
  assumes "sorted_wrt (\<lambda>a b. rt_priority b \<le> rt_priority a) rs"
  shows "filter (\<lambda>e. \<not> is_local e) (buildMergedList ls rs) = map remote_entry rs"
proof -
  have "merged.ordered (map remote_entry rs)"
    using assms by (auto simp: sorted_wrt_map merged_compare_def remote_entry_def elim: sorted_wrt_mono_rel [rotated])
  moreover have "filter (\<lambda>e. \<not> is_local e) (map local_entry ls @ map remote_entry rs) = map remote_entry rs"
    by (simp add: filter_map o_def local_entry_def remote_entry_def)
  ultimately show ?thesis
    by (simp add: buildMergedList_def merged.js_sort_filter [symmetric] merged.js_sort_id)
qed

lemma set_buildMergedList: "set (buildMergedList ls rs) = local_entry ` set ls \<union> remote_entry ` set rs"
  by (simp add: buildMergedList_def)

text \<open>
  The merged list is the priority interleaving of local handlers and remote routes: priorities
  never increase along it, at equal priority every local entry comes before every remote one, and
  each kind keeps its own order.
\<close>

lemma merged_list_order:
  assumes "prio_sorted ls" and "sorted_wrt (\<lambda>a b. rt_priority b \<le> rt_priority a) rs"
  shows "sorted_wrt (\<lambda>a b. me_priority b < me_priority a
             \<or> (me_priority b = me_priority a \<and> (is_local b \<longrightarrow> is_local a))) (buildMergedList ls rs)
     \<and> filter is_local (buildMergedList ls rs) = map local_entry ls
     \<and> filter (\<lambda>e. \<not> is_local e) (buildMergedList ls rs) = map remote_entry rs"
proof -
  have "merged_compare a b \<le> 0 \<Longrightarrow> me_priority b < me_priority a
             \<or> (me_priority b = me_priority a \<and> (is_local b \<longrightarrow> is_local a))" for a b
    by (auto simp: merged_compare_def split: if_splits)
  then have "sorted_wrt (\<lambda>a b. me_priority b < me_priority a
             \<or> (me_priority b = me_priority a \<and> (is_local b \<longrightarrow> is_local a))) (buildMergedList ls rs)"
    using merged.js_sort_ordered by (metis (mono_tags, lifting) buildMergedList_def sorted_wrt_mono_rel)
  with merged_locals [OF assms(1)] merged_remotes [OF assms(2)] show ?thesis by blast
qed

text \<open>
  The priority cursor cuts the list: with a cursor, dispatch starts at the first entry strictly
  below it, the rest of the list being exactly the entries below the cursor; when there is none the
  index is \<open>-1\<close>.
\<close>

lemma start_index_cuts_at_cursor:
  "(resolveStartIndex (buildMergedList ls rs) (Some c) = - 1
      \<longrightarrow> (\<forall>e \<in> set (buildMergedList ls rs). c \<le> me_priority e))
   \<and> (resolveStartIndex (buildMergedList ls rs) (Some c) \<noteq> - 1
      \<longrightarrow> drop (nat (resolveStartIndex (buildMergedList ls rs) (Some c))) (buildMergedList ls rs)
            = filter (\<lambda>e. me_priority e < c) (buildMergedList ls rs))"
proof -
  let ?m = "buildMergedList ls rs"
  have drop_filter: "sorted_wrt (\<lambda>a b. me_priority b \<le> me_priority a) xs \<Longrightarrow>
      dropWhile (\<lambda>e. \<not> me_priority e < c) xs = filter (\<lambda>e. me_priority e < c) xs" for xs :: "merged_entry list"
    by (induction xs) (auto intro!: filter_True [symmetric])
  show ?thesis
    using find_index_neg_iff [of "\<lambda>e. me_priority e < c" ?m]
      find_index_nonneg [of "\<lambda>e. me_priority e < c" ?m] drop_filter [OF merged_sorted [of ls rs]]
    by (auto simp: resolveStartIndex_def not_less)
qed

text \<open>
  The cursor sent with a remote hop includes the peer's handlers at the hop's own priority and
  excludes every higher priority this node has already passed: for an entry that is not the first of
  the list, the cursor lies above the entry's priority and at or below that of every earlier entry of
  a strictly higher priority.
\<close>

lemma remote_cursor_bounds:
  assumes "sorted_wrt (\<lambda>a b. me_priority b \<le> me_priority a) merged"
    and "i + 1 < length merged" and "me_priority (merged ! (i + 1)) = p"
    and "resolveRemoteCursor merged (i + 2) p incoming = Some c"
  shows "p < c \<and> (\<forall>j \<le> i. p < me_priority (merged ! j) \<longrightarrow> c \<le> me_priority (merged ! j))"
proof -
  have mono: "a < b \<Longrightarrow> b < length merged \<Longrightarrow> me_priority (merged ! b) \<le> me_priority (merged ! a)" for a b
    using assms(1) by (simp add: sorted_wrt_iff_nth_less)
  let ?base = "me_priority (merged ! i)"
  have base: "p \<le> ?base" using mono [of i "i + 1"] assms(2,3) by simp
  have c: "c = (if ?base = p then ?base + 1 else ?base)"
    using assms(4) by (auto simp: resolveRemoteCursor_def Let_def)
  have "?base \<le> me_priority (merged ! j)" if "j \<le> i" for j
    using that mono [of j i] assms(2) by (cases "j = i") auto
  with base c show ?thesis by (auto split: if_splits)
qed

text \<open>
  The incoming cursor is not respected by an onward hop: when this node entered the chain at a
  cursor \<open>c\<close> and skipped an entry above it, the next remote hop is sent that entry's priority as its
  cursor, so the peer is asked to run handlers between \<open>c\<close> and it, which the chain had passed.
\<close>

lemma onward_cursor_exceeds_incoming:
  assumes "c < q" and "p < c"
  shows "resolveStartIndex (buildMergedList [\<lparr>he_handler = h, he_priority = q\<rparr>]
             [\<lparr>rt_transport = t, rt_priority = p\<rparr>]) (Some c) = 1
     \<and> resolveRemoteCursor (buildMergedList [\<lparr>he_handler = h, he_priority = q\<rparr>]
             [\<lparr>rt_transport = t, rt_priority = p\<rparr>]) 2 p (Some c) = Some q"
proof -
  have "buildMergedList [\<lparr>he_handler = h, he_priority = q\<rparr>] [\<lparr>rt_transport = t, rt_priority = p\<rparr>]
      = [LocalEntry h q, RemoteEntry t p]"
    using assms by (simp add: buildMergedList_def js_sort_def merged_compare_def local_entry_def remote_entry_def)
  with assms show ?thesis by (simp add: resolveStartIndex_def resolveRemoteCursor_def Let_def)
qed

section \<open>Locality of outbound messages\<close>

lemma local_subjects_have_no_targets:
  "sd_local d \<or> isCollectorOnlySubject (namespaceRegistry ctx) (getFullSubjectForSubjectDefinition d)
     \<Longrightarrow> normalizeTransportTargets ctx transports d message = []"
  by (auto simp: normalizeTransportTargets_def)

lemma explicit_local_only_no_targets [simp]: "normalizeTransportTargets ctx (Some []) d message = []"
  by (simp add: normalizeTransportTargets_def isExplicitLocalOnlyTransportSpec_def)

end
