(* ===== verification/Bus_Errors.thy ===== *)
theory Bus_Errors
  imports Bus_Context
begin

text \<open>
  Errors and their wire form: the error classes of \<open>core/bus-core/src/errors\<close>, cancellation
  provenance (\<open>errors/bus-abort-error.ts\<close>) and the error codec of \<open>utils/transport.ts\<close>. A thrown
  value is an error object or any other value. An error object has an identity when it was supplied
  from outside (\<open>Object.is\<close> can only succeed on those); objects the bus allocates itself have none.
\<close>

section \<open>Thrown values\<close>

datatype error_class =
  C_Error | C_NoHandler | C_Request | C_Timeout | C_Validation | C_LocalSubject | C_BusAbort | C_pTimeout
  | C_Range | C_ChannelOnly

datatype thrown =
    ErrorObj (eo_id: "nat option") (eo_class: error_class) (eo_message: string)
      (eo_props: "(string \<times> js_value) list") (eo_cause: "thrown option")
  | ThrownValue js_value

fun is_error :: "thrown \<Rightarrow> bool" where
  "is_error (ErrorObj _ _ _ _ _) = True"
| "is_error (ThrownValue _) = False"

fun has_class :: "error_class \<Rightarrow> thrown \<Rightarrow> bool" where
  "has_class c (ErrorObj _ c' _ _ _) = (c = c')"
| "has_class c (ThrownValue _) = False"

text \<open>\<open>Object.is\<close>: the same object, or the same primitive; object values are never compared here.\<close>

fun same_object :: "thrown \<Rightarrow> thrown \<Rightarrow> bool" where
  "same_object (ErrorObj i c m p r) e = (i \<noteq> None \<and> ErrorObj i c m p r = e)"
| "same_object (ThrownValue v) e = (e = ThrownValue v)"

subsection \<open>Number and value formatting\<close>

fun js_string :: "js_value \<Rightarrow> string" where
  "js_string JUndefined = ''undefined''"
| "js_string JNull = ''null''"
| "js_string (JBool b) = (if b then ''true'' else ''false'')"
| "js_string (JNum n) = show_int n"
| "js_string (JStr s) = s"
| "js_string (JArr vs) =
     join_with '','' (map (\<lambda>v. if v = JNull \<or> v = JUndefined then [] else js_string v) vs)"
| "js_string (JObj _) = ''[object Object]''"
| "js_string (JFun f) = f"

fun thrown_text :: "thrown \<Rightarrow> string" where
  "thrown_text (ErrorObj _ _ m _ _) = m"
| "thrown_text (ThrownValue v) = js_string v"

subsection \<open>Error classes\<close>

definition quoted :: "string \<Rightarrow> string" where
  "quoted s = [CHR 0x22] @ s @ [CHR 0x22]"

definition NO_HANDLER_ERROR_CODE :: string where
  "NO_HANDLER_ERROR_CODE = ''NO_HANDLER''"

definition NoHandlerError :: "subject \<Rightarrow> thrown" where
  "NoHandlerError s = ErrorObj None C_NoHandler (''No handler registered for request subject '' @ quoted s)
     [(''subject'', JStr s), (''code'', JStr NO_HANDLER_ERROR_CODE)] None"

definition RequestError :: "string \<Rightarrow> string \<Rightarrow> thrown option \<Rightarrow> thrown" where
  "RequestError s message cause =
     ErrorObj None C_Request (''Request to '' @ quoted s @ '' failed: '' @ message) [(''subject'', JStr s)] cause"

definition TimeoutError :: "string \<Rightarrow> millis \<Rightarrow> thrown" where
  "TimeoutError s ms =
     ErrorObj None C_Timeout (''Request to '' @ quoted s @ '' timed out after '' @ show_int ms @ ''ms'')
       [(''subject'', JStr s), (''timeoutMs'', JNum ms)] None"

definition LocalSubjectError :: "subject \<Rightarrow> thrown" where
  "LocalSubjectError s = ErrorObj None C_LocalSubject
     (''Subject '' @ quoted s @ '' is local-only and cannot be invoked over a transport. ''
      @ ''Register a non-local handler on each node that needs to respond to this subject.'')
     [(''subject'', JStr s)] None"

text \<open>The issue texts of a validation error come from Zod: the second argument is their joined form.\<close>

definition ValidationError :: "subject \<Rightarrow> string \<Rightarrow> thrown" where
  "ValidationError s issues = ErrorObj None C_Validation
     (''Validation failed for subject '' @ quoted s @ '':'' @ [CHR 0x0A] @ issues)
     [(''subject'', JStr s)] None"

definition pTimeoutError :: thrown where
  "pTimeoutError = ErrorObj None C_pTimeout ''Promise timed out'' [] None"

section \<open>Cancellation\<close>

text \<open>An abort signal: when it fires, if ever, and its reason.\<close>

record abort_signal =
  as_at :: "millis option"
  as_reason :: thrown

definition aborted :: "abort_signal \<Rightarrow> millis \<Rightarrow> bool" where
  "aborted s now = (case as_at s of None \<Rightarrow> False | Some t \<Rightarrow> t \<le> now)"

definition BusAbortError :: "thrown \<Rightarrow> thrown" where
  "BusAbortError reason = ErrorObj None C_BusAbort
     (case reason of ThrownValue (JStr s) \<Rightarrow> s | _ \<Rightarrow> ''Request aborted'') [] (Some reason)"

definition toAbortError :: "thrown \<Rightarrow> thrown" where
  "toAbortError reason = (if is_error reason then reason else BusAbortError reason)"

definition isRequestCancellation :: "thrown \<Rightarrow> abort_signal option \<Rightarrow> millis \<Rightarrow> bool" where
  "isRequestCancellation error signal now =
     (case signal of
        None \<Rightarrow> False
      | Some s \<Rightarrow>
          aborted s now \<and> is_error error
          \<and> (same_object error (as_reason s)
             \<or> (has_class C_BusAbort error
                \<and> (case eo_cause error of None \<Rightarrow> False | Some c \<Rightarrow> same_object c (as_reason s)))))"

section \<open>The codec\<close>

definition SKIP_PROPS :: "string list" where
  "SKIP_PROPS = [''message'', ''name'', ''stack'', ''cause'', ''subject'', ''code'', ''__proto__'']"

fun isSerializableValue :: "js_value \<Rightarrow> bool" where
  "isSerializableValue (JFun _) = False"
| "isSerializableValue JUndefined = False"
| "isSerializableValue _ = True"

definition collectStructuredProps ::
  "(string \<times> js_value) list \<Rightarrow> (string \<times> js_value) list option" where
  "collectStructuredProps props =
     (let result = filter (\<lambda>(k, v). k \<notin> set SKIP_PROPS \<and> isSerializableValue v) props
      in if result \<noteq> [] then Some result else None)"

definition string_prop :: "(string \<times> js_value) list \<Rightarrow> string \<Rightarrow> string option" where
  "string_prop props key = (case map_of props key of Some (JStr s) \<Rightarrow> Some s | _ \<Rightarrow> None)"

text \<open>\<open>'code' in error\<close>: an own property; a \<open>DOMException\<close> has a numeric \<open>code\<close> on its prototype.\<close>

definition has_code :: "thrown \<Rightarrow> bool" where
  "has_code e \<longleftrightarrow> has_class C_BusAbort e \<or> map_of (eo_props e) ''code'' \<noteq> None"

text \<open>Own enumerable properties of a thrown object that is not an error.\<close>

fun value_props :: "js_value \<Rightarrow> (string \<times> js_value) list" where
  "value_props (JObj flds) = flds"
| "value_props (JArr vs) = zip (map show_nat [0..<length vs]) vs"
| "value_props _ = []"

fun serializeError :: "thrown \<Rightarrow> bus_transport_error" where
  "serializeError (ThrownValue v) =
     (if \<not> is_object v
      then \<lparr>te_message = js_string v, te_code = None, te_subject = None, te_data = None\<rparr>
      else \<lparr>te_message = (case string_prop (value_props v) ''message'' of Some m \<Rightarrow> m | None \<Rightarrow> js_string v),
            te_code = string_prop (value_props v) ''code'',
            te_subject = string_prop (value_props v) ''subject'',
            te_data = collectStructuredProps (value_props v)\<rparr>)"
| "serializeError (ErrorObj i c m props cause) =
     (let error = ErrorObj i c m props cause;
          structuredSource = (case cause of Some s \<Rightarrow> if is_error s then s else error | None \<Rightarrow> error);
          codeSource = (if has_code error then error else structuredSource)
      in \<lparr>te_message = m,
          te_code = string_prop (eo_props codeSource) ''code'',
          te_subject = (case string_prop props ''subject'' of
                          Some s \<Rightarrow> Some s
                        | None \<Rightarrow> string_prop (eo_props structuredSource) ''subject''),
          te_data = collectStructuredProps (eo_props structuredSource)\<rparr>)"

text \<open>A string option is used when present and not empty (the source tests truthiness).\<close>

fun truthy_string :: "string option \<Rightarrow> string option" where
  "truthy_string (Some (c # cs)) = Some (c # cs)"
| "truthy_string _ = None"

fun is_JStr :: "js_value \<Rightarrow> bool" where
  "is_JStr (JStr _) = True"
| "is_JStr _ = False"

definition add_data_prop ::
  "string \<times> js_value \<Rightarrow> (string, js_value) js_map \<Rightarrow> (string, js_value) js_map" where
  "add_data_prop e props =
     (let key = fst e; value = snd e
      in if key = ''code'' \<or> key = ''subject''
         then (if (map_get props key = None \<or> map_get props key = Some JUndefined)
                  \<and> is_JStr value then map_set key value props else props)
         else if key \<in> set SKIP_PROPS then props
         else map_set key value props)"

definition deserializeTransportError :: "bus_transport_error \<Rightarrow> thrown" where
  "deserializeTransportError w =
     ErrorObj None C_Error (te_message w)
       (fold add_data_prop (case te_data w of None \<Rightarrow> [] | Some d \<Rightarrow> d)
         ((case truthy_string (te_code w) of None \<Rightarrow> [] | Some c \<Rightarrow> [(''code'', JStr c)])
          @ (case truthy_string (te_subject w) of None \<Rightarrow> [] | Some s \<Rightarrow> [(''subject'', JStr s)])))
       None"

definition isNoHandlerErrorForSubject :: "thrown \<Rightarrow> subject \<Rightarrow> bool" where
  "isNoHandlerErrorForSubject error fullSubject =
     (if \<not> is_error error then False
      else if has_class C_NoHandler error then map_of (eo_props error) ''subject'' = Some (JStr fullSubject)
      else if map_of (eo_props error) ''code'' = Some (JStr NO_HANDLER_ERROR_CODE)
      then map_of (eo_props error) ''subject'' = Some (JStr fullSubject)
      else False)"

text \<open>
  \<open>transportErrorData\<close> reads the own enumerable properties of any object; the result merges an own
  \<open>data\<close> bag into them.
\<close>

definition error_data :: "(string, js_value) js_map \<Rightarrow> (string \<times> js_value) list option" where
  "error_data props =
     (let flat = (case collectStructuredProps props of None \<Rightarrow> [] | Some f \<Rightarrow> f)
      in case map_of props ''data'' of
           Some (JObj bag) \<Rightarrow>
             (let merged = spread_onto (map_delete ''data'' flat)
                             (filter (\<lambda>(k, v). k \<notin> set SKIP_PROPS) bag)
              in if merged \<noteq> [] then Some merged else None)
         | _ \<Rightarrow> (if flat \<noteq> [] then Some flat else None))"

fun transportErrorData :: "thrown \<Rightarrow> (string \<times> js_value) list option" where
  "transportErrorData (ThrownValue v) = (if is_object v then error_data (value_props v) else None)"
| "transportErrorData (ErrorObj i c m props cause) = error_data props"

section \<open>Round trips of the codec\<close>

definition data_wf :: "(string \<times> js_value) list \<Rightarrow> bool" where
  "data_wf d \<longleftrightarrow> d \<noteq> [] \<and> map_wf d \<and> (\<forall>(k, v) \<in> set d. k \<notin> set SKIP_PROPS \<and> isSerializableValue v)"

definition wire_wf :: "bus_transport_error \<Rightarrow> bool" where
  "wire_wf w \<longleftrightarrow> te_code w \<noteq> Some [] \<and> te_subject w \<noteq> Some []
     \<and> (case te_data w of None \<Rightarrow> True | Some d \<Rightarrow> data_wf d)"

text \<open>Property names are distinct, as they are on any object.\<close>

fun error_wf :: "thrown \<Rightarrow> bool" where
  "error_wf (ErrorObj i c m props cause) =
     (map_wf props \<and> (case cause of None \<Rightarrow> True | Some e \<Rightarrow> error_wf e))"
| "error_wf (ThrownValue v) = map_wf (value_props v)"

lemma collect_data_wf: "map_wf props \<Longrightarrow> collectStructuredProps props = Some d \<Longrightarrow> data_wf d"
  by (auto simp: collectStructuredProps_def data_wf_def Let_def map_wf_def split: if_splits)

lemma collect_append_skipped:
  assumes "\<forall>(k, v) \<in> set base. k \<in> set SKIP_PROPS" and "data_wf d"
  shows "collectStructuredProps (base @ d) = Some d"
proof -
  have "filter (\<lambda>(k, v). k \<notin> set SKIP_PROPS \<and> isSerializableValue v) base = []"
    using assms(1) by (auto simp: filter_empty_conv)
  moreover have "filter (\<lambda>(k, v). k \<notin> set SKIP_PROPS \<and> isSerializableValue v) d = d"
    using assms(2) by (auto simp: filter_id_conv data_wf_def)
  ultimately show ?thesis using assms(2) by (simp add: collectStructuredProps_def data_wf_def)
qed

lemma collect_skipped: "\<forall>(k, v) \<in> set base. k \<in> set SKIP_PROPS \<Longrightarrow> collectStructuredProps base = None"
  by (auto simp: collectStructuredProps_def Let_def filter_empty_conv)

lemma fold_add_data:
  assumes "distinct (map fst base @ map fst d)" and "\<forall>(k, v) \<in> set d. k \<notin> set SKIP_PROPS"
  shows "fold add_data_prop d base = base @ d"
  using assms
proof (induction d arbitrary: base)
  case (Cons e d)
  obtain k v where e: "e = (k, v)" by (cases e)
  have k: "k \<notin> set SKIP_PROPS" using Cons.prems(2) e by auto
  then have "k \<noteq> ''code''" "k \<noteq> ''subject''" by (auto simp: SKIP_PROPS_def)
  moreover have "k \<notin> fst ` set base" using Cons.prems(1) e by auto
  ultimately have "add_data_prop e base = base @ [(k, v)]"
    using k by (simp add: add_data_prop_def e Let_def map_set_fresh)
  with Cons.IH [of "base @ [(k, v)]"] Cons.prems show ?case by (simp add: e)
qed simp

definition head_props :: "bus_transport_error \<Rightarrow> (string \<times> js_value) list" where
  "head_props w =
     (case te_code w of None \<Rightarrow> [] | Some c \<Rightarrow> [(''code'', JStr c)])
     @ (case te_subject w of None \<Rightarrow> [] | Some s \<Rightarrow> [(''subject'', JStr s)])"

lemma truthy_string_id: "x \<noteq> Some [] \<Longrightarrow> truthy_string x = x"
  by (cases x; cases "the x") auto

lemma deserialize_props:
  assumes "wire_wf w"
  shows "deserializeTransportError w = ErrorObj None C_Error (te_message w)
     (head_props w @ (case te_data w of None \<Rightarrow> [] | Some d \<Rightarrow> d)) None"
proof -
  let ?d = "case te_data w of None \<Rightarrow> [] | Some d \<Rightarrow> d"
  have skip: "\<forall>(k, v) \<in> set ?d. k \<notin> set SKIP_PROPS" and dist: "distinct (map fst ?d)"
    using assms by (auto simp: wire_wf_def data_wf_def map_wf_def split: option.splits)
  have heads: "fst ` set (head_props w) \<subseteq> set SKIP_PROPS" "distinct (map fst (head_props w))"
    by (auto simp: head_props_def SKIP_PROPS_def split: option.splits)
  have disj: "fst ` set (head_props w) \<inter> fst ` set ?d = {}"
  proof -
    have "fst ` set ?d \<inter> set SKIP_PROPS = {}" using skip by force
    with heads(1) show ?thesis by blast
  qed
  have "fold add_data_prop ?d (head_props w) = head_props w @ ?d"
    by (rule fold_add_data [OF _ skip]) (use dist heads(2) disj in auto)
  then show ?thesis
    using assms by (simp add: deserializeTransportError_def wire_wf_def truthy_string_id head_props_def)
qed

lemma serialize_deserialize:
  assumes "wire_wf w"
  shows "serializeError (deserializeTransportError w) = w"
proof -
  let ?d = "case te_data w of None \<Rightarrow> [] | Some d \<Rightarrow> d"
  let ?props = "head_props w @ ?d"
  have no: "map_of ?d ''code'' = None" "map_of ?d ''subject'' = None"
    using assms by (auto simp: wire_wf_def data_wf_def SKIP_PROPS_def map_of_eq_None_iff split: option.splits)
  have heads: "\<forall>(k, v) \<in> set (head_props w). k \<in> set SKIP_PROPS"
    by (auto simp: head_props_def SKIP_PROPS_def split: option.splits)
  have data: "collectStructuredProps ?props = te_data w"
  proof (cases "te_data w")
    case None
    then show ?thesis using collect_skipped [OF heads] by simp
  next
    case (Some d)
    then have "data_wf d" using assms by (simp add: wire_wf_def)
    with Some collect_append_skipped [OF heads] show ?thesis by simp
  qed
  have code: "string_prop ?props ''code'' = te_code w" and subj: "string_prop ?props ''subject'' = te_subject w"
    using no by (auto simp: string_prop_def head_props_def map_add_def split: option.splits)
  show ?thesis
    using data code subj
    by (simp add: deserialize_props [OF assms] Let_def split: option.splits)
qed

lemma serializeError_data_wf:
  assumes "error_wf e" and "te_data (serializeError e) = Some d"
  shows "data_wf d"
proof (cases e)
  case (ErrorObj i c m props cause)
  let ?src = "case cause of Some s \<Rightarrow> if is_error s then s else e | None \<Rightarrow> e"
  have wf: "map_wf (eo_props ?src)"
  proof (cases cause)
    case (Some s)
    then show ?thesis using assms(1) ErrorObj by (cases s) auto
  qed (use assms(1) ErrorObj in simp)
  have "collectStructuredProps (eo_props ?src) = Some d"
    using assms(2) unfolding ErrorObj by (simp add: Let_def)
  from collect_data_wf [OF wf this] show ?thesis .
next
  case (ThrownValue v)
  with assms show ?thesis by (auto dest: collect_data_wf split: if_splits)
qed

text \<open>
  Errors survive relaying: once an error has been serialised, deserialising and serialising it
  again on the next hop gives the same wire error, message, code, subject and structured data
  included (code and subject not empty).
\<close>

lemma error_codec_stable:
  assumes "error_wf e" and "te_code (serializeError e) \<noteq> Some []" and "te_subject (serializeError e) \<noteq> Some []"
  shows "serializeError (deserializeTransportError (serializeError e)) = serializeError e"
proof (rule serialize_deserialize)
  show "wire_wf (serializeError e)"
    using assms serializeError_data_wf [OF assms(1)] by (auto simp: wire_wf_def split: option.splits)
qed

definition hop :: "thrown \<Rightarrow> thrown" where
  "hop e = deserializeTransportError (serializeError e)"

lemma hop_no_handler:
  assumes "s \<noteq> []"
  shows "(hop ^^ Suc n) (NoHandlerError s) = ErrorObj None C_Error
     (''No handler registered for request subject '' @ quoted s)
     [(''code'', JStr NO_HANDLER_ERROR_CODE), (''subject'', JStr s)] None"
proof -
  let ?w = "\<lparr>te_message = ''No handler registered for request subject '' @ quoted s,
      te_code = Some NO_HANDLER_ERROR_CODE, te_subject = Some s, te_data = None\<rparr>"
  have ser: "serializeError (NoHandlerError s) = ?w"
    by (simp add: NoHandlerError_def string_prop_def collectStructuredProps_def SKIP_PROPS_def Let_def)
  have wf: "wire_wf ?w" using assms by (simp add: wire_wf_def NO_HANDLER_ERROR_CODE_def)
  let ?e = "deserializeTransportError ?w"
  have e: "?e = ErrorObj None C_Error (''No handler registered for request subject '' @ quoted s)
     [(''code'', JStr NO_HANDLER_ERROR_CODE), (''subject'', JStr s)] None"
    unfolding deserialize_props [OF wf] by (simp add: head_props_def)
  have "(hop ^^ Suc n) (NoHandlerError s) = ?e"
    by (induction n) (simp_all only: hop_def ser serialize_deserialize [OF wf] funpow.simps o_apply id_apply)
  with e show ?thesis by simp
qed

text \<open>
  The no-handler signal crosses any number of hops: after \<open>n\<close> serialisations and
  deserialisations a no-handler error is still recognised for its own subject, and for no other.
\<close>

lemma no_handler_survives_hops:
  assumes "s \<noteq> []"
  shows "isNoHandlerErrorForSubject ((hop ^^ n) (NoHandlerError s)) s' \<longleftrightarrow> s' = s"
proof (cases n)
  case 0
  then show ?thesis by (auto simp: isNoHandlerErrorForSubject_def NoHandlerError_def)
next
  case (Suc k)
  show ?thesis
    unfolding Suc hop_no_handler [OF assms] by (auto simp: isNoHandlerErrorForSubject_def)
qed

end
