(* ===== verification/Dispatch.thy ===== *)
theory Dispatch
  imports Routing Bus_Errors
begin

text \<open>
  Request dispatch: \<open>core/bus-core/src/methods/request/dispatch.ts\<close>, \<open>readiness-gate.ts\<close>,
  \<open>await-with-timeout-and-signal.ts\<close> and \<open>methods/request.ts\<close>.

  Handlers and transports are code outside the bus. A handler is a program over the operations its
  context offers (\<open>handler_prog\<close>); it awaits each \<open>next()\<close> it calls (a call whose promise is dropped is
  not represented). A transport's answer to a request is a result after some latency, or none at all.
  The environment also gives the bus context at each instant, so routes may appear and transports may
  go while a request is in flight. Asynchronous results are \<open>None\<close> when the promise never settles. The
  world carries the clock and the trace of what was started, which is what the properties speak of.
\<close>

section \<open>World, handlers and transports\<close>

datatype handler_prog =
    HDone
  | HThrow thrown
  | HSetResult js_value handler_prog
  | HExtendResult "(string, js_value) js_map" handler_prog
  | HReplacePayload js_value handler_prog
  | HReadPayload "js_value \<Rightarrow> handler_prog"
  | HReadResult "js_value \<Rightarrow> handler_prog"
  | HNext "thrown option \<Rightarrow> handler_prog"
  | HWait nat handler_prog

datatype dispatch_event =
    EvLocal nat effective_handler js_value millis
  | EvSend nat transport_name request_message millis
  | EvCancel transport_name ident thrown

record world =
  w_now :: millis
  w_trace :: "dispatch_event list"

type_synonym 'a settled = "(thrown + 'a) option"

datatype remote_reply = Reply nat "thrown + js_value" | NoReply

record 'z dispatch_env =
  env_ctx :: "millis \<Rightarrow> 'z bus_context"
  env_handler :: "nat \<Rightarrow> world \<Rightarrow> handler_prog"
  env_send :: "transport_name \<Rightarrow> request_message \<Rightarrow> world \<Rightarrow> remote_reply"
  env_ready :: "nat \<Rightarrow> millis option"

record dispatch_options =
  do_allowedTransports :: "transport_name list option"
  do_priority :: "priority option"
  do_correlationId :: ident
  do_messageId :: ident
  do_timeout :: millis
  do_readinessTimeout :: "millis option"
  do_deadline :: "millis option"
  do_signal :: "abort_signal option"
  do_localOnly :: bool
  do_excludeFirstHopOnlyRemote :: bool

definition DEFAULT_REQUEST_TIMEOUT_MS :: millis where
  "DEFAULT_REQUEST_TIMEOUT_MS = 60000"

definition DEFAULT_READINESS_TIMEOUT_MS :: millis where
  "DEFAULT_READINESS_TIMEOUT_MS = 1500"

definition log_event :: "dispatch_event \<Rightarrow> world \<Rightarrow> world" where
  "log_event e w = w\<lparr>w_trace := w_trace w @ [e]\<rparr>"

definition advance_to :: "millis \<Rightarrow> world \<Rightarrow> world" where
  "advance_to t w = w\<lparr>w_now := t\<rparr>"

section \<open>Waiting\<close>

text \<open>
  The earliest of cancellation, completion and timeout decides; at the same millisecond they are
  considered in this order. A completion is given by its latency.
\<close>

definition earliest :: "(millis \<times> 'a) option \<Rightarrow> (millis \<times> 'a) option \<Rightarrow> (millis \<times> 'a) option" where
  "earliest a b =
     (case a of None \<Rightarrow> b
      | Some (t, _) \<Rightarrow> (case b of None \<Rightarrow> a | Some (t', _) \<Rightarrow> if t \<le> t' then a else b))"

definition awaitWithTimeoutAndSignal ::
  "(nat \<times> (thrown + 'a)) option \<Rightarrow> millis \<Rightarrow> abort_signal option \<Rightarrow> millis
     \<Rightarrow> (millis \<times> (thrown + 'a)) option" where
  "awaitWithTimeoutAndSignal operation timeout signal now =
     (let cancellation = (case signal of None \<Rightarrow> None
            | Some s \<Rightarrow> map_option (\<lambda>t. (max now t, Inl (toAbortError (as_reason s)))) (as_at s));
          completion = map_option (\<lambda>(latency, r). (now + int latency, r)) operation;
          timer = (if timeout = 0 then None else Some (now + timeout, Inl pTimeoutError))
      in earliest cancellation (earliest completion timer))"

definition resolveDispatchDeadline :: "dispatch_options \<Rightarrow> millis \<Rightarrow> millis option" where
  "resolveDispatchDeadline opts now =
     (if do_deadline opts \<noteq> None then do_deadline opts
      else if do_timeout opts > 0 then Some (now + do_timeout opts) else None)"

text \<open>\<open>remainingUntil(deadline) <= 0\<close>, which is false without a deadline.\<close>

definition expired :: "millis option \<Rightarrow> millis \<Rightarrow> bool" where
  "expired deadline now = (case deadline of None \<Rightarrow> False | Some d \<Rightarrow> d - now \<le> 0)"

datatype readiness_budget = Budget millis | BudgetExpired

definition resolveReadinessBudget :: "dispatch_options \<Rightarrow> millis option \<Rightarrow> millis \<Rightarrow> readiness_budget" where
  "resolveReadinessBudget opts deadline now =
     (let budget = (case do_readinessTimeout opts of None \<Rightarrow> DEFAULT_READINESS_TIMEOUT_MS | Some b \<Rightarrow> b)
      in case deadline of
           None \<Rightarrow> Budget budget
         | Some d \<Rightarrow>
             (let remaining = d - now
              in if remaining \<le> 0 then BudgetExpired
                 else Budget (if budget = 0 then remaining else min budget remaining)))"

text \<open>\<open>Promise.allSettled\<close> of the pending handshakes: settled when the last one is.\<close>

fun all_settled :: "(nat \<Rightarrow> millis option) \<Rightarrow> millis \<Rightarrow> (transport_name \<times> nat) list \<Rightarrow> nat option" where
  "all_settled ready now [] = Some 0"
| "all_settled ready now ((name, p) # rest) =
     (case ready p of None \<Rightarrow> None
      | Some t \<Rightarrow> map_option (max (nat (t - now))) (all_settled ready now rest))"

definition awaitTransportReadiness ::
  "(nat \<Rightarrow> millis option) \<Rightarrow> (transport_name \<times> nat) list \<Rightarrow> dispatch_options \<Rightarrow> millis \<Rightarrow> world
     \<Rightarrow> world \<times> unit settled" where
  "awaitTransportReadiness ready pending opts budget w =
     (case awaitWithTimeoutAndSignal (map_option (\<lambda>l. (l, Inr ())) (all_settled ready (w_now w) pending))
             budget (do_signal opts) (w_now w) of
        None \<Rightarrow> (w, None)
      | Some (t, Inr _) \<Rightarrow> (advance_to t w, Some (Inr ()))
      | Some (t, Inl error) \<Rightarrow>
          (if \<not> has_class C_pTimeout error \<or> isRequestCancellation error (do_signal opts) t
           then (advance_to t w, Some (Inl error))
           else (advance_to t w, Some (Inr ()))))"

datatype gate_outcome = GateSkipped | GateRebuilt | GateExpired

definition runReadinessGate ::
  "(nat \<Rightarrow> millis option) \<Rightarrow> (transport_name \<times> nat) list \<Rightarrow> dispatch_options \<Rightarrow> millis option \<Rightarrow> world
     \<Rightarrow> world \<times> gate_outcome settled" where
  "runReadinessGate ready pending opts deadline w =
     (if pending = [] then (w, Some (Inr GateSkipped))
      else (case resolveReadinessBudget opts deadline (w_now w) of
              BudgetExpired \<Rightarrow> (w, Some (Inr GateExpired))
            | Budget budget \<Rightarrow>
                (case awaitTransportReadiness ready pending opts budget w of
                   (w', None) \<Rightarrow> (w', None)
                 | (w', Some (Inl e)) \<Rightarrow> (w', Some (Inl e))
                 | (w', Some (Inr _)) \<Rightarrow>
                     (w', Some (Inr (if expired deadline (w_now w') then GateExpired else GateRebuilt))))))"

section \<open>Running one local handler\<close>

record frame =
  fr_payload :: js_value
  fr_result :: "js_value option"
  fr_next :: "thrown option option"

type_synonym downstream = "js_value \<Rightarrow> world \<Rightarrow> world \<times> js_value option settled"

definition settle_next :: "thrown option \<Rightarrow> js_value option \<Rightarrow> frame \<Rightarrow> frame" where
  "settle_next failure value fr =
     fr\<lparr>fr_next := (case fr_next fr of None \<Rightarrow> Some failure | Some s \<Rightarrow> Some s),
        fr_result := (if value \<noteq> None \<and> fr_result fr = None then value else fr_result fr)\<rparr>"

primrec run_handler ::
  "handler_prog \<Rightarrow> downstream \<Rightarrow> frame \<Rightarrow> world \<Rightarrow> world \<times> frame \<times> unit settled" where
  "run_handler HDone down fr w = (w, fr, Some (Inr ()))"
| "run_handler (HThrow e) down fr w = (w, fr, Some (Inl e))"
| "run_handler (HSetResult v k) down fr w = run_handler k down (fr\<lparr>fr_result := Some v\<rparr>) w"
| "run_handler (HExtendResult ext k) down fr w =
     run_handler k down
       (fr\<lparr>fr_result := Some (JObj (spread_onto
           (case fr_result fr of None \<Rightarrow> [] | Some v \<Rightarrow> value_props v) ext))\<rparr>) w"
| "run_handler (HReplacePayload v k) down fr w = run_handler k down (fr\<lparr>fr_payload := v\<rparr>) w"
| "run_handler (HReadPayload k) down fr w = run_handler (k (fr_payload fr)) down fr w"
| "run_handler (HReadResult k) down fr w =
     run_handler (k (case fr_result fr of None \<Rightarrow> JUndefined | Some v \<Rightarrow> v)) down fr w"
| "run_handler (HNext k) down fr w =
     (case down (fr_payload fr) w of
        (w', None) \<Rightarrow> (w', fr, None)
      | (w', Some (Inl e)) \<Rightarrow> run_handler (k (Some e)) down (settle_next (Some e) None fr) w'
      | (w', Some (Inr value)) \<Rightarrow> run_handler (k None) down (settle_next None value fr) w')"
| "run_handler (HWait n k) down fr w = run_handler k down fr (advance_to (w_now w + int n) w)"

definition classify_local_error :: "subject_definition \<Rightarrow> abort_signal option \<Rightarrow> millis \<Rightarrow> thrown \<Rightarrow> thrown" where
  "classify_local_error d signal now error =
     (if isRequestCancellation error signal now then toAbortError error
      else if has_class C_Request error \<or> has_class C_Timeout error then error
      else RequestError (sd_subject d) (thrown_text error) (if is_error error then Some error else None))"

definition handler_program :: "'z dispatch_env \<Rightarrow> effective_handler \<Rightarrow> js_value \<Rightarrow> world \<Rightarrow> handler_prog" where
  "handler_program env h payload w =
     (case h of
        Plain f \<Rightarrow> env_handler env f w
      | Filtered _ f filt \<Rightarrow> (if \<not> matchesFilter payload filt then HDone else env_handler env f w))"

definition executeLocalEntry ::
  "'z dispatch_env \<Rightarrow> subject_definition \<Rightarrow> dispatch_options \<Rightarrow> nat \<Rightarrow> effective_handler \<Rightarrow> js_value
     \<Rightarrow> downstream \<Rightarrow> world \<Rightarrow> world \<times> js_value option settled" where
  "executeLocalEntry env d opts index h payload down w =
     (let w1 = log_event (EvLocal index h payload (w_now w)) w;
          fail = (\<lambda>w' e. (w', Some (Inl (classify_local_error d (do_signal opts) (w_now w') e))))
      in case run_handler (handler_program env h payload w1) down
                \<lparr>fr_payload = payload, fr_result = None, fr_next = None\<rparr> w1 of
           (w2, fr, None) \<Rightarrow> (w2, None)
         | (w2, fr, Some (Inl e)) \<Rightarrow> fail w2 e
         | (w2, fr, Some (Inr _)) \<Rightarrow>
             (case fr_next fr of
                Some (Some e) \<Rightarrow> fail w2 e
              | Some None \<Rightarrow> (w2, Some (Inr (fr_result fr)))
              | None \<Rightarrow>
                  (if fr_result fr \<noteq> None then (w2, Some (Inr (fr_result fr)))
                   else (case down (fr_payload fr) w2 of
                           (w3, None) \<Rightarrow> (w3, None)
                         | (w3, Some (Inl e)) \<Rightarrow> fail w3 e
                         | (w3, Some (Inr value)) \<Rightarrow> (w3, Some (Inr value))))))"

section \<open>One remote hop\<close>

definition remaining_timeout :: "dispatch_options \<Rightarrow> millis \<Rightarrow> millis" where
  "remaining_timeout opts now =
     (case do_deadline opts of Some d \<Rightarrow> max 0 (d - now) | None \<Rightarrow> do_timeout opts)"

definition request_message_for ::
  "subject_definition \<Rightarrow> dispatch_options \<Rightarrow> merged_entry list \<Rightarrow> nat \<Rightarrow> priority \<Rightarrow> js_value \<Rightarrow> millis
     \<Rightarrow> request_message" where
  "request_message_for d opts merged nextIndex entryPriority payload now =
     \<lparr>rq_subject = sd_subject d, rq_namespace = sd_namespace d, rq_payload = payload,
      rq_correlationId = do_correlationId opts, rq_messageId = do_messageId opts,
      rq_timeout = Some (remaining_timeout opts now), rq_readinessTimeout = do_readinessTimeout opts,
      rq_priority = resolveRemoteCursor merged nextIndex entryPriority (do_priority opts),
      rq_deadline = do_deadline opts\<rparr>"

definition cancel_event :: "transport \<Rightarrow> transport_name \<Rightarrow> ident \<Rightarrow> thrown \<Rightarrow> world \<Rightarrow> world" where
  "cancel_event tr name cid e w = (if tp_cancelRequest tr then log_event (EvCancel name cid e) w else w)"

text \<open>The \<open>catch\<close> of \<open>executeRemoteEntry\<close>; \<open>skip\<close> continues the chain with the transport error to carry.\<close>

definition handle_remote_error ::
  "subject_definition \<Rightarrow> dispatch_options \<Rightarrow> transport \<Rightarrow> transport_name \<Rightarrow> thrown option
     \<Rightarrow> (thrown option \<Rightarrow> world \<Rightarrow> world \<times> js_value option settled) \<Rightarrow> thrown \<Rightarrow> world
     \<Rightarrow> world \<times> js_value option settled" where
  "handle_remote_error d opts tr name firstTransportError skip error w =
     (if isRequestCancellation error (do_signal opts) (w_now w)
      then (cancel_event tr name (do_correlationId opts) (toAbortError error) w,
            Some (Inl (toAbortError error)))
      else if (case do_signal opts of None \<Rightarrow> False | Some s \<Rightarrow> aborted s (w_now w))
      then (w, Some (Inl error))
      else if isNoHandlerErrorForSubject error (getFullSubjectForSubjectDefinition d)
      then skip firstTransportError w
      else skip (case firstTransportError of Some e \<Rightarrow> Some e | None \<Rightarrow> Some error) w)"

definition executeRemoteEntry ::
  "'z dispatch_env \<Rightarrow> subject_definition \<Rightarrow> dispatch_options \<Rightarrow> merged_entry list \<Rightarrow> nat
     \<Rightarrow> transport_name \<Rightarrow> priority \<Rightarrow> js_value \<Rightarrow> thrown option
     \<Rightarrow> (thrown option \<Rightarrow> world \<Rightarrow> world \<times> js_value option settled) \<Rightarrow> world
     \<Rightarrow> world \<times> js_value option settled" where
  "executeRemoteEntry env d opts merged nextIndex name entryPriority payload firstTransportError skip w =
     (if do_deadline opts \<noteq> None \<and> remaining_timeout opts (w_now w) = 0 then skip firstTransportError w
      else (case getTransport (env_ctx env (w_now w)) name of
              None \<Rightarrow> skip firstTransportError w
            | Some tr \<Rightarrow>
                (let m = request_message_for d opts merged nextIndex entryPriority payload (w_now w);
                     failed = handle_remote_error d opts tr name firstTransportError skip
                 in if (case do_signal opts of None \<Rightarrow> False | Some s \<Rightarrow> aborted s (w_now w))
                    then failed (toAbortError (as_reason (the (do_signal opts)))) w
                    else (let w1 = log_event (EvSend (nextIndex - 1) name m (w_now w)) w
                          in case awaitWithTimeoutAndSignal
                                    (case env_send env name m w1 of Reply l r \<Rightarrow> Some (l, r) | NoReply \<Rightarrow> None)
                                    (remaining_timeout opts (w_now w)) (do_signal opts) (w_now w) of
                               None \<Rightarrow> (w1, None)
                             | Some (t, Inr result) \<Rightarrow> (advance_to t w1, Some (Inr (Some result)))
                             | Some (t, Inl error) \<Rightarrow> failed error (advance_to t w1)))))"

section \<open>The chain\<close>

function stepDispatch ::
  "'z dispatch_env \<Rightarrow> subject_definition \<Rightarrow> dispatch_options \<Rightarrow> merged_entry list \<Rightarrow> nat \<Rightarrow> js_value
     \<Rightarrow> thrown option \<Rightarrow> world \<Rightarrow> world \<times> js_value option settled" where
  "stepDispatch env d opts merged index payload firstTransportError w =
     (if length merged \<le> index
      then (w, Some (case firstTransportError of Some e \<Rightarrow> Inl e | None \<Rightarrow> Inr None))
      else if expired (do_deadline opts) (w_now w)
      then (w, Some (Inl (TimeoutError (sd_subject d) (do_timeout opts))))
      else (case merged ! index of
              LocalEntry h p \<Rightarrow>
                executeLocalEntry env d opts index h payload
                  (\<lambda>payload' w'. stepDispatch env d opts merged (index + 1) payload' firstTransportError w') w
            | RemoteEntry name p \<Rightarrow>
                executeRemoteEntry env d opts merged (index + 1) name p payload firstTransportError
                  (\<lambda>carried w'. stepDispatch env d opts merged (index + 1) payload carried w') w))"
  by pat_completeness auto
termination
  by (relation "measure (\<lambda>(env, d, opts, merged, index, payload, fte, w). length merged - index)") auto

declare stepDispatch.simps [simp del]

definition dispatch_list ::
  "'z bus_context \<Rightarrow> subject_definition \<Rightarrow> dispatch_options \<Rightarrow> merged_entry list" where
  "dispatch_list ctx d opts =
     (let fullSubjectKey = getFullSubjectForSubjectDefinition d;
          remoteEligible = (\<not> sd_local d \<and> \<not> do_localOnly opts);
          remoteEntries = (if remoteEligible
            then resolveRemoteEntries ctx
                   (getMatchingRemoteEntries ctx fullSubjectKey (do_excludeFirstHopOnlyRemote opts))
                   (do_allowedTransports opts)
            else [])
      in buildMergedList (getMatchingHandlerEntries ctx fullSubjectKey) remoteEntries)"

definition start_chain ::
  "'z dispatch_env \<Rightarrow> subject_definition \<Rightarrow> js_value \<Rightarrow> dispatch_options \<Rightarrow> world
     \<Rightarrow> world \<times> js_value option settled" where
  "start_chain env d payload opts w =
     (let merged = dispatch_list (env_ctx env (w_now w)) d opts;
          startIndex = resolveStartIndex merged (do_priority opts)
      in if startIndex = - 1 \<or> merged = [] then (w, Some (Inr None))
         else stepDispatch env d opts merged (nat startIndex) payload None w)"

definition dispatch_pending ::
  "'z bus_context \<Rightarrow> subject_definition \<Rightarrow> dispatch_options \<Rightarrow> (transport_name \<times> nat) list" where
  "dispatch_pending ctx d opts =
     (if \<not> sd_local d \<and> \<not> do_localOnly opts
      then getPendingReadyEntries ctx (do_allowedTransports opts) else [])"

definition dispatch ::
  "'z dispatch_env \<Rightarrow> subject_definition \<Rightarrow> js_value \<Rightarrow> dispatch_options \<Rightarrow> world
     \<Rightarrow> world \<times> js_value option settled" where
  "dispatch env d payload opts0 w =
     (let deadline = resolveDispatchDeadline opts0 (w_now w);
          opts = opts0\<lparr>do_deadline := deadline\<rparr>;
          timedOut = Some (Inl (TimeoutError (sd_subject d) (do_timeout opts)))
      in if expired deadline (w_now w) then (w, timedOut)
         else (let pending = dispatch_pending (env_ctx env (w_now w)) d opts
               in if pending = [] then start_chain env d payload opts w
                  else (case runReadinessGate (env_ready env) pending opts deadline w of
                          (w', None) \<Rightarrow> (w', None)
                        | (w', Some (Inl e)) \<Rightarrow> (w', Some (Inl e))
                        | (w', Some (Inr GateExpired)) \<Rightarrow> (w', timedOut)
                        | (w', Some (Inr _)) \<Rightarrow> start_chain env d payload opts w')))"

end
