(* ===== verification/Dispatch_Laws.thy ===== *)
theory Dispatch_Laws
  imports Dispatch
begin

text \<open>
  Properties of the dispatch chain: what it may start and when, that every entry is started at most
  once and in list order, that a dispatch with a deadline settles, and which errors leave it.
\<close>

section \<open>What a run adds to the trace\<close>

definition extends :: "(dispatch_event \<Rightarrow> bool) \<Rightarrow> world \<Rightarrow> world \<Rightarrow> bool" where
  "extends P w w' \<longleftrightarrow> (\<exists>new. w_trace w' = w_trace w @ new \<and> (\<forall>e \<in> set new. P e))"

lemma extends_refl [simp, intro]: "extends P w w"
  by (simp add: extends_def)

lemma extends_trans [trans]: "extends P u v \<Longrightarrow> extends P v w \<Longrightarrow> extends P u w"
  unfolding extends_def by (metis Un_iff append_assoc set_append)

lemma extends_advance [simp]: "extends P w (advance_to t w') \<longleftrightarrow> extends P w w'"
  "extends P (advance_to t w) w' \<longleftrightarrow> extends P w w'"
  by (simp_all add: extends_def advance_to_def)

lemma extends_log: "P e \<Longrightarrow> extends P w w' \<Longrightarrow> extends P w (log_event e w')"
  by (auto simp: extends_def log_event_def)

lemma extends_log_left: "P e \<Longrightarrow> extends P (log_event e w) w' \<Longrightarrow> extends P w w'"
  by (auto simp: extends_def log_event_def)

lemma run_handler_extends:
  assumes "\<And>payload w. extends P w (fst (down payload w))"
  shows "extends P w (fst (run_handler prog down fr w))"
proof (induction prog arbitrary: fr w)
  case (HNext k)
  have step: "extends P w (fst (down (fr_payload fr) w))" by (rule assms)
  obtain w' r where d: "down (fr_payload fr) w = (w', r)" by fastforce
  show ?case
  proof (cases r)
    case None
    with step d show ?thesis by simp
  next
    case (Some x)
    have "extends P w' (fst (run_handler (k y) down fr' w'))" for y fr' by (rule HNext) simp
    with step d Some show ?thesis by (cases x) (auto intro: extends_trans)
  qed
next
  case (HWait n prog)
  have "extends P (advance_to (w_now w + int n) w)
      (fst (run_handler prog down fr (advance_to (w_now w + int n) w)))" by (rule HWait)
  then show ?case by simp
qed auto

lemma executeLocalEntry_extends:
  assumes "\<And>payload w. extends P w (fst (down payload w))" and "P (EvLocal index h payload (w_now w))"
  shows "extends P w (fst (executeLocalEntry env d opts index h payload down w))"
proof -
  let ?w1 = "log_event (EvLocal index h payload (w_now w)) w"
  let ?run = "run_handler (handler_program env h payload ?w1) down
      \<lparr>fr_payload = payload, fr_result = None, fr_next = None\<rparr> ?w1"
  obtain w2 fr r where run: "?run = (w2, fr, r)" by (cases ?run) auto
  have "extends P ?w1 (fst ?run)" by (rule run_handler_extends [OF assms(1)])
  then have 2: "extends P w w2" using assms(2) run by (simp add: extends_log_left)
  have 3: "extends P w (fst (down pl w2))" for pl by (rule extends_trans [OF 2 assms(1)])
  obtain w3 x where d3: "down (fr_payload fr) w2 = (w3, x)" by fastforce
  from 3 [of "fr_payload fr"] d3 have 4: "extends P w w3" by simp
  show ?thesis
    using 2 4 by (simp add: executeLocalEntry_def Let_def run d3 split: option.splits sum.splits)
qed

lemma handle_remote_error_extends:
  assumes "\<And>c w. extends P w (fst (skip c w))" and "\<And>cid e. P (EvCancel name cid e)"
  shows "extends P w (fst (handle_remote_error d opts tr name fte skip e w))"
  using assms by (auto simp: handle_remote_error_def cancel_event_def intro: extends_log)

lemma executeRemoteEntry_extends:
  assumes skip: "\<And>c w. extends P w (fst (skip c w))" and cancel: "\<And>cid e. P (EvCancel name cid e)"
    and send: "P (EvSend (nextIndex - 1) name (request_message_for d opts merged nextIndex p payload (w_now w)) (w_now w))"
  shows "extends P w (fst (executeRemoteEntry env d opts merged nextIndex name p payload fte skip w))"
proof -
  let ?m = "request_message_for d opts merged nextIndex p payload (w_now w)"
  let ?w1 = "log_event (EvSend (nextIndex - 1) name ?m (w_now w)) w"
  have 1: "extends P w ?w1" using send by (simp add: extends_log)
  have failed: "extends P w (fst (handle_remote_error d opts tr name fte skip e w'))"
    if "extends P w w'" for tr e w'
    by (rule extends_trans [OF that handle_remote_error_extends [OF skip cancel]])
  show ?thesis
    using 1 skip failed [OF extends_refl] failed [of "advance_to t ?w1" for t]
    by (auto simp: executeRemoteEntry_def Let_def split: option.splits sum.splits prod.splits)
qed

theorem stepDispatch_extends:
  assumes "\<And>i h p pl t. index \<le> i \<Longrightarrow> i < length merged \<Longrightarrow> merged ! i = LocalEntry h p
             \<Longrightarrow> \<not> expired (do_deadline opts) t \<Longrightarrow> P (EvLocal i h pl t)"
    and "\<And>i name p pl t. index \<le> i \<Longrightarrow> i < length merged \<Longrightarrow> merged ! i = RemoteEntry name p
             \<Longrightarrow> \<not> expired (do_deadline opts) t
             \<Longrightarrow> P (EvSend i name (request_message_for d opts merged (Suc i) p pl t) t)"
    and "\<And>i name p cid e. i < length merged \<Longrightarrow> merged ! i = RemoteEntry name p \<Longrightarrow> P (EvCancel name cid e)"
  shows "extends P w (fst (stepDispatch env d opts merged index payload fte w))"
  using assms
proof (induction env d opts merged index payload fte w rule: stepDispatch.induct)
  case (1 env d opts merged index payload fte w)
  show ?case
  proof (cases "length merged \<le> index \<or> expired (do_deadline opts) (w_now w)")
    case True
    then show ?thesis by (subst stepDispatch.simps) auto
  next
    case False
    then have c: "\<not> length merged \<le> index" "\<not> expired (do_deadline opts) (w_now w)" by auto
    show ?thesis
    proof (cases "merged ! index")
      case (LocalEntry h p)
      have down: "extends P w' (fst (stepDispatch env d opts merged (index + 1) pl fte w'))" for pl w'
        by (rule "1.IH"(1) [OF c LocalEntry]) (auto intro: "1.prems")
      show ?thesis
        using c executeLocalEntry_extends [where down = "\<lambda>pl w'. stepDispatch env d opts merged (index + 1) pl fte w'",
            OF down "1.prems"(1) [OF _ _ LocalEntry c(2)]]
        by (subst stepDispatch.simps) (simp add: LocalEntry)
    next
      case (RemoteEntry name p)
      have skip: "extends P w' (fst (stepDispatch env d opts merged (index + 1) payload cr w'))" for cr w'
        by (rule "1.IH"(2) [OF c RemoteEntry]) (auto intro: "1.prems")
      have send: "P (EvSend (index + 1 - 1) name
          (request_message_for d opts merged (index + 1) p payload (w_now w)) (w_now w))"
        using "1.prems"(2) [OF _ _ RemoteEntry c(2)] c(1) by simp
      show ?thesis
        using c executeRemoteEntry_extends [where skip = "\<lambda>cr w'. stepDispatch env d opts merged (index + 1) payload cr w'",
            OF skip "1.prems"(3) [OF _ RemoteEntry] send]
        by (subst stepDispatch.simps) (simp add: RemoteEntry)
    qed
  qed
qed

section \<open>Entering the chain\<close>

lemma awaitTransportReadiness_trace: "w_trace (fst (awaitTransportReadiness ready pending opts b w)) = w_trace w"
  by (auto simp: awaitTransportReadiness_def advance_to_def split: option.splits sum.splits prod.splits)

lemma runReadinessGate_trace: "w_trace (fst (runReadinessGate ready pending opts dl w)) = w_trace w"
  using awaitTransportReadiness_trace [of ready pending opts _ w]
  by (auto simp: runReadinessGate_def split: readiness_budget.splits option.splits sum.splits prod.splits)
     (metis fst_conv)+

text \<open>A dispatch either stops before the chain, leaving the trace alone, or runs the chain once.\<close>

lemma dispatch_cases:
  fixes w :: world
  defines "opts' \<equiv> \<lambda>opts. opts\<lparr>do_deadline := resolveDispatchDeadline opts (w_now w)\<rparr>"
  obtains (stopped) "w_trace (fst (dispatch env d payload opts w)) = w_trace w"
  | (chain) w1 where "w_trace w1 = w_trace w"
      "dispatch env d payload opts w = start_chain env d payload (opts' opts) w1"
proof -
  define dl where "dl = resolveDispatchDeadline opts (w_now w)"
  let ?o = "opts\<lparr>do_deadline := dl\<rparr>"
  define pending where "pending = dispatch_pending (env_ctx env (w_now w)) d ?o"
  let ?gate = "runReadinessGate (env_ready env) pending ?o dl w"
  obtain w1 g where gate: "?gate = (w1, g)" by fastforce
  have tr: "w_trace w1 = w_trace w"
    using runReadinessGate_trace [of "env_ready env" pending ?o dl w] gate by simp
  have D: "dispatch env d payload opts w =
      (if expired dl (w_now w) then (w, Some (Inl (TimeoutError (sd_subject d) (do_timeout opts))))
       else if pending = [] then start_chain env d payload ?o w
       else (case (w1, g) of
               (w', None) \<Rightarrow> (w', None)
             | (w', Some (Inl e)) \<Rightarrow> (w', Some (Inl e))
             | (w', Some (Inr GateExpired)) \<Rightarrow> (w', Some (Inl (TimeoutError (sd_subject d) (do_timeout opts))))
             | (w', Some (Inr _)) \<Rightarrow> start_chain env d payload ?o w'))"
    by (simp add: dispatch_def Let_def gate flip: dl_def pending_def)
  show thesis
  proof (cases "expired dl (w_now w)")
    case True
    with D stopped show thesis by simp
  next
    case ne: False
    show thesis
    proof (cases "pending = []")
      case True
      with D ne chain [of w] show thesis by (simp add: opts'_def dl_def)
    next
      case False
      show thesis
      proof (cases "\<exists>go. g = Some (Inr go) \<and> go \<noteq> GateExpired")
        case True
        then obtain go where "g = Some (Inr go)" "go \<noteq> GateExpired" by blast
        with D ne False tr chain [of w1] show thesis by (cases go) (auto simp: opts'_def dl_def)
      next
        case no: False
        then have "dispatch env d payload opts w = (w1, snd (dispatch env d payload opts w))"
          using D ne False by (auto split: option.splits sum.splits gate_outcome.splits)
        with tr stopped show thesis by (metis fst_conv)
      qed
    qed
  qed
qed

lemma start_chain_extends:
  assumes "\<And>i h p pl t. i < length (dispatch_list (env_ctx env (w_now w)) d opts)
             \<Longrightarrow> dispatch_list (env_ctx env (w_now w)) d opts ! i = LocalEntry h p
             \<Longrightarrow> \<not> expired (do_deadline opts) t \<Longrightarrow> P (EvLocal i h pl t)"
    and "\<And>i name p m t. i < length (dispatch_list (env_ctx env (w_now w)) d opts)
             \<Longrightarrow> dispatch_list (env_ctx env (w_now w)) d opts ! i = RemoteEntry name p
             \<Longrightarrow> \<not> expired (do_deadline opts) t \<Longrightarrow> P (EvSend i name m t)"
    and "\<And>i name p cid e. i < length (dispatch_list (env_ctx env (w_now w)) d opts)
             \<Longrightarrow> dispatch_list (env_ctx env (w_now w)) d opts ! i = RemoteEntry name p
             \<Longrightarrow> P (EvCancel name cid e)"
  shows "extends P w (fst (start_chain env d payload opts w))"
proof -
  let ?m = "dispatch_list (env_ctx env (w_now w)) d opts"
  have "extends P w (fst (stepDispatch env d opts ?m n payload None w))" for n
    by (rule stepDispatch_extends) (use assms in blast)+
  then show ?thesis by (simp add: start_chain_def Let_def)
qed

lemma resolveRemoteEntries_transport:
  "r \<in> set (resolveRemoteEntries ctx rs allowed) \<Longrightarrow>
     r \<in> set rs \<or> (\<exists>a. allowed = Some a \<and> rt_transport r \<in> set a)"
  by (auto simp: resolveRemoteEntries_def Let_def split: option.splits list.splits if_splits)

lemma dispatch_list_remote:
  assumes "RemoteEntry name p \<in> set (dispatch_list ctx d opts)"
  shows "\<not> sd_local d \<and> \<not> do_localOnly opts
     \<and> \<lparr>rt_transport = name, rt_priority = p\<rparr> \<in> set (resolveRemoteEntries ctx
         (getMatchingRemoteEntries ctx (getFullSubjectForSubjectDefinition d) (do_excludeFirstHopOnlyRemote opts))
         (do_allowedTransports opts))"
proof -
  have inj: "RemoteEntry name p = remote_entry r \<Longrightarrow> r = \<lparr>rt_transport = name, rt_priority = p\<rparr>" for r
    by (cases r) (simp add: remote_entry_def)
  show ?thesis
    using assms inj
    by (auto simp: dispatch_list_def Let_def set_buildMergedList local_entry_def split: if_splits)
qed

text \<open>The position of the merged list an event starts.\<close>

definition index_of :: "dispatch_event \<Rightarrow> nat option" where
  "index_of e = (case e of EvLocal i _ _ _ \<Rightarrow> Some i | EvSend i _ _ _ \<Rightarrow> Some i | EvCancel _ _ _ \<Rightarrow> None)"

lemma index_of_simps [simp]:
  "index_of (EvLocal i h pl t) = Some i" "index_of (EvSend i name m t) = Some i" "index_of (EvCancel name cid e) = None"
  by (simp_all add: index_of_def)

section \<open>A concrete bus\<close>

text \<open>
  A bus with a slow local handler at priority 200 that sets no result, a relayable remote route at
  100 and a local handler at 50 that answers; the remote side has no handler and says so.
\<close>

definition ping_request :: subject_definition where
  "ping_request = \<lparr>sd_subject = ''ping'', sd_namespace = ''ns'', sd_isRequest = True, sd_local = False,
     sd_channel = False, sd_defaultTransports = None\<rparr>"

definition demo_ctx :: "nat bus_context" where
  "demo_ctx = empty_context\<lparr>
     requestHandlers := [(''ns.ping'', [\<lparr>he_handler = Plain 1, he_priority = 200\<rparr>, \<lparr>he_handler = Plain 2, he_priority = 50\<rparr>])],
     registeredTransports := [(''ws'', \<lparr>tp_id = 0, tp_isReady = None, tp_ready = None, tp_canSend = None,
        tp_cancelRequest = True, tp_sendToConnection = False, tp_onBroadcastResults = False\<rparr>)],
     remoteRequestHandlers := [(''ns.*'', [\<lparr>rt_transport = ''ws'', rt_priority = 100\<rparr>])],
     remoteSubscriptionDeliveryClasses := [(''ns.*'', [(''ws'', Relayable)])]\<rparr>"

definition demo_env :: "nat dispatch_env" where
  "demo_env = \<lparr>env_ctx = (\<lambda>_. demo_ctx),
     env_handler = (\<lambda>f w. if f = 1 then HWait 30 HDone else HSetResult (JStr ''ok'') HDone),
     env_send = (\<lambda>_ _ _. Reply 5 (Inl (NoHandlerError ''ns.ping''))),
     env_ready = (\<lambda>_. None)\<rparr>"

definition demo_opts :: dispatch_options where
  "demo_opts = \<lparr>do_allowedTransports = None, do_priority = None, do_correlationId = ''c'', do_messageId = ''m'',
     do_timeout = 100, do_readinessTimeout = None, do_deadline = None, do_signal = None,
     do_localOnly = False, do_excludeFirstHopOnlyRemote = True\<rparr>"

definition at_start :: world where
  "at_start = \<lparr>w_now = 0, w_trace = []\<rparr>"

lemma demo_run:
  "map index_of (w_trace (fst (dispatch demo_env ping_request JNull demo_opts at_start))) = [Some 0, Some 1, Some 2]"
  by code_simp

section \<open>Bounds on what is started\<close>

fun started_before :: "millis \<Rightarrow> dispatch_event \<Rightarrow> bool" where
  "started_before dl (EvLocal _ _ _ t) = (t < dl)"
| "started_before dl (EvSend _ _ _ t) = (t < dl)"
| "started_before dl (EvCancel _ _ _) = True"

fun is_send :: "dispatch_event \<Rightarrow> bool" where
  "is_send (EvSend _ _ _ _) = True"
| "is_send _ = False"

text \<open>
  C2. No side effect after the deadline: every handler a dispatch starts and every request it sends
  is started strictly before the deadline resolved at entry, however slow earlier handlers, remote
  hops or the readiness wait were.
\<close>

theorem nothing_starts_after_deadline:
  assumes "resolveDispatchDeadline opts (w_now w) = Some dl"
  shows "extends (started_before dl) w (fst (dispatch env d payload opts w))"
proof (cases rule: dispatch_cases [where env = env and d = d and payload = payload and opts = opts and w = w])
  case stopped
  then show ?thesis by (simp add: extends_def)
next
  case (chain w1)
  have "extends (started_before dl) w1
      (fst (start_chain env d payload (opts\<lparr>do_deadline := resolveDispatchDeadline opts (w_now w)\<rparr>) w1))"
    by (rule start_chain_extends) (auto simp: assms expired_def)
  then show ?thesis using chain by (simp add: extends_def)
qed

theorem nothing_starts_after_deadline_witness:
  "extends (started_before 100) at_start (fst (dispatch demo_env ping_request JNull demo_opts at_start))
   \<and> length (w_trace (fst (dispatch demo_env ping_request JNull demo_opts at_start))) = 3"
proof -
  have "resolveDispatchDeadline demo_opts (w_now at_start) = Some 100" by code_simp
  from nothing_starts_after_deadline [OF this] show ?thesis
    using arg_cong [OF demo_run, of length] by simp
qed

lemma local_only_dispatch:
  assumes "sd_local d \<or> do_localOnly opts"
  shows "extends (\<lambda>e. \<not> is_send e) w (fst (dispatch env d payload opts w))"
proof (cases rule: dispatch_cases [where env = env and d = d and payload = payload and opts = opts and w = w])
  case stopped
  then show ?thesis by (simp add: extends_def)
next
  case (chain w1)
  let ?o = "opts\<lparr>do_deadline := resolveDispatchDeadline opts (w_now w)\<rparr>"
  have no: "\<not> (i < length (dispatch_list (env_ctx env (w_now w1)) d ?o)
      \<and> dispatch_list (env_ctx env (w_now w1)) d ?o ! i = RemoteEntry name p)" for i name p
    using dispatch_list_remote [of name p "env_ctx env (w_now w1)" d ?o] assms
    by (auto dest!: nth_mem)
  have "extends (\<lambda>e. \<not> is_send e) w1 (fst (start_chain env d payload ?o w1))"
    by (rule start_chain_extends) (use no in auto)
  then show ?thesis using chain by (simp add: extends_def)
qed

text \<open>
  Local-only requests stay local: for a local subject, or when the caller asked for local-only
  dispatch, no message is sent to any transport.
\<close>

lemma local_only_dispatch_sends_nothing:
  assumes "sd_local d \<or> do_localOnly opts"
  shows "extends (\<lambda>e. \<not> is_send e) w (fst (dispatch env d payload opts w))"
  by (rule local_only_dispatch [OF assms])

definition relay_allowed :: "'z bus_context \<Rightarrow> subject_definition \<Rightarrow> dispatch_event \<Rightarrow> bool" where
  "relay_allowed ctx d e =
     (case e of
        EvSend _ name _ _ \<Rightarrow>
          (\<exists>p. matchesSubscription (getFullSubjectForSubjectDefinition d) p
               \<and> learned_class ctx p name = Some Relayable)
      | _ \<Rightarrow> True)"

text \<open>
  No onward relay of first-hop-only subjects: a dispatch for a request that already crossed a
  hop (no explicit transport list) sends only to transports that, at the time the chain was built,
  had explicitly advertised a matching subject as relayable.
\<close>

lemma relayed_dispatch_respects_delivery_class:
  assumes "do_excludeFirstHopOnlyRemote opts" and "do_allowedTransports opts = None"
  shows "\<exists>t. extends (relay_allowed (env_ctx env t) d) w (fst (dispatch env d payload opts w))"
proof (cases rule: dispatch_cases [where env = env and d = d and payload = payload and opts = opts and w = w])
  case stopped
  then show ?thesis by (simp add: extends_def)
next
  case (chain w1)
  let ?o = "opts\<lparr>do_deadline := resolveDispatchDeadline opts (w_now w)\<rparr>"
  let ?ctx = "env_ctx env (w_now w1)" and ?key = "getFullSubjectForSubjectDefinition d"
  have rel: "\<exists>p. matchesSubscription ?key p \<and> learned_class ?ctx p name = Some Relayable"
    if "i < length (dispatch_list ?ctx d ?o)" "dispatch_list ?ctx d ?o ! i = RemoteEntry name q" for i name q
  proof -
    have "RemoteEntry name q \<in> set (dispatch_list ?ctx d ?o)" using that nth_mem by metis
    from dispatch_list_remote [OF this] assms
    have "\<lparr>rt_transport = name, rt_priority = q\<rparr> \<in> set (getMatchingRemoteEntries ?ctx ?key True)"
      by (simp add: resolveRemoteEntries_def)
    then obtain p es where p: "matchesSubscription ?key p" "learned_class ?ctx p name \<noteq> None"
      "name \<notin> set (blocked_transports ?ctx ?key)"
      by (auto simp: set_getMatchingRemoteEntries)
    then obtain c where c: "learned_class ?ctx p name = Some c" by blast
    have "c = Relayable"
      using p c by (auto simp: set_blocked_transports learned_class_def split: option.splits dest!: map_get_mem)
    with p c show ?thesis by blast
  qed
  have "extends (relay_allowed ?ctx d) w1 (fst (start_chain env d payload ?o w1))"
    by (rule start_chain_extends) (auto simp: relay_allowed_def dest: rel)
  then show ?thesis using chain by (auto simp: extends_def)
qed

section \<open>Each entry at most once, in order\<close>

text \<open>Handlers that call \<open>next()\<close> at most once on every path, as the context documents.\<close>

primrec no_next :: "handler_prog \<Rightarrow> bool" where
  "no_next HDone = True"
| "no_next (HThrow e) = True"
| "no_next (HSetResult v k) = no_next k"
| "no_next (HExtendResult v k) = no_next k"
| "no_next (HReplacePayload v k) = no_next k"
| "no_next (HReadPayload k) = (\<forall>v. no_next (k v))"
| "no_next (HReadResult k) = (\<forall>v. no_next (k v))"
| "no_next (HNext k) = False"
| "no_next (HWait n k) = no_next k"

primrec single_next :: "handler_prog \<Rightarrow> bool" where
  "single_next HDone = True"
| "single_next (HThrow e) = True"
| "single_next (HSetResult v k) = single_next k"
| "single_next (HExtendResult v k) = single_next k"
| "single_next (HReplacePayload v k) = single_next k"
| "single_next (HReadPayload k) = (\<forall>v. single_next (k v))"
| "single_next (HReadResult k) = (\<forall>v. single_next (k v))"
| "single_next (HNext k) = (\<forall>x. no_next (k x))"
| "single_next (HWait n k) = single_next k"

lemma run_no_next:
  "no_next prog \<Longrightarrow> w_trace (fst (run_handler prog down fr w)) = w_trace w
     \<and> fr_next (fst (snd (run_handler prog down fr w))) = fr_next fr"
  by (induction prog arbitrary: fr w) (simp_all add: advance_to_def)

text \<open>Such a handler runs the rest of the chain through \<open>next()\<close> at most once.\<close>

definition nexts_once :: "downstream \<Rightarrow> world \<Rightarrow> world \<times> frame \<times> unit settled \<Rightarrow> bool" where
  "nexts_once down w = (\<lambda>(w', fr', r).
     (w_trace w' = w_trace w \<and> fr_next fr' = None)
     \<or> (\<exists>pl wa. w_trace wa = w_trace w \<and> w_trace w' = w_trace (fst (down pl wa))
              \<and> (fr_next fr' \<noteq> None \<or> r = None)))"

lemma nexts_once_next:
  assumes "\<And>x. no_next (k x)"
  shows "nexts_once down w (run_handler (HNext k) down fr w)"
proof -
  obtain w1 x where d: "down (fr_payload fr) w = (w1, x)" by fastforce
  have once: "nexts_once down w (u, fr', r)" if "w_trace u = w_trace w1" "fr_next fr' \<noteq> None \<or> r = None" for u fr' r
    using that d unfolding nexts_once_def by (intro case_prodI disjI2 exI [of _ "fr_payload fr"] exI [of _ w]) simp
  show ?thesis
  proof (cases x)
    case None
    then show ?thesis using d once by simp
  next
    case (Some y)
    obtain z fr1 where run: "run_handler (HNext k) down fr w = run_handler (k z) down fr1 w1" and fr1: "fr_next fr1 \<noteq> None"
      using d Some by (cases y) (auto simp: settle_next_def split: option.splits)
    obtain u fr' r where res: "run_handler (k z) down fr1 w1 = (u, fr', r)" by (metis prod_cases3)
    from run_no_next [OF assms, of z down fr1 w1] fr1 res show ?thesis
      unfolding run by (auto intro: once)
  qed
qed

lemma run_single_next:
  "single_next prog \<Longrightarrow> fr_next fr = None \<Longrightarrow> nexts_once down w (run_handler prog down fr w)"
proof (induction prog arbitrary: fr w)
  case (HNext k)
  then show ?case by (intro nexts_once_next) simp
next
  case (HWait n prog)
  from HWait.IH [of fr "advance_to (w_now w + int n) w"] HWait.prems
  show ?case by (simp add: nexts_once_def advance_to_def)
qed (simp_all add: nexts_once_def)

definition in_order :: "nat \<Rightarrow> dispatch_event list \<Rightarrow> bool" where
  "in_order lo es \<longleftrightarrow> sorted_wrt (<) (lo # map Suc (List.map_filter index_of es))"

definition runs_in_order :: "nat \<Rightarrow> world \<Rightarrow> world \<Rightarrow> bool" where
  "runs_in_order lo w w' \<longleftrightarrow> (\<exists>new. w_trace w' = w_trace w @ new \<and> in_order lo new)"

lemma in_order_Cons:
  "in_order lo (e # es) \<longleftrightarrow>
     (case index_of e of None \<Rightarrow> in_order lo es | Some i \<Rightarrow> lo \<le> i \<and> in_order (Suc i) es \<and> in_order lo es)"
  by (auto simp: in_order_def List.map_filter_simps split: option.splits)

lemma in_order_mono: "in_order lo es \<Longrightarrow> lo' \<le> lo \<Longrightarrow> in_order lo' es"
  by (fastforce simp: in_order_def)

lemma runs_in_order_refl: "w_trace w' = w_trace w \<Longrightarrow> runs_in_order lo w w'"
  by (simp add: runs_in_order_def in_order_def List.map_filter_simps)

lemma runs_in_order_cong:
  "w_trace u' = w_trace u \<Longrightarrow> w_trace v' = w_trace v \<Longrightarrow> runs_in_order lo u v \<Longrightarrow> runs_in_order lo u' v'"
  by (simp add: runs_in_order_def)

lemma runs_in_order_mono: "runs_in_order lo u v \<Longrightarrow> lo' \<le> lo \<Longrightarrow> runs_in_order lo' u v"
  unfolding runs_in_order_def using in_order_mono by blast

lemma runs_in_order_log:
  assumes "runs_in_order (Suc i) (log_event e w) w'" and "index_of e = Some i"
  shows "runs_in_order i w w'"
proof -
  from assms(1) obtain new where new: "w_trace w' = w_trace w @ e # new" "in_order (Suc i) new"
    by (auto simp: runs_in_order_def log_event_def)
  then have "in_order i (e # new)"
    using in_order_mono [OF new(2), of i] by (simp add: in_order_Cons assms(2))
  with new(1) show ?thesis by (auto simp: runs_in_order_def)
qed

lemma in_order_cancel: "in_order lo (es @ [EvCancel name cid e]) = in_order lo es"
  by (simp add: in_order_def List.map_filter_def)

lemma runs_in_order_cancel:
  "runs_in_order lo u v \<Longrightarrow> runs_in_order lo u (cancel_event tr name cid e v)"
  using in_order_cancel [of lo _ name cid e] by (auto simp: cancel_event_def log_event_def runs_in_order_def)

lemma executeLocalEntry_in_order:
  assumes "\<And>pl w. runs_in_order (Suc i) w (fst (down pl w))"
    and "\<And>f w. single_next (env_handler env f w)"
  shows "runs_in_order i w (fst (executeLocalEntry env d opts i h payload down w))"
proof -
  let ?w1 = "log_event (EvLocal i h payload (w_now w)) w"
  let ?prog = "handler_program env h payload ?w1"
  let ?fr = "\<lparr>fr_payload = payload, fr_result = None, fr_next = None\<rparr>"
  obtain w2 fr r where run: "run_handler ?prog down ?fr ?w1 = (w2, fr, r)" by (metis prod_cases3)
  have "single_next ?prog" using assms(2) by (auto simp: handler_program_def split: effective_handler.splits)
  from run_single_next [OF this, of ?fr down ?w1]
  consider (none) "w_trace w2 = w_trace ?w1" "fr_next fr = None"
    | (once) pl wa where "w_trace wa = w_trace ?w1" "w_trace w2 = w_trace (fst (down pl wa))"
        "fr_next fr \<noteq> None \<or> r = None" by (auto simp: run nexts_once_def)
  then have "runs_in_order (Suc i) ?w1 (fst (executeLocalEntry env d opts i h payload down w))"
  proof cases
    case none
    obtain w3 x where d3: "down (fr_payload fr) w2 = (w3, x)" by fastforce
    have 2: "runs_in_order (Suc i) ?w1 w2" by (rule runs_in_order_refl [OF none(1)])
    have 3: "runs_in_order (Suc i) ?w1 w3"
      using runs_in_order_cong [OF _ _ assms(1) [of w2 "fr_payload fr"]] d3 none(1) by simp
    show ?thesis
      using 2 3 none(2) by (simp add: executeLocalEntry_def Let_def run d3 split: option.splits sum.splits)
  next
    case once
    have 2: "runs_in_order (Suc i) ?w1 w2"
      by (rule runs_in_order_cong [OF _ once(2) assms(1)]) (simp add: once(1))
    show ?thesis
      using 2 once(3) by (auto simp: executeLocalEntry_def Let_def run split: option.splits sum.splits)
  qed
  then show ?thesis by (rule runs_in_order_log) simp
qed

lemma executeRemoteEntry_in_order:
  assumes skip: "\<And>c w. runs_in_order (Suc i) w (fst (skip c w))"
  shows "runs_in_order i w (fst (executeRemoteEntry env d opts merged (Suc i) name p payload fte skip w))"
proof -
  let ?m = "request_message_for d opts merged (Suc i) p payload (w_now w)"
  let ?w1 = "log_event (EvSend i name ?m (w_now w)) w"
  have failed: "runs_in_order (Suc i) u (fst (handle_remote_error d opts tr name fte skip e u'))"
    if "w_trace u' = w_trace u" for u u' tr e
  proof -
    have "runs_in_order (Suc i) u u'" by (rule runs_in_order_refl [OF that])
    moreover have "runs_in_order (Suc i) u (fst (skip c u'))" for c
      by (rule runs_in_order_cong [OF _ refl skip]) (simp add: that)
    ultimately show ?thesis by (auto simp: handle_remote_error_def intro: runs_in_order_cancel)
  qed
  have sent: "runs_in_order (Suc i) ?w1 v \<Longrightarrow> runs_in_order i w v" for v
    by (erule runs_in_order_log) simp
  have 0: "runs_in_order i w (fst (skip c w))" for c by (rule runs_in_order_mono [OF skip]) simp
  have 1: "runs_in_order i w (fst (handle_remote_error d opts tr name fte skip e w))" for tr e
    by (rule runs_in_order_mono [OF failed]) simp_all
  have 2: "runs_in_order i w (fst (handle_remote_error d opts tr name fte skip e (advance_to t ?w1)))" for tr e t
    by (rule sent) (rule failed, simp add: advance_to_def)
  have 3: "runs_in_order i w (advance_to t ?w1)" "runs_in_order i w ?w1" for t
    by (rule sent, rule runs_in_order_refl, simp add: advance_to_def)+
  show ?thesis
    using 0 1 2 3 by (auto simp: executeRemoteEntry_def Let_def split: option.splits sum.splits prod.splits)
qed

lemma stepDispatch_in_order:
  assumes "\<And>f w. single_next (env_handler env f w)"
  shows "runs_in_order index w (fst (stepDispatch env d opts merged index payload fte w))"
  using assms
proof (induction env d opts merged index payload fte w rule: stepDispatch.induct)
  case (1 env d opts merged index payload fte w)
  show ?case
  proof (cases "length merged \<le> index \<or> expired (do_deadline opts) (w_now w)")
    case True
    then show ?thesis by (subst stepDispatch.simps) (auto intro: runs_in_order_refl)
  next
    case False
    then have c: "\<not> length merged \<le> index" "\<not> expired (do_deadline opts) (w_now w)" by auto
    show ?thesis
    proof (cases "merged ! index")
      case (LocalEntry h p)
      have "runs_in_order (Suc index) w' (fst (stepDispatch env d opts merged (index + 1) pl fte w'))" for pl w'
        using "1.IH"(1) [OF c LocalEntry "1.prems"] by simp
      from executeLocalEntry_in_order [where down = "\<lambda>pl w'. stepDispatch env d opts merged (index + 1) pl fte w'",
          OF this "1.prems"] c
      show ?thesis by (subst stepDispatch.simps) (simp add: LocalEntry)
    next
      case (RemoteEntry name p)
      have "runs_in_order (Suc index) w' (fst (stepDispatch env d opts merged (index + 1) payload cr w'))" for cr w'
        using "1.IH"(2) [OF c RemoteEntry "1.prems"] by simp
      from executeRemoteEntry_in_order [where skip = "\<lambda>cr w'. stepDispatch env d opts merged (index + 1) payload cr w'",
          OF this] c
      show ?thesis by (subst stepDispatch.simps) (simp add: RemoteEntry)
    qed
  qed
qed

text \<open>
  C1. No entry is started twice: with handlers that call \<open>next()\<close> at most once, the positions of the
  merged list that a dispatch starts, local handlers and remote hops alike, are strictly increasing
  (so priorities never increase along the run, and nothing is retried).
\<close>

theorem dispatch_runs_entries_in_order:
  assumes "\<And>f w. single_next (env_handler env f w)"
  shows "\<exists>new. w_trace (fst (dispatch env d payload opts w)) = w_trace w @ new
     \<and> sorted_wrt (<) (List.map_filter index_of new)"
proof (cases rule: dispatch_cases [where env = env and d = d and payload = payload and opts = opts and w = w])
  case stopped
  then show ?thesis by (intro exI [of _ "[]"]) (simp add: List.map_filter_simps)
next
  case (chain w1)
  let ?o = "opts\<lparr>do_deadline := resolveDispatchDeadline opts (w_now w)\<rparr>"
  have "runs_in_order 0 w1 (fst (stepDispatch env d ?o m n payload None w1))" for m n
    by (rule runs_in_order_mono [OF stepDispatch_in_order [OF assms]]) simp
  then have "runs_in_order 0 w1 (fst (start_chain env d payload ?o w1))"
    by (simp add: start_chain_def Let_def runs_in_order_refl)
  then obtain new where "w_trace (fst (dispatch env d payload opts w)) = w_trace w @ new" "in_order 0 new"
    using chain by (auto simp: runs_in_order_def)
  moreover have "sorted_wrt (<) (List.map_filter index_of new)"
    using \<open>in_order 0 new\<close> by (simp add: in_order_def sorted_wrt_map)
  ultimately show ?thesis by blast
qed

theorem dispatch_runs_entries_in_order_witness:
  "\<exists>new. w_trace (fst (dispatch demo_env ping_request JNull demo_opts at_start)) = w_trace at_start @ new
     \<and> sorted_wrt (<) (List.map_filter index_of new)"
  by (rule dispatch_runs_entries_in_order) (simp add: demo_env_def)

section \<open>Settling\<close>

lemma awaitWithTimeoutAndSignal_settles: "timeout \<noteq> 0 \<Longrightarrow> awaitWithTimeoutAndSignal op timeout sig now \<noteq> None"
  by (auto simp: awaitWithTimeoutAndSignal_def earliest_def Let_def split: option.splits prod.splits)

lemma run_handler_settles:
  assumes "\<And>pl w. snd (down pl w) \<noteq> None"
  shows "snd (snd (run_handler prog down fr w)) \<noteq> None"
proof (induction prog arbitrary: fr w)
  case (HNext k)
  obtain w' r where d: "down (fr_payload fr) w = (w', r)" by fastforce
  obtain x where r: "r = Some x" using assms [of "fr_payload fr" w] d by (cases r) auto
  have "snd (snd (run_handler (k y) down fr' w')) \<noteq> None" for y fr' by (rule HNext) simp
  then show ?case using d r by (cases x) auto
qed simp_all

lemma executeLocalEntry_settles:
  assumes "\<And>pl w. snd (down pl w) \<noteq> None"
  shows "snd (executeLocalEntry env d opts i h payload down w) \<noteq> None"
proof -
  let ?w1 = "log_event (EvLocal i h payload (w_now w)) w"
  let ?fr = "\<lparr>fr_payload = payload, fr_result = None, fr_next = None\<rparr>"
  obtain w2 fr r where run: "run_handler (handler_program env h payload ?w1) down ?fr ?w1 = (w2, fr, r)"
    by (metis prod_cases3)
  have r: "r \<noteq> None"
    using run_handler_settles [of down "handler_program env h payload ?w1" ?fr ?w1, OF assms] run by simp
  obtain w3 x where d3: "down (fr_payload fr) w2 = (w3, x)" by fastforce
  have "x \<noteq> None" using assms [of "fr_payload fr" w2] d3 by simp
  with r show ?thesis by (auto simp: executeLocalEntry_def Let_def run d3 split: option.splits sum.splits)
qed

lemma executeRemoteEntry_settles:
  assumes "\<And>c w. snd (skip c w) \<noteq> None" and "do_deadline opts \<noteq> None"
  shows "snd (executeRemoteEntry env d opts merged n name p payload fte skip w) \<noteq> None"
proof (cases "remaining_timeout opts (w_now w) = 0")
  case True
  with assms show ?thesis by (simp add: executeRemoteEntry_def)
next
  case False
  have failed: "snd (handle_remote_error d opts tr name fte skip e u) \<noteq> None" for tr e u
    using assms(1) by (simp add: handle_remote_error_def)
  let ?m = "request_message_for d opts merged n p payload (w_now w)"
  let ?w1 = "log_event (EvSend (n - 1) name ?m (w_now w)) w"
  define op where "op = (case env_send env name ?m ?w1 of Reply l r \<Rightarrow> Some (l, r) | NoReply \<Rightarrow> None)"
  obtain t r where "awaitWithTimeoutAndSignal op (remaining_timeout opts (w_now w)) (do_signal opts) (w_now w) = Some (t, r)"
    using awaitWithTimeoutAndSignal_settles [OF False, of op "do_signal opts" "w_now w"] by auto
  with False assms failed show ?thesis
    by (cases r) (auto simp: executeRemoteEntry_def Let_def op_def split: option.splits)
qed

lemma stepDispatch_settles:
  "do_deadline opts \<noteq> None \<Longrightarrow> snd (stepDispatch env d opts merged index payload fte w) \<noteq> None"
proof (induction env d opts merged index payload fte w rule: stepDispatch.induct)
  case (1 env d opts merged index payload fte w)
  show ?case
  proof (cases "length merged \<le> index \<or> expired (do_deadline opts) (w_now w)")
    case True
    then show ?thesis by (subst stepDispatch.simps) auto
  next
    case False
    then have c: "\<not> length merged \<le> index" "\<not> expired (do_deadline opts) (w_now w)" by auto
    show ?thesis
    proof (cases "merged ! index")
      case (LocalEntry h p)
      from executeLocalEntry_settles [where down = "\<lambda>pl w'. stepDispatch env d opts merged (index + 1) pl fte w'",
          OF "1.IH"(1) [OF c LocalEntry "1.prems"]] c
      show ?thesis by (subst stepDispatch.simps) (simp add: LocalEntry)
    next
      case (RemoteEntry name p)
      from executeRemoteEntry_settles [where skip = "\<lambda>cr w'. stepDispatch env d opts merged (index + 1) payload cr w'",
          OF "1.IH"(2) [OF c RemoteEntry "1.prems"] "1.prems"] c
      show ?thesis by (subst stepDispatch.simps) (simp add: RemoteEntry)
    qed
  qed
qed

lemma awaitTransportReadiness_settles:
  "budget \<noteq> 0 \<Longrightarrow> snd (awaitTransportReadiness ready pending opts budget w) \<noteq> None"
  using awaitWithTimeoutAndSignal_settles [of budget _ "do_signal opts" "w_now w"]
  by (auto simp: awaitTransportReadiness_def split: option.splits sum.splits prod.splits)

lemma runReadinessGate_settles: "snd (runReadinessGate ready pending opts (Some dl) w) \<noteq> None"
proof (cases "resolveReadinessBudget opts (Some dl) (w_now w)")
  case (Budget b)
  then have "b \<noteq> 0" by (auto simp: resolveReadinessBudget_def Let_def split: if_splits)
  from awaitTransportReadiness_settles [OF this, of ready pending opts w] Budget show ?thesis
    by (auto simp: runReadinessGate_def split: option.splits sum.splits prod.splits)
qed (simp add: runReadinessGate_def)

lemma dispatch_settles:
  assumes "resolveDispatchDeadline opts (w_now w) = Some dl"
  shows "snd (dispatch env d payload opts w) \<noteq> None"
proof -
  let ?o = "opts\<lparr>do_deadline := Some dl\<rparr>"
  have "snd (stepDispatch env d ?o m n payload None w') \<noteq> None" for m n w'
    by (rule stepDispatch_settles) simp
  then have chain: "snd (start_chain env d payload ?o w') \<noteq> None" for w'
    by (simp add: start_chain_def Let_def del: not_None_eq)
  define pending where "pending = dispatch_pending (env_ctx env (w_now w)) d ?o"
  obtain w1 g where g: "runReadinessGate (env_ready env) pending ?o (Some dl) w = (w1, Some g)"
    using runReadinessGate_settles [of "env_ready env" pending ?o dl w] by (cases "runReadinessGate (env_ready env) pending ?o (Some dl) w") auto
  show ?thesis
    using chain by (cases g) (simp_all add: dispatch_def Let_def assms g flip: pending_def split: gate_outcome.splits)
qed

text \<open>
  C3. A dispatch with a deadline settles: whatever transports do (never reply, never become ready),
  the promise is resolved or rejected, because every wait of the chain is bounded by what is left of
  the deadline. (Handlers are programs that end; without a deadline a transport that never replies
  leaves the dispatch pending.)
\<close>

theorem dispatch_with_deadline_settles:
  assumes "resolveDispatchDeadline opts (w_now w) = Some dl"
  shows "snd (dispatch env d payload opts w) \<noteq> None"
  by (rule dispatch_settles [OF assms])

theorem dispatch_with_deadline_settles_witness:
  "snd (dispatch (demo_env\<lparr>env_send := \<lambda>_ _ _. NoReply\<rparr>) ping_request JNull demo_opts at_start) \<noteq> None
   \<and> snd (dispatch (demo_env\<lparr>env_send := \<lambda>_ _ _. NoReply\<rparr>) ping_request JNull (demo_opts\<lparr>do_timeout := 0\<rparr>) at_start) = None"
proof
  have "resolveDispatchDeadline demo_opts (w_now at_start) = Some 100" by code_simp
  then show "snd (dispatch (demo_env\<lparr>env_send := \<lambda>_ _ _. NoReply\<rparr>) ping_request JNull demo_opts at_start) \<noteq> None"
    by (rule dispatch_with_deadline_settles)
qed code_simp


section \<open>The first answer wins\<close>

text \<open>
  The contract of a chain of remote hops: the first reply that is not an error is the answer; replies
  saying that the peer has no handler for this subject are passed over; of the other failures the
  first is remembered, and becomes the outcome when nobody answers.
\<close>

fun first_answer :: "subject \<Rightarrow> thrown option \<Rightarrow> (thrown + js_value) list \<Rightarrow> thrown + js_value option" where
  "first_answer key failure [] = (case failure of Some e \<Rightarrow> Inl e | None \<Rightarrow> Inr None)"
| "first_answer key failure (Inr v # replies) = Inr (Some v)"
| "first_answer key failure (Inl e # replies) =
     first_answer key
       (if isNoHandlerErrorForSubject e key then failure
        else (case failure of Some e' \<Rightarrow> Some e' | None \<Rightarrow> Some e)) replies"

definition asked :: "(thrown + js_value) list \<Rightarrow> nat" where
  "asked replies = min (length replies) (Suc (length (takeWhile isl replies)))"

fun sent_to :: "dispatch_event \<Rightarrow> transport_name option" where
  "sent_to (EvSend _ name _ _) = Some name"
| "sent_to _ = None"

definition enough_time :: "dispatch_options \<Rightarrow> millis \<Rightarrow> bool" where
  "enough_time opts t \<longleftrightarrow> (case do_deadline opts of None \<Rightarrow> do_timeout opts = 0 | Some dl \<Rightarrow> t < dl)"

lemma executeRemoteEntry_reply:
  assumes "do_signal opts = None" and "enough_time opts (w_now w + int l)"
    and "getTransport (env_ctx env (w_now w)) name = Some tr"
    and "\<And>m w. env_send env name m w = Reply l r"
  shows "executeRemoteEntry env d opts merged n name p payload fte skip w =
     (let w' = advance_to (w_now w + int l)
                 (log_event (EvSend (n - 1) name (request_message_for d opts merged n p payload (w_now w)) (w_now w)) w)
      in case r of Inr v \<Rightarrow> (w', Some (Inr (Some v)))
         | Inl e \<Rightarrow> skip (if isNoHandlerErrorForSubject e (getFullSubjectForSubjectDefinition d) then fte
                       else (case fte of Some e' \<Rightarrow> Some e' | None \<Rightarrow> Some e)) w')"
proof -
  have "awaitWithTimeoutAndSignal (Some (l, r)) (remaining_timeout opts (w_now w)) None (w_now w)
      = Some (w_now w + int l, r)"
    using assms(2)
    by (auto simp: awaitWithTimeoutAndSignal_def earliest_def Let_def remaining_timeout_def enough_time_def split: option.splits)
  then show ?thesis
    using assms(2)
    by (simp add: executeRemoteEntry_def Let_def assms(1,3,4) handle_remote_error_def isRequestCancellation_def
          enough_time_def remaining_timeout_def split: option.splits sum.splits)
qed


definition remote_chain :: "merged_entry list \<Rightarrow> transport_name list \<Rightarrow> bool" where
  "remote_chain merged names \<longleftrightarrow> list_all2 (\<lambda>e name. \<exists>p. e = RemoteEntry name p) merged names"

lemma remote_chain_step:
  assumes "do_signal opts = None" and "enough_time opts (w_now w + int (lat name))"
    and "\<And>t. getTransport (env_ctx env t) name \<noteq> None"
    and "\<And>m w. env_send env name m w = Reply (lat name) r"
    and "index < length merged" and "merged ! index = RemoteEntry name p"
  shows "\<exists>w' e. w_now w' = w_now w + int (lat name) \<and> w_trace w' = w_trace w @ [e] \<and> sent_to e = Some name
     \<and> stepDispatch env d opts merged index payload fte w =
        (case r of Inr v \<Rightarrow> (w', Some (Inr (Some v)))
         | Inl e \<Rightarrow> stepDispatch env d opts merged (Suc index) payload
             (if isNoHandlerErrorForSubject e (getFullSubjectForSubjectDefinition d) then fte
              else (case fte of Some e' \<Rightarrow> Some e' | None \<Rightarrow> Some e)) w')"
proof -
  let ?m = "request_message_for d opts merged (index + 1) p payload (w_now w)"
  let ?e = "EvSend index name ?m (w_now w)"
  obtain tr where tr: "getTransport (env_ctx env (w_now w)) name = Some tr" using assms(3) by blast
  have ne: "\<not> expired (do_deadline opts) (w_now w)"
    using assms(2) by (auto simp: expired_def enough_time_def split: option.splits)
  show ?thesis
    by (rule exI [of _ "advance_to (w_now w + int (lat name)) (log_event ?e w)"], rule exI [of _ ?e],
        subst stepDispatch.simps)
      (use assms(5,6) ne in \<open>simp add: executeRemoteEntry_reply [where l = "lat name", OF assms(1,2) tr assms(4)] Let_def
         advance_to_def log_event_def split: sum.splits\<close>)
qed

lemma asked_Cons: "asked (r # rs) = (case r of Inl _ \<Rightarrow> Suc (asked rs) | Inr _ \<Rightarrow> 1)"
  by (auto simp: asked_def split: sum.splits)

lemma drop_eq_Cons_iff_nth: "drop i xs = y # ys \<longleftrightarrow> i < length xs \<and> xs ! i = y \<and> drop (Suc i) xs = ys"
  by (metis Cons_nth_drop_Suc drop_all leI list.distinct(1) list.inject)

text \<open>
  C4. A chain of remote hops asks the transports in list order until one answers, and its outcome is
  the one of the reference \<open>first_answer\<close>; transports after the one that answered are not asked.
  (Replies in time, no cancellation, transports registered.)
\<close>

theorem remote_chain_outcome:
  assumes "remote_chain (drop index merged) names"
    and "do_signal opts = None" and "enough_time opts (w_now w + int (sum_list (map lat names)))"
    and "\<And>t name. name \<in> set names \<Longrightarrow> getTransport (env_ctx env t) name \<noteq> None"
    and "\<And>name m w. name \<in> set names \<Longrightarrow> env_send env name m w = Reply (lat name) (ans name)"
  shows "\<exists>new. w_trace (fst (stepDispatch env d opts merged index payload fte w)) = w_trace w @ new
     \<and> map sent_to new = map Some (take (asked (map ans names)) names)
     \<and> snd (stepDispatch env d opts merged index payload fte w) =
         Some (first_answer (getFullSubjectForSubjectDefinition d) fte (map ans names))"
  using assms
proof (induction names arbitrary: index fte w)
  case Nil
  then have "length merged \<le> index" by (simp add: remote_chain_def)
  then show ?case by (subst (1 2) stepDispatch.simps) (simp add: asked_def split: option.splits)
next
  case (Cons name names)
  then obtain e es p where es: "drop index merged = e # es" "e = RemoteEntry name p" "remote_chain es names"
    by (auto simp: remote_chain_def list_all2_Cons2)
  then have hd: "index < length merged" "merged ! index = RemoteEntry name p"
    and rest: "remote_chain (drop (Suc index) merged) names"
    by (auto simp: drop_eq_Cons_iff_nth)
  have time: "enough_time opts (w_now w + int (lat name))"
    using Cons.prems(3) by (auto simp: enough_time_def split: option.splits)
  have reg: "getTransport (env_ctx env t) name \<noteq> None" for t using Cons.prems(4) by simp
  have send: "env_send env name m w = Reply (lat name) (ans name)" for m w using Cons.prems(5) by simp
  obtain w' ev where step: "w_now w' = w_now w + int (lat name)" "w_trace w' = w_trace w @ [ev]" "sent_to ev = Some name"
    "stepDispatch env d opts merged index payload fte w =
        (case ans name of Inr v \<Rightarrow> (w', Some (Inr (Some v)))
         | Inl e \<Rightarrow> stepDispatch env d opts merged (Suc index) payload
             (if isNoHandlerErrorForSubject e (getFullSubjectForSubjectDefinition d) then fte
              else (case fte of Some e' \<Rightarrow> Some e' | None \<Rightarrow> Some e)) w')"
    using remote_chain_step [where lat = lat and d = d and payload = payload and fte = fte, OF Cons.prems(2) time reg send hd]
    by blast
  show ?case
  proof (cases "ans name")
    case (Inr v)
    then show ?thesis using step by (intro exI [of _ "[ev]"]) (simp add: asked_Cons)
  next
    case (Inl e)
    let ?f = "if isNoHandlerErrorForSubject e (getFullSubjectForSubjectDefinition d) then fte
              else (case fte of Some e' \<Rightarrow> Some e' | None \<Rightarrow> Some e)"
    have "enough_time opts (w_now w' + int (sum_list (map lat names)))"
      using Cons.prems(3) step(1) by (simp add: add.assoc)
    from Cons.IH [OF rest Cons.prems(2) this, of ?f] Cons.prems(4,5)
    obtain new where "w_trace (fst (stepDispatch env d opts merged (Suc index) payload ?f w')) = w_trace w' @ new"
      "map sent_to new = map Some (take (asked (map ans names)) names)"
      "snd (stepDispatch env d opts merged (Suc index) payload ?f w') =
         Some (first_answer (getFullSubjectForSubjectDefinition d) ?f (map ans names))"
      by auto
    then show ?thesis using step Inl by (intro exI [of _ "ev # new"]) (simp add: asked_Cons)
  qed
qed

definition three_hops :: "nat dispatch_env" where
  "three_hops = demo_env\<lparr>env_ctx := \<lambda>_. demo_ctx\<lparr>registeredTransports :=
       map (\<lambda>n. (n, snd (hd (registeredTransports demo_ctx)))) [''a'', ''b'', ''c'']\<rparr>,
     env_send := \<lambda>n _ _. Reply 3 (if n = ''a'' then Inl pTimeoutError else Inr (JStr n))\<rparr>"

theorem remote_chain_outcome_witness:
  "\<exists>new. w_trace (fst (stepDispatch three_hops ping_request (demo_opts\<lparr>do_deadline := Some 100\<rparr>)
           [RemoteEntry ''a'' 9, RemoteEntry ''b'' 5, RemoteEntry ''c'' 1] 0 JNull None at_start)) = w_trace at_start @ new
     \<and> map sent_to new = [Some ''a'', Some ''b'']
     \<and> snd (stepDispatch three_hops ping_request (demo_opts\<lparr>do_deadline := Some 100\<rparr>)
           [RemoteEntry ''a'' 9, RemoteEntry ''b'' 5, RemoteEntry ''c'' 1] 0 JNull None at_start)
       = Some (Inr (Some (JStr ''b'')))"
proof -
  let ?ans = "\<lambda>n. if n = ''a'' then Inl pTimeoutError else Inr (JStr n)"
  let ?names = "[''a'', ''b'', ''c'']"
  have 1: "remote_chain (drop 0 [RemoteEntry ''a'' 9, RemoteEntry ''b'' 5, RemoteEntry ''c'' 1]) ?names"
    by (simp add: remote_chain_def)
  have 2: "do_signal (demo_opts\<lparr>do_deadline := Some 100\<rparr>) = None" by (simp add: demo_opts_def)
  have 3: "enough_time (demo_opts\<lparr>do_deadline := Some 100\<rparr>) (w_now at_start + int (sum_list (map (\<lambda>_. 3) ?names)))"
    by (simp add: enough_time_def at_start_def)
  have 4: "name \<in> set ?names \<Longrightarrow> getTransport (env_ctx three_hops t) name \<noteq> None" for t name
    by (auto simp: three_hops_def getTransport_def map_get_def)
  have 5: "env_send three_hops name m w = Reply 3 (?ans name)" for name m w
    by (simp add: three_hops_def)
  have a: "take (asked (map ?ans ?names)) ?names = [''a'', ''b'']" by (simp add: asked_def)
  have f: "first_answer key None (map ?ans ?names) = Inr (Some (JStr ''b''))" for key by simp
  from remote_chain_outcome [OF 1 2 3 4 5, of ping_request JNull None] show ?thesis
    unfolding a f by simp
qed

end
