(* ===== verification/Observation.thy ===== *)
theory Observation
  imports Bus_Context
begin

text \<open>
  Fire-and-forget observation of bus traffic: the \<open>__onAny\<close> handlers with their correlation cache
  (\<open>core/bus-core/src/utils/invoke-any-handlers.ts\<close>) and the message observers
  (\<open>observability/subject-telemetry-projector.ts\<close>). The module-level cache is a JavaScript \<open>Set\<close>,
  kept in insertion order; observers are identified by numbers, and starting one is a note.
\<close>

datatype message_kind = KEvent | KRequest | KBroadcast

record observed_message =
  om_type :: message_kind
  om_namespace :: string
  om_subject :: string
  om_payload :: js_value
  om_messageId :: ident
  om_correlationId :: "ident option"
  om_localOnly :: bool

text \<open>What the bus does to the outside, in order.\<close>

datatype bus_note =
    AnyInvoked nat message_kind string ident
  | ObserverNotified nat observed_message
  | ViolationReported nat subject js_value string
  | ErrorLogged string
  | InterceptorStarted nat js_value
  | HandlerStarted nat js_value
  | MessageSent transport_name bus_message
  | MessageSentTo transport_name ident bus_message
  | BroadcastResultsDelivered transport_name ident "(string \<times> js_value) list" "bus_transport_error option"

definition DEDUP_CACHE_MAX_SIZE :: nat where
  "DEDUP_CACHE_MAX_SIZE = 1000"

text \<open>The eviction loop deletes the ids it visits, oldest first, until half the maximum is gone.\<close>

definition markSeen :: "ident \<Rightarrow> ident list \<Rightarrow> ident list" where
  "markSeen correlationId seen =
     set_add correlationId
       (if DEDUP_CACHE_MAX_SIZE \<le> length seen then drop (DEDUP_CACHE_MAX_SIZE div 2) seen else seen)"

definition invokeAnyHandlers ::
  "bool \<Rightarrow> 'z bus_context \<Rightarrow> message_kind \<Rightarrow> string \<Rightarrow> ident \<Rightarrow> ident option \<Rightarrow> ident list
     \<Rightarrow> ident list \<times> bus_note list" where
  "invokeAnyHandlers production ctx kind subject messageId correlationId seen =
     (let invoke = map (\<lambda>h. AnyInvoked h kind subject messageId) (anyHandlers ctx)
      in if production \<or> anyHandlers ctx = [] then (seen, [])
         else (case correlationId of
                 None \<Rightarrow> (seen, invoke)
               | Some cid \<Rightarrow> (if cid \<in> set seen then (seen, []) else (markSeen cid seen, invoke))))"

definition notifyMessageObservers :: "'z bus_context \<Rightarrow> observed_message \<Rightarrow> bus_note list" where
  "notifyMessageObservers ctx message = map (\<lambda>obs. ObserverNotified obs message) (messageObservers ctx)"

section \<open>The correlation cache\<close>

definition cache_wf :: "ident list \<Rightarrow> bool" where
  "cache_wf seen \<longleftrightarrow> distinct seen \<and> length seen \<le> DEDUP_CACHE_MAX_SIZE"

lemma markSeen_wf: "cache_wf seen \<Longrightarrow> cache_wf (markSeen cid seen)"
  by (auto simp: cache_wf_def markSeen_def DEDUP_CACHE_MAX_SIZE_def set_add_def)

text \<open>At most \<open>n\<close> ids were added after \<open>cid\<close>.\<close>

definition followed_by :: "ident \<Rightarrow> nat \<Rightarrow> ident list \<Rightarrow> bool" where
  "followed_by cid n seen \<longleftrightarrow> (\<exists>pre post. seen = pre @ cid # post \<and> length post \<le> n)"

lemma markSeen_followed:
  assumes "followed_by cid n seen" and "n < 500" and "cache_wf seen"
  shows "followed_by cid (Suc n) (markSeen other seen)"
proof -
  obtain pre post where s: "seen = pre @ cid # post" "length post \<le> n"
    using assms(1) by (auto simp: followed_by_def)
  have kept: "\<exists>pre. drop (DEDUP_CACHE_MAX_SIZE div 2) seen = pre @ cid # post"
    if "DEDUP_CACHE_MAX_SIZE \<le> length seen"
    using that s assms(2) by (intro exI [of _ "drop 500 pre"]) (simp add: DEDUP_CACHE_MAX_SIZE_def)
  have add: "followed_by cid (Suc n) (set_add other (pre' @ cid # post))" for pre'
    using s(2) by (force simp: followed_by_def set_add_def)
  show ?thesis
    using kept add s(1) by (auto simp: markSeen_def)
qed

lemma invokeAnyHandlers_wf:
  "cache_wf seen \<Longrightarrow> cache_wf (fst (invokeAnyHandlers production ctx k s m c seen))"
  by (auto simp: invokeAnyHandlers_def Let_def markSeen_wf split: option.splits)

lemma invokeAnyHandlers_followed:
  assumes "followed_by cid n seen" and "n < 500" and "cache_wf seen"
  shows "followed_by cid (Suc n) (fst (invokeAnyHandlers production ctx k s m c seen))"
proof -
  have "followed_by cid (Suc n) seen" using assms(1) by (auto simp: followed_by_def intro: le_SucI)
  then show ?thesis
    using markSeen_followed [OF assms] by (simp add: invokeAnyHandlers_def Let_def split: option.splits)
qed

text \<open>One call of \<open>invokeAnyHandlers\<close> per message, in order.\<close>

definition invoke_all ::
  "bool \<Rightarrow> 'z bus_context \<Rightarrow> (message_kind \<times> string \<times> ident \<times> ident option) list \<Rightarrow> ident list \<Rightarrow> ident list" where
  "invoke_all production ctx msgs seen =
     fold (\<lambda>(k, s, m, c) seen. fst (invokeAnyHandlers production ctx k s m c seen)) msgs seen"

lemma invoke_all_followed:
  "followed_by cid n seen \<Longrightarrow> cache_wf seen \<Longrightarrow> n + length msgs \<le> 500
     \<Longrightarrow> followed_by cid (n + length msgs) (invoke_all production ctx msgs seen) \<and> cache_wf (invoke_all production ctx msgs seen)"
proof (induction msgs arbitrary: n seen)
  case (Cons x msgs)
  obtain k s m c where x: "x = (k, s, m, c)" by (metis prod_cases4)
  from Cons.IH [OF invokeAnyHandlers_followed [OF Cons.prems(1) _ Cons.prems(2), of production ctx k s m c]
      invokeAnyHandlers_wf [OF Cons.prems(2)]] Cons.prems(3)
  show ?case by (simp add: invoke_all_def x)
qed (simp add: invoke_all_def)

text \<open>
  \<open>__onAny\<close> observes a request once per correlation id: after it fired for an id, a message with
  the same id does not fire it again as long as at most 500 messages were observed in between; the
  cache never holds more than 1000 ids.
\<close>

lemma onAny_once_per_correlation:
  assumes "cache_wf seen" and "cid \<notin> set seen" and "anyHandlers ctx \<noteq> []" and "length msgs \<le> 500"
    and "invokeAnyHandlers False ctx k s m (Some cid) seen = (seen1, notes)"
  shows "notes \<noteq> []
     \<and> snd (invokeAnyHandlers False ctx k' s' m' (Some cid) (invoke_all False ctx msgs seen1)) = []
     \<and> length (invoke_all False ctx msgs seen1) \<le> DEDUP_CACHE_MAX_SIZE"
proof -
  let ?seen = "invoke_all False ctx msgs (markSeen cid seen)"
  have 1: "seen1 = markSeen cid seen" "notes \<noteq> []"
    using assms(2,3,5) by (auto simp: invokeAnyHandlers_def Let_def)
  have "\<exists>pre. markSeen cid seen = pre @ [cid]"
    using assms(2) by (auto simp: markSeen_def set_add_def dest: in_set_dropD)
  then have "followed_by cid 0 (markSeen cid seen)" by (auto simp: followed_by_def)
  from invoke_all_followed [OF this markSeen_wf [OF assms(1)], of msgs False ctx] assms(4)
  have "followed_by cid (length msgs) ?seen" "cache_wf ?seen" by simp_all
  then have "cid \<in> set ?seen" "length ?seen \<le> DEDUP_CACHE_MAX_SIZE" by (auto simp: followed_by_def cache_wf_def)
  with 1 show ?thesis by (simp add: invokeAnyHandlers_def Let_def)
qed

end
