(* ===== verification/Request.thy ===== *)
theory Request
  imports Dispatch_Laws Observation
begin

text \<open>
  The request operations of a bus: payload validation (\<open>core/bus-core/src/utils/validate-schema.ts\<close>,
  \<open>validate-request-payload.ts\<close>, \<open>validate-event-payload.ts\<close>) and \<open>request\<close> and \<open>requestOptional\<close>
  of \<open>methods/request.ts\<close>. Zod is outside the repository: \<open>safeParse schema value\<close> is a parameter,
  giving the rendered issues, or \<open>None\<close> on success. Identifiers drawn from \<open>nanoid\<close> are arguments.
\<close>

section \<open>Validation\<close>

record 'z validation_env =
  ve_production :: bool
  ve_safeParse :: "'z \<Rightarrow> js_value \<Rightarrow> string option"

definition validateSchema ::
  "'z validation_env \<Rightarrow> subject \<Rightarrow> js_value \<Rightarrow> 'z \<Rightarrow> bus_validation_mode \<Rightarrow> nat option
     \<Rightarrow> bus_note list \<times> (thrown + unit)" where
  "validateSchema ve subject payload schema mode onViolation =
     (if ve_production ve \<or> mode = VM_skip then ([], Inr ())
      else (case ve_safeParse ve schema payload of
              None \<Rightarrow> ([], Inr ())
            | Some issues \<Rightarrow>
                (if mode = VM_lenient
                 then (case onViolation of
                         None \<Rightarrow> ([], Inr ())
                       | Some callback \<Rightarrow> ([ViolationReported callback subject payload issues], Inr ()))
                 else ([ErrorLogged subject], Inl (ValidationError subject issues)))))"

definition validateEventPayload ::
  "'z validation_env \<Rightarrow> 'z bus_context \<Rightarrow> subject \<Rightarrow> js_value \<Rightarrow> bus_note list \<times> (thrown + unit)" where
  "validateEventPayload ve ctx fullSubjectKey payload =
     (let config = getValidationConfig (namespaceRegistry ctx) fullSubjectKey
      in if vc_mode config = VM_skip then ([], Inr ())
         else (case getSchema (namespaceRegistry ctx) fullSubjectKey of
                 Some (EventSchema schema) \<Rightarrow>
                   validateSchema ve fullSubjectKey payload schema (vc_mode config) (vc_onViolation config)
               | _ \<Rightarrow> ([], Inr ())))"

record 'z request_validation =
  rv_requestSchema :: "'z option"
  rv_responseSchema :: "'z option"
  rv_mode :: bus_validation_mode
  rv_onViolation :: "nat option"

definition resolveRequestValidation :: "'z bus_context \<Rightarrow> subject \<Rightarrow> 'z request_validation" where
  "resolveRequestValidation ctx fullSubjectKey =
     (let config = getValidationConfig (namespaceRegistry ctx) fullSubjectKey
      in if vc_mode config = VM_skip
         then \<lparr>rv_requestSchema = None, rv_responseSchema = None, rv_mode = vc_mode config, rv_onViolation = None\<rparr>
         else (case getSchema (namespaceRegistry ctx) fullSubjectKey of
                 Some (RequestSchema q r) \<Rightarrow>
                   \<lparr>rv_requestSchema = Some q, rv_responseSchema = Some r, rv_mode = vc_mode config,
                    rv_onViolation = vc_onViolation config\<rparr>
               | _ \<Rightarrow>
                   \<lparr>rv_requestSchema = None, rv_responseSchema = None, rv_mode = vc_mode config,
                    rv_onViolation = vc_onViolation config\<rparr>))"

definition validateRequestPayload ::
  "'z validation_env \<Rightarrow> subject \<Rightarrow> js_value \<Rightarrow> 'z request_validation \<Rightarrow> bus_note list \<times> (thrown + unit)" where
  "validateRequestPayload ve fullSubjectKey payload rv =
     (case rv_requestSchema rv of
        None \<Rightarrow> ([], Inr ())
      | Some schema \<Rightarrow> validateSchema ve fullSubjectKey payload schema (rv_mode rv) (rv_onViolation rv))"

definition validateResponsePayload ::
  "'z validation_env \<Rightarrow> subject \<Rightarrow> js_value \<Rightarrow> 'z request_validation \<Rightarrow> bus_note list \<times> (thrown + unit)" where
  "validateResponsePayload ve fullSubjectKey payload rv =
     (case rv_responseSchema rv of
        None \<Rightarrow> ([], Inr ())
      | Some schema \<Rightarrow> validateSchema ve fullSubjectKey payload schema (rv_mode rv) (rv_onViolation rv))"

section \<open>Request\<close>

text \<open>A \<open>readinessTimeout\<close> argument may be any number; only finite ones that are not negative pass.\<close>

datatype number_arg = FiniteNum int | NotFinite string

definition resolveReadinessTimeout :: "number_arg option \<Rightarrow> thrown + millis option" where
  "resolveReadinessTimeout readinessTimeout =
     (case readinessTimeout of
        None \<Rightarrow> Inr None
      | Some (FiniteNum n) \<Rightarrow>
          (if n < 0
           then Inl (ErrorObj None C_Range (''readinessTimeout must be a finite number >= 0 (got '' @ show_int n @ '')'') [] None)
           else Inr (Some n))
      | Some (NotFinite n) \<Rightarrow>
          Inl (ErrorObj None C_Range (''readinessTimeout must be a finite number >= 0 (got '' @ n @ '')'') [] None))"

record request_options =
  qo_messageId :: "ident option"
  qo_correlationId :: "ident option"
  qo_timeout :: "millis option"
  qo_readinessTimeout :: "number_arg option"
  qo_signal :: "abort_signal option"
  qo_transports :: transport_spec

record 'z request_env =
  re_dispatch :: "'z dispatch_env"
  re_validation :: "'z validation_env"
  re_messageId :: ident
  re_correlationId :: ident

definition value_or :: "'a option \<Rightarrow> 'a \<Rightarrow> 'a" where
  "value_or x d = (case x of Some v \<Rightarrow> v | None \<Rightarrow> d)"

definition request_dispatch_options ::
  "'z bus_context \<Rightarrow> 'z request_env \<Rightarrow> subject_definition \<Rightarrow> request_options \<Rightarrow> millis option \<Rightarrow> millis
     \<Rightarrow> dispatch_options" where
  "request_dispatch_options ctx re d options readinessTimeout now =
     (let timeout = value_or (qo_timeout options) DEFAULT_REQUEST_TIMEOUT_MS
      in \<lparr>do_allowedTransports = resolveAllowedTransports (qo_transports options), do_priority = None,
          do_correlationId = value_or (qo_correlationId options) (re_correlationId re),
          do_messageId = value_or (qo_messageId options) (re_messageId re),
          do_timeout = timeout, do_readinessTimeout = readinessTimeout,
          do_deadline = (if timeout > 0 then Some (now + timeout) else None),
          do_signal = qo_signal options,
          do_localOnly = resolveLocalOnly ctx d (getFullSubjectForSubjectDefinition d) (qo_transports options),
          do_excludeFirstHopOnlyRemote = False\<rparr>)"

text \<open>The awaited dispatch: it runs on after the caller stopped waiting, so its trace is kept whole.\<close>

definition await_dispatch ::
  "'z request_env \<Rightarrow> subject_definition \<Rightarrow> js_value \<Rightarrow> dispatch_options \<Rightarrow> world \<Rightarrow> world \<times> js_value option settled" where
  "await_dispatch re d payload opts w =
     (let (w', outcome) = dispatch (re_dispatch re) d payload opts w;
          operation = map_option (Pair (nat (w_now w' - w_now w))) outcome
      in case awaitWithTimeoutAndSignal operation (do_timeout opts) (do_signal opts) (w_now w) of
           None \<Rightarrow> (w', None)
         | Some (t, Inr v) \<Rightarrow> (advance_to t w', Some (Inr v))
         | Some (t, Inl e) \<Rightarrow>
             (advance_to t w',
              Some (Inl (if has_class C_pTimeout e \<and> \<not> isRequestCancellation e (do_signal opts) t
                         then TimeoutError (sd_subject d) (do_timeout opts) else e))))"

definition request ::
  "'z request_env \<Rightarrow> subject_definition \<Rightarrow> js_value \<Rightarrow> request_options \<Rightarrow> ident list \<Rightarrow> world
     \<Rightarrow> ident list \<times> bus_note list \<times> world \<times> js_value settled" where
  "request re d payload options seen w =
     (let ctx = env_ctx (re_dispatch re) (w_now w);
          ve = re_validation re;
          key = getFullSubjectForSubjectDefinition d
      in case resolveReadinessTimeout (qo_readinessTimeout options) of
           Inl e \<Rightarrow> (seen, [], w, Some (Inl e))
         | Inr readinessTimeout \<Rightarrow>
             (let rv = resolveRequestValidation ctx key
              in case validateRequestPayload ve key payload rv of
                   (notes1, Inl e) \<Rightarrow> (seen, notes1, w, Some (Inl e))
                 | (notes1, Inr _) \<Rightarrow>
                     (let opts = request_dispatch_options ctx re d options readinessTimeout (w_now w);
                          (seen', notes2) = invokeAnyHandlers (ve_production ve) ctx KRequest (sd_subject d)
                                              (do_messageId opts) (Some (do_correlationId opts)) seen;
                          notes3 = notifyMessageObservers ctx
                            \<lparr>om_type = KRequest, om_namespace = sd_namespace d, om_subject = sd_subject d,
                             om_payload = payload, om_messageId = do_messageId opts,
                             om_correlationId = Some (do_correlationId opts), om_localOnly = do_localOnly opts\<rparr>;
                          notes = notes1 @ notes2 @ notes3
                      in case await_dispatch re d payload opts w of
                           (w', None) \<Rightarrow> (seen', notes, w', None)
                         | (w', Some (Inl e)) \<Rightarrow> (seen', notes, w', Some (Inl e))
                         | (w', Some (Inr None)) \<Rightarrow> (seen', notes, w', Some (Inl (NoHandlerError key)))
                         | (w', Some (Inr (Some result))) \<Rightarrow>
                             (case validateResponsePayload ve key result rv of
                                (notes4, Inl e) \<Rightarrow> (seen', notes @ notes4, w', Some (Inl e))
                              | (notes4, Inr _) \<Rightarrow> (seen', notes @ notes4, w', Some (Inr result))))))"

definition requestOptional ::
  "'z request_env \<Rightarrow> subject_definition \<Rightarrow> js_value \<Rightarrow> request_options \<Rightarrow> ident list \<Rightarrow> world
     \<Rightarrow> ident list \<times> bus_note list \<times> world \<times> js_value option settled" where
  "requestOptional re d payload options seen w =
     (case request re d payload options seen w of
        (seen', notes, w', None) \<Rightarrow> (seen', notes, w', None)
      | (seen', notes, w', Some (Inr data)) \<Rightarrow> (seen', notes, w', Some (Inr (Some data)))
      | (seen', notes, w', Some (Inl e)) \<Rightarrow>
          (seen', notes, w',
           Some (if has_class C_NoHandler e \<and> \<not> isRequestCancellation e (qo_signal options) (w_now w')
                 then Inr None else Inl e)))"

section \<open>A request settles in time\<close>

lemma quad_eta: "x = (fst x, fst (snd x), fst (snd (snd x)), snd (snd (snd x)))"
  by simp

lemma awaitWithTimeoutAndSignal_in_time:
  "timeout > 0 \<Longrightarrow> \<exists>t r. awaitWithTimeoutAndSignal op timeout sig now = Some (t, r) \<and> t \<le> now + timeout"
  by (auto simp: awaitWithTimeoutAndSignal_def earliest_def Let_def split: option.splits prod.splits)

lemma await_dispatch_in_time:
  assumes "do_timeout opts > 0"
  shows "\<exists>w' r. await_dispatch re d payload opts w = (w', Some r) \<and> w_now w' \<le> w_now w + do_timeout opts"
proof -
  obtain w' out where d: "dispatch (re_dispatch re) d payload opts w = (w', out)" by fastforce
  obtain t r where "awaitWithTimeoutAndSignal (map_option (Pair (nat (w_now w' - w_now w))) out) (do_timeout opts)
      (do_signal opts) (w_now w) = Some (t, r)" "t \<le> w_now w + do_timeout opts"
    using awaitWithTimeoutAndSignal_in_time [OF assms] by blast
  then show ?thesis by (cases r) (simp_all add: await_dispatch_def d advance_to_def)
qed

text \<open>
  C7. A request with a timeout settles in time: whatever handlers and transports do, the returned
  promise is resolved or rejected no later than the timeout after the call.
\<close>

theorem request_settles_in_time:
  assumes "value_or (qo_timeout options) DEFAULT_REQUEST_TIMEOUT_MS = timeout" and "timeout > 0"
    and "request re d payload options seen w = (seen', notes, w', r)"
  shows "r \<noteq> None \<and> w_now w' \<le> w_now w + timeout"
proof -
  let ?ctx = "env_ctx (re_dispatch re) (w_now w)"
  let ?opts = "\<lambda>rt. request_dispatch_options ?ctx re d options rt (w_now w)"
  have t: "do_timeout (?opts rt) = timeout" for rt using assms(1) by (simp add: request_dispatch_options_def Let_def)
  have "\<exists>w' r. await_dispatch re d payload (?opts rt) w = (w', Some r) \<and> w_now w' \<le> w_now w + timeout" for rt
    using await_dispatch_in_time [of "?opts rt" re d payload w] assms(2) by (simp add: t)
  then obtain aw ar where a: "\<And>rt. await_dispatch re d payload (?opts rt) w = (aw rt, Some (ar rt))"
      "\<And>rt. w_now (aw rt) \<le> w_now w + timeout" by metis
  show ?thesis
    using assms(2,3) a by (auto simp: request_def Let_def a(1) split: sum.splits prod.splits option.splits)
qed

definition demo_request_env :: "nat request_env" where
  "demo_request_env = \<lparr>re_dispatch = demo_env\<lparr>env_ctx := \<lambda>_. demo_ctx\<lparr>namespaceRegistry := createNamespaceRegistry\<lparr>
        nr_subjectSchemas := [(''ns.ping'', RequestSchema 1 2)]\<rparr>\<rparr>\<rparr>,
     re_validation = \<lparr>ve_production = False,
       ve_safeParse = (\<lambda>z v. if z = 1 \<and> v \<noteq> JNull \<or> z = 2 \<and> v \<noteq> JStr ''ok'' then Some ''bad'' else None)\<rparr>,
     re_messageId = ''m'', re_correlationId = ''c''\<rparr>"

definition demo_request_options :: request_options where
  "demo_request_options = \<lparr>qo_messageId = None, qo_correlationId = None, qo_timeout = Some 40,
     qo_readinessTimeout = None, qo_signal = None, qo_transports = None\<rparr>"

lemma demo_request:
  "request demo_request_env ping_request JNull demo_request_options [] at_start =
     ([], [], \<lparr>w_now = 35, w_trace = w_trace (fst (snd (snd (request demo_request_env ping_request JNull demo_request_options [] at_start))))\<rparr>,
      Some (Inr (JStr ''ok'')))"
  by code_simp

theorem request_settles_in_time_witness:
  "w_now (fst (snd (snd (request demo_request_env ping_request JNull demo_request_options [] at_start)))) \<le> w_now at_start + 40"
  using request_settles_in_time [of demo_request_options 40 demo_request_env ping_request JNull "[]" at_start, OF _ _ quad_eta]
  by (simp add: demo_request_options_def value_or_def)

section \<open>What a strict request exchanges\<close>

text \<open>
  C37. Outside production, for a registered request subject in strict mode: a payload that does not
  conform to the request schema is rejected before anything is observed or dispatched, and a request
  that resolves does so with a response that conforms to the response schema.
\<close>

theorem strict_request_conforms:
  assumes "env_ctx (re_dispatch re) (w_now w) = ctx" and "getFullSubjectForSubjectDefinition d = key"
    and "\<not> ve_production (re_validation re)"
    and "getSchema (namespaceRegistry ctx) key = Some (RequestSchema q a)"
    and "vc_mode (getValidationConfig (namespaceRegistry ctx) key) = VM_strict"
    and "resolveReadinessTimeout (qo_readinessTimeout options) = Inr rt"
    and "request re d payload options seen w = (seen', notes, w', r)"
  shows "(\<forall>issues. ve_safeParse (re_validation re) q payload = Some issues
            \<longrightarrow> (seen', notes, w', r) = (seen, [ErrorLogged key], w, Some (Inl (ValidationError key issues))))
     \<and> (\<forall>v. r = Some (Inr v) \<longrightarrow> ve_safeParse (re_validation re) q payload = None
                               \<and> ve_safeParse (re_validation re) a v = None)"
proof -
  define cfg where "cfg = getValidationConfig (namespaceRegistry ctx) key"
  have mode: "vc_mode cfg = VM_strict" using assms(5) by (simp add: cfg_def)
  have rv: "resolveRequestValidation ctx key = \<lparr>rv_requestSchema = Some q, rv_responseSchema = Some a,
      rv_mode = VM_strict, rv_onViolation = vc_onViolation cfg\<rparr>"
    using mode by (simp add: resolveRequestValidation_def Let_def assms(4) flip: cfg_def)
  show ?thesis
    using assms(7)
    by (auto simp: request_def Let_def assms(1,2,6) rv validateRequestPayload_def validateResponsePayload_def
          validateSchema_def assms(3) split: option.splits prod.splits sum.splits if_splits)
qed

theorem strict_request_conforms_witness:
  "ve_safeParse (re_validation demo_request_env) 1 JNull = None
   \<and> ve_safeParse (re_validation demo_request_env) 2 (JStr ''ok'') = None"
proof -
  let ?ctx = "demo_ctx\<lparr>namespaceRegistry := createNamespaceRegistry\<lparr>nr_subjectSchemas := [(''ns.ping'', RequestSchema 1 2)]\<rparr>\<rparr>"
  have 1: "env_ctx (re_dispatch demo_request_env) (w_now at_start) = ?ctx" by (simp add: demo_request_env_def)
  have 2: "getFullSubjectForSubjectDefinition ping_request = ''ns.ping''" by code_simp
  have 3: "\<not> ve_production (re_validation demo_request_env)" by (simp add: demo_request_env_def)
  have 4: "getSchema (namespaceRegistry ?ctx) ''ns.ping'' = Some (RequestSchema 1 2)" by (simp add: getSchema_def map_get_def)
  have 5: "vc_mode (getValidationConfig (namespaceRegistry ?ctx) ''ns.ping'') = VM_strict"
    by (simp add: getValidationConfig_def createNamespaceRegistry_def strict_config_def)
  have 6: "resolveReadinessTimeout (qo_readinessTimeout demo_request_options) = Inr None"
    by (simp add: demo_request_options_def resolveReadinessTimeout_def)
  show ?thesis using strict_request_conforms [OF 1 2 3 4 5 6 demo_request] by simp
qed

section \<open>Errors that leave a dispatch\<close>

text \<open>
  A class of errors closed under what the chain itself produces contains every error a dispatch
  rejects with, provided it contains the errors transports reply with and the cancellation reasons.
  Of the replies, the ones that say there is no handler for the requested subject are left out when
  the request is not cancellable: the chain skips them.
\<close>

definition chain_errors :: "'z dispatch_env \<Rightarrow> subject \<Rightarrow> abort_signal option \<Rightarrow> (thrown \<Rightarrow> bool) \<Rightarrow> bool" where
  "chain_errors env full sig Q \<longleftrightarrow>
     Q pTimeoutError \<and> (\<forall>e. has_class C_Request e \<or> has_class C_Timeout e \<longrightarrow> Q e)
     \<and> (\<forall>name m w l e. env_send env name m w = Reply l (Inl e)
           \<longrightarrow> Q e \<or> sig = None \<and> isNoHandlerErrorForSubject e full)
     \<and> (\<forall>s. sig = Some s \<longrightarrow> Q (toAbortError (as_reason s)))
     \<and> (\<forall>e t. isRequestCancellation e sig t \<longrightarrow> Q (toAbortError e))"

definition rejects_in :: "(thrown \<Rightarrow> bool) \<Rightarrow> 'a settled \<Rightarrow> bool" where
  "rejects_in Q r \<longleftrightarrow> (\<forall>e. r = Some (Inl e) \<longrightarrow> Q e)"

lemma classify_local_error_in:
  "chain_errors env full (do_signal opts) Q \<Longrightarrow> Q (classify_local_error d (do_signal opts) t e)"
  by (auto simp: chain_errors_def classify_local_error_def RequestError_def)

lemma executeLocalEntry_rejects:
  assumes "chain_errors env full (do_signal opts) Q"
  shows "rejects_in Q (snd (executeLocalEntry env d opts i h payload down w))"
  using classify_local_error_in [OF assms]
  by (auto simp: executeLocalEntry_def Let_def rejects_in_def split: prod.splits option.splits sum.splits)

lemma await_error:
  assumes "awaitWithTimeoutAndSignal op timeout sig now = Some (t, Inl e)"
  shows "e = pTimeoutError \<or> (\<exists>s. sig = Some s \<and> e = toAbortError (as_reason s)) \<or> (\<exists>l. op = Some (l, Inl e))"
  using assms
  by (auto simp: awaitWithTimeoutAndSignal_def earliest_def Let_def split: option.splits prod.splits if_splits)

lemma executeRemoteEntry_rejects:
  assumes Q: "chain_errors env (getFullSubjectForSubjectDefinition d) (do_signal opts) Q" and fte: "\<And>e. fte = Some e \<Longrightarrow> Q e"
    and skip: "\<And>c w. (\<And>e. c = Some e \<Longrightarrow> Q e) \<Longrightarrow> rejects_in Q (snd (skip c w))"
  shows "rejects_in Q (snd (executeRemoteEntry env d opts merged n name p payload fte skip w))"
proof -
  have cancel: "isRequestCancellation e (do_signal opts) t \<Longrightarrow> Q (toAbortError e)" for e t
    using Q unfolding chain_errors_def by blast
  have failed: "Q e \<Longrightarrow> rejects_in Q (snd (handle_remote_error d opts tr name fte skip e u))" for tr e u
    using fte skip [of fte] skip [of "Some e"] cancel
    by (auto simp: handle_remote_error_def rejects_in_def split: option.splits)
  let ?m = "request_message_for d opts merged n p payload (w_now w)"
  let ?w1 = "log_event (EvSend (n - 1) name ?m (w_now w)) w"
  let ?op = "case env_send env name ?m ?w1 of Reply l r \<Rightarrow> Some (l, r) | NoReply \<Rightarrow> None"
  have unhandled: "rejects_in Q (snd (handle_remote_error d opts tr name fte skip e u))"
    if "do_signal opts = None" "isNoHandlerErrorForSubject e (getFullSubjectForSubjectDefinition d)" for tr e u
    using that fte skip [of fte] by (auto simp: handle_remote_error_def isRequestCancellation_def)
  have reply: "Q e \<or> do_signal opts = None \<and> isNoHandlerErrorForSubject e (getFullSubjectForSubjectDefinition d)" if "awaitWithTimeoutAndSignal ?op (remaining_timeout opts (w_now w)) (do_signal opts) (w_now w) = Some (t, Inl e)" for t e
    using await_error [OF that]
  proof (elim disjE exE conjE)
    fix l assume "?op = Some (l, Inl e)"
    then have "env_send env name ?m ?w1 = Reply l (Inl e)" by (simp split: remote_reply.splits)
    then show ?thesis using Q unfolding chain_errors_def by blast
  qed (use Q in \<open>simp_all add: chain_errors_def\<close>)
  have abort: "do_signal opts = Some s \<Longrightarrow> Q (toAbortError (as_reason s))" for s
    using Q by (simp add: chain_errors_def)
  show ?thesis
    using skip [of fte w, OF fte] failed unhandled reply abort
    by (auto simp: executeRemoteEntry_def Let_def rejects_in_def split: option.splits sum.splits prod.splits)
qed

lemma stepDispatch_rejects:
  assumes "chain_errors env (getFullSubjectForSubjectDefinition d) (do_signal opts) Q" and "\<And>e. fte = Some e \<Longrightarrow> Q e"
  shows "rejects_in Q (snd (stepDispatch env d opts merged index payload fte w))"
  using assms
proof (induction env d opts merged index payload fte w rule: stepDispatch.induct)
  case (1 env d opts merged index payload fte w)
  have timeout: "Q (TimeoutError s t)" for s t
    using "1.prems"(1) by (simp add: chain_errors_def TimeoutError_def)
  show ?case
  proof (cases "length merged \<le> index \<or> expired (do_deadline opts) (w_now w)")
    case True
    then show ?thesis
      using "1.prems"(2) timeout by (subst stepDispatch.simps) (auto simp: rejects_in_def split: option.splits)
  next
    case False
    then have c: "\<not> length merged \<le> index" "\<not> expired (do_deadline opts) (w_now w)" by auto
    show ?thesis
    proof (cases "merged ! index")
      case (LocalEntry h p)
      show ?thesis
        using c executeLocalEntry_rejects [OF "1.prems"(1)] by (subst stepDispatch.simps) (simp add: LocalEntry)
    next
      case (RemoteEntry name p)
      from executeRemoteEntry_rejects [where skip = "\<lambda>cr w'. stepDispatch env d opts merged (index + 1) payload cr w'",
          OF "1.prems"(1) "1.prems"(2) "1.IH"(2) [OF c RemoteEntry "1.prems"(1)]] c
      show ?thesis by (subst stepDispatch.simps) (simp add: RemoteEntry)
    qed
  qed
qed

lemma awaitTransportReadiness_error:
  assumes "awaitTransportReadiness ready pending opts b w = (w', Some (Inl e))"
  shows "\<exists>s. do_signal opts = Some s \<and> e = toAbortError (as_reason s)"
proof -
  let ?op = "map_option (\<lambda>l. (l, Inr ())) (all_settled ready (w_now w) pending) :: (nat \<times> (thrown + unit)) option"
  obtain t where t: "awaitWithTimeoutAndSignal ?op b (do_signal opts) (w_now w) = Some (t, Inl e)"
    and nt: "\<not> has_class C_pTimeout e \<or> isRequestCancellation e (do_signal opts) t"
    using assms by (auto simp: awaitTransportReadiness_def split: option.splits prod.splits sum.splits if_splits)
  have "\<not> isRequestCancellation pTimeoutError sig t" for sig t
    by (auto simp: isRequestCancellation_def pTimeoutError_def split: option.splits)
  then show ?thesis using await_error [OF t] nt by (auto simp: pTimeoutError_def)
qed

lemma dispatch_rejects:
  assumes "chain_errors env (getFullSubjectForSubjectDefinition d) (do_signal opts) Q"
  shows "rejects_in Q (snd (dispatch env d payload opts w))"
proof -
  define o' where "o' = opts\<lparr>do_deadline := resolveDispatchDeadline opts (w_now w)\<rparr>"
  have Q: "chain_errors env (getFullSubjectForSubjectDefinition d) (do_signal o') Q" using assms by (simp add: o'_def)
  have "rejects_in Q (snd (stepDispatch env d o' m n payload None w1))" for m n w1
    by (rule stepDispatch_rejects [OF Q]) simp
  then have chain: "rejects_in Q (snd (start_chain env d payload o' w1))" for w1
    by (simp add: start_chain_def Let_def rejects_in_def)
  have timeout: "Q (TimeoutError s t)" for s t
    using assms by (simp add: chain_errors_def TimeoutError_def)
  have gate: "Q e" if "runReadinessGate ready pending o' dl w = (w1, Some (Inl e))" for ready pending dl w1 e
  proof -
    from that obtain b w2 where "awaitTransportReadiness ready pending o' b w = (w2, Some (Inl e))"
      by (auto simp: runReadinessGate_def split: if_splits readiness_budget.splits prod.splits option.splits sum.splits)
    from awaitTransportReadiness_error [OF this] Q show ?thesis by (auto simp: chain_errors_def)
  qed
  show ?thesis
    using chain timeout gate
    by (auto simp: dispatch_def Let_def rejects_in_def simp flip: o'_def
          split: prod.splits option.splits sum.splits gate_outcome.splits)
qed

text \<open>
  C8. \<open>requestOptional\<close> reports \<open>handled: false\<close> only for an exhausted chain: for a request without an
  abort signal, the result \<open>handled: false\<close> means that the dispatch ended with no answer, whatever
  errors the transports reply with, no-handler errors for the requested subject included (instances
  or deserialised). The one exception is stated: a transport rejected with a \<open>NoHandlerError\<close> instance
  that names another subject, and the dispatch rejected with that error. So a local handler that
  throws, even a \<open>NoHandlerError\<close>, a timeout or a validation failure is never reported as missing.
\<close>

theorem requestOptional_unhandled_sound:
  assumes "qo_signal options = None"
    and "requestOptional re d payload options seen w = (seen', notes, w', Some (Inr None))"
  shows "\<exists>rt out. resolveReadinessTimeout (qo_readinessTimeout options) = Inr rt
     \<and> snd (dispatch (re_dispatch re) d payload
             (request_dispatch_options (env_ctx (re_dispatch re) (w_now w)) re d options rt (w_now w)) w) = Some out
     \<and> (out = Inr None
        \<or> (\<exists>e name m u l. out = Inl e \<and> env_send (re_dispatch re) name m u = Reply l (Inl e)
             \<and> has_class C_NoHandler e \<and> \<not> isNoHandlerErrorForSubject e (getFullSubjectForSubjectDefinition d)))"
proof -
  let ?full = "getFullSubjectForSubjectDefinition d"
  define F where "F e \<longleftrightarrow> (\<exists>name m u l. env_send (re_dispatch re) name m u = Reply l (Inl e)
      \<and> has_class C_NoHandler e \<and> \<not> isNoHandlerErrorForSubject e ?full)" for e
  let ?Q = "\<lambda>e. has_class C_NoHandler e \<longrightarrow> F e"
  let ?ctx = "env_ctx (re_dispatch re) (w_now w)"
  let ?o = "\<lambda>rt. request_dispatch_options ?ctx re d options rt (w_now w)"
  have sig: "do_signal (?o rt) = None" for rt using assms(1) by (simp add: request_dispatch_options_def Let_def)
  have "chain_errors (re_dispatch re) ?full None ?Q"
    by (auto simp: chain_errors_def F_def pTimeoutError_def isRequestCancellation_def elim: has_class.elims)
  then have dq: "rejects_in ?Q (snd (dispatch (re_dispatch re) d payload (?o rt) w))" for rt
    using dispatch_rejects [of "re_dispatch re" d "?o rt"] by (simp add: sig)
  have awq: "snd (dispatch (re_dispatch re) d payload (?o rt) w) = Some (Inl e) \<and> F e"
    if "await_dispatch re d payload (?o rt) w = (u, Some (Inl e))" "has_class C_NoHandler e" for rt u e
    using that dq [of rt]
    by (auto simp: await_dispatch_def Let_def sig rejects_in_def TimeoutError_def pTimeoutError_def
          split: prod.splits option.splits sum.splits if_splits dest!: await_error)
  have awn: "snd (dispatch (re_dispatch re) d payload (?o rt) w) = Some (Inr None)"
    if "await_dispatch re d payload (?o rt) w = (u, Some (Inr None))" for rt u
    using that
    by (auto simp: await_dispatch_def Let_def sig awaitWithTimeoutAndSignal_def earliest_def
          split: prod.splits option.splits sum.splits if_splits)
  have val: "\<not> has_class C_NoHandler e" if "validateSchema ve k v z m cb = (ns, Inl e)" for ve :: "'a validation_env" and k v z m cb ns e
    using that by (auto simp: validateSchema_def ValidationError_def split: if_splits option.splits)
  have noh: "resolveReadinessTimeout x = Inl e \<Longrightarrow> \<not> has_class C_NoHandler e" for x e
    by (auto simp: resolveReadinessTimeout_def split: option.splits number_arg.splits if_splits)
  obtain e where "request re d payload options seen w = (seen', notes, w', Some (Inl e))" "has_class C_NoHandler e"
    using assms(2) by (auto simp: requestOptional_def split: prod.splits option.splits sum.splits if_splits)
  then have "\<exists>rt u. resolveReadinessTimeout (qo_readinessTimeout options) = Inr rt
      \<and> (await_dispatch re d payload (?o rt) w = (u, Some (Inr None))
         \<or> (\<exists>e. has_class C_NoHandler e \<and> await_dispatch re d payload (?o rt) w = (u, Some (Inl e))))"
    using val noh
    by (auto simp: request_def Let_def validateRequestPayload_def validateResponsePayload_def
          split: prod.splits option.splits sum.splits if_splits)
  then show ?thesis using awq awn unfolding F_def by blast
qed

definition quiet_request_env :: "nat request_env" where
  "quiet_request_env = demo_request_env\<lparr>re_dispatch := demo_env\<lparr>env_ctx := \<lambda>_. empty_context,
     env_send := \<lambda>_ _ _. NoReply\<rparr>\<rparr>"

lemma quiet_request:
  "requestOptional quiet_request_env ping_request JNull demo_request_options [] at_start = ([], [], at_start, Some (Inr None))"
  by code_simp

theorem requestOptional_unhandled_sound_witness:
  "\<exists>rt. resolveReadinessTimeout (qo_readinessTimeout demo_request_options) = Inr rt
     \<and> snd (dispatch (re_dispatch quiet_request_env) ping_request JNull
             (request_dispatch_options (env_ctx (re_dispatch quiet_request_env) (w_now at_start)) quiet_request_env
               ping_request demo_request_options rt (w_now at_start)) at_start)
         = Some (Inr None)"
  using requestOptional_unhandled_sound [OF _ quiet_request]
  by (auto simp: quiet_request_env_def demo_request_env_def demo_request_options_def)

end
