(* ===== verification/Emit.thy ===== *)
theory Emit
  imports Request
begin

text \<open>
  Events: the interceptor chain (\<open>core/bus-core/src/methods/intercept/execute-interceptors.ts\<close>) and
  \<open>emit\<close> (\<open>methods/emit.ts\<close>). Interceptors are programs over the operations of their context; what an
  event handler or a \<open>send\<close> does is a latency and an outcome given by the environment.
\<close>

section \<open>Interceptors\<close>

datatype interceptor_prog =
    IDone
  | IThrow thrown
  | IStopPropagation interceptor_prog
  | IReplacePayload js_value interceptor_prog
  | IReadPayload "js_value \<Rightarrow> interceptor_prog"
  | IWait nat interceptor_prog

record chain_state =
  ch_payload :: js_value
  ch_stopped :: bool
  ch_now :: millis

primrec run_interceptor :: "interceptor_prog \<Rightarrow> chain_state \<Rightarrow> chain_state \<times> thrown option" where
  "run_interceptor IDone s = (s, None)"
| "run_interceptor (IThrow e) s = (s, Some e)"
| "run_interceptor (IStopPropagation k) s = run_interceptor k (s\<lparr>ch_stopped := True\<rparr>)"
| "run_interceptor (IReplacePayload v k) s = run_interceptor k (s\<lparr>ch_payload := v\<rparr>)"
| "run_interceptor (IReadPayload k) s = run_interceptor (k (ch_payload s)) s"
| "run_interceptor (IWait n k) s = run_interceptor k (s\<lparr>ch_now := ch_now s + int n\<rparr>)"

definition getMatchingInterceptors :: "'z bus_context \<Rightarrow> subject \<Rightarrow> effective_handler list" where
  "getMatchingInterceptors ctx subject =
     (case map_get (interceptorHandlers ctx) subject of
        None \<Rightarrow> [] | Some entries \<Rightarrow> map he_handler entries)"

text \<open>The function behind a handler, if its payload filter lets it run.\<close>

fun admitted :: "effective_handler \<Rightarrow> js_value \<Rightarrow> nat option" where
  "admitted (Plain f) payload = Some f"
| "admitted (Filtered _ f filt) payload = (if matchesFilter payload filt then Some f else None)"

fun executeInterceptorChain ::
  "(nat \<Rightarrow> interceptor_prog) \<Rightarrow> effective_handler list \<Rightarrow> chain_state \<Rightarrow> bus_note list \<times> chain_state \<times> thrown option" where
  "executeInterceptorChain run [] s = ([], s, None)"
| "executeInterceptorChain run (h # hs) s =
     (if ch_stopped s then ([], s, None)
      else (case admitted h (ch_payload s) of
              None \<Rightarrow> executeInterceptorChain run hs s
            | Some f \<Rightarrow>
                (case run_interceptor (run f) s of
                   (s', Some e) \<Rightarrow> ([InterceptorStarted f (ch_payload s)], s', Some e)
                 | (s', None) \<Rightarrow>
                     (case executeInterceptorChain run hs s' of
                        (notes, r) \<Rightarrow> (InterceptorStarted f (ch_payload s) # notes, r)))))"

definition executeInterceptors ::
  "'z bus_context \<Rightarrow> (nat \<Rightarrow> interceptor_prog) \<Rightarrow> subject \<Rightarrow> js_value \<Rightarrow> millis
     \<Rightarrow> bus_note list \<times> chain_state \<times> thrown option" where
  "executeInterceptors ctx run subject initialPayload now =
     executeInterceptorChain run (getMatchingInterceptors ctx subject)
       \<lparr>ch_payload = initialPayload, ch_stopped = False, ch_now = now\<rparr>"

section \<open>Parallel work\<close>

datatype async_result = Resolves nat | Rejects nat thrown | Hangs

text \<open>
  \<open>Promise.all\<close>: rejected by the first promise to reject, otherwise resolved with the last one;
  never settled when nothing rejects and some promise hangs.
\<close>

definition first_rejection :: "async_result list \<Rightarrow> (nat \<times> thrown) option" where
  "first_rejection rs =
     fold (\<lambda>r best. case r of
              Rejects n e \<Rightarrow> (case best of None \<Rightarrow> Some (n, e) | Some (m, _) \<Rightarrow> if n < m then Some (n, e) else best)
            | _ \<Rightarrow> best) rs None"

fun last_completion :: "async_result list \<Rightarrow> nat option" where
  "last_completion [] = Some 0"
| "last_completion (Resolves n # rs) = map_option (max n) (last_completion rs)"
| "last_completion (Rejects n _ # rs) = map_option (max n) (last_completion rs)"
| "last_completion (Hangs # rs) = None"

definition promise_all :: "async_result list \<Rightarrow> async_result" where
  "promise_all rs =
     (case first_rejection rs of
        Some (n, e) \<Rightarrow> Rejects n e
      | None \<Rightarrow> (case last_completion rs of Some n \<Rightarrow> Resolves n | None \<Rightarrow> Hangs))"

text \<open>A rejection handler that logs and returns turns a rejection into a completion.\<close>

fun caught :: "async_result \<Rightarrow> async_result" where
  "caught (Rejects n e) = Resolves n"
| "caught r = r"

section \<open>Emit\<close>

record 'z emit_env =
  ee_ctx :: "millis \<Rightarrow> 'z bus_context"
  ee_validation :: "'z validation_env"
  ee_messageId :: ident
  ee_interceptor :: "nat \<Rightarrow> interceptor_prog"
  ee_handler :: "nat \<Rightarrow> js_value \<Rightarrow> millis \<Rightarrow> async_result"
  ee_send :: "transport_name \<Rightarrow> bus_message \<Rightarrow> millis \<Rightarrow> async_result"

record emit_options =
  eo_messageId :: "ident option"
  eo_correlationId :: "ident option"
  eo_transports :: transport_spec
  eo_connectionId :: "ident option"

definition executeHandlers ::
  "'z emit_env \<Rightarrow> effective_handler list \<Rightarrow> js_value \<Rightarrow> millis \<Rightarrow> bus_note list \<times> async_result" where
  "executeHandlers env handlers payload now =
     (let fs = List.map_filter (\<lambda>h. admitted h payload) handlers
      in (map (\<lambda>f. HandlerStarted f payload) fs, promise_all (map (\<lambda>f. ee_handler env f payload now) fs)))"

text \<open>
  One transport of the target list: a connection-scoped event needs \<open>sendToConnection\<close>; without it
  the send is rejected and nothing leaves.
\<close>

definition send_event ::
  "'z emit_env \<Rightarrow> emit_options \<Rightarrow> bus_message \<Rightarrow> millis \<Rightarrow> transport_name \<times> transport \<Rightarrow> bus_note list \<times> async_result" where
  "send_event env options message now target =
     (case (target, eo_connectionId options) of
        ((name, tr), None) \<Rightarrow> ([MessageSent name message], caught (ee_send env name message now))
      | ((name, tr), Some cid) \<Rightarrow>
          (if tp_sendToConnection tr
           then ([MessageSentTo name cid message], caught (ee_send env name message now))
           else ([], Resolves 0)))"

text \<open>Waiting for a result: the time it settles and what with.\<close>

definition await_result :: "async_result \<Rightarrow> millis \<Rightarrow> (millis \<times> thrown option) option" where
  "await_result r now =
     (case r of Resolves n \<Rightarrow> Some (now + int n, None) | Rejects n e \<Rightarrow> Some (now + int n, Some e) | Hangs \<Rightarrow> None)"

definition send_to_transports ::
  "'z emit_env \<Rightarrow> emit_options \<Rightarrow> subject_definition \<Rightarrow> transport_spec \<Rightarrow> event_message \<Rightarrow> millis
     \<Rightarrow> bus_note list \<times> (millis \<times> thrown option) option" where
  "send_to_transports env options d effective m now =
     (let targets = normalizeTransportTargets (ee_ctx env now) effective d (Some (EventMsg m));
          sends = map (send_event env options (EventMsg m) now) targets
      in (concat (map fst sends), await_result (promise_all (map snd sends)) now))"

definition emit ::
  "'z emit_env \<Rightarrow> subject_definition \<Rightarrow> js_value \<Rightarrow> emit_options \<Rightarrow> ident list \<Rightarrow> millis
     \<Rightarrow> ident list \<times> bus_note list \<times> (millis \<times> thrown option) option" where
  "emit env d payload options seen now =
     (let ctx = ee_ctx env now;
          key = getFullSubjectForSubjectDefinition d;
          messageId = value_or (eo_messageId options) (ee_messageId env);
          effective = resolveEffectiveTransports ctx d key (eo_transports options);
          localOnly = (sd_local d \<or> isCollectorOnlySubject (namespaceRegistry ctx) key
                       \<or> isExplicitLocalOnlyTransportSpec effective)
      in case validateEventPayload (ee_validation env) ctx key payload of
           (notes1, Inl e) \<Rightarrow> (seen, notes1, Some (now, Some e))
         | (notes1, Inr _) \<Rightarrow>
             (case executeInterceptors ctx (ee_interceptor env) key payload now of
                (notes2, s, Some e) \<Rightarrow> (seen, notes1 @ notes2, Some (ch_now s, Some e))
              | (notes2, s, None) \<Rightarrow>
                  (if ch_stopped s then (seen, notes1 @ notes2, Some (ch_now s, None))
                   else (let ctx' = ee_ctx env (ch_now s);
                             final = ch_payload s;
                             (seen', notes3) = invokeAnyHandlers (ve_production (ee_validation env)) ctx' KEvent key
                                                 messageId (eo_correlationId options) seen;
                             notes4 = notifyMessageObservers ctx'
                               \<lparr>om_type = KEvent, om_namespace = sd_namespace d, om_subject = sd_subject d,
                                om_payload = final, om_messageId = messageId,
                                om_correlationId = eo_correlationId options, om_localOnly = localOnly\<rparr>;
                             (notes5, handled) = executeHandlers env (getMatchingEventHandlers ctx' key) final (ch_now s);
                             notes = notes1 @ notes2 @ notes3 @ notes4 @ notes5
                         in case await_result handled (ch_now s) of
                              None \<Rightarrow> (seen', notes, None)
                            | Some (t, Some e) \<Rightarrow> (seen', notes, Some (t, Some e))
                            | Some (t, None) \<Rightarrow>
                                (case send_to_transports env options d effective
                                        \<lparr>ev_subject = sd_subject d, ev_namespace = sd_namespace d, ev_payload = final,
                                         ev_messageId = messageId, ev_correlationId = eo_correlationId options\<rparr> t of
                                   (notes6, r) \<Rightarrow> (seen', notes @ notes6, r))))))"

section \<open>Deliveries of an event\<close>

fun is_sent :: "bus_note \<Rightarrow> bool" where
  "is_sent (MessageSent _ _) = True"
| "is_sent (MessageSentTo _ _ _) = True"
| "is_sent _ = False"

fun is_started :: "bus_note \<Rightarrow> bool" where
  "is_started (HandlerStarted _ _) = True"
| "is_started _ = False"

lemma validate_notes_quiet:
  "validateSchema ve k v z m cb = (ns, r) \<Longrightarrow> filter is_sent ns = [] \<and> filter is_started ns = []"
  by (auto simp: validateSchema_def split: if_splits option.splits)

lemma validateEvent_notes_quiet:
  "validateEventPayload ve ctx k v = (ns, r) \<Longrightarrow> filter is_sent ns = [] \<and> filter is_started ns = []"
  by (auto simp: validateEventPayload_def Let_def split: if_splits option.splits base_schema.splits
        dest: validate_notes_quiet)

lemma interceptor_notes_quiet:
  "executeInterceptorChain run hs s = (ns, r) \<Longrightarrow> filter is_sent ns = [] \<and> filter is_started ns = []"
  by (induction run hs s arbitrary: ns r rule: executeInterceptorChain.induct)
     (auto split: if_splits option.splits prod.splits)

lemma observation_notes_quiet:
  "invokeAnyHandlers p ctx k sb m c seen = (seen', ns) \<Longrightarrow> filter is_sent ns = [] \<and> filter is_started ns = []"
  "filter is_sent (notifyMessageObservers ctx om) = [] \<and> filter is_started (notifyMessageObservers ctx om) = []"
  by (auto simp: invokeAnyHandlers_def notifyMessageObservers_def Let_def filter_empty_conv split: if_splits option.splits)

lemma executeHandlers_notes:
  "fst (executeHandlers env hs v t) = map (\<lambda>f. HandlerStarted f v) (List.map_filter (\<lambda>h. admitted h v) hs)"
  by (simp add: executeHandlers_def Let_def)

lemma filter_started [simp]:
  "filter is_started (map (\<lambda>f. HandlerStarted f v) fs) = map (\<lambda>f. HandlerStarted f v) fs"
  "filter is_sent (map (\<lambda>f. HandlerStarted f v) fs) = []"
  by (simp_all add: filter_map o_def filter_empty_conv)

definition delivery :: "emit_options \<Rightarrow> bus_message \<Rightarrow> transport_name \<times> transport \<Rightarrow> bus_note list" where
  "delivery options m target =
     (case eo_connectionId options of
        None \<Rightarrow> [MessageSent (fst target) m]
      | Some cid \<Rightarrow> if tp_sendToConnection (snd target) then [MessageSentTo (fst target) cid m] else [])"

lemma send_to_transports_notes:
  "fst (send_to_transports env options d eff m t) =
     concat (map (delivery options (EventMsg m)) (normalizeTransportTargets (ee_ctx env t) eff d (Some (EventMsg m))))"
  by (auto simp: send_to_transports_def Let_def send_event_def delivery_def o_def split: option.splits prod.splits intro!: arg_cong [of _ _ concat])

lemma delivery_quiet: "filter is_sent (concat (map (delivery options m) ts)) = concat (map (delivery options m) ts)
   \<and> filter is_started (concat (map (delivery options m) ts)) = []"
  by (induction ts) (auto simp: delivery_def split: option.splits)

text \<open>The stages of \<open>emit\<close> after a valid payload: interceptors, handlers, transports.\<close>

lemma emit_pipeline:
  assumes "emit env d payload options seen now = (seen', ns, r)"
    and "getFullSubjectForSubjectDefinition d = key"
    and "snd (validateEventPayload (ee_validation env) (ee_ctx env now) key payload) = Inr ()"
    and "executeInterceptors (ee_ctx env now) (ee_interceptor env) key payload now = (ins, s, err)"
  shows "(err \<noteq> None \<or> ch_stopped s \<longrightarrow>
            filter is_started ns = [] \<and> filter is_sent ns = [] \<and> r = Some (ch_now s, err))
     \<and> (err = None \<and> \<not> ch_stopped s \<longrightarrow>
          (let handlers = getMatchingEventHandlers (ee_ctx env (ch_now s)) key;
               m = \<lparr>ev_subject = sd_subject d, ev_namespace = sd_namespace d, ev_payload = ch_payload s,
                    ev_messageId = value_or (eo_messageId options) (ee_messageId env),
                    ev_correlationId = eo_correlationId options\<rparr>;
               effective = resolveEffectiveTransports (ee_ctx env now) d key (eo_transports options)
           in filter is_started ns =
                map (\<lambda>f. HandlerStarted f (ch_payload s)) (List.map_filter (\<lambda>h. admitted h (ch_payload s)) handlers)
              \<and> filter is_sent ns =
                (case await_result (snd (executeHandlers env handlers (ch_payload s) (ch_now s))) (ch_now s) of
                   Some (t, None) \<Rightarrow> concat (map (delivery options (EventMsg m))
                       (normalizeTransportTargets (ee_ctx env t) effective d (Some (EventMsg m))))
                 | _ \<Rightarrow> [])))"
proof -
  obtain n1 where v: "validateEventPayload (ee_validation env) (ee_ctx env now) key payload = (n1, Inr ())"
    using assms(3) by (cases "validateEventPayload (ee_validation env) (ee_ctx env now) key payload") auto
  have q1: "filter is_sent n1 = []" "filter is_started n1 = []" using validateEvent_notes_quiet [OF v] by auto
  have q2: "filter is_sent ins = []" "filter is_started ins = []"
    using interceptor_notes_quiet assms(4) unfolding executeInterceptors_def by blast+
  show ?thesis
  proof (cases "err \<noteq> None \<or> ch_stopped s")
    case True
    then show ?thesis
      using assms(1) q1 q2 by (auto simp: emit_def Let_def assms(2,4) v split: option.splits)
  next
    case False
    define m where "m = \<lparr>ev_subject = sd_subject d, ev_namespace = sd_namespace d, ev_payload = ch_payload s,
        ev_messageId = value_or (eo_messageId options) (ee_messageId env), ev_correlationId = eo_correlationId options\<rparr>"
    define hs where "hs = getMatchingEventHandlers (ee_ctx env (ch_now s)) key"
    obtain n5 res where h: "executeHandlers env hs (ch_payload s) (ch_now s) = (n5, res)" by fastforce
    then have n5: "n5 = map (\<lambda>f. HandlerStarted f (ch_payload s)) (List.map_filter (\<lambda>h. admitted h (ch_payload s)) hs)"
      using executeHandlers_notes [of env hs "ch_payload s" "ch_now s"] by simp
    define eff where "eff = resolveEffectiveTransports (ee_ctx env now) d key (eo_transports options)"
    have s6: "n = concat (map (delivery options (EventMsg m))
        (normalizeTransportTargets (ee_ctx env t) eff d (Some (EventMsg m))))"
      if "send_to_transports env options d eff m t = (n, q)" for t n q
      using send_to_transports_notes [of env options d eff m t] that by simp
    obtain seen1 n3 where a: "invokeAnyHandlers (ve_production (ee_validation env)) (ee_ctx env (ch_now s)) KEvent key
        (value_or (eo_messageId options) (ee_messageId env)) (eo_correlationId options) seen = (seen1, n3)" by fastforce
    note q3 = observation_notes_quiet(1) [OF a]
    have "filter is_started ns = n5 \<and> filter is_sent ns = (case await_result res (ch_now s) of
        Some (t, None) \<Rightarrow> concat (map (delivery options (EventMsg m))
                       (normalizeTransportTargets (ee_ctx env t) eff d (Some (EventMsg m)))) | _ \<Rightarrow> [])"
      using False assms(1) q1 q2 q3
      by (auto simp: emit_def Let_def assms(2,4) v h a n5 observation_notes_quiet(2) delivery_quiet
            simp flip: m_def hs_def eff_def split: option.splits prod.splits dest!: s6)
    then show ?thesis using False h n5 unfolding m_def hs_def eff_def Let_def by simp
  qed
qed

text \<open>
  What the stages amount to, without the routines that compute it. The handlers an event is delivered
  to: the callbacks of the entries whose pattern matches and whose filter accepts the payload.
\<close>

definition entry_runs :: "js_value \<Rightarrow> effective_handler handler_entry \<Rightarrow> nat option" where
  "entry_runs payload e = admitted (he_handler e) payload"

definition all_resolve :: "'z emit_env \<Rightarrow> nat list \<Rightarrow> js_value \<Rightarrow> millis \<Rightarrow> bool" where
  "all_resolve env fs payload now \<longleftrightarrow> (\<forall>f \<in> set fs. \<exists>n. ee_handler env f payload now = Resolves n)"

text \<open>
  How often an event is sent to the transport called \<open>name\<close>. With an explicit list it is sent once per
  mention of a registered name; without one, once to every registered transport that accepts it; a
  local subject, a collector-only subject and a local-only choice send nothing. A connection-scoped
  event goes only to transports with \<open>sendToConnection\<close>.
\<close>

definition times_addressed :: "'z bus_context \<Rightarrow> transport_spec \<Rightarrow> subject_definition \<Rightarrow> bus_message \<Rightarrow> transport_name \<Rightarrow> nat" where
  "times_addressed ctx effective d msg name =
     (case map_get (registeredTransports ctx) name of
        None \<Rightarrow> 0
      | Some tr \<Rightarrow>
          if sd_local d \<or> isCollectorOnlySubject (namespaceRegistry ctx) (getFullSubjectForSubjectDefinition d) then 0
          else (case effective of
                  Some names \<Rightarrow> count_list names name
                | None \<Rightarrow> if sd_defaultTransports d \<noteq> Some DT_localOnly \<and> transport_accepts tr (Some msg) then 1 else 0))"

fun sent_as :: "emit_options \<Rightarrow> bus_message \<Rightarrow> transport_name \<Rightarrow> bus_note" where
  "sent_as options msg name =
     (case eo_connectionId options of None \<Rightarrow> MessageSent name msg | Some cid \<Rightarrow> MessageSentTo name cid msg)"

definition reachable_by :: "'z bus_context \<Rightarrow> emit_options \<Rightarrow> transport_name \<Rightarrow> bool" where
  "reachable_by ctx options name \<longleftrightarrow>
     eo_connectionId options = None
     \<or> (\<exists>tr. map_get (registeredTransports ctx) name = Some tr \<and> tp_sendToConnection tr)"

lemma map_filter_registered_names:
  "map fst (List.map_filter (\<lambda>name. map_option (Pair name) (map_get m name)) names) = filter (\<lambda>name. map_get m name \<noteq> None) names"
  by (induction names) (auto simp: List.map_filter_simps split: option.splits)

lemma normalized_target_registered:
  "(name, tr) \<in> set (normalizeTransportTargets ctx eff d msg) \<Longrightarrow> map_get (registeredTransports ctx) name = Some tr"
  by (auto simp: normalizeTransportTargets_def getReadyTransports_def getSortedTransports_def getTransport_def
        List.map_filter_def split: if_splits option.splits)

lemma count_list_distinct: "distinct xs \<Longrightarrow> count_list xs x = (if x \<in> set xs then 1 else 0)"
  by (induction xs) auto

lemma count_list_filter: "count_list (filter P xs) x = (if P x then count_list xs x else 0)"
  by (induction xs) auto

lemma ready_names:
  assumes "map_wf (registeredTransports ctx)"
  shows "distinct (map fst (getReadyTransports ctx None (Some msg)))"
    and "name \<in> fst ` set (getReadyTransports ctx None (Some msg)) \<longleftrightarrow>
           (\<exists>tr. map_get (registeredTransports ctx) name = Some tr \<and> transport_accepts tr (Some msg))"
proof -
  let ?names = "js_sort compareNames (transport_names ctx)"
  let ?ts = "getSortedTransports ctx None"
  have ts: "?ts = List.map_filter (\<lambda>name. map_option (Pair name) (map_get (registeredTransports ctx) name)) ?names"
    by (simp add: getSortedTransports_def getTransport_def)
  have "distinct ?names"
    using assms by (simp add: transport_names_def map_keys_def map_wf_def flip: mset_eq_imp_distinct_iff [OF mset_js_sort])
  then have "distinct (map fst ?ts)" by (simp add: ts map_filter_registered_names)
  then show "distinct (map fst (getReadyTransports ctx None (Some msg)))"
    by (simp add: getReadyTransports_def distinct_map_filter)
  have names: "map_get (registeredTransports ctx) name = Some tr \<Longrightarrow> name \<in> set ?names" for tr
    using mset_eq_setD [OF mset_js_sort, of compareNames "transport_names ctx"]
    by (auto simp: transport_names_def map_keys_def dest!: map_get_mem intro: rev_image_eqI)
  have "(name, tr) \<in> set ?ts \<longleftrightarrow> map_get (registeredTransports ctx) name = Some tr" for tr
    using names by (force simp: ts List.map_filter_def)
  then show "name \<in> fst ` set (getReadyTransports ctx None (Some msg)) \<longleftrightarrow>
       (\<exists>tr. map_get (registeredTransports ctx) name = Some tr \<and> transport_accepts tr (Some msg))"
    by (force simp: getReadyTransports_def)
qed

lemma normalized_target_count:
  assumes "map_wf (registeredTransports ctx)"
  shows "count_list (map fst (normalizeTransportTargets ctx eff d (Some msg))) name = times_addressed ctx eff d msg name"
  using ready_names [OF assms] map_filter_registered_names [of "registeredTransports ctx"]
  by (auto simp: normalizeTransportTargets_def times_addressed_def isExplicitLocalOnlyTransportSpec_def
        getTransport_def count_list_distinct count_list_filter split: option.splits)

lemma delivery_count:
  assumes "\<And>name tr. (name, tr) \<in> set ts \<Longrightarrow> map_get (registeredTransports ctx) name = Some tr"
  shows "count_list (concat (map (delivery options msg) ts)) (sent_as options msg name) =
     (if reachable_by ctx options name then count_list (map fst ts) name else 0)"
  using assms
proof (induction ts)
  case (Cons t ts)
  have "map_get (registeredTransports ctx) (fst t) = Some (snd t)" by (rule Cons.prems) simp
  then have "count_list (delivery options msg t) (sent_as options msg name) =
      (if reachable_by ctx options name \<and> fst t = name then 1 else 0)"
    by (auto simp: delivery_def reachable_by_def split: option.splits)
  moreover have "count_list (concat (map (delivery options msg) ts)) (sent_as options msg name) =
     (if reachable_by ctx options name then count_list (map fst ts) name else 0)"
    by (rule Cons.IH) (use Cons.prems in simp)
  ultimately show ?case by (simp del: sent_as.simps)
qed simp

lemma delivery_only:
  "n \<in> set (concat (map (delivery options msg) ts)) \<Longrightarrow> \<exists>name. n = sent_as options msg name"
  by (auto simp: delivery_def split: option.splits if_splits)

lemma first_rejection_None: "first_rejection rs = None \<longleftrightarrow> (\<forall>n e. Rejects n e \<notin> set rs)"
proof -
  let ?f = "\<lambda>r best. case r of
      Rejects n e \<Rightarrow> (case best of None \<Rightarrow> Some (n, e) | Some (m, _) \<Rightarrow> if n < m then Some (n, e) else best) | _ \<Rightarrow> best"
  have "fold ?f rs b = None \<longleftrightarrow> b = None \<and> (\<forall>n e. Rejects n e \<notin> set rs)" for b :: "(nat \<times> thrown) option"
    by (induction rs arbitrary: b) (auto split: async_result.splits option.splits)
  then show ?thesis by (simp add: first_rejection_def)
qed

lemma last_completion_of_resolved:
  assumes "\<forall>r \<in> set rs. \<exists>n. r = Resolves n"
  shows "\<exists>n. last_completion rs = Some n \<and> (\<forall>k. Resolves k \<in> set rs \<longrightarrow> k \<le> n) \<and> (n = 0 \<or> Resolves n \<in> set rs)"
  using assms
proof (induction rs rule: last_completion.induct)
  case (2 n rs)
  then obtain m where "last_completion rs = Some m" "\<forall>k. Resolves k \<in> set rs \<longrightarrow> k \<le> m" "m = 0 \<or> Resolves m \<in> set rs" by auto
  then show ?case by (intro exI [of _ "max n m"]) (auto simp: max_def)
qed auto

lemma last_completion_hangs: "Hangs \<in> set rs \<Longrightarrow> last_completion rs = None"
  by (induction rs rule: last_completion.induct) auto

lemma promise_all_await:
  "if \<forall>r \<in> set rs. \<exists>n. r = Resolves n
   then \<exists>n. await_result (promise_all rs) now = Some (now + int n, None)
          \<and> (\<forall>k. Resolves k \<in> set rs \<longrightarrow> k \<le> n) \<and> (n = 0 \<or> Resolves n \<in> set rs)
   else \<forall>t. await_result (promise_all rs) now \<noteq> Some (t, None)"
proof (cases "\<forall>r \<in> set rs. \<exists>n. r = Resolves n")
  case True
  then have "first_rejection rs = None" by (auto simp: first_rejection_None)
  then show ?thesis using True last_completion_of_resolved [OF True] by (auto simp: promise_all_def await_result_def)
next
  case False
  then have "first_rejection rs \<noteq> None \<or> Hangs \<in> set rs"
    unfolding first_rejection_None by (metis async_result.exhaust)
  then show ?thesis
    using False by (auto simp: promise_all_def await_result_def last_completion_hangs split: option.splits)
qed

lemma event_handlers_sorted:
  assumes "bus_wf ctx"
  shows "getMatchingEventHandlers ctx key = map he_handler
     (js_sort (by_priority_desc he_priority) (concat (map snd (filter (\<lambda>e. matchesSubscription key (fst e)) (eventHandlers ctx)))))"
proof -
  have "\<forall>arr \<in> set (map snd (filter (\<lambda>e. matchesSubscription key (fst e)) (eventHandlers ctx))). prio_sorted arr"
    using assms by (auto simp: bus_wf_def handler_map_wf_def)
  from mergeSortedHandlerArrays_eq [OF this] show ?thesis
    by (simp add: getMatchingEventHandlers_def matching_entries_def)
qed

lemma map_filter_map: "List.map_filter f (map g xs) = List.map_filter (\<lambda>x. f (g x)) xs"
  by (induction xs) (auto simp: List.map_filter_simps split: option.splits)

text \<open>
  C36. What one \<open>emit\<close> of a valid event does, in a context that keeps the routing invariant. If an
  interceptor stops propagation or throws, no handler is started and nothing is sent. Otherwise the
  callbacks started are those of the registered entries whose pattern matches the subject and whose
  filter accepts the payload, one start per entry, in descending priority with ties in the order of
  the stable sort, each with the payload as the interceptors left it. Unless every one of them
  resolves, nothing is sent. When they all resolve, from the moment \<open>t\<close> at which the last of them has
  resolved the event goes out with that payload: to a transport exactly as often as it is addressed
  in the routing state at \<open>t\<close> (once per mention of a registered name in an explicit transport list;
  without a list once to each registered transport that accepts it), a connection-scoped event only
  to transports that can send to a connection, and nothing else is sent.
\<close>

theorem emit_delivers:
  assumes "emit env d payload options seen now = (seen', ns, r)"
    and "getFullSubjectForSubjectDefinition d = key"
    and "snd (validateEventPayload (ee_validation env) (ee_ctx env now) key payload) = Inr ()"
    and "executeInterceptors (ee_ctx env now) (ee_interceptor env) key payload now = (ins, s, err)"
    and "\<And>u. bus_wf (ee_ctx env u)"
    and "entries = js_sort (by_priority_desc he_priority)
           (concat (map snd (filter (\<lambda>e. matchesSubscription key (fst e)) (eventHandlers (ee_ctx env (ch_now s))))))"
    and "fs = List.map_filter (entry_runs (ch_payload s)) entries"
    and "msg = EventMsg \<lparr>ev_subject = sd_subject d, ev_namespace = sd_namespace d, ev_payload = ch_payload s,
           ev_messageId = value_or (eo_messageId options) (ee_messageId env), ev_correlationId = eo_correlationId options\<rparr>"
  shows "(err \<noteq> None \<or> ch_stopped s \<longrightarrow>
            filter is_started ns = [] \<and> filter is_sent ns = [] \<and> r = Some (ch_now s, err))
     \<and> (err = None \<and> \<not> ch_stopped s \<longrightarrow>
          prio_sorted entries \<and> filter is_started ns = map (\<lambda>f. HandlerStarted f (ch_payload s)) fs)
     \<and> (err = None \<and> \<not> ch_stopped s \<and> \<not> all_resolve env fs (ch_payload s) (ch_now s) \<longrightarrow> filter is_sent ns = [])
     \<and> (err = None \<and> \<not> ch_stopped s \<and> all_resolve env fs (ch_payload s) (ch_now s) \<longrightarrow>
          (\<exists>n. (\<forall>f \<in> set fs. \<exists>k \<le> n. ee_handler env f (ch_payload s) (ch_now s) = Resolves k)
             \<and> (n = 0 \<or> (\<exists>f \<in> set fs. ee_handler env f (ch_payload s) (ch_now s) = Resolves n))
             \<and> (\<forall>name. count_list ns (sent_as options msg name) =
                  (let ctx = ee_ctx env (ch_now s + int n)
                   in if reachable_by ctx options name
                      then times_addressed ctx (resolveEffectiveTransports (ee_ctx env now) d key (eo_transports options)) d msg name
                      else 0))
             \<and> (\<forall>x \<in> set ns. is_sent x \<longrightarrow> (\<exists>name. x = sent_as options msg name))))"
proof -
  let ?eff = "resolveEffectiveTransports (ee_ctx env now) d key (eo_transports options)"
  let ?hs = "getMatchingEventHandlers (ee_ctx env (ch_now s)) key"
  let ?res = "map (\<lambda>f. ee_handler env f (ch_payload s) (ch_now s)) fs"
  have fs: "List.map_filter (\<lambda>h. admitted h (ch_payload s)) ?hs = fs"
    by (simp add: event_handlers_sorted [OF assms(5)] assms(6,7) map_filter_map entry_runs_def [abs_def])
  then have run: "snd (executeHandlers env ?hs (ch_payload s) (ch_now s)) = promise_all ?res"
    by (simp add: executeHandlers_def Let_def)
  have sorted: "prio_sorted entries" unfolding assms(6) prio_sorted_ordered by (rule prio.js_sort_ordered)
  note p = emit_pipeline [OF assms(1-4), unfolded Let_def fs run, folded assms(8)]
  have all: "all_resolve env fs (ch_payload s) (ch_now s) \<longleftrightarrow> (\<forall>r \<in> set ?res. \<exists>n. r = Resolves n)"
    by (simp add: all_resolve_def)
  have sent: "count_list ns x = count_list (filter is_sent ns) x" if "is_sent x" for x
    using that by (induction ns) auto
  have sa: "is_sent (sent_as options msg name)" for name by (simp split: option.splits)
  show ?thesis
  proof (cases "err = None \<and> \<not> ch_stopped s")
    case False
    then show ?thesis using p by blast
  next
    case True
    show ?thesis
    proof (cases "all_resolve env fs (ch_payload s) (ch_now s)")
      case no: False
      then have "await_result (promise_all ?res) (ch_now s) \<noteq> Some (t, None)" for t
        using promise_all_await [of ?res "ch_now s"] unfolding all by auto
      then have "filter is_sent ns = []" using p True by (auto split: option.splits)
      then show ?thesis using p True no sorted by blast
    next
      case yes: True
      then obtain n where n: "await_result (promise_all ?res) (ch_now s) = Some (ch_now s + int n, None)"
          "\<forall>k. Resolves k \<in> set ?res \<longrightarrow> k \<le> n" "n = 0 \<or> Resolves n \<in> set ?res"
        using promise_all_await [of ?res "ch_now s"] unfolding all by (auto split: if_splits)
      let ?ctx = "ee_ctx env (ch_now s + int n)"
      let ?ts = "normalizeTransportTargets ?ctx ?eff d (Some msg)"
      have out: "filter is_sent ns = concat (map (delivery options msg) ?ts)" using p True n(1) by simp
      have wf: "map_wf (registeredTransports ?ctx)" using assms(5) [of "ch_now s + int n"] by (simp add: bus_wf_def)
      have "count_list ns (sent_as options msg name) =
          (if reachable_by ?ctx options name then times_addressed ?ctx ?eff d msg name else 0)" for name
        unfolding sent [OF sa] out
        by (simp only: delivery_count [OF normalized_target_registered] normalized_target_count [OF wf])
      moreover have "\<exists>name. x = sent_as options msg name" if "x \<in> set ns" "is_sent x" for x
        using that delivery_only [of x options msg ?ts] unfolding out [symmetric] by simp
      moreover have "\<exists>k \<le> n. ee_handler env f (ch_payload s) (ch_now s) = Resolves k" if "f \<in> set fs" for f
        using that yes n(2) unfolding all_resolve_def by (metis (mono_tags, lifting) image_eqI image_set)
      moreover have "n = 0 \<or> (\<exists>f \<in> set fs. ee_handler env f (ch_payload s) (ch_now s) = Resolves n)"
        using n(3) by auto
      ultimately show ?thesis using p True yes sorted unfolding Let_def by blast
    qed
  qed
qed

definition order_placed :: subject_definition where
  "order_placed = \<lparr>sd_subject = ''placed'', sd_namespace = ''order'', sd_isRequest = False, sd_local = False,
     sd_channel = False, sd_defaultTransports = None\<rparr>"

definition emit_demo_ctx :: "nat bus_context" where
  "emit_demo_ctx = empty_context\<lparr>
     eventHandlers := [(''order.*'', [\<lparr>he_handler = Plain 3, he_priority = 0\<rparr>]),
                       (''order.placed'', [\<lparr>he_handler = Plain 4, he_priority = 9\<rparr>])],
     interceptorHandlers := [(''order.placed'', [\<lparr>he_handler = Plain 1, he_priority = 0\<rparr>])],
     registeredTransports := registeredTransports demo_ctx\<rparr>"

definition emit_demo :: "nat emit_env" where
  "emit_demo = \<lparr>ee_ctx = (\<lambda>_. emit_demo_ctx), ee_validation = \<lparr>ve_production = True, ve_safeParse = (\<lambda>_ _. None)\<rparr>,
     ee_messageId = ''m'', ee_interceptor = (\<lambda>_. IReplacePayload (JNum 2) IDone),
     ee_handler = (\<lambda>_ _ _. Resolves 5), ee_send = (\<lambda>_ _ _. Resolves 1)\<rparr>"

definition no_emit_options :: emit_options where
  "no_emit_options = \<lparr>eo_messageId = None, eo_correlationId = None, eo_transports = None, eo_connectionId = None\<rparr>"

definition placed_message :: event_message where
  "placed_message = \<lparr>ev_subject = ''placed'', ev_namespace = ''order'', ev_payload = JNum 2, ev_messageId = ''m'',
     ev_correlationId = None\<rparr>"

lemma emit_demo_run:
  "emit emit_demo order_placed (JNum 1) no_emit_options [] 0 =
     ([], [InterceptorStarted 1 (JNum 1), HandlerStarted 4 (JNum 2), HandlerStarted 3 (JNum 2),
           MessageSent ''ws'' (EventMsg placed_message)], Some (6, None))"
  unfolding placed_message_def by code_simp

lemma emit_demo_wf: "bus_wf (ee_ctx emit_demo u)"
  by (simp add: emit_demo_def emit_demo_ctx_def demo_ctx_def empty_context_def bus_wf_def
      handler_map_wf_def map_wf_def remote_wf_def routes_of_def event_sub_def learned_class_def peer_view_def map_has_def)

theorem emit_delivers_witness:
  "count_list [InterceptorStarted 1 (JNum 1), HandlerStarted 4 (JNum 2), HandlerStarted 3 (JNum 2),
      MessageSent ''ws'' (EventMsg placed_message)] (MessageSent ''ws'' (EventMsg placed_message))
     = times_addressed emit_demo_ctx None order_placed (EventMsg placed_message) ''ws''"
proof -
  have 1: "getFullSubjectForSubjectDefinition order_placed = ''order.placed''" by code_simp
  have 2: "snd (validateEventPayload (ee_validation emit_demo) (ee_ctx emit_demo 0) ''order.placed'' (JNum 1)) = Inr ()"
    by code_simp
  have 3: "executeInterceptors (ee_ctx emit_demo 0) (ee_interceptor emit_demo) ''order.placed'' (JNum 1) 0 =
      ([InterceptorStarted 1 (JNum 1)], \<lparr>ch_payload = JNum 2, ch_stopped = False, ch_now = 0\<rparr>, None)" by code_simp
  have 4: "ee_ctx emit_demo u = emit_demo_ctx" "ee_handler emit_demo f v u = Resolves 5" for f v u
    by (simp_all add: emit_demo_def)
  have 5: "resolveEffectiveTransports emit_demo_ctx order_placed ''order.placed'' None = None" by code_simp
  have 6: "getFullSubjectForSubjectDefinition order_placed = ''order.placed''" "eo_connectionId no_emit_options = None"
      "eo_transports no_emit_options = None" by code_simp+
  have m: "EventMsg \<lparr>ev_subject = sd_subject order_placed, ev_namespace = sd_namespace order_placed, ev_payload = JNum 2,
      ev_messageId = value_or (eo_messageId no_emit_options) (ee_messageId emit_demo),
      ev_correlationId = eo_correlationId no_emit_options\<rparr> = EventMsg placed_message" by code_simp
  from emit_delivers [OF emit_demo_run 1 2 3 emit_demo_wf refl refl refl]
  obtain n where "\<forall>name. count_list [InterceptorStarted 1 (JNum 1), HandlerStarted 4 (JNum 2), HandlerStarted 3 (JNum 2),
      MessageSent ''ws'' (EventMsg placed_message)] (sent_as no_emit_options (EventMsg placed_message) name) =
        (let ctx = ee_ctx emit_demo (0 + int n)
         in if reachable_by ctx no_emit_options name
            then times_addressed ctx (resolveEffectiveTransports (ee_ctx emit_demo 0) order_placed ''order.placed''
                   (eo_transports no_emit_options)) order_placed (EventMsg placed_message) name
            else 0)"
    unfolding chain_state.simps m all_resolve_def 4 by blast
  from spec [OF this, of "''ws''"] show ?thesis by (simp add: Let_def 4 5 6 reachable_by_def)
qed

end
