(* ===== verification/Broadcast.thy ===== *)
theory Broadcast
  imports Emit
begin

text \<open>
  Broadcast requests (\<open>core/bus-core/src/methods/broadcast.ts\<close>): every matching local handler and every
  target transport is asked in parallel and the answers are collected. A handler is a program over
  the broadcast context; \<open>next\<close> and \<open>replacePayload\<close> do nothing there.
\<close>

section \<open>One local handler\<close>

datatype broadcast_prog =
    BDone
  | BThrow thrown
  | BIdentify string broadcast_prog
  | BSetResult js_value broadcast_prog
  | BExtendResult "(string, js_value) js_map" broadcast_prog
  | BReadPayload "js_value \<Rightarrow> broadcast_prog"
  | BReadResult "js_value \<Rightarrow> broadcast_prog"
  | BNext broadcast_prog
  | BReplacePayload js_value broadcast_prog
  | BWait nat broadcast_prog

type_synonym broadcast_result = "string \<times> js_value"

record broadcast_frame =
  bf_nodeId :: string
  bf_pushed :: "broadcast_result option"
  bf_latency :: nat

text \<open>\<open>Object.assign\<close> onto the pushed result, which is updated in place.\<close>

fun assign_onto :: "js_value \<Rightarrow> (string, js_value) js_map \<Rightarrow> js_value option" where
  "assign_onto (JObj ps) ext = Some (JObj (spread_onto ps ext))"
| "assign_onto JUndefined ext = None"
| "assign_onto JNull ext = None"
| "assign_onto v ext = Some v"

definition not_an_object :: thrown where
  "not_an_object = ErrorObj None C_Error ''Cannot convert undefined or null to object'' [] None"

primrec run_broadcast_handler ::
  "broadcast_prog \<Rightarrow> js_value \<Rightarrow> broadcast_frame \<Rightarrow> broadcast_frame \<times> thrown option" where
  "run_broadcast_handler BDone payload fr = (fr, None)"
| "run_broadcast_handler (BThrow e) payload fr = (fr, Some e)"
| "run_broadcast_handler (BIdentify i k) payload fr = run_broadcast_handler k payload (fr\<lparr>bf_nodeId := i\<rparr>)"
| "run_broadcast_handler (BSetResult v k) payload fr =
     run_broadcast_handler k payload
       (if bf_pushed fr = None then fr\<lparr>bf_pushed := Some (bf_nodeId fr, v)\<rparr> else fr)"
| "run_broadcast_handler (BExtendResult ext k) payload fr =
     (case bf_pushed fr of
        None \<Rightarrow> run_broadcast_handler k payload (fr\<lparr>bf_pushed := Some (bf_nodeId fr, JObj ext)\<rparr>)
      | Some (i, v) \<Rightarrow>
          (case assign_onto v ext of
             None \<Rightarrow> (fr, Some not_an_object)
           | Some v' \<Rightarrow> run_broadcast_handler k payload (fr\<lparr>bf_pushed := Some (i, v')\<rparr>)))"
| "run_broadcast_handler (BReadPayload k) payload fr = run_broadcast_handler (k payload) payload fr"
| "run_broadcast_handler (BReadResult k) payload fr =
     run_broadcast_handler (k (case bf_pushed fr of None \<Rightarrow> JUndefined | Some (_, v) \<Rightarrow> v)) payload fr"
| "run_broadcast_handler (BNext k) payload fr = run_broadcast_handler k payload fr"
| "run_broadcast_handler (BReplacePayload v k) payload fr = run_broadcast_handler k payload fr"
| "run_broadcast_handler (BWait n k) payload fr =
     run_broadcast_handler k payload (fr\<lparr>bf_latency := bf_latency fr + n\<rparr>)"

definition createBroadcastContext :: broadcast_frame where
  "createBroadcastContext = \<lparr>bf_nodeId = ''anonymous'', bf_pushed = None, bf_latency = 0\<rparr>"

text \<open>A contribution: what it notes, when its promise settles and how, and the results it pushes then.\<close>

type_synonym contribution = "bus_note list \<times> async_result \<times> broadcast_result list"

definition executeLocalBroadcastHandler ::
  "'z validation_env \<Rightarrow> subject \<Rightarrow> 'z request_validation \<Rightarrow> broadcast_prog \<Rightarrow> js_value \<Rightarrow> contribution" where
  "executeLocalBroadcastHandler ve key rv prog payload =
     (case run_broadcast_handler prog payload createBroadcastContext of
        (fr, Some e) \<Rightarrow> ([ErrorLogged key], Resolves (bf_latency fr), [])
      | (fr, None) \<Rightarrow>
          (case bf_pushed fr of
             None \<Rightarrow> ([], Resolves (bf_latency fr), [])
           | Some (i, v) \<Rightarrow>
               (case validateResponsePayload ve key v rv of
                  (notes, Inl e) \<Rightarrow> (notes, Rejects (bf_latency fr) e, [])
                | (notes, Inr _) \<Rightarrow> (notes, Resolves (bf_latency fr), [(i, v)]))))"

section \<open>One transport\<close>

text \<open>The loop over a transport's results: it stops at the first that fails validation.\<close>

fun accept_results ::
  "'z validation_env \<Rightarrow> subject \<Rightarrow> 'z request_validation \<Rightarrow> broadcast_result list \<Rightarrow> bus_note list \<times> broadcast_result list" where
  "accept_results ve key rv [] = ([], [])"
| "accept_results ve key rv ((i, v) # rs) =
     (case validateResponsePayload ve key v rv of
        (notes, Inl e) \<Rightarrow> (notes @ [ErrorLogged key], [])
      | (notes, Inr _) \<Rightarrow>
          (case accept_results ve key rv rs of (notes', acc) \<Rightarrow> (notes @ notes', (i, v) # acc)))"

datatype broadcast_reply = BroadcastReply nat "thrown + broadcast_result list" | NoBroadcastReply

definition transport_contribution ::
  "'z validation_env \<Rightarrow> subject \<Rightarrow> 'z request_validation \<Rightarrow> broadcast_reply \<Rightarrow> contribution" where
  "transport_contribution ve key rv reply =
     (case reply of
        NoBroadcastReply \<Rightarrow> ([], Hangs, [])
      | BroadcastReply n (Inl e) \<Rightarrow> ([ErrorLogged key], Resolves n, [])
      | BroadcastReply n (Inr rs) \<Rightarrow>
          (case accept_results ve key rv rs of (notes, acc) \<Rightarrow> (notes, Resolves n, acc)))"

section \<open>Broadcast\<close>

record 'z broadcast_env =
  be_ctx :: "millis \<Rightarrow> 'z bus_context"
  be_validation :: "'z validation_env"
  be_messageId :: ident
  be_correlationId :: ident
  be_handler :: "nat \<Rightarrow> broadcast_prog"
  be_send :: "transport_name \<Rightarrow> broadcast_message \<Rightarrow> broadcast_reply"

fun settle_time :: "async_result \<Rightarrow> nat" where
  "settle_time (Resolves n) = n"
| "settle_time (Rejects n _) = n"
| "settle_time Hangs = 0"

text \<open>Results are appended as the contributions settle.\<close>

definition collected :: "contribution list \<Rightarrow> broadcast_result list" where
  "collected cs = concat (map (snd \<circ> snd) (sort_key (\<lambda>c. settle_time (fst (snd c))) cs))"

definition all_operation :: "contribution list \<Rightarrow> (nat \<times> (thrown + unit)) option" where
  "all_operation cs =
     (case promise_all (map (fst \<circ> snd) cs) of
        Resolves n \<Rightarrow> Some (n, Inr ()) | Rejects n e \<Rightarrow> Some (n, Inl e) | Hangs \<Rightarrow> None)"

definition broadcast_targets ::
  "'z bus_context \<Rightarrow> transport_spec \<Rightarrow> subject_definition \<Rightarrow> broadcast_message \<Rightarrow> (transport_name \<times> transport) list" where
  "broadcast_targets ctx effective d m =
     (if effective = None
      then (if sd_local d then [] else getReadyTransports ctx None (Some (BroadcastMsg m)))
      else normalizeTransportTargets ctx effective d (Some (BroadcastMsg m)))"

definition broadcast ::
  "'z broadcast_env \<Rightarrow> subject_definition \<Rightarrow> js_value \<Rightarrow> request_options \<Rightarrow> ident list \<Rightarrow> millis
     \<Rightarrow> ident list \<times> bus_note list \<times> (millis \<times> (thrown + broadcast_result list)) option" where
  "broadcast env d payload options seen now =
     (let ctx = be_ctx env now;
          ve = be_validation env;
          key = getFullSubjectForSubjectDefinition d;
          messageId = value_or (qo_messageId options) (be_messageId env);
          correlationId = value_or (qo_correlationId options) (be_correlationId env);
          timeout = value_or (qo_timeout options) DEFAULT_REQUEST_TIMEOUT_MS;
          rv = resolveRequestValidation ctx key;
          effective = resolveEffectiveTransports ctx d key (qo_transports options);
          localOnly = (sd_local d \<or> isCollectorOnlySubject (namespaceRegistry ctx) key
                       \<or> isExplicitLocalOnlyTransportSpec effective)
      in case validateRequestPayload ve key payload rv of
           (notes1, Inl e) \<Rightarrow> (seen, notes1, Some (now, Inl e))
         | (notes1, Inr _) \<Rightarrow>
             (let (seen', notes2) = invokeAnyHandlers (ve_production ve) ctx KBroadcast (sd_subject d) messageId
                                      (Some correlationId) seen;
                  notes3 = notifyMessageObservers ctx
                    \<lparr>om_type = KBroadcast, om_namespace = sd_namespace d, om_subject = sd_subject d, om_payload = payload,
                     om_messageId = messageId, om_correlationId = Some correlationId, om_localOnly = localOnly\<rparr>;
                  m = \<lparr>bm_subject = sd_subject d, bm_namespace = sd_namespace d, bm_payload = payload,
                       bm_correlationId = correlationId, bm_messageId = messageId, bm_timeout = Some timeout\<rparr>;
                  targets = broadcast_targets ctx effective d m;
                  fs = List.map_filter (\<lambda>h. admitted h payload) (getMatchingHandlers ctx key);
                  cs = map (\<lambda>f. executeLocalBroadcastHandler ve key rv (be_handler env f) payload) fs
                       @ map (\<lambda>(name, tr). transport_contribution ve key rv (be_send env name m)) targets;
                  notes = notes1 @ notes2 @ notes3 @ map (\<lambda>f. HandlerStarted f payload) fs
                          @ map (\<lambda>(name, tr). MessageSent name (BroadcastMsg m)) targets @ concat (map fst cs)
              in case awaitWithTimeoutAndSignal (all_operation cs) timeout (qo_signal options) now of
                   None \<Rightarrow> (seen', notes, None)
                 | Some (t, Inr _) \<Rightarrow> (seen', notes, Some (t, Inr (collected cs)))
                 | Some (t, Inl e) \<Rightarrow>
                     (seen', notes,
                      Some (t, Inl (if has_class C_pTimeout e \<and> \<not> isRequestCancellation e (qo_signal options) t
                                    then TimeoutError (sd_subject d) timeout else e)))))"

end
