(* ===== verification/Ingress.thy ===== *)
theory Ingress
  imports Broadcast
begin

text \<open>
  Messages arriving from a transport (\<open>core/bus-core/src/registries/transport-registry.ts\<close>): events are
  relayed and run locally, requests are dispatched and answered, broadcasts are run locally and
  relayed, subscription messages update the routing state.
\<close>

section \<open>Environment\<close>

record 'z ingress_env =
  ig_ctx :: "millis \<Rightarrow> 'z bus_context"
  ig_dispatch :: "'z dispatch_env"
  ig_emit :: "'z emit_env"
  ig_broadcast :: "'z broadcast_env"

definition resolveSubjectDefinition :: "string \<Rightarrow> string \<Rightarrow> bool \<Rightarrow> subject_definition" where
  "resolveSubjectDefinition namespace subject isRequest =
     \<lparr>sd_subject = subject, sd_namespace = namespace, sd_isRequest = isRequest, sd_local = False,
      sd_channel = False, sd_defaultTransports = None\<rparr>"

text \<open>The subject key of an event, request or broadcast message.\<close>

definition full_subject :: "string \<Rightarrow> string \<Rightarrow> subject" where
  "full_subject namespace subject = namespace @ ''.'' @ subject"

definition getRelayTargets ::
  "'z bus_context \<Rightarrow> transport_name \<Rightarrow> bus_message \<Rightarrow> (transport_name \<times> transport) list" where
  "getRelayTargets ctx source message = getReadyTransports ctx (Some source) (Some message)"

section \<open>Events\<close>

definition handleEventMessage ::
  "'z ingress_env \<Rightarrow> transport_name \<Rightarrow> event_message \<Rightarrow> ident list \<Rightarrow> millis
     \<Rightarrow> ident list \<times> bus_note list \<times> (millis \<times> thrown option) option" where
  "handleEventMessage env source m seen now =
     (let ctx = ig_ctx env now; fullSubject = full_subject (ev_namespace m) (ev_subject m)
      in if isLocalSubject (namespaceRegistry ctx) fullSubject then (seen, [], Some (now, None))
         else (let targets = (if isCollectorOnlySubject (namespaceRegistry ctx) fullSubject then []
                              else getRelayTargets ctx source (EventMsg m));
                   notes1 = map (\<lambda>(name, tr). MessageSent name (EventMsg m)) targets
               in case last_completion (map (\<lambda>(name, tr). ee_send (ig_emit env) name (EventMsg m) now) targets) of
                    None \<Rightarrow> (seen, notes1, None)
                  | Some n \<Rightarrow>
                      (case emit ((ig_emit env)\<lparr>ee_ctx := ig_ctx env\<rparr>)
                              (resolveSubjectDefinition (ev_namespace m) (ev_subject m) False) (ev_payload m)
                              \<lparr>eo_messageId = Some (ev_messageId m), eo_correlationId = ev_correlationId m,
                               eo_transports = Some [], eo_connectionId = None\<rparr> seen (now + int n) of
                         (seen', notes2, r) \<Rightarrow> (seen', notes1 @ notes2, r))))"

section \<open>Requests\<close>

definition anchorRequestDeadline :: "millis \<Rightarrow> millis \<Rightarrow> millis option" where
  "anchorRequestDeadline timeout now = (if timeout > 0 then Some (now + timeout) else None)"

definition resolveInboundReadinessTimeout :: "millis option \<Rightarrow> millis option" where
  "resolveInboundReadinessTimeout readinessTimeout =
     (case readinessTimeout of None \<Rightarrow> None | Some n \<Rightarrow> if n \<ge> 0 then Some n else None)"

definition error_response :: "request_message \<Rightarrow> thrown \<Rightarrow> bus_message" where
  "error_response m e =
     ResponseMsg \<lparr>rp_correlationId = rq_correlationId m, rp_result = None, rp_error = Some (serializeError e)\<rparr>"

definition sendErrorResponse ::
  "'z ingress_env \<Rightarrow> transport_name \<Rightarrow> request_message \<Rightarrow> thrown \<Rightarrow> millis \<Rightarrow> bus_note list \<times> millis option" where
  "sendErrorResponse env source m e now =
     ([MessageSent source (error_response m e)],
      map_option fst (await_result (caught (ee_send (ig_emit env) source (error_response m e) now)) now))"

definition result_response :: "request_message \<Rightarrow> js_value \<Rightarrow> bus_message" where
  "result_response m v = ResponseMsg \<lparr>rp_correlationId = rq_correlationId m, rp_result = Some v, rp_error = None\<rparr>"

definition inbound_options :: "'z bus_context \<Rightarrow> request_message \<Rightarrow> subject \<Rightarrow> millis \<Rightarrow> dispatch_options" where
  "inbound_options ctx m fullSubject now =
     (let relayTimeout = value_or (rq_timeout m) DEFAULT_REQUEST_TIMEOUT_MS
      in \<lparr>do_allowedTransports = None, do_priority = rq_priority m, do_correlationId = rq_correlationId m,
          do_messageId = rq_messageId m, do_timeout = relayTimeout,
          do_readinessTimeout = resolveInboundReadinessTimeout (rq_readinessTimeout m),
          do_deadline = anchorRequestDeadline relayTimeout now, do_signal = None,
          do_localOnly = isHostLocalRequestSubject (namespaceRegistry ctx) fullSubject,
          do_excludeFirstHopOnlyRemote = True\<rparr>)"

definition handleRequestMessage ::
  "'z ingress_env \<Rightarrow> transport_name \<Rightarrow> request_message \<Rightarrow> world \<Rightarrow> world \<times> bus_note list \<times> millis option" where
  "handleRequestMessage env source m w =
     (let ctx = ig_ctx env (w_now w);
          fullSubject = full_subject (rq_namespace m) (rq_subject m);
          fail = (\<lambda>w' e. case sendErrorResponse env source m e (w_now w') of (notes, t) \<Rightarrow> (w', notes, t))
      in if isLocalSubject (namespaceRegistry ctx) fullSubject then fail w (LocalSubjectError fullSubject)
         else (case dispatch ((ig_dispatch env)\<lparr>env_ctx := ig_ctx env\<rparr>)
                      (resolveSubjectDefinition (rq_namespace m) (rq_subject m) True) (rq_payload m)
                      (inbound_options ctx m fullSubject (w_now w)) w of
                 (w', None) \<Rightarrow> (w', [], None)
               | (w', Some (Inl e)) \<Rightarrow> fail w' e
               | (w', Some (Inr None)) \<Rightarrow> fail w' (NoHandlerError fullSubject)
               | (w', Some (Inr (Some v))) \<Rightarrow>
                   (let sent = MessageSent source (result_response m v)
                    in case await_result (ee_send (ig_emit env) source (result_response m v) (w_now w')) (w_now w') of
                         None \<Rightarrow> (w', [sent], None)
                       | Some (t, None) \<Rightarrow> (w', [sent], Some t)
                       | Some (t, Some e) \<Rightarrow>
                           (case sendErrorResponse env source m e t of (notes, t') \<Rightarrow> (w', sent # notes, t')))))"

section \<open>Broadcasts\<close>

text \<open>
  Results go to \<open>onBroadcastResults\<close> when the transport has it, else into a response message. The
  delivery itself is taken to succeed (a failing one is retried once with the error).
\<close>

definition deliverBroadcastResults ::
  "transport_name \<Rightarrow> transport \<Rightarrow> ident \<Rightarrow> broadcast_result list \<Rightarrow> bus_transport_error option \<Rightarrow> bus_note list" where
  "deliverBroadcastResults name tr correlationId results error =
     (if tp_onBroadcastResults tr then [BroadcastResultsDelivered name correlationId results error]
      else [MessageSent name (BroadcastResponseMsg \<lparr>br_correlationId = correlationId,
              br_results = (if results \<noteq> [] then Some results else None), br_error = error\<rparr>)])"

definition relay_contribution :: "subject \<Rightarrow> broadcast_reply \<Rightarrow> contribution" where
  "relay_contribution key reply =
     (case reply of
        NoBroadcastReply \<Rightarrow> ([], Hangs, [])
      | BroadcastReply n (Inl e) \<Rightarrow> ([ErrorLogged key], Resolves n, [])
      | BroadcastReply n (Inr rs) \<Rightarrow> ([], Resolves n, rs))"

definition handleBroadcastMessage ::
  "'z ingress_env \<Rightarrow> transport_name \<Rightarrow> transport \<Rightarrow> broadcast_message \<Rightarrow> ident list \<Rightarrow> millis
     \<Rightarrow> ident list \<times> bus_note list \<times> bool" where
  "handleBroadcastMessage env source tr m seen now =
     (let ctx = ig_ctx env now;
          fullSubject = full_subject (bm_namespace m) (bm_subject m);
          relayTimeout = value_or (bm_timeout m) DEFAULT_REQUEST_TIMEOUT_MS
      in if isLocalSubject (namespaceRegistry ctx) fullSubject
         then (seen, deliverBroadcastResults source tr (bm_correlationId m) []
                       (Some (serializeError (LocalSubjectError fullSubject))), True)
         else (case broadcast ((ig_broadcast env)\<lparr>be_ctx := ig_ctx env\<rparr>)
                      (resolveSubjectDefinition (bm_namespace m) (bm_subject m) True) (bm_payload m)
                      \<lparr>qo_messageId = Some (bm_messageId m), qo_correlationId = Some (bm_correlationId m),
                       qo_timeout = Some relayTimeout, qo_readinessTimeout = None, qo_signal = None,
                       qo_transports = Some []\<rparr> seen now of
                 (seen', notes1, localOutcome) \<Rightarrow>
                   (let targets = getRelayTargets ctx source (BroadcastMsg m);
                        local = (case localOutcome of
                                   None \<Rightarrow> ([], Hangs, [])
                                 | Some (t, Inr rs) \<Rightarrow> ([], Resolves (nat (t - now)), rs)
                                 | Some (t, Inl e) \<Rightarrow> ([], Resolves (nat (t - now)), []));
                        localError = (case localOutcome of
                                        Some (_, Inl e) \<Rightarrow> Some (serializeError e) | _ \<Rightarrow> None);
                        cs = local # map (\<lambda>(name, tr). relay_contribution fullSubject (be_send (ig_broadcast env) name m)) targets;
                        notes = notes1 @ map (\<lambda>(name, tr). MessageSent name (BroadcastMsg m)) targets @ concat (map fst cs)
                    in case last_completion (map (fst \<circ> snd) cs) of
                         None \<Rightarrow> (seen', notes, False)
                       | Some _ \<Rightarrow>
                           (seen', notes @ deliverBroadcastResults source tr (bm_correlationId m) (collected cs) localError, True))))"

section \<open>Dispatch of an incoming message\<close>

datatype 'z incoming =
    Ignored
  | StateChanged "'z bus_context" outbox
  | EventTaken "ident list \<times> bus_note list \<times> (millis \<times> thrown option) option"
  | RequestTaken "world \<times> bus_note list \<times> millis option"
  | BroadcastTaken "ident list \<times> bus_note list \<times> bool"

fun handleIncomingMessage ::
  "'z ingress_env \<Rightarrow> transport_name \<Rightarrow> transport \<Rightarrow> bus_message \<Rightarrow> ident list \<Rightarrow> world \<Rightarrow> 'z incoming" where
  "handleIncomingMessage env name tr (SubscribeMsg m) seen w =
     (case propagateSubscribe name m (ig_ctx env (w_now w)) of (ctx, out) \<Rightarrow> StateChanged ctx out)"
| "handleIncomingMessage env name tr (UnsubscribeMsg m) seen w =
     (case propagateUnsubscribe name m (ig_ctx env (w_now w)) of (ctx, out) \<Rightarrow> StateChanged ctx out)"
| "handleIncomingMessage env name tr (EventMsg m) seen w = EventTaken (handleEventMessage env name m seen (w_now w))"
| "handleIncomingMessage env name tr (RequestMsg m) seen w = RequestTaken (handleRequestMessage env name m w)"
| "handleIncomingMessage env name tr (BroadcastMsg m) seen w =
     BroadcastTaken (handleBroadcastMessage env name tr m seen (w_now w))"
| "handleIncomingMessage env name tr _ seen w = Ignored"

section \<open>Answers to requests\<close>

lemma resolveDeadline_inbound:
  assumes "value_or (rq_timeout m) DEFAULT_REQUEST_TIMEOUT_MS > 0"
  shows "\<exists>dl. resolveDispatchDeadline (inbound_options ctx m full now) now' = Some dl"
  using assms by (simp add: resolveDispatchDeadline_def inbound_options_def Let_def anchorRequestDeadline_def)

lemma sendErrorResponse_sends:
  "fst (sendErrorResponse env source m e now) = [MessageSent source (error_response m e)]"
  "snd (sendErrorResponse env source m e now) = None \<Longrightarrow> ee_send (ig_emit env) source (error_response m e) now = Hangs"
  by (auto simp: sendErrorResponse_def await_result_def elim: caught.elims split: async_result.splits)

definition answers :: "request_message \<Rightarrow> transport_name \<Rightarrow> bus_note list \<Rightarrow> response_message \<Rightarrow> bool" where
  "answers m source ns r \<longleftrightarrow>
     ns = [MessageSent source (ResponseMsg r)] \<and> rp_correlationId r = rq_correlationId m
     \<and> (rp_result r = None \<longleftrightarrow> rp_error r \<noteq> None)"

lemma answers_response:
  "answers m source [MessageSent source (error_response m e)]
     \<lparr>rp_correlationId = rq_correlationId m, rp_result = None, rp_error = Some (serializeError e)\<rparr>"
  "answers m source [MessageSent source (result_response m v)]
     \<lparr>rp_correlationId = rq_correlationId m, rp_result = Some v, rp_error = None\<rparr>"
  by (simp_all add: answers_def error_response_def result_response_def)

text \<open>
  The response that follows a result the transport refused to take: the result, then an error
  response for what the transport rejected with.
\<close>

definition corrected :: "'z ingress_env \<Rightarrow> request_message \<Rightarrow> transport_name \<Rightarrow> millis \<Rightarrow> bus_note list \<Rightarrow> bool" where
  "corrected env m source now ns \<longleftrightarrow>
     (\<exists>v n e. ee_send (ig_emit env) source (result_response m v) now = Rejects n e
        \<and> ns = [MessageSent source (result_response m v), MessageSent source (error_response m e)])"

definition some_send_hangs :: "'z ingress_env \<Rightarrow> transport_name \<Rightarrow> bus_note list \<Rightarrow> bool" where
  "some_send_hangs env source ns \<longleftrightarrow>
     (\<exists>msg now. MessageSent source msg \<in> set ns \<and> ee_send (ig_emit env) source msg now = Hangs)"

lemma failed_answer:
  assumes "(case sendErrorResponse env source m e now of (notes, t) \<Rightarrow> (w1, notes, t)) = (w', ns, t)"
  shows "w' = w1 \<and> ns = [MessageSent source (error_response m e)] \<and> (t = None \<longrightarrow> some_send_hangs env source ns)"
  using assms sendErrorResponse_sends [of env source m e now]
  by (auto simp: some_send_hangs_def split: prod.splits)

lemma result_answer:
  assumes "(case await_result (ee_send (ig_emit env) source (result_response m v) (w_now w1)) (w_now w1) of
       None \<Rightarrow> (w1, [MessageSent source (result_response m v)], None)
     | Some (u, None) \<Rightarrow> (w1, [MessageSent source (result_response m v)], Some u)
     | Some (u, Some e) \<Rightarrow> (case sendErrorResponse env source m e u of
         (notes, t') \<Rightarrow> (w1, MessageSent source (result_response m v) # notes, t'))) = (w', ns, t)"
  shows "w' = w1
     \<and> (ns = [MessageSent source (result_response m v)] \<and> \<not> corrected env m source (w_now w1) ns
          \<and> (\<forall>n e. ee_send (ig_emit env) source (result_response m v) (w_now w1) \<noteq> Rejects n e)
        \<or> corrected env m source (w_now w1) ns)
     \<and> (t = None \<longrightarrow> some_send_hangs env source ns)"
proof (cases "ee_send (ig_emit env) source (result_response m v) (w_now w1)")
  case (Rejects n e)
  then show ?thesis
    using assms sendErrorResponse_sends [of env source m e "w_now w1 + int n"]
    by (fastforce simp: await_result_def corrected_def some_send_hangs_def split: prod.splits)
next
  case (Resolves n)
  then show ?thesis using assms by (auto simp: await_result_def corrected_def)
next
  case Hangs
  then show ?thesis using assms by (auto simp: await_result_def corrected_def some_send_hangs_def)
qed

text \<open>
  C6. An inbound request with a time budget is answered, provided the local handlers it runs end (they
  are programs that end in this model; a hung local handler is deliberately not timed out by the
  code). Whatever the other transports do, what is sent is one response carrying its correlation id,
  to the transport it came from, with either a result or an error. A second response is sent only
  when that transport rejected the result response: then the result is followed by one error response
  for that rejection, and by nothing else. The handling ends unless sending a response hangs. A
  request for a local-only subject is answered with \<open>LocalSubjectError\<close> alone and starts nothing.
\<close>

theorem inbound_request_answered_once:
  assumes "value_or (rq_timeout m) DEFAULT_REQUEST_TIMEOUT_MS > 0"
    and "handleRequestMessage env source m w = (w', ns, t)"
  shows "((\<exists>r. answers m source ns r
             \<and> (\<forall>v. rp_result r = Some v \<longrightarrow>
                   (\<forall>n e. ee_send (ig_emit env) source (ResponseMsg r) (w_now w') \<noteq> Rejects n e)))
          \<or> corrected env m source (w_now w') ns)
     \<and> (t = None \<longrightarrow> some_send_hangs env source ns)
     \<and> (isLocalSubject (namespaceRegistry (ig_ctx env (w_now w))) (full_subject (rq_namespace m) (rq_subject m))
          \<longrightarrow> w' = w \<and> ns = [MessageSent source
                 (error_response m (LocalSubjectError (full_subject (rq_namespace m) (rq_subject m))))])"
proof -
  define full where "full = full_subject (rq_namespace m) (rq_subject m)"
  let ?ctx = "ig_ctx env (w_now w)"
  let ?d = "dispatch ((ig_dispatch env)\<lparr>env_ctx := ig_ctx env\<rparr>)
      (resolveSubjectDefinition (rq_namespace m) (rq_subject m) True) (rq_payload m) (inbound_options ?ctx m full (w_now w)) w"
  obtain dl where "resolveDispatchDeadline (inbound_options ?ctx m full (w_now w)) (w_now w) = Some dl"
    using resolveDeadline_inbound [OF assms(1)] by blast
  then obtain w1 o1 where d: "?d = (w1, Some o1)"
    using dispatch_settles [of "inbound_options ?ctx m full (w_now w)" w dl] by (metis option.exhaust prod.collapse)
  let ?answered = "(\<exists>r. answers m source ns r \<and> (\<forall>v. rp_result r = Some v \<longrightarrow>
       (\<forall>n e. ee_send (ig_emit env) source (ResponseMsg r) (w_now w') \<noteq> Rejects n e))) \<or> corrected env m source (w_now w') ns"
  have err: ?answered if "ns = [MessageSent source (error_response m e)]" for e
    using that answers_response(1) [of m source e] by (auto intro!: exI)
  have res: ?answered if "ns = [MessageSent source (result_response m v)]"
      and "\<forall>n e. ee_send (ig_emit env) source (result_response m v) (w_now w') \<noteq> Rejects n e" for v
    using that answers_response(2) [of m source v] by (auto simp: result_response_def)
  show ?thesis
  proof (cases "isLocalSubject (namespaceRegistry ?ctx) full")
    case True
    then have "(case sendErrorResponse env source m (LocalSubjectError full) (w_now w) of (notes, t) \<Rightarrow> (w, notes, t)) = (w', ns, t)"
      using assms(2) by (auto simp: handleRequestMessage_def Let_def simp flip: full_def)
    from failed_answer [OF this] err show ?thesis unfolding full_def by blast
  next
    case False
    consider (e) e where "(case sendErrorResponse env source m e (w_now w1) of (notes, t) \<Rightarrow> (w1, notes, t)) = (w', ns, t)"
      | (v) v where "o1 = Inr (Some v)"
      using assms(2) False d
      by (cases o1; cases "projr o1") (auto simp: handleRequestMessage_def Let_def simp flip: full_def)
    then show ?thesis
    proof cases
      case e
      from failed_answer [OF this] err False show ?thesis unfolding full_def by blast
    next
      case v
      then have eq: "handleRequestMessage env source m w =
         (case await_result (ee_send (ig_emit env) source (result_response m v) (w_now w1)) (w_now w1) of
            None \<Rightarrow> (w1, [MessageSent source (result_response m v)], None)
          | Some (u, None) \<Rightarrow> (w1, [MessageSent source (result_response m v)], Some u)
          | Some (u, Some e) \<Rightarrow> (case sendErrorResponse env source m e u of
              (notes, t') \<Rightarrow> (w1, MessageSent source (result_response m v) # notes, t')))"
        using False d by (simp add: handleRequestMessage_def Let_def flip: full_def)
      from result_answer [OF eq [symmetric, unfolded assms(2)]] res [of v] False
      show ?thesis unfolding full_def by blast
    qed
  qed
qed

text \<open>
  Host-local requests are not forwarded: when the receiving bus has registered the subject as a
  host-local request, answering an inbound request for it sends nothing to any transport while the
  request is dispatched.
\<close>

lemma host_local_request_not_forwarded:
  assumes "isHostLocalRequestSubject (namespaceRegistry (ig_ctx env (w_now w))) (full_subject (rq_namespace m) (rq_subject m))"
  shows "extends (\<lambda>e. \<not> is_send e) w (fst (handleRequestMessage env source m w))"
proof -
  let ?full = "full_subject (rq_namespace m) (rq_subject m)"
  let ?o = "inbound_options (ig_ctx env (w_now w)) m ?full (w_now w)"
  have "do_localOnly ?o" using assms by (simp add: inbound_options_def Let_def)
  define out where "out = dispatch ((ig_dispatch env)\<lparr>env_ctx := ig_ctx env\<rparr>)
      (resolveSubjectDefinition (rq_namespace m) (rq_subject m) True) (rq_payload m) ?o w"
  have "extends (\<lambda>e. \<not> is_send e) w (fst out)"
    unfolding out_def by (rule local_only_dispatch [OF disjI2]) fact
  moreover have "fst (handleRequestMessage env source m w) \<in> {w, fst out}"
    unfolding handleRequestMessage_def Let_def out_def [symmetric]
    by (simp add: sendErrorResponse_def split: prod.splits option.splits sum.splits)
  ultimately show ?thesis by auto
qed

section \<open>Relay of events\<close>

lemma getReadyTransports_excludes: "(name, tr) \<in> set (getReadyTransports ctx (Some name) msg) \<Longrightarrow> False"
  by (auto simp: getReadyTransports_def getSortedTransports_def List.map_filter_def)

lemma emit_locally_sends_nothing:
  assumes "emit env d payload (options\<lparr>eo_transports := Some []\<rparr>) seen now = (seen', ns, r)"
  shows "filter is_sent ns = []"
proof -
  let ?key = "getFullSubjectForSubjectDefinition d"
  have eff: "resolveEffectiveTransports ctx d ?key (Some []) = Some []" for ctx :: "'a bus_context"
    by (simp add: resolveEffectiveTransports_def)
  have none: "normalizeTransportTargets ctx (Some []) d msg = []" for ctx :: "'a bus_context" and msg
    by (simp add: normalizeTransportTargets_def isExplicitLocalOnlyTransportSpec_def)
  have send: "fst (send_to_transports env options' d (Some []) m t) = []" for options' m t
    by (simp add: send_to_transports_notes none)
  have q: "filter is_sent n = []" if "send_to_transports env options' d (Some []) m t = (n, q)" for options' m t n q
    using send [of options' m t] that by simp
  have h: "filter is_sent n = []" if "executeHandlers env hs v t = (n, q)" for hs v t n q
    using executeHandlers_notes [of env hs v t] that by (simp add: filter_started)
  have i: "filter is_sent n = []" if "executeInterceptors ctx run k v t = (n, q)" for ctx :: "'a bus_context" and run k v t n q
    using interceptor_notes_quiet that unfolding executeInterceptors_def by blast
  show ?thesis
    using assms
    by (auto simp: emit_def Let_def eff observation_notes_quiet(2) split: prod.splits option.splits sum.splits if_splits
          dest!: q h i observation_notes_quiet(1) validateEvent_notes_quiet)
qed

text \<open>
  Relay of an inbound event: it is sent once to every other transport that can take it, unchanged,
  and never back to the transport it came from; an event of a local-only subject is dropped without
  any effect and a collector-only event is not relayed. Handling it locally sends nothing more.
\<close>

lemma inbound_event_relay:
  assumes "handleEventMessage env source m seen now = (seen', ns, r)"
    and "namespaceRegistry (ig_ctx env now) = reg" and "full_subject (ev_namespace m) (ev_subject m) = key"
  shows "filter is_sent ns =
       (if isLocalSubject reg key \<or> isCollectorOnlySubject reg key then []
        else map (\<lambda>(name, tr). MessageSent name (EventMsg m))
               (getReadyTransports (ig_ctx env now) (Some source) (Some (EventMsg m))))
     \<and> (\<forall>msg. MessageSent source msg \<notin> set ns)
     \<and> (isLocalSubject reg key \<longrightarrow> ns = [] \<and> seen' = seen)"
proof -
  define targets where "targets = (if isCollectorOnlySubject reg key then []
      else getReadyTransports (ig_ctx env now) (Some source) (Some (EventMsg m)))"
  have all: "filter is_sent (map (\<lambda>(name, tr). MessageSent name (EventMsg m)) ts)
      = map (\<lambda>(name, tr). MessageSent name (EventMsg m)) ts" for ts :: "(transport_name \<times> transport) list"
    by (induction ts) auto
  have sent: "filter is_sent ns = (if isLocalSubject reg key then [] else map (\<lambda>(name, tr). MessageSent name (EventMsg m)) targets)"
  proof (cases "isLocalSubject reg key")
    case True
    then show ?thesis using assms(1) by (simp add: handleEventMessage_def Let_def assms(2,3))
  next
    case False
    have noemit: "filter is_sent n = []"
      if "emit e d p \<lparr>eo_messageId = a, eo_correlationId = b, eo_transports = Some [], eo_connectionId = c\<rparr> sn t = (s', n, q)"
      for e d p a b c sn t s' n q
      using emit_locally_sends_nothing [of e d p "\<lparr>eo_messageId = a, eo_correlationId = b, eo_transports = None, eo_connectionId = c\<rparr>"]
        that by simp
    show ?thesis
      using False assms(1)
      by (cases "isCollectorOnlySubject reg key")
         (auto simp: handleEventMessage_def Let_def assms(2,3) getRelayTargets_def targets_def all
            split: option.splits prod.splits dest!: noemit)
  qed
  have "MessageSent source msg \<notin> set ns" for msg
  proof
    assume "MessageSent source msg \<in> set ns"
    then have "MessageSent source msg \<in> set (filter is_sent ns)" by simp
    then show False
      unfolding sent targets_def by (auto split: if_splits dest: getReadyTransports_excludes)
  qed
  moreover have "isLocalSubject reg key \<longrightarrow> ns = [] \<and> seen' = seen"
    using assms(1) by (auto simp: handleEventMessage_def Let_def assms(2,3))
  ultimately show ?thesis using sent by (auto simp: targets_def)
qed

section \<open>Relay of broadcasts\<close>

text \<open>
  Host-local request subjects and broadcasts: the relay of an inbound broadcast does not consult
  the host-local mark, so a broadcast for a subject registered as a host-local request is sent on to
  every other ready transport, unlike a plain request for the same subject.
\<close>

lemma host_local_broadcast_is_relayed:
  assumes "handleBroadcastMessage env source tr m seen now = (seen', ns, done)"
    and "namespaceRegistry (ig_ctx env now) = reg" and "full_subject (bm_namespace m) (bm_subject m) = key"
    and "isHostLocalRequestSubject reg key" and "\<not> isLocalSubject reg key"
    and "(name, peer) \<in> set (getReadyTransports (ig_ctx env now) (Some source) (Some (BroadcastMsg m)))"
  shows "MessageSent name (BroadcastMsg m) \<in> set ns"
proof -
  have "MessageSent name (BroadcastMsg m) \<in> set (map (\<lambda>(name, tr). MessageSent name (BroadcastMsg m))
      (getReadyTransports (ig_ctx env now) (Some source) (Some (BroadcastMsg m))))"
    using assms(6) by force
  then show ?thesis
    using assms(1,5)
    by (auto simp: handleBroadcastMessage_def Let_def assms(2,3) getRelayTargets_def split: prod.splits option.splits)
qed

section \<open>A concrete receiver\<close>

definition receiver_ctx :: "nat bus_context" where
  "receiver_ctx = demo_ctx\<lparr>
     registeredTransports := [(''tab'', snd (hd (registeredTransports demo_ctx))), (''ws'', snd (hd (registeredTransports demo_ctx)))],
     namespaceRegistry := createNamespaceRegistry\<lparr>nr_hostLocalRequestSubjects := [''ns.ping'']\<rparr>\<rparr>"

definition receiver :: "nat ingress_env" where
  "receiver = \<lparr>ig_ctx = (\<lambda>_. receiver_ctx), ig_dispatch = demo_env, ig_emit = emit_demo,
     ig_broadcast = \<lparr>be_ctx = (\<lambda>_. receiver_ctx), be_validation = \<lparr>ve_production = True, ve_safeParse = (\<lambda>_ _. None)\<rparr>,
       be_messageId = ''m'', be_correlationId = ''c'', be_handler = (\<lambda>_. BSetResult (JNum 1) BDone),
       be_send = (\<lambda>_ _. BroadcastReply 4 (Inr [(''peer'', JNum 2)]))\<rparr>\<rparr>"

definition ping_message :: request_message where
  "ping_message = \<lparr>rq_subject = ''ping'', rq_namespace = ''ns'', rq_payload = JNull, rq_correlationId = ''c'',
     rq_messageId = ''m'', rq_timeout = Some 100, rq_readinessTimeout = None, rq_priority = None, rq_deadline = Some 7\<rparr>"

definition ping_broadcast :: broadcast_message where
  "ping_broadcast = \<lparr>bm_subject = ''ping'', bm_namespace = ''ns'', bm_payload = JNull, bm_correlationId = ''c'',
     bm_messageId = ''m'', bm_timeout = None\<rparr>"

theorem inbound_request_answered_once_witness:
  "\<exists>r. answers ping_message ''tab'' (fst (snd (handleRequestMessage receiver ''tab'' ping_message at_start))) r"
proof -
  have "ee_send (ig_emit receiver) name msg now \<noteq> Rejects n e" for name msg now n e
    by (simp add: receiver_def emit_demo_def)
  then have "\<not> corrected receiver ping_message ''tab'' now ns" for now ns by (simp add: corrected_def)
  then show ?thesis
    using inbound_request_answered_once [of ping_message receiver "''tab''" at_start, OF _ triple_eta]
    by (auto simp: ping_message_def value_or_def)
qed

end
