(* ===== verification/Correlation_Tracker.thy ===== *)
theory Correlation_Tracker
  imports Bus_Errors JS_Collections
begin

text \<open>
  The correlation tracker of the transports (\<open>utils/correlation-tracker.ts\<close>): the map of pending
  requests, the timers and abort listeners that belong to them, and the calls of the promises'
  \<open>resolve\<close> and \<open>reject\<close> functions. The state keeps every call in \<open>settlements\<close>, also one that
  JavaScript would ignore because the promise is settled already, so that calling twice is visible.
  The step relation interleaves the operations with the callbacks of timers and abort signals. An
  identifier may be tracked again at any time: while a request with it is pending, the new entry
  overwrites the old one, whose promise is then lost; the steps collect the lost promises.
\<close>

section \<open>State\<close>

type_synonym promise = nat

datatype settlement = Resolved js_value | Rejected thrown

record pending_request =
  pr_promise :: promise
  pr_timeoutId :: "nat option"
  pr_listener :: "nat option"

record tracker =
  tk_pending :: "(ident, pending_request) js_map"
  tk_timers :: "(nat, ident \<times> millis) js_map"
  tk_listeners :: "(nat, ident) js_map"
  tk_settlements :: "(promise \<times> settlement) list"
  tk_next :: nat

definition new_tracker :: tracker where
  "new_tracker = \<lparr> tk_pending = [], tk_timers = [], tk_listeners = [], tk_settlements = [],
     tk_next = 0 \<rparr>"

section \<open>Operations\<close>

definition call_settle :: "promise \<Rightarrow> settlement \<Rightarrow> tracker \<Rightarrow> tracker" where
  "call_settle p o' t = t\<lparr> tk_settlements := tk_settlements t @ [(p, o')] \<rparr>"

definition clear_timeout :: "nat option \<Rightarrow> tracker \<Rightarrow> tracker" where
  "clear_timeout i t =
     (case i of None \<Rightarrow> t | Some n \<Rightarrow> t\<lparr> tk_timers := map_delete n (tk_timers t) \<rparr>)"

definition remove_listener :: "nat option \<Rightarrow> tracker \<Rightarrow> tracker" where
  "remove_listener i t =
     (case i of None \<Rightarrow> t | Some n \<Rightarrow> t\<lparr> tk_listeners := map_delete n (tk_listeners t) \<rparr>)"

text \<open>
  The common body of \<open>resolve\<close>, \<open>reject\<close> and the timer callback: nothing for an unknown identifier,
  otherwise clear the timeout, remove the abort listener, delete the entry and settle the promise.
\<close>

definition finish_pending :: "ident \<Rightarrow> settlement \<Rightarrow> tracker \<Rightarrow> tracker" where
  "finish_pending cid o' t =
     (case map_get (tk_pending t) cid of
        None \<Rightarrow> t
      | Some p \<Rightarrow>
          let t1 = remove_listener (pr_listener p) (clear_timeout (pr_timeoutId p) t);
              t2 = t1\<lparr> tk_pending := map_delete cid (tk_pending t1) \<rparr>
          in call_settle (pr_promise p) o' t2)"

definition tracker_resolve :: "ident \<Rightarrow> js_value \<Rightarrow> tracker \<Rightarrow> tracker" where
  "tracker_resolve cid result t = finish_pending cid (Resolved result) t"

definition tracker_reject :: "ident \<Rightarrow> thrown \<Rightarrow> tracker \<Rightarrow> tracker" where
  "tracker_reject cid err t = finish_pending cid (Rejected err) t"

definition tracker_cancel :: "ident \<Rightarrow> thrown option \<Rightarrow> tracker \<Rightarrow> tracker" where
  "tracker_cancel cid err t =
     tracker_reject cid
       (case err of Some e \<Rightarrow> e | None \<Rightarrow> toAbortError (ThrownValue JUndefined)) t"

text \<open>
  \<open>track\<close>: \<open>signal\<close> is \<open>None\<close> without a signal; otherwise its reason, whether it is aborted at the
  first check and whether it is at the second. The new promise, timer and listener share a number.
\<close>

definition track ::
  "ident \<Rightarrow> millis \<Rightarrow> (thrown \<times> bool \<times> bool) option \<Rightarrow> tracker \<Rightarrow> promise \<times> tracker" where
  "track cid timeout signal t =
     (let n = tk_next t; t0 = t\<lparr> tk_next := n + 1 \<rparr> in
      (n, case signal of
         Some (reason, True, _) \<Rightarrow> call_settle n (Rejected (toAbortError reason)) t0
       | _ \<Rightarrow>
           let timeoutId = (if timeout = 0 then None else Some n);
               t1 = (if timeout = 0 then t0
                     else t0\<lparr> tk_timers := map_set n (cid, timeout) (tk_timers t0) \<rparr>);
               listener = (case signal of None \<Rightarrow> None | Some _ \<Rightarrow> Some n);
               t2 = t1\<lparr> tk_pending := map_set cid
                      \<lparr> pr_promise = n, pr_timeoutId = timeoutId, pr_listener = listener \<rparr>
                      (tk_pending t1) \<rparr>
           in (case signal of
                 None \<Rightarrow> t2
               | Some (reason, _, aborted2) \<Rightarrow>
                   let t3 = t2\<lparr> tk_listeners := map_set n cid (tk_listeners t2) \<rparr>
                   in if aborted2 then tracker_reject cid (toAbortError reason) t3 else t3)))"

text \<open>The callbacks: a timer that fires is gone, and so is a listener registered with \<open>once\<close>.\<close>

definition timer_fires :: "nat \<Rightarrow> tracker \<Rightarrow> tracker" where
  "timer_fires n t =
     (case map_get (tk_timers t) n of
        None \<Rightarrow> t
      | Some (cid, timeout) \<Rightarrow>
          finish_pending cid (Rejected (TimeoutError cid timeout))
            (t\<lparr> tk_timers := map_delete n (tk_timers t) \<rparr>))"

definition abort_fires :: "nat \<Rightarrow> thrown \<Rightarrow> tracker \<Rightarrow> tracker" where
  "abort_fires n reason t =
     (case map_get (tk_listeners t) n of
        None \<Rightarrow> t
      | Some cid \<Rightarrow>
          tracker_reject cid (toAbortError reason)
            (t\<lparr> tk_listeners := map_delete n (tk_listeners t) \<rparr>))"

definition reject_entry :: "thrown \<Rightarrow> pending_request \<Rightarrow> tracker \<Rightarrow> tracker" where
  "reject_entry err p t =
     call_settle (pr_promise p) (Rejected err)
       (remove_listener (pr_listener p) (clear_timeout (pr_timeoutId p) t))"

definition rejectAll :: "thrown \<Rightarrow> tracker \<Rightarrow> tracker" where
  "rejectAll err t =
     (fold (reject_entry err) (map snd (tk_pending t)) t)\<lparr> tk_pending := [] \<rparr>"

definition tracker_cleanup :: "tracker \<Rightarrow> tracker" where
  "tracker_cleanup = rejectAll (ErrorObj None C_Error ''Transport disconnected'' [] None)"

section \<open>Steps\<close>

text \<open>
  The promise whose entry a call of \<open>track\<close> overwrites: the one pending under the same identifier,
  unless the signal is aborted already at the first check.
\<close>

definition overwritten :: "ident \<Rightarrow> (thrown \<times> bool \<times> bool) option \<Rightarrow> tracker \<Rightarrow> promise set" where
  "overwritten cid signal t =
     (case signal of
        Some (_, True, _) \<Rightarrow> {}
      | _ \<Rightarrow> (case map_get (tk_pending t) cid of None \<Rightarrow> {} | Some e \<Rightarrow> {pr_promise e}))"

inductive tracker_step :: "tracker \<Rightarrow> promise set \<Rightarrow> tracker \<Rightarrow> promise set \<Rightarrow> bool" where
  ts_track: "tracker_step t L (snd (track cid timeout signal t)) (overwritten cid signal t \<union> L)"
| ts_resolve: "tracker_step t L (tracker_resolve cid result t) L"
| ts_reject: "tracker_step t L (tracker_reject cid err t) L"
| ts_cancel: "tracker_step t L (tracker_cancel cid err' t) L"
| ts_timer: "tracker_step t L (timer_fires n t) L"
| ts_abort: "tracker_step t L (abort_fires n reason t) L"
| ts_rejectAll: "tracker_step t L (rejectAll err t) L"
| ts_cleanup: "tracker_step t L (tracker_cleanup t) L"

inductive tracker_reach :: "tracker \<Rightarrow> promise set \<Rightarrow> bool" where
  tr_new: "tracker_reach new_tracker {}"
| tr_step: "tracker_reach t L \<Longrightarrow> tracker_step t L t' L' \<Longrightarrow> tracker_reach t' L'"

section \<open>Invariant\<close>

definition pending_promises :: "tracker \<Rightarrow> promise set" where
  "pending_promises t = {p. \<exists>cid e. map_get (tk_pending t) cid = Some e \<and> pr_promise e = p}"

definition settled_promises :: "tracker \<Rightarrow> promise set" where
  "settled_promises t = fst ` set (tk_settlements t)"

definition tracker_owned :: "tracker \<Rightarrow> bool" where
  "tracker_owned t \<longleftrightarrow>
     (\<forall>cid e. map_get (tk_pending t) cid = Some e \<longrightarrow>
        pr_timeoutId e \<in> {None, Some (pr_promise e)} \<and> pr_listener e \<in> {None, Some (pr_promise e)}) \<and>
     (\<forall>c1 e1 c2 e2. map_get (tk_pending t) c1 = Some e1 \<longrightarrow> map_get (tk_pending t) c2 = Some e2 \<longrightarrow>
        pr_promise e1 = pr_promise e2 \<longrightarrow> c1 = c2)"

text \<open>
  Every pending entry with a timeout or a signal has its timer or listener alive, and a live timer or
  listener belongs to a pending entry or to a lost promise.
\<close>

definition tracker_timers_ok :: "promise set \<Rightarrow> tracker \<Rightarrow> bool" where
  "tracker_timers_ok L t \<longleftrightarrow>
     (\<forall>cid e n. map_get (tk_pending t) cid = Some e \<longrightarrow> pr_timeoutId e = Some n \<longrightarrow>
        (\<exists>ms. map_get (tk_timers t) n = Some (cid, ms))) \<and>
     (\<forall>n cid ms. map_get (tk_timers t) n = Some (cid, ms) \<longrightarrow> n \<in> L \<or>
        (\<exists>e. map_get (tk_pending t) cid = Some e \<and> pr_timeoutId e = Some n))"

definition tracker_listeners_ok :: "promise set \<Rightarrow> tracker \<Rightarrow> bool" where
  "tracker_listeners_ok L t \<longleftrightarrow>
     (\<forall>cid e n. map_get (tk_pending t) cid = Some e \<longrightarrow> pr_listener e = Some n \<longrightarrow>
        map_get (tk_listeners t) n = Some cid) \<and>
     (\<forall>n cid. map_get (tk_listeners t) n = Some cid \<longrightarrow> n \<in> L \<or>
        (\<exists>e. map_get (tk_pending t) cid = Some e \<and> pr_listener e = Some n))"

definition tracker_settled_ok :: "promise set \<Rightarrow> tracker \<Rightarrow> bool" where
  "tracker_settled_ok L t \<longleftrightarrow>
     distinct (map fst (tk_settlements t)) \<and>
     settled_promises t \<inter> pending_promises t = {} \<and> L \<inter> (settled_promises t \<union> pending_promises t) = {} \<and>
     settled_promises t \<union> pending_promises t \<union> L = {..<tk_next t}"

definition tracker_inv :: "promise set \<Rightarrow> tracker \<Rightarrow> bool" where
  "tracker_inv L t \<longleftrightarrow> map_wf (tk_pending t) \<and> tracker_owned t \<and> tracker_timers_ok L t \<and>
     tracker_listeners_ok L t \<and> tracker_settled_ok L t"

lemmas tracker_inv_defs = tracker_inv_def tracker_owned_def tracker_timers_ok_def
  tracker_listeners_ok_def tracker_settled_ok_def pending_promises_def settled_promises_def

lemma tracker_inv_new: "tracker_inv {} new_tracker"
  by (simp add: tracker_inv_defs new_tracker_def lessThan_def)

lemma map_get_delete_opt:
  "map_get (case i of None \<Rightarrow> m | Some n \<Rightarrow> map_delete n m) k =
     (if Some k = i then None else map_get m k)"
  by (cases i) (auto simp: js_simps)

lemma finish_pending_fields:
  assumes "map_get (tk_pending t) cid = Some e"
  shows "tk_pending (finish_pending cid o' t) = map_delete cid (tk_pending t)"
    and "tk_timers (finish_pending cid o' t) =
           (case pr_timeoutId e of None \<Rightarrow> tk_timers t | Some n \<Rightarrow> map_delete n (tk_timers t))"
    and "tk_listeners (finish_pending cid o' t) =
           (case pr_listener e of None \<Rightarrow> tk_listeners t | Some n \<Rightarrow> map_delete n (tk_listeners t))"
    and "tk_settlements (finish_pending cid o' t) = tk_settlements t @ [(pr_promise e, o')]"
    and "tk_next (finish_pending cid o' t) = tk_next t"
  using assms by (simp_all add: finish_pending_def call_settle_def remove_listener_def
      clear_timeout_def Let_def split: option.splits)

lemma finish_pending_none: "map_get (tk_pending t) cid = None \<Longrightarrow> finish_pending cid o' t = t"
  by (simp add: finish_pending_def)

lemma owned_unique:
  "tracker_owned t \<Longrightarrow> map_get (tk_pending t) c1 = Some e1 \<Longrightarrow> map_get (tk_pending t) c2 = Some e2 \<Longrightarrow>
     pr_promise e1 = pr_promise e2 \<Longrightarrow> c1 = c2"
  unfolding tracker_owned_def by blast

lemma pending_promises_delete:
  assumes own: "tracker_owned t" and e: "map_get (tk_pending t) cid = Some e"
    and t': "tk_pending t' = map_delete cid (tk_pending t)"
  shows "pending_promises t' = pending_promises t - {pr_promise e}"
proof -
  have get: "map_get (tk_pending t') c = (if c = cid then None else map_get (tk_pending t) c)" for c
    by (simp add: t' js_simps)
  have "p \<in> pending_promises t' \<longleftrightarrow> p \<in> pending_promises t \<and> p \<noteq> pr_promise e" for p
  proof
    assume "p \<in> pending_promises t'"
    then obtain c e' where "c \<noteq> cid" "map_get (tk_pending t) c = Some e'" "pr_promise e' = p"
      by (auto simp: pending_promises_def get split: if_splits)
    with owned_unique [OF own _ e] show "p \<in> pending_promises t \<and> p \<noteq> pr_promise e"
      by (auto simp: pending_promises_def)
  next
    assume "p \<in> pending_promises t \<and> p \<noteq> pr_promise e"
    then obtain c e' where "map_get (tk_pending t) c = Some e'" "pr_promise e' = p"
      and "p \<noteq> pr_promise e"
      by (auto simp: pending_promises_def)
    moreover from this e have "c \<noteq> cid" by auto
    ultimately show "p \<in> pending_promises t'" by (auto simp: pending_promises_def get)
  qed
  then show ?thesis by blast
qed

lemma owned_ids:
  "tracker_owned t \<Longrightarrow> map_get (tk_pending t) cid = Some e \<Longrightarrow> pr_timeoutId e = Some n \<Longrightarrow> n = pr_promise e"
  "tracker_owned t \<Longrightarrow> map_get (tk_pending t) cid = Some e \<Longrightarrow> pr_listener e = Some n \<Longrightarrow> n = pr_promise e"
  unfolding tracker_owned_def by fastforce+

lemma finish_pending_inv:
  assumes "tracker_inv L t"
  shows "tracker_inv L (finish_pending cid o' t)"
proof (cases "map_get (tk_pending t) cid")
  case None
  with assms show ?thesis by (simp add: finish_pending_none)
next
  case (Some e)
  let ?t = "finish_pending cid o' t"
  note f = finish_pending_fields [OF Some, of o']
  have own: "tracker_owned t" and tim: "tracker_timers_ok L t" and lis: "tracker_listeners_ok L t"
    and settled: "tracker_settled_ok L t" using assms by (simp_all add: tracker_inv_def)
  have pp: "pending_promises ?t = pending_promises t - {pr_promise e}"
    by (rule pending_promises_delete [OF own Some f(1)])
  have pe: "pr_promise e \<in> pending_promises t" using Some by (auto simp: pending_promises_def)
  have sp: "settled_promises ?t = insert (pr_promise e) (settled_promises t)"
    by (auto simp: settled_promises_def f)
  have "tracker_settled_ok L ?t"
    using settled pe unfolding tracker_settled_ok_def pp sp
    by (auto simp: f settled_promises_def)
  moreover have "tracker_owned ?t"
    using own unfolding tracker_owned_def f by (auto simp: js_simps split: if_splits)
  moreover have same: "c = cid" if "map_get (tk_pending t) c = Some e'"
      and "pr_timeoutId e' = Some n \<and> pr_timeoutId e = Some n \<or>
           pr_listener e' = Some n \<and> pr_listener e = Some n" for c e' n
    using that owned_unique [OF own that(1) Some] owned_ids [OF own that(1)] owned_ids [OF own Some] by metis
  have "tracker_timers_ok L ?t"
    using tim same unfolding tracker_timers_ok_def f map_get_delete_opt
    by (auto simp: js_simps Some split: if_splits) (metis Some option.inject)+
  moreover have "tracker_listeners_ok L ?t"
    using lis same unfolding tracker_listeners_ok_def f map_get_delete_opt
    by (auto simp: js_simps Some split: if_splits) (metis Some option.inject)+
  moreover have "map_wf (tk_pending ?t)" using assms by (simp add: f tracker_inv_def js_simps)
  ultimately show ?thesis by (simp add: tracker_inv_def)
qed

text \<open>
  A live timer or listener belongs to the entry that its callback will look up, or it is the timer or
  listener of a lost promise; dropping such a one keeps the invariant.
\<close>

lemma timer_fires_finish:
  assumes "map_get (tk_timers t) n = Some (cid, ms)" and "map_get (tk_pending t) cid = Some e" "pr_timeoutId e = Some n"
  shows "timer_fires n t = finish_pending cid (Rejected (TimeoutError cid ms)) t"
  using assms by (auto simp: timer_fires_def finish_pending_def clear_timeout_def map_delete_def)

lemma abort_fires_finish:
  assumes "map_get (tk_listeners t) n = Some cid" and "map_get (tk_pending t) cid = Some e" "pr_listener e = Some n"
  shows "abort_fires n reason t = finish_pending cid (Rejected (toAbortError reason)) t"
  using assms by (auto simp: abort_fires_def tracker_reject_def finish_pending_def clear_timeout_def
        remove_listener_def map_delete_def call_settle_def intro!: tracker.equality split: option.splits)

lemma lost_not_owner:
  assumes "tracker_inv L t" and "n \<in> L" and "map_get (tk_pending t) cid = Some e"
  shows "pr_timeoutId e \<noteq> Some n" and "pr_listener e \<noteq> Some n"
proof -
  have "pr_promise e \<in> pending_promises t" using assms(3) by (auto simp: pending_promises_def)
  then have "pr_promise e \<noteq> n" using assms(1,2) by (auto simp: tracker_inv_def tracker_settled_ok_def)
  then show "pr_timeoutId e \<noteq> Some n" and "pr_listener e \<noteq> Some n"
    using owned_ids [OF _ assms(3)] assms(1) by (auto simp: tracker_inv_def)
qed

lemma drop_lost_inv:
  assumes "tracker_inv L t" and "n \<in> L"
  shows "tracker_inv L (t\<lparr> tk_timers := map_delete n (tk_timers t) \<rparr>)"
    and "tracker_inv L (t\<lparr> tk_listeners := map_delete n (tk_listeners t) \<rparr>)"
  using assms(1) lost_not_owner [OF assms]
  by (fastforce simp: tracker_inv_defs js_simps split: if_splits)+

lemma timer_fires_inv:
  assumes "tracker_inv L t"
  shows "tracker_inv L (timer_fires n t)"
proof (cases "map_get (tk_timers t) n")
  case (Some x)
  obtain cid ms where x: "x = (cid, ms)" by fastforce
  show ?thesis
  proof (cases "n \<in> L")
    case True
    then show ?thesis
      using finish_pending_inv [OF drop_lost_inv(1) [OF assms True]] Some by (simp add: timer_fires_def x)
  next
    case False
    then obtain e where "map_get (tk_pending t) cid = Some e" "pr_timeoutId e = Some n"
      using assms Some unfolding tracker_inv_def tracker_timers_ok_def x by blast
    then show ?thesis using timer_fires_finish [OF Some [unfolded x]] finish_pending_inv [OF assms] by simp
  qed
qed (use assms in \<open>simp add: timer_fires_def\<close>)

lemma abort_fires_inv:
  assumes "tracker_inv L t"
  shows "tracker_inv L (abort_fires n reason t)"
proof (cases "map_get (tk_listeners t) n")
  case (Some cid)
  show ?thesis
  proof (cases "n \<in> L")
    case True
    then show ?thesis
      using finish_pending_inv [OF drop_lost_inv(2) [OF assms True]] Some by (simp add: abort_fires_def tracker_reject_def)
  next
    case False
    then obtain e where "map_get (tk_pending t) cid = Some e" "pr_listener e = Some n"
      using assms Some unfolding tracker_inv_def tracker_listeners_ok_def by blast
    then show ?thesis using abort_fires_finish [OF Some] finish_pending_inv [OF assms] by simp
  qed
qed (use assms in \<open>simp add: abort_fires_def\<close>)

lemma reject_entry_fields:
  "tk_timers (reject_entry err p t) = filter (\<lambda>e. Some (fst e) \<noteq> pr_timeoutId p) (tk_timers t)"
  "tk_listeners (reject_entry err p t) = filter (\<lambda>e. Some (fst e) \<noteq> pr_listener p) (tk_listeners t)"
  "tk_settlements (reject_entry err p t) = tk_settlements t @ [(pr_promise p, Rejected err)]"
  "tk_next (reject_entry err p t) = tk_next t"
  by (simp_all add: reject_entry_def call_settle_def remove_listener_def clear_timeout_def
      map_delete_def split: option.splits)

lemma fold_reject_entry:
  "tk_timers (fold (reject_entry err) ps t) =
     filter (\<lambda>e. Some (fst e) \<notin> pr_timeoutId ` set ps) (tk_timers t)"
  "tk_listeners (fold (reject_entry err) ps t) =
     filter (\<lambda>e. Some (fst e) \<notin> pr_listener ` set ps) (tk_listeners t)"
  "tk_settlements (fold (reject_entry err) ps t) =
     tk_settlements t @ map (\<lambda>p. (pr_promise p, Rejected err)) ps"
  "tk_next (fold (reject_entry err) ps t) = tk_next t"
  by (induction ps arbitrary: t) (simp_all add: reject_entry_fields conj_commute)

lemma map_get_filter_key:
  "map_get (filter (\<lambda>e. Some (fst e) \<notin> X) m) k = (if Some k \<in> X then None else map_get m k)"
  unfolding map_get_def by (induction m) auto

lemma rejectAll_fields:
  shows "tk_pending (rejectAll err t) = []"
    and "map_get (tk_timers (rejectAll err t)) n =
           (if Some n \<in> pr_timeoutId ` snd ` set (tk_pending t) then None else map_get (tk_timers t) n)"
    and "map_get (tk_listeners (rejectAll err t)) n =
           (if Some n \<in> pr_listener ` snd ` set (tk_pending t) then None else map_get (tk_listeners t) n)"
    and "tk_next (rejectAll err t) = tk_next t"
    and "tk_settlements (rejectAll err t) =
           tk_settlements t @ map (\<lambda>e. (pr_promise (snd e), Rejected err)) (tk_pending t)"
  by (simp_all add: rejectAll_def fold_reject_entry map_get_filter_key)

lemma rejectAll_lost:
  assumes "tracker_inv L t"
  shows "map_get (tk_timers (rejectAll err t)) n \<noteq> None \<Longrightarrow> n \<in> L"
    and "map_get (tk_listeners (rejectAll err t)) n \<noteq> None \<Longrightarrow> n \<in> L"
proof -
  have owner: "f e \<in> f ` snd ` set (tk_pending t)" if "map_get (tk_pending t) c = Some e"
    for c e and f :: "pending_request \<Rightarrow> nat option"
    using map_get_mem [OF that] by force
  show "n \<in> L" if "map_get (tk_timers (rejectAll err t)) n \<noteq> None"
  proof (rule ccontr)
    assume "n \<notin> L"
    with that assms obtain c e where "map_get (tk_pending t) c = Some e" "pr_timeoutId e = Some n"
      unfolding tracker_inv_def tracker_timers_ok_def rejectAll_fields by (auto split: if_splits) metis
    with owner [of c e pr_timeoutId] that show False by (simp add: rejectAll_fields)
  qed
  show "n \<in> L" if "map_get (tk_listeners (rejectAll err t)) n \<noteq> None"
  proof (rule ccontr)
    assume "n \<notin> L"
    with that assms obtain c e where "map_get (tk_pending t) c = Some e" "pr_listener e = Some n"
      unfolding tracker_inv_def tracker_listeners_ok_def rejectAll_fields by (auto split: if_splits) metis
    with owner [of c e pr_listener] that show False by (simp add: rejectAll_fields)
  qed
qed

lemma rejectAll_inv: "tracker_inv L t \<Longrightarrow> tracker_inv L (rejectAll err t)"
proof -
  assume inv: "tracker_inv L t"
  note f = rejectAll_fields [of err t]
  have wf: "map_wf (tk_pending t)" and own: "tracker_owned t" and settled: "tracker_settled_ok L t"
    using inv by (simp_all add: tracker_inv_def)
  have dist: "distinct (map (\<lambda>e. pr_promise (snd e)) (tk_pending t))"
  proof -
    have "inj_on (\<lambda>e. pr_promise (snd e)) (set (tk_pending t))"
    proof (rule inj_onI)
      fix x y assume xy: "x \<in> set (tk_pending t)" "y \<in> set (tk_pending t)"
        "pr_promise (snd x) = pr_promise (snd y)"
      have "fst x = fst y"
        using owned_unique [OF own mem_map_get [OF wf] mem_map_get [OF wf] xy(3)] xy(1,2)
        by (metis prod.collapse)
      with xy wf show "x = y" by (metis mem_map_get option.inject prod.collapse)
    qed
    then show ?thesis using wf by (simp add: distinct_map map_wf_def)
  qed
  have pend: "(\<lambda>e. pr_promise (snd e)) ` set (tk_pending t) = pending_promises t"
    using wf by (force simp: pending_promises_def dest: mem_map_get map_get_mem)
  have "settled_promises (rejectAll err t) = settled_promises t \<union> pending_promises t"
    by (auto simp: settled_promises_def f image_Un image_image pend [symmetric])
  then have "tracker_settled_ok L (rejectAll err t)"
    using settled dist pend unfolding tracker_settled_ok_def
    by (auto simp: f pending_promises_def settled_promises_def comp_def)
  moreover have "tracker_timers_ok L (rejectAll err t)" "tracker_listeners_ok L (rejectAll err t)"
    using rejectAll_lost [OF inv] by (auto simp: tracker_timers_ok_def tracker_listeners_ok_def f(1))
  ultimately show ?thesis by (simp add: tracker_inv_def tracker_owned_def f(1))
qed

text \<open>Before the second check of the signal, \<open>track\<close> has added one entry under a fresh number.\<close>

definition tracked_entry :: "ident \<Rightarrow> millis \<Rightarrow> bool \<Rightarrow> tracker \<Rightarrow> tracker" where
  "tracked_entry cid timeout listening t =
     t\<lparr> tk_next := tk_next t + 1,
        tk_timers := (if timeout = 0 then tk_timers t
                      else map_set (tk_next t) (cid, timeout) (tk_timers t)),
        tk_pending := map_set cid \<lparr> pr_promise = tk_next t,
            pr_timeoutId = (if timeout = 0 then None else Some (tk_next t)),
            pr_listener = (if listening then Some (tk_next t) else None) \<rparr> (tk_pending t),
        tk_listeners := (if listening then map_set (tk_next t) cid (tk_listeners t)
                         else tk_listeners t) \<rparr>"

lemma snd_track:
  "snd (track cid timeout signal t) =
     (case signal of
        None \<Rightarrow> tracked_entry cid timeout False t
      | Some (reason, True, _) \<Rightarrow>
          call_settle (tk_next t) (Rejected (toAbortError reason)) (t\<lparr> tk_next := tk_next t + 1 \<rparr>)
      | Some (reason, False, False) \<Rightarrow> tracked_entry cid timeout True t
      | Some (reason, False, True) \<Rightarrow>
          finish_pending cid (Rejected (toAbortError reason)) (tracked_entry cid timeout True t))"
  by (simp add: track_def tracked_entry_def tracker_reject_def Let_def split: option.split bool.split)

lemma inv_bounds:
  assumes "tracker_inv L t"
  shows "map_get (tk_pending t) c = Some e \<Longrightarrow>
      pr_promise e < tk_next t \<and> pr_timeoutId e \<noteq> Some (tk_next t) \<and> pr_listener e \<noteq> Some (tk_next t)"
    and "map_get (tk_timers t) (tk_next t) = None" and "map_get (tk_listeners t) (tk_next t) = None"
proof -
  have own: "tracker_owned t" and tim: "tracker_timers_ok L t" and lis: "tracker_listeners_ok L t"
    and settled: "tracker_settled_ok L t" using assms by (simp_all add: tracker_inv_def)
  have lt: "pr_promise e < tk_next t" if "map_get (tk_pending t) c = Some e" for c e
    using settled that unfolding tracker_settled_ok_def pending_promises_def lessThan_iff [symmetric] by blast
  have ids: "pr_timeoutId e \<noteq> Some (tk_next t) \<and> pr_listener e \<noteq> Some (tk_next t)"
    if "map_get (tk_pending t) c = Some e" for c e
    using owned_ids [OF own that] lt [OF that] by auto
  then show "map_get (tk_pending t) c = Some e \<Longrightarrow>
      pr_promise e < tk_next t \<and> pr_timeoutId e \<noteq> Some (tk_next t) \<and> pr_listener e \<noteq> Some (tk_next t)"
    using lt by blast
  have "tk_next t \<notin> L" using settled by (auto simp: tracker_settled_ok_def)
  then show "map_get (tk_timers t) (tk_next t) = None" and "map_get (tk_listeners t) (tk_next t) = None"
    using tim lis ids unfolding tracker_timers_ok_def tracker_listeners_ok_def by (metis not_None_eq surj_pair)+
qed

definition entry_promises :: "ident \<Rightarrow> tracker \<Rightarrow> promise set" where
  "entry_promises cid t = (case map_get (tk_pending t) cid of None \<Rightarrow> {} | Some e \<Rightarrow> {pr_promise e})"

lemma tracked_entry_pending:
  assumes "tracker_owned t" and "tk_next t \<notin> pending_promises t"
  shows "pending_promises (tracked_entry cid timeout l t) = insert (tk_next t) (pending_promises t - entry_promises cid t)"
proof -
  let ?t = "tracked_entry cid timeout l t"
  have get: "map_get (tk_pending ?t) c =
      (if c = cid then Some \<lparr> pr_promise = tk_next t,
            pr_timeoutId = (if timeout = 0 then None else Some (tk_next t)),
            pr_listener = (if l then Some (tk_next t) else None) \<rparr>
       else map_get (tk_pending t) c)" for c
    by (simp add: tracked_entry_def js_simps)
  have "p \<in> pending_promises ?t" if "p \<in> pending_promises t" "p \<notin> entry_promises cid t" for p
  proof -
    from that obtain c e where ce: "map_get (tk_pending t) c = Some e" "pr_promise e = p"
      by (auto simp: pending_promises_def)
    with that(2) have "c \<noteq> cid" by (auto simp: entry_promises_def)
    with ce show ?thesis by (auto simp: pending_promises_def get)
  qed
  moreover have "tk_next t \<in> pending_promises ?t" by (auto simp: pending_promises_def get)
  moreover have "p = tk_next t \<or> p \<in> pending_promises t - entry_promises cid t" if "p \<in> pending_promises ?t" for p
  proof -
    from that obtain c e where ce: "map_get (tk_pending ?t) c = Some e" "pr_promise e = p"
      by (auto simp: pending_promises_def)
    show ?thesis
    proof (cases "c = cid")
      case False
      then have "map_get (tk_pending t) c = Some e" using ce(1) by (simp add: get)
      then show ?thesis
        using ce(2) False owned_unique [OF assms(1), of c e cid]
        by (auto simp: pending_promises_def entry_promises_def split: option.splits)
    qed (use ce in \<open>auto simp: get\<close>)
  qed
  ultimately show ?thesis by blast
qed

lemma tracked_entry_inv:
  assumes inv: "tracker_inv L t"
  shows "tracker_inv (entry_promises cid t \<union> L) (tracked_entry cid timeout l t)"
proof -
  let ?t = "tracked_entry cid timeout l t"
  note b = inv_bounds [OF inv]
  have own: "tracker_owned t" and tim: "tracker_timers_ok L t" and lis: "tracker_listeners_ok L t"
    and settled: "tracker_settled_ok L t" and wf: "map_wf (tk_pending t)"
    using inv by (simp_all add: tracker_inv_def)
  have next_free: "tk_next t \<notin> settled_promises t \<union> pending_promises t \<union> L"
    using settled by (simp add: tracker_settled_ok_def)
  have over: "entry_promises cid t \<subseteq> pending_promises t"
    by (auto simp: entry_promises_def pending_promises_def split: option.splits)
  have pp: "pending_promises ?t = insert (tk_next t) (pending_promises t - entry_promises cid t)"
    by (rule tracked_entry_pending [OF own]) (use next_free in blast)
  have sp: "settled_promises ?t = settled_promises t" "tk_settlements ?t = tk_settlements t" "tk_next ?t = Suc (tk_next t)"
    by (simp_all add: tracked_entry_def settled_promises_def)
  have "insert (tk_next t) (settled_promises t \<union> pending_promises t \<union> L) = {..<Suc (tk_next t)}"
    using settled by (simp add: tracker_settled_ok_def lessThan_Suc)
  then have "tracker_settled_ok (entry_promises cid t \<union> L) ?t"
    using settled next_free over unfolding tracker_settled_ok_def pp sp by blast
  moreover have "pr_promise e \<noteq> tk_next t \<and> tk_next t \<noteq> pr_promise e"
    if "map_get (tk_pending t) c = Some e" for c e
    using b(1) [OF that] by simp
  then have "tracker_owned ?t"
    using own unfolding tracker_owned_def
    by (auto simp: tracked_entry_def js_simps split: if_splits)
  moreover have old: "pr_promise e \<in> entry_promises cid t" if "map_get (tk_pending t) cid = Some e" for e
    using that by (simp add: entry_promises_def)
  have "tracker_timers_ok (entry_promises cid t \<union> L) ?t"
    using tim b old owned_ids(1) [OF own] unfolding tracker_timers_ok_def
    by (auto simp: tracked_entry_def js_simps split: if_splits) metis+
  moreover have "tracker_listeners_ok (entry_promises cid t \<union> L) ?t"
    using lis b old owned_ids(2) [OF own] unfolding tracker_listeners_ok_def
    by (auto simp: tracked_entry_def js_simps split: if_splits) metis+
  moreover have "map_wf (tk_pending ?t)" using wf by (simp add: tracked_entry_def js_simps)
  ultimately show ?thesis by (simp add: tracker_inv_def)
qed

lemma settle_fresh_inv:
  assumes "tracker_inv L t"
  shows "tracker_inv L (call_settle (tk_next t) o' (t\<lparr> tk_next := tk_next t + 1 \<rparr>))"
proof -
  let ?t = "call_settle (tk_next t) o' (t\<lparr> tk_next := tk_next t + 1 \<rparr>)"
  have settled: "tracker_settled_ok L t" using assms by (simp add: tracker_inv_def)
  have next_free: "tk_next t \<notin> settled_promises t \<union> pending_promises t \<union> L"
    using settled by (simp add: tracker_settled_ok_def)
  have eqs: "settled_promises ?t = insert (tk_next t) (settled_promises t)"
    "pending_promises ?t = pending_promises t"
    by (auto simp: call_settle_def settled_promises_def pending_promises_def)
  have "tracker_settled_ok L ?t"
    using settled next_free unfolding tracker_settled_ok_def eqs
    by (auto simp: call_settle_def settled_promises_def lessThan_Suc)
  with assms show ?thesis
    by (simp add: tracker_inv_def tracker_owned_def tracker_timers_ok_def tracker_listeners_ok_def
        call_settle_def)
qed

lemma track_inv:
  assumes "tracker_inv L t"
  shows "tracker_inv (overwritten cid signal t \<union> L) (snd (track cid timeout signal t))"
  unfolding snd_track overwritten_def entry_promises_def [symmetric]
  using tracked_entry_inv [OF assms] finish_pending_inv [OF tracked_entry_inv [OF assms]]
    settle_fresh_inv [OF assms]
  by (simp split: option.split bool.split)

lemma tracker_step_inv: "tracker_step t L t' L' \<Longrightarrow> tracker_inv L t \<Longrightarrow> tracker_inv L' t'"
  by (induction rule: tracker_step.induct)
    (simp_all add: track_inv finish_pending_inv timer_fires_inv abort_fires_inv rejectAll_inv
      tracker_resolve_def tracker_reject_def tracker_cancel_def tracker_cleanup_def)

lemma tracker_reach_inv: "tracker_reach t L \<Longrightarrow> tracker_inv L t"
  by (induction rule: tracker_reach.induct) (auto simp: tracker_inv_new tracker_step_inv)

section \<open>What the tracker promises\<close>

text \<open>
  C25. In every reachable state of the correlation tracker, whatever the interleaving of tracked
  requests, responses, rejections, cancellations, timeouts, aborts and disconnections: no promise is
  settled twice; every promise handed out is exactly one of settled, pending and lost, where a promise
  is lost only when its identifier is tracked again while it is pending (\<open>track\<close> overwrites the entry;
  with identifiers that are not reused while pending none is lost). A pending entry that asked for a
  timeout or an abort listener has it alive under its own identifier, and a timer or listener that
  belongs to no pending entry is that of a lost promise, so none leaks otherwise.
\<close>

theorem tracker_settles_once:
  assumes "tracker_reach t lost"
  shows "distinct (map fst (tk_settlements t)) \<and>
    settled_promises t \<union> pending_promises t \<union> lost = {..<tk_next t} \<and>
    settled_promises t \<inter> pending_promises t = {} \<and> lost \<inter> (settled_promises t \<union> pending_promises t) = {} \<and>
    (\<forall>cid e. map_get (tk_pending t) cid = Some e \<longrightarrow>
       (\<forall>n. pr_timeoutId e = Some n \<longrightarrow> (\<exists>ms. map_get (tk_timers t) n = Some (cid, ms))) \<and>
       (\<forall>n. pr_listener e = Some n \<longrightarrow> map_get (tk_listeners t) n = Some cid)) \<and>
    (\<forall>n cid ms. map_get (tk_timers t) n = Some (cid, ms) \<longrightarrow> n \<notin> lost \<longrightarrow>
       (\<exists>e. map_get (tk_pending t) cid = Some e \<and> pr_timeoutId e = Some n)) \<and>
    (\<forall>n cid. map_get (tk_listeners t) n = Some cid \<longrightarrow> n \<notin> lost \<longrightarrow>
       (\<exists>e. map_get (tk_pending t) cid = Some e \<and> pr_listener e = Some n))"
  using tracker_reach_inv [OF assms]
  unfolding tracker_inv_def tracker_settled_ok_def tracker_timers_ok_def tracker_listeners_ok_def by blast

definition tracker_example :: tracker where
  "tracker_example =
     timer_fires 1 (tracker_resolve ''a'' (JNum 7)
       (snd (track ''b'' 50 None (snd (track ''a'' 20 (Some (ThrownValue JNull, False, False)) new_tracker)))))"

lemma tracker_example_reach: "tracker_reach tracker_example {}"
proof -
  let ?s = "Some (ThrownValue JNull, False, False)"
  let ?t1 = "snd (track ''a'' 20 ?s new_tracker)"
  let ?t2 = "snd (track ''b'' 50 None ?t1)"
  have "overwritten ''a'' ?s new_tracker = {}" "overwritten ''b'' None ?t1 = {}"
    by (simp_all add: overwritten_def snd_track tracked_entry_def new_tracker_def map_get_def)
  then have "tracker_reach ?t2 {}"
    using tr_step [OF tr_new ts_track, of "''a''" 20 ?s] tr_step [of ?t1 "{}" ?t2 "{}"] ts_track [of ?t1 "{}" "''b''" 50 None]
    by simp
  then show ?thesis unfolding tracker_example_def by (blast intro: tr_step ts_timer ts_resolve)
qed

lemma tracker_settles_once_witness:
  "distinct (map fst (tk_settlements tracker_example)) \<and> settled_promises tracker_example \<union> pending_promises tracker_example = {..<2}
   \<and> tk_settlements tracker_example = [(0, Resolved (JNum 7)), (1, Rejected (TimeoutError ''b'' 50))]"
proof -
  have run: "tk_settlements tracker_example = [(0, Resolved (JNum 7)), (1, Rejected (TimeoutError ''b'' 50))]"
      "tk_next tracker_example = 2"
    by (simp_all add: tracker_example_def timer_fires_def tracker_resolve_def finish_pending_def
        call_settle_def clear_timeout_def remove_listener_def snd_track tracked_entry_def
        new_tracker_def map_get_def map_delete_def)
  with tracker_settles_once [OF tracker_example_reach] show ?thesis by simp
qed

text \<open>
  A promise is lost: tracking an identifier again while its request is pending leaves the first
  promise neither settled nor pending, and its timer then ends the second request.
\<close>

lemma tracking_again_loses_promise:
  "\<exists>t. tracker_reach t {0} \<and> tk_pending t = [] \<and> tk_settlements t = [(1, Rejected (TimeoutError ''a'' 20))]"
proof -
  let ?t1 = "snd (track ''a'' 20 None new_tracker)"
  let ?t2 = "snd (track ''a'' 50 None ?t1)"
  have "overwritten ''a'' None new_tracker = {}" "overwritten ''a'' None ?t1 = {0}"
    by (simp_all add: overwritten_def snd_track tracked_entry_def new_tracker_def map_get_def)
  then have "tracker_reach ?t2 {0}"
    using tr_step [OF tr_new ts_track, of "''a''" 20 None] tr_step [of ?t1 "{}" ?t2 "{0}"] ts_track [of ?t1 "{}" "''a''" 50 None]
    by simp
  then have "tracker_reach (timer_fires 0 ?t2) {0}" by (blast intro: tr_step ts_timer)
  moreover have "tk_pending (timer_fires 0 ?t2) = [] \<and>
      tk_settlements (timer_fires 0 ?t2) = [(1, Rejected (TimeoutError ''a'' 20))]"
    by (simp add: timer_fires_def finish_pending_def call_settle_def clear_timeout_def remove_listener_def
        snd_track tracked_entry_def new_tracker_def map_get_def map_delete_def)
  ultimately show ?thesis by blast
qed

text \<open>
  A disconnection settles everything: after \<open>cleanup\<close> in a reachable state every promise ever handed
  out and not lost is settled, those that were pending with the disconnection error and the others as
  before, and every timer and abort listener left is that of a lost promise.
\<close>

lemma cleanup_settles_all:
  assumes "tracker_reach t lost"
  shows "settled_promises (tracker_cleanup t) = {..<tk_next t} - lost \<and>
    (\<forall>n. map_get (tk_timers (tracker_cleanup t)) n \<noteq> None \<longrightarrow> n \<in> lost) \<and>
    (\<forall>n. map_get (tk_listeners (tracker_cleanup t)) n \<noteq> None \<longrightarrow> n \<in> lost) \<and>
    tk_settlements (tracker_cleanup t) = tk_settlements t @
      map (\<lambda>(cid, e). (pr_promise e, Rejected (ErrorObj None C_Error ''Transport disconnected'' [] None)))
        (tk_pending t)"
proof -
  have inv: "tracker_inv lost t" using assms by (rule tracker_reach_inv)
  have "tracker_inv lost (tracker_cleanup t)"
    using inv by (simp add: tracker_cleanup_def rejectAll_inv)
  then have "settled_promises (tracker_cleanup t) = {..<tk_next (tracker_cleanup t)} - lost"
    by (auto simp: tracker_inv_def tracker_settled_ok_def pending_promises_def tracker_cleanup_def rejectAll_fields(1))
  then show ?thesis
    using rejectAll_lost [OF inv] by (simp add: tracker_cleanup_def rejectAll_fields(4,5) case_prod_beta)
qed

end
