(* ===== verification/Extension_Graph.thy ===== *)
theory Extension_Graph
  imports JS_Collections
begin

text \<open>
  The dependency graph of the extension kernel (\<open>packages/kernel/src/extension\<close>): which extensions
  are eligible for a runtime and which of two registrations wins a name (\<open>extension-selection.ts\<close>),
  which boot enabled (\<open>extension-boot-enablement.ts\<close>), in which order they load and when the graph is
  refused (\<open>topo-sort.ts\<close>), and which enabled entries can start at all
  (\<open>extension-entry-closure.ts\<close>). Semver matching (\<open>versionSatisfies\<close>, the semver package) is the
  parameter \<open>sat\<close>; every statement holds for any such function. Errors are their messages.
\<close>

section \<open>Manifests\<close>

type_synonym ext_name = string
type_synonym version = string
type_synonym sat_fun = "version \<Rightarrow> version \<Rightarrow> bool"

record ext_dependency =
  dep_name :: ext_name
  dep_version :: version
  dep_optional :: bool

datatype runtime_requirement =
    RequireHost string
  | RequireCapability string "version option"

datatype runtime_surface = Interactive | Headless
datatype surface_affinity = AnySurface | OnSurface runtime_surface

text \<open>
  The part of \<open>MakaioExtension\<close> the kernel reads. An absent list is the empty list; of the executable
  members only their presence matters here, their behaviour is the environment's.
\<close>

record extension =
  ext_name :: ext_name
  ext_displayName :: string
  ext_version :: version
  ext_dependencies :: "ext_dependency list"
  ext_surface :: "surface_affinity option"
  ext_requires :: "runtime_requirement list"
  ext_critical :: bool
  ext_create :: bool
  ext_registerHandlers :: bool
  ext_migrations :: bool
  ext_tray :: bool
  ext_providers :: "string list"

record runtime_environment =
  env_hosts :: "string list"
  env_capabilities :: "string list"
  env_capabilityVersions :: "(string, version) js_map option"

section \<open>Selection\<close>

definition matchesSurface :: "extension \<Rightarrow> runtime_surface \<Rightarrow> bool" where
  "matchesSurface pkg surface \<longleftrightarrow>
     ext_surface pkg = None \<or> ext_surface pkg = Some AnySurface \<or>
     ext_surface pkg = Some (OnSurface surface)"

definition capabilityVersionSatisfies ::
  "sat_fun \<Rightarrow> runtime_environment \<Rightarrow> string \<Rightarrow> version \<Rightarrow> bool" where
  "capabilityVersionSatisfies sat env i rng =
     (case env_capabilityVersions env of
        None \<Rightarrow> False
      | Some vs \<Rightarrow> (case map_get vs i of None \<Rightarrow> False | Some v \<Rightarrow> sat v rng))"

fun requirement_met :: "sat_fun \<Rightarrow> runtime_environment \<Rightarrow> runtime_requirement \<Rightarrow> bool" where
  "requirement_met sat env (RequireHost i) = (i \<in> set (env_hosts env))"
| "requirement_met sat env (RequireCapability i v) =
     (if i \<notin> set (env_capabilities env) then False
      else (case v of None \<Rightarrow> True | Some rng \<Rightarrow> capabilityVersionSatisfies sat env i rng))"

definition matchesRequirements ::
  "sat_fun \<Rightarrow> extension \<Rightarrow> runtime_surface \<Rightarrow> runtime_environment option \<Rightarrow> bool" where
  "matchesRequirements sat pkg surface env =
     (if \<not> matchesSurface pkg surface then False
      else if ext_requires pkg = [] then True
      else (case env of None \<Rightarrow> True
            | Some e \<Rightarrow> list_all (requirement_met sat e) (ext_requires pkg)))"

text \<open>
  The pruning loop of \<open>filterEligibleExtensions\<close> and \<open>closeEnabledExtensionEntries\<close>: passes over the
  current set, each removing the names for which \<open>missing\<close> finds something and remembering what it
  found, until a pass changes nothing. A pass deletes only the name it is at, so it visits exactly
  the members the set had when the pass began.
\<close>

fun prune_pass ::
  "('n list \<Rightarrow> 'n \<Rightarrow> 'd list) \<Rightarrow> 'n list \<Rightarrow> 'n list \<times> ('n \<times> 'd list) list \<Rightarrow> 'n list \<times> ('n \<times> 'd list) list"
where
  "prune_pass missing [] st = st"
| "prune_pass missing (n # ns) (closed, excl) =
     (if missing closed n = [] then prune_pass missing ns (closed, excl)
      else prune_pass missing ns (set_delete n closed, excl @ [(n, missing closed n)]))"

lemma prune_pass_shrinks: "length (fst (prune_pass missing ns (closed, excl))) \<le> length closed"
  by (induction ns arbitrary: closed excl)
    (auto simp: set_delete_def intro: order_trans [OF _ length_filter_le])

function prune_loop ::
  "('n list \<Rightarrow> 'n \<Rightarrow> 'd list) \<Rightarrow> 'n list \<Rightarrow> ('n \<times> 'd list) list \<Rightarrow> 'n list \<times> ('n \<times> 'd list) list" where
  "prune_loop missing closed excl =
     (let st = prune_pass missing closed (closed, excl) in
      if length (fst st) = length closed then st else prune_loop missing (fst st) (snd st))"
  by pat_completeness auto
termination
proof (relation "measure (\<lambda>(_, closed, _). length closed)")
  fix missing :: "'n list \<Rightarrow> 'n \<Rightarrow> 'd list" and closed excl st
  assume "st = prune_pass missing closed (closed, excl)" and "length (fst st) \<noteq> length closed"
  with prune_pass_shrinks [of missing closed closed excl]
  show "((missing, fst st, snd st), missing, closed, excl) \<in> measure (\<lambda>(_, closed, _). length closed)"
    by (simp add: case_prod_beta)
qed simp

declare prune_loop.simps [simp del]

definition required_missing ::
  "(ext_name \<Rightarrow> ext_dependency list) \<Rightarrow> ext_name list \<Rightarrow> ext_name list \<Rightarrow> ext_name \<Rightarrow> ext_name list" where
  "required_missing deps managed closed n =
     map dep_name (filter (\<lambda>d. \<not> dep_optional d \<and> dep_name d \<in> set managed \<and> dep_name d \<notin> set closed) (deps n))"

definition deps_by_name :: "(ext_name, extension) js_map \<Rightarrow> ext_name \<Rightarrow> ext_dependency list" where
  "deps_by_name byName n = (case map_get byName n of None \<Rightarrow> [] | Some p \<Rightarrow> ext_dependencies p)"

definition index_by_name :: "extension list \<Rightarrow> (ext_name, extension) js_map" where
  "index_by_name pkgs = fold (\<lambda>p m. map_set (ext_name p) p m) pkgs []"

definition filterEligibleExtensions ::
  "sat_fun \<Rightarrow> extension list \<Rightarrow> runtime_surface \<Rightarrow> runtime_environment option \<Rightarrow> extension list" where
  "filterEligibleExtensions sat extensions surface env =
     (let allInputNames = set_of_list (map ext_name extensions);
          directlyEligible = filter (\<lambda>p. matchesRequirements sat p surface env) extensions;
          byName = index_by_name directlyEligible;
          eligibleNames = fst (prune_loop (required_missing (deps_by_name byName) allInputNames)
                                 (map_keys byName) [])
      in filter (\<lambda>p. ext_name p \<in> set eligibleNames) directlyEligible)"

definition describeRegistration :: "extension \<Rightarrow> string" where
  "describeRegistration pkg = [CHR 0x22] @ ext_displayName pkg @ [CHR 0x22] @ '' v'' @ ext_version pkg"

definition formatNameCollisionMessage :: "ext_name \<Rightarrow> extension \<Rightarrow> extension \<Rightarrow> string" where
  "formatNameCollisionMessage name first second =
     ''Extension name collision: '' @ [CHR 0x22] @ name @ [CHR 0x22] @ '' is registered twice ('' @
     describeRegistration first @ '' and '' @ describeRegistration second @
     ''). Extension package names are identities and cannot be shared - uninstall or rename one of them. '' @
     ''Reaching load with two registrations under one name means discovery or boot selection '' @
     ''admitted both, which they must not.''"

fun coalesce_step ::
  "ext_name list \<Rightarrow> extension list \<Rightarrow> (ext_name, extension) js_map \<Rightarrow> ext_name list \<Rightarrow> string + extension list"
where
  "coalesce_step framework [] byName overridden = Inr (map snd byName)"
| "coalesce_step framework (pkg # pkgs) byName overridden =
     (case map_get byName (ext_name pkg) of
        None \<Rightarrow> coalesce_step framework pkgs (map_set (ext_name pkg) pkg byName) overridden
      | Some existing \<Rightarrow>
          if ext_name pkg \<notin> set framework \<or> ext_name pkg \<in> set overridden
          then Inl (formatNameCollisionMessage (ext_name pkg) existing pkg)
          else coalesce_step framework pkgs
                 (map_set (ext_name pkg) pkg (map_delete (ext_name pkg) byName))
                 (set_add (ext_name pkg) overridden))"

definition coalesceExtensionOverrides :: "extension list \<Rightarrow> ext_name list \<Rightarrow> string + extension list" where
  "coalesceExtensionOverrides extensions frameworkPackageNames =
     coalesce_step frameworkPackageNames extensions [] []"

section \<open>Boot enablement\<close>

definition boot_managed :: "ext_name list option \<Rightarrow> ext_name \<Rightarrow> bool" where
  "boot_managed managedNames n = (case managedNames of None \<Rightarrow> True | Some ns \<Rightarrow> n \<in> set ns)"

definition resolveBootEnabledNames ::
  "extension list \<Rightarrow> ext_name list option \<Rightarrow> (ext_name \<Rightarrow> bool option) option \<Rightarrow> ext_name list" where
  "resolveBootEnabledNames eligible managedNames loadEnabled =
     fold (\<lambda>pkg enabled.
         if \<not> boot_managed managedNames (ext_name pkg) then set_add (ext_name pkg) enabled
         else (let loadedEnabled =
                 (case loadEnabled of None \<Rightarrow> True | Some f \<Rightarrow> f (ext_name pkg) \<noteq> Some False)
               in if loadedEnabled \<or> ext_critical pkg then set_add (ext_name pkg) enabled else enabled))
       eligible []"

section \<open>Topological sort\<close>

definition is_fatal :: "ext_name list option \<Rightarrow> ext_name \<Rightarrow> bool" where
  "is_fatal enabledNames n = (case enabledNames of None \<Rightarrow> True | Some ns \<Rightarrow> n \<in> set ns)"

fun collectUniqueNames :: "extension list \<Rightarrow> ext_name list \<Rightarrow> string + ext_name list" where
  "collectUniqueNames [] nodes = Inr nodes"
| "collectUniqueNames (p # ps) nodes =
     (if ext_name p \<in> set nodes
      then Inl (''ExtensionCoordinator: duplicate package name detected: '' @ [CHR 0x22] @ ext_name p @ [CHR 0x22])
      else collectUniqueNames ps (set_add (ext_name p) nodes))"

type_synonym soft_warning = "ext_name \<times> string"

definition reportValidationFailure ::
  "ext_name list option \<Rightarrow> ext_name \<Rightarrow> string \<Rightarrow> soft_warning list \<Rightarrow> string + soft_warning list" where
  "reportValidationFailure enabledNames name message ws =
     (if is_fatal enabledNames name then Inl message else Inr (ws @ [(name, message)]))"

definition missing_message :: "extension \<Rightarrow> ext_dependency list \<Rightarrow> string" where
  "missing_message pkg missing =
     ''ExtensionCoordinator: package '' @ [CHR 0x22] @ ext_name pkg @ [CHR 0x22] @
     '' declares missing dependencies: '' @ join_with '', '' (map dep_name missing)"

definition version_message :: "extension \<Rightarrow> ext_dependency \<Rightarrow> version \<Rightarrow> string" where
  "version_message pkg d v =
     ''ExtensionCoordinator: package '' @ [CHR 0x22] @ ext_name pkg @ [CHR 0x22] @ '' dependency '' @
     [CHR 0x22] @ dep_name d @ [CHR 0x22] @ '' version '' @ v @ '' does not satisfy '' @ dep_version d"

fun validate_versions ::
  "sat_fun \<Rightarrow> ext_name list option \<Rightarrow> (ext_name, extension) js_map \<Rightarrow> extension \<Rightarrow>
   ext_dependency list \<Rightarrow> soft_warning list \<Rightarrow> string + soft_warning list" where
  "validate_versions sat en byName pkg [] ws = Inr ws"
| "validate_versions sat en byName pkg (d # ds) ws =
     (case map_get byName (dep_name d) of
        None \<Rightarrow> validate_versions sat en byName pkg ds ws
      | Some dependencyPackage \<Rightarrow>
          if sat (ext_version dependencyPackage) (dep_version d)
          then validate_versions sat en byName pkg ds ws
          else (case reportValidationFailure en (ext_name pkg)
                       (version_message pkg d (ext_version dependencyPackage)) ws of
                  Inl e \<Rightarrow> Inl e
                | Inr ws' \<Rightarrow> validate_versions sat en byName pkg ds ws'))"

definition validatePackageDependencies ::
  "sat_fun \<Rightarrow> ext_name list option \<Rightarrow> ext_name list \<Rightarrow> (ext_name, extension) js_map \<Rightarrow> extension \<Rightarrow>
   soft_warning list \<Rightarrow> string + soft_warning list" where
  "validatePackageDependencies sat en nodes byName pkg ws =
     (let missing = filter (\<lambda>d. \<not> dep_optional d \<and> dep_name d \<notin> set nodes) (ext_dependencies pkg);
          first = (if missing \<noteq> []
                   then reportValidationFailure en (ext_name pkg) (missing_message pkg missing) ws
                   else Inr ws)
      in (case first of
            Inl e \<Rightarrow> Inl e
          | Inr ws' \<Rightarrow> validate_versions sat en byName pkg (ext_dependencies pkg) ws'))"

fun validateDependencies ::
  "sat_fun \<Rightarrow> ext_name list option \<Rightarrow> ext_name list \<Rightarrow> (ext_name, extension) js_map \<Rightarrow>
   extension list \<Rightarrow> soft_warning list \<Rightarrow> string + soft_warning list" where
  "validateDependencies sat en nodes byName [] ws = Inr ws"
| "validateDependencies sat en nodes byName (p # ps) ws =
     (case validatePackageDependencies sat en nodes byName p ws of
        Inl e \<Rightarrow> Inl e
      | Inr ws' \<Rightarrow> validateDependencies sat en nodes byName ps ws')"

definition buildRemainingDependencyMap ::
  "extension list \<Rightarrow> ext_name list \<Rightarrow> (ext_name, ext_name list) js_map" where
  "buildRemainingDependencyMap packages nodes =
     fold (\<lambda>p m. map_set (ext_name p)
              (set_of_list (map dep_name (filter (\<lambda>d. dep_name d \<in> set nodes) (ext_dependencies p)))) m)
       packages []"

text \<open>The inner loop: remove \<open>node\<close> from every dependency set and queue who has none left.\<close>

fun kahn_unblock ::
  "ext_name \<Rightarrow> ext_name list \<Rightarrow> (ext_name, ext_name list) js_map \<Rightarrow>
   (ext_name, ext_name list) js_map \<times> ext_name list" where
  "kahn_unblock node visited [] = ([], [])"
| "kahn_unblock node visited ((dependent, deps) # m) =
     (let (m', pushed) = kahn_unblock node visited m in
      if node \<notin> set deps then ((dependent, deps) # m', pushed)
      else (let deps' = set_delete node deps in
            ((dependent, deps') # m',
             if deps' = [] \<and> dependent \<notin> set visited then dependent # pushed else pushed)))"

definition dep_count :: "(ext_name, ext_name list) js_map \<Rightarrow> nat" where
  "dep_count m = sum_list (map (length \<circ> snd) m)"

lemma kahn_unblock_measure:
  "dep_count (fst (kahn_unblock node visited m)) + length (snd (kahn_unblock node visited m)) \<le> dep_count m"
proof (induction m)
  case (Cons e m)
  obtain d deps where e: "e = (d, deps)" by (cases e)
  have "length (set_delete node deps) < length deps" if "node \<in> set deps"
    unfolding set_delete_def by (rule length_filter_less [OF that]) simp
  moreover have "Suc 0 \<le> length deps" if "node \<in> set deps" using that by (cases deps) simp_all
  ultimately show ?case using Cons by (auto simp: e dep_count_def Let_def case_prod_beta)
qed (simp add: dep_count_def)

lemma kahn_unblock_decreases:
  "(m', pushed) = kahn_unblock node visited m \<Longrightarrow> length pushed + dep_count m' < Suc (dep_count m)"
  using kahn_unblock_measure [of node visited m] by (metis add.commute fst_conv le_imp_less_Suc snd_conv)

text \<open>The outer loop; \<open>visited\<close> is the set and \<open>result\<close> the array of the source.\<close>

function kahn_loop ::
  "ext_name list \<Rightarrow> (ext_name, ext_name list) js_map \<Rightarrow> ext_name list \<Rightarrow> ext_name list \<Rightarrow>
   ext_name list \<times> ext_name list" where
  "kahn_loop [] remaining visited result = (result, visited)"
| "kahn_loop (node # queue) remaining visited result =
     (if node \<in> set visited then kahn_loop queue remaining visited result
      else (let visited' = set_add node visited;
                (remaining', pushed) = kahn_unblock node visited' remaining
            in kahn_loop (queue @ pushed) remaining' visited' (result @ [node])))"
  by pat_completeness auto
termination
  by (relation "measure (\<lambda>(queue, remaining, _, _). length queue + dep_count remaining)")
    (auto dest: kahn_unblock_decreases)

definition runKahnSort ::
  "ext_name list \<Rightarrow> (ext_name, ext_name list) js_map \<Rightarrow> ext_name list option \<Rightarrow> soft_warning list \<Rightarrow>
   string + ext_name list \<times> soft_warning list" where
  "runKahnSort nodes remainingDeps enabledNames ws =
     (let queue = map fst (filter (\<lambda>(name, deps). deps = []) remainingDeps);
          (result, visited) = kahn_loop queue remainingDeps [] []
      in if length result = length nodes then Inr (result, ws)
         else (let cycle = filter (\<lambda>n. n \<notin> set visited) nodes;
                   fatalCycleMembers =
                     (case enabledNames of None \<Rightarrow> cycle | Some ns \<Rightarrow> filter (\<lambda>n. n \<in> set ns) cycle)
               in if fatalCycleMembers \<noteq> []
                  then Inl (''ExtensionCoordinator: circular dependency detected among: '' @ join_with '', '' cycle)
                  else (let message = ''ExtensionCoordinator: circular dependency detected among disabled packages: ''
                                        @ join_with '', '' cycle
                        in Inr (result @ cycle, ws @ map (\<lambda>n. (n, message)) cycle))))"

definition topoSort ::
  "sat_fun \<Rightarrow> extension list \<Rightarrow> ext_name list option \<Rightarrow> string + ext_name list \<times> soft_warning list" where
  "topoSort sat packages enabledNames =
     (case collectUniqueNames packages [] of
        Inl e \<Rightarrow> Inl e
      | Inr nodes \<Rightarrow>
          (case validateDependencies sat enabledNames nodes (index_by_name packages) packages [] of
             Inl e \<Rightarrow> Inl e
           | Inr ws \<Rightarrow>
               runKahnSort nodes (buildRemainingDependencyMap packages nodes) enabledNames ws))"

section \<open>Closure of the enabled entries\<close>

text \<open>The entries in load order: name, manifest and whether it is enabled.\<close>

definition closeEnabledExtensionEntries ::
  "(ext_name \<times> extension \<times> bool) list \<Rightarrow> ext_name list \<times> (ext_name \<times> ext_name list) list" where
  "closeEnabledExtensionEntries orderedEntries =
     (let managedNames = set_of_list (map fst orderedEntries);
          entryByName = fold (\<lambda>(n, e) m. map_set n (fst e) m) orderedEntries [];
          closed = set_of_list (map fst (filter (\<lambda>(_, _, enabled). enabled) orderedEntries))
      in prune_loop (required_missing (deps_by_name entryByName) managedNames) closed [])"

end
