(* ===== verification/Extension_Name_Codec.thy ===== *)
theory Extension_Name_Codec
  imports JS_Collections
begin

text \<open>
  The codec between extension names and file system path segments
  (\<open>core/contracts/src/extension/extension-name-path-segment.ts\<close>), down to the bytes: a JavaScript
  string is the list of its UTF-16 code units, \<open>TextEncoder\<close>, the fatal \<open>TextDecoder\<close> and
  \<open>String.prototype.isWellFormed\<close> are defined as the Encoding Standard has them. \<open>toUpperCase\<close> is
  that of ASCII letters: the reserved device names contain neither I nor S, the only ASCII letters
  that are the upper case of another character.
\<close>

section \<open>Code units, code points and bytes\<close>

type_synonym code_unit = int
type_synonym js_string = "code_unit list"

definition is_js_string :: "js_string \<Rightarrow> bool" where
  "is_js_string s \<longleftrightarrow> list_all (\<lambda>u. 0 \<le> u \<and> u < 0x10000) s"

definition is_high :: "code_unit \<Rightarrow> bool" where
  "is_high u \<longleftrightarrow> 0xD800 \<le> u \<and> u < 0xDC00"

definition is_low :: "code_unit \<Rightarrow> bool" where
  "is_low u \<longleftrightarrow> 0xDC00 \<le> u \<and> u < 0xE000"

text \<open>The code points of a string; an unpaired surrogate counts as U+FFFD.\<close>

fun code_points :: "js_string \<Rightarrow> int list" where
  "code_points [] = []"
| "code_points (u # us) =
     (if is_high u
      then (case us of
              [] \<Rightarrow> [0xFFFD]
            | v # vs \<Rightarrow>
                if is_low v then (0x10000 + (u - 0xD800) * 0x400 + (v - 0xDC00)) # code_points vs
                else 0xFFFD # code_points us)
      else if is_low u then 0xFFFD # code_points us
      else u # code_points us)"

fun isWellFormed :: "js_string \<Rightarrow> bool" where
  "isWellFormed [] = True"
| "isWellFormed (u # us) =
     (if is_high u then (case us of [] \<Rightarrow> False | v # vs \<Rightarrow> is_low v \<and> isWellFormed vs)
      else \<not> is_low u \<and> isWellFormed us)"

definition utf16 :: "int \<Rightarrow> js_string" where
  "utf16 c = (if c < 0x10000 then [c]
     else [0xD800 + (c - 0x10000) div 0x400, 0xDC00 + (c - 0x10000) mod 0x400])"

definition is_scalar :: "int \<Rightarrow> bool" where
  "is_scalar c \<longleftrightarrow> 0 \<le> c \<and> c < 0xD800 \<or> 0xE000 \<le> c \<and> c < 0x110000"

definition utf8 :: "int \<Rightarrow> int list" where
  "utf8 c =
     (if c < 0x80 then [c]
      else if c < 0x800 then [0xC0 + c div 0x40, 0x80 + c mod 0x40]
      else if c < 0x10000 then [0xE0 + c div 0x1000, 0x80 + c div 0x40 mod 0x40, 0x80 + c mod 0x40]
      else [0xF0 + c div 0x40000, 0x80 + c div 0x1000 mod 0x40, 0x80 + c div 0x40 mod 0x40, 0x80 + c mod 0x40])"

definition TextEncoder_encode :: "js_string \<Rightarrow> int list" where
  "TextEncoder_encode s = concat (map utf8 (code_points s))"

text \<open>A continuation byte, within the bounds the lead byte sets for it.\<close>

definition cont :: "int \<Rightarrow> int \<Rightarrow> int \<Rightarrow> bool" where
  "cont lo hi b \<longleftrightarrow> lo \<le> b \<and> b \<le> hi"

definition is_byte :: "int \<Rightarrow> bool" where
  "is_byte b \<longleftrightarrow> 0 \<le> b \<and> b < 256"

definition prepend :: "'a \<Rightarrow> 'a list option \<Rightarrow> 'a list option" where
  "prepend x r = map_option ((#) x) r"

fun utf8_decode :: "int list \<Rightarrow> int list option" where
  "utf8_decode [] = Some []"
| "utf8_decode (a # bs) =
     (if a < 0x80 then prepend a (utf8_decode bs)
      else if 0xC2 \<le> a \<and> a \<le> 0xDF then
        (case bs of
           b # r \<Rightarrow> if cont 0x80 0xBF b then prepend ((a - 0xC0) * 0x40 + (b - 0x80)) (utf8_decode r) else None
         | _ \<Rightarrow> None)
      else if 0xE0 \<le> a \<and> a \<le> 0xEF then
        (case bs of
           b # c # r \<Rightarrow>
             if cont (if a = 0xE0 then 0xA0 else 0x80) (if a = 0xED then 0x9F else 0xBF) b \<and> cont 0x80 0xBF c
             then prepend ((a - 0xE0) * 0x1000 + (b - 0x80) * 0x40 + (c - 0x80)) (utf8_decode r) else None
         | _ \<Rightarrow> None)
      else if 0xF0 \<le> a \<and> a \<le> 0xF4 then
        (case bs of
           b # c # d # r \<Rightarrow>
             if cont (if a = 0xF0 then 0x90 else 0x80) (if a = 0xF4 then 0x8F else 0xBF) b \<and>
                cont 0x80 0xBF c \<and> cont 0x80 0xBF d
             then prepend ((a - 0xF0) * 0x40000 + (b - 0x80) * 0x1000 + (c - 0x80) * 0x40 + (d - 0x80)) (utf8_decode r)
             else None
         | _ \<Rightarrow> None)
      else None)"

definition TextDecoder_decode :: "int list \<Rightarrow> js_string option" where
  "TextDecoder_decode bs = map_option (\<lambda>cs. concat (map utf16 cs)) (utf8_decode bs)"

definition ascii :: "string \<Rightarrow> js_string" where
  "ascii s = map of_char s"

section \<open>The codec\<close>

definition EXTENSION_NAME_PATH_SEGMENT_UNRESERVED :: "code_unit \<Rightarrow> bool" where
  "EXTENSION_NAME_PATH_SEGMENT_UNRESERVED u \<longleftrightarrow>
     0x61 \<le> u \<and> u \<le> 0x7A \<or> 0x30 \<le> u \<and> u \<le> 0x39 \<or> u \<in> {0x2E, 0x5F, 0x2D}"

definition EXTENSION_OPERATOR_CONFIG_FILE_SUFFIX :: js_string where
  "EXTENSION_OPERATOR_CONFIG_FILE_SUFFIX = ascii ''.json''"

definition MAX_OPERATOR_CONFIG_FILE_NAME_BYTES :: nat where
  "MAX_OPERATOR_CONFIG_FILE_NAME_BYTES = 255"

definition DOT_SEGMENTS :: "js_string list" where
  "DOT_SEGMENTS = [ascii ''.'', ascii ''..'']"

definition WINDOWS_RESERVED_DEVICE_BASENAMES :: "js_string list" where
  "WINDOWS_RESERVED_DEVICE_BASENAMES = map ascii
     [''CON'', ''PRN'', ''AUX'', ''NUL'', ''COM1'', ''COM2'', ''COM3'', ''COM4'', ''COM5'', ''COM6'', ''COM7'', ''COM8'', ''COM9'',
      ''LPT1'', ''LPT2'', ''LPT3'', ''LPT4'', ''LPT5'', ''LPT6'', ''LPT7'', ''LPT8'', ''LPT9'']"

definition to_upper :: "code_unit \<Rightarrow> code_unit" where
  "to_upper u = (if 0x61 \<le> u \<and> u \<le> 0x7A then u - 0x20 else u)"

definition isWindowsReservedDeviceName :: "js_string \<Rightarrow> bool" where
  "isWindowsReservedDeviceName n \<longleftrightarrow>
     map to_upper (takeWhile (\<lambda>u. u \<noteq> 0x2E) n) \<in> set WINDOWS_RESERVED_DEVICE_BASENAMES"

definition isAddressableExtensionName :: "js_string \<Rightarrow> bool" where
  "isAddressableExtensionName n =
     (if n = [] \<or> n \<in> set DOT_SEGMENTS then False
      else if isWindowsReservedDeviceName n then False
      else isWellFormed n)"

definition hex_digit :: "int \<Rightarrow> code_unit" where
  "hex_digit d = (if d < 10 then 0x30 + d else 0x37 + d)"

definition encode_byte :: "bool \<Rightarrow> int \<Rightarrow> js_string" where
  "encode_byte isEdge b =
     (if EXTENSION_NAME_PATH_SEGMENT_UNRESERVED b \<and> \<not> (isEdge \<and> b = 0x2E) then [b]
      else [0x25, hex_digit (b div 16), hex_digit (b mod 16)])"

definition encode_bytes :: "int list \<Rightarrow> js_string" where
  "encode_bytes bytes =
     concat (map (\<lambda>(i, b). encode_byte (i = 0 \<or> i = length bytes - 1) b) (enumerate 0 bytes))"

definition encodeExtensionNameAsPathSegment :: "js_string \<Rightarrow> js_string option" where
  "encodeExtensionNameAsPathSegment n =
     (if \<not> isAddressableExtensionName n then None
      else (let segment = encode_bytes (TextEncoder_encode n) in
            if length segment + length EXTENSION_OPERATOR_CONFIG_FILE_SUFFIX > MAX_OPERATOR_CONFIG_FILE_NAME_BYTES
            then None else Some segment))"

definition is_hex :: "code_unit \<Rightarrow> bool" where
  "is_hex u \<longleftrightarrow> 0x30 \<le> u \<and> u \<le> 0x39 \<or> 0x41 \<le> u \<and> u \<le> 0x46 \<or> 0x61 \<le> u \<and> u \<le> 0x66"

definition hex_value :: "code_unit \<Rightarrow> int" where
  "hex_value u = (if u \<le> 0x39 then u - 0x30 else if u \<le> 0x46 then u - 0x37 else u - 0x57)"

fun readEncodedBytes :: "js_string \<Rightarrow> int list option" where
  "readEncodedBytes [] = Some []"
| "readEncodedBytes (u # us) =
     (if u \<noteq> 0x25
      then if \<not> EXTENSION_NAME_PATH_SEGMENT_UNRESERVED u then None else prepend u (readEncodedBytes us)
      else (case us of
              a # b # rest \<Rightarrow>
                if is_hex a \<and> is_hex b then prepend (16 * hex_value a + hex_value b) (readEncodedBytes rest) else None
            | _ \<Rightarrow> None))"

definition decodeExtensionNamePathSegment :: "js_string \<Rightarrow> js_string option" where
  "decodeExtensionNamePathSegment segment =
     (case readEncodedBytes segment of
        None \<Rightarrow> None
      | Some bytes \<Rightarrow>
          (case TextDecoder_decode bytes of
             None \<Rightarrow> None
           | Some n \<Rightarrow> if encodeExtensionNameAsPathSegment n = Some segment then Some n else None))"

section \<open>Unicode round trips\<close>

lemma utf8_bytes: "is_scalar c \<Longrightarrow> list_all is_byte (utf8 c)"
  by (auto simp: utf8_def is_scalar_def is_byte_def)

lemma div_64: "(c :: int) div 0x1000 = c div 0x40 div 0x40" "c div 0x40000 = c div 0x40 div 0x40 div 0x40"
  by (simp_all flip: zdiv_zmult2_eq)

lemma utf8_decode_scalar:
  assumes "is_scalar c"
  shows "utf8_decode (utf8 c @ rest) = prepend c (utf8_decode rest)"
proof -
  consider "0 \<le> c" "c < 0x80" | "0x80 \<le> c" "c < 0x800" | "0x800 \<le> c" "c < 0x10000" | "0x10000 \<le> c" "c < 0x110000"
    using assms unfolding is_scalar_def by linarith
  then show ?thesis
  proof cases
    case 1
    then show ?thesis by (simp add: utf8_def)
  next
    case 2
    then have "2 \<le> c div 0x40" "c div 0x40 < 0x20" "0 \<le> c mod 0x40" "c mod 0x40 \<le> 0x3F" by simp_all
    with 2 show ?thesis by (simp add: utf8_def cont_def)
  next
    case 3
    define q r where "q = c div 0x40" and "r = c mod 0x40"
    then have c: "c = q * 0x40 + r" "0 \<le> r" "r \<le> 0x3F" by simp_all
    define p s where "p = q div 0x40" and "s = q mod 0x40"
    then have q: "q = p * 0x40 + s" "0 \<le> s" "s \<le> 0x3F" by simp_all
    have bytes: "utf8 c = [0xE0 + p, 0x80 + s, 0x80 + r]"
      using 3 div_64 [of c] by (simp add: utf8_def p_def s_def q_def r_def)
    have "0 \<le> p" "p < 16" "p = 0 \<Longrightarrow> 0x20 \<le> s" "p = 13 \<Longrightarrow> s < 0x20"
      using 3 c q assms unfolding is_scalar_def by linarith+
    with c(2-3) q(2-3) have "utf8_decode ([0xE0 + p, 0x80 + s, 0x80 + r] @ rest) =
        prepend (p * 0x1000 + s * 0x40 + r) (utf8_decode rest)" by (auto simp: cont_def)
    moreover have "c = p * 0x1000 + s * 0x40 + r" using c q by simp
    ultimately show ?thesis unfolding bytes by simp
  next
    case 4
    define q r where "q = c div 0x40" and "r = c mod 0x40"
    then have c: "c = q * 0x40 + r" "0 \<le> r" "r \<le> 0x3F" by simp_all
    define p s where "p = q div 0x40" and "s = q mod 0x40"
    then have q: "q = p * 0x40 + s" "0 \<le> s" "s \<le> 0x3F" by simp_all
    define a t where "a = p div 0x40" and "t = p mod 0x40"
    then have p: "p = a * 0x40 + t" "0 \<le> t" "t \<le> 0x3F" by simp_all
    have bytes: "utf8 c = [0xF0 + a, 0x80 + t, 0x80 + s, 0x80 + r]"
      using 4 div_64 [of c]
      by (simp add: utf8_def p_def s_def q_def r_def a_def t_def)
    have "0 \<le> a" "a \<le> 4" "a = 0 \<Longrightarrow> 0x10 \<le> t" "a = 4 \<Longrightarrow> t < 0x10"
      using 4 c q p by linarith+
    with c(2-3) q(2-3) p(2-3) have "utf8_decode ([0xF0 + a, 0x80 + t, 0x80 + s, 0x80 + r] @ rest) =
        prepend (a * 0x40000 + t * 0x1000 + s * 0x40 + r) (utf8_decode rest)" by (auto simp: cont_def)
    moreover have "c = a * 0x40000 + t * 0x1000 + s * 0x40 + r" using c q p by simp
    ultimately show ?thesis unfolding bytes by simp
  qed
qed

lemma utf8_decode_encode:
  "list_all is_scalar cs \<Longrightarrow> utf8_decode (concat (map utf8 cs)) = Some cs"
  by (induction cs) (simp_all add: utf8_decode_scalar prepend_def)

lemma pair_point:
  assumes "is_high u" "is_low v"
  shows "is_scalar (0x10000 + (u - 0xD800) * 0x400 + (v - 0xDC00))"
    and "utf16 (0x10000 + (u - 0xD800) * 0x400 + (v - 0xDC00)) = [u, v]"
proof -
  define h l where "h = u - 0xD800" and "l = v - 0xDC00"
  then have h: "u = 0xD800 + h" "0 \<le> h" "h < 0x400" and l: "v = 0xDC00 + l" "0 \<le> l" "l < 0x400"
    using assms unfolding is_high_def is_low_def by linarith+
  show "is_scalar (0x10000 + (u - 0xD800) * 0x400 + (v - 0xDC00))"
    using h l by (simp add: is_scalar_def)
  have "(h * 0x400 + l) div 0x400 = h" "(h * 0x400 + l) mod 0x400 = l" using l(2-3) by simp_all
  moreover have "0 \<le> h * 0x400 + l" using h l by simp
  ultimately show "utf16 (0x10000 + (u - 0xD800) * 0x400 + (v - 0xDC00)) = [u, v]" by (simp add: utf16_def h(1) l(1))
qed

lemma single_point:
  assumes "0 \<le> u" "u < 0x10000" "\<not> is_high u" "\<not> is_low u"
  shows "is_scalar u" and "utf16 u = [u]"
  using assms by (auto simp: is_scalar_def utf16_def is_high_def is_low_def)

lemma code_points_well_formed:
  "is_js_string s \<Longrightarrow> isWellFormed s \<Longrightarrow>
     list_all is_scalar (code_points s) \<and> concat (map utf16 (code_points s)) = s"
proof (induction s rule: code_points.induct)
  case (2 u us)
  show ?case
  proof (cases "is_high u")
    case True
    with 2 obtain v vs where "us = v # vs" "is_low v" "isWellFormed vs" "is_js_string vs"
      by (auto simp: is_js_string_def split: list.splits)
    with True 2(1) [OF True this(1,2)] pair_point [of u v] show ?thesis by simp
  next
    case False
    with 2 have "\<not> is_low u" "0 \<le> u" "u < 0x10000" "isWellFormed us" "is_js_string us" by (auto simp: is_js_string_def)
    with False 2(4) single_point [of u] show ?thesis by simp
  qed
qed simp

lemma TextDecoder_encode:
  assumes "is_js_string s" "isWellFormed s"
  shows "TextDecoder_decode (TextEncoder_encode s) = Some s"
  using utf8_decode_encode [of "code_points s"] code_points_well_formed [OF assms]
  by (simp add: TextDecoder_decode_def TextEncoder_encode_def)

lemma TextEncoder_bytes:
  assumes "is_js_string s" "isWellFormed s"
  shows "list_all is_byte (TextEncoder_encode s)"
proof -
  have "list_all is_scalar (code_points s)" using code_points_well_formed [OF assms] by simp
  then have "list_all is_byte (concat (map utf8 (code_points s)))"
    by (induction "code_points s" rule: list.induct) (use utf8_bytes in \<open>auto simp: list_all_iff\<close>)
  then show ?thesis by (simp add: TextEncoder_encode_def)
qed


section \<open>Reading what was encoded\<close>

text \<open>The case folding of a case-insensitive file system, on the ASCII segments of the codec.\<close>

definition fold_case :: "js_string \<Rightarrow> js_string" where
  "fold_case s = map (\<lambda>u. if 0x41 \<le> u \<and> u \<le> 0x5A then u + 0x20 else u) s"

lemma fold_case_simps [simp]:
  "fold_case [] = []" "fold_case (u # s) = (if 0x41 \<le> u \<and> u \<le> 0x5A then u + 0x20 else u) # fold_case s"
  "fold_case (s @ t) = fold_case s @ fold_case t"
  by (simp_all add: fold_case_def)

lemma hex_digit_value:
  assumes "0 \<le> d" "d < 16"
  shows "is_hex (hex_digit d)" and "hex_value (hex_digit d) = d"
    and "is_hex (hd (fold_case [hex_digit d]))" and "hex_value (hd (fold_case [hex_digit d])) = d"
  using assms by (auto simp: is_hex_def hex_digit_def hex_value_def)

lemma read_encode_byte:
  assumes "is_byte b"
  shows "readEncodedBytes (encode_byte e b @ rest) = prepend b (readEncodedBytes rest)"
    and "readEncodedBytes (fold_case (encode_byte e b) @ rest) = prepend b (readEncodedBytes rest)"
proof -
  have d: "0 \<le> b div 16" "b div 16 < 16" "0 \<le> b mod 16" "b mod 16 < 16" "16 * (b div 16) + b mod 16 = b"
    using assms by (auto simp: is_byte_def)
  have esc: "readEncodedBytes ([0x25, hex_digit (b div 16), hex_digit (b mod 16)] @ rest) = prepend b (readEncodedBytes rest)"
    using hex_digit_value(1,2) [OF d(1,2)] hex_digit_value(1,2) [OF d(3,4)] d(5) by simp
  have escf: "readEncodedBytes (fold_case [0x25, hex_digit (b div 16), hex_digit (b mod 16)] @ rest) =
      prepend b (readEncodedBytes rest)"
    using hex_digit_value(3,4) [OF d(1,2)] hex_digit_value(3,4) [OF d(3,4)] d(5) by simp
  show "readEncodedBytes (encode_byte e b @ rest) = prepend b (readEncodedBytes rest)"
    using esc by (auto simp: encode_byte_def EXTENSION_NAME_PATH_SEGMENT_UNRESERVED_def)
  have lit: "fold_case [b] = [b]" "b \<noteq> 0x25" if "EXTENSION_NAME_PATH_SEGMENT_UNRESERVED b"
    using that by (auto simp: EXTENSION_NAME_PATH_SEGMENT_UNRESERVED_def)
  show "readEncodedBytes (fold_case (encode_byte e b) @ rest) = prepend b (readEncodedBytes rest)"
    using escf lit by (simp add: encode_byte_def del: fold_case_simps)
qed

lemma read_encoded_list:
  "list_all (\<lambda>x. is_byte (snd x)) xs \<Longrightarrow>
     readEncodedBytes (concat (map (\<lambda>(e, b). encode_byte (f e) b) xs)) = Some (map snd xs) \<and>
     readEncodedBytes (fold_case (concat (map (\<lambda>(e, b). encode_byte (f e) b) xs))) = Some (map snd xs)"
  by (induction xs) (auto simp: read_encode_byte prepend_def)

lemma read_encode_bytes:
  assumes "list_all is_byte bs"
  shows "readEncodedBytes (encode_bytes bs) = Some bs" and "readEncodedBytes (fold_case (encode_bytes bs)) = Some bs"
proof -
  have "list_all (\<lambda>x. is_byte (snd x)) (enumerate 0 bs)"
    using assms by (auto simp: list_all_iff in_set_enumerate_eq)
  from read_encoded_list [OF this, of "\<lambda>i. i = 0 \<or> i = length bs - 1"]
  show "readEncodedBytes (encode_bytes bs) = Some bs" "readEncodedBytes (fold_case (encode_bytes bs)) = Some bs"
    by (simp_all add: encode_bytes_def)
qed

lemma encode_SomeD:
  assumes "encodeExtensionNameAsPathSegment n = Some seg"
  shows "isAddressableExtensionName n" and "isWellFormed n" and "seg = encode_bytes (TextEncoder_encode n)"
    and "length seg \<le> 250"
  using assms
  by (auto simp: encodeExtensionNameAsPathSegment_def Let_def isAddressableExtensionName_def
      EXTENSION_OPERATOR_CONFIG_FILE_SUFFIX_def MAX_OPERATOR_CONFIG_FILE_NAME_BYTES_def ascii_def split: if_splits)

section \<open>Canonical codecs\<close>

text \<open>
  The contract of the codec: decoding is exactly the inverse of encoding, and what it reads does not
  depend on how a file system folds what was written.
\<close>

locale canonical_codec =
  fixes enc :: "'a \<Rightarrow> 'b option" and dec :: "'b \<Rightarrow> 'a option" and valid :: "'a \<Rightarrow> bool"
  assumes dec_enc: "valid a \<Longrightarrow> enc a = Some b \<Longrightarrow> dec b = Some a"
    and dec_canonical: "dec b = Some a \<Longrightarrow> enc a = Some b"
begin

lemma enc_inj: "valid a \<Longrightarrow> valid a' \<Longrightarrow> enc a = Some b \<Longrightarrow> enc a' = Some b \<Longrightarrow> a = a'"
  using dec_enc [of a b] dec_enc [of a' b] by simp

lemma one_spelling: "dec b = Some a \<Longrightarrow> dec b' = Some a \<Longrightarrow> b = b'"
  using dec_canonical [of b a] dec_canonical [of b' a] by simp

lemma dec_iff: "valid a \<Longrightarrow> dec b = Some a \<longleftrightarrow> enc a = Some b"
  using dec_enc dec_canonical by blast

end

locale folding_codec = canonical_codec enc dec valid
  for enc :: "'a \<Rightarrow> 'b option" and dec :: "'b \<Rightarrow> 'a option" and valid :: "'a \<Rightarrow> bool" +
  fixes folded :: "'b \<Rightarrow> 'b" and read :: "'b \<Rightarrow> 'a option"
  assumes read_folded: "valid a \<Longrightarrow> enc a = Some b \<Longrightarrow> read (folded b) = Some a"
begin

lemma folded_inj:
  "valid a \<Longrightarrow> valid a' \<Longrightarrow> enc a = Some b \<Longrightarrow> enc a' = Some b' \<Longrightarrow> folded b = folded b' \<Longrightarrow> a = a'"
  using read_folded [of a b] read_folded [of a' b'] by simp

end

definition read_segment :: "js_string \<Rightarrow> js_string option" where
  "read_segment s = (case readEncodedBytes s of None \<Rightarrow> None | Some bs \<Rightarrow> TextDecoder_decode bs)"

lemma read_segment_encoded:
  assumes "is_js_string n" and "encodeExtensionNameAsPathSegment n = Some seg"
  shows "read_segment seg = Some n" and "read_segment (fold_case seg) = Some n"
proof -
  note e = encode_SomeD [OF assms(2)]
  show "read_segment seg = Some n" "read_segment (fold_case seg) = Some n"
    using TextDecoder_encode [OF assms(1) e(2)] read_encode_bytes [OF TextEncoder_bytes [OF assms(1) e(2)]]
    by (simp_all add: read_segment_def e(3))
qed

lemma decode_via_read:
  "decodeExtensionNamePathSegment s =
     (case read_segment s of None \<Rightarrow> None
      | Some n \<Rightarrow> if encodeExtensionNameAsPathSegment n = Some s then Some n else None)"
  by (simp add: decodeExtensionNamePathSegment_def read_segment_def split: option.split)

interpretation name_codec: folding_codec encodeExtensionNameAsPathSegment decodeExtensionNamePathSegment
  is_js_string fold_case read_segment
proof
  show "decodeExtensionNamePathSegment b = Some a" if "is_js_string a" "encodeExtensionNameAsPathSegment a = Some b" for a b
    using that read_segment_encoded(1) [OF that] by (simp add: decode_via_read)
  show "encodeExtensionNameAsPathSegment a = Some b" if "decodeExtensionNamePathSegment b = Some a" for a b
    using that by (auto simp: decode_via_read split: option.splits if_splits)
  show "read_segment (fold_case b) = Some a" if "is_js_string a" "encodeExtensionNameAsPathSegment a = Some b" for a b
    using read_segment_encoded(2) [OF that] .
qed

section \<open>The shape of segments\<close>

abbreviation "dot \<equiv> (0x2E :: code_unit)"

lemma encode_byte_units:
  assumes "is_byte b" and "u \<in> set (encode_byte e b)"
  shows "EXTENSION_NAME_PATH_SEGMENT_UNRESERVED u \<or> u = 0x25 \<or> 0x41 \<le> u \<and> u \<le> 0x46"
proof -
  have d: "0 \<le> b div 16" "b div 16 < 16" "0 \<le> b mod 16" "b mod 16 < 16" using assms(1) by (auto simp: is_byte_def)
  have hex: "EXTENSION_NAME_PATH_SEGMENT_UNRESERVED (hex_digit d) \<or> 0x41 \<le> hex_digit d \<and> hex_digit d \<le> 0x46"
    if "0 \<le> d" "d < 16" for d
    using that by (simp add: hex_digit_def EXTENSION_NAME_PATH_SEGMENT_UNRESERVED_def)
  from assms(2) show ?thesis
    using hex [OF d(1,2)] hex [OF d(3,4)] by (auto simp: encode_byte_def split: if_splits)
qed

lemma encode_edge_byte:
  assumes "is_byte b"
  shows "encode_byte True b \<noteq> []" and "hd (encode_byte True b) \<noteq> dot" and "last (encode_byte True b) \<noteq> dot"
  using assms by (auto simp: encode_byte_def hex_digit_def is_byte_def)

lemma encode_bytes_edges:
  assumes "list_all is_byte bs" and "bs \<noteq> []"
  shows "encode_bytes bs \<noteq> []" and "hd (encode_bytes bs) \<noteq> dot" and "last (encode_bytes bs) \<noteq> dot"
proof -
  obtain b rest where b: "bs = b # rest" using assms(2) by (cases bs) auto
  then have "encode_bytes bs = encode_byte True b @
      concat (map (\<lambda>(i, c). encode_byte (i = 0 \<or> i = length bs - 1) c) (enumerate 1 rest))"
    by (simp add: encode_bytes_def)
  moreover have "is_byte b" using assms(1) b by simp
  ultimately show "encode_bytes bs \<noteq> []" "hd (encode_bytes bs) \<noteq> dot"
    using encode_edge_byte [of b] by (simp_all add: hd_append)
  obtain front c where c: "bs = front @ [c]" using assms(2) by (cases bs rule: rev_cases) auto
  then have "encode_bytes bs = concat (map (\<lambda>(i, c). encode_byte (i = 0 \<or> i = length bs - 1) c) (enumerate 0 front)) @
      encode_byte True c"
    by (simp add: encode_bytes_def enumerate_append_eq)
  moreover have "is_byte c" using assms(1) c by simp
  ultimately show "last (encode_bytes bs) \<noteq> dot" using encode_edge_byte [of c] by simp
qed

lemma utf8_first:
  assumes "0x80 \<le> c"
  shows "\<exists>b rest. utf8 c = b # rest \<and> 0xC0 \<le> b"
  using assms by (cases "c < 0x800"; cases "c < 0x10000") (simp_all add: utf8_def)

lemma TextEncoder_ascii:
  assumes "0 \<le> u" "u < 0x80"
  shows "TextEncoder_encode (u # us) = u # TextEncoder_encode us"
  using assms by (simp add: TextEncoder_encode_def is_high_def is_low_def utf8_def)

lemma TextEncoder_first:
  assumes "is_js_string (u # us)" "isWellFormed (u # us)" "0x80 \<le> u"
  obtains b rest where "TextEncoder_encode (u # us) = b # rest" and "0xC0 \<le> b"
proof -
  have "\<exists>c cs. code_points (u # us) = c # cs \<and> 0x80 \<le> c"
    using assms(2,3) by (auto simp: is_high_def is_low_def split: list.splits)
  then obtain c cs where c: "code_points (u # us) = c # cs" "0x80 \<le> c" by blast
  obtain b rest where "utf8 c = b # rest" "0xC0 \<le> b" using utf8_first [OF c(2)] by blast
  then have "TextEncoder_encode (u # us) = b # (rest @ concat (map utf8 cs))"
    using c(1) by (simp only: TextEncoder_encode_def list.map concat.simps append.simps)
  with that \<open>0xC0 \<le> b\<close> show thesis by blast
qed

lemma TextEncoder_nonempty:
  assumes "is_js_string n" "isWellFormed n" "n \<noteq> []"
  shows "TextEncoder_encode n \<noteq> []"
proof (cases n)
  case (Cons u us)
  show ?thesis
  proof (cases "u < 0x80")
    case True
    then show ?thesis using TextEncoder_ascii [of u us] assms(1) Cons by (simp add: is_js_string_def)
  next
    case False
    obtain b rest where "TextEncoder_encode (u # us) = b # rest"
      by (rule TextEncoder_first [of u us]) (use False assms Cons in auto)
    with Cons show ?thesis by simp
  qed
qed (use assms(3) in simp)

lemma encode_byte_basename:
  "0x25 \<notin> set (takeWhile (\<lambda>u. u \<noteq> dot) (concat (map (\<lambda>(e, b). encode_byte (f e) b) xs))) \<Longrightarrow>
     takeWhile (\<lambda>u. u \<noteq> dot) (concat (map (\<lambda>(e, b). encode_byte (f e) b) xs)) = takeWhile (\<lambda>u. u \<noteq> dot) (map snd xs)"
proof (induction xs)
  case (Cons x xs)
  obtain e b where x: "x = (e, b)" by (cases x)
  show ?case
  proof (cases "encode_byte (f e) b = [b]")
    case True
    with Cons x show ?thesis by (auto split: if_splits)
  next
    case False
    then have "\<exists>r. encode_byte (f e) b = 0x25 # r" by (auto simp: encode_byte_def)
    with Cons.prems x show ?thesis by auto
  qed
qed simp

lemma TextEncoder_basename:
  "is_js_string n \<Longrightarrow> isWellFormed n \<Longrightarrow> list_all (\<lambda>u. u < 0x80) (takeWhile (\<lambda>u. u \<noteq> dot) (TextEncoder_encode n)) \<Longrightarrow>
     takeWhile (\<lambda>u. u \<noteq> dot) (TextEncoder_encode n) = takeWhile (\<lambda>u. u \<noteq> dot) n"
proof (induction n)
  case (Cons u us)
  show ?case
  proof (cases "u < 0x80")
    case True
    then have enc: "TextEncoder_encode (u # us) = u # TextEncoder_encode us" and wf: "isWellFormed us" "is_js_string us"
      using Cons.prems TextEncoder_ascii [of u us] by (auto simp: is_js_string_def is_high_def split: if_splits)
    with Cons show ?thesis by (simp split: if_splits)
  next
    case False
    obtain b rest where "TextEncoder_encode (u # us) = b # rest" "0xC0 \<le> b"
      by (rule TextEncoder_first [of u us]) (use False Cons.prems in auto)
    with Cons.prems(3) show ?thesis by simp
  qed
qed (simp add: TextEncoder_encode_def)

lemma reserved_units:
  assumes "map to_upper s \<in> set WINDOWS_RESERVED_DEVICE_BASENAMES"
  shows "0x25 \<notin> set s" and "list_all (\<lambda>u. u < 0x80) s"
proof -
  have "list_all (list_all (\<lambda>u. 0x30 \<le> u \<and> u < 0x5B)) WINDOWS_RESERVED_DEVICE_BASENAMES" by code_simp
  with assms have up: "\<forall>u \<in> set s. 0x30 \<le> to_upper u \<and> to_upper u < 0x5B" by (fastforce simp: list_all_iff)
  show "0x25 \<notin> set s"
  proof
    assume "0x25 \<in> set s"
    with up have "0x30 \<le> to_upper 0x25" by blast
    then show False by (simp add: to_upper_def)
  qed
  show "list_all (\<lambda>u. u < 0x80) s" unfolding list_all_iff
  proof
    fix u assume "u \<in> set s"
    with up have "to_upper u < 0x5B" by blast
    then show "u < 0x80" by (simp add: to_upper_def split: if_splits)
  qed
qed

lemma segment_not_reserved:
  assumes "is_js_string n" and "encodeExtensionNameAsPathSegment n = Some seg"
  shows "\<not> isWindowsReservedDeviceName seg"
proof
  assume r: "isWindowsReservedDeviceName seg"
  note e = encode_SomeD [OF assms(2)]
  let ?bs = "TextEncoder_encode n" and ?base = "takeWhile (\<lambda>u. u \<noteq> dot)"
  note u = reserved_units [OF r [unfolded isWindowsReservedDeviceName_def]]
  have "?base seg = ?base (map snd (enumerate 0 ?bs))"
    using u(1) unfolding e(3) encode_bytes_def by (rule encode_byte_basename)
  then have "?base seg = ?base ?bs" by simp
  moreover from this have "?base ?bs = ?base n" using TextEncoder_basename [OF assms(1) e(2)] u(2) by simp
  ultimately have "isWindowsReservedDeviceName n" using r by (simp add: isWindowsReservedDeviceName_def)
  with e(1) show False by (simp add: isAddressableExtensionName_def split: if_splits)
qed

section \<open>Properties\<close>

text \<open>
  C26. Encoding an extension name as a path segment and decoding a segment are exact inverses: a segment
  decodes to a name precisely when it is what encoding that name produces, so an extension has one
  spelling on disk, Unicode and all.\<close>

theorem name_codec_roundtrip:
  assumes "is_js_string n"
  shows "(decodeExtensionNamePathSegment s = Some n) = (encodeExtensionNameAsPathSegment n = Some s)"
  using name_codec.dec_iff [OF assms] by simp

lemma name_codec_roundtrip_witness:
  "decodeExtensionNamePathSegment (ascii ''%40acme%2Fweather-tools'') = Some (ascii ''@acme/weather-tools'')"
proof -
  have "is_js_string (ascii ''@acme/weather-tools'')"
    "encodeExtensionNameAsPathSegment (ascii ''@acme/weather-tools'') = Some (ascii ''%40acme%2Fweather-tools'')"
    by code_simp+
  with name_codec_roundtrip show ?thesis by blast
qed

text \<open>
  Two different extension names never share a directory, even on a file system that ignores case:
  their segments stay different when every letter is folded.\<close>

lemma name_codec_fold_injective:
  assumes "is_js_string n" and "is_js_string m" and "n \<noteq> m"
    and "encodeExtensionNameAsPathSegment n = Some s" and "encodeExtensionNameAsPathSegment m = Some t"
  shows "fold_case s \<noteq> fold_case t"
  using name_codec.folded_inj [OF assms(1,2,4,5)] assms(3) by blast

text \<open>
  Every segment is one usable path component on every host: between 1 and 250 characters, made of
  unreserved characters and upper-case percent escapes only, neither beginning nor ending with a dot,
  and never a reserved Windows device name.\<close>

lemma name_segment_shape:
  assumes "is_js_string n" and "encodeExtensionNameAsPathSegment n = Some s"
  shows "s \<noteq> [] \<and> length s \<le> 250 \<and> hd s \<noteq> dot \<and> last s \<noteq> dot \<and> \<not> isWindowsReservedDeviceName s \<and>
    list_all (\<lambda>u. EXTENSION_NAME_PATH_SEGMENT_UNRESERVED u \<or> u = 0x25 \<or> 0x41 \<le> u \<and> u \<le> 0x46) s"
proof -
  note e = encode_SomeD [OF assms(2)]
  let ?bs = "TextEncoder_encode n"
  have "n \<noteq> []" using e(1) by (auto simp: isAddressableExtensionName_def)
  then have bs: "list_all is_byte ?bs" "?bs \<noteq> []"
    using TextEncoder_bytes [OF assms(1) e(2)] TextEncoder_nonempty [OF assms(1) e(2)] by simp_all
  have "EXTENSION_NAME_PATH_SEGMENT_UNRESERVED u \<or> u = 0x25 \<or> 0x41 \<le> u \<and> u \<le> 0x46" if "u \<in> set s" for u
  proof -
    from that obtain i b where "(i, b) \<in> set (enumerate 0 ?bs)" "u \<in> set (encode_byte (i = 0 \<or> i = length ?bs - 1) b)"
      by (auto simp: e(3) encode_bytes_def)
    moreover from this bs(1) have "is_byte b" by (auto simp: list_all_iff in_set_enumerate_eq)
    ultimately show ?thesis using encode_byte_units by blast
  qed
  with encode_bytes_edges [OF bs] e(4) segment_not_reserved [OF assms] show ?thesis
    by (simp add: list_all_iff flip: e(3))
qed

end
