(* ===== verification/Extension_Lifecycle.thy ===== *)
theory Extension_Lifecycle
  imports Extension_Graph Extension_Name_Codec
begin

text \<open>
  The lifecycle of extensions (\<open>packages/kernel/src/extension\<close>): the entries of the coordinator and
  their states, starting an entry (\<open>extension-start-runner.ts\<close>), contribution processors
  (\<open>contribution-processor-runner.ts\<close>), shutdown (\<open>extension-shutdown-runner.ts\<close>), enabling and
  disabling (\<open>extension-toggle.ts\<close>), health checks and the coordinator with its lane of lifecycle
  operations (\<open>extension-coordinator.ts\<close>).

  Everything the coordinator calls outside the kernel is the record \<open>host\<close>: the factories, services,
  storage handlers and contribution processors of the extensions, the tray service, the resolution
  of operator configuration, the durable store. Each is a function of all the calls made so far
  (\<open>trace\<close>), so an extension may fail on one attempt and succeed on the next. The trace records the
  calls and the announced state changes in order; log lines are not modelled. Extension names are
  strings of Latin-1 characters here, read as UTF-16 by the path-segment codec.
\<close>

section \<open>State\<close>

datatype component_state = Discovered | Initializing | Active | Failed | Skipped | Stopped

datatype kernel_error = KError string | ServiceSkipError string

fun error_message :: "kernel_error \<Rightarrow> string" where
  "error_message (KError m) = m"
| "error_message (ServiceSkipError m) = m"

definition getErrorString :: "kernel_error \<Rightarrow> string" where
  "getErrorString e = (if error_message e = [] then ''Unknown error'' else error_message e)"

record service =
  svc_init :: bool
  svc_destroy :: bool
  svc_checkHealth :: bool

record extension_entry =
  en_pkg :: extension
  en_state :: component_state
  en_enabled :: bool
  en_managed :: bool
  en_service :: "service option"
  en_storageCleanup :: bool
  en_error :: "string option"
  en_warnings :: "string list"
  en_surfacesCollected :: bool

record contribution_processor =
  proc_id :: nat
  proc_filter :: "(extension \<Rightarrow> bool) option"
  proc_hasStopped :: bool

datatype kernel_call =
    StateChanged ext_name component_state component_state "string option"
  | CallCreate ext_name
  | CallInit ext_name
  | CallDestroy ext_name
  | CallRegisterHandlers ext_name
  | CallStorageCleanup ext_name
  | CallProcessActivated nat ext_name
  | CallProcessStopped nat ext_name
  | CallTrayRegister ext_name
  | CallTrayUnregister ext_name
  | CallCheckHealth ext_name
  | CallMigrations "ext_name list"
  | WarningsChanged ext_name "string list"
  | EnabledChanged ext_name bool
  | CallPersistEnabled ext_name bool

type_synonym trace = "kernel_call list"

record boot_progress =
  bp_completed :: nat
  bp_failed :: "ext_name list"
  bp_skipped :: "ext_name list"
  bp_complete :: bool

record host =
  h_sat :: sat_fun
  h_surface :: runtime_surface
  h_env :: "runtime_environment option"
  h_managedNames :: "ext_name list option"
  h_frameworkNames :: "ext_name list"
  h_loadEnabled :: "(ext_name \<Rightarrow> bool option) option"
  h_contextBase :: bool
  h_db :: bool
  h_config :: "trace \<Rightarrow> ext_name \<Rightarrow> kernel_error option"
  h_create :: "trace \<Rightarrow> ext_name \<Rightarrow> kernel_error + service"
  h_init :: "trace \<Rightarrow> ext_name \<Rightarrow> kernel_error option"
  h_destroy :: "trace \<Rightarrow> ext_name \<Rightarrow> kernel_error option"
  h_registerHandlers :: "trace \<Rightarrow> ext_name \<Rightarrow> kernel_error + bool"
  h_storageCleanup :: "trace \<Rightarrow> ext_name \<Rightarrow> kernel_error option"
  h_processActivated :: "trace \<Rightarrow> nat \<Rightarrow> ext_name \<Rightarrow> kernel_error option"
  h_processStopped :: "trace \<Rightarrow> nat \<Rightarrow> ext_name \<Rightarrow> kernel_error option"
  h_trayUnregister :: "trace \<Rightarrow> ext_name \<Rightarrow> kernel_error option"
  h_checkHealth :: "trace \<Rightarrow> ext_name \<Rightarrow> string list"
  h_registerNamespaces :: "ext_name \<Rightarrow> kernel_error option"
  h_migrationPath :: "ext_name \<Rightarrow> kernel_error option"
  h_runMigrations :: "(trace \<Rightarrow> ext_name list \<Rightarrow> kernel_error option) option"
  h_rpcCleanupFailures :: "trace \<Rightarrow> kernel_error list"
  h_persistEnabled :: "(trace \<Rightarrow> ext_name \<Rightarrow> bool \<Rightarrow> kernel_error option) option"

record coordinator =
  co_entries :: "(ext_name, extension_entry) js_map"
  co_loadOrder :: "ext_name list"
  co_loaded :: bool
  co_started :: bool
  co_shutdownRequested :: bool
  co_processors :: "contribution_processor list"
  co_boot :: boot_progress
  co_trace :: trace

definition record_call :: "kernel_call \<Rightarrow> coordinator \<Rightarrow> coordinator" where
  "record_call c st = st\<lparr> co_trace := co_trace st @ [c] \<rparr>"

definition get_entry :: "coordinator \<Rightarrow> ext_name \<Rightarrow> extension_entry option" where
  "get_entry st n = map_get (co_entries st) n"

definition update_entry ::
  "ext_name \<Rightarrow> (extension_entry \<Rightarrow> extension_entry) \<Rightarrow> coordinator \<Rightarrow> coordinator" where
  "update_entry n f st =
     (case get_entry st n of
        None \<Rightarrow> st
      | Some e \<Rightarrow> st\<lparr> co_entries := map_set n (f e) (co_entries st) \<rparr>)"

definition entry_state :: "coordinator \<Rightarrow> ext_name \<Rightarrow> component_state option" where
  "entry_state st n = map_option en_state (get_entry st n)"

definition hasActiveExtension :: "coordinator \<Rightarrow> ext_name \<Rightarrow> bool" where
  "hasActiveExtension st n \<longleftrightarrow> entry_state st n = Some Active"

text \<open>\<open>transitionPackageEntry\<close>: change the state and announce it.\<close>

definition transitionPackageEntry :: "ext_name \<Rightarrow> component_state \<Rightarrow> coordinator \<Rightarrow> coordinator" where
  "transitionPackageEntry n to st =
     (case get_entry st n of
        None \<Rightarrow> st
      | Some e \<Rightarrow>
          record_call (StateChanged n (en_state e) to (en_error e))
            (update_entry n (\<lambda>e. e\<lparr> en_state := to \<rparr>) st))"

definition boot_ready :: "ext_name \<Rightarrow> coordinator \<Rightarrow> coordinator" where
  "boot_ready n st = st\<lparr> co_boot := (co_boot st)\<lparr> bp_completed := bp_completed (co_boot st) + 1 \<rparr> \<rparr>"

definition boot_failed :: "ext_name \<Rightarrow> coordinator \<Rightarrow> coordinator" where
  "boot_failed n st = st\<lparr> co_boot := (co_boot st)\<lparr> bp_completed := bp_completed (co_boot st) + 1,
     bp_failed := bp_failed (co_boot st) @ [n] \<rparr> \<rparr>"

definition boot_skipped :: "ext_name \<Rightarrow> coordinator \<Rightarrow> coordinator" where
  "boot_skipped n st = st\<lparr> co_boot := (co_boot st)\<lparr> bp_completed := bp_completed (co_boot st) + 1,
     bp_skipped := bp_skipped (co_boot st) @ [n] \<rparr> \<rparr>"

definition boot_complete :: "coordinator \<Rightarrow> coordinator" where
  "boot_complete st = st\<lparr> co_boot := (co_boot st)\<lparr> bp_complete := True \<rparr> \<rparr>"

section \<open>Extension contexts\<close>

definition unaddressable_message :: "ext_name \<Rightarrow> string" where
  "unaddressable_message n = [CHR 0x22] @ n @ [CHR 0x22] @
     '' cannot be encoded as a filesystem path segment and therefore has no addressable data directory. '' @
     ''Valid extension names must be non-empty, must not be '' @ [CHR 0x27] @ ''.'' @ [CHR 0x27] @ '' or '' @
     [CHR 0x27] @ ''..'' @ [CHR 0x27] @ '', must be well-formed Unicode, '' @
     ''must not be a reserved Windows device basename (CON, NUL, COM1, etc.), '' @
     ''and must encode within the filesystem component length limit.''"

definition checkExtensionNameAddressable :: "ext_name \<Rightarrow> string option" where
  "checkExtensionNameAddressable n =
     (if encodeExtensionNameAsPathSegment (ascii n) \<noteq> None then None
      else Some (''Extension '' @ unaddressable_message n))"

definition buildExtensionContext :: "host \<Rightarrow> ext_name \<Rightarrow> kernel_error option" where
  "buildExtensionContext h n =
     (if \<not> h_contextBase h
      then Some (KError ''ExtensionCoordinator: extensionContextBase is required to start extensions with a create factory. Provide it via the constructor.'')
      else if encodeExtensionNameAsPathSegment (ascii n) = None
      then Some (KError (''ExtensionCoordinator: extension '' @ unaddressable_message n))
      else None)"

section \<open>Contribution processors\<close>

text \<open>The rollback of a failed activation; a failing \<open>processStopped\<close> is logged and ignored.\<close>

fun rollback_processors ::
  "ext_name \<Rightarrow> contribution_processor list \<Rightarrow> coordinator \<Rightarrow> coordinator" where
  "rollback_processors n [] st = st"
| "rollback_processors n (p # ps) st =
     (if proc_hasStopped p
      then rollback_processors n ps (record_call (CallProcessStopped (proc_id p) n) st)
      else rollback_processors n ps st)"

definition processor_accepts :: "contribution_processor \<Rightarrow> extension \<Rightarrow> bool" where
  "processor_accepts p pkg = (case proc_filter p of None \<Rightarrow> True | Some f \<Rightarrow> f pkg)"

fun run_activated ::
  "host \<Rightarrow> ext_name \<Rightarrow> extension \<Rightarrow> contribution_processor list \<Rightarrow> contribution_processor list \<Rightarrow>
   coordinator \<Rightarrow> coordinator \<times> kernel_error option" where
  "run_activated h n pkg [] activated st = (st, None)"
| "run_activated h n pkg (p # ps) activated st =
     (if \<not> processor_accepts p pkg then run_activated h n pkg ps activated st
      else (case h_config h (co_trace st) n of
              Some e \<Rightarrow> (rollback_processors n (rev activated) st, Some e)
            | None \<Rightarrow>
                (case buildExtensionContext h n of
                   Some e \<Rightarrow> (rollback_processors n (rev activated) st, Some e)
                 | None \<Rightarrow>
                     let st1 = record_call (CallProcessActivated (proc_id p) n) st in
                     (case h_processActivated h (co_trace st) (proc_id p) n of
                        Some e \<Rightarrow> (rollback_processors n (rev activated) st1, Some e)
                      | None \<Rightarrow> run_activated h n pkg ps (activated @ [p]) st1))))"

definition runActivatedProcessors ::
  "host \<Rightarrow> ext_name \<Rightarrow> extension \<Rightarrow> coordinator \<Rightarrow> coordinator \<times> kernel_error option" where
  "runActivatedProcessors h n pkg st = run_activated h n pkg (co_processors st) [] st"

fun run_stopped ::
  "host \<Rightarrow> ext_name \<Rightarrow> contribution_processor list \<Rightarrow> coordinator \<Rightarrow> coordinator \<times> kernel_error list" where
  "run_stopped h n [] st = (st, [])"
| "run_stopped h n (p # ps) st =
     (if \<not> proc_hasStopped p then run_stopped h n ps st
      else (let r = h_processStopped h (co_trace st) (proc_id p) n;
                (st', fs) = run_stopped h n ps (record_call (CallProcessStopped (proc_id p) n) st)
            in (st', (case r of None \<Rightarrow> [] | Some e \<Rightarrow> [e]) @ fs)))"

definition runStoppedProcessors ::
  "host \<Rightarrow> ext_name \<Rightarrow> coordinator \<Rightarrow> coordinator \<times> kernel_error list" where
  "runStoppedProcessors h n st = run_stopped h n (rev (co_processors st)) st"

section \<open>Starting an entry\<close>

definition failEntry :: "ext_name \<Rightarrow> string \<Rightarrow> coordinator \<Rightarrow> coordinator" where
  "failEntry n message st =
     boot_failed n (transitionPackageEntry n Failed
       (update_entry n (\<lambda>e. e\<lparr> en_error := Some message \<rparr>) st))"

definition runStorageCleanup :: "ext_name \<Rightarrow> coordinator \<Rightarrow> coordinator" where
  "runStorageCleanup n st =
     (case get_entry st n of
        None \<Rightarrow> st
      | Some e \<Rightarrow>
          if en_storageCleanup e
          then update_entry n (\<lambda>e. e\<lparr> en_storageCleanup := False \<rparr>) (record_call (CallStorageCleanup n) st)
          else st)"

definition critical_failed :: "ext_name \<Rightarrow> string \<Rightarrow> kernel_error" where
  "critical_failed n message =
     KError (''Critical package '' @ [CHR 0x22] @ n @ [CHR 0x22] @ '' failed: '' @ message)"

text \<open>The end of both catch blocks: \<open>handleServiceSkipError\<close>, then failing the entry.\<close>

definition start_failure ::
  "ext_name \<Rightarrow> extension \<Rightarrow> kernel_error \<Rightarrow> coordinator \<Rightarrow> coordinator \<times> kernel_error option" where
  "start_failure n pkg err st =
     (case err of
        ServiceSkipError reason \<Rightarrow>
          if ext_critical pkg
          then (let message = ''Critical package cannot skip startup: '' @ reason
                in (failEntry n message st, Some (critical_failed n message)))
          else (boot_skipped n (transitionPackageEntry n Skipped
                  (update_entry n (\<lambda>e. e\<lparr> en_error := Some reason \<rparr>) st)), None)
      | KError message \<Rightarrow>
          (failEntry n message st, if ext_critical pkg then Some err else None))"

definition registerEntryTray :: "ext_name \<Rightarrow> extension \<Rightarrow> coordinator \<Rightarrow> coordinator" where
  "registerEntryTray n pkg st = (if ext_tray pkg then record_call (CallTrayRegister n) st else st)"

definition finish_start :: "ext_name \<Rightarrow> extension \<Rightarrow> coordinator \<Rightarrow> coordinator \<times> kernel_error option" where
  "finish_start n pkg st =
     (registerEntryTray n pkg (boot_ready n (transitionPackageEntry n Active st)), None)"

definition startEntryWithoutService ::
  "host \<Rightarrow> ext_name \<Rightarrow> extension \<Rightarrow> coordinator \<Rightarrow> coordinator \<times> kernel_error option" where
  "startEntryWithoutService h n pkg st =
     (case runActivatedProcessors h n pkg st of
        (st1, Some err) \<Rightarrow> start_failure n pkg err (runStorageCleanup n st1)
      | (st1, None) \<Rightarrow> finish_start n pkg st1)"

definition destroy_service :: "ext_name \<Rightarrow> service option \<Rightarrow> coordinator \<Rightarrow> coordinator" where
  "destroy_service n svc st =
     (case svc of
        Some s \<Rightarrow> if svc_destroy s then record_call (CallDestroy n) st else st
      | None \<Rightarrow> st)"

definition abandon_start ::
  "ext_name \<Rightarrow> extension \<Rightarrow> service option \<Rightarrow> kernel_error \<Rightarrow> coordinator \<Rightarrow>
   coordinator \<times> kernel_error option" where
  "abandon_start n pkg svc err st =
     start_failure n pkg err
       (runStorageCleanup n (update_entry n (\<lambda>e. e\<lparr> en_service := None \<rparr>) (destroy_service n svc st)))"

text \<open>Creating and initialising a service: the created service, if any, and the error, if any.\<close>

definition create_service ::
  "host \<Rightarrow> ext_name \<Rightarrow> coordinator \<Rightarrow> coordinator \<times> service option \<times> kernel_error option" where
  "create_service h n st =
     (case buildExtensionContext h n of
        Some e \<Rightarrow> (st, None, Some e)
      | None \<Rightarrow>
          let st1 = record_call (CallCreate n) st in
          (case h_create h (co_trace st) n of
             Inl e \<Rightarrow> (st1, None, Some e)
           | Inr s \<Rightarrow>
               if \<not> svc_init s then (st1, Some s, None)
               else (let st2 = record_call (CallInit n) st1 in
                     (st2, Some s, h_init h (co_trace st1) n))))"

definition startEntryWithService ::
  "host \<Rightarrow> ext_name \<Rightarrow> extension \<Rightarrow> coordinator \<Rightarrow> coordinator \<times> kernel_error option" where
  "startEntryWithService h n pkg st =
     (case create_service h n st of
        (st1, svc, Some err) \<Rightarrow> abandon_start n pkg svc err st1
      | (st1, svc, None) \<Rightarrow>
          let st2 = update_entry n (\<lambda>e. e\<lparr> en_service := svc \<rparr>) st1 in
          (case runActivatedProcessors h n pkg st2 of
             (st3, Some err) \<Rightarrow> abandon_start n pkg svc err st3
           | (st3, None) \<Rightarrow> finish_start n pkg st3))"

text \<open>Registering storage handlers: the state, whether to go on, and what is thrown.\<close>

definition registerEntryStorage ::
  "host \<Rightarrow> ext_name \<Rightarrow> extension \<Rightarrow> coordinator \<Rightarrow> coordinator \<times> bool \<times> kernel_error option" where
  "registerEntryStorage h n pkg st =
     (if \<not> ext_registerHandlers pkg \<or> \<not> h_db h then (st, True, None)
      else (let failed = (\<lambda>e st. (failEntry n (error_message e) st, False,
                           if ext_critical pkg then Some e else None)) in
            (case buildExtensionContext h n of
               Some e \<Rightarrow> failed e st
             | None \<Rightarrow>
                 let st1 = record_call (CallRegisterHandlers n) st in
                 (case h_registerHandlers h (co_trace st) n of
                    Inl e \<Rightarrow> failed e st1
                  | Inr cleanup \<Rightarrow>
                      (if cleanup then update_entry n (\<lambda>e. e\<lparr> en_storageCleanup := True \<rparr>) st1 else st1,
                       True, None)))))"

definition inactive_deps :: "coordinator \<Rightarrow> extension \<Rightarrow> ext_dependency list" where
  "inactive_deps st pkg =
     filter (\<lambda>d. \<not> dep_optional d \<and> \<not> hasActiveExtension st (dep_name d)) (ext_dependencies pkg)"

definition inactive_message :: "ext_dependency list \<Rightarrow> string" where
  "inactive_message ds = ''Required dependencies not active: '' @ join_with '', '' (map dep_name ds)"

definition startExtensionEntry ::
  "host \<Rightarrow> ext_name \<Rightarrow> extension_entry \<Rightarrow> coordinator \<Rightarrow> coordinator \<times> kernel_error option" where
  "startExtensionEntry h n entry st =
     (let pkg = en_pkg entry;
          refuse = (\<lambda>message. (failEntry n message st,
                     if ext_critical pkg then Some (critical_failed n message) else None)) in
      if \<not> en_enabled entry then (boot_skipped n (transitionPackageEntry n Skipped st), None)
      else if inactive_deps st pkg \<noteq> [] then refuse (inactive_message (inactive_deps st pkg))
      else (case checkExtensionNameAddressable n of
              Some message \<Rightarrow> refuse message
            | None \<Rightarrow>
                let st1 = transitionPackageEntry n Initializing st in
                (case h_config h (co_trace st1) n of
                   Some e \<Rightarrow> (failEntry n (getErrorString e) st1, if ext_critical pkg then Some e else None)
                 | None \<Rightarrow>
                     (case registerEntryStorage h n pkg st1 of
                        (st2, False, thrown) \<Rightarrow> (st2, thrown)
                      | (st2, True, _) \<Rightarrow>
                          if \<not> ext_create pkg then startEntryWithoutService h n pkg st2
                          else startEntryWithService h n pkg st2))))"

end
