(* ===== verification/Extension_Coordinator.thy ===== *)
theory Extension_Coordinator
  imports Extension_Lifecycle
begin

text \<open>
  The operations of the extension coordinator on top of \<open>Extension_Lifecycle\<close>: health checks, the
  toggle primitives (\<open>extension-toggle.ts\<close>), shutdown (\<open>extension-shutdown-runner.ts\<close>), the migration
  run, and \<open>load\<close>, \<open>startAll\<close>, \<open>shutdown\<close> and the lifecycle lane of \<open>extension-coordinator.ts\<close>.

  One operation of the lane runs to its end before the next starts, so it is one function here; the
  code of an extension is taken not to register or remove contribution processors while such an
  operation runs. The health checks at the end of the boot, which the code starts together, are run in
  load order. An error of \<open>h_registerNamespaces\<close> stands for a failing namespace registration or
  surface collection of that extension, one of \<open>h_migrationPath\<close> for a migration folder that cannot be
  resolved; \<open>ext_migrations\<close> says that the manifest declares at least one chain.
\<close>

section \<open>Health checks\<close>

definition runExtensionHealthCheck :: "host \<Rightarrow> ext_name \<Rightarrow> coordinator \<Rightarrow> coordinator" where
  "runExtensionHealthCheck h n st =
     (case get_entry st n of
        None \<Rightarrow> st
      | Some e \<Rightarrow>
          (case en_service e of
             None \<Rightarrow> st
           | Some s \<Rightarrow>
               if en_state e \<noteq> Active \<or> \<not> svc_checkHealth s then st
               else (let ws = h_checkHealth h (co_trace st) n in
                     record_call (WarningsChanged n ws)
                       (update_entry n (\<lambda>e. e\<lparr> en_warnings := ws \<rparr>)
                         (record_call (CallCheckHealth n) st)))))"

section \<open>Enabling\<close>

datatype transition_outcome = Applied | RejectedOutcome | RestartRequired

definition failReEnable :: "ext_name \<Rightarrow> string \<Rightarrow> coordinator \<Rightarrow> coordinator \<times> transition_outcome" where
  "failReEnable n message st =
     (transitionPackageEntry n Failed (update_entry n (\<lambda>e. e\<lparr> en_error := Some message \<rparr>) st), RejectedOutcome)"

text \<open>\<open>cleanupFailedEnable\<close>: \<open>cleanup\<close> says whether this enable registered storage handlers.\<close>

definition cleanupFailedEnable ::
  "ext_name \<Rightarrow> service option \<Rightarrow> bool \<Rightarrow> coordinator \<Rightarrow> coordinator" where
  "cleanupFailedEnable n svc cleanup st =
     update_entry n (\<lambda>e. e\<lparr> en_storageCleanup := False \<rparr>)
       ((if cleanup then record_call (CallStorageCleanup n) else id) (destroy_service n svc st))"

definition settle_failed_enable :: "ext_name \<Rightarrow> component_state \<Rightarrow> string \<Rightarrow> coordinator \<Rightarrow> coordinator" where
  "settle_failed_enable n to message st =
     transitionPackageEntry n to (update_entry n (\<lambda>e. e\<lparr> en_error := Some message \<rparr>) st)"

definition reinitializeService ::
  "host \<Rightarrow> ext_name \<Rightarrow> extension \<Rightarrow> bool \<Rightarrow> coordinator \<Rightarrow> coordinator \<times> bool" where
  "reinitializeService h n pkg cleanup st =
     (if \<not> ext_create pkg then (st, True)
      else (case create_service h n st of
              (st1, svc, None) \<Rightarrow> (update_entry n (\<lambda>e. e\<lparr> en_service := svc \<rparr>) st1, True)
            | (st1, svc, Some err) \<Rightarrow>
                let st2 = cleanupFailedEnable n svc cleanup st1 in
                (case err of
                   ServiceSkipError reason \<Rightarrow>
                     if \<not> ext_critical pkg then (settle_failed_enable n Skipped reason st2, False)
                     else (settle_failed_enable n Failed (''Critical extension cannot skip startup: '' @ reason) st2, False)
                 | KError _ \<Rightarrow> (settle_failed_enable n Failed (getErrorString err) st2, False))))"

text \<open>Re-registering storage handlers: the state, whether a cleanup was returned, the error if any.\<close>

definition reregister_storage ::
  "host \<Rightarrow> ext_name \<Rightarrow> extension \<Rightarrow> coordinator \<Rightarrow> coordinator \<times> bool \<times> kernel_error option" where
  "reregister_storage h n pkg st =
     (if \<not> ext_registerHandlers pkg \<or> \<not> h_db h then (st, False, None)
      else (case buildExtensionContext h n of
              Some e \<Rightarrow> (st, False, Some e)
            | None \<Rightarrow>
                let st1 = record_call (CallRegisterHandlers n) st in
                (case h_registerHandlers h (co_trace st) n of
                   Inl e \<Rightarrow> (st1, False, Some e)
                 | Inr cleanup \<Rightarrow>
                     (if cleanup then update_entry n (\<lambda>e. e\<lparr> en_storageCleanup := True \<rparr>) st1 else st1,
                      cleanup, None))))"

text \<open>The part of \<open>enableExtension\<close> after the guards, from the \<open>initializing\<close> transition on.\<close>

definition reactivate ::
  "host \<Rightarrow> ext_name \<Rightarrow> extension \<Rightarrow> coordinator \<Rightarrow> coordinator \<times> transition_outcome" where
  "reactivate h n pkg st =
     (let st1 = transitionPackageEntry n Initializing
                  (update_entry n (\<lambda>e. e\<lparr> en_enabled := True, en_error := None \<rparr>) st) in
      (case h_config h (co_trace st1) n of
         Some e \<Rightarrow> failReEnable n (''Config resolution failed: '' @ getErrorString e) st1
       | None \<Rightarrow>
           (case reregister_storage h n pkg st1 of
              (st2, _, Some e) \<Rightarrow> (settle_failed_enable n Failed (getErrorString e) st2, RejectedOutcome)
            | (st2, cleanup, None) \<Rightarrow>
                (case reinitializeService h n pkg cleanup st2 of
                   (st3, False) \<Rightarrow> (st3, RejectedOutcome)
                 | (st3, True) \<Rightarrow>
                     (case runActivatedProcessors h n pkg st3 of
                        (st4, Some e) \<Rightarrow>
                          (settle_failed_enable n Failed (getErrorString e)
                             (update_entry n (\<lambda>e. e\<lparr> en_service := None \<rparr>)
                               (cleanupFailedEnable n
                                  (case get_entry st4 n of None \<Rightarrow> None | Some en \<Rightarrow> en_service en) cleanup st4)),
                           RejectedOutcome)
                      | (st4, None) \<Rightarrow>
                          (runExtensionHealthCheck h n
                             (registerEntryTray n pkg (transitionPackageEntry n Active st4)), Applied))))))"

definition enableExtension ::
  "host \<Rightarrow> ext_name \<Rightarrow> extension_entry \<Rightarrow> coordinator \<Rightarrow> coordinator \<times> transition_outcome" where
  "enableExtension h n entry st =
     (if en_state entry = Active then (update_entry n (\<lambda>e. e\<lparr> en_enabled := True \<rparr>) st, Applied)
      else if en_state entry \<noteq> Stopped \<and> en_state entry \<noteq> Failed \<and> en_state entry \<noteq> Skipped
      then (st, RejectedOutcome)
      else if en_state entry = Skipped \<and> \<not> en_surfacesCollected entry
      then (update_entry n (\<lambda>e. e\<lparr> en_error := Some (''Extension '' @ [CHR 0x22] @ n @ [CHR 0x22] @
              '' was disabled at boot and never started this process; a restart is required to activate it.'') \<rparr>) st,
            RejectedOutcome)
      else if inactive_deps st (en_pkg entry) \<noteq> []
      then failReEnable n (inactive_message (inactive_deps st (en_pkg entry))) st
      else (case checkExtensionNameAddressable n of
              Some message \<Rightarrow> failReEnable n message st
            | None \<Rightarrow> reactivate h n (en_pkg entry) st))"

section \<open>Disabling\<close>

definition active_dependents :: "coordinator \<Rightarrow> ext_name \<Rightarrow> ext_name list" where
  "active_dependents st n =
     map fst (filter (\<lambda>(m, e). m \<noteq> n \<and> en_state e = Active \<and>
       (\<exists>d \<in> set (ext_dependencies (en_pkg e)). \<not> dep_optional d \<and> dep_name d = n)) (co_entries st))"

definition call_destroy ::
  "host \<Rightarrow> ext_name \<Rightarrow> service option \<Rightarrow> coordinator \<Rightarrow> coordinator \<times> kernel_error list" where
  "call_destroy h n svc st =
     (case svc of
        None \<Rightarrow> (st, [])
      | Some s \<Rightarrow>
          (update_entry n (\<lambda>e. e\<lparr> en_service := None \<rparr>)
             (if svc_destroy s then record_call (CallDestroy n) st else st),
           if svc_destroy s then (case h_destroy h (co_trace st) n of None \<Rightarrow> [] | Some e \<Rightarrow> [e]) else []))"

definition call_storage_cleanup ::
  "host \<Rightarrow> ext_name \<Rightarrow> bool \<Rightarrow> coordinator \<Rightarrow> coordinator \<times> kernel_error list" where
  "call_storage_cleanup h n present st =
     (if \<not> present then (st, [])
      else (update_entry n (\<lambda>e. e\<lparr> en_storageCleanup := False \<rparr>) (record_call (CallStorageCleanup n) st),
            case h_storageCleanup h (co_trace st) n of None \<Rightarrow> [] | Some e \<Rightarrow> [e]))"

definition unregister_tray ::
  "host \<Rightarrow> ext_name \<Rightarrow> extension \<Rightarrow> coordinator \<Rightarrow> coordinator \<times> kernel_error list" where
  "unregister_tray h n pkg st =
     (if \<not> ext_tray pkg then (st, [])
      else (record_call (CallTrayUnregister n) st,
            case h_trayUnregister h (co_trace st) n of None \<Rightarrow> [] | Some e \<Rightarrow> [e]))"

definition teardown_message :: "ext_name \<Rightarrow> kernel_error list \<Rightarrow> string" where
  "teardown_message n fs =
     ''Extension '' @ [CHR 0x22] @ n @ [CHR 0x22] @ '' disabled with '' @
     show_nat (length fs) @ '' teardown failure(s): '' @
     join_with ''; '' (map getErrorString fs)"

definition disableExtension ::
  "host \<Rightarrow> ext_name \<Rightarrow> extension_entry \<Rightarrow> coordinator \<Rightarrow> coordinator \<times> transition_outcome" where
  "disableExtension h n entry st =
     (if en_state entry = Initializing then (st, RejectedOutcome)
      else if en_state entry \<noteq> Active then (update_entry n (\<lambda>e. e\<lparr> en_enabled := False \<rparr>) st, Applied)
      else if active_dependents st n \<noteq> []
      then (update_entry n (\<lambda>e. e\<lparr> en_error := Some (''Cannot disable '' @ [CHR 0x22] @ n @ [CHR 0x22] @
              '' while active dependents remain: '' @ join_with '', '' (active_dependents st n)) \<rparr>) st,
            RejectedOutcome)
      else (let st1 = update_entry n (\<lambda>e. e\<lparr> en_enabled := False, en_error := None \<rparr>) st;
                (st2, f1) = runStoppedProcessors h n st1;
                (st3, f2) = call_destroy h n (en_service entry) st2;
                (st4, f3) = call_storage_cleanup h n (en_storageCleanup entry) st3;
                (st5, f4) = unregister_tray h n (en_pkg entry) st4;
                fs = f1 @ f2 @ f3 @ f4;
                st6 = (if fs \<noteq> [] then update_entry n (\<lambda>e. e\<lparr> en_error := Some (teardown_message n fs) \<rparr>) st5
                       else st5);
                st7 = transitionPackageEntry n Stopped st6
            in (record_call (WarningsChanged n []) (update_entry n (\<lambda>e. e\<lparr> en_warnings := [] \<rparr>) st7), Applied)))"

definition applyExtensionTransition ::
  "host \<Rightarrow> ext_name \<Rightarrow> bool \<Rightarrow> coordinator \<Rightarrow> coordinator \<times> transition_outcome" where
  "applyExtensionTransition h n enabled st =
     (case get_entry st n of
        None \<Rightarrow> (st, RejectedOutcome)
      | Some entry \<Rightarrow>
          let (st1, outcome) = (if enabled then enableExtension h n entry st else disableExtension h n entry st) in
          if outcome = RejectedOutcome then (st1, outcome)
          else (record_call (EnabledChanged n enabled) st1, outcome))"

section \<open>Operator preferences\<close>

datatype set_enabled_reason =
    R_Critical | R_CriticalityUnknown | R_NotInstalled | R_NoCatalog | R_NameCollision | R_ShuttingDown
  | R_RuntimeStateDiverges | R_NotLoaded | R_FrameworkPackageShadowed

record set_enabled_result =
  sr_success :: bool
  sr_outcome :: transition_outcome
  sr_reason :: "set_enabled_reason option"

record installed_record =
  ir_critical :: bool
  ir_criticalityUnknown :: bool
  ir_collides :: bool

datatype catalog_lookup = CatalogUnavailable | CatalogResolved "installed_record option"

definition refusal :: "set_enabled_reason \<Rightarrow> set_enabled_result" where
  "refusal r = \<lparr> sr_success = False, sr_outcome = RejectedOutcome, sr_reason = Some r \<rparr>"

definition no_store_error :: "ext_name \<Rightarrow> kernel_error" where
  "no_store_error n = KError (''Cannot set enablement preference for '' @ [CHR 0x22] @ n @ [CHR 0x22] @
     '': this runtime has no durable enablement store, so extension enablement is not persistable here.'')"

definition headingEnabled :: "extension_entry \<Rightarrow> bool" where
  "headingEnabled entry =
     (if en_state entry = Active \<or> en_state entry = Initializing then True
      else if en_state entry = Discovered then en_enabled entry else False)"

definition persist ::
  "(trace \<Rightarrow> ext_name \<Rightarrow> bool \<Rightarrow> kernel_error option) \<Rightarrow> ext_name \<Rightarrow> bool \<Rightarrow> set_enabled_result \<Rightarrow>
   coordinator \<Rightarrow> coordinator \<times> (kernel_error + set_enabled_result)" where
  "persist write n enabled result st =
     (record_call (CallPersistEnabled n enabled) st,
      case write (co_trace st) n enabled of Some e \<Rightarrow> Inl e | None \<Rightarrow> Inr result)"

definition persistForLoadedEntry ::
  "host \<Rightarrow> ext_name \<Rightarrow> bool \<Rightarrow> extension_entry \<Rightarrow> coordinator \<Rightarrow>
   coordinator \<times> (kernel_error + set_enabled_result)" where
  "persistForLoadedEntry h n enabled entry st =
     (case h_persistEnabled h of
        None \<Rightarrow> (st, Inl (no_store_error n))
      | Some write \<Rightarrow>
          if \<not> enabled \<and> ext_critical (en_pkg entry) then (st, Inr (refusal R_Critical))
          else persist write n enabled
                 (if headingEnabled entry = enabled
                  then \<lparr> sr_success = True, sr_outcome = Applied, sr_reason = None \<rparr>
                  else \<lparr> sr_success = False, sr_outcome = RestartRequired,
                         sr_reason = Some R_RuntimeStateDiverges \<rparr>) st)"

definition persistForUnloadedName ::
  "host \<Rightarrow> ext_name \<Rightarrow> bool \<Rightarrow> bool \<Rightarrow> catalog_lookup \<Rightarrow> coordinator \<Rightarrow>
   coordinator \<times> (kernel_error + set_enabled_result)" where
  "persistForUnloadedName h n enabled frameworkHoldsName catalog st =
     (case h_persistEnabled h of
        None \<Rightarrow> (st, Inl (no_store_error n))
      | Some write \<Rightarrow>
          (case catalog of
             CatalogUnavailable \<Rightarrow>
               if frameworkHoldsName
               then (st, Inl (KError (''Cannot set enablement preference for '' @ [CHR 0x22] @ n @ [CHR 0x22] @
                      '': framework packages are always loaded and have no operator enablement preference.'')))
               else (st, Inr (refusal R_NoCatalog))
           | CatalogResolved None \<Rightarrow> (st, Inr (refusal R_NotInstalled))
           | CatalogResolved (Some r) \<Rightarrow>
               if \<not> enabled \<and> ir_critical r then (st, Inr (refusal R_Critical))
               else if \<not> enabled \<and> ir_criticalityUnknown r then (st, Inr (refusal R_CriticalityUnknown))
               else (let reason = (if frameworkHoldsName then R_FrameworkPackageShadowed else R_NotLoaded) in
                     persist write n enabled
                       (if enabled
                        then \<lparr> sr_success = False, sr_outcome = RestartRequired, sr_reason = Some reason \<rparr>
                        else \<lparr> sr_success = True, sr_outcome = Applied, sr_reason = Some reason \<rparr>) st)))"

definition handleSetEnabled ::
  "host \<Rightarrow> ext_name \<Rightarrow> bool \<Rightarrow> catalog_lookup \<Rightarrow> coordinator \<Rightarrow>
   coordinator \<times> (kernel_error + set_enabled_result)" where
  "handleSetEnabled h n enabled catalog st =
     (if (case catalog of CatalogResolved (Some r) \<Rightarrow> ir_collides r | _ \<Rightarrow> False)
      then (st, Inr (refusal R_NameCollision))
      else (case get_entry st n of
              Some entry \<Rightarrow>
                if en_managed entry then persistForLoadedEntry h n enabled entry st
                else persistForUnloadedName h n enabled True catalog st
            | None \<Rightarrow> persistForUnloadedName h n enabled False catalog st))"

section \<open>Shutdown\<close>

text \<open>
  \<open>shutdownExtensions\<close> on the names still to stop: the state, every teardown failure in order and the
  names that did not stop cleanly.
\<close>

fun shutdown_names ::
  "host \<Rightarrow> ext_name list \<Rightarrow> coordinator \<Rightarrow> coordinator \<times> kernel_error list \<times> ext_name list" where
  "shutdown_names h [] st = (st, [], [])"
| "shutdown_names h (n # ns) st =
     (case get_entry st n of
        None \<Rightarrow> shutdown_names h ns st
      | Some e \<Rightarrow>
          let (st1, f1) = (if en_state e = Active then runStoppedProcessors h n st else (st, []));
              (st2, f2) = call_destroy h n (en_service e) st1;
              (st3, f3) = call_storage_cleanup h n (en_storageCleanup e) st2;
              st4 = (if en_state e = Active then transitionPackageEntry n Stopped st3 else st3);
              (st5, fs, unclean) = shutdown_names h ns st4
          in (st5, f1 @ f2 @ f3 @ fs, (if f1 @ f2 @ f3 \<noteq> [] then [n] else []) @ unclean))"

definition shutdownExtensions ::
  "host \<Rightarrow> coordinator \<Rightarrow> coordinator \<times> kernel_error list \<times> ext_name list" where
  "shutdownExtensions h st = shutdown_names h (rev (co_loadOrder st)) st"

text \<open>The failures of the aggregate error; empty when the shutdown resolves.\<close>

definition shutdownInLifecycleLane :: "host \<Rightarrow> coordinator \<Rightarrow> coordinator \<times> kernel_error list" where
  "shutdownInLifecycleLane h st =
     (let rpc = h_rpcCleanupFailures h (co_trace st);
          (st1, fs, _) = shutdownExtensions h st
      in (st1, rpc @ fs))"

section \<open>Loading\<close>

definition soft_error :: "soft_warning list \<Rightarrow> ext_name \<Rightarrow> string option" where
  "soft_error ws n =
     (let messages = map snd (filter (\<lambda>w. fst w = n) ws)
      in if messages = [] then None else Some (join_with ''; '' messages))"

definition make_entry :: "host \<Rightarrow> ext_name list \<Rightarrow> soft_warning list \<Rightarrow> extension \<Rightarrow> extension_entry" where
  "make_entry h enabled ws pkg = \<lparr> en_pkg = pkg, en_state = Discovered,
     en_enabled = (ext_name pkg \<in> set enabled), en_managed = boot_managed (h_managedNames h) (ext_name pkg),
     en_service = None, en_storageCleanup = False, en_error = soft_error ws (ext_name pkg),
     en_warnings = [], en_surfacesCollected = False \<rparr>"

fun collect_surfaces ::
  "host \<Rightarrow> ext_name list \<Rightarrow> ext_name list \<Rightarrow> coordinator \<Rightarrow> coordinator \<times> kernel_error option" where
  "collect_surfaces h closed [] st = (st, None)"
| "collect_surfaces h closed (n # ns) st =
     (if n \<notin> set closed then collect_surfaces h closed ns st
      else (case h_registerNamespaces h n of
              Some e \<Rightarrow> (st, Some e)
            | None \<Rightarrow>
                collect_surfaces h closed ns (update_entry n (\<lambda>e. e\<lparr> en_surfacesCollected := True \<rparr>) st)))"

definition ordered_packages :: "extension list \<Rightarrow> ext_name list \<Rightarrow> extension list" where
  "ordered_packages eligible order = List.map_filter (\<lambda>n. find (\<lambda>p. ext_name p = n) eligible) order"

definition load ::
  "host \<Rightarrow> extension list \<Rightarrow> coordinator \<Rightarrow> coordinator \<times> (kernel_error + extension list)" where
  "load h packages st =
     (if co_shutdownRequested st
      then (st, Inl (KError ''ExtensionCoordinator.load() called after shutdown(). The coordinator is terminal.''))
      else if co_loaded st
      then (st, Inl (KError ''ExtensionCoordinator.load() called twice. The coordinator is single-use; create a new instance if needed.''))
      else (case coalesceExtensionOverrides (filterEligibleExtensions (h_sat h) packages (h_surface h) (h_env h))
                   (h_frameworkNames h) of
              Inl e \<Rightarrow> (st, Inl (KError e))
            | Inr eligible \<Rightarrow>
                let enabled = resolveBootEnabledNames eligible (h_managedNames h) (h_loadEnabled h) in
                (case topoSort (h_sat h) eligible (Some enabled) of
                   Inl e \<Rightarrow> (st, Inl (KError e))
                 | Inr (order, ws) \<Rightarrow>
                     let retained = ordered_packages eligible order;
                         entries = map (\<lambda>p. (ext_name p, make_entry h enabled ws p)) retained;
                         st1 = st\<lparr> co_loadOrder := order,
                                  co_entries := fold (\<lambda>(n, e) m. map_set n e m) entries (co_entries st) \<rparr>;
                         closed = fst (closeEnabledExtensionEntries
                                    (map (\<lambda>(n, e). (n, en_pkg e, en_enabled e)) entries))
                     in (case collect_surfaces h closed order st1 of
                           (st2, Some e) \<Rightarrow> (st2, Inl e)
                         | (st2, None) \<Rightarrow> (st2\<lparr> co_loaded := True \<rparr>, Inr retained)))))"

section \<open>Starting\<close>

definition migration_entries :: "coordinator \<Rightarrow> (ext_name \<times> extension \<times> bool) list" where
  "migration_entries st =
     List.map_filter (\<lambda>n. map_option (\<lambda>e. (n, en_pkg e, en_enabled e)) (get_entry st n)) (co_loadOrder st)"

fun migration_sources ::
  "host \<Rightarrow> ext_name list \<Rightarrow> (ext_name \<times> extension \<times> bool) list \<Rightarrow> kernel_error + ext_name list" where
  "migration_sources h closed [] = Inr []"
| "migration_sources h closed ((n, pkg, en) # rest) =
     (if n \<notin> set closed \<or> \<not> ext_migrations pkg then migration_sources h closed rest
      else (case h_migrationPath h n of
              Some e \<Rightarrow> Inl e
            | None \<Rightarrow>
                (case migration_sources h closed rest of Inl e \<Rightarrow> Inl e | Inr ns \<Rightarrow> Inr (n # ns))))"

definition runExtensionMigrations :: "host \<Rightarrow> coordinator \<Rightarrow> coordinator \<times> kernel_error option" where
  "runExtensionMigrations h st =
     (case h_runMigrations h of
        None \<Rightarrow> (st, None)
      | Some run \<Rightarrow>
          (case find (\<lambda>n. get_entry st n = None) (co_loadOrder st) of
             Some n \<Rightarrow> (st, Some (KError (''Extension '' @ [CHR 0x22] @ n @ [CHR 0x22] @
                          '' is in loadOrder but missing from entries'')))
           | None \<Rightarrow>
               (case migration_sources h (fst (closeEnabledExtensionEntries (migration_entries st)))
                       (migration_entries st) of
                  Inl e \<Rightarrow> (st, Some e)
                | Inr [] \<Rightarrow> (st, None)
                | Inr sources \<Rightarrow>
                    (record_call (CallMigrations sources) st, run (co_trace st) sources))))"

fun start_names ::
  "host \<Rightarrow> ext_name list \<Rightarrow> coordinator \<Rightarrow> coordinator \<times> kernel_error option" where
  "start_names h [] st = (st, None)"
| "start_names h (n # ns) st =
     (case get_entry st n of
        None \<Rightarrow> start_names h ns st
      | Some e \<Rightarrow>
          (case startExtensionEntry h n e st of
             (st1, Some err) \<Rightarrow> (st1, Some err)
           | (st1, None) \<Rightarrow> start_names h ns st1))"

definition startAllInLifecycleLane :: "host \<Rightarrow> coordinator \<Rightarrow> coordinator \<times> kernel_error option" where
  "startAllInLifecycleLane h st =
     (let st0 = st\<lparr> co_boot := \<lparr> bp_completed = 0, bp_failed = [], bp_skipped = [], bp_complete = False \<rparr> \<rparr>;
          (st1, thrown) =
            (case runExtensionMigrations h st0 of
               (st', Some e) \<Rightarrow> (st', Some e)
             | (st', None) \<Rightarrow>
                 (case start_names h (co_loadOrder st') st' of
                    (st'', Some e) \<Rightarrow> (st'', Some e)
                  | (st'', None) \<Rightarrow> (fold (runExtensionHealthCheck h) (co_loadOrder st'') st'', None)))
      in (boot_complete st1, thrown))"

section \<open>The lifecycle lane\<close>

text \<open>
  Operations are admitted to a first-in first-out lane and run one after the other; \<open>k_ran\<close> is the
  history of those that have run. Admission and the shutdown flag are decided in one turn.
\<close>

datatype lifecycle_op =
    OpStartAll
  | OpTransition ext_name bool
  | OpSetEnabled ext_name bool catalog_lookup
  | OpShutdown

record kernel =
  k_co :: coordinator
  k_lane :: "lifecycle_op list"
  k_ran :: "lifecycle_op list"

definition new_coordinator :: coordinator where
  "new_coordinator = \<lparr> co_entries = [], co_loadOrder = [], co_loaded = False, co_started = False,
     co_shutdownRequested = False, co_processors = [],
     co_boot = \<lparr> bp_completed = 0, bp_failed = [], bp_skipped = [], bp_complete = False \<rparr>, co_trace = [] \<rparr>"

definition new_kernel :: kernel where
  "new_kernel = \<lparr> k_co = new_coordinator, k_lane = [], k_ran = [] \<rparr>"

definition enqueueLifecycle :: "lifecycle_op \<Rightarrow> kernel \<Rightarrow> kernel" where
  "enqueueLifecycle op k = k\<lparr> k_lane := k_lane k @ [op] \<rparr>"

definition admitLifecycle :: "lifecycle_op \<Rightarrow> kernel \<Rightarrow> kernel" where
  "admitLifecycle op k = (if co_shutdownRequested (k_co k) then k else enqueueLifecycle op k)"

definition startAll :: "kernel \<Rightarrow> kernel \<times> kernel_error option" where
  "startAll k =
     (if co_shutdownRequested (k_co k)
      then (k, Some (KError ''ExtensionCoordinator.startAll() called after shutdown(). The coordinator is terminal.''))
      else if \<not> co_loaded (k_co k)
      then (k, Some (KError ''ExtensionCoordinator.startAll() called before load(). Call load() first.''))
      else if co_started (k_co k)
      then (k, Some (KError ''ExtensionCoordinator.startAll() called twice. The coordinator is single-use; create a new instance if needed.''))
      else (enqueueLifecycle OpStartAll (k\<lparr> k_co := (k_co k)\<lparr> co_started := True \<rparr> \<rparr>), None))"

definition shutdown :: "kernel \<Rightarrow> kernel" where
  "shutdown k =
     (if co_shutdownRequested (k_co k) then k
      else enqueueLifecycle OpShutdown (k\<lparr> k_co := (k_co k)\<lparr> co_shutdownRequested := True \<rparr> \<rparr>))"

definition registerContributionProcessor :: "contribution_processor \<Rightarrow> coordinator \<Rightarrow> coordinator" where
  "registerContributionProcessor p st = st\<lparr> co_processors := co_processors st @ [p] \<rparr>"

definition unregisterContributionProcessor :: "contribution_processor \<Rightarrow> coordinator \<Rightarrow> coordinator" where
  "unregisterContributionProcessor p st =
     (let other = (\<lambda>q. proc_id q \<noteq> proc_id p) in
      st\<lparr> co_processors := takeWhile other (co_processors st) @ drop 1 (dropWhile other (co_processors st)) \<rparr>)"

fun run_op :: "host \<Rightarrow> lifecycle_op \<Rightarrow> coordinator \<Rightarrow> coordinator" where
  "run_op h OpStartAll st = fst (startAllInLifecycleLane h st)"
| "run_op h (OpTransition n enabled) st = fst (applyExtensionTransition h n enabled st)"
| "run_op h (OpSetEnabled n enabled catalog) st = fst (handleSetEnabled h n enabled catalog st)"
| "run_op h OpShutdown st = fst (shutdownInLifecycleLane h st)"

fun run_head :: "host \<Rightarrow> kernel \<Rightarrow> kernel" where
  "run_head h k =
     (case k_lane k of
        [] \<Rightarrow> k
      | op # ops \<Rightarrow> k\<lparr> k_co := run_op h op (k_co k), k_lane := ops, k_ran := k_ran k @ [op] \<rparr>)"

inductive kernel_step :: "host \<Rightarrow> kernel \<Rightarrow> kernel \<Rightarrow> bool" for h where
  ks_load: "kernel_step h k (k\<lparr> k_co := fst (load h packages (k_co k)) \<rparr>)"
| ks_register: "kernel_step h k (k\<lparr> k_co := registerContributionProcessor p (k_co k) \<rparr>)"
| ks_unregister: "kernel_step h k (k\<lparr> k_co := unregisterContributionProcessor p (k_co k) \<rparr>)"
| ks_startAll: "kernel_step h k (fst (startAll k))"
| ks_transition: "kernel_step h k (admitLifecycle (OpTransition n enabled) k)"
| ks_setEnabled: "kernel_step h k (admitLifecycle (OpSetEnabled n enabled catalog) k)"
| ks_shutdown: "kernel_step h k (shutdown k)"
| ks_run: "kernel_step h k (run_head h k)"

inductive kernel_reach :: "host \<Rightarrow> kernel \<Rightarrow> bool" for h where
  kr_new: "kernel_reach h new_kernel"
| kr_step: "kernel_reach h k \<Longrightarrow> kernel_step h k k' \<Longrightarrow> kernel_reach h k'"

end
