(* ===== verification/Extension_Lifecycle_Laws.thy ===== *)
theory Extension_Lifecycle_Laws
  imports Extension_Coordinator
begin

text \<open>
  What each lifecycle operation does to the entries: it changes only the entry it is about, never the
  manifest, the managed flag or the collected-surfaces flag, and leaves it in a settled state. The
  invariants of the coordinator rest on these lemmas.
\<close>

named_theorems kernel_simps \<open>lookups after the primitive updates of the coordinator\<close>

section \<open>Primitive updates\<close>

definition co_static :: "coordinator \<Rightarrow> ext_name list \<times> bool \<times> bool \<times> bool \<times> contribution_processor list" where
  "co_static st = (co_loadOrder st, co_loaded st, co_started st, co_shutdownRequested st, co_processors st)"

lemma get_entry_record [kernel_simps]: "get_entry (record_call c st) m = get_entry st m"
  by (simp add: get_entry_def record_call_def)

lemma static_record [kernel_simps]: "co_static (record_call c st) = co_static st"
  by (simp add: co_static_def record_call_def)

lemma get_entry_update [kernel_simps]:
  "get_entry (update_entry n f st) m =
     (if m = n then map_option f (get_entry st n) else get_entry st m)"
  by (auto simp: get_entry_def update_entry_def js_simps split: option.split)

lemma static_update [kernel_simps]: "co_static (update_entry n f st) = co_static st"
  by (simp add: co_static_def update_entry_def split: option.split)

lemma get_entry_transition [kernel_simps]:
  "get_entry (transitionPackageEntry n to st) m =
     (if m = n then map_option (\<lambda>e. e\<lparr> en_state := to \<rparr>) (get_entry st n) else get_entry st m)"
  by (simp add: transitionPackageEntry_def kernel_simps split: option.split)

lemma static_transition [kernel_simps]: "co_static (transitionPackageEntry n to st) = co_static st"
  by (simp add: transitionPackageEntry_def kernel_simps split: option.split)

lemma get_entry_boot [kernel_simps]:
  "get_entry (boot_ready n st) m = get_entry st m" "get_entry (boot_failed n st) m = get_entry st m"
  "get_entry (boot_skipped n st) m = get_entry st m" "get_entry (boot_complete st) m = get_entry st m"
  by (simp_all add: get_entry_def boot_ready_def boot_failed_def boot_skipped_def boot_complete_def)

lemma static_boot [kernel_simps]:
  "co_static (boot_ready n st) = co_static st" "co_static (boot_failed n st) = co_static st"
  "co_static (boot_skipped n st) = co_static st" "co_static (boot_complete st) = co_static st"
  by (simp_all add: co_static_def boot_ready_def boot_failed_def boot_skipped_def boot_complete_def)

lemma get_entry_failEntry [kernel_simps]:
  "get_entry (failEntry n message st) m =
     (if m = n then map_option (\<lambda>e. e\<lparr> en_error := Some message, en_state := Failed \<rparr>) (get_entry st n)
      else get_entry st m)"
  by (simp add: failEntry_def kernel_simps option.map_comp comp_def)

lemma static_failEntry [kernel_simps]: "co_static (failEntry n message st) = co_static st"
  by (simp add: failEntry_def kernel_simps)

lemma get_entry_storageCleanup [kernel_simps]:
  "get_entry (runStorageCleanup n st) m =
     (if m = n then map_option (\<lambda>e. e\<lparr> en_storageCleanup := False \<rparr>) (get_entry st n) else get_entry st m)"
  by (cases "get_entry st n") (simp_all add: runStorageCleanup_def kernel_simps)

lemma static_storageCleanup [kernel_simps]: "co_static (runStorageCleanup n st) = co_static st"
  by (simp add: runStorageCleanup_def kernel_simps split: option.split)

lemma get_entry_tray [kernel_simps]: "get_entry (registerEntryTray n pkg st) m = get_entry st m"
  by (simp add: registerEntryTray_def kernel_simps)

lemma static_tray [kernel_simps]: "co_static (registerEntryTray n pkg st) = co_static st"
  by (simp add: registerEntryTray_def kernel_simps)

lemma get_entry_destroy [kernel_simps]: "get_entry (destroy_service n svc st) m = get_entry st m"
  by (simp add: destroy_service_def kernel_simps split: option.split)

lemma static_destroy [kernel_simps]: "co_static (destroy_service n svc st) = co_static st"
  by (simp add: destroy_service_def kernel_simps split: option.split)

lemma get_entry_rollback [kernel_simps]: "get_entry (rollback_processors n ps st) m = get_entry st m"
  by (induction n ps st rule: rollback_processors.induct) (simp_all add: kernel_simps)

lemma static_rollback [kernel_simps]: "co_static (rollback_processors n ps st) = co_static st"
  by (induction n ps st rule: rollback_processors.induct) (simp_all add: kernel_simps)

lemma get_entry_activated [kernel_simps]:
  "get_entry (fst (run_activated h n pkg ps activated st)) m = get_entry st m"
  by (induction h n pkg ps activated st rule: run_activated.induct)
    (simp_all add: kernel_simps Let_def split: option.split)

lemma static_activated [kernel_simps]:
  "co_static (fst (run_activated h n pkg ps activated st)) = co_static st"
  by (induction h n pkg ps activated st rule: run_activated.induct)
    (simp_all add: kernel_simps Let_def split: option.split)

lemma runActivated_frame [kernel_simps]:
  "get_entry (fst (runActivatedProcessors h n pkg st)) m = get_entry st m"
  "co_static (fst (runActivatedProcessors h n pkg st)) = co_static st"
  by (simp_all add: runActivatedProcessors_def kernel_simps)

lemma run_stopped_frame:
  "get_entry (fst (run_stopped h n ps st)) m = get_entry st m"
  "co_static (fst (run_stopped h n ps st)) = co_static st"
  by (induction h n ps st rule: run_stopped.induct)
    (simp_all add: kernel_simps Let_def case_prod_beta)

lemma runStopped_frame [kernel_simps]:
  "get_entry (fst (runStoppedProcessors h n st)) m = get_entry st m"
  "co_static (fst (runStoppedProcessors h n st)) = co_static st"
  by (simp_all add: runStoppedProcessors_def run_stopped_frame)

lemma create_service_frame [kernel_simps]:
  "get_entry (fst (create_service h n st)) m = get_entry st m"
  "co_static (fst (create_service h n st)) = co_static st"
  by (simp_all add: create_service_def kernel_simps Let_def split: option.split sum.split)

section \<open>Starting an entry\<close>

text \<open>
  What an operation on the entry \<open>n\<close> may do: nothing to the other entries, and nothing to what is fixed
  at load time.
\<close>

definition same_manifest :: "extension_entry \<Rightarrow> extension_entry \<Rightarrow> bool" where
  "same_manifest e e' \<longleftrightarrow> en_pkg e' = en_pkg e \<and> en_managed e' = en_managed e \<and>
     en_surfacesCollected e' = en_surfacesCollected e"

definition entry_frame :: "ext_name \<Rightarrow> coordinator \<Rightarrow> coordinator \<Rightarrow> bool" where
  "entry_frame n st st' \<longleftrightarrow> co_static st' = co_static st \<and> (\<forall>m. m \<noteq> n \<longrightarrow> get_entry st' m = get_entry st m)"

definition clean :: "extension_entry \<Rightarrow> bool" where
  "clean e \<longleftrightarrow> en_service e = None \<and> \<not> en_storageCleanup e"

text \<open>The outcome of starting entry \<open>e\<close>: \<open>ok\<close> says that its required dependencies are active.\<close>

definition started_as :: "bool \<Rightarrow> extension_entry \<Rightarrow> extension_entry \<Rightarrow> bool" where
  "started_as ok e e' \<longleftrightarrow> same_manifest e e' \<and> en_enabled e' = en_enabled e \<and>
     en_state e' \<in> {Active, Failed, Skipped} \<and> (\<not> en_enabled e \<longrightarrow> en_state e' = Skipped) \<and>
     (en_state e' = Active \<longrightarrow> en_enabled e \<and> ok) \<and> (en_state e' \<noteq> Active \<longrightarrow> clean e')"

lemma entry_frame_trans: "entry_frame n a b \<Longrightarrow> entry_frame n b c \<Longrightarrow> entry_frame n a c"
  by (simp add: entry_frame_def)

lemma start_failure_result:
  assumes "get_entry st n = Some e" and "clean e"
  shows "entry_frame n st (fst (start_failure n pkg err st)) \<and>
    (\<exists>e'. get_entry (fst (start_failure n pkg err st)) n = Some e' \<and> same_manifest e e' \<and>
       en_enabled e' = en_enabled e \<and> en_state e' \<in> {Failed, Skipped} \<and> clean e')"
  using assms
  by (cases err) (simp_all add: start_failure_def kernel_simps Let_def entry_frame_def
      same_manifest_def clean_def)

lemma finish_start_result:
  assumes "get_entry st n = Some e"
  shows "entry_frame n st (fst (finish_start n pkg st)) \<and>
    get_entry (fst (finish_start n pkg st)) n = Some (e\<lparr> en_state := Active \<rparr>)"
  using assms by (simp add: finish_start_def kernel_simps entry_frame_def)

lemma abandon_start_result:
  assumes "get_entry st n = Some e"
  shows "entry_frame n st (fst (abandon_start n pkg svc err st)) \<and>
    (\<exists>e'. get_entry (fst (abandon_start n pkg svc err st)) n = Some e' \<and> same_manifest e e' \<and>
       en_enabled e' = en_enabled e \<and> en_state e' \<in> {Failed, Skipped} \<and> clean e')"
proof -
  let ?st = "runStorageCleanup n (update_entry n (\<lambda>e. e\<lparr> en_service := None \<rparr>) (destroy_service n svc st))"
  have e: "get_entry ?st n = Some (e\<lparr> en_service := None, en_storageCleanup := False \<rparr>)"
    and fr: "entry_frame n st ?st"
    using assms by (simp_all add: kernel_simps entry_frame_def)
  from start_failure_result [OF e, of pkg err] fr show ?thesis
    by (auto simp: abandon_start_def same_manifest_def clean_def intro: entry_frame_trans)
qed

lemma startWithoutService_result:
  assumes "get_entry st n = Some e" and "en_service e = None"
  shows "entry_frame n st (fst (startEntryWithoutService h n pkg st)) \<and>
    (\<exists>e'. get_entry (fst (startEntryWithoutService h n pkg st)) n = Some e' \<and> same_manifest e e' \<and>
       en_enabled e' = en_enabled e \<and> en_state e' \<in> {Active, Failed, Skipped} \<and>
       (en_state e' \<noteq> Active \<longrightarrow> clean e'))"
proof -
  obtain st1 r where run: "runActivatedProcessors h n pkg st = (st1, r)" by (cases "runActivatedProcessors h n pkg st")
  have e1: "get_entry st1 n = Some e" and fr: "entry_frame n st st1"
    using runActivated_frame [of h n pkg st] assms run by (simp_all add: entry_frame_def)
  show ?thesis
  proof (cases r)
    case None
    with finish_start_result [OF e1, of pkg] fr show ?thesis
      by (auto simp: startEntryWithoutService_def run same_manifest_def intro: entry_frame_trans)
  next
    case (Some err)
    have e2: "get_entry (runStorageCleanup n st1) n = Some (e\<lparr> en_storageCleanup := False \<rparr>)"
      and fr2: "entry_frame n st (runStorageCleanup n st1)"
      using e1 fr by (simp_all add: kernel_simps entry_frame_def)
    from start_failure_result [OF e2, of pkg err] fr2 assms(2) Some show ?thesis
      by (auto simp: startEntryWithoutService_def run same_manifest_def clean_def intro: entry_frame_trans)
  qed
qed

lemma startWithService_result:
  assumes "get_entry st n = Some e"
  shows "entry_frame n st (fst (startEntryWithService h n pkg st)) \<and>
    (\<exists>e'. get_entry (fst (startEntryWithService h n pkg st)) n = Some e' \<and> same_manifest e e' \<and>
       en_enabled e' = en_enabled e \<and> en_state e' \<in> {Active, Failed, Skipped} \<and>
       (en_state e' \<noteq> Active \<longrightarrow> clean e'))"
proof -
  obtain st1 svc r where c: "create_service h n st = (st1, svc, r)" by (cases "create_service h n st")
  have e1: "get_entry st1 n = Some e" and fr1: "entry_frame n st st1"
    using create_service_frame [of h n st] assms c by (simp_all add: entry_frame_def)
  show ?thesis
  proof (cases r)
    case (Some err)
    with abandon_start_result [OF e1, of pkg svc err] fr1 show ?thesis
      by (auto simp: startEntryWithService_def c intro: entry_frame_trans)
  next
    case None
    let ?st2 = "update_entry n (\<lambda>e. e\<lparr> en_service := svc \<rparr>) st1"
    obtain st3 r3 where run: "runActivatedProcessors h n pkg ?st2 = (st3, r3)"
      by (cases "runActivatedProcessors h n pkg ?st2")
    have e3: "get_entry st3 n = Some (e\<lparr> en_service := svc \<rparr>)" and fr3: "entry_frame n st st3"
      using runActivated_frame [of h n pkg ?st2] e1 fr1 run by (simp_all add: kernel_simps entry_frame_def)
    show ?thesis
    proof (cases r3)
      case None3: None
      with finish_start_result [OF e3, of pkg] fr3 None show ?thesis
        by (auto simp: startEntryWithService_def c run same_manifest_def intro: entry_frame_trans)
    next
      case (Some err)
      with abandon_start_result [OF e3, of pkg svc err] fr3 None show ?thesis
        by (auto simp: startEntryWithService_def c run same_manifest_def intro: entry_frame_trans)
    qed
  qed
qed

lemma registerEntryStorage_result:
  assumes "get_entry st n = Some e" and "clean e"
    and "registerEntryStorage h n pkg st = (st', go, thrown')"
  shows "entry_frame n st st' \<and> (\<exists>e'. get_entry st' n = Some e' \<and> same_manifest e e' \<and>
      en_enabled e' = en_enabled e \<and> en_service e' = None \<and>
      (if go then en_state e' = en_state e else en_state e' = Failed \<and> clean e'))"
  using assms
  by (auto simp: registerEntryStorage_def kernel_simps entry_frame_def same_manifest_def clean_def Let_def
      split: if_splits option.splits sum.splits)

lemma startExtensionEntry_result:
  assumes e: "get_entry st n = Some e" and "clean e"
  shows "entry_frame n st (fst (startExtensionEntry h n e st)) \<and>
    (\<exists>e'. get_entry (fst (startExtensionEntry h n e st)) n = Some e' \<and>
       started_as (inactive_deps st (en_pkg e) = []) e e')"
proof -
  let ?st1 = "transitionPackageEntry n Initializing st"
  have e1: "get_entry ?st1 n = Some (e\<lparr> en_state := Initializing \<rparr>)" and fr1: "entry_frame n st ?st1"
    using e by (simp_all add: kernel_simps entry_frame_def)
  have c1: "clean (e\<lparr> en_state := Initializing \<rparr>)" using assms(2) by (simp add: clean_def)
  obtain st2 go thr where reg: "registerEntryStorage h n (en_pkg e) ?st1 = (st2, go, thr)"
    by (cases "registerEntryStorage h n (en_pkg e) ?st1")
  from registerEntryStorage_result [OF e1 c1 reg] obtain e2 where
    fr2: "entry_frame n ?st1 st2" and e2: "get_entry st2 n = Some e2"
    and same: "same_manifest (e\<lparr> en_state := Initializing \<rparr>) e2" "en_enabled e2 = en_enabled e" "en_service e2 = None"
    and go: "if go then en_state e2 = Initializing else en_state e2 = Failed \<and> clean e2"
    by auto
  have fr: "entry_frame n st st2" using fr1 fr2 by (rule entry_frame_trans)
  note without = startWithoutService_result [OF e2 same(3), of h "en_pkg e"]
  note with_svc = startWithService_result [OF e2, of h "en_pkg e"]
  have early: "\<not> en_enabled e \<or> inactive_deps st (en_pkg e) \<noteq> [] \<or> checkExtensionNameAddressable n \<noteq> None \<or>
      h_config h (co_trace ?st1) n \<noteq> None \<Longrightarrow> ?thesis"
    using assms by (cases "checkExtensionNameAddressable n")
      (auto simp: startExtensionEntry_def kernel_simps entry_frame_def started_as_def
        same_manifest_def clean_def Let_def)
  show ?thesis
  proof (cases "en_enabled e \<and> inactive_deps st (en_pkg e) = [] \<and> checkExtensionNameAddressable n = None \<and>
      h_config h (co_trace ?st1) n = None")
    case False
    then show ?thesis by (intro early) (simp only: de_Morgan_conj not_not simp_thms)
  next
    case True
    then have start: "startExtensionEntry h n e st =
        (if \<not> go then (st2, thr)
         else if \<not> ext_create (en_pkg e) then startEntryWithoutService h n (en_pkg e) st2
         else startEntryWithService h n (en_pkg e) st2)"
      by (simp add: startExtensionEntry_def reg Let_def)
    show ?thesis
    proof (cases go)
      case False
      with go same e2 fr True show ?thesis
        by (auto simp: start started_as_def same_manifest_def)
    next
      case go': True
      show ?thesis
        using without with_svc same True entry_frame_trans [OF fr]
        by (auto simp: start go' started_as_def same_manifest_def)
    qed
  qed
qed

section \<open>Enabling and disabling\<close>

lemma failReEnable_frame [kernel_simps]:
  "get_entry (fst (failReEnable n message st)) m =
     (if m = n then map_option (\<lambda>e. e\<lparr> en_error := Some message, en_state := Failed \<rparr>) (get_entry st n)
      else get_entry st m)"
  "co_static (fst (failReEnable n message st)) = co_static st"
  "snd (failReEnable n message st) = RejectedOutcome"
  by (simp_all add: failReEnable_def kernel_simps option.map_comp comp_def)

lemma settle_failed_frame [kernel_simps]:
  "get_entry (settle_failed_enable n to message st) m =
     (if m = n then map_option (\<lambda>e. e\<lparr> en_error := Some message, en_state := to \<rparr>) (get_entry st n)
      else get_entry st m)"
  "co_static (settle_failed_enable n to message st) = co_static st"
  by (simp_all add: settle_failed_enable_def kernel_simps option.map_comp comp_def)

lemma cleanupFailed_frame [kernel_simps]:
  "get_entry (cleanupFailedEnable n svc cleanup st) m =
     (if m = n then map_option (\<lambda>e. e\<lparr> en_storageCleanup := False \<rparr>) (get_entry st n) else get_entry st m)"
  "co_static (cleanupFailedEnable n svc cleanup st) = co_static st"
  by (simp_all add: cleanupFailedEnable_def kernel_simps)

lemma health_frame [kernel_simps]:
  "get_entry (runExtensionHealthCheck h n st) m =
     (if m = n then map_option (\<lambda>e. if (\<exists>s. en_service e = Some s \<and> svc_checkHealth s) \<and> en_state e = Active
          then e\<lparr> en_warnings := h_checkHealth h (co_trace st) n \<rparr> else e) (get_entry st n)
      else get_entry st m)"
  "co_static (runExtensionHealthCheck h n st) = co_static st"
  by (auto simp: runExtensionHealthCheck_def kernel_simps Let_def split: option.split)

text \<open>The outcome of enabling entry \<open>e\<close>.\<close>

definition enabled_as :: "bool \<Rightarrow> extension_entry \<Rightarrow> extension_entry \<Rightarrow> bool" where
  "enabled_as ok e e' \<longleftrightarrow> same_manifest e e' \<and> en_state e' \<noteq> Initializing \<and>
     (en_state e' \<noteq> en_state e \<or> en_enabled e' \<noteq> en_enabled e \<longrightarrow> en_state e \<notin> {Discovered, Initializing}) \<and>
     (en_state e = Skipped \<and> \<not> en_surfacesCollected e \<longrightarrow>
        en_state e' = Skipped \<and> en_enabled e' = en_enabled e) \<and>
     (en_state e' = Active \<longrightarrow> en_state e = Active \<or> ok) \<and>
     (en_state e = Active \<longrightarrow> en_state e' = Active \<and> en_service e' = en_service e) \<and>
     (en_state e' \<noteq> Active \<longrightarrow> clean e')"

lemma reinitializeService_result:
  assumes "get_entry st n = Some e" and "en_service e = None" and "en_storageCleanup e \<longrightarrow> cleanup"
    and "reinitializeService h n pkg cleanup st = (st', go)"
  shows "entry_frame n st st' \<and> (\<exists>e'. get_entry st' n = Some e' \<and> same_manifest e e' \<and>
      (if go then en_state e' = en_state e else en_state e' \<in> {Failed, Skipped} \<and> clean e'))"
proof -
  obtain st1 svc r where c: "create_service h n st = (st1, svc, r)" by (cases "create_service h n st")
  have e1: "get_entry st1 n = Some e" and fr1: "entry_frame n st st1"
    using create_service_frame [of h n st] assms c by (simp_all add: entry_frame_def)
  show ?thesis
    using assms(1,2,4) e1 fr1
    by (auto simp: reinitializeService_def c kernel_simps entry_frame_def same_manifest_def clean_def Let_def
        split: if_splits option.splits kernel_error.splits)
qed

lemma reregister_storage_result:
  assumes "get_entry st n = Some e" and "clean e"
    and "reregister_storage h n pkg st = (st', cleanup, r)"
  shows "entry_frame n st st' \<and> (\<exists>e'. get_entry st' n = Some e' \<and> same_manifest e e' \<and>
      en_state e' = en_state e \<and> en_service e' = None \<and> en_storageCleanup e' = cleanup \<and> (r \<noteq> None \<longrightarrow> clean e'))"
  using assms
  by (auto simp: reregister_storage_def kernel_simps entry_frame_def same_manifest_def clean_def Let_def
      split: if_splits option.splits sum.splits)

lemma reactivate_result:
  assumes e: "get_entry st n = Some e" and clean: "clean e"
  shows "entry_frame n st (fst (reactivate h n pkg st)) \<and>
    (\<exists>e'. get_entry (fst (reactivate h n pkg st)) n = Some e' \<and> same_manifest e e' \<and>
       en_state e' \<in> {Active, Failed, Skipped} \<and> (en_state e' \<noteq> Active \<longrightarrow> clean e') \<and>
       (snd (reactivate h n pkg st) = RejectedOutcome \<longleftrightarrow> en_state e' \<noteq> Active))"
proof -
  let ?e1 = "e\<lparr> en_enabled := True, en_error := None, en_state := Initializing \<rparr>"
  let ?st1 = "transitionPackageEntry n Initializing
                  (update_entry n (\<lambda>e. e\<lparr> en_enabled := True, en_error := None \<rparr>) st)"
  have e1: "get_entry ?st1 n = Some ?e1" and fr1: "entry_frame n st ?st1" and c1: "clean ?e1"
    using e clean by (simp_all add: kernel_simps entry_frame_def clean_def)
  obtain st2 cleanup r where reg: "reregister_storage h n pkg ?st1 = (st2, cleanup, r)"
    by (cases "reregister_storage h n pkg ?st1")
  from reregister_storage_result [OF e1 c1 reg] obtain e2 where
    fr2: "entry_frame n ?st1 st2" and e2: "get_entry st2 n = Some e2" "same_manifest ?e1 e2"
      "en_service e2 = None" "en_storageCleanup e2 = cleanup" "r \<noteq> None \<longrightarrow> clean e2"
    by blast
  have fr: "entry_frame n st st2" using fr1 fr2 by (rule entry_frame_trans)
  obtain st3 go where re: "reinitializeService h n pkg cleanup st2 = (st3, go)"
    by (cases "reinitializeService h n pkg cleanup st2")
  from reinitializeService_result [OF e2(1,3) _ re] e2(4) obtain e3 where
    fr3: "entry_frame n st2 st3" and e3: "get_entry st3 n = Some e3" "same_manifest e2 e3"
      "if go then en_state e3 = en_state e2 else en_state e3 \<in> {Failed, Skipped} \<and> clean e3"
    by blast
  have fr': "entry_frame n st st3" using fr fr3 by (rule entry_frame_trans)
  obtain st4 r4 where run: "runActivatedProcessors h n pkg st3 = (st4, r4)"
    by (cases "runActivatedProcessors h n pkg st3")
  have e4: "get_entry st4 n = Some e3" and fr4: "entry_frame n st st4"
    using runActivated_frame [of h n pkg st3] e3 fr' run by (simp_all add: entry_frame_def)
  have same: "same_manifest e e2" "same_manifest e e3" using e2(2) e3(2) by (simp_all add: same_manifest_def)
  have result: "reactivate h n pkg st =
      (case h_config h (co_trace ?st1) n of
         Some e \<Rightarrow> failReEnable n (''Config resolution failed: '' @ getErrorString e) ?st1
       | None \<Rightarrow>
           (case r of
              Some e \<Rightarrow> (settle_failed_enable n Failed (getErrorString e) st2, RejectedOutcome)
            | None \<Rightarrow>
                if \<not> go then (st3, RejectedOutcome)
                else (case r4 of
                   Some e \<Rightarrow> (settle_failed_enable n Failed (getErrorString e)
                     (update_entry n (\<lambda>e. e\<lparr> en_service := None \<rparr>)
                       (cleanupFailedEnable n (en_service e3) cleanup st4)), RejectedOutcome)
                 | None \<Rightarrow> (runExtensionHealthCheck h n
                     (registerEntryTray n pkg (transitionPackageEntry n Active st4)), Applied))))"
    by (simp add: reactivate_def Let_def reg re run e4 split: option.split)
  consider (config) err where "h_config h (co_trace ?st1) n = Some err"
    | (storage) err where "h_config h (co_trace ?st1) n = None" "r = Some err"
    | (service) "h_config h (co_trace ?st1) n = None" "r = None" "\<not> go"
    | (processors) err where "h_config h (co_trace ?st1) n = None" "r = None" "go" "r4 = Some err"
    | (active) "h_config h (co_trace ?st1) n = None" "r = None" "go" "r4 = None"
    by (cases "h_config h (co_trace ?st1) n"; cases r; cases go; cases r4) auto
  then show ?thesis
  proof cases
    case config
    with e clean show ?thesis
      by (simp add: result kernel_simps entry_frame_def same_manifest_def clean_def)
  next
    case storage
    with e2 fr same show ?thesis
      by (simp add: result kernel_simps entry_frame_def same_manifest_def clean_def)
  next
    case service
    with e3 fr' same show ?thesis by (auto simp: result)
  next
    case processors
    with e4 fr4 same show ?thesis
      by (simp add: result kernel_simps entry_frame_def same_manifest_def clean_def)
  next
    case active
    with e4 fr4 same show ?thesis
      by (simp add: result kernel_simps entry_frame_def same_manifest_def)
  qed
qed

lemma enableExtension_result:
  assumes e: "get_entry st n = Some e" and inv: "en_state e \<noteq> Active \<longrightarrow> clean e" "en_state e \<noteq> Initializing"
  shows "entry_frame n st (fst (enableExtension h n e st)) \<and>
    (\<exists>e'. get_entry (fst (enableExtension h n e st)) n = Some e' \<and>
       enabled_as (inactive_deps st (en_pkg e) = []) e e' \<and>
       (snd (enableExtension h n e st) \<noteq> RejectedOutcome \<longrightarrow> en_state e' = Active))"
proof (cases "en_state e = Active \<or> en_state e = Discovered \<or> en_state e = Skipped \<and> \<not> en_surfacesCollected e \<or>
    inactive_deps st (en_pkg e) \<noteq> [] \<or> checkExtensionNameAddressable n \<noteq> None")
  case True
  have guard: "(en_state e \<noteq> Stopped \<and> en_state e \<noteq> Failed \<and> en_state e \<noteq> Skipped) \<longleftrightarrow>
      en_state e = Active \<or> en_state e = Discovered" using inv(2) by (cases "en_state e") auto
  from True assms show ?thesis
    by (auto simp: enableExtension_def guard kernel_simps entry_frame_def enabled_as_def same_manifest_def
        clean_def split: option.split)
next
  case False
  have "clean e" "en_state e \<in> {Stopped, Failed, Skipped}"
    using False inv by (cases "en_state e", auto)+
  moreover from this have "enableExtension h n e st = reactivate h n (en_pkg e) st"
    using False by (auto simp: enableExtension_def)
  ultimately show ?thesis
    using reactivate_result [OF e, of h "en_pkg e"] False by (auto simp: enabled_as_def)
qed

text \<open>The outcome of disabling entry \<open>e\<close>: \<open>free\<close> says that no active extension requires it.\<close>

definition disabled_as :: "bool \<Rightarrow> extension_entry \<Rightarrow> extension_entry \<Rightarrow> bool" where
  "disabled_as free e e' \<longleftrightarrow> same_manifest e e' \<and> (en_enabled e' \<longrightarrow> en_enabled e) \<and>
     (en_state e' = en_state e \<and> en_service e' = en_service e \<and> en_storageCleanup e' = en_storageCleanup e \<or>
      en_state e = Active \<and> en_state e' = Stopped \<and> free \<and> clean e')"

lemma call_destroy_frame [kernel_simps]:
  "get_entry (fst (call_destroy h n svc st)) m =
     (if m = n \<and> svc \<noteq> None then map_option (\<lambda>e. e\<lparr> en_service := None \<rparr>) (get_entry st n) else get_entry st m)"
  "co_static (fst (call_destroy h n svc st)) = co_static st"
  by (simp_all add: call_destroy_def kernel_simps split: option.split)

lemma call_storage_frame [kernel_simps]:
  "get_entry (fst (call_storage_cleanup h n present st)) m =
     (if m = n \<and> present then map_option (\<lambda>e. e\<lparr> en_storageCleanup := False \<rparr>) (get_entry st n) else get_entry st m)"
  "co_static (fst (call_storage_cleanup h n present st)) = co_static st"
  by (simp_all add: call_storage_cleanup_def kernel_simps)

lemma unregister_tray_frame [kernel_simps]:
  "get_entry (fst (unregister_tray h n pkg st)) m = get_entry st m"
  "co_static (fst (unregister_tray h n pkg st)) = co_static st"
  by (simp_all add: unregister_tray_def kernel_simps)

lemma disableExtension_result:
  assumes "get_entry st n = Some e"
  shows "entry_frame n st (fst (disableExtension h n e st)) \<and>
    (\<exists>e'. get_entry (fst (disableExtension h n e st)) n = Some e' \<and>
       disabled_as (active_dependents st n = []) e e' \<and>
       (snd (disableExtension h n e st) \<noteq> RejectedOutcome \<longrightarrow> \<not> en_enabled e' \<and> en_state e' \<noteq> Active))"
proof (cases "en_state e = Active \<and> active_dependents st n = []")
  case False
  with assms show ?thesis
    by (auto simp: disableExtension_def kernel_simps entry_frame_def disabled_as_def same_manifest_def)
next
  case True
  then show ?thesis
    using assms by (simp add: disableExtension_def case_prod_beta kernel_simps entry_frame_def Let_def
        disabled_as_def same_manifest_def clean_def)
qed

section \<open>The invariant of the entries\<close>

definition requires :: "extension_entry \<Rightarrow> ext_name \<Rightarrow> bool" where
  "requires e m \<longleftrightarrow> (\<exists>d \<in> set (ext_dependencies (en_pkg e)). \<not> dep_optional d \<and> dep_name d = m)"

definition entries_ok :: "coordinator \<Rightarrow> bool" where
  "entries_ok st \<longleftrightarrow>
     (\<forall>n e. get_entry st n = Some e \<longrightarrow> en_state e \<noteq> Initializing \<and> (en_state e \<noteq> Active \<longrightarrow> clean e) \<and>
        (en_state e \<noteq> Discovered \<longrightarrow> n \<in> set (co_loadOrder st)))"

definition active_deps_ok :: "coordinator \<Rightarrow> bool" where
  "active_deps_ok st \<longleftrightarrow>
     (\<forall>n e m. get_entry st n = Some e \<longrightarrow> en_state e = Active \<longrightarrow> requires e m \<longrightarrow> hasActiveExtension st m)"

text \<open>An entry without collected surfaces was disabled at boot or requires another such entry.\<close>

definition blocked_entry :: "coordinator \<Rightarrow> extension_entry \<Rightarrow> bool" where
  "blocked_entry st e \<longleftrightarrow> (\<exists>m e'. requires e m \<and> get_entry st m = Some e' \<and> \<not> en_surfacesCollected e')"

definition surfaces_ok :: "coordinator \<Rightarrow> bool" where
  "surfaces_ok st \<longleftrightarrow>
     (\<forall>n e. get_entry st n = Some e \<longrightarrow> en_state e = Active \<longrightarrow> en_surfacesCollected e) \<and>
     (\<forall>n e. get_entry st n = Some e \<longrightarrow> n \<in> set (co_loadOrder st) \<longrightarrow> \<not> en_surfacesCollected e \<longrightarrow>
        en_state e \<in> {Discovered, Skipped} \<and> \<not> en_enabled e \<or> blocked_entry st e)"

lemma inactive_deps_Nil: "inactive_deps st pkg = [] \<longleftrightarrow>
    (\<forall>d \<in> set (ext_dependencies pkg). \<not> dep_optional d \<longrightarrow> hasActiveExtension st (dep_name d))"
  by (auto simp: inactive_deps_def filter_empty_conv)

lemma hasActive_iff: "hasActiveExtension st m \<longleftrightarrow> (\<exists>e. get_entry st m = Some e \<and> en_state e = Active)"
  by (auto simp: hasActiveExtension_def entry_state_def)

text \<open>
  What every operation that changes the single entry \<open>n\<close> guarantees, and what follows for the
  invariants.
\<close>

definition entry_change ::
  "ext_name \<Rightarrow> coordinator \<Rightarrow> coordinator \<Rightarrow> extension_entry \<Rightarrow> extension_entry \<Rightarrow> bool" where
  "entry_change n st st' e e' \<longleftrightarrow>
     entry_frame n st st' \<and> get_entry st n = Some e \<and> get_entry st' n = Some e' \<and> same_manifest e e' \<and>
     en_state e' \<noteq> Initializing \<and> (en_state e' \<noteq> Active \<longrightarrow> clean e') \<and>
     (en_state e' \<noteq> Discovered \<longrightarrow> n \<in> set (co_loadOrder st)) \<and>
     (en_state e' = Active \<longrightarrow> en_state e \<noteq> Active \<longrightarrow>
        inactive_deps st (en_pkg e) = [] \<and>
        \<not> (en_state e \<in> {Discovered, Skipped} \<and> \<not> en_enabled e \<and> \<not> en_surfacesCollected e)) \<and>
     (en_state e = Active \<longrightarrow> en_state e' \<noteq> Active \<longrightarrow> active_dependents st n = []) \<and>
     (\<not> en_surfacesCollected e \<longrightarrow> en_state e \<in> {Discovered, Skipped} \<longrightarrow> \<not> en_enabled e \<longrightarrow>
        en_state e' \<in> {Discovered, Skipped} \<and> \<not> en_enabled e')"

lemma entry_changeD:
  assumes "entry_change n st st' e e'"
  shows "co_static st' = co_static st" and "co_loadOrder st' = co_loadOrder st"
    and "get_entry st' m = (if m = n then Some e' else get_entry st m)" and "get_entry st n = Some e"
    and "requires e' m \<longleftrightarrow> requires e m" and "en_surfacesCollected e' = en_surfacesCollected e"
    and "hasActiveExtension st' m \<longleftrightarrow> (if m = n then en_state e' = Active else hasActiveExtension st m)"
  using assms unfolding entry_change_def entry_frame_def
  by (simp_all add: co_static_def requires_def same_manifest_def hasActive_iff)

lemma change_keeps_entries_ok:
  assumes "entry_change n st st' e e'" and "entries_ok st"
  shows "entries_ok st'"
  using assms(2) unfolding entries_ok_def entry_changeD(2,3) [OF assms(1)]
  using assms(1) by (simp add: entry_change_def)

lemma change_keeps_active_deps:
  assumes ch: "entry_change n st st' e e'" and ok: "active_deps_ok st"
  shows "active_deps_ok st'"
  unfolding active_deps_ok_def
proof (intro allI impI)
  note get = entry_changeD(3) [OF ch] and active = entry_changeD(7) [OF ch]
  fix m em d
  assume m: "get_entry st' m = Some em" "en_state em = Active" "requires em d"
  have old: "hasActiveExtension st x" if "get_entry st k = Some ek" "en_state ek = Active" "requires ek x" for k ek x
    using ok that unfolding active_deps_ok_def by blast
  show "hasActiveExtension st' d"
  proof (cases "m = n")
    case True
    then have em: "em = e'" using m(1) by (simp add: get)
    have req: "requires e d" using m(3) em entry_changeD(5) [OF ch] by simp
    have "hasActiveExtension st d"
    proof (cases "en_state e = Active")
      case True
      with old entry_changeD(4) [OF ch] req show ?thesis by blast
    next
      case False
      with ch m(2) em have "inactive_deps st (en_pkg e) = []" unfolding entry_change_def by blast
      with req show ?thesis unfolding inactive_deps_Nil requires_def by auto
    qed
    with m(2) em show ?thesis by (simp add: active)
  next
    case False
    then have em: "get_entry st m = Some em" using m(1) by (simp add: get)
    then have act: "hasActiveExtension st d" using old m by blast
    show ?thesis
    proof (cases "d = n \<and> en_state e' \<noteq> Active")
      case True
      with act entry_changeD(4) [OF ch] have "en_state e = Active" by (simp add: hasActive_iff)
      with ch True have "active_dependents st n = []" unfolding entry_change_def by blast
      moreover have "(m, em) \<in> set (co_entries st)" using em by (simp add: get_entry_def map_get_mem)
      ultimately show ?thesis
        using False True m(2,3) by (auto simp: active_dependents_def filter_empty_conv requires_def)
    next
      case False
      with act show ?thesis by (auto simp: active)
    qed
  qed
qed

lemma change_keeps_blocked:
  assumes ch: "entry_change n st st' e e'" and "blocked_entry st x"
  shows "blocked_entry st' x"
proof -
  from assms(2) obtain m e2 where m: "requires x m" "get_entry st m = Some e2" "\<not> en_surfacesCollected e2"
    by (auto simp: blocked_entry_def)
  show ?thesis
  proof (cases "m = n")
    case True
    with m entry_changeD(4) [OF ch] have "e2 = e" by simp
    with m True entry_changeD(3,6) [OF ch] show ?thesis by (auto simp: blocked_entry_def)
  next
    case False
    with m entry_changeD(3) [OF ch] show ?thesis by (auto simp: blocked_entry_def)
  qed
qed

lemma change_keeps_surfaces:
  assumes ch: "entry_change n st st' e e'" and ok: "surfaces_ok st"
  shows "surfaces_ok st'"
proof -
  note old = entry_changeD(4) [OF ch] and surf_same = entry_changeD(6) [OF ch]
  have act: "en_surfacesCollected x" if "get_entry st m = Some x" "en_state x = Active" for m x
    using ok that unfolding surfaces_ok_def by blast
  have inv: "en_state x \<in> {Discovered, Skipped} \<and> \<not> en_enabled x \<or> blocked_entry st x"
    if "get_entry st m = Some x" "m \<in> set (co_loadOrder st)" "\<not> en_surfacesCollected x" for m x
    using ok that unfolding surfaces_ok_def by blast
  have blocked: "inactive_deps st (en_pkg e) \<noteq> []" if "blocked_entry st e"
  proof -
    from that obtain m e2 where m: "requires e m" "get_entry st m = Some e2" "\<not> en_surfacesCollected e2"
      by (auto simp: blocked_entry_def)
    with act have "\<not> hasActiveExtension st m" by (auto simp: hasActive_iff)
    with m(1) show ?thesis unfolding inactive_deps_Nil requires_def by blast
  qed
  have "en_surfacesCollected e" if a: "en_state e' = Active"
  proof (rule ccontr)
    assume no: "\<not> en_surfacesCollected e"
    with act old have "en_state e \<noteq> Active" by blast
    with ch a no have "inactive_deps st (en_pkg e) = []"
      "\<not> (en_state e \<in> {Discovered, Skipped} \<and> \<not> en_enabled e)" "n \<in> set (co_loadOrder st)"
      unfolding entry_change_def by auto
    then show False using inv [OF old _ no] blocked by blast
  qed
  moreover have "en_state e' \<in> {Discovered, Skipped} \<and> \<not> en_enabled e' \<or> blocked_entry st' e'"
    if no: "\<not> en_surfacesCollected e'" "n \<in> set (co_loadOrder st)"
  proof -
    have "blocked_entry st' e' \<longleftrightarrow> blocked_entry st' e" by (simp add: blocked_entry_def entry_changeD(5) [OF ch])
    moreover have "\<not> en_surfacesCollected e" using no(1) surf_same by simp
    ultimately show ?thesis
      using inv [OF old no(2)] change_keeps_blocked [OF ch] ch unfolding entry_change_def by blast
  qed
  moreover have "en_state x \<in> {Discovered, Skipped} \<and> \<not> en_enabled x \<or> blocked_entry st' x"
    if "get_entry st m = Some x" "m \<in> set (co_loadOrder st)" "\<not> en_surfacesCollected x" for m x
    using inv [OF that] change_keeps_blocked [OF ch] by blast
  ultimately show ?thesis
    using act surf_same unfolding surfaces_ok_def entry_changeD(2,3) [OF ch] by (simp split: if_splits)
qed

definition co_inv :: "coordinator \<Rightarrow> bool" where
  "co_inv st \<longleftrightarrow> entries_ok st \<and> active_deps_ok st \<and> (co_loaded st \<longrightarrow> surfaces_ok st)"

lemma change_keeps_inv: "entry_change n st st' e e' \<Longrightarrow> co_inv st \<Longrightarrow> co_inv st'"
  unfolding co_inv_def
  using change_keeps_entries_ok change_keeps_active_deps change_keeps_surfaces entry_changeD(1) [of n st st' e e']
  by (auto simp: co_static_def)

text \<open>What is fixed at load time stays.\<close>

definition manifests_same :: "coordinator \<Rightarrow> coordinator \<Rightarrow> bool" where
  "manifests_same st st' \<longleftrightarrow>
     (\<forall>m. map_option (\<lambda>e. (en_pkg e, en_surfacesCollected e)) (get_entry st' m) =
          map_option (\<lambda>e. (en_pkg e, en_surfacesCollected e)) (get_entry st m))"

lemma manifests_same_refl: "(\<And>m. get_entry st' m = get_entry st m) \<Longrightarrow> manifests_same st st'"
  by (simp add: manifests_same_def)

lemma manifests_same_trans: "manifests_same a b \<Longrightarrow> manifests_same b c \<Longrightarrow> manifests_same a c"
  by (simp add: manifests_same_def)

lemma change_manifests:
  assumes "entry_change n st st' e e'"
  shows "manifests_same st st'"
proof -
  have "en_pkg e' = en_pkg e" "en_surfacesCollected e' = en_surfacesCollected e"
    using assms by (simp_all add: entry_change_def same_manifest_def)
  then show ?thesis
    unfolding manifests_same_def entry_changeD(3) [OF assms] by (simp add: entry_changeD(4) [OF assms])
qed

text \<open>The operations as entry changes.\<close>

lemma start_change:
  assumes "get_entry st n = Some e" and "co_inv st" and "en_state e = Discovered" and "n \<in> set (co_loadOrder st)"
  obtains e' where "entry_change n st (fst (startExtensionEntry h n e st)) e e'"
    and "en_state e' \<in> {Active, Failed, Skipped}"
proof -
  have "clean e" using assms by (auto simp: co_inv_def entries_ok_def)
  from startExtensionEntry_result [OF assms(1) this, of h] obtain e' where
    "entry_frame n st (fst (startExtensionEntry h n e st))"
    "get_entry (fst (startExtensionEntry h n e st)) n = Some e'"
    "started_as (inactive_deps st (en_pkg e) = []) e e'" by blast
  note r = this
  have "entry_change n st (fst (startExtensionEntry h n e st)) e e'"
    using r assms unfolding entry_change_def started_as_def by auto
  moreover have "en_state e' \<in> {Active, Failed, Skipped}" using r by (simp add: started_as_def)
  ultimately show thesis by (rule that)
qed

lemma enable_change:
  assumes "get_entry st n = Some e" and "co_inv st"
  obtains e' where "entry_change n st (fst (enableExtension h n e st)) e e'"
    and "snd (enableExtension h n e st) \<noteq> RejectedOutcome \<longrightarrow> en_state e' = Active"
proof -
  have inv: "en_state e \<noteq> Active \<longrightarrow> clean e" "en_state e \<noteq> Initializing"
      "en_state e \<noteq> Discovered \<longrightarrow> n \<in> set (co_loadOrder st)"
    using assms by (auto simp: co_inv_def entries_ok_def)
  from enableExtension_result [OF assms(1) inv(1,2), of h] obtain e' where
    r: "entry_frame n st (fst (enableExtension h n e st))"
    "get_entry (fst (enableExtension h n e st)) n = Some e'"
    "enabled_as (inactive_deps st (en_pkg e) = []) e e'"
    "snd (enableExtension h n e st) \<noteq> RejectedOutcome \<longrightarrow> en_state e' = Active" by blast
  have "entry_change n st (fst (enableExtension h n e st)) e e'"
    using r(1-3) assms(1) inv unfolding entry_change_def enabled_as_def
    by (cases "en_state e = Discovered") auto
  with r(4) that show thesis by blast
qed

lemma disable_change:
  assumes "get_entry st n = Some e" and "co_inv st"
  obtains e' where "entry_change n st (fst (disableExtension h n e st)) e e'"
    and "snd (disableExtension h n e st) \<noteq> RejectedOutcome \<longrightarrow> \<not> en_enabled e' \<and> en_state e' \<noteq> Active"
proof -
  have inv: "en_state e \<noteq> Active \<longrightarrow> clean e" "en_state e \<noteq> Initializing"
      "en_state e \<noteq> Discovered \<longrightarrow> n \<in> set (co_loadOrder st)"
    using assms by (auto simp: co_inv_def entries_ok_def)
  from disableExtension_result [OF assms(1), of h] obtain e' where
    r: "entry_frame n st (fst (disableExtension h n e st))"
    "get_entry (fst (disableExtension h n e st)) n = Some e'"
    "disabled_as (active_dependents st n = []) e e'"
    "snd (disableExtension h n e st) \<noteq> RejectedOutcome \<longrightarrow> \<not> en_enabled e' \<and> en_state e' \<noteq> Active" by blast
  have "entry_change n st (fst (disableExtension h n e st)) e e'"
    using r(1-3) assms(1) inv unfolding entry_change_def disabled_as_def by (auto simp: clean_def)
  with r(4) that show thesis by blast
qed

lemma same_entries_inv:
  assumes "\<And>m. get_entry st' m = get_entry st m" and "co_static st' = co_static st" and "co_inv st"
  shows "co_inv st'"
  using assms unfolding co_inv_def entries_ok_def active_deps_ok_def surfaces_ok_def blocked_entry_def
    hasActive_iff co_static_def by simp

lemma applyTransition_inv:
  assumes "co_inv st"
  shows "co_inv (fst (applyExtensionTransition h n enabled st)) \<and>
    co_static (fst (applyExtensionTransition h n enabled st)) = co_static st \<and>
    manifests_same st (fst (applyExtensionTransition h n enabled st))"
proof (cases "get_entry st n")
  case None
  with assms show ?thesis by (simp add: applyExtensionTransition_def manifests_same_refl)
next
  case (Some e)
  let ?r = "if enabled then enableExtension h n e st else disableExtension h n e st"
  obtain e1 where 1: "entry_change n st (fst (enableExtension h n e st)) e e1"
    by (rule enable_change [OF Some assms])
  obtain e2 where 2: "entry_change n st (fst (disableExtension h n e st)) e e2"
    by (rule disable_change [OF Some assms])
  from 1 2 obtain e' where ch: "entry_change n st (fst ?r) e e'" by (cases enabled) auto
  then have "co_inv (fst ?r)" "co_static (fst ?r) = co_static st" "manifests_same st (fst ?r)"
    using change_keeps_inv assms entry_changeD(1) change_manifests by blast+
  moreover have "\<exists>c. fst (applyExtensionTransition h n enabled st) = fst ?r \<or>
      fst (applyExtensionTransition h n enabled st) = record_call c (fst ?r)"
    by (auto simp: applyExtensionTransition_def Some case_prod_beta)
  ultimately show ?thesis
    using same_entries_inv [of "record_call _ (fst ?r)" "fst ?r"]
    by (auto simp: kernel_simps manifests_same_def)
qed

lemma handleSetEnabled_frame:
  "get_entry (fst (handleSetEnabled h n enabled catalog st)) m = get_entry st m"
  "co_static (fst (handleSetEnabled h n enabled catalog st)) = co_static st"
  by (auto simp: handleSetEnabled_def persistForLoadedEntry_def persistForUnloadedName_def persist_def
      kernel_simps Let_def split: option.split catalog_lookup.split)

section \<open>Starting all\<close>

lemma health_fold_frame:
  "co_inv st \<Longrightarrow> co_inv (fold (runExtensionHealthCheck h) ns st) \<and>
     co_static (fold (runExtensionHealthCheck h) ns st) = co_static st \<and>
     manifests_same st (fold (runExtensionHealthCheck h) ns st) \<and>
     (\<forall>m. entry_state (fold (runExtensionHealthCheck h) ns st) m = entry_state st m)"
proof (induction ns arbitrary: st)
  case (Cons n ns)
  let ?st = "runExtensionHealthCheck h n st"
  have fr: "co_static ?st = co_static st" by (simp add: kernel_simps)
  have states: "entry_state ?st m = entry_state st m" for m
    by (simp add: entry_state_def kernel_simps option.map_comp comp_def if_distrib cong: if_cong)
      (auto simp: option.map_comp comp_def intro!: option.map_cong)
  have "co_inv ?st \<and> manifests_same st ?st"
  proof (cases "get_entry st n")
    case None
    then have "get_entry ?st m = get_entry st m" for m by (simp add: kernel_simps)
    from same_entries_inv [OF this fr Cons.prems] manifests_same_refl [OF this] show ?thesis ..
  next
    case (Some e)
    let ?e' = "if (\<exists>s. en_service e = Some s \<and> svc_checkHealth s) \<and> en_state e = Active
          then e\<lparr> en_warnings := h_checkHealth h (co_trace st) n \<rparr> else e"
    have "get_entry ?st n = Some ?e'" using Some by (simp add: kernel_simps)
    moreover have "?e' = e \<or> (\<exists>ws. ?e' = e\<lparr> en_warnings := ws \<rparr>)" by auto
    ultimately obtain e' where e': "get_entry ?st n = Some e'" "e' = e \<or> (\<exists>ws. e' = e\<lparr> en_warnings := ws \<rparr>)"
      by blast
    have "entry_change n st ?st e e'"
      using Some e' fr Cons.prems
      by (auto simp: entry_change_def entry_frame_def kernel_simps same_manifest_def clean_def
          co_inv_def entries_ok_def)
    then show ?thesis using Cons.prems change_keeps_inv change_manifests by blast
  qed
  with Cons.IH [of ?st] fr states show ?case by (auto intro: manifests_same_trans)
qed (simp add: manifests_same_refl)

lemma runMigrations_frame [kernel_simps]:
  "get_entry (fst (runExtensionMigrations h st)) m = get_entry st m"
  "co_static (fst (runExtensionMigrations h st)) = co_static st"
  by (auto simp: runExtensionMigrations_def kernel_simps split: option.split sum.split list.split)

lemma start_names_inv:
  assumes "co_inv st" and "distinct ns" and "set ns \<subseteq> set (co_loadOrder st)"
    and "\<forall>n \<in> set ns. \<forall>e. get_entry st n = Some e \<longrightarrow> en_state e = Discovered"
  shows "co_inv (fst (start_names h ns st)) \<and> co_static (fst (start_names h ns st)) = co_static st \<and>
    manifests_same st (fst (start_names h ns st)) \<and>
    (\<forall>m. m \<notin> set ns \<longrightarrow> get_entry (fst (start_names h ns st)) m = get_entry st m) \<and>
    (snd (start_names h ns st) = None \<longrightarrow> (\<forall>n \<in> set ns. \<forall>s. entry_state (fst (start_names h ns st)) n = Some s \<longrightarrow>
       s \<in> {Active, Failed, Skipped}))"
  using assms
proof (induction ns arbitrary: st)
  case (Cons n ns)
  show ?case
  proof (cases "get_entry st n")
    case None
    with Cons show ?thesis by (simp add: entry_state_def)
  next
    case (Some e)
    let ?r = "startExtensionEntry h n e st"
    have "en_state e = Discovered" "n \<in> set (co_loadOrder st)" using Cons.prems Some by auto
    then obtain e' where ch: "entry_change n st (fst ?r) e e'" and st: "en_state e' \<in> {Active, Failed, Skipped}"
      by (rule start_change [OF Some Cons.prems(1)])
    have inv: "co_inv (fst ?r)" using ch Cons.prems(1) by (rule change_keeps_inv)
    have stat: "co_static (fst ?r) = co_static st" "co_loadOrder (fst ?r) = co_loadOrder st"
      using entry_changeD(1,2) [OF ch] by simp_all
    have man: "manifests_same st (fst ?r)" using ch by (rule change_manifests)
    have others: "get_entry (fst ?r) m = get_entry st m" if "m \<noteq> n" for m
      using that entry_changeD(3) [OF ch] by simp
    show ?thesis
    proof (cases "snd ?r")
      case thrown: (Some err)
      then have "start_names h (n # ns) st = (fst ?r, Some err)" using Some by (simp add: case_prod_beta split: option.split)
      with inv stat others man show ?thesis by simp
    next
      case None
      then have eq: "start_names h (n # ns) st = start_names h ns (fst ?r)"
        using Some by (simp add: case_prod_beta split: option.split)
      have later: "\<forall>m \<in> set ns. \<forall>e. get_entry (fst ?r) m = Some e \<longrightarrow> en_state e = Discovered"
      proof (intro ballI allI impI)
        fix m x assume m: "m \<in> set ns" "get_entry (fst ?r) m = Some x"
        then have "m \<noteq> n" using Cons.prems(2) by auto
        with m others Cons.prems(4) show "en_state x = Discovered" by auto
      qed
      have "distinct ns" "set ns \<subseteq> set (co_loadOrder (fst ?r))" "n \<notin> set ns" using Cons.prems stat(2) by auto
      note ih = Cons.IH [OF inv this(1,2) later]
      have "entry_state (fst (start_names h ns (fst ?r))) n = Some (en_state e')"
        using ih \<open>n \<notin> set ns\<close> entry_changeD(3) [OF ch] by (simp add: entry_state_def)
      with ih st stat others show ?thesis unfolding eq by (auto intro: manifests_same_trans [OF man])
    qed
  qed
qed (simp add: entry_state_def manifests_same_refl)

lemma startAll_lane_inv:
  assumes "co_inv st" and "distinct (co_loadOrder st)"
    and "\<forall>n e. get_entry st n = Some e \<longrightarrow> en_state e = Discovered"
  shows "co_inv (fst (startAllInLifecycleLane h st)) \<and>
    co_static (fst (startAllInLifecycleLane h st)) = co_static st \<and>
    manifests_same st (fst (startAllInLifecycleLane h st)) \<and>
    (snd (startAllInLifecycleLane h st) = None \<longrightarrow>
       (\<forall>n \<in> set (co_loadOrder st). \<forall>s. entry_state (fst (startAllInLifecycleLane h st)) n = Some s \<longrightarrow>
          s \<in> {Active, Failed, Skipped}))"
proof -
  let ?st0 = "st\<lparr> co_boot := \<lparr> bp_completed = 0, bp_failed = [], bp_skipped = [], bp_complete = False \<rparr> \<rparr>"
  obtain st1 r1 where m: "runExtensionMigrations h ?st0 = (st1, r1)" by (cases "runExtensionMigrations h ?st0")
  have "get_entry ?st0 x = get_entry st x" for x by (simp add: get_entry_def)
  moreover have "co_static ?st0 = co_static st" by (simp add: co_static_def)
  ultimately have g1: "get_entry st1 x = get_entry st x" "co_static st1 = co_static st" for x
    using runMigrations_frame [of h ?st0] m by simp_all
  then have inv1: "co_inv st1" and order: "co_loadOrder st1 = co_loadOrder st"
    using same_entries_inv [of st1 st] assms(1) by (simp_all add: co_static_def)
  obtain st2 r2 where s: "start_names h (co_loadOrder st1) st1 = (st2, r2)"
    by (cases "start_names h (co_loadOrder st1) st1")
  have start: "co_inv st2" "co_static st2 = co_static st1" "manifests_same st st2"
    "r2 = None \<Longrightarrow> \<forall>n \<in> set (co_loadOrder st). \<forall>s. entry_state st2 n = Some s \<longrightarrow> s \<in> {Active, Failed, Skipped}"
    using start_names_inv [of st1 "co_loadOrder st1" h] inv1 assms(2,3) g1(1) s order
    by (auto simp: manifests_same_def)
  note health = health_fold_frame [OF start(1), of h "co_loadOrder st2"]
  have complete: "co_inv (boot_complete x)" if "co_inv x" for x
    using same_entries_inv [OF _ _ that] by (simp add: kernel_simps)
  have states: "entry_state (boot_complete x) y = entry_state x y" for x y
    by (simp add: entry_state_def kernel_simps)
  have man: "manifests_same st (boot_complete x)" if "manifests_same st x" for x
    using that by (simp add: manifests_same_def kernel_simps)
  have man': "manifests_same st st1" "manifests_same st (fold (runExtensionHealthCheck h) (co_loadOrder st2) st2)"
    using g1 health start(3) manifests_same_trans by (auto simp: manifests_same_refl)
  show ?thesis
    using inv1 g1 start health complete man man'
    by (auto simp: startAllInLifecycleLane_def Let_def m s kernel_simps states split: option.split)
qed

end
