(* ===== verification/Extension_Graph_Laws.thy ===== *)
theory Extension_Graph_Laws
  imports Extension_Graph
begin

text \<open>
  Laws of the extension graph: the pruning loop computes the greatest dependency-closed subset
  (proved once in the locale \<open>dependency_pruning\<close> and used for the eligibility filter and for the
  closure of the enabled entries), Kahn's algorithm orders exactly the packages that reach no
  cycle, dependencies first, and the graph is refused exactly for the defects of enabled packages.
\<close>

section \<open>Pruning\<close>

locale dependency_pruning =
  fixes missing :: "'n list \<Rightarrow> 'n \<Rightarrow> 'd list"
  assumes missing_mono: "set closed \<subseteq> set closed' \<Longrightarrow> missing closed n = [] \<Longrightarrow> missing closed' n = []"
begin

abbreviation self_sufficient :: "'n list \<Rightarrow> bool" where
  "self_sufficient s \<equiv> \<forall>n \<in> set s. missing s n = []"

lemma pass_subset: "set (fst (prune_pass missing ns (c, e))) \<subseteq> set c"
proof (induction ns arbitrary: c e)
  case (Cons n ns)
  from Cons.IH [of "set_delete n c" "e @ [(n, missing c n)]"] Cons.IH [of c e] show ?case by auto
qed simp

lemma pass_keeps:
  assumes "self_sufficient s" and "set s \<subseteq> set c"
  shows "set s \<subseteq> set (fst (prune_pass missing ns (c, e)))"
  using assms(2)
proof (induction ns arbitrary: c e)
  case (Cons n ns)
  have "set s \<subseteq> set (set_delete n c)" if "missing c n \<noteq> []"
    using that assms(1) missing_mono [OF Cons.prems] Cons.prems by auto
  with Cons show ?case by simp
qed simp

lemma pass_unchanged:
  "set ns \<subseteq> set c \<Longrightarrow> length (fst (prune_pass missing ns (c, e))) = length c \<Longrightarrow>
     (\<forall>n \<in> set ns. missing c n = []) \<and> prune_pass missing ns (c, e) = (c, e)"
proof (induction ns arbitrary: e)
  case (Cons n ns)
  have "missing c n = []"
  proof (rule ccontr)
    assume m: "missing c n \<noteq> []"
    have "length (set_delete n c) < length c"
      unfolding set_delete_def by (rule length_filter_less [of n]) (use Cons.prems in auto)
    with prune_pass_shrinks [of missing ns "set_delete n c" "e @ [(n, missing c n)]"] m Cons.prems(2)
    show False by simp
  qed
  with Cons show ?case by simp
qed simp

lemma pass_log:
  "distinct c \<Longrightarrow> distinct ns \<Longrightarrow> set ns \<subseteq> set c \<Longrightarrow>
     \<exists>new. snd (prune_pass missing ns (c, e)) = e @ new \<and> distinct (map fst new) \<and>
       fst ` set new = set c - set (fst (prune_pass missing ns (c, e))) \<and>
       (\<forall>(n, ms) \<in> set new. ms \<noteq> [] \<and> (\<exists>c'. set (fst (prune_pass missing ns (c, e))) \<subseteq> set c' \<and> ms = missing c' n))"
proof (induction ns arbitrary: c e)
  case (Cons n ns)
  show ?case
  proof (cases "missing c n = []")
    case True
    with Cons show ?thesis by simp
  next
    case False
    let ?c = "set_delete n c" and ?e = "e @ [(n, missing c n)]"
    let ?r = "prune_pass missing ns (?c, ?e)"
    obtain new where new: "snd ?r = ?e @ new" "distinct (map fst new)"
      "fst ` set new = set ?c - set (fst ?r)"
      "\<forall>(n, ms) \<in> set new. ms \<noteq> [] \<and> (\<exists>c'. set (fst ?r) \<subseteq> set c' \<and> ms = missing c' n)"
    proof -
      have "set ns \<subseteq> set ?c" using Cons.prems by auto
      with Cons.IH [of ?c ?e] Cons.prems show ?thesis using that by auto
    qed
    have sub: "set (fst ?r) \<subseteq> set ?c" by (rule pass_subset)
    have "fst ` set ((n, missing c n) # new) = set c - set (fst ?r)"
      using new(3) sub Cons.prems(3) by auto
    moreover have "n \<notin> fst ` set new" using new(3) by auto
    moreover have "set (fst ?r) \<subseteq> set c" using sub by auto
    ultimately show ?thesis
      using new False by (intro exI [of _ "(n, missing c n) # new"]) auto
  qed
qed simp

lemma loop_induct:
  assumes stop: "\<And>c e. self_sufficient c \<Longrightarrow> prune_loop missing c e = (c, e) \<Longrightarrow> P c e"
    and step: "\<And>c e. P (fst (prune_pass missing c (c, e))) (snd (prune_pass missing c (c, e))) \<Longrightarrow>
      prune_loop missing c e =
        prune_loop missing (fst (prune_pass missing c (c, e))) (snd (prune_pass missing c (c, e))) \<Longrightarrow>
      P c e"
  shows "P c e"
proof (induction "length c" arbitrary: c e rule: less_induct)
  case (less c e)
  let ?r = "prune_pass missing c (c, e)"
  show ?case
  proof (cases "length (fst ?r) = length c")
    case True
    with pass_unchanged [of c c e] have "self_sufficient c" "prune_loop missing c e = (c, e)"
      by (simp_all add: prune_loop.simps [of missing c e] Let_def)
    then show ?thesis by (rule stop)
  next
    case False
    with prune_pass_shrinks [of missing c c e] have "length (fst ?r) < length c" by simp
    from less [OF this] show ?thesis
      by (rule step) (use False in \<open>simp add: prune_loop.simps [of missing c e] Let_def\<close>)
  qed
qed

lemma loop_subset: "set (fst (prune_loop missing c e)) \<subseteq> set c"
  by (induction c e rule: loop_induct) (use pass_subset in fastforce)+

lemma loop_sufficient: "self_sufficient (fst (prune_loop missing c e))"
  by (induction c e rule: loop_induct) simp_all

lemma loop_greatest:
  "self_sufficient s \<Longrightarrow> set s \<subseteq> set c \<Longrightarrow> set s \<subseteq> set (fst (prune_loop missing c e))"
  by (induction c e rule: loop_induct) (use pass_keeps in force)+

lemma pass_distinct: "distinct c \<Longrightarrow> distinct (fst (prune_pass missing ns (c, e)))"
  by (induction ns arbitrary: c e) auto

lemma loop_log:
  "distinct c \<Longrightarrow>
     \<exists>new. snd (prune_loop missing c e) = e @ new \<and> distinct (map fst new) \<and>
       fst ` set new = set c - set (fst (prune_loop missing c e)) \<and>
       (\<forall>(n, ms) \<in> set new. ms \<noteq> [] \<and>
          (\<exists>c'. set (fst (prune_loop missing c e)) \<subseteq> set c' \<and> ms = missing c' n))"
proof (induction c e rule: loop_induct)
  case (2 c e)
  let ?p = "prune_pass missing c (c, e)"
  let ?r = "prune_loop missing (fst ?p) (snd ?p)"
  obtain a where a: "snd ?p = e @ a" "distinct (map fst a)" "fst ` set a = set c - set (fst ?p)"
    "\<forall>(n, ms) \<in> set a. ms \<noteq> [] \<and> (\<exists>c'. set (fst ?p) \<subseteq> set c' \<and> ms = missing c' n)"
    using pass_log [OF 2(3) 2(3) order_refl] by blast
  obtain b where b: "snd ?r = snd ?p @ b" "distinct (map fst b)" "fst ` set b = set (fst ?p) - set (fst ?r)"
    "\<forall>(n, ms) \<in> set b. ms \<noteq> [] \<and> (\<exists>c'. set (fst ?r) \<subseteq> set c' \<and> ms = missing c' n)"
    using 2(1) [OF pass_distinct [OF 2(3)]] by blast
  have sub: "set (fst ?p) \<subseteq> set c" "set (fst ?r) \<subseteq> set (fst ?p)" by (rule pass_subset, rule loop_subset)
  have names: "fst ` set (a @ b) = set c - set (fst ?r)" using a(3) b(3) sub unfolding set_append image_Un by auto
  have "fst ` set a \<inter> fst ` set b = {}" using a(3) b(3) by auto
  then have "distinct (map fst (a @ b))" using a(2) b(2) by simp
  moreover have "\<forall>(n, ms) \<in> set a. ms \<noteq> [] \<and> (\<exists>c'. set (fst ?r) \<subseteq> set c' \<and> ms = missing c' n)"
  proof clarify
    fix n ms assume "(n, ms) \<in> set a"
    with bspec [OF a(4) this] obtain c' where "ms \<noteq> []" "set (fst ?p) \<subseteq> set c'" "ms = missing c' n"
      by auto
    with sub(2) show "ms \<noteq> [] \<and> (\<exists>c'. set (fst ?r) \<subseteq> set c' \<and> ms = missing c' n)"
      by (blast intro: order_trans)
  qed
  then have "\<forall>(n, ms) \<in> set (a @ b). ms \<noteq> [] \<and> (\<exists>c'. set (fst ?r) \<subseteq> set c' \<and> ms = missing c' n)"
    using b(4) unfolding set_append ball_Un by blast
  ultimately show ?case using a(1) b(1) names unfolding 2(2) by (intro exI [of _ "a @ b"]) simp
qed auto

end

interpretation rm: dependency_pruning "required_missing deps managed" for deps managed
  by unfold_locales (auto simp: required_missing_def filter_empty_conv)

section \<open>Names\<close>

lemma fold_map_set_keys:
  "set (map fst (fold (\<lambda>p m. map_set (f p) (g p) m) ps m)) = f ` set ps \<union> set (map fst m)"
  by (induction ps arbitrary: m) (auto simp: map_set_keys)

lemma fold_map_set_distinct:
  "distinct (map f ps) \<Longrightarrow> f ` set ps \<inter> fst ` set m = {} \<Longrightarrow>
     fold (\<lambda>p m. map_set (f p) (g p) m) ps m = m @ map (\<lambda>p. (f p, g p)) ps"
proof (induction ps arbitrary: m)
  case (Cons p ps)
  have "f p \<notin> fst ` set m" using Cons.prems by auto
  moreover have "f ` set ps \<inter> fst ` set (m @ [(f p, g p)]) = {}" using Cons.prems by auto
  ultimately show ?case using Cons by (simp add: map_set_fresh)
qed simp

lemma index_by_name_keys: "set (map_keys (index_by_name pkgs)) = ext_name ` set pkgs"
  using fold_map_set_keys [of ext_name "\<lambda>p. p" pkgs "[]"] by (simp add: index_by_name_def map_keys_def)

lemma index_by_name_distinct:
  "distinct (map ext_name pkgs) \<Longrightarrow> index_by_name pkgs = map (\<lambda>p. (ext_name p, p)) pkgs"
  using fold_map_set_distinct [of ext_name pkgs "[]" "\<lambda>p. p"] by (simp add: index_by_name_def)

lemma index_by_name_get:
  assumes "distinct (map ext_name pkgs)"
  shows "map_get (index_by_name pkgs) n = Some p \<longleftrightarrow> p \<in> set pkgs \<and> ext_name p = n"
proof -
  have wf: "map_wf (map (\<lambda>p. (ext_name p, p)) pkgs)" using assms by (simp add: map_wf_def comp_def)
  have "(n, p) \<in> set (map (\<lambda>p. (ext_name p, p)) pkgs) \<longleftrightarrow> p \<in> set pkgs \<and> ext_name p = n" by auto
  with mem_map_get [OF wf, of n p] map_get_mem [of "map (\<lambda>p. (ext_name p, p)) pkgs" n p] show ?thesis
    unfolding index_by_name_distinct [OF assms] by blast
qed

lemma index_by_name_has: "map_get (index_by_name pkgs) n = None \<longleftrightarrow> n \<notin> ext_name ` set pkgs"
  using jm.keys_get [of n "index_by_name pkgs"] by (simp add: index_by_name_keys)

section \<open>Eligibility\<close>

text \<open>A set of names that contains the required managed dependencies of its members.\<close>

definition deps_closed :: "(ext_name \<Rightarrow> ext_dependency list) \<Rightarrow> ext_name set \<Rightarrow> ext_name set \<Rightarrow> bool" where
  "deps_closed deps managed S \<longleftrightarrow>
     (\<forall>n \<in> S. \<forall>d \<in> set (deps n). \<not> dep_optional d \<longrightarrow> dep_name d \<in> managed \<longrightarrow> dep_name d \<in> S)"

lemma required_missing_Nil:
  "required_missing deps managed c n = [] \<longleftrightarrow>
     (\<forall>d \<in> set (deps n). \<not> dep_optional d \<longrightarrow> dep_name d \<in> set managed \<longrightarrow> dep_name d \<in> set c)"
  by (auto simp: required_missing_def filter_empty_conv)

lemma prune_iff:
  "n \<in> set (fst (prune_loop (required_missing deps managed) c e)) \<longleftrightarrow>
     (\<exists>S. n \<in> S \<and> S \<subseteq> set c \<and> deps_closed deps (set managed) S)"
proof
  let ?r = "fst (prune_loop (required_missing deps managed) c e)"
  assume "n \<in> set ?r"
  moreover have "set ?r \<subseteq> set c" by (rule rm.loop_subset)
  moreover have "deps_closed deps (set managed) (set ?r)"
    using rm.loop_sufficient [of deps managed c e] by (simp only: required_missing_Nil deps_closed_def)
  ultimately show "\<exists>S. n \<in> S \<and> S \<subseteq> set c \<and> deps_closed deps (set managed) S" by blast
next
  assume "\<exists>S. n \<in> S \<and> S \<subseteq> set c \<and> deps_closed deps (set managed) S"
  then obtain S where S: "n \<in> S" "S \<subseteq> set c" "deps_closed deps (set managed) S" by blast
  then have "finite S" by (auto intro: finite_subset)
  then obtain s where s: "set s = S" using finite_list by blast
  with S(3) have "\<forall>n \<in> set s. required_missing deps managed s n = []"
    by (simp only: required_missing_Nil deps_closed_def)
  from rm.loop_greatest [OF this, of c e] S s
  show "n \<in> set (fst (prune_loop (required_missing deps managed) c e))" by auto
qed

text \<open>
  C38. The eligibility filter keeps the greatest dependency-closed set: an extension stays exactly when
  it matches the surface and the host requirements and its name lies in some set of eligible names
  in which every required dependency that was part of the input is again in the set. The order of
  the input is kept.
\<close>

theorem filterEligible_greatest:
  "filterEligibleExtensions sat exts surface env =
     filter (\<lambda>p. matchesRequirements sat p surface env \<and>
       (\<exists>S. ext_name p \<in> S \<and> S \<subseteq> ext_name ` {q \<in> set exts. matchesRequirements sat q surface env} \<and>
          deps_closed (deps_by_name (index_by_name
               (filter (\<lambda>q. matchesRequirements sat q surface env) exts))) (ext_name ` set exts) S)) exts"
  unfolding filterEligibleExtensions_def Let_def prune_iff index_by_name_keys
  by (simp add: conj_commute cong: conj_cong)

section \<open>Closure of the enabled entries\<close>

definition entry_deps :: "(ext_name \<times> extension \<times> bool) list \<Rightarrow> ext_name \<Rightarrow> ext_dependency list" where
  "entry_deps entries n = (case map_of entries n of None \<Rightarrow> [] | Some e \<Rightarrow> ext_dependencies (fst e))"

definition enabled_names :: "(ext_name \<times> extension \<times> bool) list \<Rightarrow> ext_name set" where
  "enabled_names entries = {n. \<exists>p. (n, p, True) \<in> set entries}"

lemma entry_index:
  assumes "distinct (map fst entries)"
  shows "deps_by_name (fold (\<lambda>(n, e) m. map_set n (fst e) m) entries []) = entry_deps entries"
proof -
  have "fold (\<lambda>(n, e) m. map_set n (fst e) m) entries [] = map (\<lambda>(n, e). (n, fst e)) entries"
    using fold_map_set_distinct [of fst entries "[]" "\<lambda>e. fst (snd e)"] assms
    by (simp add: case_prod_beta')
  then show ?thesis
    by (intro ext) (simp add: deps_by_name_def entry_deps_def map_get_map map_get_def [symmetric]
        split: option.splits)
qed

lemma closeEnabled_unfold:
  assumes "distinct (map fst entries)"
  shows "closeEnabledExtensionEntries entries =
    prune_loop (required_missing (entry_deps entries) (set_of_list (map fst entries)))
      (set_of_list (map fst (filter (\<lambda>(_, _, enabled). enabled) entries))) []"
  by (simp add: closeEnabledExtensionEntries_def entry_index [OF assms] Let_def)

lemma set_enabled_list:
  "set (set_of_list (map fst (filter (\<lambda>(_, _, enabled). enabled) entries))) = enabled_names entries"
  by (force simp: enabled_names_def)

lemma closeEnabled_closure:
  assumes "distinct (map fst entries)" and "closeEnabledExtensionEntries entries = (closed, excl)"
  shows "set closed = \<Union> {S. S \<subseteq> enabled_names entries \<and>
        deps_closed (entry_deps entries) (fst ` set entries) S} \<and>
    distinct (map fst excl) \<and> fst ` set excl = enabled_names entries - set closed \<and>
    (\<forall>(n, ms) \<in> set excl. ms \<noteq> [] \<and>
       set ms \<subseteq> dep_name ` {d \<in> set (entry_deps entries n). \<not> dep_optional d} - set closed)"
proof -
  let ?m = "required_missing (entry_deps entries) (set_of_list (map fst entries))"
  let ?c = "set_of_list (map fst (filter (\<lambda>(_, _, enabled). enabled) entries))"
  have r: "prune_loop ?m ?c [] = (closed, excl)" using assms(2) unfolding closeEnabled_unfold [OF assms(1)] .
  have "n \<in> set closed \<longleftrightarrow> n \<in> \<Union> {S. S \<subseteq> enabled_names entries \<and>
        deps_closed (entry_deps entries) (fst ` set entries) S}" for n
    using prune_iff [of n "entry_deps entries" "set_of_list (map fst entries)" ?c "[]"]
    unfolding set_enabled_list r by auto
  then have closed: "set closed = \<Union> {S. S \<subseteq> enabled_names entries \<and>
        deps_closed (entry_deps entries) (fst ` set entries) S}" by blast
  have log: "distinct (map fst excl)" "fst ` set excl = enabled_names entries - set closed"
      "\<forall>(n, ms) \<in> set excl. ms \<noteq> [] \<and> (\<exists>c'. set closed \<subseteq> set c' \<and> ms = ?m c' n)"
    using rm.loop_log [of ?c "entry_deps entries" "set_of_list (map fst entries)" "[]"]
    unfolding set_enabled_list r by simp_all
  have "set (?m c' n) \<subseteq> dep_name ` {d \<in> set (entry_deps entries n). \<not> dep_optional d} - set closed"
    if "set closed \<subseteq> set c'" for c' n
    using that by (auto simp: required_missing_def)
  note named = this
  have "\<forall>(n, ms) \<in> set excl. ms \<noteq> [] \<and>
       set ms \<subseteq> dep_name ` {d \<in> set (entry_deps entries n). \<not> dep_optional d} - set closed"
  proof (intro ballI, unfold case_prod_beta')
    fix x assume "x \<in> set excl"
    with bspec [OF log(3) this] obtain c' where "snd x \<noteq> []" "set closed \<subseteq> set c'" "snd x = ?m c' (fst x)"
      by (auto simp: case_prod_beta')
    with named [of c' "fst x"] show "snd x \<noteq> [] \<and>
        set (snd x) \<subseteq> dep_name ` {d \<in> set (entry_deps entries (fst x)). \<not> dep_optional d} - set closed"
      by simp
  qed
  with closed log(1,2) show ?thesis by (intro conjI)
qed

text \<open>
  Closing the enabled entries computes the greatest set of enabled names that contains every
  required dependency of its members among the loaded entries. Every other enabled entry is reported
  exactly once, with required dependencies of its own, at least one, none of which is in the closed
  set.
\<close>

lemma closeEnabled_greatest:
  assumes "distinct (map fst entries)" and "closeEnabledExtensionEntries entries = (closed, excl)"
  shows "set closed = \<Union> {S. S \<subseteq> enabled_names entries \<and>
        deps_closed (entry_deps entries) (fst ` set entries) S} \<and>
    distinct (map fst excl) \<and> fst ` set excl = enabled_names entries - set closed \<and>
    (\<forall>(n, ms) \<in> set excl. ms \<noteq> [] \<and>
       set ms \<subseteq> dep_name ` {d \<in> set (entry_deps entries n). \<not> dep_optional d} - set closed)"
  using closeEnabled_closure [OF assms] .

section \<open>Kahn's algorithm\<close>

text \<open>The names that reach no cycle: those whose dependencies can all be ordered before them.\<close>

inductive orderable :: "(ext_name \<Rightarrow> ext_name set) \<Rightarrow> ext_name \<Rightarrow> bool" for G where
  orderableI: "(\<And>m. m \<in> G n \<Longrightarrow> orderable G m) \<Longrightarrow> orderable G n"

definition deps_first :: "(ext_name \<Rightarrow> ext_name set) \<Rightarrow> ext_name list \<Rightarrow> bool" where
  "deps_first G xs \<longleftrightarrow> (\<forall>i < length xs. G (xs ! i) \<subseteq> set (take i xs))"

lemma deps_first_snoc: "deps_first G xs \<Longrightarrow> G n \<subseteq> set xs \<Longrightarrow> deps_first G (xs @ [n])"
  by (auto simp: deps_first_def nth_append less_Suc_eq)

lemma deps_first_orderable: "deps_first G xs \<Longrightarrow> i < length xs \<Longrightarrow> orderable G (xs ! i)"
proof (induction i rule: less_induct)
  case (less i)
  show ?case
  proof (rule orderableI)
    fix m assume "m \<in> G (xs ! i)"
    then have "m \<in> set (take i xs)" using less.prems by (auto simp: deps_first_def)
    then obtain j where "j < i" "m = xs ! j" using less.prems by (auto simp: in_set_conv_nth)
    with less show "orderable G m" by auto
  qed
qed

lemma orderable_in:
  "orderable G n \<Longrightarrow> n \<in> N \<Longrightarrow> (\<And>n. n \<in> N \<Longrightarrow> G n \<subseteq> N) \<Longrightarrow>
     (\<And>n. n \<in> N \<Longrightarrow> G n \<subseteq> V \<Longrightarrow> n \<in> V) \<Longrightarrow> n \<in> V"
  by (induction rule: orderable.induct) blast

lemma kahn_unblock_map:
  "fst (kahn_unblock node visited m) = map (\<lambda>(n, ds). (n, set_delete node ds)) m"
proof -
  have "set_delete node ds = ds" if "node \<notin> set ds" for ds :: "ext_name list"
    unfolding set_delete_def by (rule filter_True) (use that in auto)
  then show ?thesis by (induction m) (auto simp: Let_def case_prod_beta)
qed

lemma kahn_unblock_pushed:
  "n \<in> set (snd (kahn_unblock node visited m)) \<longleftrightarrow>
     n \<notin> set visited \<and> (\<exists>ds. (n, ds) \<in> set m \<and> node \<in> set ds \<and> set ds \<subseteq> {node})"
proof (induction m)
  case (Cons e m)
  obtain d ds where e: "e = (d, ds)" by (cases e)
  have "set_delete node ds = [] \<longleftrightarrow> set ds \<subseteq> {node}" by (auto simp: set_delete_def filter_empty_conv)
  with Cons show ?case by (auto simp: e Let_def case_prod_beta)
qed simp

definition kahn_inv ::
  "(ext_name \<Rightarrow> ext_name set) \<Rightarrow> ext_name list \<Rightarrow> ext_name list \<Rightarrow> (ext_name, ext_name list) js_map \<Rightarrow>
   ext_name list \<Rightarrow> bool" where
  "kahn_inv G N queue remaining visited \<longleftrightarrow>
     map fst remaining = N \<and>
     (\<forall>(n, ds) \<in> set remaining. set ds = G n - set visited) \<and>
     (\<forall>n \<in> set queue. n \<in> set N \<and> G n \<subseteq> set visited) \<and>
     (\<forall>n \<in> set N. G n \<subseteq> set visited \<longrightarrow> n \<in> set visited \<union> set queue) \<and>
     distinct visited \<and> set visited \<subseteq> set N \<and> deps_first G visited"

lemma kahn_inv_step:
  assumes inv: "kahn_inv G N (node # queue) remaining visited" and fresh: "node \<notin> set visited"
  shows "kahn_inv G N (queue @ snd (kahn_unblock node (visited @ [node]) remaining))
    (fst (kahn_unblock node (visited @ [node]) remaining)) (visited @ [node])"
proof -
  let ?u = "kahn_unblock node (visited @ [node]) remaining"
  have keys: "map fst remaining = N" and rem: "\<forall>(n, ds) \<in> set remaining. set ds = G n - set visited"
    and queue: "\<forall>n \<in> set (node # queue). n \<in> set N \<and> G n \<subseteq> set visited"
    and ready: "\<forall>n \<in> set N. G n \<subseteq> set visited \<longrightarrow> n \<in> set visited \<union> set (node # queue)"
    and vis: "distinct visited" "set visited \<subseteq> set N" "deps_first G visited"
    using inv unfolding kahn_inv_def by blast+
  have "map fst (fst ?u) = N" unfolding kahn_unblock_map keys [symmetric] by (simp add: case_prod_beta')
  moreover have "\<forall>(n, ds) \<in> set (fst ?u). set ds = G n - set (visited @ [node])"
    using rem unfolding kahn_unblock_map by auto
  moreover have pushed: "n \<in> set (snd ?u) \<longleftrightarrow>
      n \<in> set N \<and> n \<notin> set (visited @ [node]) \<and> node \<in> G n \<and> G n \<subseteq> set (visited @ [node])" for n
  proof -
    have "(\<exists>ds. (n, ds) \<in> set remaining \<and> node \<in> set ds \<and> set ds \<subseteq> {node}) \<longleftrightarrow>
        n \<in> set N \<and> node \<in> G n - set visited \<and> G n - set visited \<subseteq> {node}"
    proof -
      have "n \<in> set N \<longleftrightarrow> (\<exists>ds. (n, ds) \<in> set remaining)" unfolding keys [symmetric] by force
      moreover have "set ds = G n - set visited" if "(n, ds) \<in> set remaining" for ds
        using rem that by auto
      ultimately show ?thesis by metis
    qed
    then show ?thesis unfolding kahn_unblock_pushed using fresh by auto
  qed
  have "\<forall>n \<in> set (queue @ snd ?u). n \<in> set N \<and> G n \<subseteq> set (visited @ [node])"
    using queue pushed by auto
  moreover have "\<forall>n \<in> set N. G n \<subseteq> set (visited @ [node]) \<longrightarrow>
      n \<in> set (visited @ [node]) \<union> set (queue @ snd ?u)"
  proof (intro ballI impI)
    fix n assume n: "n \<in> set N" "G n \<subseteq> set (visited @ [node])"
    show "n \<in> set (visited @ [node]) \<union> set (queue @ snd ?u)"
    proof (cases "node \<in> G n")
      case True with n pushed show ?thesis by auto
    next
      case False with n have "G n \<subseteq> set visited" by auto
      with ready n show ?thesis by auto
    qed
  qed
  moreover have "deps_first G (visited @ [node])" using vis(3) queue by (intro deps_first_snoc) auto
  moreover have "distinct (visited @ [node])" "set (visited @ [node]) \<subseteq> set N"
    using vis fresh queue by auto
  ultimately show ?thesis unfolding kahn_inv_def by blast
qed

lemma kahn_inv_skip:
  "kahn_inv G N (node # queue) remaining visited \<Longrightarrow> node \<in> set visited \<Longrightarrow>
     kahn_inv G N queue remaining visited"
  unfolding kahn_inv_def by auto

lemma kahn_loop_inv:
  "kahn_inv G N queue remaining visited \<Longrightarrow> result = visited \<Longrightarrow>
     \<exists>vs. kahn_loop queue remaining visited result = (vs, vs) \<and> distinct vs \<and>
       set vs \<subseteq> set N \<and> deps_first G vs \<and> (\<forall>n \<in> set N. G n \<subseteq> set vs \<longrightarrow> n \<in> set vs)"
proof (induction queue remaining visited result rule: kahn_loop.induct)
  case (1 remaining visited result)
  then show ?case by (auto simp: kahn_inv_def)
next
  case (2 node queue remaining visited result)
  show ?case
  proof (cases "node \<in> set visited")
    case True
    with 2 show ?thesis by (simp add: kahn_inv_skip)
  next
    case False
    then have add: "set_add node visited = visited @ [node]" by (simp add: set_add_def)
    let ?u = "kahn_unblock node (visited @ [node]) remaining"
    have "\<exists>vs. kahn_loop (queue @ snd ?u) (fst ?u) (visited @ [node]) (result @ [node]) = (vs, vs) \<and>
        distinct vs \<and> set vs \<subseteq> set N \<and> deps_first G vs \<and> (\<forall>n \<in> set N. G n \<subseteq> set vs \<longrightarrow> n \<in> set vs)"
      using 2(2) [OF False refl _ refl, of "fst ?u" "snd ?u"] kahn_inv_step [OF 2(3) False] 2(4)
      by (simp add: add)
    with False show ?thesis by (simp add: add case_prod_beta Let_def)
  qed
qed

text \<open>
  Hence, started on the packages with no dependencies, the loop visits exactly the orderable names,
  each once and after its dependencies.
\<close>

lemma kahn_loop_correct:
  assumes keys: "map fst remaining = N" and deps: "\<forall>(n, ds) \<in> set remaining. set ds = G n"
    and inside: "\<And>n. n \<in> set N \<Longrightarrow> G n \<subseteq> set N"
  obtains vs where "kahn_loop (map fst (filter (\<lambda>(name, deps). deps = []) remaining)) remaining [] [] = (vs, vs)"
    and "distinct vs" and "deps_first G vs" and "set vs = {n \<in> set N. orderable G n}"
proof -
  let ?q = "map fst (filter (\<lambda>(name, deps). deps = []) remaining)"
  have q: "n \<in> set ?q \<longleftrightarrow> n \<in> set N \<and> G n = {}" for n
    using deps unfolding keys [symmetric] by force
  have "kahn_inv G N ?q remaining []"
    unfolding kahn_inv_def using keys deps q by (simp add: deps_first_def)
  from kahn_loop_inv [OF this refl] obtain vs where
    vs: "kahn_loop ?q remaining [] [] = (vs, vs)" "distinct vs" "set vs \<subseteq> set N" "deps_first G vs"
      "\<forall>n \<in> set N. G n \<subseteq> set vs \<longrightarrow> n \<in> set vs" by blast
  have "set vs = {n \<in> set N. orderable G n}"
  proof
    show "set vs \<subseteq> {n \<in> set N. orderable G n}"
      using vs(3) deps_first_orderable [OF vs(4)] by (auto simp: in_set_conv_nth)
    show "{n \<in> set N. orderable G n} \<subseteq> set vs"
      using orderable_in [of G _ "set N" "set vs"] inside vs(5) by blast
  qed
  with that vs show thesis by blast
qed

text \<open>Not orderable means: a cycle can be reached.\<close>

definition dep_edges :: "(ext_name \<Rightarrow> ext_name set) \<Rightarrow> (ext_name \<times> ext_name) set" where
  "dep_edges G = {(n, m). m \<in> G n}"

lemma orderable_iff_no_cycle:
  assumes "finite (dep_edges G)"
  shows "orderable G n \<longleftrightarrow> (\<nexists>m. (n, m) \<in> (dep_edges G)\<^sup>* \<and> (m, m) \<in> (dep_edges G)\<^sup>+)"
proof
  have nocyc: "(x, x) \<notin> (dep_edges G)\<^sup>+" if "orderable G x" for x
    using that
  proof (induction rule: orderable.induct)
    case (orderableI n)
    show ?case
    proof
      assume "(n, n) \<in> (dep_edges G)\<^sup>+"
      then obtain m where "(n, m) \<in> dep_edges G" "(m, n) \<in> (dep_edges G)\<^sup>*" by (meson tranclD)
      then have "m \<in> G n" "(m, m) \<in> (dep_edges G)\<^sup>+"
        by (auto simp: dep_edges_def) (meson case_prodI mem_Collect_eq rtrancl_into_trancl1)
      with orderableI show False by blast
    qed
  qed
  have desc: "orderable G m" if "(n, m) \<in> (dep_edges G)\<^sup>*" and "orderable G n" for n m
    using that by (induction rule: converse_rtrancl_induct)
      (auto simp: dep_edges_def elim: orderable.cases)
  show "orderable G n \<Longrightarrow> \<nexists>m. (n, m) \<in> (dep_edges G)\<^sup>* \<and> (m, m) \<in> (dep_edges G)\<^sup>+"
    using nocyc desc by blast
next
  assume no: "\<nexists>m. (n, m) \<in> (dep_edges G)\<^sup>* \<and> (m, m) \<in> (dep_edges G)\<^sup>+"
  let ?R = "{(a, b) \<in> dep_edges G. (n, a) \<in> (dep_edges G)\<^sup>*}"
  have "finite ?R" using assms by (rule rev_finite_subset) auto
  moreover have "acyclic ?R"
  proof (rule acyclicI, intro allI notI)
    fix x assume x: "(x, x) \<in> ?R\<^sup>+"
    then have "(n, x) \<in> (dep_edges G)\<^sup>*" by (auto dest: tranclD)
    moreover have "(x, x) \<in> (dep_edges G)\<^sup>+" using x by (rule trancl_mono) auto
    ultimately show False using no by blast
  qed
  ultimately have wf: "wf (?R\<inverse>)" by (rule finite_acyclic_wf_converse)
  have "(n, x) \<in> (dep_edges G)\<^sup>* \<longrightarrow> orderable G x" for x
    using wf
  proof (induction x rule: wf_induct_rule)
    case (less x)
    show ?case
    proof
      assume nx: "(n, x) \<in> (dep_edges G)\<^sup>*"
      show "orderable G x"
      proof (rule orderableI)
        fix m assume "m \<in> G x"
        then have "(x, m) \<in> dep_edges G" by (simp add: dep_edges_def)
        with nx less show "orderable G m" by (auto intro: rtrancl_into_rtrancl)
      qed
    qed
  qed
  then show "orderable G n" by blast
qed

section \<open>Validation\<close>

lemma collectUniqueNames_iff:
  "distinct nodes \<Longrightarrow>
     (if distinct (nodes @ map ext_name ps) then collectUniqueNames ps nodes = Inr (nodes @ map ext_name ps)
      else \<exists>e. collectUniqueNames ps nodes = Inl e)"
proof (induction ps arbitrary: nodes)
  case (Cons p ps)
  show ?case
  proof (cases "ext_name p \<in> set nodes")
    case False
    with Cons.prems Cons.IH [of "nodes @ [ext_name p]"] show ?thesis
      by (simp add: set_add_def split: if_splits)
  qed simp
qed simp

text \<open>The dependencies of a package are sound when all required ones are loaded and all loaded ones fit.\<close>

definition sound_deps :: "sat_fun \<Rightarrow> extension list \<Rightarrow> extension \<Rightarrow> bool" where
  "sound_deps sat pkgs p \<longleftrightarrow>
     (\<forall>d \<in> set (ext_dependencies p).
        (dep_name d \<notin> ext_name ` set pkgs \<longrightarrow> dep_optional d) \<and>
        (\<forall>q \<in> set pkgs. ext_name q = dep_name d \<longrightarrow> sat (ext_version q) (dep_version d)))"

definition version_fits :: "sat_fun \<Rightarrow> (ext_name, extension) js_map \<Rightarrow> ext_dependency \<Rightarrow> bool" where
  "version_fits sat byName d =
     (case map_get byName (dep_name d) of None \<Rightarrow> True | Some q \<Rightarrow> sat (ext_version q) (dep_version d))"

lemma validate_versions_iff:
  "(\<exists>ws'. validate_versions sat en byName pkg ds ws = Inr ws') \<longleftrightarrow>
     (is_fatal en (ext_name pkg) \<longrightarrow> (\<forall>d \<in> set ds. version_fits sat byName d))"
  by (induction ds arbitrary: ws)
    (auto simp: version_fits_def reportValidationFailure_def split: option.splits)

lemma validate_versions_ws:
  "validate_versions sat en byName pkg ds ws = Inr ws' \<Longrightarrow>
     \<exists>new. ws' = ws @ new \<and> (\<forall>w \<in> set new. \<not> is_fatal en (fst w))"
proof (induction ds arbitrary: ws)
  case (Cons d ds)
  then show ?case
    by (fastforce simp: reportValidationFailure_def split: option.splits if_splits)
qed simp

lemma validatePackage_iff:
  "(\<exists>ws'. validatePackageDependencies sat en nodes byName pkg ws = Inr ws') \<longleftrightarrow>
     (is_fatal en (ext_name pkg) \<longrightarrow>
        (\<forall>d \<in> set (ext_dependencies pkg). (dep_name d \<notin> set nodes \<longrightarrow> dep_optional d) \<and> version_fits sat byName d))"
proof -
  let ?m = "filter (\<lambda>d. \<not> dep_optional d \<and> dep_name d \<notin> set nodes) (ext_dependencies pkg)"
  show ?thesis
  proof (cases "?m \<noteq> [] \<and> is_fatal en (ext_name pkg)")
    case True
    then obtain d where "d \<in> set (ext_dependencies pkg)" "\<not> dep_optional d" "dep_name d \<notin> set nodes"
      by (auto simp: filter_empty_conv)
    with True show ?thesis
      by (auto simp: validatePackageDependencies_def reportValidationFailure_def)
  next
    case False
    then obtain ws1 where "validatePackageDependencies sat en nodes byName pkg ws =
        validate_versions sat en byName pkg (ext_dependencies pkg) ws1"
      by (cases "?m = []") (auto simp: validatePackageDependencies_def reportValidationFailure_def Let_def)
    then have "(\<exists>ws'. validatePackageDependencies sat en nodes byName pkg ws = Inr ws') \<longleftrightarrow>
        (is_fatal en (ext_name pkg) \<longrightarrow> (\<forall>d \<in> set (ext_dependencies pkg). version_fits sat byName d))"
      by (simp only: validate_versions_iff)
    with False show ?thesis by (auto simp: filter_empty_conv)
  qed
qed

lemma validatePackage_ws:
  "validatePackageDependencies sat en nodes byName pkg ws = Inr ws' \<Longrightarrow>
     \<exists>new. ws' = ws @ new \<and> (\<forall>w \<in> set new. \<not> is_fatal en (fst w))"
  by (auto simp: validatePackageDependencies_def reportValidationFailure_def Let_def
      split: if_splits dest!: validate_versions_ws)

lemma validateDependencies_iff:
  "(\<exists>ws'. validateDependencies sat en nodes byName ps ws = Inr ws') \<longleftrightarrow>
     (\<forall>pkg \<in> set ps. is_fatal en (ext_name pkg) \<longrightarrow>
        (\<forall>d \<in> set (ext_dependencies pkg). (dep_name d \<notin> set nodes \<longrightarrow> dep_optional d) \<and> version_fits sat byName d))"
proof (induction ps arbitrary: ws)
  case (Cons p ps)
  show ?case
  proof (cases "validatePackageDependencies sat en nodes byName p ws")
    case (Inl e)
    with validatePackage_iff [of sat en nodes byName p ws] show ?thesis by auto
  next
    case (Inr ws')
    with validatePackage_iff [of sat en nodes byName p ws] Cons.IH [of ws'] show ?thesis by auto
  qed
qed simp

lemma validateDependencies_ws:
  "validateDependencies sat en nodes byName ps ws = Inr ws' \<Longrightarrow>
     \<exists>new. ws' = ws @ new \<and> (\<forall>w \<in> set new. \<not> is_fatal en (fst w))"
proof (induction ps arbitrary: ws)
  case (Cons p ps)
  then obtain ws1 where 1: "validatePackageDependencies sat en nodes byName p ws = Inr ws1"
    and 2: "validateDependencies sat en nodes byName ps ws1 = Inr ws'"
    by (auto split: sum.splits)
  from validatePackage_ws [OF 1] Cons.IH [OF 2] show ?case by auto
qed simp

section \<open>The sorted graph\<close>

text \<open>The dependencies, required and optional, of a package that are loaded.\<close>

definition pkg_graph :: "extension list \<Rightarrow> ext_name \<Rightarrow> ext_name set" where
  "pkg_graph pkgs n = {dep_name d | p d. p \<in> set pkgs \<and> ext_name p = n \<and> d \<in> set (ext_dependencies p) \<and>
     dep_name d \<in> ext_name ` set pkgs}"

lemma remaining_map:
  assumes "distinct (map ext_name pkgs)"
  shows "buildRemainingDependencyMap pkgs (map ext_name pkgs) =
    map (\<lambda>p. (ext_name p, set_of_list (map dep_name
      (filter (\<lambda>d. dep_name d \<in> ext_name ` set pkgs) (ext_dependencies p))))) pkgs"
  unfolding buildRemainingDependencyMap_def
  using fold_map_set_distinct [OF assms, of "[]"] by simp

lemma remaining_graph:
  assumes "distinct (map ext_name pkgs)" and "p \<in> set pkgs"
  shows "set (map dep_name (filter (\<lambda>d. dep_name d \<in> ext_name ` set pkgs) (ext_dependencies p))) =
    pkg_graph pkgs (ext_name p)"
proof -
  have "q = p" if "q \<in> set pkgs" "ext_name q = ext_name p" for q
    using assms that by (auto simp: distinct_map dest: inj_onD)
  with assms(2) show ?thesis unfolding pkg_graph_def by auto
qed

lemma runKahn_correct:
  assumes dist: "distinct (map ext_name pkgs)"
  obtains vs where "distinct vs" and "deps_first (pkg_graph pkgs) vs"
    and "set vs = {n \<in> ext_name ` set pkgs. orderable (pkg_graph pkgs) n}"
    and "runKahnSort (map ext_name pkgs) (buildRemainingDependencyMap pkgs (map ext_name pkgs)) en ws =
      (let cycle = filter (\<lambda>n. n \<notin> set vs) (map ext_name pkgs) in
       if \<exists>n \<in> set cycle. is_fatal en n
       then Inl (''ExtensionCoordinator: circular dependency detected among: '' @ join_with '', '' cycle)
       else Inr (vs @ cycle, ws @ map (\<lambda>n. (n,
         ''ExtensionCoordinator: circular dependency detected among disabled packages: '' @ join_with '', '' cycle)) cycle))"
proof -
  let ?N = "map ext_name pkgs" and ?rem = "buildRemainingDependencyMap pkgs (map ext_name pkgs)"
  have keys: "map fst ?rem = ?N" by (simp add: remaining_map [OF dist])
  have deps: "\<forall>(n, ds) \<in> set ?rem. set ds = pkg_graph pkgs n"
    using remaining_graph [OF dist] by (auto simp: remaining_map [OF dist])
  have inside: "pkg_graph pkgs n \<subseteq> set ?N" for n by (auto simp: pkg_graph_def)
  obtain vs where
    vs: "kahn_loop (map fst (filter (\<lambda>(name, deps). deps = []) ?rem)) ?rem [] [] = (vs, vs)"
      "distinct vs" "deps_first (pkg_graph pkgs) vs" "set vs = {n \<in> set ?N. orderable (pkg_graph pkgs) n}"
    using kahn_loop_correct [OF keys deps inside] by blast
  let ?cycle = "filter (\<lambda>n. n \<notin> set vs) ?N"
  have len: "length vs = length ?N \<longleftrightarrow> ?cycle = []"
  proof -
    have "length vs = card (set vs)" "length ?N = card (set ?N)"
      using vs(2) dist by (simp_all only: distinct_card)
    moreover have "set vs \<subseteq> set ?N" using vs(4) by auto
    ultimately have "length vs = length ?N \<longleftrightarrow> set vs = set ?N" by (metis card_subset_eq List.finite_set)
    with \<open>set vs \<subseteq> set ?N\<close> show ?thesis by (auto simp: filter_empty_conv)
  qed
  have fatal: "(case en of None \<Rightarrow> ?cycle | Some ns \<Rightarrow> filter (\<lambda>n. n \<in> set ns) ?cycle) \<noteq> [] \<longleftrightarrow>
      (\<exists>n \<in> set ?cycle. is_fatal en n)"
    by (cases en) (auto simp: is_fatal_def filter_empty_conv)
  have "runKahnSort ?N ?rem en ws =
      (if length vs = length ?N then Inr (vs, ws)
       else if (case en of None \<Rightarrow> ?cycle | Some ns \<Rightarrow> filter (\<lambda>n. n \<in> set ns) ?cycle) \<noteq> []
       then Inl (''ExtensionCoordinator: circular dependency detected among: '' @ join_with '', '' ?cycle)
       else Inr (vs @ ?cycle, ws @ map (\<lambda>n. (n,
         ''ExtensionCoordinator: circular dependency detected among disabled packages: '' @ join_with '', '' ?cycle)) ?cycle))"
    unfolding runKahnSort_def vs(1) Let_def by simp
  then have "runKahnSort ?N ?rem en ws =
      (let cycle = ?cycle in
       if \<exists>n \<in> set cycle. is_fatal en n
       then Inl (''ExtensionCoordinator: circular dependency detected among: '' @ join_with '', '' cycle)
       else Inr (vs @ cycle, ws @ map (\<lambda>n. (n,
         ''ExtensionCoordinator: circular dependency detected among disabled packages: '' @ join_with '', '' cycle)) cycle))"
    unfolding len fatal Let_def by (cases "?cycle = []") simp_all
  with that vs show thesis by simp
qed

lemma version_fits_index:
  assumes "distinct (map ext_name pkgs)"
  shows "version_fits sat (index_by_name pkgs) d \<longleftrightarrow>
    (\<forall>q \<in> set pkgs. ext_name q = dep_name d \<longrightarrow> sat (ext_version q) (dep_version d))"
proof (cases "map_get (index_by_name pkgs) (dep_name d)")
  case None
  then have "dep_name d \<notin> ext_name ` set pkgs" using index_by_name_has by metis
  with None show ?thesis by (auto simp: version_fits_def image_iff)
next
  case (Some q)
  then have "q' = q" if "q' \<in> set pkgs" "ext_name q' = dep_name d" for q'
    using that index_by_name_get [OF assms] by (metis option.inject)
  with Some index_by_name_get [OF assms, of "dep_name d" q] show ?thesis
    by (auto simp: version_fits_def)
qed

lemma topoSort_cases:
  fixes sat :: sat_fun and pkgs :: "extension list"
  defines "G \<equiv> pkg_graph pkgs"
  shows "(\<exists>e. topoSort sat pkgs en = Inl e) \<and>
      \<not> (distinct (map ext_name pkgs) \<and>
         (\<forall>p \<in> set pkgs. is_fatal en (ext_name p) \<longrightarrow> sound_deps sat pkgs p \<and> orderable G (ext_name p))) \<or>
    (\<exists>vs ws. topoSort sat pkgs en =
         Inr (vs @ filter (\<lambda>n. n \<notin> set vs) (map ext_name pkgs), ws) \<and>
       distinct (map ext_name pkgs) \<and>
       (\<forall>p \<in> set pkgs. is_fatal en (ext_name p) \<longrightarrow> sound_deps sat pkgs p \<and> orderable G (ext_name p)) \<and>
       distinct vs \<and> deps_first G vs \<and> set vs = {n \<in> ext_name ` set pkgs. orderable G n} \<and>
       (\<forall>w \<in> set ws. \<not> is_fatal en (fst w)))"
proof (cases "distinct (map ext_name pkgs)")
  case False
  with collectUniqueNames_iff [of "[]" pkgs] show ?thesis by (auto simp: topoSort_def)
next
  case True
  then have nodes: "collectUniqueNames pkgs [] = Inr (map ext_name pkgs)"
    using collectUniqueNames_iff [of "[]" pkgs] by simp
  let ?v = "validateDependencies sat en (map ext_name pkgs) (index_by_name pkgs) pkgs []"
  have sound: "(\<exists>ws. ?v = Inr ws) \<longleftrightarrow>
      (\<forall>p \<in> set pkgs. is_fatal en (ext_name p) \<longrightarrow> sound_deps sat pkgs p)"
    unfolding validateDependencies_iff version_fits_index [OF True] sound_deps_def by simp
  show ?thesis
  proof (cases ?v)
    case (Inl e)
    with sound nodes show ?thesis by (auto simp: topoSort_def)
  next
    case (Inr ws)
    obtain vs where vs: "distinct vs" "deps_first G vs" "set vs = {n \<in> ext_name ` set pkgs. orderable G n}"
      and run: "runKahnSort (map ext_name pkgs) (buildRemainingDependencyMap pkgs (map ext_name pkgs)) en ws =
      (let cycle = filter (\<lambda>n. n \<notin> set vs) (map ext_name pkgs) in
       if \<exists>n \<in> set cycle. is_fatal en n
       then Inl (''ExtensionCoordinator: circular dependency detected among: '' @ join_with '', '' cycle)
       else Inr (vs @ cycle, ws @ map (\<lambda>n. (n,
         ''ExtensionCoordinator: circular dependency detected among disabled packages: '' @ join_with '', '' cycle)) cycle))"
      unfolding G_def
      by (rule runKahn_correct [OF True, where en = en and ws = ws]) (rule that, unfold G_def)
    let ?cycle = "filter (\<lambda>n. n \<notin> set vs) (map ext_name pkgs)"
    have topo: "topoSort sat pkgs en =
        (if \<exists>n \<in> set ?cycle. is_fatal en n
         then Inl (''ExtensionCoordinator: circular dependency detected among: '' @ join_with '', '' ?cycle)
         else Inr (vs @ ?cycle, ws @ map (\<lambda>n. (n,
           ''ExtensionCoordinator: circular dependency detected among disabled packages: '' @ join_with '', '' ?cycle)) ?cycle))"
      unfolding topoSort_def nodes sum.case Inr run Let_def ..
    have cyc: "(\<exists>n \<in> set ?cycle. is_fatal en n) \<longleftrightarrow>
        \<not> (\<forall>p \<in> set pkgs. is_fatal en (ext_name p) \<longrightarrow> orderable G (ext_name p))"
      using vs(3) by auto
    have wsok: "\<forall>w \<in> set ws. \<not> is_fatal en (fst w)" using validateDependencies_ws [OF Inr] by auto
    show ?thesis
    proof (cases "\<exists>n \<in> set ?cycle. is_fatal en n")
      case True
      with topo cyc show ?thesis by auto
    next
      case False
      let ?ws = "ws @ map (\<lambda>n. (n,
           ''ExtensionCoordinator: circular dependency detected among disabled packages: '' @ join_with '', '' ?cycle)) ?cycle"
      have "topoSort sat pkgs en = Inr (vs @ ?cycle, ?ws)" using topo False by simp
      moreover have "\<forall>w \<in> set ?ws. \<not> is_fatal en (fst w)" using wsok False by auto
      moreover have "\<forall>p \<in> set pkgs. is_fatal en (ext_name p) \<longrightarrow> sound_deps sat pkgs p \<and> orderable G (ext_name p)"
        using cyc False sound Inr by blast
      ultimately show ?thesis using vs True by blast
    qed
  qed
qed

lemma finite_pkg_edges: "finite (dep_edges (pkg_graph pkgs))"
proof (rule finite_subset)
  show "dep_edges (pkg_graph pkgs) \<subseteq> ext_name ` set pkgs \<times> ext_name ` set pkgs"
    by (auto simp: dep_edges_def pkg_graph_def)
qed simp

lemmas pkg_orderable_iff = orderable_iff_no_cycle [OF finite_pkg_edges]

text \<open>
  Exactly when the sort refuses a set of extensions: a name is registered twice; an enabled package
  lacks a required dependency; a loaded dependency of an enabled package has an unsuitable version; or
  an enabled package reaches a dependency cycle, over required and optional dependencies alike. The
  last case covers cycles of disabled packages that an enabled one merely depends on, which the
  documentation of the sort says do not abort the boot: \<open>disabled_cycle_aborts_boot\<close> is an instance.
\<close>

lemma topoSort_refuses_iff:
  "(\<exists>e. topoSort sat pkgs en = Inl e) \<longleftrightarrow>
     \<not> distinct (map ext_name pkgs) \<or>
     (\<exists>p \<in> set pkgs. is_fatal en (ext_name p) \<and>
        (\<not> sound_deps sat pkgs p \<or>
         (\<exists>m. (ext_name p, m) \<in> (dep_edges (pkg_graph pkgs))\<^sup>* \<and> (m, m) \<in> (dep_edges (pkg_graph pkgs))\<^sup>+)))"
  using topoSort_cases [of sat pkgs en] unfolding pkg_orderable_iff by auto

lemma topoSort_orderly:
  assumes "topoSort sat pkgs en = Inr (order, ws)"
  shows "distinct order \<and> set order = ext_name ` set pkgs \<and>
    (\<forall>p \<in> set pkgs. is_fatal en (ext_name p) \<longrightarrow>
       (\<forall>before after. order = before @ ext_name p # after \<longrightarrow> pkg_graph pkgs (ext_name p) \<subseteq> set before)) \<and>
    (\<forall>w \<in> set ws. \<not> is_fatal en (fst w))"
proof -
  let ?G = "pkg_graph pkgs"
  obtain vs where order: "order = vs @ filter (\<lambda>n. n \<notin> set vs) (map ext_name pkgs)"
    and dist: "distinct (map ext_name pkgs)" "distinct vs" and first: "deps_first ?G vs"
    and vs: "set vs = {n \<in> ext_name ` set pkgs. orderable ?G n}"
    and ok: "\<forall>p \<in> set pkgs. is_fatal en (ext_name p) \<longrightarrow> orderable ?G (ext_name p)"
    and ws: "\<forall>w \<in> set ws. \<not> is_fatal en (fst w)"
    using topoSort_cases [of sat pkgs en] assms by auto
  have "?G (ext_name p) \<subseteq> set before"
    if p: "p \<in> set pkgs" "is_fatal en (ext_name p)" "order = before @ ext_name p # after" for p before after
  proof -
    have "ext_name p \<in> set vs" using p ok vs by auto
    then obtain v1 v2 where v: "vs = v1 @ ext_name p # v2" by (meson split_list)
    have "distinct order" using dist order by (auto simp: distinct_filter)
    then have n: "ext_name p \<notin> set before" "ext_name p \<notin> set after"
      by (simp_all only: p(3)) simp_all
    have eq: "before @ ext_name p # after =
        v1 @ ext_name p # v2 @ filter (\<lambda>n. n \<notin> set vs) (map ext_name pkgs)"
      using order v p(3) by simp
    have "v1 = before" using append_Cons_eq_iff [OF n, THEN iffD1, OF eq] by simp
    moreover have "?G (vs ! length v1) \<subseteq> set (take (length v1) vs)"
    proof -
      have "length v1 < length vs" by (simp add: v)
      with first show ?thesis unfolding deps_first_def by blast
    qed
    ultimately show ?thesis by (simp add: v)
  qed
  then show ?thesis using order dist vs ws by (auto simp: distinct_filter)
qed

text \<open>
  C24. A returned load order contains every package exactly once, and each enabled package comes after
  every one of its loaded dependencies, required or optional; the soft warnings concern packages that
  are not enabled only.
\<close>

theorem topoSort_order:
  assumes "topoSort sat pkgs en = Inr (order, ws)"
  shows "distinct order \<and> set order = ext_name ` set pkgs \<and>
    (\<forall>p \<in> set pkgs. is_fatal en (ext_name p) \<longrightarrow>
       (\<forall>before after. order = before @ ext_name p # after \<longrightarrow> pkg_graph pkgs (ext_name p) \<subseteq> set before)) \<and>
    (\<forall>w \<in> set ws. \<not> is_fatal en (fst w))"
  using topoSort_orderly [OF assms] .

section \<open>Coalescing\<close>

fun last_registrations :: "extension list \<Rightarrow> extension list" where
  "last_registrations [] = []"
| "last_registrations (p # ps) =
     (if ext_name p \<in> ext_name ` set ps then last_registrations ps else p # last_registrations ps)"

definition reg_count :: "extension list \<Rightarrow> ext_name \<Rightarrow> nat" where
  "reg_count ps n = length (filter (\<lambda>p. ext_name p = n) ps)"

lemma last_registrations_shadow:
  "last_registrations (filter (\<lambda>q. ext_name q \<noteq> ext_name p) xs @ p # ps) = last_registrations (xs @ p # ps)"
  by (induction xs) auto

lemma last_registrations_distinct: "distinct (map ext_name xs) \<Longrightarrow> last_registrations xs = xs"
  by (induction xs) auto

text \<open>What the loop knows of the registrations it has passed.\<close>

definition coalesce_seen :: "extension list \<Rightarrow> ext_name list \<Rightarrow> ext_name \<Rightarrow> nat" where
  "coalesce_seen xs overridden n =
     (if n \<notin> ext_name ` set xs then 0 else if n \<in> set overridden then 2 else 1)"

lemma coalesce_step_correct:
  assumes "distinct (map ext_name xs)" and "set overridden \<subseteq> ext_name ` set xs \<inter> set framework"
  shows "coalesce_step framework ps (map (\<lambda>p. (ext_name p, p)) xs) overridden =
           Inr (last_registrations (xs @ ps)) \<and>
         (\<forall>n. coalesce_seen xs overridden n + reg_count ps n \<le> (if n \<in> set framework then 2 else 1)) \<or>
         (\<exists>e. coalesce_step framework ps (map (\<lambda>p. (ext_name p, p)) xs) overridden = Inl e) \<and>
         (\<exists>n. coalesce_seen xs overridden n + reg_count ps n > (if n \<in> set framework then 2 else 1))"
  using assms
proof (induction ps arbitrary: xs overridden)
  case Nil
  then show ?case
    by (auto simp: comp_def last_registrations_distinct reg_count_def coalesce_seen_def)
next
  case (Cons p ps)
  let ?n = "ext_name p" and ?m = "map (\<lambda>p. (ext_name p, p)) xs"
  have cnt: "reg_count (p # ps) n = (if n = ?n then 1 else 0) + reg_count ps n" for n
    by (simp add: reg_count_def)
  show ?case
  proof (cases "?n \<in> ext_name ` set xs")
    case False
    then have get: "map_get ?m ?n = None" by (auto simp: map_get_def map_of_eq_None_iff image_iff)
    have set: "map_set ?n p ?m = map (\<lambda>p. (ext_name p, p)) (xs @ [p])"
      using False by (simp add: map_set_fresh image_image)
    have seen: "coalesce_seen (xs @ [p]) overridden n =
        coalesce_seen xs overridden n + (if n = ?n then 1 else 0)" for n
      using False Cons.prems(2) by (auto simp: coalesce_seen_def)
    have "distinct (map ext_name (xs @ [p]))" "set overridden \<subseteq> ext_name ` set (xs @ [p]) \<inter> set framework"
      using False Cons.prems by auto
    from Cons.IH [OF this] show ?thesis by (simp add: get set [simplified] seen cnt add.assoc)
  next
    case True
    then have "map_get ?m ?n \<noteq> None" by (simp add: map_get_def map_of_eq_None_iff image_image)
    then obtain q where q: "map_get ?m ?n = Some q" by blast
    show ?thesis
    proof (cases "?n \<notin> set framework \<or> ?n \<in> set overridden")
      case bad: True
      have "coalesce_seen xs overridden ?n + reg_count (p # ps) ?n > (if ?n \<in> set framework then 2 else 1)"
        using bad True Cons.prems(2) by (auto simp: cnt coalesce_seen_def)
      then have "\<exists>n. coalesce_seen xs overridden n + reg_count (p # ps) n > (if n \<in> set framework then 2 else 1)"
        by (rule exI)
      moreover have "\<exists>e. coalesce_step framework (p # ps) ?m overridden = Inl e" using bad q by auto
      ultimately show ?thesis by blast
    next
      case ok: False
      let ?xs = "filter (\<lambda>q. ext_name q \<noteq> ?n) xs @ [p]"
      have del: "map_delete ?n ?m = map (\<lambda>p. (ext_name p, p)) (filter (\<lambda>q. ext_name q \<noteq> ?n) xs)"
        by (simp add: map_delete_def filter_map comp_def)
      have set: "map_set ?n p (map_delete ?n ?m) = map (\<lambda>p. (ext_name p, p)) ?xs"
        unfolding del by (subst map_set_fresh) auto
      have add: "set_add ?n overridden = overridden @ [?n]" using ok by (simp add: set_add_def)
      have seen: "coalesce_seen ?xs (overridden @ [?n]) n =
          coalesce_seen xs overridden n + (if n = ?n then 1 else 0)" for n
        using True ok by (auto simp: coalesce_seen_def)
      have "distinct (map ext_name ?xs)" "set (overridden @ [?n]) \<subseteq> ext_name ` set ?xs \<inter> set framework"
        using ok Cons.prems by (auto simp: distinct_map inj_on_def)
      from Cons.IH [OF this] show ?thesis
        using ok by (simp add: q set [simplified] add seen cnt add.assoc last_registrations_shadow)
    qed
  qed
qed

text \<open>
  Coalescing fails exactly when some name is registered twice without being a framework package
  name, or three times; otherwise it keeps for every name its last registration, in the order of
  these registrations in the input.
\<close>

lemma coalesce_override:
  "(coalesceExtensionOverrides exts framework = Inr (last_registrations exts) \<and>
      (\<forall>n. reg_count exts n \<le> (if n \<in> set framework then 2 else 1))) \<or>
   ((\<exists>e. coalesceExtensionOverrides exts framework = Inl e) \<and>
      (\<exists>n. reg_count exts n > (if n \<in> set framework then 2 else 1)))"
  using coalesce_step_correct [of "[]" "[]" framework exts]
  by (simp add: coalesceExtensionOverrides_def coalesce_seen_def)

section \<open>Examples\<close>

definition sample_ext :: "string \<Rightarrow> (string \<times> bool) list \<Rightarrow> extension" where
  "sample_ext n ds = \<lparr> ext_name = n, ext_displayName = n, ext_version = ''1.0.0'',
     ext_dependencies = map (\<lambda>(d, opt). \<lparr> dep_name = d, dep_version = ''*'', dep_optional = opt \<rparr>) ds,
     ext_surface = None, ext_requires = [], ext_critical = False, ext_create = True,
     ext_registerHandlers = False, ext_migrations = False, ext_tray = False, ext_providers = [] \<rparr>"

definition any_version :: sat_fun where
  "any_version v r = True"

lemmas sample_defs = sample_ext_def any_version_def topoSort_def validatePackageDependencies_def
  runKahnSort_def buildRemainingDependencyMap_def index_by_name_def map_get_def set_add_def
  set_of_list_def set_delete_def is_fatal_def

lemma sample_sort:
  "topoSort any_version
     [sample_ext ''app'' [(''db'', False)], sample_ext ''db'' [(''log'', True)], sample_ext ''log'' []] None =
   Inr ([''log'', ''db'', ''app''], [])"
  by (simp add: sample_defs)

lemma topoSort_order_witness:
  "distinct [''log'', ''db'', ''app''] \<and>
   set [''log'', ''db'', ''app''] = ext_name ` set [sample_ext ''app'' [(''db'', False)],
     sample_ext ''db'' [(''log'', True)], sample_ext ''log'' []]"
  using topoSort_order [OF sample_sort] by blast

text \<open>
  Disabling a broken extension does not always let the others boot: two disabled packages that
  depend on each other make the sort refuse an enabled package that depends on one of them only
  optionally and is on no cycle; without the optional dependency the same set is accepted.
\<close>

lemma disabled_cycle_aborts_boot:
  "topoSort any_version
     [sample_ext ''a'' [(''b'', False)], sample_ext ''b'' [(''a'', False)], sample_ext ''c'' [(''a'', True)]]
     (Some [''c'']) =
   Inl ''ExtensionCoordinator: circular dependency detected among: a, b, c'' \<and>
   topoSort any_version
     [sample_ext ''a'' [(''b'', False)], sample_ext ''b'' [(''a'', False)], sample_ext ''c'' []]
     (Some [''c'']) =
   Inr ([''c'', ''a'', ''b''],
     map (\<lambda>n. (n, ''ExtensionCoordinator: circular dependency detected among disabled packages: a, b''))
       [''a'', ''b''])"
  by (simp add: sample_defs Let_def)

end
