(* ===== verification/Extension_Kernel.thy ===== *)
theory Extension_Kernel
  imports Extension_Lifecycle_Laws Extension_Graph_Laws
begin

text \<open>
  The reachable states of the extension kernel: loading establishes and every lifecycle operation
  keeps that an active extension has its required dependencies active, was started at boot, and that
  only active extensions hold services and storage handlers; shutdown stops dependents before what
  they depend on and is the last operation that ever runs.
\<close>

section \<open>Shutdown\<close>

definition stop_entry :: "extension_entry \<Rightarrow> extension_entry" where
  "stop_entry e = e\<lparr> en_service := None, en_storageCleanup := False,
     en_state := (if en_state e = Active then Stopped else en_state e) \<rparr>"

lemma shutdown_one:
  assumes "get_entry st n = Some e"
  shows "\<exists>st'. (\<forall>m. get_entry st' m = (if m = n then Some (stop_entry e) else get_entry st m)) \<and>
    co_static st' = co_static st \<and>
    (\<exists>fs. fst (shutdown_names h (n # ns) st) = fst (shutdown_names h ns st') \<and>
      fst (snd (shutdown_names h (n # ns) st)) = fs @ fst (snd (shutdown_names h ns st')))"
proof -
  let ?r1 = "if en_state e = Active then runStoppedProcessors h n st else (st, [])"
  let ?r2 = "call_destroy h n (en_service e) (fst ?r1)"
  let ?r3 = "call_storage_cleanup h n (en_storageCleanup e) (fst ?r2)"
  let ?st4 = "if en_state e = Active then transitionPackageEntry n Stopped (fst ?r3) else fst ?r3"
  have g1: "get_entry (fst ?r1) m = get_entry st m" "co_static (fst ?r1) = co_static st" for m
    by (simp_all add: kernel_simps)
  have "get_entry ?st4 m = (if m = n then Some (stop_entry e) else get_entry st m)" for m
    using assms by (cases "en_service e") (auto simp: kernel_simps g1 stop_entry_def)
  moreover have "co_static ?st4 = co_static st" by (simp add: kernel_simps g1)
  moreover have "shutdown_names h (n # ns) st =
      (fst (shutdown_names h ns ?st4), snd ?r1 @ snd ?r2 @ snd ?r3 @ fst (snd (shutdown_names h ns ?st4)),
       (if snd ?r1 @ snd ?r2 @ snd ?r3 \<noteq> [] then [n] else []) @ snd (snd (shutdown_names h ns ?st4)))"
    unfolding shutdown_names.simps assms option.case Let_def case_prod_beta by simp
  ultimately show ?thesis
    by (intro exI [of _ ?st4] conjI exI [of _ "snd ?r1 @ snd ?r2 @ snd ?r3"]) simp_all
qed

lemma shutdown_names_get:
  "distinct ns \<Longrightarrow>
     get_entry (fst (shutdown_names h ns st)) m =
       (if m \<in> set ns then map_option stop_entry (get_entry st m) else get_entry st m) \<and>
     co_static (fst (shutdown_names h ns st)) = co_static st"
proof (induction ns arbitrary: st)
  case (Cons n ns)
  show ?case
  proof (cases "get_entry st n")
    case None
    with Cons show ?thesis by auto
  next
    case (Some e)
    from shutdown_one [OF Some, of h ns] obtain st' where
      st': "\<And>m. get_entry st' m = (if m = n then Some (stop_entry e) else get_entry st m)"
        "co_static st' = co_static st" "fst (shutdown_names h (n # ns) st) = fst (shutdown_names h ns st')"
      by blast
    have "n \<notin> set ns" using Cons.prems by simp
    with Cons.IH [of st'] Cons.prems st' Some show ?thesis by auto
  qed
qed simp

section \<open>Loading\<close>

lemma map_get_fold_set:
  "distinct (map fst xs) \<Longrightarrow>
     map_get (fold (\<lambda>(n, e) m. map_set n e m) xs m) k =
       (case map_of xs k of Some v \<Rightarrow> Some v | None \<Rightarrow> map_get m k)"
proof (induction xs arbitrary: m)
  case (Cons x xs)
  obtain a b where x: "x = (a, b)" by (cases x)
  with Cons.prems have "map_of xs a = None" by (simp add: map_of_eq_None_iff)
  with Cons x show ?case by (auto simp: js_simps split: option.split)
qed simp

lemma ordered_packages_names:
  assumes "set order \<subseteq> ext_name ` set eligible"
  shows "map ext_name (ordered_packages eligible order) = order"
    and "set (ordered_packages eligible order) \<subseteq> set eligible"
proof -
  have ex: "\<exists>p. find (\<lambda>p. ext_name p = n) eligible = Some p" if "n \<in> set order" for n
  proof -
    from that assms obtain p where "p \<in> set eligible" "ext_name p = n" by auto
    then have "find (\<lambda>p. ext_name p = n) eligible \<noteq> None" by (auto simp: find_None_iff)
    then show ?thesis by simp
  qed
  have name: "ext_name p = n \<and> p \<in> set eligible" if "find (\<lambda>p. ext_name p = n) eligible = Some p" for n p
    using find_Some_iff [THEN iffD1, OF that] by (metis nth_mem)
  show "map ext_name (ordered_packages eligible order) = order"
    using ex unfolding ordered_packages_def
  proof (induction order)
    case (Cons n order)
    then obtain p where p: "find (\<lambda>p. ext_name p = n) eligible = Some p" by auto
    have "map ext_name (List.map_filter (\<lambda>n. find (\<lambda>p. ext_name p = n) eligible) order) = order"
      by (rule Cons.IH) (use Cons.prems in auto)
    with p name [OF p] show ?case by (simp add: List.map_filter_simps)
  qed (simp add: List.map_filter_simps)
  show "set (ordered_packages eligible order) \<subseteq> set eligible"
  proof
    fix p assume "p \<in> set (ordered_packages eligible order)"
    then obtain n where "find (\<lambda>p. ext_name p = n) eligible = Some p"
      by (auto simp: ordered_packages_def List.map_filter_def)
    with name show "p \<in> set eligible" by blast
  qed
qed

lemma collect_surfaces_frame:
  "co_static (fst (collect_surfaces h closed ns st)) = co_static st \<and>
   (\<forall>m. get_entry (fst (collect_surfaces h closed ns st)) m = get_entry st m \<or>
      get_entry (fst (collect_surfaces h closed ns st)) m =
        map_option (\<lambda>e. e\<lparr> en_surfacesCollected := True \<rparr>) (get_entry st m)) \<and>
   (snd (collect_surfaces h closed ns st) = None \<longrightarrow>
     (\<forall>m. get_entry (fst (collect_surfaces h closed ns st)) m =
        (if m \<in> set ns \<inter> set closed then map_option (\<lambda>e. e\<lparr> en_surfacesCollected := True \<rparr>) (get_entry st m)
         else get_entry st m)))"
proof (induction ns arbitrary: st)
  case (Cons n ns)
  show ?case
  proof (cases "n \<in> set closed")
    case False
    with Cons.IH [of st] show ?thesis by auto
  next
    case True
    show ?thesis
    proof (cases "h_registerNamespaces h n")
      case (Some e)
      with True show ?thesis by simp
    next
      case None
      let ?st = "update_entry n (\<lambda>e. e\<lparr> en_surfacesCollected := True \<rparr>) st"
      have idem: "map_option (\<lambda>e. e\<lparr> en_surfacesCollected := True \<rparr>)
          (map_option (\<lambda>e. e\<lparr> en_surfacesCollected := True \<rparr>) x) =
          map_option (\<lambda>e. e\<lparr> en_surfacesCollected := True \<rparr>) x" for x :: "extension_entry option"
        by (simp add: option.map_comp comp_def)
      let ?r = "collect_surfaces h closed ns ?st"
      have eq: "collect_surfaces h closed (n # ns) st = ?r" using None True by simp
      have get: "get_entry ?st m =
          (if m = n then map_option (\<lambda>e. e\<lparr> en_surfacesCollected := True \<rparr>) (get_entry st n) else get_entry st m)"
        for m by (simp add: kernel_simps)
      note ih = Cons.IH [of ?st]
      have "co_static (fst ?r) = co_static st" using ih by (simp add: kernel_simps)
      moreover have "get_entry (fst ?r) m = get_entry st m \<or>
          get_entry (fst ?r) m = map_option (\<lambda>e. e\<lparr> en_surfacesCollected := True \<rparr>) (get_entry st m)" for m
        using conjunct1 [OF conjunct2 [OF ih], rule_format, of m] by (auto simp: get idem split: if_splits)
      moreover have "get_entry (fst ?r) m =
          (if m \<in> set (n # ns) \<inter> set closed then map_option (\<lambda>e. e\<lparr> en_surfacesCollected := True \<rparr>) (get_entry st m)
           else get_entry st m)" if "snd ?r = None" for m
        using conjunct2 [OF conjunct2 [OF ih], rule_format, OF that, of m] True by (auto simp: get idem split: if_splits)
      ultimately show ?thesis unfolding eq by blast
    qed
  qed
qed simp

lemma collect_surfaces_other:
  "m \<notin> set ns \<Longrightarrow> get_entry (fst (collect_surfaces h closed ns st)) m = get_entry st m"
  by (induction ns arbitrary: st) (auto simp: kernel_simps split: option.split)

text \<open>What a load that gets as far as building entries leaves behind.\<close>

definition boot_entries :: "host \<Rightarrow> ext_name list \<Rightarrow> extension list \<Rightarrow> (ext_name \<times> extension \<times> bool) list" where
  "boot_entries h enabled retained = map (\<lambda>p. (ext_name p, p, ext_name p \<in> set enabled)) retained"

definition load_effect ::
  "host \<Rightarrow> extension list \<Rightarrow> ext_name list \<Rightarrow> soft_warning list \<Rightarrow> coordinator \<Rightarrow> coordinator \<Rightarrow> bool" where
  "load_effect h retained enabled ws st st' \<longleftrightarrow>
     co_loadOrder st' = map ext_name retained \<and> co_started st' = co_started st \<and>
     co_shutdownRequested st' = co_shutdownRequested st \<and>
     (\<forall>m. m \<notin> ext_name ` set retained \<longrightarrow> get_entry st' m = get_entry st m) \<and>
     (\<forall>p \<in> set retained. \<exists>s. get_entry st' (ext_name p) = Some ((make_entry h enabled ws p)\<lparr> en_surfacesCollected := s \<rparr>) \<and>
        (co_loaded st' \<longrightarrow> (s \<longleftrightarrow> ext_name p \<in> set (fst (closeEnabledExtensionEntries (boot_entries h enabled retained))))))"

lemma load_effectI:
  assumes retained: "distinct (map ext_name retained)" and order: "map ext_name retained = order"
    and fresh: "\<not> co_loaded st"
    and st1: "st1 = st\<lparr> co_loadOrder := order, co_entries := fold (\<lambda>(n, e) m. map_set n e m)
        (map (\<lambda>p. (ext_name p, make_entry h enabled ws p)) retained) (co_entries st) \<rparr>"
    and closed: "closed = fst (closeEnabledExtensionEntries (boot_entries h enabled retained))"
    and col: "collect_surfaces h closed order st1 = (st2, r)"
  shows "load_effect h retained enabled ws st (st2\<lparr> co_loaded := (r = None) \<rparr>)"
proof -
  let ?es = "map (\<lambda>p. (ext_name p, make_entry h enabled ws p)) retained"
  have g1: "get_entry st1 m = (case map_of ?es m of Some v \<Rightarrow> Some v | None \<Rightarrow> get_entry st m)" for m
    using map_get_fold_set [of ?es "co_entries st" m] retained
    by (simp add: st1 get_entry_def comp_def split: option.split)
  have in_es: "map_of ?es (ext_name p) = Some (make_entry h enabled ws p)" if "p \<in> set retained" for p
    using retained that by (intro map_of_is_SomeI) (auto simp: comp_def)
  have out_es: "map_of ?es m = None" if "m \<notin> ext_name ` set retained" for m
    using that by (auto simp: map_of_eq_None_iff)
  have st2: "fst (collect_surfaces h closed order st1) = st2" "snd (collect_surfaces h closed order st1) = r"
    using col by simp_all
  note cf = collect_surfaces_frame [of h closed order st1, unfolded st2]
  have others: "get_entry st2 m = get_entry st m" if "m \<notin> ext_name ` set retained" for m
    using collect_surfaces_other [of m order h closed st1] that g1 [of m] out_es [OF that] order
    by (auto simp: st2)
  have mine: "\<exists>s. get_entry st2 (ext_name p) = Some ((make_entry h enabled ws p)\<lparr> en_surfacesCollected := s \<rparr>) \<and>
      (r = None \<longrightarrow> (s \<longleftrightarrow> ext_name p \<in> set closed))" if p: "p \<in> set retained" for p
  proof -
    have g: "get_entry st1 (ext_name p) = Some (make_entry h enabled ws p)" using g1 in_es [OF p] by simp
    have id: "make_entry h enabled ws p = (make_entry h enabled ws p)\<lparr> en_surfacesCollected := False \<rparr>"
      by (simp add: make_entry_def)
    have "ext_name p \<in> set order" using p order by auto
    show ?thesis
    proof (cases "r = None")
      case True
      with cf have "get_entry st2 (ext_name p) =
          (if ext_name p \<in> set closed then map_option (\<lambda>e. e\<lparr> en_surfacesCollected := True \<rparr>) (get_entry st1 (ext_name p))
           else get_entry st1 (ext_name p))" using \<open>ext_name p \<in> set order\<close> by simp
      with g True show ?thesis
        by (intro exI [of _ "ext_name p \<in> set closed"]) (auto simp: make_entry_def)
    next
      case False
      from cf have "get_entry st2 (ext_name p) = get_entry st1 (ext_name p) \<or> get_entry st2 (ext_name p) =
          map_option (\<lambda>e. e\<lparr> en_surfacesCollected := True \<rparr>) (get_entry st1 (ext_name p))" by blast
      with g id False show ?thesis by auto
    qed
  qed
  have fields: "co_loadOrder st2 = order" "co_started st2 = co_started st"
    "co_shutdownRequested st2 = co_shutdownRequested st"
    using cf by (simp_all add: co_static_def st1)
  have get: "get_entry (st2\<lparr> co_loaded := b \<rparr>) m = get_entry st2 m" for b m by (simp add: get_entry_def)
  show ?thesis
    unfolding load_effect_def get using others mine fields order by (auto simp: closed)
qed

lemma load_change:
  "fst (load h packages st) = st \<or>
   \<not> co_loaded st \<and> \<not> co_shutdownRequested st \<and>
   (\<exists>eligible enabled order ws. topoSort (h_sat h) eligible (Some enabled) = Inr (order, ws) \<and>
      load_effect h (ordered_packages eligible order) enabled ws st (fst (load h packages st)))"
proof (cases "co_shutdownRequested st \<or> co_loaded st")
  case True
  then show ?thesis by (auto simp: load_def)
next
  case open': False
  have same: "\<not> co_loaded x \<Longrightarrow> x\<lparr> co_loaded := False \<rparr> = x" for x :: coordinator by (cases x) simp
  let ?el = "filterEligibleExtensions (h_sat h) packages (h_surface h) (h_env h)"
  show ?thesis
  proof (cases "coalesceExtensionOverrides ?el (h_frameworkNames h)")
    case (Inl e)
    with open' show ?thesis by (simp add: load_def)
  next
    case eligible: (Inr eligible)
    let ?enabled = "resolveBootEnabledNames eligible (h_managedNames h) (h_loadEnabled h)"
    show ?thesis
    proof (cases "topoSort (h_sat h) eligible (Some ?enabled)")
      case (Inl e)
      with open' eligible show ?thesis by (simp add: load_def)
    next
      case (Inr r)
      obtain order ws where r: "r = (order, ws)" by (cases r)
      let ?ret = "ordered_packages eligible order"
      have topo: "topoSort (h_sat h) eligible (Some ?enabled) = Inr (order, ws)" using Inr r by simp
      from topoSort_orderly [OF topo] have ord: "distinct order" "set order = ext_name ` set eligible" by auto
      then have names: "map ext_name ?ret = order" using ordered_packages_names(1) [of order eligible] by simp
      let ?st1 = "st\<lparr> co_loadOrder := order, co_entries := fold (\<lambda>(n, e) m. map_set n e m)
        (map (\<lambda>p. (ext_name p, make_entry h ?enabled ws p)) ?ret) (co_entries st) \<rparr>"
      let ?closed = "fst (closeEnabledExtensionEntries (boot_entries h ?enabled ?ret))"
      obtain st2 res where col: "collect_surfaces h ?closed order ?st1 = (st2, res)"
        by (cases "collect_surfaces h ?closed order ?st1")
      have "load_effect h ?ret ?enabled ws st (st2\<lparr> co_loaded := (res = None) \<rparr>)"
        by (rule load_effectI [OF _ names _ refl refl col]) (use open' names ord in auto)
      moreover have "co_loaded st2 = co_loaded st"
        using collect_surfaces_frame [of h ?closed order ?st1] col by (simp add: co_static_def)
      moreover have "fst (load h packages st) = (if res = None then st2\<lparr> co_loaded := True \<rparr> else st2)"
      proof -
        have "map (\<lambda>(n, e). (n, en_pkg e, en_enabled e)) (map (\<lambda>p. (ext_name p, make_entry h ?enabled ws p)) ?ret) =
            boot_entries h ?enabled ?ret" by (simp add: boot_entries_def make_entry_def)
        then show ?thesis
          using open' eligible topo col by (simp add: load_def Let_def split: option.split)
      qed
      moreover have "fst (load h packages st) = st2\<lparr> co_loaded := (res = None) \<rparr>"
        using calculation(2,3) open' same [of st2] by (cases res) simp_all
      ultimately have "load_effect h ?ret ?enabled ws st (fst (load h packages st))" by simp
      with topo open' show ?thesis by blast
    qed
  qed
qed

section \<open>What loading establishes\<close>

text \<open>Required dependencies of a boot-started entry come before it in the load order.\<close>

definition order_ok :: "coordinator \<Rightarrow> bool" where
  "order_ok st \<longleftrightarrow>
     (\<forall>n e m. get_entry st n = Some e \<longrightarrow> n \<in> set (co_loadOrder st) \<longrightarrow> en_surfacesCollected e \<longrightarrow> requires e m \<longrightarrow>
        (\<exists>a b. co_loadOrder st = a @ n # b \<and> m \<in> set a))"

definition all_discovered :: "coordinator \<Rightarrow> bool" where
  "all_discovered st \<longleftrightarrow> (\<forall>n e. get_entry st n = Some e \<longrightarrow> en_state e = Discovered)"

lemma load_effect_entry:
  assumes "load_effect h retained enabled ws st st'" and "get_entry st' n = Some e"
  shows "get_entry st n = Some e \<or>
    (\<exists>p \<in> set retained. \<exists>s. n = ext_name p \<and> e = (make_entry h enabled ws p)\<lparr> en_surfacesCollected := s \<rparr>)"
proof (cases "n \<in> ext_name ` set retained")
  case True
  then obtain p where "p \<in> set retained" "n = ext_name p" by blast
  with assms show ?thesis unfolding load_effect_def by fastforce
next
  case False
  with assms show ?thesis unfolding load_effect_def by auto
qed

lemma load_effect_discovered:
  assumes "load_effect h retained enabled ws st st'" and "all_discovered st" and "co_inv st"
  shows "all_discovered st'" and "entries_ok st'" and "active_deps_ok st'"
proof -
  have ent: "en_state e = Discovered \<and> clean e" if "get_entry st' n = Some e" for n e
    using load_effect_entry [OF assms(1) that] assms(2,3)
    by (auto simp: all_discovered_def make_entry_def clean_def co_inv_def entries_ok_def)
  then show "all_discovered st'" "entries_ok st'" "active_deps_ok st'"
    by (auto simp: all_discovered_def entries_ok_def active_deps_ok_def)
qed

lemma boot_entries_facts:
  assumes "distinct (map ext_name retained)"
  shows "distinct (map fst (boot_entries h enabled retained))"
    and "fst ` set (boot_entries h enabled retained) = ext_name ` set retained"
    and "p \<in> set retained \<Longrightarrow> entry_deps (boot_entries h enabled retained) (ext_name p) = ext_dependencies p"
    and "enabled_names (boot_entries h enabled retained) = {n \<in> ext_name ` set retained. n \<in> set enabled}"
proof -
  show "distinct (map fst (boot_entries h enabled retained))"
    using assms by (simp add: boot_entries_def comp_def)
  show "fst ` set (boot_entries h enabled retained) = ext_name ` set retained"
    by (force simp: boot_entries_def)
  show "enabled_names (boot_entries h enabled retained) = {n \<in> ext_name ` set retained. n \<in> set enabled}"
    by (auto simp: boot_entries_def enabled_names_def)
  assume "p \<in> set retained"
  then have "map_of (boot_entries h enabled retained) (ext_name p) = Some (p, ext_name p \<in> set enabled)"
    using assms by (intro map_of_is_SomeI) (auto simp: boot_entries_def comp_def)
  then show "entry_deps (boot_entries h enabled retained) (ext_name p) = ext_dependencies p"
    by (simp add: entry_deps_def)
qed

text \<open>An enabled entry outside the closed set requires a loaded entry outside the closed set.\<close>

lemma closed_maximal:
  assumes dist: "distinct (map ext_name retained)" and p: "p \<in> set retained" "ext_name p \<in> set enabled"
    and out: "ext_name p \<notin> set (fst (closeEnabledExtensionEntries (boot_entries h enabled retained)))"
  shows "\<exists>d \<in> set (ext_dependencies p). \<not> dep_optional d \<and> dep_name d \<in> ext_name ` set retained \<and>
    dep_name d \<notin> set (fst (closeEnabledExtensionEntries (boot_entries h enabled retained)))"
proof (rule ccontr)
  let ?es = "boot_entries h enabled retained" and ?n = "ext_name p"
  let ?C = "set (fst (closeEnabledExtensionEntries ?es))"
  let ?ok = "deps_closed (entry_deps ?es) (fst ` set ?es)"
  note b = boot_entries_facts [OF dist, where h = h and enabled = enabled]
  have C: "?C = \<Union> {S. S \<subseteq> enabled_names ?es \<and> ?ok S}"
    using closeEnabled_closure [OF b(1) prod.collapse [symmetric]] by (rule conjunct1)
  assume "\<not> ?thesis"
  then have "\<forall>d \<in> set (ext_dependencies p). \<not> dep_optional d \<longrightarrow> dep_name d \<in> ext_name ` set retained \<longrightarrow> dep_name d \<in> ?C"
    by blast
  then have new: "\<forall>d \<in> set (entry_deps ?es ?n). \<not> dep_optional d \<longrightarrow> dep_name d \<in> fst ` set ?es \<longrightarrow> dep_name d \<in> ?C"
    by (simp only: b(2) b(3) [OF p(1)])
  have "?ok ?C" unfolding C deps_closed_def by blast
  with new have "?ok (insert ?n ?C)" unfolding deps_closed_def by blast
  moreover have "insert ?n ?C \<subseteq> enabled_names ?es" using p b(4) C by auto
  ultimately have "?n \<in> ?C" unfolding C by blast
  with out show False ..
qed

lemma load_effect_surfaces:
  assumes eff: "load_effect h retained enabled ws st st'" and dist: "distinct (map ext_name retained)"
    and disc: "all_discovered st'" and loaded: "co_loaded st'"
  shows "surfaces_ok st'"
proof -
  let ?C = "set (fst (closeEnabledExtensionEntries (boot_entries h enabled retained)))"
  have order: "set (co_loadOrder st') = ext_name ` set retained" using eff by (simp add: load_effect_def)
  have surf: "get_entry st' (ext_name p) = Some ((make_entry h enabled ws p)\<lparr> en_surfacesCollected := (ext_name p \<in> ?C) \<rparr>)"
    if "p \<in> set retained" for p
    using eff that loaded unfolding load_effect_def by auto
  have "en_state e \<in> {Discovered, Skipped} \<and> \<not> en_enabled e \<or> blocked_entry st' e"
    if e: "get_entry st' n = Some e" "n \<in> set (co_loadOrder st')" "\<not> en_surfacesCollected e" for n e
  proof -
    from e(2) order obtain p where p: "p \<in> set retained" "n = ext_name p" by auto
    then have eq: "e = (make_entry h enabled ws p)\<lparr> en_surfacesCollected := (n \<in> ?C) \<rparr>" using surf e(1) by simp
    with e(3) have out: "n \<notin> ?C" by simp
    show ?thesis
    proof (cases "n \<in> set enabled")
      case False
      then show ?thesis by (simp add: eq make_entry_def p)
    next
      case True
      from closed_maximal [OF dist p(1) True [unfolded p(2)] out [unfolded p(2)]] obtain d q where
        d: "d \<in> set (ext_dependencies p)" "\<not> dep_optional d" "q \<in> set retained" "dep_name d = ext_name q"
          "ext_name q \<notin> ?C" by auto
      have "requires e (ext_name q)" using d by (auto simp: requires_def eq make_entry_def)
      moreover have "\<not> en_surfacesCollected ((make_entry h enabled ws q)\<lparr> en_surfacesCollected := (ext_name q \<in> ?C) \<rparr>)"
        using d(5) by simp
      ultimately have "blocked_entry st' e" unfolding blocked_entry_def using surf [OF d(3)] by blast
      then show ?thesis ..
    qed
  qed
  moreover have "en_surfacesCollected e" if "get_entry st' n = Some e" "en_state e = Active" for n e
    using disc that by (auto simp: all_discovered_def)
  ultimately show ?thesis unfolding surfaces_ok_def by blast
qed

lemma load_effect_order:
  assumes eff: "load_effect h (ordered_packages eligible order) enabled ws st st'"
    and topo: "topoSort sat eligible (Some enabled) = Inr (order, ws')" and loaded: "co_loaded st'"
  shows "order_ok st'"
  unfolding order_ok_def
proof (intro allI impI)
  let ?ret = "ordered_packages eligible order"
  let ?C = "set (fst (closeEnabledExtensionEntries (boot_entries h enabled ?ret)))"
  fix n e m
  assume e: "get_entry st' n = Some e" "n \<in> set (co_loadOrder st')" "en_surfacesCollected e" and req: "requires e m"
  have ord: "distinct order" "set order = ext_name ` set eligible"
    and first: "\<forall>p \<in> set eligible. is_fatal (Some enabled) (ext_name p) \<longrightarrow>
       (\<forall>before after. order = before @ ext_name p # after \<longrightarrow> pkg_graph eligible (ext_name p) \<subseteq> set before)"
    using topoSort_orderly [OF topo] by blast+
  have names: "map ext_name ?ret = order" and sub: "set ?ret \<subseteq> set eligible"
    using ordered_packages_names [of order eligible] ord by simp_all
  have dist: "distinct (map ext_name ?ret)" using names ord by simp
  have order: "co_loadOrder st' = order" using eff names by (simp add: load_effect_def)
  obtain p where p: "p \<in> set ?ret" "n = ext_name p" using e(2) order names by (metis imageE list.set_map)
  with eff e(1) loaded obtain s where s: "e = (make_entry h enabled ws p)\<lparr> en_surfacesCollected := s \<rparr>" "s \<longleftrightarrow> n \<in> ?C"
    unfolding load_effect_def by fastforce
  with e(3) have inC: "n \<in> ?C" by simp
  note b = boot_entries_facts [OF dist, where h = h and enabled = enabled]
  have "?C \<subseteq> enabled_names (boot_entries h enabled ?ret)"
    using closeEnabled_closure [OF b(1) prod.collapse [symmetric], THEN conjunct1] by blast
  with inC b(4) have fatal: "is_fatal (Some enabled) n" by (auto simp: is_fatal_def)
  have "m \<in> pkg_graph eligible n"
  proof -
    from req obtain d where d: "d \<in> set (ext_dependencies p)" "\<not> dep_optional d" "dep_name d = m"
      by (auto simp: requires_def s(1) make_entry_def)
    have "sound_deps sat eligible p"
      using topoSort_cases [of sat eligible "Some enabled"] topo fatal p sub by auto
    with d have "m \<in> ext_name ` set eligible" unfolding sound_deps_def by blast
    with d p sub show ?thesis unfolding pkg_graph_def by blast
  qed
  moreover obtain a b where ab: "order = a @ n # b" using e(2) order by (metis split_list)
  ultimately show "\<exists>a b. co_loadOrder st' = a @ n # b \<and> m \<in> set a"
    using first p sub fatal order by blast
qed

section \<open>The invariant of the kernel\<close>

definition load_ok :: "coordinator \<Rightarrow> bool" where
  "load_ok st \<longleftrightarrow> distinct (co_loadOrder st) \<and>
     (co_loaded st \<longrightarrow> order_ok st \<and> (\<forall>n \<in> set (co_loadOrder st). get_entry st n \<noteq> None))"

definition lane_ok :: "kernel \<Rightarrow> bool" where
  "lane_ok k \<longleftrightarrow>
     (OpStartAll \<in> set (k_ran k @ k_lane k) \<longleftrightarrow> co_started (k_co k)) \<and>
     (co_started (k_co k) \<longrightarrow> co_loaded (k_co k)) \<and>
     length (filter (\<lambda>op. op = OpStartAll) (k_ran k @ k_lane k)) \<le> 1 \<and>
     (OpShutdown \<in> set (k_ran k @ k_lane k) \<longleftrightarrow> co_shutdownRequested (k_co k)) \<and>
     (\<forall>a b. k_ran k @ k_lane k = a @ OpShutdown # b \<longrightarrow> b = [])"

definition kernel_inv :: "kernel \<Rightarrow> bool" where
  "kernel_inv k \<longleftrightarrow> co_inv (k_co k) \<and> load_ok (k_co k) \<and> lane_ok k \<and>
     (OpStartAll \<notin> set (k_ran k) \<longrightarrow> all_discovered (k_co k)) \<and>
     (OpShutdown \<in> set (k_ran k) \<longrightarrow> (\<forall>n. \<not> hasActiveExtension (k_co k) n))"

lemma load_ok_same:
  assumes "co_static st' = co_static st" and "manifests_same st st'" and "load_ok st"
  shows "load_ok st'"
proof -
  have order: "co_loadOrder st' = co_loadOrder st" and loaded: "co_loaded st' = co_loaded st"
    using assms(1) by (simp_all add: co_static_def)
  have get: "\<exists>e. get_entry st n = Some e \<and> en_pkg e = en_pkg e' \<and> en_surfacesCollected e = en_surfacesCollected e'"
    if "get_entry st' n = Some e'" for n e'
  proof -
    have "Some (en_pkg e', en_surfacesCollected e') =
        map_option (\<lambda>e. (en_pkg e, en_surfacesCollected e)) (get_entry st n)"
      using assms(2) that unfolding manifests_same_def by (metis option.simps(9))
    then show ?thesis by (cases "get_entry st n") simp_all
  qed
  have none: "get_entry st' n = None \<longleftrightarrow> get_entry st n = None" for n
    using assms(2) [unfolded manifests_same_def, rule_format, of n]
    by (cases "get_entry st n"; cases "get_entry st' n") simp_all
  have "order_ok st'" if "order_ok st"
    unfolding order_ok_def order
  proof (intro allI impI)
    fix n e' m
    assume a: "get_entry st' n = Some e'" "n \<in> set (co_loadOrder st)" "en_surfacesCollected e'" "requires e' m"
    from get [OF a(1)] obtain e where "get_entry st n = Some e" "en_pkg e = en_pkg e'" "en_surfacesCollected e"
      using a(3) by auto
    with that a show "\<exists>a b. co_loadOrder st = a @ n # b \<and> m \<in> set a"
      unfolding order_ok_def requires_def by simp
  qed
  with assms(3) none show ?thesis unfolding load_ok_def order loaded by simp
qed

lemma stop_not_active: "en_state (stop_entry e) \<noteq> Active"
  by (simp add: stop_entry_def)

lemma stop_manifest: "en_pkg (stop_entry e) = en_pkg e" "en_surfacesCollected (stop_entry e) = en_surfacesCollected e"
  by (simp_all add: stop_entry_def)

lemma shutdown_lane_result:
  assumes "co_inv st" and "distinct (co_loadOrder st)"
  shows "co_inv (fst (shutdownInLifecycleLane h st))" and "\<not> hasActiveExtension (fst (shutdownInLifecycleLane h st)) n"
    and "co_static (fst (shutdownInLifecycleLane h st)) = co_static st"
    and "manifests_same st (fst (shutdownInLifecycleLane h st))"
    and "all_discovered st \<Longrightarrow> all_discovered (fst (shutdownInLifecycleLane h st))"
proof -
  let ?st = "fst (shutdownInLifecycleLane h st)"
  have st: "?st = fst (shutdown_names h (rev (co_loadOrder st)) st)"
    by (simp add: shutdownInLifecycleLane_def shutdownExtensions_def case_prod_beta Let_def)
  have get: "get_entry ?st m = (if m \<in> set (co_loadOrder st) then map_option stop_entry (get_entry st m) else get_entry st m)"
    and stat: "co_static ?st = co_static st" for m
    using shutdown_names_get [of "rev (co_loadOrder st)" h st] assms(2) unfolding st by simp_all
  have ok: "entries_ok st" and sok: "co_loaded st \<longrightarrow> surfaces_ok st" using assms(1) by (simp_all add: co_inv_def)
  have none: "en_state e \<noteq> Active" if "get_entry ?st m = Some e" for m e
    using that ok stop_not_active unfolding get entries_ok_def by (auto split: if_splits)
  show "\<not> hasActiveExtension ?st n" using none by (auto simp: hasActive_iff)
  show "co_static ?st = co_static st" by (rule stat)
  show "all_discovered st \<Longrightarrow> all_discovered ?st"
    unfolding all_discovered_def get by (auto simp: stop_entry_def split: if_splits)
  show man: "manifests_same st ?st"
    unfolding manifests_same_def get by (simp add: option.map_comp comp_def stop_manifest)
  have order: "co_loadOrder ?st = co_loadOrder st" "co_loaded ?st = co_loaded st" using stat by (simp_all add: co_static_def)
  have "entries_ok ?st"
    using ok unfolding entries_ok_def get order by (auto simp: stop_entry_def clean_def split: if_splits)
  moreover have "active_deps_ok ?st" unfolding active_deps_ok_def using none by blast
  moreover have "surfaces_ok ?st" if "surfaces_ok st"
  proof -
    have blocked: "blocked_entry ?st x" if "blocked_entry st x" for x
      using that unfolding blocked_entry_def get by (metis option.simps(9) stop_manifest(2))
    have "en_state e \<in> {Discovered, Skipped} \<and> \<not> en_enabled e \<or> blocked_entry ?st e"
      if e: "get_entry ?st n = Some e" "n \<in> set (co_loadOrder st)" "\<not> en_surfacesCollected e" for n e
    proof -
      obtain e0 where e0: "get_entry st n = Some e0" "e = stop_entry e0" using e by (auto simp: get)
      with e(3) have "\<not> en_surfacesCollected e0" by (simp add: stop_manifest)
      with \<open>surfaces_ok st\<close> e0 e(2) have "en_state e0 \<in> {Discovered, Skipped} \<and> \<not> en_enabled e0 \<or> blocked_entry st e0"
        unfolding surfaces_ok_def by blast
      moreover have "blocked_entry ?st e \<longleftrightarrow> blocked_entry ?st e0"
        by (simp add: blocked_entry_def requires_def e0(2) stop_manifest)
      ultimately show ?thesis using blocked by (auto simp: e0(2) stop_entry_def)
    qed
    then show ?thesis unfolding surfaces_ok_def order using none by blast
  qed
  ultimately show "co_inv ?st" using sok by (simp add: co_inv_def order)
qed

text \<open>The predicates read the entries, the load order and the loaded flag only.\<close>

lemma co_cong:
  assumes "co_entries st' = co_entries st" and "co_loadOrder st' = co_loadOrder st" and "co_loaded st' = co_loaded st"
  shows "co_inv st' = co_inv st" and "load_ok st' = load_ok st" and "all_discovered st' = all_discovered st"
    and "hasActiveExtension st' n = hasActiveExtension st n"
  using assms unfolding co_inv_def entries_ok_def active_deps_ok_def surfaces_ok_def blocked_entry_def
    load_ok_def order_ok_def all_discovered_def hasActive_iff get_entry_def by simp_all

lemma kernel_inv_new: "kernel_inv new_kernel"
  by (simp add: kernel_inv_def new_kernel_def new_coordinator_def co_inv_def entries_ok_def active_deps_ok_def
      surfaces_ok_def load_ok_def lane_ok_def all_discovered_def hasActive_iff get_entry_def)

lemma load_kernel_inv:
  assumes "kernel_inv k"
  shows "kernel_inv (k\<lparr> k_co := fst (load h packages (k_co k)) \<rparr>)"
proof -
  let ?st = "k_co k" and ?st' = "fst (load h packages (k_co k))"
  show ?thesis
  proof (cases "?st' = ?st")
    case True
    then have "k\<lparr> k_co := ?st' \<rparr> = k" by simp
    with assms show ?thesis by simp
  next
    case False
    with load_change [of h packages ?st] obtain eligible enabled order ws where
      fresh: "\<not> co_loaded ?st" "\<not> co_shutdownRequested ?st"
      and topo: "topoSort (h_sat h) eligible (Some enabled) = Inr (order, ws)"
      and eff: "load_effect h (ordered_packages eligible order) enabled ws ?st ?st'" by blast
    have lane: "lane_ok k" "co_inv ?st" using assms by (simp_all add: kernel_inv_def)
    with fresh have "\<not> co_started ?st" by (auto simp: lane_ok_def)
    with lane have ran: "OpStartAll \<notin> set (k_ran k @ k_lane k)" by (simp add: lane_ok_def)
    with assms have disc: "all_discovered ?st" by (simp add: kernel_inv_def)
    note new = load_effect_discovered [OF eff disc lane(2)]
    from topoSort_orderly [OF topo] have ord: "distinct order" "set order = ext_name ` set eligible" by auto
    then have names: "map ext_name (ordered_packages eligible order) = order"
      using ordered_packages_names(1) [of order eligible] by simp
    then have dist: "distinct (map ext_name (ordered_packages eligible order))" using ord by simp
    have fields: "co_loadOrder ?st' = order" "co_started ?st' = co_started ?st"
      "co_shutdownRequested ?st' = co_shutdownRequested ?st"
      using eff names by (simp_all add: load_effect_def)
    have "get_entry ?st' n \<noteq> None" if "n \<in> set order" for n
    proof -
      from that names obtain p where "p \<in> set (ordered_packages eligible order)" "n = ext_name p"
        by (metis imageE list.set_map)
      with eff show ?thesis unfolding load_effect_def by auto
    qed
    then have "load_ok ?st'" using ord fields load_effect_order [OF eff topo] by (simp add: load_ok_def)
    moreover have "co_inv ?st'" using new load_effect_surfaces [OF eff dist new(1)] by (simp add: co_inv_def)
    moreover have "lane_ok (k\<lparr> k_co := ?st' \<rparr>)"
      using lane(1) fields \<open>\<not> co_started ?st\<close> by (simp add: lane_ok_def)
    moreover have "OpShutdown \<notin> set (k_ran k)" using lane(1) fresh by (auto simp: lane_ok_def)
    ultimately show ?thesis using new(1) by (simp add: kernel_inv_def)
  qed
qed

lemma lane_append:
  assumes "kernel_inv k" and "\<not> co_shutdownRequested (k_co k)" and "op \<noteq> OpStartAll" and "op \<noteq> OpShutdown"
  shows "kernel_inv (enqueueLifecycle op k)"
proof -
  have l: "lane_ok k" using assms(1) by (simp add: kernel_inv_def)
  have no: "OpShutdown \<notin> set (k_ran k @ k_lane k)" using l assms(2) by (simp add: lane_ok_def)
  have "lane_ok (enqueueLifecycle op k)"
  proof -
    have "b = []" if "(k_ran k @ k_lane k) @ [op] = a @ OpShutdown # b" for a b
    proof -
      have "OpShutdown \<in> set ((k_ran k @ k_lane k) @ [op])" by (simp only: that) simp
      with no assms(4) show ?thesis by simp
    qed
    then show ?thesis using l assms by (simp add: lane_ok_def enqueueLifecycle_def)
  qed
  with assms(1) show ?thesis by (simp add: kernel_inv_def enqueueLifecycle_def)
qed

lemma admit_kernel_inv:
  "kernel_inv k \<Longrightarrow> op \<noteq> OpStartAll \<Longrightarrow> op \<noteq> OpShutdown \<Longrightarrow> kernel_inv (admitLifecycle op k)"
  using lane_append by (simp add: admitLifecycle_def)

lemma startAll_kernel_inv:
  assumes "kernel_inv k"
  shows "kernel_inv (fst (startAll k))"
proof (cases "co_shutdownRequested (k_co k) \<or> \<not> co_loaded (k_co k) \<or> co_started (k_co k)")
  case True
  with assms show ?thesis by (auto simp: startAll_def)
next
  case False
  let ?st = "(k_co k)\<lparr> co_started := True \<rparr>"
  let ?k = "enqueueLifecycle OpStartAll (k\<lparr> k_co := ?st \<rparr>)"
  have eq: "fst (startAll k) = ?k" using False by (simp add: startAll_def)
  have l: "lane_ok k" using assms by (simp add: kernel_inv_def)
  have no: "OpShutdown \<notin> set (k_ran k @ k_lane k)" "OpStartAll \<notin> set (k_ran k @ k_lane k)"
    using l False by (simp_all add: lane_ok_def)
  have end': "b = []" if "(k_ran k @ k_lane k) @ [OpStartAll] = a @ OpShutdown # b" for a b
  proof -
    have "OpShutdown \<in> set ((k_ran k @ k_lane k) @ [OpStartAll])" by (simp only: that) simp
    with no show ?thesis by simp
  qed
  have "filter (\<lambda>op. op = OpStartAll) (k_ran k @ k_lane k) = []" using no(2) by (auto simp: filter_empty_conv)
  then have "lane_ok ?k" using l no False end' by (auto simp: lane_ok_def enqueueLifecycle_def)
  moreover have "co_inv ?st = co_inv (k_co k)" "load_ok ?st = load_ok (k_co k)"
    "all_discovered ?st = all_discovered (k_co k)" "hasActiveExtension ?st n = hasActiveExtension (k_co k) n" for n
    by (rule co_cong; simp)+
  ultimately show ?thesis using assms unfolding eq by (simp add: kernel_inv_def enqueueLifecycle_def)
qed

lemma shutdown_kernel_inv:
  assumes "kernel_inv k"
  shows "kernel_inv (shutdown k)"
proof (cases "co_shutdownRequested (k_co k)")
  case True
  with assms show ?thesis by (simp add: shutdown_def)
next
  case False
  let ?st = "(k_co k)\<lparr> co_shutdownRequested := True \<rparr>"
  let ?k = "enqueueLifecycle OpShutdown (k\<lparr> k_co := ?st \<rparr>)"
  have eq: "shutdown k = ?k" using False by (simp add: shutdown_def)
  have l: "lane_ok k" using assms by (simp add: kernel_inv_def)
  have no: "OpShutdown \<notin> set (k_ran k @ k_lane k)" using l False by (simp add: lane_ok_def)
  have end': "b = []" if "(k_ran k @ k_lane k) @ [OpShutdown] = a @ OpShutdown # b" for a b
    using that no by (cases b rule: rev_cases) (auto simp del: append_assoc simp: append_assoc [symmetric])
  have "lane_ok ?k" using l no end' by (auto simp: lane_ok_def enqueueLifecycle_def)
  moreover have "co_inv ?st = co_inv (k_co k)" "load_ok ?st = load_ok (k_co k)"
    "all_discovered ?st = all_discovered (k_co k)" "hasActiveExtension ?st n = hasActiveExtension (k_co k) n" for n
    by (rule co_cong; simp)+
  ultimately show ?thesis using assms unfolding eq by (simp add: kernel_inv_def enqueueLifecycle_def)
qed


section \<open>Running the lane\<close>

lemma transition_discovered:
  assumes "all_discovered st"
  shows "all_discovered (fst (applyExtensionTransition h n enabled st))"
proof (cases "get_entry st n")
  case None
  with assms show ?thesis by (simp add: applyExtensionTransition_def)
next
  case (Some e)
  with assms have "en_state e = Discovered" by (simp add: all_discovered_def)
  with Some have "fst (applyExtensionTransition h n enabled st) \<in>
      {st, record_call (EnabledChanged n False) (update_entry n (\<lambda>e. e\<lparr> en_enabled := False \<rparr>) st)}"
    by (auto simp: applyExtensionTransition_def enableExtension_def disableExtension_def)
  with assms show ?thesis by (auto simp: all_discovered_def kernel_simps split: if_splits)
qed

lemma setEnabled_same:
  assumes "co_inv st"
  shows "co_inv (fst (handleSetEnabled h n enabled catalog st))"
    and "manifests_same st (fst (handleSetEnabled h n enabled catalog st))"
    and "all_discovered (fst (handleSetEnabled h n enabled catalog st)) = all_discovered st"
  using same_entries_inv [OF handleSetEnabled_frame assms]
  by (simp_all add: manifests_same_refl handleSetEnabled_frame all_discovered_def)

lemma lane_shift:
  assumes "lane_ok k" and "k_lane k = op # ops" and "co_static st = co_static (k_co k)"
  shows "lane_ok (k\<lparr> k_co := st, k_lane := ops, k_ran := k_ran k @ [op] \<rparr>)"
  using assms by (simp add: lane_ok_def co_static_def)

lemma run_op_inv:
  assumes "co_inv st" and "load_ok st" and "op = OpStartAll \<Longrightarrow> all_discovered st"
  shows "co_inv (run_op h op st) \<and> load_ok (run_op h op st) \<and> co_static (run_op h op st) = co_static st \<and>
    (op \<noteq> OpStartAll \<and> all_discovered st \<longrightarrow> all_discovered (run_op h op st)) \<and>
    (op = OpShutdown \<longrightarrow> (\<forall>n. \<not> hasActiveExtension (run_op h op st) n))"
proof -
  have dist: "distinct (co_loadOrder st)" using assms(2) by (simp add: load_ok_def)
  show ?thesis
  proof (cases op)
    case OpStartAll
    then have "\<forall>n e. get_entry st n = Some e \<longrightarrow> en_state e = Discovered"
      using assms(3) by (auto simp: all_discovered_def)
    from startAll_lane_inv [OF assms(1) dist this, of h] OpStartAll show ?thesis
      using load_ok_same [OF _ _ assms(2)] by auto
  next
    case (OpTransition n enabled)
    with applyTransition_inv [OF assms(1), of h n enabled] transition_discovered [of st h n enabled] show ?thesis
      using load_ok_same [OF _ _ assms(2)] by auto
  next
    case (OpSetEnabled n enabled catalog)
    with setEnabled_same [OF assms(1), of h n enabled catalog] handleSetEnabled_frame(2) [of h n enabled catalog st]
    show ?thesis using load_ok_same [OF _ _ assms(2)] by auto
  next
    case OpShutdown
    with shutdown_lane_result [OF assms(1) dist, of h] show ?thesis
      using load_ok_same [OF _ _ assms(2)] by auto
  qed
qed

lemma run_head_inv:
  assumes "kernel_inv k"
  shows "kernel_inv (run_head h k)"
proof (cases "k_lane k")
  case Nil
  with assms show ?thesis by simp
next
  case (Cons op ops)
  let ?st = "run_op h op (k_co k)"
  have k: "co_inv (k_co k)" "load_ok (k_co k)" "lane_ok k"
    "OpStartAll \<notin> set (k_ran k) \<Longrightarrow> all_discovered (k_co k)"
    using assms by (simp_all add: kernel_inv_def)
  have "length (filter (\<lambda>op. op = OpStartAll) (k_ran k @ op # ops)) \<le> 1"
    using k(3) Cons by (simp add: lane_ok_def)
  then have once: "OpStartAll \<notin> set (k_ran k)" if "op = OpStartAll"
    using that by (auto simp: filter_empty_conv)
  have last: "OpShutdown \<notin> set (k_ran k)"
  proof
    assume "OpShutdown \<in> set (k_ran k)"
    then obtain a b where "k_ran k = a @ OpShutdown # b" by (meson split_list)
    then have "k_ran k @ k_lane k = a @ OpShutdown # (b @ op # ops)" using Cons by simp
    then have "b @ op # ops = []" using k(3) unfolding lane_ok_def by blast
    then show False by simp
  qed
  note run = run_op_inv [OF k(1,2), of op h]
  have "lane_ok (run_head h k)" using lane_shift [OF k(3) Cons] run k(4) once Cons by simp
  with run k(4) once last Cons show ?thesis by (auto simp: kernel_inv_def)
qed

lemma processors_kernel_inv:
  assumes "kernel_inv k"
  shows "kernel_inv (k\<lparr> k_co := (k_co k)\<lparr> co_processors := ps \<rparr> \<rparr>)"
proof -
  let ?st = "(k_co k)\<lparr> co_processors := ps \<rparr>"
  have "co_inv ?st = co_inv (k_co k)" "load_ok ?st = load_ok (k_co k)"
    "all_discovered ?st = all_discovered (k_co k)" "hasActiveExtension ?st n = hasActiveExtension (k_co k) n" for n
    by (rule co_cong; simp)+
  then show ?thesis using assms by (simp add: kernel_inv_def lane_ok_def)
qed

lemma kernel_step_inv:
  assumes "kernel_step h k k'" and "kernel_inv k"
  shows "kernel_inv k'"
  using assms
  by cases (simp_all add: load_kernel_inv startAll_kernel_inv shutdown_kernel_inv run_head_inv
      admit_kernel_inv processors_kernel_inv registerContributionProcessor_def
      unregisterContributionProcessor_def Let_def del: run_head.simps)

lemma kernel_reach_inv: "kernel_reach h k \<Longrightarrow> kernel_inv k"
  by (induction rule: kernel_reach.induct) (simp_all add: kernel_inv_new kernel_step_inv)

end
