(* ===== verification/Extension_Properties.thy ===== *)
theory Extension_Properties
  imports Extension_Kernel
begin

text \<open>
  The properties of the extension kernel, over the invariant of \<open>Extension_Kernel\<close>: what holds in every
  reachable state, what each operation of the lane achieves, in which order the extensions' own code
  is called, and a concrete runtime on which the properties are evaluated.
\<close>

section \<open>Calls made\<close>

lemma trace_update [kernel_simps]: "co_trace (update_entry n f st) = co_trace st"
  by (simp add: update_entry_def split: option.split)

lemma trace_record [kernel_simps]: "co_trace (record_call c st) = co_trace st @ [c]"
  by (simp add: record_call_def)

lemma rollback_trace:
  "co_trace (rollback_processors n ps st) =
     co_trace st @ map (\<lambda>p. CallProcessStopped (proc_id p) n) (filter proc_hasStopped ps)"
  by (induction ps arbitrary: st) (simp_all add: kernel_simps)

definition activation_calls :: "ext_name \<Rightarrow> contribution_processor list \<Rightarrow> trace" where
  "activation_calls n ps = map (\<lambda>p. CallProcessActivated (proc_id p) n) ps"

definition rollback_calls :: "ext_name \<Rightarrow> contribution_processor list \<Rightarrow> trace" where
  "rollback_calls n ps = map (\<lambda>p. CallProcessStopped (proc_id p) n) (filter proc_hasStopped (rev ps))"

lemma run_activated_trace:
  "\<exists>accepted rest attempt. filter (\<lambda>p. processor_accepts p pkg) ps = accepted @ attempt @ rest \<and>
     length attempt \<le> 1 \<and>
     (case snd (run_activated h n pkg ps activated st) of
        None \<Rightarrow> attempt = [] \<and> rest = [] \<and>
          co_trace (fst (run_activated h n pkg ps activated st)) = co_trace st @ activation_calls n accepted
      | Some _ \<Rightarrow> attempt @ rest \<noteq> [] \<and>
          co_trace (fst (run_activated h n pkg ps activated st)) =
            co_trace st @ activation_calls n (accepted @ attempt) @ rollback_calls n (activated @ accepted))"
proof (induction h n pkg ps activated st rule: run_activated.induct)
  case (1 h n pkg activated st)
  show ?case by (intro exI [of _ "[]"]) (simp add: activation_calls_def)
next
  case (2 h n pkg p ps activated st)
  let ?st = "record_call (CallProcessActivated (proc_id p) n) st"
  consider (skip) "\<not> processor_accepts p pkg"
    | (refused) e where "processor_accepts p pkg" "h_config h (co_trace st) n = Some e \<or> h_config h (co_trace st) n = None \<and> buildExtensionContext h n = Some e"
    | (failed) e where "processor_accepts p pkg" "h_config h (co_trace st) n = None" "buildExtensionContext h n = None"
        "h_processActivated h (co_trace st) (proc_id p) n = Some e"
    | (ok) "processor_accepts p pkg" "h_config h (co_trace st) n = None" "buildExtensionContext h n = None"
        "h_processActivated h (co_trace st) (proc_id p) n = None"
    by (metis option.exhaust)
  then show ?case
  proof cases
    case skip
    then have "run_activated h n pkg (p # ps) activated st = run_activated h n pkg ps activated st"
      "filter (\<lambda>p. processor_accepts p pkg) (p # ps) = filter (\<lambda>p. processor_accepts p pkg) ps"
      by simp_all
    with 2(1) [OF skip] show ?thesis by presburger
  next
    case refused
    then show ?thesis
      by (intro exI [of _ "[]"] exI [of _ "p # filter (\<lambda>p. processor_accepts p pkg) ps"])
        (auto simp: rollback_trace activation_calls_def rollback_calls_def)
  next
    case failed
    then show ?thesis
      by (intro exI [of _ "[]"] exI [of _ "filter (\<lambda>p. processor_accepts p pkg) ps"] exI [of _ "[p]"])
        (simp add: rollback_trace activation_calls_def rollback_calls_def kernel_simps)
  next
    case ok
    from 2(2) [of ?st] ok obtain accepted rest attempt where
      r: "filter (\<lambda>p. processor_accepts p pkg) ps = accepted @ attempt @ rest" "length attempt \<le> 1"
      "case snd (run_activated h n pkg ps (activated @ [p]) ?st) of
        None \<Rightarrow> attempt = [] \<and> rest = [] \<and>
          co_trace (fst (run_activated h n pkg ps (activated @ [p]) ?st)) = co_trace ?st @ activation_calls n accepted
      | Some _ \<Rightarrow> attempt @ rest \<noteq> [] \<and>
          co_trace (fst (run_activated h n pkg ps (activated @ [p]) ?st)) =
            co_trace ?st @ activation_calls n (accepted @ attempt) @ rollback_calls n ((activated @ [p]) @ accepted)"
      by auto
    moreover have "run_activated h n pkg (p # ps) activated st = run_activated h n pkg ps (activated @ [p]) ?st"
      using ok by simp
    ultimately show ?thesis using ok
      by (intro exI [of _ "p # accepted"] exI [of _ rest] exI [of _ attempt])
        (auto simp: activation_calls_def kernel_simps Let_def split: option.splits)
  qed
qed

section \<open>Shutdown order\<close>

definition is_destroy :: "kernel_call \<Rightarrow> bool" where
  "is_destroy c = (case c of CallDestroy _ \<Rightarrow> True | _ \<Rightarrow> False)"

definition destroyable :: "coordinator \<Rightarrow> ext_name \<Rightarrow> bool" where
  "destroyable st n = (case get_entry st n of None \<Rightarrow> False
     | Some e \<Rightarrow> (case en_service e of None \<Rightarrow> False | Some s \<Rightarrow> svc_destroy s))"

definition destroys :: "kernel_call list \<Rightarrow> coordinator \<Rightarrow> coordinator \<Rightarrow> bool" where
  "destroys ds st st' \<longleftrightarrow> (\<exists>cs. co_trace st' = co_trace st @ cs \<and> filter is_destroy cs = ds)"

lemma destroys_trans: "destroys xs a b \<Longrightarrow> destroys ys b c \<Longrightarrow> destroys (xs @ ys) a c"
  unfolding destroys_def by force

lemma destroys_refl: "destroys [] st st"
  by (simp add: destroys_def)

lemma run_stopped_destroys: "destroys [] st (fst (run_stopped h n ps st))"
proof (induction h n ps st rule: run_stopped.induct)
  case (2 h n p ps st)
  show ?case
  proof (cases "proc_hasStopped p")
    case True
    have "destroys [] st (record_call (CallProcessStopped (proc_id p) n) st)"
      by (simp add: destroys_def kernel_simps is_destroy_def)
    from destroys_trans [OF this 2(2)] True show ?thesis by (simp add: Let_def case_prod_beta)
  qed (use 2(1) in simp)
qed (simp add: destroys_refl)

lemma runStopped_destroys: "destroys [] st (fst (runStoppedProcessors h n st))"
  by (simp add: runStoppedProcessors_def run_stopped_destroys)

lemma storage_cleanup_destroys: "destroys [] st (fst (call_storage_cleanup h n present st))"
  by (simp add: call_storage_cleanup_def destroys_def kernel_simps is_destroy_def)

lemma transition_destroys: "destroys [] st (transitionPackageEntry n to st)"
  by (simp add: transitionPackageEntry_def destroys_def kernel_simps is_destroy_def split: option.split)

lemma call_destroy_destroys:
  assumes "get_entry st n = Some e"
  shows "destroys (if destroyable st n then [CallDestroy n] else []) st' (fst (call_destroy h n (en_service e) st'))"
  using assms by (simp add: call_destroy_def destroyable_def destroys_def kernel_simps is_destroy_def split: option.split)

lemma shutdown_one_calls:
  assumes "get_entry st n = Some e"
  shows "\<exists>st'. fst (shutdown_names h (n # ns) st) = fst (shutdown_names h ns st') \<and>
    (\<forall>m. m \<noteq> n \<longrightarrow> get_entry st' m = get_entry st m) \<and>
    destroys (if destroyable st n then [CallDestroy n] else []) st st'"
proof -
  let ?st1 = "fst (if en_state e = Active then runStoppedProcessors h n st else (st, []))"
  let ?st2 = "fst (call_destroy h n (en_service e) ?st1)"
  let ?st3 = "fst (call_storage_cleanup h n (en_storageCleanup e) ?st2)"
  let ?st4 = "if en_state e = Active then transitionPackageEntry n Stopped ?st3 else ?st3"
  have g: "get_entry ?st1 m = get_entry st m" for m by (simp add: kernel_simps)
  have get: "get_entry ?st4 m = get_entry st m" if "m \<noteq> n" for m
    using that by (cases "en_service e") (auto simp: kernel_simps g)
  have "destroys [] st ?st1" using runStopped_destroys [of st h n] by (simp add: destroys_refl)
  moreover have "destroys [] ?st3 ?st4" by (simp add: transition_destroys destroys_refl)
  ultimately have "destroys (if destroyable st n then [CallDestroy n] else []) st ?st4"
    using destroys_trans [OF destroys_trans [OF _ call_destroy_destroys [OF assms]]
        destroys_trans [OF storage_cleanup_destroys]] by fastforce
  moreover have "fst (shutdown_names h (n # ns) st) = fst (shutdown_names h ns ?st4)"
    unfolding shutdown_names.simps assms option.case Let_def case_prod_beta by simp
  ultimately show ?thesis using get by blast
qed

lemma shutdown_names_calls:
  "distinct ns \<Longrightarrow> destroys (map CallDestroy (filter (destroyable st) ns)) st (fst (shutdown_names h ns st))"
proof (induction ns arbitrary: st)
  case (Cons n ns)
  show ?case
  proof (cases "get_entry st n")
    case None
    then have "\<not> destroyable st n" by (simp add: destroyable_def)
    with Cons None show ?thesis by simp
  next
    case (Some e)
    from shutdown_one_calls [OF Some, of h ns] obtain st' where
      st': "fst (shutdown_names h (n # ns) st) = fst (shutdown_names h ns st')"
        "\<And>m. m \<noteq> n \<Longrightarrow> get_entry st' m = get_entry st m"
        "destroys (if destroyable st n then [CallDestroy n] else []) st st'" by blast
    have same: "filter (destroyable st') ns = filter (destroyable st) ns"
    proof (rule filter_cong)
      fix m assume "m \<in> set ns"
      then have "m \<noteq> n" using Cons.prems by auto
      then show "destroyable st' m = destroyable st m" by (simp add: destroyable_def st'(2))
    qed simp
    from destroys_trans [OF st'(3) Cons.IH [of st']] Cons.prems show ?thesis
      unfolding st'(1) same by (simp split: if_splits)
  qed
qed (simp add: destroys_refl)

lemma shutdown_prefix_active:
  assumes inv: "kernel_inv k" and split: "rev (co_loadOrder (k_co k)) = stopped @ rest"
    and st: "st = fst (shutdown_names h stopped (k_co k))"
    and e: "get_entry st n = Some e" "en_state e = Active" "requires e m"
  shows "hasActiveExtension st m"
proof -
  let ?st = "k_co k"
  have dist: "distinct (co_loadOrder ?st)" using inv by (simp add: kernel_inv_def load_ok_def)
  then have ds: "distinct stopped" using split by (metis distinct_append distinct_rev)
  have get: "get_entry st x = (if x \<in> set stopped then map_option stop_entry (get_entry ?st x) else get_entry ?st x)" for x
    using shutdown_names_get [OF ds, of h ?st x] st by simp
  have n: "n \<notin> set stopped" "get_entry ?st n = Some e"
    using e(1,2) stop_not_active unfolding get by (auto split: if_splits)
  have "\<not> all_discovered ?st" using n(2) e(2) by (force simp: all_discovered_def)
  then have loaded: "co_loaded ?st" using inv by (auto simp: kernel_inv_def lane_ok_def)
  then have "order_ok ?st" "surfaces_ok ?st" "entries_ok ?st" "active_deps_ok ?st"
    using inv by (simp_all add: kernel_inv_def load_ok_def co_inv_def)
  note ok = this
  have "n \<in> set (co_loadOrder ?st)" "en_surfacesCollected e"
    using ok(2,3) n(2) e(2) unfolding surfaces_ok_def entries_ok_def by (metis component_state.distinct(3), blast)
  then obtain a b where ab: "co_loadOrder ?st = a @ n # b" "m \<in> set a"
    using ok(1) n(2) e(3) unfolding order_ok_def by blast
  have "m \<notin> set stopped"
  proof
    assume m: "m \<in> set stopped"
    have "stopped @ rest = rev b @ n # rev a" using split ab(1) by simp
    then obtain us where "stopped = rev b @ us \<and> us @ rest = n # rev a \<or> stopped @ us = rev b \<and> rest = us @ n # rev a"
      by (metis append_eq_append_conv2)
    then have "set stopped \<subseteq> set b \<or> n \<in> set stopped"
    proof
      assume "stopped = rev b @ us \<and> us @ rest = n # rev a"
      then show ?thesis by (cases us) auto
    next
      assume "stopped @ us = rev b \<and> rest = us @ n # rev a"
      then have "set stopped \<subseteq> set (rev b)" by (metis Un_upper1 set_append)
      then show ?thesis by simp
    qed
    with m n(1) have "m \<in> set b" by blast
    with ab dist show False by auto
  qed
  moreover have "hasActiveExtension ?st m" using ok(4) n(2) e(2,3) unfolding active_deps_ok_def by blast
  ultimately show ?thesis by (simp add: hasActive_iff get)
qed


section \<open>Boot progress\<close>

definition progress_step :: "component_state \<Rightarrow> ext_name \<Rightarrow> boot_progress \<Rightarrow> boot_progress" where
  "progress_step s n bp = bp\<lparr> bp_completed := bp_completed bp + 1,
     bp_failed := bp_failed bp @ (if s = Failed then [n] else []),
     bp_skipped := bp_skipped bp @ (if s = Skipped then [n] else []) \<rparr>"

lemma boot_progress_steps [kernel_simps]:
  "co_boot (boot_ready n st) = progress_step Active n (co_boot st)"
  "co_boot (boot_failed n st) = progress_step Failed n (co_boot st)"
  "co_boot (boot_skipped n st) = progress_step Skipped n (co_boot st)"
  by (simp_all add: boot_ready_def boot_failed_def boot_skipped_def progress_step_def)

lemma boot_record [kernel_simps]: "co_boot (record_call c st) = co_boot st"
  by (simp add: record_call_def)

lemma boot_update [kernel_simps]: "co_boot (update_entry n f st) = co_boot st"
  by (simp add: update_entry_def split: option.split)

lemma boot_transition [kernel_simps]: "co_boot (transitionPackageEntry n to st) = co_boot st"
  by (simp add: transitionPackageEntry_def kernel_simps split: option.split)

lemma boot_storage [kernel_simps]: "co_boot (runStorageCleanup n st) = co_boot st"
  by (simp add: runStorageCleanup_def kernel_simps split: option.split)

lemma boot_destroy [kernel_simps]: "co_boot (destroy_service n svc st) = co_boot st"
  by (simp add: destroy_service_def kernel_simps split: option.split)

lemma boot_rollback [kernel_simps]: "co_boot (rollback_processors n ps st) = co_boot st"
  by (induction n ps st rule: rollback_processors.induct) (simp_all add: kernel_simps)

lemma boot_activated [kernel_simps]: "co_boot (fst (run_activated h n pkg ps activated st)) = co_boot st"
  by (induction h n pkg ps activated st rule: run_activated.induct)
    (simp_all add: kernel_simps Let_def split: option.split)

lemma boot_create [kernel_simps]: "co_boot (fst (create_service h n st)) = co_boot st"
  by (simp add: create_service_def kernel_simps Let_def split: option.split sum.split)

lemma boot_health [kernel_simps]: "co_boot (runExtensionHealthCheck h n st) = co_boot st"
  by (simp add: runExtensionHealthCheck_def kernel_simps Let_def split: option.split)

lemma boot_migrations [kernel_simps]: "co_boot (fst (runExtensionMigrations h st)) = co_boot st"
  by (auto simp: runExtensionMigrations_def kernel_simps split: option.split sum.split list.split)

lemma failEntry_progress:
  assumes "get_entry st n \<noteq> None"
  shows "entry_state (failEntry n message st) n = Some Failed \<and>
    co_boot (failEntry n message st) = progress_step Failed n (co_boot st)"
  using assms by (auto simp: entry_state_def kernel_simps failEntry_def)

definition settles :: "ext_name \<Rightarrow> coordinator \<Rightarrow> coordinator \<Rightarrow> bool" where
  "settles n st st' \<longleftrightarrow> (\<exists>s. entry_state st' n = Some s \<and> co_boot st' = progress_step s n (co_boot st))"

lemma settles_same: "settles n st1 st' \<Longrightarrow> co_boot st1 = co_boot st \<Longrightarrow> settles n st st'"
  by (simp add: settles_def)

lemma settles_fail: "get_entry st n \<noteq> None \<Longrightarrow> settles n st (failEntry n message st)"
  using failEntry_progress unfolding settles_def by blast

lemma settles_start_failure: "get_entry st n \<noteq> None \<Longrightarrow> settles n st (fst (start_failure n pkg err st))"
  using settles_fail [of st n]
  by (auto simp: start_failure_def Let_def settles_def entry_state_def kernel_simps split: kernel_error.split)

lemma settles_finish: "get_entry st n \<noteq> None \<Longrightarrow> settles n st (fst (finish_start n pkg st))"
  by (auto simp: finish_start_def settles_def entry_state_def kernel_simps registerEntryTray_def)

lemma settles_abandon:
  assumes "get_entry st n \<noteq> None"
  shows "settles n st (fst (abandon_start n pkg svc err st))"
  unfolding abandon_start_def
  by (rule settles_same [OF settles_start_failure]) (use assms in \<open>auto simp: kernel_simps\<close>)

lemma settles_without:
  assumes "get_entry st n \<noteq> None"
  shows "settles n st (fst (startEntryWithoutService h n pkg st))"
proof -
  obtain st1 r where run: "runActivatedProcessors h n pkg st = (st1, r)" by (cases "runActivatedProcessors h n pkg st")
  have st1: "get_entry st1 n \<noteq> None" "co_boot st1 = co_boot st"
    using assms runActivated_frame(1) [of h n pkg st n] boot_activated [of h n pkg "co_processors st" "[]" st] run
    by (simp_all add: runActivatedProcessors_def)
  have "settles n st1 (fst (start_failure n pkg err (runStorageCleanup n st1)))" for err
    by (rule settles_same [OF settles_start_failure]) (use st1 in \<open>auto simp: kernel_simps\<close>)
  with settles_finish [OF st1(1)] have "settles n st1 (fst (startEntryWithoutService h n pkg st))"
    by (simp add: startEntryWithoutService_def run split: option.split)
  with st1(2) show ?thesis by (rule settles_same [rotated])
qed

lemma settles_with:
  assumes "get_entry st n \<noteq> None"
  shows "settles n st (fst (startEntryWithService h n pkg st))"
proof -
  obtain st1 svc r where c: "create_service h n st = (st1, svc, r)" by (metis prod_cases3)
  have st1: "get_entry st1 n \<noteq> None" "co_boot st1 = co_boot st"
    using assms create_service_frame(1) [of h n st n] boot_create [of h n st] c by simp_all
  let ?st2 = "update_entry n (\<lambda>e. e\<lparr> en_service := svc \<rparr>) st1"
  have st2: "get_entry ?st2 n \<noteq> None" "co_boot ?st2 = co_boot st" using st1 by (auto simp: kernel_simps)
  obtain st3 r3 where run: "runActivatedProcessors h n pkg ?st2 = (st3, r3)"
    by (cases "runActivatedProcessors h n pkg ?st2")
  have st3: "get_entry st3 n \<noteq> None" "co_boot st3 = co_boot st"
    using st2 runActivated_frame(1) [of h n pkg ?st2 n] boot_activated [of h n pkg "co_processors ?st2" "[]" ?st2] run
    by (simp_all add: runActivatedProcessors_def)
  show ?thesis
    using settles_same [OF settles_abandon [OF st1(1)] st1(2)] settles_same [OF settles_abandon [OF st3(1)] st3(2)]
      settles_same [OF settles_finish [OF st3(1)] st3(2)]
    by (simp add: startEntryWithService_def c run split: option.split)
qed

lemma settles_start:
  assumes "get_entry st n = Some e"
  shows "settles n st (fst (startExtensionEntry h n e st))"
proof -
  let ?st1 = "transitionPackageEntry n Initializing st" and ?pkg = "en_pkg e"
  have st1: "get_entry ?st1 n \<noteq> None" "co_boot ?st1 = co_boot st" using assms by (simp_all add: kernel_simps)
  obtain st2 go r where s: "registerEntryStorage h n ?pkg ?st1 = (st2, go, r)" by (metis prod_cases3)
  have storage: "settles n ?st1 st2 \<and> \<not> go \<or> get_entry st2 n \<noteq> None \<and> co_boot st2 = co_boot ?st1 \<and> go"
  proof -
    have "settles n ?st1 (failEntry n m ?st1)" "settles n ?st1 (failEntry n m (record_call c ?st1))" for m c
      using settles_fail st1(1) settles_same [OF settles_fail [of "record_call c ?st1" n m], of ?st1]
      by (simp_all add: kernel_simps)
    then show ?thesis using s st1(1)
      by (auto simp: registerEntryStorage_def Let_def kernel_simps split: if_splits option.splits sum.splits)
  qed
  have skipped: "settles n st (boot_skipped n (transitionPackageEntry n Skipped st))"
    using assms by (simp add: settles_def entry_state_def kernel_simps)
  have fails: "settles n st (failEntry n m st)" "settles n st (failEntry n m ?st1)" for m
    using settles_fail assms settles_same [OF settles_fail [OF st1(1)] st1(2)] by simp_all
  have run: "settles n st (fst (startEntryWithoutService h n ?pkg st2))" "settles n st (fst (startEntryWithService h n ?pkg st2))"
    if go using that storage st1(2) settles_same [OF settles_without, of st2 n st] settles_same [OF settles_with, of st2 n st]
    by simp_all
  have stop: "settles n st st2" if "\<not> go" using that storage settles_same [OF _ st1(2)] by blast
  show ?thesis
    using skipped fails run stop
    by (cases go) (auto simp: startExtensionEntry_def Let_def s split: option.split)
qed

definition in_state :: "coordinator \<Rightarrow> component_state \<Rightarrow> ext_name list \<Rightarrow> ext_name list" where
  "in_state st s ns = filter (\<lambda>n. entry_state st n = Some s) ns"

lemma start_names_progress:
  assumes "co_inv st" and "distinct ns" and "set ns \<subseteq> set (co_loadOrder st)"
    and "\<forall>n \<in> set ns. get_entry st n \<noteq> None \<and> (\<forall>e. get_entry st n = Some e \<longrightarrow> en_state e = Discovered)"
    and "snd (start_names h ns st) = None"
  shows "co_boot (fst (start_names h ns st)) = (co_boot st)\<lparr> bp_completed := bp_completed (co_boot st) + length ns,
    bp_failed := bp_failed (co_boot st) @ in_state (fst (start_names h ns st)) Failed ns,
    bp_skipped := bp_skipped (co_boot st) @ in_state (fst (start_names h ns st)) Skipped ns \<rparr>"
  using assms
proof (induction ns arbitrary: st)
  case (Cons n ns)
  then obtain e where e: "get_entry st n = Some e" "en_state e = Discovered" "n \<in> set (co_loadOrder st)" by auto
  let ?r = "startExtensionEntry h n e st"
  have ok: "snd ?r = None" and eq: "start_names h (n # ns) st = start_names h ns (fst ?r)"
    using Cons.prems(5) e(1) by (simp_all add: case_prod_beta split: option.splits)
  obtain e' where ch: "entry_change n st (fst ?r) e e'" by (rule start_change [OF e(1) Cons.prems(1) e(2,3)])
  have inv: "co_inv (fst ?r)" using ch Cons.prems(1) by (rule change_keeps_inv)
  have order: "co_loadOrder (fst ?r) = co_loadOrder st" by (rule entry_changeD(2) [OF ch])
  have others: "get_entry (fst ?r) m = get_entry st m" if "m \<noteq> n" for m using that entry_changeD(3) [OF ch] by simp
  have later: "\<forall>m \<in> set ns. get_entry (fst ?r) m \<noteq> None \<and> (\<forall>e. get_entry (fst ?r) m = Some e \<longrightarrow> en_state e = Discovered)"
  proof
    fix m assume "m \<in> set ns"
    moreover from this have "m \<noteq> n" using Cons.prems(2) by auto
    ultimately show "get_entry (fst ?r) m \<noteq> None \<and> (\<forall>e. get_entry (fst ?r) m = Some e \<longrightarrow> en_state e = Discovered)"
      using Cons.prems(4) others by simp
  qed
  have ns: "distinct ns" "set ns \<subseteq> set (co_loadOrder (fst ?r))" "n \<notin> set ns" using Cons.prems order by auto
  have "snd (start_names h ns (fst ?r)) = None" using Cons.prems(5) unfolding eq .
  note ih = Cons.IH [OF inv ns(1,2) later this]
  obtain s where s: "entry_state (fst ?r) n = Some s" "co_boot (fst ?r) = progress_step s n (co_boot st)"
    using settles_start [OF e(1), of h] by (auto simp: settles_def)
  have "\<forall>m \<in> set ns. \<forall>e. get_entry (fst ?r) m = Some e \<longrightarrow> en_state e = Discovered" using later by blast
  from start_names_inv [OF inv ns(1,2) this, of h]
  have "entry_state (fst (start_names h ns (fst ?r))) n = Some s"
    using ns(3) s(1) by (simp add: entry_state_def)
  then show ?case unfolding eq using ih s(2) by (simp add: progress_step_def in_state_def)
qed (simp add: in_state_def)


lemma startAll_lane_progress:
  assumes inv: "co_inv st" "distinct (co_loadOrder st)" "all_discovered st"
    and ent: "\<forall>n \<in> set (co_loadOrder st). get_entry st n \<noteq> None"
    and run: "startAllInLifecycleLane h st = (st', None)"
  shows "co_boot st' = \<lparr> bp_completed = length (co_loadOrder st),
      bp_failed = in_state st' Failed (co_loadOrder st), bp_skipped = in_state st' Skipped (co_loadOrder st),
      bp_complete = True \<rparr>"
proof -
  let ?st0 = "st\<lparr> co_boot := \<lparr> bp_completed = 0, bp_failed = [], bp_skipped = [], bp_complete = False \<rparr> \<rparr>"
  obtain st1 r1 where m: "runExtensionMigrations h ?st0 = (st1, r1)" by (cases "runExtensionMigrations h ?st0")
  obtain st2 r2 where s: "start_names h (co_loadOrder st1) st1 = (st2, r2)"
    by (cases "start_names h (co_loadOrder st1) st1")
  have none: "r1 = None" "r2 = None" and st': "st' = boot_complete (fold (runExtensionHealthCheck h) (co_loadOrder st2) st2)"
    using run by (auto simp: startAllInLifecycleLane_def Let_def m s split: option.splits)
  have "get_entry ?st0 x = get_entry st x" "co_static ?st0 = co_static st" for x
    by (simp_all add: get_entry_def co_static_def)
  then have g1: "get_entry st1 x = get_entry st x" "co_static st1 = co_static st" "co_boot st1 = co_boot ?st0" for x
    using runMigrations_frame [of h ?st0] boot_migrations [of h ?st0] m by simp_all
  have inv1: "co_inv st1" "co_loadOrder st1 = co_loadOrder st"
    using same_entries_inv [OF g1(1,2) inv(1)] g1(2) by (simp_all add: co_static_def)
  have disc: "\<forall>n \<in> set (co_loadOrder st). get_entry st1 n \<noteq> None \<and> (\<forall>e. get_entry st1 n = Some e \<longrightarrow> en_state e = Discovered)"
    using ent inv(3) g1(1) by (simp add: all_discovered_def)
  have prog: "co_boot st2 = (co_boot st1)\<lparr> bp_completed := bp_completed (co_boot st1) + length (co_loadOrder st),
      bp_failed := bp_failed (co_boot st1) @ in_state st2 Failed (co_loadOrder st),
      bp_skipped := bp_skipped (co_boot st1) @ in_state st2 Skipped (co_loadOrder st) \<rparr>"
    using start_names_progress [of st1 "co_loadOrder st" h] inv1 inv(2) disc s none by simp
  have "co_inv st2"
    using start_names_inv [of st1 "co_loadOrder st" h] inv1 inv(2) disc s by simp
  from health_fold_frame [OF this, of h "co_loadOrder st2"]
  have "entry_state st' x = entry_state st2 x" for x by (simp add: st' entry_state_def kernel_simps)
  then have same: "in_state st' s ns = in_state st2 s ns" for s ns by (simp add: in_state_def)
  have "co_boot (fold (runExtensionHealthCheck h) ns x) = co_boot x" for ns x
    by (induction ns arbitrary: x) (simp_all add: kernel_simps)
  then have "co_boot st' = (co_boot st2)\<lparr> bp_complete := True \<rparr>" by (simp add: st' boot_complete_def)
  then show ?thesis unfolding same using prog g1(3) by simp
qed

section \<open>Outcomes of the toggle primitives\<close>

lemma enable_outcome:
  assumes e: "get_entry st n = Some e" and inv: "en_state e \<noteq> Active \<longrightarrow> clean e" "en_state e \<noteq> Initializing"
  shows "snd (enableExtension h n e st) = Applied \<longleftrightarrow> hasActiveExtension (fst (enableExtension h n e st)) n"
proof (cases "en_state e = Active \<or> en_state e = Discovered \<or> en_state e = Skipped \<and> \<not> en_surfacesCollected e \<or>
    inactive_deps st (en_pkg e) \<noteq> [] \<or> checkExtensionNameAddressable n \<noteq> None")
  case True
  with e show ?thesis
    by (cases "en_state e") (auto simp: enableExtension_def hasActive_iff kernel_simps failReEnable_def)
next
  case False
  then have st: "clean e" "en_state e \<in> {Stopped, Failed, Skipped}" using inv by (cases "en_state e", auto)+
  have "snd (reactivate h n (en_pkg e) st) \<noteq> RestartRequired"
    by (auto simp: reactivate_def failReEnable_def Let_def split: option.split prod.split bool.split)
  then have "snd (reactivate h n (en_pkg e) st) = Applied \<longleftrightarrow> snd (reactivate h n (en_pkg e) st) \<noteq> RejectedOutcome"
    by (cases "snd (reactivate h n (en_pkg e) st)") simp_all
  moreover have "enableExtension h n e st = reactivate h n (en_pkg e) st"
    using False st by (auto simp: enableExtension_def)
  ultimately show ?thesis
    using reactivate_result [OF e st(1), of h "en_pkg e"] by (auto simp: hasActive_iff)
qed

lemma disable_outcome:
  assumes e: "get_entry st n = Some e" and "en_state e \<noteq> Initializing"
  shows "snd (disableExtension h n e st) = Applied \<longleftrightarrow> \<not> hasActiveExtension (fst (disableExtension h n e st)) n"
proof (cases "en_state e = Active \<and> active_dependents st n = []")
  case True
  obtain e' where "get_entry (fst (disableExtension h n e st)) n = Some e'"
    "snd (disableExtension h n e st) \<noteq> RejectedOutcome \<longrightarrow> \<not> en_enabled e' \<and> en_state e' \<noteq> Active"
    using disableExtension_result [OF e, of h] by blast
  moreover have "snd (disableExtension h n e st) = Applied"
    using True by (simp add: disableExtension_def Let_def case_prod_beta)
  ultimately show ?thesis by (simp add: hasActive_iff)
next
  case False
  with assms show ?thesis by (auto simp: disableExtension_def hasActive_iff kernel_simps)
qed


section \<open>A runtime to evaluate on\<close>

text \<open>
  Three extensions: \<open>app\<close> requires \<open>db\<close>, \<open>ui\<close> requires \<open>app\<close>; every service has a \<open>destroy\<close> method and
  the one of \<open>db\<close> throws when destroyed. One contribution processor accepts every extension.
\<close>

definition sample_service :: service where
  "sample_service = \<lparr> svc_init = True, svc_destroy = True, svc_checkHealth = False \<rparr>"

definition sample_host :: host where
  "sample_host = \<lparr> h_sat = any_version, h_surface = Interactive, h_env = None, h_managedNames = None,
     h_frameworkNames = [], h_loadEnabled = None, h_contextBase = True, h_db = True,
     h_config = (\<lambda>_ _. None), h_create = (\<lambda>_ _. Inr sample_service), h_init = (\<lambda>_ _. None),
     h_destroy = (\<lambda>_ n. if n = ''db'' then Some (KError ''busy'') else None),
     h_registerHandlers = (\<lambda>_ _. Inr True), h_storageCleanup = (\<lambda>_ _. None),
     h_processActivated = (\<lambda>_ i _. if i = 3 then Some (KError ''no'') else None),
     h_processStopped = (\<lambda>_ _ _. None), h_trayUnregister = (\<lambda>_ _. None), h_checkHealth = (\<lambda>_ _. []),
     h_registerNamespaces = (\<lambda>_. None), h_migrationPath = (\<lambda>_. None), h_runMigrations = None,
     h_rpcCleanupFailures = (\<lambda>_. []), h_persistEnabled = Some (\<lambda>_ _ _. None) \<rparr>"

definition sample_packages :: "extension list" where
  "sample_packages = [sample_ext ''ui'' [(''app'', False)], sample_ext ''app'' [(''db'', False)], sample_ext ''db'' []]"

definition sample_loaded :: kernel where
  "sample_loaded = new_kernel\<lparr> k_co := fst (load sample_host sample_packages (k_co new_kernel)) \<rparr>"

definition sample_starting :: kernel where
  "sample_starting = fst (startAll sample_loaded)"

definition sample_running :: kernel where
  "sample_running = run_head sample_host sample_starting"

lemma sample_reach:
  "kernel_reach sample_host sample_loaded" "kernel_reach sample_host sample_starting"
  "kernel_reach sample_host sample_running"
proof -
  show 1: "kernel_reach sample_host sample_loaded"
    unfolding sample_loaded_def by (rule kr_step [OF kr_new ks_load])
  show 2: "kernel_reach sample_host sample_starting"
    unfolding sample_starting_def by (rule kr_step [OF 1 ks_startAll])
  show "kernel_reach sample_host sample_running"
    unfolding sample_running_def by (rule kr_step [OF 2 ks_run])
qed

lemma sample_order: "co_loadOrder (k_co sample_running) = [''db'', ''app'', ''ui'']"
  by code_simp

definition sample_entry :: "ext_name \<Rightarrow> extension_entry" where
  "sample_entry n = the (get_entry (k_co sample_running) n)"

lemma sample_app:
  "get_entry (k_co sample_running) ''app'' = Some (sample_entry ''app'')"
  "en_state (sample_entry ''app'') = Active" "map dep_name (ext_dependencies (en_pkg (sample_entry ''app''))) = [''db'']"
  "list_all (\<lambda>d. \<not> dep_optional d) (ext_dependencies (en_pkg (sample_entry ''app'')))"
  "co_loaded (k_co sample_running)"
  unfolding sample_entry_def by code_simp+

lemma sample_dep:
  obtains d where "d \<in> set (ext_dependencies (en_pkg (sample_entry ''app'')))" and "\<not> dep_optional d" and "dep_name d = ''db''"
proof -
  obtain d where "ext_dependencies (en_pkg (sample_entry ''app'')) = [d]" "dep_name d = ''db''"
    using sample_app(3) by auto
  with sample_app(4) that show thesis by simp
qed

section \<open>Properties\<close>

text \<open>
  C9. In every state the extension kernel can reach, through any interleaving of loading, starting,
  toggling, preference writes, processor registration and shutdown, an extension that is active has
  every dependency it requires active.\<close>

theorem active_requires_active:
  assumes "kernel_reach h k" and "get_entry (k_co k) n = Some e" and "en_state e = Active"
    and "d \<in> set (ext_dependencies (en_pkg e))" and "\<not> dep_optional d"
  shows "hasActiveExtension (k_co k) (dep_name d)"
proof -
  have "active_deps_ok (k_co k)" using kernel_reach_inv [OF assms(1)] by (simp add: kernel_inv_def co_inv_def)
  with assms(2-5) show ?thesis unfolding active_deps_ok_def requires_def by blast
qed

lemma active_requires_active_witness: "hasActiveExtension (k_co sample_running) ''db''"
proof -
  obtain d where d: "d \<in> set (ext_dependencies (en_pkg (sample_entry ''app'')))" "\<not> dep_optional d" "dep_name d = ''db''"
    by (rule sample_dep)
  from active_requires_active [OF sample_reach(3) sample_app(1,2) d(1,2)] d(3) show ?thesis by simp
qed

text \<open>
  Between lifecycle operations no extension is left initializing, and one that is not active holds
  neither a service nor storage handlers: whatever failed on the way was taken down again.\<close>

lemma inactive_holds_nothing:
  assumes "kernel_reach h k" and "get_entry (k_co k) n = Some e"
  shows "en_state e \<noteq> Initializing \<and> (en_state e = Active \<or> en_service e = None \<and> \<not> en_storageCleanup e)"
proof -
  have "entries_ok (k_co k)" using kernel_reach_inv [OF assms(1)] by (simp add: kernel_inv_def co_inv_def)
  with assms(2) show ?thesis unfolding entries_ok_def clean_def by blast
qed

text \<open>
  An extension whose surfaces were not collected at load time, because it was disabled or needed
  something disabled at boot, is never active in this process: no sequence of enable requests gets
  around the restart.\<close>

lemma active_was_collected:
  assumes "kernel_reach h k" and "get_entry (k_co k) n = Some e" and "\<not> en_surfacesCollected e"
  shows "en_state e \<noteq> Active"
proof
  assume a: "en_state e = Active"
  have inv: "kernel_inv k" using kernel_reach_inv [OF assms(1)] .
  have "\<not> all_discovered (k_co k)" using a assms(2) by (force simp: all_discovered_def)
  then have "co_loaded (k_co k)" using inv by (auto simp: kernel_inv_def lane_ok_def)
  then have "surfaces_ok (k_co k)" using inv by (simp add: kernel_inv_def co_inv_def)
  with a assms(2,3) show False unfolding surfaces_ok_def by blast
qed

definition sample_disabled :: kernel where
  "sample_disabled = (let h = sample_host\<lparr> h_loadEnabled := Some (\<lambda>n. Some (n \<noteq> ''app'')), h_managedNames := Some [''app''] \<rparr>;
     k0 = new_kernel\<lparr> k_co := fst (load h sample_packages (k_co new_kernel)) \<rparr>;
     k1 = run_head h (fst (startAll k0))
   in run_head h (admitLifecycle (OpTransition ''app'' True) k1))"



text \<open>
  The shutdown operation leaves no extension active, and calls \<open>destroy\<close> exactly once for every
  service that has one, in reverse load order, whichever of the teardown calls throw.\<close>

lemma shutdown_destroys_each_once:
  assumes "kernel_reach h k"
  shows "\<not> hasActiveExtension (fst (shutdownInLifecycleLane h (k_co k))) n \<and>
    (\<exists>calls. co_trace (fst (shutdownInLifecycleLane h (k_co k))) = co_trace (k_co k) @ calls \<and>
      filter is_destroy calls = map CallDestroy (filter (destroyable (k_co k)) (rev (co_loadOrder (k_co k)))))"
proof
  have inv: "co_inv (k_co k)" and dist: "distinct (co_loadOrder (k_co k))"
    using kernel_reach_inv [OF assms] by (simp_all add: kernel_inv_def load_ok_def)
  show "\<not> hasActiveExtension (fst (shutdownInLifecycleLane h (k_co k))) n" by (rule shutdown_lane_result(2) [OF inv dist])
  have "fst (shutdownInLifecycleLane h (k_co k)) = fst (shutdown_names h (rev (co_loadOrder (k_co k))) (k_co k))"
    by (simp add: shutdownInLifecycleLane_def shutdownExtensions_def case_prod_beta Let_def)
  with shutdown_names_calls [of "rev (co_loadOrder (k_co k))" "k_co k" h] dist
  show "\<exists>calls. co_trace (fst (shutdownInLifecycleLane h (k_co k))) = co_trace (k_co k) @ calls \<and>
      filter is_destroy calls = map CallDestroy (filter (destroyable (k_co k)) (rev (co_loadOrder (k_co k))))"
    by (simp add: destroys_def)
qed

text \<open>
  C11. When the boot operation of the lane does not throw, every extension of the load order has
  settled as active, failed or skipped, the boot is reported complete, each extension was counted
  once, and the reported failed and skipped lists are exactly the extensions in those states, in load
  order.\<close>

theorem startAll_settles:
  assumes "kernel_reach h k" and "k_lane k = OpStartAll # ops"
    and "startAllInLifecycleLane h (k_co k) = (st', None)" and "order = co_loadOrder (k_co k)"
  shows "(\<forall>n \<in> set order. entry_state st' n \<in> {Some Active, Some Failed, Some Skipped}) \<and>
    co_boot st' = \<lparr> bp_completed = length order, bp_failed = in_state st' Failed order,
      bp_skipped = in_state st' Skipped order, bp_complete = True \<rparr>"
proof
  let ?st = "k_co k"
  have inv: "kernel_inv k" using assms(1) by (rule kernel_reach_inv)
  have "length (filter (\<lambda>op. op = OpStartAll) (k_ran k @ k_lane k)) \<le> 1" "co_loaded ?st"
    using inv assms(2) by (auto simp: kernel_inv_def lane_ok_def)
  then have "OpStartAll \<notin> set (k_ran k)" using assms(2) by (auto simp: filter_empty_conv)
  then have st: "co_inv ?st" "distinct order" "all_discovered ?st" "\<forall>n \<in> set order. get_entry ?st n \<noteq> None"
    using inv \<open>co_loaded ?st\<close> by (simp_all add: kernel_inv_def load_ok_def assms(4))
  show "co_boot st' = \<lparr> bp_completed = length order, bp_failed = in_state st' Failed order,
      bp_skipped = in_state st' Skipped order, bp_complete = True \<rparr>"
    using startAll_lane_progress [OF st(1) _ st(3) _ assms(3)] st(2,4) by (simp add: assms(4))
  have "\<forall>n e. get_entry ?st n = Some e \<longrightarrow> en_state e = Discovered" using st(3) by (simp add: all_discovered_def)
  from startAll_lane_inv [OF st(1) st(2) [unfolded assms(4)] this, of h] assms(3,4)
  have man: "manifests_same ?st st'"
    and states: "\<forall>n \<in> set order. \<forall>s. entry_state st' n = Some s \<longrightarrow> s \<in> {Active, Failed, Skipped}" by simp_all
  show "\<forall>n \<in> set order. entry_state st' n \<in> {Some Active, Some Failed, Some Skipped}"
  proof
    fix n assume n: "n \<in> set order"
    with st(4) man [unfolded manifests_same_def, rule_format, of n] have "get_entry st' n \<noteq> None"
      by (cases "get_entry st' n") auto
    then obtain s where "entry_state st' n = Some s" by (auto simp: entry_state_def)
    with states n show "entry_state st' n \<in> {Some Active, Some Failed, Some Skipped}" by auto
  qed
qed

lemma startAll_settles_witness:
  "co_boot (fst (startAllInLifecycleLane sample_host (k_co sample_starting))) =
     \<lparr> bp_completed = 3, bp_failed = [], bp_skipped = [], bp_complete = True \<rparr>"
proof -
  let ?st = "fst (startAllInLifecycleLane sample_host (k_co sample_starting))"
  have lane: "k_lane sample_starting = OpStartAll # []" by code_simp
  have "snd (startAllInLifecycleLane sample_host (k_co sample_starting)) = None" by code_simp
  then have run: "startAllInLifecycleLane sample_host (k_co sample_starting) = (?st, None)" by (simp add: prod_eq_iff)
  have "co_loadOrder (k_co sample_starting) = [''db'', ''app'', ''ui'']"
    "in_state ?st Failed [''db'', ''app'', ''ui''] = []" "in_state ?st Skipped [''db'', ''app'', ''ui''] = []"
    by code_simp+
  with startAll_settles [OF sample_reach(2) lane run refl] show ?thesis by simp
qed

text \<open>
  The answer of a toggle transition is what happened: enabling is applied exactly when the
  extension is active afterwards, disabling exactly when it is not, and no other extension is touched.\<close>

lemma transition_outcome_holds:
  assumes "kernel_reach h k" and "get_entry (k_co k) n = Some e"
    and "applyExtensionTransition h n enabled (k_co k) = (st', outcome)"
  shows "(outcome = Applied \<longleftrightarrow> hasActiveExtension st' n = enabled) \<and>
    (\<forall>m. m \<noteq> n \<longrightarrow> get_entry st' m = get_entry (k_co k) m)"
proof -
  let ?st = "k_co k"
  let ?r = "if enabled then enableExtension h n e ?st else disableExtension h n e ?st"
  have inv: "co_inv ?st" using kernel_reach_inv [OF assms(1)] by (simp add: kernel_inv_def)
  then have e: "en_state e \<noteq> Active \<longrightarrow> clean e" "en_state e \<noteq> Initializing"
    using assms(2) by (auto simp: co_inv_def entries_ok_def)
  obtain e1 where "entry_change n ?st (fst (enableExtension h n e ?st)) e e1"
    by (rule enable_change [OF assms(2) inv])
  moreover obtain e2 where "entry_change n ?st (fst (disableExtension h n e ?st)) e e2"
    by (rule disable_change [OF assms(2) inv])
  ultimately obtain e' where ch: "entry_change n ?st (fst ?r) e e'" by (cases enabled) auto
  have st: "get_entry st' m = get_entry (fst ?r) m" "outcome = snd ?r" for m
    using assms(2,3) by (auto simp: applyExtensionTransition_def Let_def case_prod_beta kernel_simps split: if_splits)
  have "snd ?r = Applied \<longleftrightarrow> hasActiveExtension (fst ?r) n = enabled"
    using enable_outcome [OF assms(2) e, of h] disable_outcome [OF assms(2) e(2), of h] by simp
  moreover have "hasActiveExtension st' n = hasActiveExtension (fst ?r) n" by (simp only: hasActive_iff st(1))
  ultimately show ?thesis using st entry_changeD(3) [OF ch] by simp
qed

text \<open>
  The request to set an enablement preference touches no extension: it writes the preference at
  most once, exactly when the answer is not a refusal, and it never records a critical extension of
  this runtime as disabled.\<close>

lemma setEnabled_persists_only:
  assumes "handleSetEnabled h n enabled catalog st = (st', Inr r)"
  shows "st' = (if sr_outcome r = RejectedOutcome then st else record_call (CallPersistEnabled n enabled) st) \<and>
    (\<forall>e. get_entry st n = Some e \<and> en_managed e \<and> ext_critical (en_pkg e) \<and> \<not> enabled \<longrightarrow> st' = st) \<and>
    (sr_success r \<longrightarrow> sr_outcome r = Applied)"
  using assms
  by (auto simp: handleSetEnabled_def persistForLoadedEntry_def persistForUnloadedName_def persist_def refusal_def Let_def
      split: if_splits option.splits catalog_lookup.splits)

text \<open>
  The lifecycle lane: the start operation runs at most once and only after a successful load, no
  operation runs or waits behind a shutdown, and once the shutdown has run no extension is ever active
  again.\<close>

lemma shutdown_is_last:
  assumes "kernel_reach h k"
  shows "length (filter (\<lambda>op. op = OpStartAll) (k_ran k @ k_lane k)) \<le> 1 \<and>
    (OpStartAll \<in> set (k_ran k @ k_lane k) \<longrightarrow> co_loaded (k_co k)) \<and>
    (\<forall>before after. k_ran k @ k_lane k = before @ OpShutdown # after \<longrightarrow> after = []) \<and>
    (OpShutdown \<in> set (k_ran k) \<longrightarrow> \<not> hasActiveExtension (k_co k) n)"
proof -
  have l: "lane_ok k" and s: "OpShutdown \<in> set (k_ran k) \<longrightarrow> (\<forall>n. \<not> hasActiveExtension (k_co k) n)"
    using kernel_reach_inv [OF assms] by (simp_all add: kernel_inv_def)
  show ?thesis
  proof (intro conjI)
    show "length (filter (\<lambda>op. op = OpStartAll) (k_ran k @ k_lane k)) \<le> 1"
      and "\<forall>before after. k_ran k @ k_lane k = before @ OpShutdown # after \<longrightarrow> after = []"
      and "OpStartAll \<in> set (k_ran k @ k_lane k) \<longrightarrow> co_loaded (k_co k)"
      using l unfolding lane_ok_def by blast+
    show "OpShutdown \<in> set (k_ran k) \<longrightarrow> \<not> hasActiveExtension (k_co k) n" using s by blast
  qed
qed

text \<open>
  When the activation of an extension fails in some contribution processor, exactly the processors
  that had accepted and activated it are told that it stopped, in reverse order, and no later one is
  called; when it succeeds all accepting processors were called in order.\<close>

lemma failed_activation_rolls_back:
  "\<exists>activated attempt rest.
     filter (\<lambda>p. processor_accepts p pkg) (co_processors st) = activated @ attempt @ rest \<and> length attempt \<le> 1 \<and>
     co_trace (fst (runActivatedProcessors h n pkg st)) =
       co_trace st @ map (\<lambda>p. CallProcessActivated (proc_id p) n) (activated @ attempt) @
       (if snd (runActivatedProcessors h n pkg st) = None then []
        else map (\<lambda>p. CallProcessStopped (proc_id p) n) (filter proc_hasStopped (rev activated))) \<and>
     (snd (runActivatedProcessors h n pkg st) = None) = (attempt @ rest = [])"
proof -
  let ?r = "run_activated h n pkg (co_processors st) [] st"
  from run_activated_trace [of pkg "co_processors st" h n "[]" st] obtain activated rest attempt where
    r: "filter (\<lambda>p. processor_accepts p pkg) (co_processors st) = activated @ attempt @ rest" "length attempt \<le> 1"
      "case snd ?r of
        None \<Rightarrow> attempt = [] \<and> rest = [] \<and> co_trace (fst ?r) = co_trace st @ activation_calls n activated
      | Some _ \<Rightarrow> attempt @ rest \<noteq> [] \<and> co_trace (fst ?r) =
          co_trace st @ activation_calls n (activated @ attempt) @ rollback_calls n ([] @ activated)"
    by blast
  then show ?thesis
    by (intro exI [of _ activated] exI [of _ attempt] exI [of _ rest])
      (simp add: runActivatedProcessors_def activation_calls_def rollback_calls_def split: option.splits)
qed

end
