(* ===== verification/Canonical_JSON.thy ===== *)
theory Canonical_JSON
  imports Payload_Filter
begin

text \<open>
  \<open>packages/utils/src/canonical-stringify.ts\<close>: the key-order-independent JSON text by which the
  execution-attempt port decides whether two values are the same. \<open>JSON.stringify\<close> is modelled as
  the standard defines it on JSON data: members without a JSON form are dropped from objects and
  become \<open>null\<close> in arrays, the members of an object are enumerated with array-index keys first and
  ascending, strings are quoted with the escapes of the standard. Numbers are integers below
  \<open>10\<^sup>2\<^sup>1\<close> in absolute value, which JavaScript prints in plain decimal. The main result is
  that the text is uniquely readable, so comparing texts is comparing values up to member order.
\<close>

section \<open>Text\<close>

fun str_cmp :: "string \<Rightarrow> string \<Rightarrow> int" where
  "str_cmp [] [] = 0"
| "str_cmp [] (_ # _) = - 1"
| "str_cmp (_ # _) [] = 1"
| "str_cmp (a # as) (b # bs) =
     (let x = (of_char a :: int); y = of_char b in
      if x < y then - 1 else if y < x then 1 else str_cmp as bs)"

definition hex_digit :: "int \<Rightarrow> char" where
  "hex_digit k = (if k < 10 then char_of (48 + k) else char_of (87 + k))"

text \<open>The escape of one character inside a JSON string.\<close>

definition escape_char :: "char \<Rightarrow> string" where
  "escape_char c =
     (let n = (of_char c :: int) in
      if n = 34 \<or> n = 92 then [CHR 0x5C, c]
      else if n = 8 then [CHR 0x5C, CHR ''b'']
      else if n = 9 then [CHR 0x5C, CHR ''t'']
      else if n = 10 then [CHR 0x5C, CHR ''n'']
      else if n = 12 then [CHR 0x5C, CHR ''f'']
      else if n = 13 then [CHR 0x5C, CHR ''r'']
      else if n < 32 then [CHR 0x5C, CHR ''u'', CHR ''0'', CHR ''0'',
                           hex_digit (n div 16), hex_digit (n mod 16)]
      else [c])"

definition quote_char :: char where
  "quote_char = CHR 0x22"

definition string_text :: "string \<Rightarrow> string" where
  "string_text s = quote_char # concat (map escape_char s) @ [quote_char]"

definition digit_char :: "int \<Rightarrow> char" where
  "digit_char d = char_of (48 + d)"

function nat_text :: "int \<Rightarrow> string" where
  "nat_text n = (if n < 10 then [digit_char n] else nat_text (n div 10) @ [digit_char (n mod 10)])"
  by pat_completeness auto
termination by (relation "measure nat") auto

definition int_text :: "int \<Rightarrow> string" where
  "int_text n = (if n < 0 then CHR ''-'' # nat_text (- n) else nat_text n)"

section \<open>Canonical values\<close>

datatype json =
    CNull
  | CBool bool
  | CNum int
  | CStr string
  | CArr "json list"
  | CObj "(string \<times> json) list"

text \<open>An array-index key, which an object enumerates before its other members.\<close>

fun digits_int :: "int \<Rightarrow> string \<Rightarrow> int option" where
  "digits_int acc [] = Some acc"
| "digits_int acc (c # cs) =
     (let d = (of_char c :: int) in
      if 48 \<le> d \<and> d \<le> 57 then digits_int (10 * acc + (d - 48)) cs else None)"

definition index_key :: "string \<Rightarrow> int option" where
  "index_key k =
     (if k = [] \<or> (hd k = CHR ''0'' \<and> k \<noteq> ''0'') then None
      else case digits_int 0 k of
             None \<Rightarrow> None
           | Some i \<Rightarrow> if i < 2 ^ 32 - 1 then Some i else None)"

definition own_order :: "(string \<times> 'v) list \<Rightarrow> (string \<times> 'v) list" where
  "own_order ms =
     js_sort (\<lambda>a b. the (index_key (fst a)) - the (index_key (fst b)))
       (filter (\<lambda>m. index_key (fst m) \<noteq> None) ms)
     @ filter (\<lambda>m. index_key (fst m) = None) ms"

definition canonical_members :: "(string \<times> 'v) list \<Rightarrow> (string \<times> 'v) list" where
  "canonical_members ms = own_order (js_sort (\<lambda>a b. str_cmp (fst a) (fst b)) ms)"

fun canonical :: "js_value \<Rightarrow> json option" where
  "canonical JUndefined = None"
| "canonical (JFun _) = None"
| "canonical JNull = Some CNull"
| "canonical (JBool b) = Some (CBool b)"
| "canonical (JNum n) = Some (CNum n)"
| "canonical (JStr s) = Some (CStr s)"
| "canonical (JArr vs) =
     Some (CArr (map (\<lambda>v. case canonical v of None \<Rightarrow> CNull | Some j \<Rightarrow> j) vs))"
| "canonical (JObj fs) =
     Some (CObj (canonical_members
       (concat (map (\<lambda>m. case canonical (snd m) of None \<Rightarrow> [] | Some j \<Rightarrow> [(fst m, j)]) fs))))"

fun separated :: "string list \<Rightarrow> string" where
  "separated [] = []"
| "separated (t # ts) = t @ concat (map (\<lambda>s. CHR '','' # s) ts)"

fun json_text :: "json \<Rightarrow> string" where
  "json_text CNull = ''null''"
| "json_text (CBool b) = (if b then ''true'' else ''false'')"
| "json_text (CNum n) = int_text n"
| "json_text (CStr s) = string_text s"
| "json_text (CArr js) = CHR ''['' # separated (map json_text js) @ '']''"
| "json_text (CObj ms) =
     CHR ''{'' # separated (map (\<lambda>m. string_text (fst m) @ CHR '':'' # json_text (snd m)) ms) @ ''}''"

text \<open>The text of a value, or the \<open>TypeError\<close> of a value without a JSON form (\<open>None\<close>).\<close>

definition canonicalStringify :: "js_value \<Rightarrow> string option" where
  "canonicalStringify v = map_option json_text (canonical v)"

section \<open>Orders\<close>

lemma of_char_int_inj: "(of_char a :: int) = of_char b \<longleftrightarrow> a = b"
  by (metis char_of_char)

lemma str_cmp_refl: "str_cmp a a = 0"
  by (induction a) (auto simp: Let_def)

lemma str_cmp_eq_0: "str_cmp a b = 0 \<longleftrightarrow> a = b"
  by (induction a b rule: str_cmp.induct) (auto simp: Let_def of_char_int_inj)

lemma str_cmp_flip: "str_cmp b a = - str_cmp a b"
  by (induction a b rule: str_cmp.induct) (auto simp: Let_def)

lemma str_cmp_trans: "str_cmp a b \<le> 0 \<Longrightarrow> str_cmp b c \<le> 0 \<Longrightarrow> str_cmp a c \<le> 0"
proof (induction a b arbitrary: c rule: str_cmp.induct)
  case (4 a as b bs)
  show ?case
  proof (cases c)
    case Nil
    with "4.prems" show ?thesis by simp
  next
    case (Cons d ds)
    let ?x = "of_char a :: int" and ?y = "of_char b :: int" and ?z = "of_char d :: int"
    have "?x \<le> ?y" "?y \<le> ?z" using "4.prems" Cons by (auto simp: Let_def split: if_splits)
    moreover have "str_cmp as ds \<le> 0" if "?x = ?y" "?y = ?z"
      by (rule "4.IH" [OF refl refl]) (use "4.prems" Cons that in \<open>simp_all add: Let_def\<close>)
    ultimately consider "?x < ?z" | "?x = ?z" "str_cmp as ds \<le> 0" by linarith
    then show ?thesis by cases (simp_all add: Cons Let_def)
  qed
next
  case (2 b bs)
  then show ?case by (cases c) auto
qed simp_all

interpretation member_order: js_comparator "\<lambda>a b :: string \<times> 'v. str_cmp (fst a) (fst b)"
proof
  fix x y z :: "string \<times> 'v"
  show "str_cmp (fst x) (fst x) \<le> 0" by (simp add: str_cmp_refl)
  show "str_cmp (fst x) (fst y) \<le> 0 \<or> str_cmp (fst y) (fst x) \<le> 0"
    using str_cmp_flip [of "fst x" "fst y"] by linarith
  show "str_cmp (fst x) (fst y) \<le> 0 \<Longrightarrow> str_cmp (fst y) (fst z) \<le> 0 \<Longrightarrow>
          str_cmp (fst x) (fst z) \<le> 0"
    by (rule str_cmp_trans)
qed

lemma distinct_fst_filter_unique:
  "distinct (map fst xs) \<Longrightarrow> mset xs = mset ys \<Longrightarrow>
     filter (\<lambda>m. fst m = k) xs = filter (\<lambda>m. fst m = k) ys"
proof -
  assume d: "distinct (map fst xs)" and eq: "mset xs = mset ys"
  have "length (filter (\<lambda>m. fst m = k) xs) \<le> 1" using d
  proof (induction xs)
    case (Cons x xs)
    then have "filter (\<lambda>m. fst m = k) xs = []" if "fst x = k"
      using that Cons.prems by (auto simp: filter_empty_conv) (metis fst_conv image_eqI)
    with Cons show ?case by auto
  qed simp
  moreover have m: "mset (filter (\<lambda>m. fst m = k) xs) = mset (filter (\<lambda>m. fst m = k) ys)"
    using eq by (simp add: mset_filter)
  ultimately show ?thesis
    by (cases "filter (\<lambda>m. fst m = k) xs"; cases "filter (\<lambda>m. fst m = k) ys") auto
qed

lemma canonical_members_perm:
  assumes "distinct (map fst xs)" and "mset xs = mset ys"
  shows "canonical_members xs = canonical_members ys"
proof -
  have eqv: "(str_cmp (fst k) (fst m) \<le> 0 \<and> str_cmp (fst m) (fst k) \<le> 0) = (fst m = fst k)"
    for k m :: "string \<times> 'a"
  proof -
    have "(str_cmp (fst k) (fst m) \<le> 0 \<and> str_cmp (fst m) (fst k) \<le> 0)
            = (str_cmp (fst k) (fst m) = 0)"
      unfolding str_cmp_flip [of "fst m" "fst k"] by linarith
    then show ?thesis by (auto simp: str_cmp_eq_0)
  qed
  have "js_sort (\<lambda>a b. str_cmp (fst a) (fst b)) xs = js_sort (\<lambda>a b. str_cmp (fst a) (fst b)) ys"
    by (rule member_order.js_sort_unique [OF member_order.js_sort_ordered])
      (simp only: member_order.js_sort_stable,
       simp only: eqv distinct_fst_filter_unique [OF assms])
  then show ?thesis by (simp add: canonical_members_def)
qed

lemma mset_canonical_members [simp]: "mset (canonical_members ms) = mset ms"
  unfolding canonical_members_def own_order_def by (simp add: mset_filter)

lemma set_canonical_members [simp]: "set (canonical_members ms) = set ms"
  by (rule mset_eq_setD) simp

section \<open>Unique readability\<close>

definition ends_token :: "string \<Rightarrow> bool" where
  "ends_token r \<longleftrightarrow> r = [] \<or> hd r \<in> {CHR '','', CHR '']'', CHR ''}''}"

definition readable :: "('a \<Rightarrow> string) \<Rightarrow> 'a \<Rightarrow> bool" where
  "readable p x \<longleftrightarrow>
     (\<forall>y r r'. p x @ r = p y @ r' \<longrightarrow> ends_token r \<longrightarrow> ends_token r' \<longrightarrow> x = y \<and> r = r')"

lemma ends_token_simps [simp]:
  "ends_token []" "ends_token (CHR '','' # r)" "ends_token (CHR '']'' # r)"
  "ends_token (CHR ''}'' # r)"
  by (simp_all add: ends_token_def)

lemma separated_tail_readable:
  assumes "\<forall>x \<in> set xs. readable p x" and "c \<in> {CHR '']'', CHR ''}''}"
    and "concat (map (\<lambda>x. CHR '','' # p x) xs) @ c # r
         = concat (map (\<lambda>x. CHR '','' # p x) ys) @ c # r'"
  shows "xs = ys \<and> r = r'"
  using assms(1,3)
proof (induction xs arbitrary: ys)
  case Nil
  then show ?case using assms(2) by (cases ys) auto
next
  case (Cons x xs)
  show ?case
  proof (cases ys)
    case Nil
    with Cons.prems assms(2) show ?thesis by auto
  next
    case (Cons y ys')
    let ?t = "\<lambda>zs. concat (map (\<lambda>x. CHR '','' # p x) zs)"
    have tok: "ends_token (?t zs @ c # s)" for zs s using assms(2) by (cases zs) auto
    from Cons.prems Cons have eq: "p x @ (?t xs @ c # r) = p y @ (?t ys' @ c # r')" by simp
    from Cons.prems(1) have "readable p x" by simp
    with eq tok have "x = y \<and> ?t xs @ c # r = ?t ys' @ c # r'"
      unfolding readable_def by blast
    with Cons.IH [of ys'] Cons.prems(1) Cons show ?thesis by simp
  qed
qed

lemma separated_readable:
  assumes "\<forall>x \<in> set xs. readable p x" and "c \<in> {CHR '']'', CHR ''}''}"
    and "\<And>x s. p x \<noteq> c # s" and "\<And>x. p x \<noteq> []"
    and eq: "separated (map p xs) @ c # r = separated (map p ys) @ c # r'"
  shows "xs = ys \<and> r = r'"
proof (cases xs)
  case Nil
  with eq show ?thesis
    using assms(3,4) by (cases ys) (simp_all add: Cons_eq_append_conv, metis)
next
  case (Cons x xs')
  show ?thesis
  proof (cases ys)
    case Nil
    with Cons eq show ?thesis
      using assms(3,4) by (simp add: append_eq_Cons_conv)
  next
    case (Cons y ys')
    let ?t = "\<lambda>zs. concat (map (\<lambda>x. CHR '','' # p x) zs)"
    have tok: "ends_token (?t zs @ c # s)" for zs s using assms(2) by (cases zs) auto
    from eq \<open>xs = x # xs'\<close> Cons have e: "p x @ (?t xs' @ c # r) = p y @ (?t ys' @ c # r')"
      by (simp add: comp_def)
    from assms(1) \<open>xs = x # xs'\<close> have "readable p x" by simp
    with e tok have "x = y \<and> ?t xs' @ c # r = ?t ys' @ c # r'" unfolding readable_def by blast
    with separated_tail_readable [of xs' p c r ys' r'] assms(1,2) \<open>xs = x # xs'\<close> Cons
    show ?thesis by simp
  qed
qed

subsection \<open>Strings\<close>

text \<open>The inverse of one escape.\<close>

definition hex_value :: "char \<Rightarrow> int" where
  "hex_value c = (let n = (of_char c :: int) in if n < 58 then n - 48 else n - 87)"

fun unescape :: "string \<Rightarrow> (char \<times> string) option" where
  "unescape [] = None"
| "unescape (c # s) =
     (if c = quote_char then None
      else if c \<noteq> CHR 0x5C then Some (c, s)
      else (case s of
              [] \<Rightarrow> None
            | x # t \<Rightarrow>
                (if x = CHR ''u''
                 then (case t of
                         _ # _ # h # l # t' \<Rightarrow> Some (char_of (16 * hex_value h + hex_value l), t')
                       | _ \<Rightarrow> None)
                 else Some (if x = CHR ''b'' then CHR 0x08 else if x = CHR ''t'' then CHR 0x09
                            else if x = CHR ''n'' then CHR 0x0A else if x = CHR ''f'' then CHR 0x0C
                            else if x = CHR ''r'' then CHR 0x0D else x, t))))"

lemma of_char_char_of_small [simp]: "0 \<le> n \<Longrightarrow> n < 256 \<Longrightarrow> (of_char (char_of (n :: int)) :: int) = n"
  by simp

lemma hex_value_digit: "0 \<le> k \<Longrightarrow> k < 16 \<Longrightarrow> hex_value (hex_digit k) = k"
  by (auto simp: hex_value_def hex_digit_def Let_def)

lemma control_codes:
  "char_of (34 :: int) = CHR 0x22" "char_of (92 :: int) = CHR 0x5C" "char_of (8 :: int) = CHR 0x08"
  "char_of (9 :: int) = CHR 0x09" "char_of (10 :: int) = CHR 0x0A" "char_of (12 :: int) = CHR 0x0C"
  "char_of (13 :: int) = CHR 0x0D"
  by code_simp+

lemma unescape_escape: "unescape (escape_char c @ r) = Some (c, r)"
proof -
  let ?n = "of_char c :: int"
  have n: "?n = int (of_char c)" by (simp add: of_nat_of_char)
  then have range: "0 \<le> ?n" by simp
  have code: "c = char_of n" if "?n = n" for n :: int using that by auto
  consider "?n = 34" | "?n = 92" | "?n = 8" | "?n = 9" | "?n = 10" | "?n = 12" | "?n = 13"
    | "?n < 32" "?n \<notin> {8, 9, 10, 12, 13}" | "32 \<le> ?n" "?n \<noteq> 34" "?n \<noteq> 92"
    by fastforce
  then show ?thesis
  proof cases
    case 8
    have "hex_value (hex_digit (?n div 16)) = ?n div 16" "hex_value (hex_digit (?n mod 16)) = ?n mod 16"
      using range 8 by (intro hex_value_digit; simp)+
    moreover have "char_of (16 * (?n div 16) + ?n mod 16) = c" by simp
    ultimately show ?thesis
      using 8 by (simp add: escape_char_def Let_def quote_char_def)
  next
    case 9
    then have "c \<noteq> quote_char" "c \<noteq> CHR 0x5C" by (auto simp: quote_char_def)
    with 9 show ?thesis by (simp add: escape_char_def Let_def)
  qed (auto dest!: code simp: control_codes escape_char_def Let_def quote_char_def)
qed

lemma escaped_readable:
  "concat (map escape_char s) @ quote_char # r = concat (map escape_char t) @ quote_char # r' \<Longrightarrow>
     s = t \<and> r = r'"
proof (induction s arbitrary: t)
  case Nil
  then show ?case by (cases t) (auto dest: arg_cong [of _ _ unescape] simp: unescape_escape)
next
  case (Cons c s)
  have lhs: "unescape (concat (map escape_char (c # s)) @ quote_char # r)
               = Some (c, concat (map escape_char s) @ quote_char # r)"
    by (simp add: unescape_escape)
  show ?case
  proof (cases t)
    case Nil
    with lhs Cons.prems show ?thesis by simp
  next
    case (Cons d t')
    then have "unescape (concat (map escape_char t) @ quote_char # r')
               = Some (d, concat (map escape_char t') @ quote_char # r')"
      by (simp add: unescape_escape)
    with lhs Cons.prems have "c = d"
      "concat (map escape_char s) @ quote_char # r = concat (map escape_char t') @ quote_char # r'"
      by simp_all
    with Cons.IH Cons show ?thesis by simp
  qed
qed

lemma string_text_readable: "string_text s @ r = string_text t @ r' \<Longrightarrow> s = t \<and> r = r'"
  using escaped_readable [of s r t r'] by (simp add: string_text_def)

subsection \<open>Numbers\<close>

definition is_digit :: "char \<Rightarrow> bool" where
  "is_digit c \<longleftrightarrow> 48 \<le> (of_char c :: int) \<and> (of_char c :: int) \<le> 57"

definition digits_value_int :: "string \<Rightarrow> int" where
  "digits_value_int s = fold (\<lambda>c acc. 10 * acc + (of_char c - 48)) s 0"

declare nat_text.simps [simp del]

lemma of_char_digit: "0 \<le> d \<Longrightarrow> d < 10 \<Longrightarrow> (of_char (digit_char d) :: int) = 48 + d"
  by (simp add: digit_char_def)

lemma nat_text_digits: "0 \<le> n \<Longrightarrow> \<forall>c \<in> set (nat_text n). is_digit c"
proof (induction n rule: nat_text.induct)
  case (1 n)
  then show ?case
    by (subst nat_text.simps) (auto simp: is_digit_def of_char_digit)
qed

lemma nat_text_value: "0 \<le> n \<Longrightarrow> digits_value_int (nat_text n) = n"
proof (induction n rule: nat_text.induct)
  case (1 n)
  then show ?case
    by (subst nat_text.simps) (auto simp: digits_value_int_def of_char_digit)
qed

lemma nat_text_nonempty: "nat_text n \<noteq> []"
  by (subst nat_text.simps) simp

lemma ends_token_no_digit: "ends_token r \<Longrightarrow> takeWhile is_digit r = []"
  by (cases r) (auto simp: ends_token_def is_digit_def)

lemma nat_text_readable:
  assumes "nat_text n @ r = nat_text m @ r'" "0 \<le> n" "0 \<le> m" "ends_token r" "ends_token r'"
  shows "n = m \<and> r = r'"
proof -
  have "takeWhile is_digit (nat_text k @ s) = nat_text k" if "0 \<le> k" "ends_token s" for k s
    using nat_text_digits [of k] ends_token_no_digit [of s] that by (simp add: takeWhile_append2)
  with assms have "nat_text n = nat_text m" by metis
  with assms nat_text_value show ?thesis by (metis append_same_eq append_eq_append_conv)
qed

lemma hd_nat_text: "0 \<le> n \<Longrightarrow> is_digit (hd (nat_text n))"
  using nat_text_digits [of n] nat_text_nonempty [of n] by (simp add: list.set_sel(1))

lemma int_text_readable:
  assumes "int_text n @ r = int_text m @ r'" "ends_token r" "ends_token r'"
  shows "n = m \<and> r = r'"
proof -
  have minus: "nat_text k @ s \<noteq> CHR ''-'' # t" if "0 \<le> k" for k s t
    using hd_nat_text [OF that] nat_text_nonempty [of k]
    by (cases "nat_text k") (auto simp: is_digit_def)
  show ?thesis
    using assms minus [of n r] minus [of m r'] nat_text_readable [of n r m r']
      nat_text_readable [of "- n" r "- m" r']
    by (auto simp: int_text_def split: if_splits) (metis minus linear)+
qed

subsection \<open>Values\<close>

text \<open>The first character of a text determines the kind of value.\<close>

fun json_head :: "json \<Rightarrow> char \<Rightarrow> bool" where
  "json_head CNull c = (c = CHR ''n'')"
| "json_head (CBool b) c = (c = (if b then CHR ''t'' else CHR ''f''))"
| "json_head (CNum _) c = (c = CHR ''-'' \<or> is_digit c)"
| "json_head (CStr _) c = (c = quote_char)"
| "json_head (CArr _) c = (c = CHR ''['')"
| "json_head (CObj _) c = (c = CHR ''{'')"

lemma json_text_head: "\<exists>c s. json_text j = c # s \<and> json_head j c"
proof (cases j)
  case (CNum n)
  show ?thesis
  proof (cases "n < 0")
    case False
    then have "is_digit (hd (nat_text n))" by (intro hd_nat_text) simp
    with nat_text_nonempty [of n] False CNum show ?thesis
      by (cases "nat_text n") (auto simp: int_text_def)
  qed (simp add: CNum int_text_def)
qed (auto simp: string_text_def)

lemma json_head_kind:
  assumes "json_text j @ r = json_text j' @ r'"
  shows "\<exists>c. json_head j c \<and> json_head j' c"
  using json_text_head [of j] json_text_head [of j'] assms by auto

lemma json_text_not_close: "c \<in> {CHR '']'', CHR ''}'', CHR '',''} \<Longrightarrow> json_text j \<noteq> c # s"
  using json_text_head [of j]
  by (cases j) (auto simp: is_digit_def quote_char_def split: if_splits)

lemmas head_simps = is_digit_def quote_char_def

lemma member_text_readable:
  "readable json_text (snd m) \<Longrightarrow>
     readable (\<lambda>m. string_text (fst m) @ CHR '':'' # json_text (snd m)) m"
  unfolding readable_def
  by (auto dest!: string_text_readable simp: prod_eq_iff)

lemma json_text_readable: "readable json_text j"
proof (induction j)
  case CNull
  show ?case unfolding readable_def
  proof (intro allI impI)
    fix y r r' assume eq: "json_text CNull @ r = json_text y @ r'"
    from json_head_kind [OF eq] have "y = CNull" by (cases y) (auto simp: head_simps split: if_splits)
    with eq show "CNull = y \<and> r = r'" by simp
  qed
next
  case (CBool b)
  show ?case unfolding readable_def
  proof (intro allI impI)
    fix y r r' assume eq: "json_text (CBool b) @ r = json_text y @ r'"
    from json_head_kind [OF eq] have "\<exists>b'. y = CBool b'"
      by (cases y) (auto simp: head_simps split: if_splits)
    with eq show "CBool b = y \<and> r = r'" by (auto split: if_splits)
  qed
next
  case (CNum n)
  show ?case unfolding readable_def
  proof (intro allI impI)
    fix y r r' assume eq: "json_text (CNum n) @ r = json_text y @ r'" and t: "ends_token r" "ends_token r'"
    from json_head_kind [OF eq] obtain m where "y = CNum m"
      by (cases y) (auto simp: head_simps split: if_splits)
    with eq t show "CNum n = y \<and> r = r'" using int_text_readable [of n r m r'] by simp
  qed
next
  case (CStr s)
  show ?case unfolding readable_def
  proof (intro allI impI)
    fix y r r' assume eq: "json_text (CStr s) @ r = json_text y @ r'"
    from json_head_kind [OF eq] obtain t where "y = CStr t"
      by (cases y) (auto simp: head_simps split: if_splits)
    with eq show "CStr s = y \<and> r = r'" using string_text_readable [of s r t r'] by simp
  qed
next
  case (CArr js)
  show ?case unfolding readable_def
  proof (intro allI impI)
    fix y r r' assume eq: "json_text (CArr js) @ r = json_text y @ r'"
    from json_head_kind [OF eq] obtain ks where y: "y = CArr ks"
      by (cases y) (auto simp: head_simps split: if_splits)
    have "js = ks \<and> r = r'"
    proof (rule separated_readable [where p = json_text and c = "CHR '']''"])
      show "json_text x \<noteq> []" for x using json_text_head [of x] by auto
    qed (use CArr eq y in \<open>auto simp: json_text_not_close\<close>)
    with y show "CArr js = y \<and> r = r'" by simp
  qed
next
  case (CObj ms)
  let ?p = "\<lambda>m. string_text (fst m) @ CHR '':'' # json_text (snd m)"
  have mems: "\<forall>m \<in> set ms. readable ?p m"
    using CObj by (auto intro!: member_text_readable simp: snds.simps)
  show ?case unfolding readable_def
  proof (intro allI impI)
    fix y r r' assume eq: "json_text (CObj ms) @ r = json_text y @ r'"
    from json_head_kind [OF eq] obtain ns where y: "y = CObj ns"
      by (cases y) (auto simp: head_simps split: if_splits)
    have "ms = ns \<and> r = r'"
      by (rule separated_readable [where p = ?p and c = "CHR ''}''"])
        (use mems eq y in \<open>auto simp: string_text_def quote_char_def\<close>)
    with y show "CObj ms = y \<and> r = r'" by simp
  qed
qed

lemma json_text_inj [simp]: "json_text j = json_text j' \<longleftrightarrow> j = j'"
  using json_text_readable [of j, unfolded readable_def, rule_format, of "[]" j' "[]"] by auto

lemma canonicalStringify_eq_iff: "canonicalStringify v = canonicalStringify w \<longleftrightarrow> canonical v = canonical w"
  unfolding canonicalStringify_def by (cases "canonical v"; cases "canonical w") auto

lemma int_text_inj [simp]: "int_text n = int_text m \<longleftrightarrow> n = m"
  using int_text_readable [of n "[]" m "[]"] by auto

section \<open>Equality of values\<close>

text \<open>JSON data: no member without a JSON form, and the keys of every object are distinct.\<close>

fun json_data :: "js_value \<Rightarrow> bool" where
  "json_data JUndefined = False"
| "json_data (JFun _) = False"
| "json_data (JArr vs) = (\<forall>v \<in> set vs. json_data v)"
| "json_data (JObj fs) = (distinct (map fst fs) \<and> (\<forall>m \<in> set fs. json_data (snd m)))"
| "json_data _ = True"

text \<open>
  The reference comparison: arrays element by element, objects by the value of every key, whatever
  the order the keys were inserted in.
\<close>

fun json_same :: "js_value \<Rightarrow> js_value \<Rightarrow> bool" where
  "json_same (JArr vs) w =
     (case w of JArr ws \<Rightarrow> list_all2 (\<lambda>v u. json_same v u) vs ws | _ \<Rightarrow> False)"
| "json_same (JObj fs) w =
     (case w of
        JObj gs \<Rightarrow>
          length fs = length gs \<and>
          (\<forall>m \<in> set fs. case map_of gs (fst m) of None \<Rightarrow> False | Some u \<Rightarrow> json_same (snd m) u)
      | _ \<Rightarrow> False)"
| "json_same v w = (v = w)"

lemma canonical_data: "json_data v \<Longrightarrow> \<exists>j. canonical v = Some j"
  by (cases v) auto

definition canon :: "js_value \<Rightarrow> json" where
  "canon v = the (canonical v)"

lemma canonical_canon: "json_data v \<Longrightarrow> canonical v = Some (canon v)"
  using canonical_data by (fastforce simp: canon_def)

lemma canonical_array:
  "json_data (JArr vs) \<Longrightarrow> canonical (JArr vs) = Some (CArr (map canon vs))"
  by (auto simp: canonical_canon)

lemma canonical_object:
  assumes "json_data (JObj fs)"
  shows "canonical (JObj fs) = Some (CObj (canonical_members (map (\<lambda>m. (fst m, canon (snd m))) fs)))"
proof -
  have "concat (map (\<lambda>m. case canonical (snd m) of None \<Rightarrow> [] | Some j \<Rightarrow> [(fst m, j)]) fs)
          = map (\<lambda>m. (fst m, canon (snd m))) fs"
    using assms by (induction fs) (auto simp: canonical_canon)
  then show ?thesis by simp
qed

lemma members_eq_iff:
  assumes "distinct (map fst xs)" and "distinct (map fst ys)"
  shows "canonical_members xs = canonical_members ys \<longleftrightarrow>
           length xs = length ys \<and> (\<forall>m \<in> set xs. map_of ys (fst m) = Some (snd m))"
proof
  assume "canonical_members xs = canonical_members ys"
  then have m: "mset xs = mset ys" by (metis mset_canonical_members)
  then have "set xs = set ys" by (rule mset_eq_setD)
  with assms(2) have "\<forall>m \<in> set xs. map_of ys (fst m) = Some (snd m)" by simp
  moreover have "length xs = length ys" using m by (rule mset_eq_length)
  ultimately show "length xs = length ys \<and> (\<forall>m \<in> set xs. map_of ys (fst m) = Some (snd m))" by blast
next
  assume r: "length xs = length ys \<and> (\<forall>m \<in> set xs. map_of ys (fst m) = Some (snd m))"
  then have "set xs \<subseteq> set ys" by (metis map_of_SomeD prod.collapse subsetI)
  moreover have "distinct xs" "distinct ys" using assms by (auto simp: distinct_map)
  ultimately have "set xs = set ys"
    using r by (intro card_subset_eq) (simp_all add: distinct_card)
  with \<open>distinct xs\<close> \<open>distinct ys\<close> have "mset xs = mset ys" by (simp add: set_eq_iff_mset_eq_distinct)
  with assms(1) show "canonical_members xs = canonical_members ys" by (rule canonical_members_perm)
qed

lemma map_of_canon: "map_of (map (\<lambda>m. (fst m, canon (snd m))) gs) k = map_option canon (map_of gs k)"
  by (induction gs) auto

lemma canon_eq_iff: "json_data v \<Longrightarrow> json_data w \<Longrightarrow> canonical v = canonical w \<longleftrightarrow> json_same v w"
proof (induction v arbitrary: w)
  case (JArr vs)
  show ?case
  proof (cases w)
    case w: (JArr ws)
    have elem: "canon v = canon u \<longleftrightarrow> json_same v u" if "v \<in> set vs" "u \<in> set ws" for v u
      using JArr.IH [OF that(1), of u] JArr.prems w that by (auto simp: canonical_canon)
    have "map canon vs = map canon ws \<longleftrightarrow> list_all2 (\<lambda>v u. canon v = canon u) vs ws"
      by (simp add: list.rel_eq [symmetric] list.rel_map)
    also have "\<dots> \<longleftrightarrow> list_all2 (\<lambda>v u. json_same v u) vs ws"
      by (rule list.rel_cong) (simp_all add: elem)
    finally show ?thesis using JArr.prems w by (simp add: canonical_array del: canonical.simps)
  qed (use JArr.prems in \<open>auto simp: canonical_array canonical_object simp del: canonical.simps(7,8)\<close>)
next
  case (JObj fs)
  show ?case
  proof (cases w)
    case w: (JObj gs)
    have same: "map_option canon (map_of gs k) = Some (canon v)
                  \<longleftrightarrow> (case map_of gs k of None \<Rightarrow> False | Some u \<Rightarrow> json_same v u)"
      if "(k, v) \<in> set fs" for k v
    proof (cases "map_of gs k")
      case (Some u)
      then have "json_data u" using JObj.prems w by (auto dest: map_of_SomeD)
      moreover have "json_data v" using JObj.prems that by auto
      ultimately show ?thesis
        using Some JObj.IH [OF that, of v u] by (auto simp: canonical_canon)
    qed simp
    let ?c = "map (\<lambda>m. (fst m, canon (snd m)))"
    have "distinct (map fst (?c fs))" "distinct (map fst (?c gs))"
      using JObj.prems w by (simp_all add: comp_def)
    from members_eq_iff [OF this]
    have "canonical_members (?c fs) = canonical_members (?c gs) \<longleftrightarrow>
            length fs = length gs \<and>
            (\<forall>m \<in> set fs. map_option canon (map_of gs (fst m)) = Some (canon (snd m)))"
      by (simp only: length_map set_map ball_simps(9) fst_conv snd_conv map_of_canon)
    also have "\<dots> \<longleftrightarrow> json_same (JObj fs) (JObj gs)"
      unfolding json_same.simps js_value.case
      by (intro conj_cong refl ball_cong) (metis same prod.collapse)
    finally show ?thesis using JObj.prems w by (simp add: canonical_object del: canonical.simps json_same.simps)
  qed (use JObj.prems in \<open>auto simp: canonical_array canonical_object simp del: canonical.simps(7,8)\<close>)
qed (case_tac w; auto simp: canonical_array canonical_object simp del: canonical.simps(7,8))+

text \<open>
  C31. The port's notion of sameness is value equality: for JSON data, the canonical texts of two
  values are equal exactly when the values are, element by element in arrays and key by key in
  objects, whatever the insertion order of the keys.\<close>

theorem canonicalStringify_same_value:
  assumes "json_data v" and "json_data w"
  shows "canonicalStringify v = canonicalStringify w \<longleftrightarrow> json_same v w"
  using canon_eq_iff [OF assms] by (simp add: canonicalStringify_eq_iff)

definition sample_left :: js_value where
  "sample_left =
     JObj [(''version'', JNum 1), (''providerData'', JObj [(''run'', JNum (- 42)), (''7'', JArr [JNull, JStr ''a''])])]"

definition sample_right :: js_value where
  "sample_right =
     JObj [(''providerData'', JObj [(''7'', JArr [JNull, JStr ''a'']), (''run'', JNum (- 42))]), (''version'', JNum 1)]"

theorem canonicalStringify_same_value_witness:
  "canonicalStringify sample_left = canonicalStringify sample_right \<and> sample_left \<noteq> sample_right
   \<and> canonicalStringify sample_left \<noteq> canonicalStringify (JArr [sample_left])"
proof -
  have data: "json_data sample_left" "json_data sample_right" "json_data (JArr [sample_left])"
    by code_simp+
  have "json_same sample_left sample_right" "\<not> json_same sample_left (JArr [sample_left])"
    "sample_left \<noteq> sample_right"
    by code_simp+
  with canonicalStringify_same_value [OF data(1,2)] canonicalStringify_same_value [OF data(1,3)]
  show ?thesis by simp
qed

end
