(* ===== verification/Attempt_Records.thy ===== *)
theory Attempt_Records
  imports Canonical_JSON
begin

text \<open>
  The data of an execution attempt (\<open>subsystems/workflow-engine/src/execution-attempt-repository.ts\<close>,
  \<open>provider-operation.ts\<close>, \<open>execution-attempt-cancellation.ts\<close>, \<open>attempt-control-evidence.ts\<close>) and
  the contract schemas the port validates values with
  (\<open>core/contracts/src/capabilities/worker/types.ts\<close>, \<open>core/contracts/src/execution-attempt\<close>).
  A stored timestamp is in canonical UTC form, so it is the instant it denotes, in milliseconds
  since the epoch; a timestamp a caller supplies is text. What the port obtains from outside (the
  ISO-8601 check of zod, \<open>Date.parse\<close>, \<open>JSON.parse\<close>, the owner's outcome codec) is a field of
  \<open>port_env\<close>; clock readings and generated identifiers are arguments of the operations.
\<close>

type_synonym instant = int

record 'o port_env =
  isoDatetime :: "string \<Rightarrow> bool"
  dateParse :: "string \<Rightarrow> instant option"
  jsonParse :: "string \<Rightarrow> js_value option"
  codec_parse :: "js_value \<Rightarrow> 'o option"
  codec_validate :: "'o \<Rightarrow> 'o option"
  codec_serialize :: "'o \<Rightarrow> string"

datatype attempt_error =
    SchemaViolation string
  | InvalidInstant string
  | RangeErr string
  | TypeErr string
  | DuplicateExecutionAttempt string
  | ForeignProvider string string
  | CorruptRequestBinding
  | CorruptSettlementIdentity
  | CorruptSettlementFacts
  | RuntimeOutcomeFenceMismatch
  | OutcomeRejected
  | NotRecoverable string
  | ConflictingGeneratedKey

section \<open>Contract values\<close>

definition size_within :: "int \<Rightarrow> int \<Rightarrow> string \<Rightarrow> bool" where
  "size_within lo hi s \<longleftrightarrow> lo \<le> int (length s) \<and> int (length s) \<le> hi"

definition is_identifier :: "string \<Rightarrow> bool" where
  "is_identifier s \<longleftrightarrow> s \<noteq> []"

definition MAX_SAFE_INTEGER :: int where
  "MAX_SAFE_INTEGER = 2 ^ 53 - 1"

text \<open>\<open>z.number().int().positive()\<close>: a positive safe integer.\<close>

definition positive_int :: "int \<Rightarrow> bool" where
  "positive_int n \<longleftrightarrow> 0 < n \<and> n \<le> MAX_SAFE_INTEGER"

subsection \<open>Recovery evidence\<close>

record evidence =
  ev_source :: string
  ev_summary :: string
  ev_observedAt :: string
  ev_code :: "string option"

definition evidence_ok :: "'o port_env \<Rightarrow> evidence \<Rightarrow> bool" where
  "evidence_ok E e \<longleftrightarrow>
     size_within 1 128 (ev_source e) \<and> size_within 1 512 (ev_summary e)
     \<and> isoDatetime E (ev_observedAt e) \<and> int (length (ev_observedAt e)) \<le> 64
     \<and> (case ev_code e of None \<Rightarrow> True | Some c \<Rightarrow> size_within 1 64 c)"

subsection \<open>Provider allocations\<close>

datatype allocation_lifetime = ProvisionerProcessBound | ProviderManaged

record allocation_ref =
  ref_version :: int
  ref_providerId :: string
  ref_providerData :: "(string \<times> js_value) list"

definition allocation_ref_ok :: "allocation_ref \<Rightarrow> bool" where
  "allocation_ref_ok r \<longleftrightarrow>
     ref_version r = 1 \<and> is_identifier (ref_providerId r) \<and> json_data (JObj (ref_providerData r))"

definition ref_json :: "allocation_ref \<Rightarrow> js_value" where
  "ref_json r =
     JObj [(''version'', JNum (ref_version r)), (''providerId'', JStr (ref_providerId r)),
           (''providerData'', JObj (ref_providerData r))]"

definition sameAllocationRef :: "allocation_ref \<Rightarrow> allocation_ref \<Rightarrow> bool" where
  "sameAllocationRef stored candidate \<longleftrightarrow>
     canonicalStringify (ref_json stored) = canonicalStringify (ref_json candidate)"

subsection \<open>Instructions\<close>

datatype workspace_provisioning = BindWorkspace | CreateWorkspace
datatype workspace_custody = ExternalCustody | DisposableCustody
datatype preservation = SourceState | Diagnostics | WorkspaceState | LiveState

record source_root =
  sr_id :: string
  sr_path :: string
  sr_source :: "(string \<times> js_value) option"

record setup_command =
  sc_command :: string
  sc_args :: "string list"
  sc_env :: "(string \<times> string) list"
  sc_timeoutMs :: int

record workspace_requirement =
  ws_provisioning :: workspace_provisioning
  ws_custody :: workspace_custody
  ws_sourceRoots :: "source_root list"
  ws_setup :: "setup_command list"

record instruction =
  in_id :: string
  in_revision :: string
  in_workload :: "string \<times> string \<times> js_value"
  in_workspace :: "workspace_requirement option"
  in_preservation :: "preservation list"

text \<open>\<open>/^[A-Za-z]:/\<close>\<close>

fun drive_prefix :: "string \<Rightarrow> bool" where
  "drive_prefix (c # d # _) =
     (let n = (of_char c :: int) in
      d = CHR '':'' \<and> (65 \<le> n \<and> n \<le> 90 \<or> 97 \<le> n \<and> n \<le> 122))"
| "drive_prefix _ = False"

definition relativePath :: "string \<Rightarrow> bool" where
  "relativePath path \<longleftrightarrow>
     is_identifier path \<and> \<not> (path \<noteq> [] \<and> hd path = CHR ''/'')
     \<and> CHR 0x5C \<notin> set path \<and> \<not> drive_prefix path
     \<and> ''..'' \<notin> set (split_on (CHR ''/'') path)"

definition source_root_ok :: "source_root \<Rightarrow> bool" where
  "source_root_ok r \<longleftrightarrow>
     is_identifier (sr_id r) \<and> relativePath (sr_path r)
     \<and> (case sr_source r of None \<Rightarrow> True | Some (kind, input) \<Rightarrow> is_identifier kind \<and> json_data input)"

definition setup_command_ok :: "setup_command \<Rightarrow> bool" where
  "setup_command_ok c \<longleftrightarrow> is_identifier (sc_command c) \<and> distinct (map fst (sc_env c)) \<and> positive_int (sc_timeoutMs c)"

definition workspace_ok :: "workspace_requirement \<Rightarrow> bool" where
  "workspace_ok w \<longleftrightarrow>
     list_all source_root_ok (ws_sourceRoots w) \<and> list_all setup_command_ok (ws_setup w)"

definition instruction_ok :: "instruction \<Rightarrow> bool" where
  "instruction_ok i \<longleftrightarrow>
     is_identifier (in_id i) \<and> is_identifier (in_revision i)
     \<and> (case in_workload i of (kind, version, input) \<Rightarrow>
          is_identifier kind \<and> is_identifier version \<and> json_data input)
     \<and> (case in_workspace i of None \<Rightarrow> True | Some w \<Rightarrow> workspace_ok w)"

text \<open>The assignment as the object the canonical text is taken of.\<close>

fun provisioning_json :: "workspace_provisioning \<Rightarrow> js_value" where
  "provisioning_json BindWorkspace = JStr ''bind''"
| "provisioning_json CreateWorkspace = JStr ''create''"

fun custody_json :: "workspace_custody \<Rightarrow> js_value" where
  "custody_json ExternalCustody = JStr ''external''"
| "custody_json DisposableCustody = JStr ''disposable''"

fun preservation_json :: "preservation \<Rightarrow> js_value" where
  "preservation_json SourceState = JStr ''source-state''"
| "preservation_json Diagnostics = JStr ''diagnostics''"
| "preservation_json WorkspaceState = JStr ''workspace-state''"
| "preservation_json LiveState = JStr ''live-state''"

definition source_root_json :: "source_root \<Rightarrow> js_value" where
  "source_root_json r =
     JObj ([(''id'', JStr (sr_id r)), (''path'', JStr (sr_path r))]
           @ (case sr_source r of
                None \<Rightarrow> []
              | Some (kind, input) \<Rightarrow> [(''source'', JObj [(''kind'', JStr kind), (''input'', input)])]))"

definition setup_command_json :: "setup_command \<Rightarrow> js_value" where
  "setup_command_json c =
     JObj [(''command'', JStr (sc_command c)), (''args'', JArr (map JStr (sc_args c))),
           (''env'', JObj (map (\<lambda>(k, v). (k, JStr v)) (sc_env c))),
           (''timeoutMs'', JNum (sc_timeoutMs c))]"

definition workspace_json :: "workspace_requirement \<Rightarrow> js_value" where
  "workspace_json w =
     JObj [(''provisioning'', provisioning_json (ws_provisioning w)),
           (''custody'', custody_json (ws_custody w)),
           (''sourceRoots'', JArr (map source_root_json (ws_sourceRoots w))),
           (''setup'', JArr (map setup_command_json (ws_setup w)))]"

definition instruction_json :: "instruction \<Rightarrow> js_value" where
  "instruction_json i =
     JObj ([(''id'', JStr (in_id i)), (''revision'', JStr (in_revision i)),
            (''workload'', case in_workload i of (kind, version, input) \<Rightarrow>
               JObj [(''kind'', JStr kind), (''version'', JStr version), (''input'', input)])]
           @ (case in_workspace i of None \<Rightarrow> [] | Some w \<Rightarrow> [(''workspace'', workspace_json w)])
           @ [(''preservation'', JObj [(''required'', JArr (map preservation_json (in_preservation i)))])])"

subsection \<open>Preparation results\<close>

record workspace_binding =
  wb_workspaceRoot :: string
  wb_sourceRoots :: "(string \<times> string) list"

definition binding_ok :: "workspace_binding \<Rightarrow> bool" where
  "binding_ok b \<longleftrightarrow>
     is_identifier (wb_workspaceRoot b)
     \<and> list_all (\<lambda>(i, p). is_identifier i \<and> is_identifier p) (wb_sourceRoots b)"

text \<open>A result is \<open>{ kind: 'workspace-prepared', binding }\<close>.\<close>

definition result_json :: "workspace_binding \<Rightarrow> js_value" where
  "result_json b =
     JObj [(''kind'', JStr ''workspace-prepared''),
           (''binding'',
              JObj [(''workspaceRoot'', JStr (wb_workspaceRoot b)),
                    (''sourceRoots'',
                       JArr (map (\<lambda>(i, p). JObj [(''id'', JStr i), (''path'', JStr p)])
                                 (wb_sourceRoots b)))])]"

record preparation_receipt =
  pr_operationId :: string
  pr_runtimeGeneration :: int
  pr_result :: workspace_binding

definition receipt_ok :: "preparation_receipt \<Rightarrow> bool" where
  "receipt_ok r \<longleftrightarrow>
     is_identifier (pr_operationId r) \<and> positive_int (pr_runtimeGeneration r) \<and> binding_ok (pr_result r)"

section \<open>The attempt record\<close>

datatype attempt_status = AttPending | AttProvisioning | AttAllocated | AttSettled
datatype settlement_kind = ByOutcome | ByAbandonment | ByInfrastructureFailure
datatype start_gate = GateOpen | GateClosed
datatype operation_kind = RuntimeProbe | WorkflowRun | WorkspacePreparation | WorkloadInvocation

record control_state =
  cs_runtimeGeneration :: int
  cs_runtimeIncarnationId :: "string option"
  cs_runtimeReadyAt :: "instant option"
  cs_operationStartGate :: start_gate
  cs_activeOperationId :: "string option"
  cs_activeOperationKind :: "operation_kind option"
  cs_activeOperationKey :: "string option"
  cs_activeOperationGeneration :: "int option"
  cs_activeOperationAdmittedAt :: "instant option"
  cs_lastCompletedOperationId :: "string option"

record attempt = control_state +
  at_instruction :: instruction
  at_preparationReceipts :: "preparation_receipt list"
  at_executionAttemptId :: string
  at_executionId :: string
  at_status :: attempt_status
  at_allocationRef :: "allocation_ref option"
  at_createdAt :: instant
  at_bootstrapDeadlineAt :: "instant option"
  at_providerId :: "string option"
  at_allocationLifetime :: "allocation_lifetime option"
  at_provisionerIncarnationId :: "string option"
  at_settlementKind :: "settlement_kind option"
  at_claimable :: bool
  at_claimExpiresAt :: "instant option"

definition toAttemptControlState :: "attempt \<Rightarrow> control_state" where
  "toAttemptControlState a = control_state.truncate a"

section \<open>Provider operations\<close>

datatype obligation = ProvisioningResolution | AllocationControl | TerminalConvergence

fun obligation_rank :: "obligation \<Rightarrow> int" where
  "obligation_rank ProvisioningResolution = 0"
| "obligation_rank AllocationControl = 1"
| "obligation_rank TerminalConvergence = 2"

record claim =
  cl_executionAttemptId :: string
  cl_generation :: int
  cl_ownerId :: string
  cl_token :: string
  cl_leaseExpiresAt :: instant

record operation =
  op_executionAttemptId :: string
  op_generation :: int
  op_ownerId :: "string option"
  op_token :: "string option"
  op_leaseExpiresAt :: "instant option"
  op_obligation :: obligation
  op_failureCount :: int
  op_lastFailure :: "evidence option"
  op_completionEvidence :: "evidence option"

definition isProviderOperationResolved :: "attempt \<Rightarrow> operation \<Rightarrow> bool" where
  "isProviderOperationResolved a p \<longleftrightarrow>
     at_settlementKind a \<noteq> None \<and> op_completionEvidence p \<noteq> None"

section \<open>Cancellation and control evidence\<close>

record cancellation_intent =
  ci_requestKey :: string
  ci_controlRevision :: int
  ci_requestedAt :: instant
  ci_reason :: "string option"

record outcome_observation =
  ob_controlRevision :: int
  ob_cancellation :: "cancellation_intent option"

record control_correlation =
  cc_executionAttemptId :: string
  cc_runtimeIncarnationId :: string
  cc_runtimeGeneration :: int
  cc_controlRevision :: int
  cc_requestKey :: string

record control_receipt = control_correlation +
  cr_receivedAt :: string

datatype control_status = Achieved | Unsupported | Unconfirmed
datatype control_boundary = AdmissionClosed | SetupProcessGroup | WorkloadBoundary

record control_report = control_correlation +
  cp_operationId :: "string option"
  cp_status :: control_status
  cp_boundary :: control_boundary
  cp_evidence :: evidence

record control_evidence =
  ce_controlRevision :: int
  ce_runtimeGeneration :: int
  ce_receipt :: "control_receipt option"
  ce_report :: "control_report option"

definition correlation_ok :: "'z control_correlation_scheme \<Rightarrow> bool" where
  "correlation_ok c \<longleftrightarrow>
     is_identifier (cc_executionAttemptId c) \<and> is_identifier (cc_runtimeIncarnationId c)
     \<and> positive_int (cc_runtimeGeneration c) \<and> positive_int (cc_controlRevision c)
     \<and> is_identifier (cc_requestKey c)"

definition control_receipt_ok :: "'o port_env \<Rightarrow> control_receipt \<Rightarrow> bool" where
  "control_receipt_ok E r \<longleftrightarrow> correlation_ok r \<and> isoDatetime E (cr_receivedAt r)"

definition control_report_ok :: "'o port_env \<Rightarrow> control_report \<Rightarrow> bool" where
  "control_report_ok E r \<longleftrightarrow>
     correlation_ok r \<and> (case cp_operationId r of None \<Rightarrow> True | Some i \<Rightarrow> is_identifier i)
     \<and> evidence_ok E (cp_evidence r)"

end
