(* ===== verification/Attempt_Decisions.thy ===== *)
theory Attempt_Decisions
  imports Attempt_Records
begin

text \<open>
  The pure decisions of the execution-attempt port:
  \<open>subsystems/workflow-engine/src/execution-attempt-decisions.ts\<close>, the cancellation and evidence
  decisions of \<open>execution-attempt-cancellation.ts\<close> and \<open>attempt-control-evidence.ts\<close>, and the
  replay and settlement reading of \<open>execution-attempt-owner-recovery.ts\<close>. As in the source, a
  decision function returns a non-write decision, or nothing (\<open>None\<close>) to let the repository attempt
  its guarded write. The laws below state the fixed precedence of the refusals.
\<close>

datatype runtime_decision =
    RtNotFound
  | RtResolved
  | RtFenced
  | RtNotAllocated
  | RtRegistered int
  | RtDuplicateRegistration int "instant option"
  | RtOperationActive string
  | RtAdmitted string int instant
  | RtDuplicateAdmission string int instant
  | RtGateClosed
  | RtNotReady
  | RtStaleGeneration "int option"
  | RtPreparationRequired
  | RtPreparationNotRequired
  | RtPreparationAlreadyCompleted
  | RtCompleted
  | RtDuplicateCompletion
  | RtResultRequired
  | RtMismatch string
  | RtNotActive
  | RtReady instant
  | RtDuplicateReadiness instant
  | RtAccepted workspace_binding
  | RtDuplicateReport workspace_binding
  | RtConflict
  | RtNoActiveOperation
  | RtOperationMismatch
  | RtBindingMismatch

datatype provider_decision =
    PvStarted claim
  | PvAlreadyProvisioning
  | PvClaimed claim
  | PvRecorded
  | PvEvidenceRecorded
  | PvCompleted
  | PvAlreadyCompleted
  | PvEvolved
  | PvDuplicate allocation_ref
  | PvConflict allocation_ref
  | PvAllocated allocation_ref
  | PvResolvedWith "allocation_ref option"
  | PvStaleWith "allocation_ref option"
  | PvResolved
  | PvStale
  | PvFenced
  | PvNotFound
  | PvNotAllocated
  | PvNotTerminated
  | PvNotProcessBound "allocation_lifetime option"
  | PvIncarnationMismatch "string option"
  | PvAbandoned
  | PvAlreadyAbandoned
  | PvAlreadySettled
  | PvIsAllocated
  | PvIsProvisioning

section \<open>Runtime control\<close>

record outcome_fence =
  fn_runtimeGeneration :: int
  fn_operationId :: "string option"

definition assertRuntimeOutcomeFence ::
    "'z control_state_scheme \<Rightarrow> outcome_fence option \<Rightarrow> attempt_error + unit" where
  "assertRuntimeOutcomeFence control fence =
     (case fence of
        None \<Rightarrow> Inr ()
      | Some f \<Rightarrow>
          if cs_runtimeGeneration control \<noteq> fn_runtimeGeneration f
             \<or> cs_activeOperationId control \<noteq> fn_operationId f
             \<or> (fn_operationId f \<noteq> None
                \<and> cs_activeOperationGeneration control \<noteq> Some (fn_runtimeGeneration f))
          then Inl RuntimeOutcomeFenceMismatch
          else Inr ())"

record reachability =
  rc_matchesExecution :: bool
  rc_settled :: bool
  rc_active :: bool
  rc_allocated :: bool

definition evaluateAttemptReachability :: "reachability \<Rightarrow> runtime_decision option" where
  "evaluateAttemptReachability facts =
     (if \<not> rc_matchesExecution facts then Some RtNotFound
      else if rc_settled facts then Some RtResolved
      else if \<not> rc_active facts then Some RtFenced
      else if \<not> rc_allocated facts then Some RtNotAllocated
      else None)"

record loss_proof =
  lp_provisionerIncarnationId :: string
  lp_evidence :: evidence

definition evaluateProvisionerIncarnationLoss ::
    "attempt \<Rightarrow> string \<Rightarrow> loss_proof \<Rightarrow> provider_decision option" where
  "evaluateProvisionerIncarnationLoss a executionId proof =
     (if at_executionId a \<noteq> executionId then Some PvNotFound
      else if at_allocationLifetime a \<noteq> Some ProvisionerProcessBound
      then Some (PvNotProcessBound (at_allocationLifetime a))
      else if at_provisionerIncarnationId a = None
              \<or> at_provisionerIncarnationId a \<noteq> Some (lp_provisionerIncarnationId proof)
      then Some (PvIncarnationMismatch (at_provisionerIncarnationId a))
      else (case at_allocationRef a of Some r \<Rightarrow> Some (PvAllocated r) | None \<Rightarrow> None))"

record register_input =
  ri_executionAttemptId :: string
  ri_executionId :: string
  ri_runtimeIncarnationId :: string

definition evaluateRuntimeRegistration ::
    "'z control_state_scheme \<Rightarrow> register_input \<Rightarrow> runtime_decision option" where
  "evaluateRuntimeRegistration control input =
     (if cs_runtimeIncarnationId control = Some (ri_runtimeIncarnationId input)
      then Some (RtDuplicateRegistration (cs_runtimeGeneration control) (cs_runtimeReadyAt control))
      else (case cs_activeOperationId control of
              Some i \<Rightarrow>
                if cs_activeOperationKind control \<noteq> Some RuntimeProbe then Some (RtOperationActive i)
                else None
            | None \<Rightarrow> None))"

record admit_input =
  ai_executionAttemptId :: string
  ai_executionId :: string
  ai_operationKind :: operation_kind
  ai_admissionKey :: string
  ai_runtimeGeneration :: int

definition requires_preparation :: "instruction \<Rightarrow> bool" where
  "requires_preparation i \<longleftrightarrow> in_workspace i \<noteq> None"

definition prepared_for :: "int \<Rightarrow> preparation_receipt list \<Rightarrow> bool" where
  "prepared_for g receipts \<longleftrightarrow> list_ex (\<lambda>r. pr_runtimeGeneration r = g) receipts"

definition evaluateOperationAdmission ::
    "'z control_state_scheme \<Rightarrow> admit_input \<Rightarrow> instant \<Rightarrow> instruction \<Rightarrow> preparation_receipt list
     \<Rightarrow> runtime_decision option" where
  "evaluateOperationAdmission control input fallbackAdmittedAt instr receipts =
     (case cs_activeOperationId control of
        Some i \<Rightarrow>
          Some (if cs_activeOperationKey control = Some (ai_admissionKey input)
                then RtDuplicateAdmission i
                       (case cs_activeOperationGeneration control of
                          None \<Rightarrow> cs_runtimeGeneration control | Some g \<Rightarrow> g)
                       (case cs_activeOperationAdmittedAt control of
                          None \<Rightarrow> fallbackAdmittedAt | Some t \<Rightarrow> t)
                else RtOperationActive i)
      | None \<Rightarrow>
          if cs_operationStartGate control = GateClosed then Some RtGateClosed
          else if ai_operationKind input \<noteq> RuntimeProbe \<and> cs_runtimeReadyAt control = None
          then Some RtNotReady
          else if cs_runtimeGeneration control \<noteq> ai_runtimeGeneration input
          then Some (RtStaleGeneration (Some (cs_runtimeGeneration control)))
          else
            let requiresPreparation = requires_preparation instr;
                prepared = prepared_for (cs_runtimeGeneration control) receipts in
            if ai_operationKind input = WorkspacePreparation \<and> \<not> requiresPreparation
            then Some RtPreparationNotRequired
            else if ai_operationKind input = WorkspacePreparation \<and> prepared
            then Some RtPreparationAlreadyCompleted
            else if (ai_operationKind input = WorkloadInvocation \<or> ai_operationKind input = WorkflowRun)
                    \<and> requiresPreparation \<and> \<not> prepared
            then Some RtPreparationRequired
            else None)"

record report_input =
  rp_executionAttemptId :: string
  rp_executionId :: string
  rp_operationId :: string
  rp_runtimeGeneration :: int
  rp_result :: workspace_binding

definition sorted_ids_json :: "string list \<Rightarrow> js_value" where
  "sorted_ids_json ids = JArr (map JStr (js_sort str_cmp ids))"

definition evaluatePreparationReport ::
    "reachability \<Rightarrow> 'z control_state_scheme \<Rightarrow> instruction \<Rightarrow> preparation_receipt list \<Rightarrow> report_input
     \<Rightarrow> runtime_decision option" where
  "evaluatePreparationReport facts control instr receipts input =
     (if \<not> rc_matchesExecution facts then Some RtNotFound
      else case find (\<lambda>r. pr_operationId r = rp_operationId input) receipts of
        Some previous \<Rightarrow>
          Some (if pr_runtimeGeneration previous = rp_runtimeGeneration input
                   \<and> canonicalStringify (result_json (pr_result previous))
                     = canonicalStringify (result_json (rp_result input))
                then RtDuplicateReport (pr_result previous)
                else RtConflict)
      | None \<Rightarrow>
          (case evaluateAttemptReachability facts of
             Some unreachable \<Rightarrow> Some unreachable
           | None \<Rightarrow>
               if cs_runtimeGeneration control \<noteq> rp_runtimeGeneration input
               then Some (RtStaleGeneration None)
               else if cs_activeOperationId control = None then Some RtNoActiveOperation
               else if cs_activeOperationId control \<noteq> Some (rp_operationId input)
                       \<or> cs_activeOperationKind control \<noteq> Some WorkspacePreparation
               then Some RtOperationMismatch
               else if cs_activeOperationGeneration control \<noteq> Some (rp_runtimeGeneration input)
               then Some (RtStaleGeneration None)
               else (case in_workspace instr of
                       None \<Rightarrow> Some RtPreparationNotRequired
                     | Some workspace \<Rightarrow>
                         if canonicalStringify (sorted_ids_json (map sr_id (ws_sourceRoots workspace)))
                            \<noteq> canonicalStringify
                                (sorted_ids_json (map fst (wb_sourceRoots (rp_result input))))
                         then Some RtBindingMismatch
                         else None)))"

record complete_input =
  co_executionAttemptId :: string
  co_operationId :: string
  co_runtimeGeneration :: int

definition evaluateOperationCompletion ::
    "'z control_state_scheme \<Rightarrow> complete_input \<Rightarrow> runtime_decision option" where
  "evaluateOperationCompletion control input =
     (if cs_lastCompletedOperationId control = Some (co_operationId input)
      then Some RtDuplicateCompletion
      else case cs_activeOperationId control of
        None \<Rightarrow> Some RtNotActive
      | Some i \<Rightarrow>
          if i \<noteq> co_operationId input then Some (RtMismatch i)
          else if cs_activeOperationGeneration control \<noteq> Some (co_runtimeGeneration input)
          then Some (RtStaleGeneration None)
          else if cs_activeOperationKind control = Some WorkspacePreparation
                  \<or> cs_activeOperationKind control = Some WorkloadInvocation
          then Some RtResultRequired
          else None)"

record ready_input =
  rd_executionAttemptId :: string
  rd_executionId :: string
  rd_runtimeGeneration :: int
  rd_readyAt :: string

definition evaluateRuntimeReadiness ::
    "'z control_state_scheme \<Rightarrow> ready_input \<Rightarrow> runtime_decision option" where
  "evaluateRuntimeReadiness control input =
     (if cs_runtimeGeneration control \<noteq> rd_runtimeGeneration input then Some (RtStaleGeneration None)
      else case cs_runtimeReadyAt control of
        Some t \<Rightarrow> Some (RtDuplicateReadiness t)
      | None \<Rightarrow> (case cs_activeOperationId control of
                   Some i \<Rightarrow> Some (RtOperationActive i)
                 | None \<Rightarrow> None))"

section \<open>Cancellation\<close>

datatype cancellation_decision =
    CnAccepted cancellation_intent
  | CnReplayed cancellation_intent
  | CnNotFound
  | CnConflict

definition evaluateAttemptCancellation ::
    "cancellation_intent option \<Rightarrow> string \<Rightarrow> string option \<Rightarrow> instant \<Rightarrow> cancellation_decision" where
  "evaluateAttemptCancellation stored requestKey reason requestedAt =
     (case stored of
        Some intent \<Rightarrow>
          if ci_requestKey intent = requestKey \<and> ci_reason intent \<noteq> reason then CnConflict
          else CnReplayed intent
      | None \<Rightarrow>
          CnAccepted \<lparr>ci_requestKey = requestKey, ci_controlRevision = 1,
                      ci_requestedAt = requestedAt, ci_reason = reason\<rparr>)"

definition snapshotAttemptOutcomeControl :: "cancellation_intent option \<Rightarrow> outcome_observation" where
  "snapshotAttemptOutcomeControl cancellation =
     \<lparr>ob_controlRevision = (case cancellation of None \<Rightarrow> 0 | Some c \<Rightarrow> ci_controlRevision c),
      ob_cancellation = cancellation\<rparr>"

section \<open>Control evidence\<close>

datatype evidence_decision =
    EvAccepted
  | EvDuplicate
  | EvNotFound
  | EvCancelMismatch
  | EvStaleGeneration
  | EvOperationMismatch
  | EvConflict

definition evaluateControlCorrelation ::
    "attempt option \<Rightarrow> cancellation_intent option \<Rightarrow> string \<Rightarrow> 'z control_correlation_scheme
     \<Rightarrow> evidence_decision option" where
  "evaluateControlCorrelation attempt cancellation executionId input =
     (case attempt of
        None \<Rightarrow> Some EvNotFound
      | Some a \<Rightarrow>
          if at_executionId a \<noteq> executionId then Some EvNotFound
          else if map_option ci_controlRevision cancellation \<noteq> Some (cc_controlRevision input)
                  \<or> map_option ci_requestKey cancellation \<noteq> Some (cc_requestKey input)
          then Some EvCancelMismatch
          else if cs_runtimeGeneration a \<noteq> cc_runtimeGeneration input
                  \<or> cs_runtimeIncarnationId a \<noteq> Some (cc_runtimeIncarnationId input)
          then Some EvStaleGeneration
          else None)"

text \<open>
  The facts are strict objects of scalars and one evidence object, so their canonical texts are
  equal exactly when the records are.
\<close>

definition replayControlFact :: "'f \<Rightarrow> 'f \<Rightarrow> evidence_decision" where
  "replayControlFact stored candidate = (if stored = candidate then EvDuplicate else EvConflict)"

definition evaluateAttemptControlReceipt ::
    "attempt option \<Rightarrow> cancellation_intent option \<Rightarrow> control_receipt option \<Rightarrow> string \<Rightarrow> control_receipt
     \<Rightarrow> evidence_decision" where
  "evaluateAttemptControlReceipt attempt cancellation stored executionId input =
     (case attempt of
        None \<Rightarrow> EvNotFound
      | Some a \<Rightarrow>
          if at_executionId a \<noteq> executionId then EvNotFound
          else case stored of
            Some s \<Rightarrow> replayControlFact s input
          | None \<Rightarrow>
              (case evaluateControlCorrelation attempt cancellation executionId input of
                 Some d \<Rightarrow> d
               | None \<Rightarrow> EvAccepted))"

definition matchesControlOperation :: "attempt \<Rightarrow> control_report \<Rightarrow> bool" where
  "matchesControlOperation a input =
     (case cp_boundary input of
        AdmissionClosed \<Rightarrow>
          cp_operationId input = None \<and> cs_operationStartGate a = GateClosed
          \<and> (cs_activeOperationId a = None \<or> cs_activeOperationKind a = Some RuntimeProbe)
      | boundary \<Rightarrow>
          (case cp_operationId input of
             None \<Rightarrow> False
           | Some i \<Rightarrow>
               let active = cs_activeOperationId a = Some i
                            \<and> cs_activeOperationGeneration a = Some (cc_runtimeGeneration input) in
               if boundary = SetupProcessGroup
               then (active \<and> cs_activeOperationKind a = Some WorkspacePreparation)
                    \<or> list_ex (\<lambda>r. pr_operationId r = i
                                    \<and> pr_runtimeGeneration r = cc_runtimeGeneration input)
                        (at_preparationReceipts a)
               else active \<and> (cs_activeOperationKind a = Some WorkloadInvocation
                              \<or> cs_activeOperationKind a = Some WorkflowRun)))"

definition evaluateAttemptControlReport ::
    "attempt option \<Rightarrow> cancellation_intent option \<Rightarrow> control_report option \<Rightarrow> string \<Rightarrow> control_report
     \<Rightarrow> evidence_decision" where
  "evaluateAttemptControlReport attempt cancellation stored executionId input =
     (case attempt of
        None \<Rightarrow> EvNotFound
      | Some a \<Rightarrow>
          if at_executionId a \<noteq> executionId then EvNotFound
          else case stored of
            Some s \<Rightarrow> replayControlFact s input
          | None \<Rightarrow>
              (case evaluateControlCorrelation attempt cancellation executionId input of
                 Some d \<Rightarrow> d
               | None \<Rightarrow> if matchesControlOperation a input then EvAccepted else EvOperationMismatch))"

section \<open>Outcomes and settlement\<close>

record 'o durable_outcome =
  du_text :: string
  du_outcome :: 'o

definition decodeDurableOutcome :: "'o port_env \<Rightarrow> string \<Rightarrow> attempt_error + 'o" where
  "decodeDurableOutcome E text =
     (case jsonParse E text of
        None \<Rightarrow> Inl OutcomeRejected
      | Some v \<Rightarrow> (case codec_parse E v of None \<Rightarrow> Inl OutcomeRejected | Some o' \<Rightarrow> Inr o'))"

definition durableOutcome :: "'o port_env \<Rightarrow> 'o \<Rightarrow> attempt_error + 'o durable_outcome" where
  "durableOutcome E outcome =
     (case codec_validate E outcome of
        None \<Rightarrow> Inl OutcomeRejected
      | Some valid \<Rightarrow>
          let text = codec_serialize E valid in
          (case decodeDurableOutcome E text of
             Inl e \<Rightarrow> Inl e
           | Inr o' \<Rightarrow> Inr \<lparr>du_text = text, du_outcome = o'\<rparr>))"

text \<open>\<open>JSON.parse\<close> throws on a text that is not JSON.\<close>

definition sameDurableOutcome :: "'o port_env \<Rightarrow> string \<Rightarrow> string \<Rightarrow> attempt_error + bool" where
  "sameDurableOutcome E stored candidate =
     (case jsonParse E stored of
        None \<Rightarrow> Inl OutcomeRejected
      | Some v \<Rightarrow> (case jsonParse E candidate of
                     None \<Rightarrow> Inl OutcomeRejected
                   | Some w \<Rightarrow> Inr (canonicalStringify v = canonicalStringify w)))"

datatype ensure_decision = EnCreated attempt | EnReplayed attempt | EnConflict

definition replayEnsuredAttempt ::
    "string \<Rightarrow> instruction \<Rightarrow> attempt option \<Rightarrow> attempt_error + ensure_decision" where
  "replayEnsuredAttempt executionId instr bound =
     (case bound of
        None \<Rightarrow> Inl CorruptRequestBinding
      | Some a \<Rightarrow>
          if at_executionId a \<noteq> executionId then Inl CorruptRequestBinding
          else if canonicalStringify (instruction_json (at_instruction a))
                  \<noteq> canonicalStringify (instruction_json instr)
          then Inr EnConflict
          else Inr (EnReplayed a))"

datatype 'o settlement_read =
    SrNotFound
  | SrUnsettled attempt bool
  | SrWithoutOutcome attempt bool
  | SrOutcome attempt bool "'o durable_outcome" "outcome_observation option"

definition readAttemptSettlementSnapshot ::
    "'o port_env \<Rightarrow> string \<Rightarrow> string \<Rightarrow> attempt option \<Rightarrow> string option \<Rightarrow> string option
     \<Rightarrow> outcome_observation option \<Rightarrow> attempt_error + 'o settlement_read" where
  "readAttemptSettlementSnapshot E executionId executionAttemptId attempt activeAttemptId outcomeText
     controlObservation =
     (case attempt of
        None \<Rightarrow> Inr SrNotFound
      | Some a \<Rightarrow>
          if at_executionId a \<noteq> executionId then Inr SrNotFound
          else if at_executionAttemptId a \<noteq> executionAttemptId then Inl CorruptSettlementIdentity
          else
            let current = activeAttemptId = Some (at_executionAttemptId a) in
            if at_status a \<noteq> AttSettled \<and> at_settlementKind a = None \<and> outcomeText = None
            then Inr (SrUnsettled a current)
            else if at_status a = AttSettled \<and> at_settlementKind a = Some ByOutcome \<and> outcomeText \<noteq> None
            then (case decodeDurableOutcome E (the outcomeText) of
                    Inl e \<Rightarrow> Inl e
                  | Inr o' \<Rightarrow> Inr (SrOutcome a current \<lparr>du_text = the outcomeText, du_outcome = o'\<rparr>
                                    controlObservation))
            else if at_status a = AttSettled
                    \<and> (at_settlementKind a = Some ByAbandonment
                       \<or> at_settlementKind a = Some ByInfrastructureFailure)
                    \<and> outcomeText = None
            then Inr (SrWithoutOutcome a current)
            else Inl CorruptSettlementFacts)"

lemmas [attempt_defs] =
  assertRuntimeOutcomeFence_def evaluateAttemptReachability_def
  evaluateProvisionerIncarnationLoss_def evaluateRuntimeRegistration_def
  evaluateOperationAdmission_def evaluatePreparationReport_def evaluateOperationCompletion_def
  evaluateRuntimeReadiness_def evaluateAttemptCancellation_def

end
