(* ===== verification/Attempt_Repository.thy ===== *)
theory Attempt_Repository
  imports Attempt_Decisions
begin

text \<open>
  The repository of execution attempts: every operation of
  \<open>subsystems/workflow-engine/src/testing/in-memory-attempt-repository.ts\<close>, the reference
  realization of the port, with the value handling of \<open>testing/attempt-record-codec.ts\<close>. The state
  is the eight maps of \<open>InMemoryAttemptRepositoryState\<close>. Each operation is one synchronous block of
  the source, so it is a function from the state to its answer and the new state; an answer is the
  error the source throws (\<open>Inl\<close>) or a decision (\<open>Inr\<close>). The two members a caller cannot influence,
  \<open>crypto.randomUUID()\<close> and the clock, are the arguments \<open>uuid\<close> and \<open>now\<close>. Freezing and cloning
  protect JavaScript references and have no counterpart on values.
\<close>

record repo =
  rs_attempts :: "(string, attempt) js_map"
  rs_operations :: "(string, operation) js_map"
  rs_committedOutcomes :: "(string, string) js_map"
  rs_outcomeControlObservations :: "(string, outcome_observation) js_map"
  rs_activeAttempts :: "(string, string) js_map"
  rs_requestBindings :: "(string, (string, string) js_map) js_map"
  rs_cancellations :: "(string, cancellation_intent) js_map"
  rs_controlEvidence :: "(string, (string, control_evidence) js_map) js_map"

definition empty_repo :: repo where
  "empty_repo =
     \<lparr>rs_attempts = [], rs_operations = [], rs_committedOutcomes = [],
      rs_outcomeControlObservations = [], rs_activeAttempts = [], rs_requestBindings = [],
      rs_cancellations = [], rs_controlEvidence = []\<rparr>"

type_synonym 'd answer = "(attempt_error + 'd) \<times> repo"

abbreviation put_attempt :: "attempt \<Rightarrow> repo \<Rightarrow> repo" where
  "put_attempt a R \<equiv> R\<lparr>rs_attempts := map_set (at_executionAttemptId a) a (rs_attempts R)\<rparr>"

abbreviation put_operation :: "operation \<Rightarrow> repo \<Rightarrow> repo" where
  "put_operation p R \<equiv> R\<lparr>rs_operations := map_set (op_executionAttemptId p) p (rs_operations R)\<rparr>"

section \<open>Value handling\<close>

definition instantOf :: "'o port_env \<Rightarrow> string \<Rightarrow> attempt_error + instant" where
  "instantOf E timestamp =
     (case dateParse E timestamp of None \<Rightarrow> Inl (InvalidInstant timestamp) | Some t \<Rightarrow> Inr t)"

text \<open>The stored form is canonical, so normalizing is reading the instant.\<close>

definition normalizeInstant :: "'o port_env \<Rightarrow> string \<Rightarrow> attempt_error + instant" where
  "normalizeInstant E timestamp = instantOf E timestamp"

definition MAX_DATE_MS :: int where
  "MAX_DATE_MS = 8640000000000000"

definition createAttemptTiming :: "int \<Rightarrow> instant \<Rightarrow> attempt_error + instant \<times> instant" where
  "createAttemptTiming bootstrapTimeoutMs now =
     (if \<not> positive_int bootstrapTimeoutMs
      then Inl (RangeErr ''bootstrapTimeoutMs must be a positive safe integer'')
      else
        let deadlineMs = now + bootstrapTimeoutMs in
        if \<bar>deadlineMs\<bar> > MAX_SAFE_INTEGER \<or> \<bar>deadlineMs\<bar> > MAX_DATE_MS
        then Inl (RangeErr ''bootstrapTimeoutMs produces an unrepresentable bootstrap deadline'')
        else Inr (now, deadlineMs))"

definition parseEvidence :: "'o port_env \<Rightarrow> evidence \<Rightarrow> attempt_error + evidence" where
  "parseEvidence E e = (if evidence_ok E e then Inr e else Inl (SchemaViolation ''evidence''))"

definition parseAllocationRef :: "allocation_ref \<Rightarrow> attempt_error + allocation_ref" where
  "parseAllocationRef r =
     (if allocation_ref_ok r then Inr r else Inl (SchemaViolation ''allocationRef''))"

definition parseInstruction :: "instruction \<Rightarrow> attempt_error + instruction" where
  "parseInstruction i = (if instruction_ok i then Inr i else Inl (SchemaViolation ''instruction''))"

definition parsePreparationResult :: "workspace_binding \<Rightarrow> attempt_error + workspace_binding" where
  "parsePreparationResult b = (if binding_ok b then Inr b else Inl (SchemaViolation ''result''))"

definition parsePreparationReceipts ::
    "preparation_receipt list \<Rightarrow> attempt_error + preparation_receipt list" where
  "parsePreparationReceipts rs =
     (if list_all receipt_ok rs then Inr rs else Inl (SchemaViolation ''preparationReceipts''))"

definition parseAllocationRefEvolution ::
    "allocation_ref \<Rightarrow> allocation_ref \<Rightarrow> attempt_error + allocation_ref \<times> allocation_ref" where
  "parseAllocationRefEvolution currentRef nextRef =
     (case parseAllocationRef currentRef of
        Inl e \<Rightarrow> Inl e
      | Inr c \<Rightarrow>
          (case parseAllocationRef nextRef of
             Inl e \<Rightarrow> Inl e
           | Inr n \<Rightarrow>
               if ref_providerId c \<noteq> ref_providerId n
               then Inl (ForeignProvider (ref_providerId c) (ref_providerId n))
               else Inr (c, n)))"

definition requireAllocationRefProvider :: "attempt \<Rightarrow> allocation_ref \<Rightarrow> attempt_error + unit" where
  "requireAllocationRefProvider a r =
     (if at_providerId a = Some (ref_providerId r) then Inr ()
      else Inl (ForeignProvider (at_executionAttemptId a) (ref_providerId r)))"

definition INITIAL_ATTEMPT_CONTROL_STATE :: control_state where
  "INITIAL_ATTEMPT_CONTROL_STATE =
     \<lparr>cs_runtimeGeneration = 0, cs_runtimeIncarnationId = None, cs_runtimeReadyAt = None,
      cs_operationStartGate = GateOpen, cs_activeOperationId = None, cs_activeOperationKind = None,
      cs_activeOperationKey = None, cs_activeOperationGeneration = None,
      cs_activeOperationAdmittedAt = None, cs_lastCompletedOperationId = None\<rparr>"

definition compareRecoveryOrder :: "attempt \<Rightarrow> attempt \<Rightarrow> int" where
  "compareRecoveryOrder left right =
     (let byInstant = at_createdAt left - at_createdAt right in
      if byInstant \<noteq> 0 then byInstant
      else str_cmp (at_executionAttemptId left) (at_executionAttemptId right))"

definition toRecoverableAttempt :: "attempt \<Rightarrow> attempt_error + attempt" where
  "toRecoverableAttempt a =
     (if at_status a \<noteq> AttAllocated \<or> \<not> at_claimable a \<or> at_settlementKind a \<noteq> None
         \<or> at_allocationRef a = None \<or> at_providerId a = None \<or> at_allocationLifetime a = None
         \<or> at_provisionerIncarnationId a = None
      then Inl (NotRecoverable (at_executionAttemptId a))
      else Inr a)"

section \<open>Shared guards and writes\<close>

definition settleAttempt :: "settlement_kind \<Rightarrow> attempt \<Rightarrow> attempt" where
  "settleAttempt k a =
     a\<lparr>at_status := AttSettled, at_settlementKind := Some k, at_claimable := False,
       cs_operationStartGate := GateClosed\<rparr>"

text \<open>One write clears all five members of the active operation.\<close>

definition clearActive :: "attempt \<Rightarrow> attempt" where
  "clearActive a =
     a\<lparr>cs_activeOperationId := None, cs_activeOperationKind := None, cs_activeOperationKey := None,
       cs_activeOperationGeneration := None, cs_activeOperationAdmittedAt := None\<rparr>"

definition allocationTerminated :: "repo \<Rightarrow> string \<Rightarrow> bool" where
  "allocationTerminated R i \<longleftrightarrow>
     map_option op_obligation (map_get (rs_operations R) i) = Some TerminalConvergence"

definition is_active :: "repo \<Rightarrow> string \<Rightarrow> string \<Rightarrow> bool" where
  "is_active R executionId i \<longleftrightarrow> map_get (rs_activeAttempts R) executionId = Some i"

definition runtimeReachability :: "repo \<Rightarrow> attempt \<Rightarrow> runtime_decision option" where
  "runtimeReachability R a =
     (let settled = at_settlementKind a \<noteq> None;
          active = \<not> settled \<and> is_active R (at_executionId a) (at_executionAttemptId a) in
      evaluateAttemptReachability
        \<lparr>rc_matchesExecution = True, rc_settled = settled, rc_active = active,
         rc_allocated = active \<and> at_allocationRef a \<noteq> None
                        \<and> \<not> allocationTerminated R (at_executionAttemptId a)\<rparr>)"

datatype authorization =
    Authorized attempt operation
  | AuthStale attempt
  | AuthResolved attempt
  | AuthNotFound

definition authorize :: "repo \<Rightarrow> claim \<Rightarrow> authorization" where
  "authorize R c =
     (case map_get (rs_attempts R) (cl_executionAttemptId c) of
        None \<Rightarrow> AuthNotFound
      | Some a \<Rightarrow>
          (case map_get (rs_operations R) (cl_executionAttemptId c) of
             None \<Rightarrow> AuthNotFound
           | Some p \<Rightarrow>
               if isProviderOperationResolved a p then AuthResolved a
               else if op_token p = None \<or> op_token p \<noteq> Some (cl_token c)
                       \<or> op_generation p \<noteq> cl_generation c \<or> op_ownerId p \<noteq> Some (cl_ownerId c)
               then AuthStale a
               else Authorized a p))"

text \<open>The decision reported for a claim that does not authorize.\<close>

fun refuse_claim :: "authorization \<Rightarrow> provider_decision" where
  "refuse_claim (AuthStale _) = PvStale"
| "refuse_claim (AuthResolved _) = PvResolved"
| "refuse_claim _ = PvNotFound"

definition recordProviderCompletionEvidence :: "operation \<Rightarrow> evidence \<Rightarrow> repo \<Rightarrow> repo" where
  "recordProviderCompletionEvidence p e R =
     (if op_completionEvidence p \<noteq> None then R
      else put_operation (p\<lparr>op_completionEvidence := Some e\<rparr>) R)"

definition applyAllocation :: "claim \<Rightarrow> allocation_ref \<Rightarrow> bool \<Rightarrow> repo \<Rightarrow> provider_decision answer" where
  "applyAllocation c ref bootstrapClaimable R =
     (case parseAllocationRef ref of
        Inl e \<Rightarrow> (Inl e, R)
      | Inr allocationRef \<Rightarrow>
          (case authorize R c of
             AuthNotFound \<Rightarrow> (Inr PvNotFound, R)
           | AuthStale a \<Rightarrow>
               (case requireAllocationRefProvider a allocationRef of
                  Inl e \<Rightarrow> (Inl e, R) | Inr _ \<Rightarrow> (Inr PvStale, R))
           | AuthResolved a \<Rightarrow>
               (case requireAllocationRefProvider a allocationRef of
                  Inl e \<Rightarrow> (Inl e, R) | Inr _ \<Rightarrow> (Inr (PvResolvedWith (at_allocationRef a)), R))
           | Authorized a p \<Rightarrow>
               (case requireAllocationRefProvider a allocationRef of
                  Inl e \<Rightarrow> (Inl e, R)
                | Inr _ \<Rightarrow>
                    (case at_allocationRef a of
                       Some stored \<Rightarrow>
                         (Inr (if sameAllocationRef stored allocationRef then PvDuplicate stored
                               else PvConflict stored), R)
                     | None \<Rightarrow>
                         let isActiveAttempt = is_active R (at_executionId a) (at_executionAttemptId a);
                             a' = a\<lparr>at_status := (if at_settlementKind a = None then AttAllocated
                                                  else at_status a),
                                    at_allocationRef := Some allocationRef,
                                    at_claimable := (at_settlementKind a = None \<and> bootstrapClaimable
                                                     \<and> isActiveAttempt)\<rparr> in
                         (Inr PvRecorded,
                          put_operation (p\<lparr>op_obligation := AllocationControl\<rparr>) (put_attempt a' R))))))"

section \<open>Creation and owner requests\<close>

record create_input =
  cr_executionAttemptId :: string
  cr_executionId :: string
  cr_instruction :: instruction
  cr_bootstrapTimeoutMs :: int

definition fresh_attempt :: "create_input \<Rightarrow> instant \<Rightarrow> instant \<Rightarrow> attempt" where
  "fresh_attempt input createdAt deadline =
     control_state.extend INITIAL_ATTEMPT_CONTROL_STATE
       (attempt.fields (cr_instruction input) [] (cr_executionAttemptId input) (cr_executionId input)
          AttPending None createdAt (Some deadline) None None None None False None)"

text \<open>Replacement fences the attempt it supersedes: no bootstrap claim, no further operation.\<close>

definition supersede :: "attempt \<Rightarrow> attempt" where
  "supersede a =
     a\<lparr>at_claimable := (if at_status a = AttAllocated then False else at_claimable a),
       cs_operationStartGate := GateClosed\<rparr>"

definition insertAttempt :: "create_input \<Rightarrow> instant \<Rightarrow> repo \<Rightarrow> attempt answer" where
  "insertAttempt input now R =
     (case createAttemptTiming (cr_bootstrapTimeoutMs input) now of
        Inl e \<Rightarrow> (Inl e, R)
      | Inr (createdAt, deadline) \<Rightarrow>
          if map_has (rs_attempts R) (cr_executionAttemptId input)
          then (Inl (DuplicateExecutionAttempt (cr_executionAttemptId input)), R)
          else
            let record = fresh_attempt input createdAt deadline;
                activeAttempt = Option.bind (map_get (rs_activeAttempts R) (cr_executionId input))
                                  (map_get (rs_attempts R));
                R1 = (case activeAttempt of None \<Rightarrow> R | Some a \<Rightarrow> put_attempt (supersede a) R) in
            (Inr record,
             (put_attempt record R1)\<lparr>rs_activeAttempts :=
                map_set (cr_executionId input) (cr_executionAttemptId input) (rs_activeAttempts R1)\<rparr>))"

definition createAttempt :: "create_input \<Rightarrow> instant \<Rightarrow> repo \<Rightarrow> attempt answer" where
  "createAttempt input now R =
     (case parseInstruction (cr_instruction input) of
        Inl e \<Rightarrow> (Inl e, R)
      | Inr i \<Rightarrow> insertAttempt (input\<lparr>cr_instruction := i\<rparr>) now R)"

definition requireIdentity :: "string \<Rightarrow> string \<Rightarrow> attempt_error + unit" where
  "requireIdentity v name =
     (if v = [] then Inl (TypeErr (name @ '' must be a non-empty string'')) else Inr ())"

record ensure_input = create_input +
  en_requestKey :: string

definition snapshotEnsureExecutionAttemptPersistenceInput ::
    "ensure_input \<Rightarrow> attempt_error + ensure_input" where
  "snapshotEnsureExecutionAttemptPersistenceInput input =
     (case requireIdentity (cr_executionAttemptId input) ''executionAttemptId'' of
        Inl e \<Rightarrow> Inl e
      | Inr _ \<Rightarrow>
          if \<not> positive_int (cr_bootstrapTimeoutMs input)
          then Inl (RangeErr ''bootstrapTimeoutMs must be a positive safe integer'')
          else (case requireIdentity (cr_executionId input) ''executionId'' of
                  Inl e \<Rightarrow> Inl e
                | Inr _ \<Rightarrow>
                    (case requireIdentity (en_requestKey input) ''requestKey'' of
                       Inl e \<Rightarrow> Inl e
                     | Inr _ \<Rightarrow>
                         (case parseInstruction (cr_instruction input) of
                            Inl e \<Rightarrow> Inl e
                          | Inr i \<Rightarrow> Inr (input\<lparr>cr_instruction := i\<rparr>)))))"

definition owner_bindings :: "repo \<Rightarrow> string \<Rightarrow> (string, string) js_map" where
  "owner_bindings R executionId =
     (case map_get (rs_requestBindings R) executionId of None \<Rightarrow> [] | Some m \<Rightarrow> m)"

definition ensureAttempt :: "ensure_input \<Rightarrow> instant \<Rightarrow> repo \<Rightarrow> ensure_decision answer" where
  "ensureAttempt input now R =
     (case snapshotEnsureExecutionAttemptPersistenceInput input of
        Inl e \<Rightarrow> (Inl e, R)
      | Inr snapshot \<Rightarrow>
          (case map_get (owner_bindings R (cr_executionId snapshot)) (en_requestKey snapshot) of
             Some bound \<Rightarrow>
               (replayEnsuredAttempt (cr_executionId snapshot) (cr_instruction snapshot)
                  (map_get (rs_attempts R) bound), R)
           | None \<Rightarrow>
               (case insertAttempt (create_input.truncate snapshot) now R of
                  (Inl e, R1) \<Rightarrow> (Inl e, R1)
                | (Inr a, R1) \<Rightarrow>
                    (Inr (EnCreated a),
                     R1\<lparr>rs_requestBindings :=
                          map_set (cr_executionId snapshot)
                            (map_set (en_requestKey snapshot) (at_executionAttemptId a)
                               (owner_bindings R (cr_executionId snapshot)))
                            (rs_requestBindings R1)\<rparr>))))"

definition readAttemptSettlement ::
    "'o port_env \<Rightarrow> string \<Rightarrow> string \<Rightarrow> repo \<Rightarrow> attempt_error + 'o settlement_read" where
  "readAttemptSettlement E executionId executionAttemptId R =
     (case requireIdentity executionId ''executionId'' of
        Inl e \<Rightarrow> Inl e
      | Inr _ \<Rightarrow>
          (case requireIdentity executionAttemptId ''executionAttemptId'' of
             Inl e \<Rightarrow> Inl e
           | Inr _ \<Rightarrow>
               readAttemptSettlementSnapshot E executionId executionAttemptId
                 (map_get (rs_attempts R) executionAttemptId)
                 (map_get (rs_activeAttempts R) executionId)
                 (map_get (rs_committedOutcomes R) executionAttemptId)
                 (map_get (rs_outcomeControlObservations R) executionAttemptId)))"

record bootstrap_start_state =
  bs_settled :: bool
  bs_active :: bool
  bs_allocated :: bool
  bs_allocationTerminated :: bool
  bs_operationStartGate :: start_gate
  bs_bootstrapDeadlineAt :: "instant option"

definition readBootstrapStartState :: "string \<Rightarrow> string \<Rightarrow> repo \<Rightarrow> bootstrap_start_state option" where
  "readBootstrapStartState executionId executionAttemptId R =
     (case map_get (rs_attempts R) executionAttemptId of
        None \<Rightarrow> None
      | Some a \<Rightarrow>
          if at_executionId a \<noteq> executionId then None
          else Some \<lparr>bs_settled = (at_settlementKind a \<noteq> None),
                     bs_active = is_active R executionId executionAttemptId,
                     bs_allocated = (at_allocationRef a \<noteq> None),
                     bs_allocationTerminated = allocationTerminated R executionAttemptId,
                     bs_operationStartGate = cs_operationStartGate a,
                     bs_bootstrapDeadlineAt = at_bootstrapDeadlineAt a\<rparr>)"

section \<open>Provider operations\<close>

record begin_input =
  bg_executionAttemptId :: string
  bg_executionId :: string
  bg_providerId :: string
  bg_allocationLifetime :: allocation_lifetime
  bg_provisionerIncarnationId :: string
  bg_ownerId :: string
  bg_leaseExpiresAt :: string

text \<open>
  The source writes the attempt before it normalizes the lease deadline, so an unparsable deadline
  throws with the provider already bound.
\<close>

definition beginProvisioning ::
    "'o port_env \<Rightarrow> begin_input \<Rightarrow> string \<Rightarrow> repo \<Rightarrow> provider_decision answer" where
  "beginProvisioning E input uuid R =
     (case map_get (rs_attempts R) (bg_executionAttemptId input) of
        None \<Rightarrow> (Inr PvNotFound, R)
      | Some a \<Rightarrow>
          if at_executionId a \<noteq> bg_executionId input then (Inr PvNotFound, R)
          else if \<not> is_active R (bg_executionId input) (bg_executionAttemptId input)
          then (Inr PvFenced, R)
          else if at_settlementKind a \<noteq> None then (Inr (PvResolvedWith (at_allocationRef a)), R)
          else (case at_allocationRef a of
            Some r \<Rightarrow> (Inr (PvAllocated r), R)
          | None \<Rightarrow>
              if cs_operationStartGate a = GateClosed then (Inr PvFenced, R)
              else if at_status a \<noteq> AttPending then (Inr PvAlreadyProvisioning, R)
              else
                let R1 = R\<lparr>rs_attempts := map_set (bg_executionAttemptId input)
                            (a\<lparr>at_status := AttProvisioning,
                               at_providerId := Some (bg_providerId input),
                               at_allocationLifetime := Some (bg_allocationLifetime input),
                               at_provisionerIncarnationId := Some (bg_provisionerIncarnationId input)\<rparr>)
                            (rs_attempts R)\<rparr> in
                (case normalizeInstant E (bg_leaseExpiresAt input) of
                   Inl e \<Rightarrow> (Inl e, R1)
                 | Inr lease \<Rightarrow>
                     let c = \<lparr>cl_executionAttemptId = bg_executionAttemptId input, cl_generation = 1,
                              cl_ownerId = bg_ownerId input, cl_token = uuid, cl_leaseExpiresAt = lease\<rparr> in
                     (Inr (PvStarted c),
                      put_operation
                        \<lparr>op_executionAttemptId = bg_executionAttemptId input,
                         op_generation = cl_generation c, op_ownerId = Some (cl_ownerId c),
                         op_token = Some (cl_token c), op_leaseExpiresAt = Some (cl_leaseExpiresAt c),
                         op_obligation = ProvisioningResolution, op_failureCount = 0,
                         op_lastFailure = None, op_completionEvidence = None\<rparr> R1))))"

definition renewProviderOperationClaim ::
    "'o port_env \<Rightarrow> claim \<Rightarrow> string \<Rightarrow> repo \<Rightarrow> provider_decision answer" where
  "renewProviderOperationClaim E c leaseExpiresAt R =
     (case authorize R c of
        Authorized a p \<Rightarrow>
          (case normalizeInstant E leaseExpiresAt of
             Inl e \<Rightarrow> (Inl e, R)
           | Inr lease \<Rightarrow>
               (Inr (PvClaimed (c\<lparr>cl_leaseExpiresAt := lease\<rparr>)),
                R\<lparr>rs_operations := map_set (cl_executionAttemptId c)
                     (p\<lparr>op_leaseExpiresAt := Some lease\<rparr>) (rs_operations R)\<rparr>))
      | auth \<Rightarrow> (Inr (refuse_claim auth), R))"

text \<open>Whether an operation is held at an instant: owned, with a lease that has not expired.\<close>

definition held_at :: "instant \<Rightarrow> operation \<Rightarrow> bool" where
  "held_at t p \<longleftrightarrow>
     op_ownerId p \<noteq> None \<and> (case op_leaseExpiresAt p of None \<Rightarrow> False | Some l \<Rightarrow> l > t)"

text \<open>
  \<open>instantOf(input.observedAt)\<close> is only evaluated for an operation with an owner and a lease.
\<close>

definition takeOverProviderOperation ::
    "'o port_env \<Rightarrow> string \<Rightarrow> string \<Rightarrow> string \<Rightarrow> string \<Rightarrow> string \<Rightarrow> repo \<Rightarrow> provider_decision answer" where
  "takeOverProviderOperation E executionAttemptId ownerId observedAt leaseExpiresAt uuid R =
     (case map_get (rs_attempts R) executionAttemptId of
        None \<Rightarrow> (Inr PvNotFound, R)
      | Some a \<Rightarrow>
          (case map_get (rs_operations R) executionAttemptId of
             None \<Rightarrow> (Inr PvNotFound, R)
           | Some p \<Rightarrow>
               if isProviderOperationResolved a p then (Inr PvResolved, R)
               else
                 (case (if op_ownerId p \<noteq> None \<and> op_leaseExpiresAt p \<noteq> None
                        then map_sum id (\<lambda>t. held_at t p) (instantOf E observedAt)
                        else Inr False) of
                    Inl e \<Rightarrow> (Inl e, R)
                  | Inr True \<Rightarrow> (Inr PvStale, R)
                  | Inr False \<Rightarrow>
                      (case normalizeInstant E leaseExpiresAt of
                         Inl e \<Rightarrow> (Inl e, R)
                       | Inr lease \<Rightarrow>
                           let c = \<lparr>cl_executionAttemptId = executionAttemptId,
                                    cl_generation = op_generation p + 1, cl_ownerId = ownerId,
                                    cl_token = uuid, cl_leaseExpiresAt = lease\<rparr> in
                           (Inr (PvClaimed c),
                            R\<lparr>rs_operations := map_set executionAttemptId
                                 (p\<lparr>op_generation := cl_generation c,
                                    op_ownerId := Some (cl_ownerId c), op_token := Some (cl_token c),
                                    op_leaseExpiresAt := Some (cl_leaseExpiresAt c)\<rparr>)
                                 (rs_operations R)\<rparr>)))))"

definition handoffProviderOperation ::
    "'o port_env \<Rightarrow> claim \<Rightarrow> evidence option \<Rightarrow> repo \<Rightarrow> provider_decision answer" where
  "handoffProviderOperation E c ev R =
     (case (case ev of None \<Rightarrow> Inr None | Some e \<Rightarrow> map_sum id Some (parseEvidence E e)) of
        Inl e \<Rightarrow> (Inl e, R)
      | Inr parsed \<Rightarrow>
          (case authorize R c of
             Authorized a p \<Rightarrow>
               (Inr PvRecorded,
                R\<lparr>rs_operations := map_set (cl_executionAttemptId c)
                     (p\<lparr>op_ownerId := None, op_token := None, op_leaseExpiresAt := None,
                        op_lastFailure := (case parsed of None \<Rightarrow> op_lastFailure p | Some e \<Rightarrow> Some e)\<rparr>)
                     (rs_operations R)\<rparr>)
           | auth \<Rightarrow> (Inr (refuse_claim auth), R)))"

definition recordProviderOperationUncertainty ::
    "'o port_env \<Rightarrow> claim \<Rightarrow> evidence \<Rightarrow> repo \<Rightarrow> provider_decision answer" where
  "recordProviderOperationUncertainty E c ev R =
     (case parseEvidence E ev of
        Inl e \<Rightarrow> (Inl e, R)
      | Inr parsed \<Rightarrow>
          (case authorize R c of
             Authorized a p \<Rightarrow>
               (Inr PvRecorded,
                R\<lparr>rs_operations := map_set (cl_executionAttemptId c)
                     (p\<lparr>op_failureCount := op_failureCount p + 1, op_lastFailure := Some parsed\<rparr>)
                     (rs_operations R)\<rparr>)
           | auth \<Rightarrow> (Inr (refuse_claim auth), R)))"

definition completeProviderOperation ::
    "'o port_env \<Rightarrow> claim \<Rightarrow> evidence \<Rightarrow> repo \<Rightarrow> provider_decision answer" where
  "completeProviderOperation E c ev R =
     (case parseEvidence E ev of
        Inl e \<Rightarrow> (Inl e, R)
      | Inr parsed \<Rightarrow>
          (case map_get (rs_attempts R) (cl_executionAttemptId c) of
             None \<Rightarrow> (Inr PvNotFound, R)
           | Some a \<Rightarrow>
               (case map_get (rs_operations R) (cl_executionAttemptId c) of
                  None \<Rightarrow> (Inr PvNotFound, R)
                | Some p \<Rightarrow>
                    if op_token p \<noteq> Some (cl_token c) \<or> op_generation p \<noteq> cl_generation c
                       \<or> op_ownerId p \<noteq> Some (cl_ownerId c)
                    then (Inr PvStale, R)
                    else if isProviderOperationResolved a p then (Inr PvAlreadyCompleted, R)
                    else if op_completionEvidence p \<noteq> None then (Inr PvEvidenceRecorded, R)
                    else (Inr (if at_settlementKind a = None then PvEvidenceRecorded else PvCompleted),
                          recordProviderCompletionEvidence p parsed R))))"

definition recordAllocation :: "claim \<Rightarrow> allocation_ref \<Rightarrow> repo \<Rightarrow> provider_decision answer" where
  "recordAllocation c ref R = applyAllocation c ref True R"

definition recordDiscoveredAllocation :: "claim \<Rightarrow> allocation_ref \<Rightarrow> repo \<Rightarrow> provider_decision answer" where
  "recordDiscoveredAllocation c ref R = applyAllocation c ref False R"

definition evolveAllocationRef ::
    "claim \<Rightarrow> string \<Rightarrow> allocation_ref \<Rightarrow> allocation_ref \<Rightarrow> repo \<Rightarrow> provider_decision answer" where
  "evolveAllocationRef c executionId current next R =
     (case parseAllocationRefEvolution current next of
        Inl e \<Rightarrow> (Inl e, R)
      | Inr (currentRef, nextRef) \<Rightarrow>
          (case authorize R c of
             AuthStale a \<Rightarrow> (Inr (PvStaleWith (at_allocationRef a)), R)
           | Authorized a p \<Rightarrow>
               if at_executionId a \<noteq> executionId then (Inr PvNotFound, R)
               else (case at_allocationRef a of
                       None \<Rightarrow> (Inr PvNotAllocated, R)
                     | Some stored \<Rightarrow>
                         if \<not> sameAllocationRef stored currentRef then (Inr (PvStaleWith (Some stored)), R)
                         else (Inr PvEvolved, put_attempt (a\<lparr>at_allocationRef := Some nextRef\<rparr>) R))
           | auth \<Rightarrow> (Inr (refuse_claim auth), R)))"

text \<open>Positive absence: settle the attempt when nothing settled it, and complete the operation.\<close>

definition close_unallocated :: "attempt \<Rightarrow> operation \<Rightarrow> evidence \<Rightarrow> repo \<Rightarrow> provider_decision answer" where
  "close_unallocated a p ev R =
     (if at_settlementKind a = None
      then (Inr PvRecorded,
            recordProviderCompletionEvidence p ev (put_attempt (settleAttempt ByAbandonment a) R))
      else (Inr PvCompleted, recordProviderCompletionEvidence p ev R))"

definition recordProvisioningAbsent ::
    "'o port_env \<Rightarrow> claim \<Rightarrow> string \<Rightarrow> evidence \<Rightarrow> repo \<Rightarrow> provider_decision answer" where
  "recordProvisioningAbsent E c executionId ev R =
     (case parseEvidence E ev of
        Inl e \<Rightarrow> (Inl e, R)
      | Inr parsed \<Rightarrow>
          (case authorize R c of
             Authorized a p \<Rightarrow>
               if at_executionId a \<noteq> executionId then (Inr PvNotFound, R)
               else (case at_allocationRef a of
                       Some r \<Rightarrow> (Inr (PvAllocated r), R)
                     | None \<Rightarrow> close_unallocated a p parsed R)
           | auth \<Rightarrow> (Inr (refuse_claim auth), R)))"

definition recordProvisionerIncarnationLost ::
    "'o port_env \<Rightarrow> claim \<Rightarrow> string \<Rightarrow> loss_proof \<Rightarrow> repo \<Rightarrow> provider_decision answer" where
  "recordProvisionerIncarnationLost E c executionId proof R =
     (case parseEvidence E (lp_evidence proof) of
        Inl e \<Rightarrow> (Inl e, R)
      | Inr parsed \<Rightarrow>
          (case authorize R c of
             Authorized a p \<Rightarrow>
               (case evaluateProvisionerIncarnationLoss a executionId proof of
                  Some refusal \<Rightarrow> (Inr refusal, R)
                | None \<Rightarrow> close_unallocated a p parsed R)
           | auth \<Rightarrow> (Inr (refuse_claim auth), R)))"

definition recordAllocationTerminated ::
    "'o port_env \<Rightarrow> claim \<Rightarrow> evidence \<Rightarrow> repo \<Rightarrow> provider_decision answer" where
  "recordAllocationTerminated E c ev R =
     (case parseEvidence E ev of
        Inl e \<Rightarrow> (Inl e, R)
      | Inr parsed \<Rightarrow>
          (case authorize R c of
             Authorized a p \<Rightarrow>
               if at_allocationRef a = None then (Inr PvNotAllocated, R)
               else (Inr PvRecorded,
                     put_operation (p\<lparr>op_obligation := TerminalConvergence,
                                      op_lastFailure := Some parsed\<rparr>) R)
           | auth \<Rightarrow> (Inr (refuse_claim auth), R)))"

definition recordInfrastructureFailure :: "claim \<Rightarrow> string \<Rightarrow> repo \<Rightarrow> provider_decision answer" where
  "recordInfrastructureFailure c executionId R =
     (case authorize R c of
        Authorized a p \<Rightarrow>
          if at_executionId a \<noteq> executionId then (Inr PvNotFound, R)
          else if at_settlementKind a \<noteq> None then (Inr PvResolved, R)
          else if at_allocationRef a = None then (Inr PvNotAllocated, R)
          else if op_obligation p \<noteq> TerminalConvergence then (Inr PvNotTerminated, R)
          else (Inr PvRecorded, put_attempt (settleAttempt ByInfrastructureFailure a) R)
      | auth \<Rightarrow> (Inr (refuse_claim auth), R))"

section \<open>Runtime and operation control\<close>

text \<open>The attempt a request names, when it belongs to the owner the request names.\<close>

definition owned_attempt :: "repo \<Rightarrow> string \<Rightarrow> string \<Rightarrow> attempt option" where
  "owned_attempt R executionId executionAttemptId =
     (case map_get (rs_attempts R) executionAttemptId of
        None \<Rightarrow> None
      | Some a \<Rightarrow> if at_executionId a \<noteq> executionId then None else Some a)"

definition registerRuntime :: "register_input \<Rightarrow> repo \<Rightarrow> runtime_decision answer" where
  "registerRuntime input R =
     (case owned_attempt R (ri_executionId input) (ri_executionAttemptId input) of
        None \<Rightarrow> (Inr RtNotFound, R)
      | Some a \<Rightarrow>
          (case (case runtimeReachability R a of
                   Some d \<Rightarrow> Some d
                 | None \<Rightarrow> evaluateRuntimeRegistration a input) of
             Some refusal \<Rightarrow> (Inr refusal, R)
           | None \<Rightarrow>
               let runtimeGeneration = cs_runtimeGeneration a + 1 in
               (Inr (RtRegistered runtimeGeneration),
                put_attempt
                  (clearActive (a\<lparr>cs_runtimeGeneration := runtimeGeneration,
                                  cs_runtimeIncarnationId := Some (ri_runtimeIncarnationId input),
                                  cs_runtimeReadyAt := None\<rparr>)) R)))"

definition admitOperation ::
    "admit_input \<Rightarrow> string \<Rightarrow> instant \<Rightarrow> repo \<Rightarrow> runtime_decision answer" where
  "admitOperation input uuid now R =
     (case owned_attempt R (ai_executionId input) (ai_executionAttemptId input) of
        None \<Rightarrow> (Inr RtNotFound, R)
      | Some a \<Rightarrow>
          (case runtimeReachability R a of
             Some unreachable \<Rightarrow> (Inr unreachable, R)
           | None \<Rightarrow>
               (case evaluateOperationAdmission a input now (at_instruction a)
                       (at_preparationReceipts a) of
                  Some refusal \<Rightarrow> (Inr refusal, R)
                | None \<Rightarrow>
                    (Inr (RtAdmitted uuid (cs_runtimeGeneration a) now),
                     put_attempt
                       (a\<lparr>cs_activeOperationId := Some uuid,
                          cs_activeOperationKind := Some (ai_operationKind input),
                          cs_activeOperationKey := Some (ai_admissionKey input),
                          cs_activeOperationGeneration := Some (cs_runtimeGeneration a),
                          cs_activeOperationAdmittedAt := Some now\<rparr>) R))))"

definition getInstruction :: "string \<Rightarrow> string \<Rightarrow> repo \<Rightarrow> instruction option" where
  "getInstruction executionId executionAttemptId R =
     map_option at_instruction (owned_attempt R executionId executionAttemptId)"

definition reportOperation :: "report_input \<Rightarrow> repo \<Rightarrow> runtime_decision answer" where
  "reportOperation input R =
     (case parsePreparationResult (rp_result input) of
        Inl e \<Rightarrow> (Inl e, R)
      | Inr result \<Rightarrow>
          (case owned_attempt R (rp_executionId input) (rp_executionAttemptId input) of
             None \<Rightarrow> (Inr RtNotFound, R)
           | Some a \<Rightarrow>
               (case evaluatePreparationReport
                       \<lparr>rc_matchesExecution = True,
                        rc_settled = (at_settlementKind a \<noteq> None),
                        rc_active = is_active R (rp_executionId input) (rp_executionAttemptId input),
                        rc_allocated = (at_allocationRef a \<noteq> None
                                        \<and> \<not> allocationTerminated R (rp_executionAttemptId input))\<rparr>
                       a (at_instruction a) (at_preparationReceipts a)
                       (input\<lparr>rp_result := result\<rparr>) of
                  Some refusal \<Rightarrow> (Inr refusal, R)
                | None \<Rightarrow>
                    (case parsePreparationReceipts
                            (at_preparationReceipts a
                             @ [\<lparr>pr_operationId = rp_operationId input,
                                 pr_runtimeGeneration = rp_runtimeGeneration input,
                                 pr_result = result\<rparr>]) of
                       Inl e \<Rightarrow> (Inl e, R)
                     | Inr receipts \<Rightarrow>
                         (Inr (RtAccepted result),
                          R\<lparr>rs_attempts := map_set (rp_executionAttemptId input)
                             ((clearActive (a\<lparr>at_preparationReceipts := receipts\<rparr>))
                                \<lparr>cs_lastCompletedOperationId := Some (rp_operationId input)\<rparr>)
                             (rs_attempts R)\<rparr>)))))"

definition completeOperation :: "complete_input \<Rightarrow> repo \<Rightarrow> runtime_decision answer" where
  "completeOperation input R =
     (case map_get (rs_attempts R) (co_executionAttemptId input) of
        None \<Rightarrow> (Inr RtNotFound, R)
      | Some a \<Rightarrow>
          if at_settlementKind a \<noteq> None then (Inr RtResolved, R)
          else (case evaluateOperationCompletion a input of
                  Some refusal \<Rightarrow> (Inr refusal, R)
                | None \<Rightarrow>
                    (Inr RtCompleted,
                     put_attempt
                       ((clearActive a)\<lparr>cs_lastCompletedOperationId := Some (co_operationId input)\<rparr>) R)))"

definition markRuntimeReady :: "'o port_env \<Rightarrow> ready_input \<Rightarrow> repo \<Rightarrow> runtime_decision answer" where
  "markRuntimeReady E input R =
     (case normalizeInstant E (rd_readyAt input) of
        Inl e \<Rightarrow> (Inl e, R)
      | Inr acceptedAt \<Rightarrow>
          (case owned_attempt R (rd_executionId input) (rd_executionAttemptId input) of
             None \<Rightarrow> (Inr RtNotFound, R)
           | Some a \<Rightarrow>
               (case (case runtimeReachability R a of
                        Some d \<Rightarrow> Some d
                      | None \<Rightarrow> evaluateRuntimeReadiness a input) of
                  Some refusal \<Rightarrow> (Inr refusal, R)
                | None \<Rightarrow>
                    (Inr (RtReady acceptedAt),
                     put_attempt (a\<lparr>cs_runtimeReadyAt := Some acceptedAt\<rparr>) R))))"

definition getAttemptControlState :: "string \<Rightarrow> repo \<Rightarrow> control_state option" where
  "getAttemptControlState executionAttemptId R =
     map_option toAttemptControlState (map_get (rs_attempts R) executionAttemptId)"

section \<open>Cancellation\<close>

definition snapshotRequestExecutionCancellationInput :: "string \<Rightarrow> attempt_error + unit" where
  "snapshotRequestExecutionCancellationInput executionId = requireIdentity executionId ''executionId''"

definition snapshotRequestAttemptCancellationInput ::
    "string \<Rightarrow> string \<Rightarrow> string \<Rightarrow> attempt_error + unit" where
  "snapshotRequestAttemptCancellationInput executionId executionAttemptId requestKey =
     (case requireIdentity executionAttemptId ''executionAttemptId'' of
        Inl e \<Rightarrow> Inl e
      | Inr _ \<Rightarrow> (case requireIdentity requestKey ''requestKey'' of
                    Inl e \<Rightarrow> Inl e
                  | Inr _ \<Rightarrow> snapshotRequestExecutionCancellationInput executionId))"

definition close_gate :: "attempt \<Rightarrow> attempt" where
  "close_gate a = a\<lparr>cs_operationStartGate := GateClosed\<rparr>"

definition requestAttemptCancellation ::
    "string \<Rightarrow> string \<Rightarrow> string \<Rightarrow> string option \<Rightarrow> instant \<Rightarrow> repo \<Rightarrow> cancellation_decision answer" where
  "requestAttemptCancellation executionId executionAttemptId requestKey reason now R =
     (case snapshotRequestAttemptCancellationInput executionId executionAttemptId requestKey of
        Inl e \<Rightarrow> (Inl e, R)
      | Inr _ \<Rightarrow>
          (case owned_attempt R executionId executionAttemptId of
             None \<Rightarrow> (Inr CnNotFound, R)
           | Some a \<Rightarrow>
               (case evaluateAttemptCancellation (map_get (rs_cancellations R) executionAttemptId)
                       requestKey reason now of
                  CnConflict \<Rightarrow> (Inr CnConflict, R)
                | CnNotFound \<Rightarrow> (Inr CnNotFound, R)
                | CnAccepted intent \<Rightarrow>
                    (Inr (CnAccepted intent),
                     R\<lparr>rs_cancellations := map_set executionAttemptId intent (rs_cancellations R),
                       rs_attempts := map_set executionAttemptId (close_gate a) (rs_attempts R)\<rparr>)
                | CnReplayed intent \<Rightarrow>
                    (Inr (CnReplayed intent),
                     R\<lparr>rs_cancellations := map_set executionAttemptId intent (rs_cancellations R),
                       rs_attempts := map_set executionAttemptId (close_gate a) (rs_attempts R)\<rparr>))))"

text \<open>The owner fan-out: every decision is made before the first row is written.\<close>

definition cancel_row :: "string \<times> attempt \<times> cancellation_intent \<Rightarrow> repo \<Rightarrow> repo" where
  "cancel_row row R =
     (case row of (i, a, intent) \<Rightarrow>
        R\<lparr>rs_cancellations := map_set i intent (rs_cancellations R),
          rs_attempts := map_set i (close_gate a) (rs_attempts R)\<rparr>)"

fun cancellation_rows ::
    "repo \<Rightarrow> string \<Rightarrow> string option \<Rightarrow> instant \<Rightarrow> (string \<times> attempt) list
     \<Rightarrow> attempt_error + (string \<times> attempt \<times> cancellation_intent) list" where
  "cancellation_rows R key reason now [] = Inr []"
| "cancellation_rows R key reason now ((i, a) # rest) =
     (case evaluateAttemptCancellation (map_get (rs_cancellations R) i) key reason now of
        CnAccepted intent \<Rightarrow> map_sum id ((#) (i, a, intent)) (cancellation_rows R key reason now rest)
      | CnReplayed intent \<Rightarrow> map_sum id ((#) (i, a, intent)) (cancellation_rows R key reason now rest)
      | _ \<Rightarrow> Inl ConflictingGeneratedKey)"

definition requestCancellation ::
    "string \<Rightarrow> string option \<Rightarrow> string \<Rightarrow> instant \<Rightarrow> repo \<Rightarrow> unit answer" where
  "requestCancellation executionId reason uuid now R =
     (case snapshotRequestExecutionCancellationInput executionId of
        Inl e \<Rightarrow> (Inl e, R)
      | Inr _ \<Rightarrow>
          (case cancellation_rows R uuid reason now
                  (filter (\<lambda>(_, a). at_executionId a = executionId) (rs_attempts R)) of
             Inl e \<Rightarrow> (Inl e, R)
           | Inr rows \<Rightarrow> (Inr (), fold cancel_row rows R)))"

definition readCancellation :: "string \<Rightarrow> repo \<Rightarrow> cancellation_intent option" where
  "readCancellation executionAttemptId R = map_get (rs_cancellations R) executionAttemptId"

section \<open>Control evidence\<close>

definition evidence_key :: "int \<Rightarrow> int \<Rightarrow> string" where
  "evidence_key controlRevision runtimeGeneration =
     int_text controlRevision @ CHR '':'' # int_text runtimeGeneration"

definition attempt_facts :: "repo \<Rightarrow> string \<Rightarrow> (string, control_evidence) js_map" where
  "attempt_facts R i = (case map_get (rs_controlEvidence R) i of None \<Rightarrow> [] | Some m \<Rightarrow> m)"

record cancellation_control =
  cx_control :: control_state
  cx_cancellation :: "cancellation_intent option"
  cx_evidence :: "control_evidence list"

definition readAttemptCancellationControl ::
    "string \<Rightarrow> string \<Rightarrow> repo \<Rightarrow> cancellation_control option" where
  "readAttemptCancellationControl executionId executionAttemptId R =
     map_option (\<lambda>a.
       \<lparr>cx_control = toAttemptControlState a,
        cx_cancellation = map_get (rs_cancellations R) executionAttemptId,
        cx_evidence =
          js_sort (\<lambda>x y. let d = ce_controlRevision x - ce_controlRevision y in
                         if d \<noteq> 0 then d else ce_runtimeGeneration x - ce_runtimeGeneration y)
            (map snd (attempt_facts R executionAttemptId))\<rparr>)
       (owned_attempt R executionId executionAttemptId)"

definition put_fact :: "string \<Rightarrow> string \<Rightarrow> control_evidence \<Rightarrow> repo \<Rightarrow> repo" where
  "put_fact i key e R =
     R\<lparr>rs_controlEvidence :=
          map_set i (map_set key e (attempt_facts R i)) (rs_controlEvidence R)\<rparr>"

definition recordAttemptControlReceipt ::
    "'o port_env \<Rightarrow> string \<Rightarrow> control_receipt \<Rightarrow> repo \<Rightarrow> evidence_decision answer" where
  "recordAttemptControlReceipt E executionId receipt R =
     (case requireIdentity executionId ''executionId'' of
        Inl e \<Rightarrow> (Inl e, R)
      | Inr _ \<Rightarrow>
          if \<not> control_receipt_ok E receipt then (Inl (SchemaViolation ''receipt''), R)
          else
            let i = cc_executionAttemptId receipt;
                key = evidence_key (cc_controlRevision receipt) (cc_runtimeGeneration receipt);
                previous = map_get (attempt_facts R i) key;
                decision = evaluateAttemptControlReceipt (map_get (rs_attempts R) i)
                             (map_get (rs_cancellations R) i) (Option.bind previous ce_receipt)
                             executionId receipt in
            (Inr decision,
             if decision = EvAccepted
             then put_fact i key
                    \<lparr>ce_controlRevision = cc_controlRevision receipt,
                     ce_runtimeGeneration = cc_runtimeGeneration receipt,
                     ce_receipt = Some receipt, ce_report = Option.bind previous ce_report\<rparr> R
             else R))"

definition reportAttemptControl ::
    "'o port_env \<Rightarrow> string \<Rightarrow> control_report \<Rightarrow> repo \<Rightarrow> evidence_decision answer" where
  "reportAttemptControl E executionId report R =
     (case requireIdentity executionId ''executionId'' of
        Inl e \<Rightarrow> (Inl e, R)
      | Inr _ \<Rightarrow>
          if \<not> control_report_ok E report then (Inl (SchemaViolation ''report''), R)
          else
            let i = cc_executionAttemptId report;
                key = evidence_key (cc_controlRevision report) (cc_runtimeGeneration report);
                previous = map_get (attempt_facts R i) key;
                decision = evaluateAttemptControlReport (map_get (rs_attempts R) i)
                             (map_get (rs_cancellations R) i) (Option.bind previous ce_report)
                             executionId report in
            (Inr decision,
             if decision = EvAccepted
             then put_fact i key
                    \<lparr>ce_controlRevision = cc_controlRevision report,
                     ce_runtimeGeneration = cc_runtimeGeneration report,
                     ce_receipt = Option.bind previous ce_receipt, ce_report = Some report\<rparr> R
             else R))"

section \<open>Outcomes and settlement\<close>

definition getActiveAttempt :: "string \<Rightarrow> string \<Rightarrow> repo \<Rightarrow> attempt option" where
  "getActiveAttempt executionId executionAttemptId R =
     (if \<not> is_active R executionId executionAttemptId then None
      else map_get (rs_attempts R) executionAttemptId)"

datatype 'o outcome_decision =
    OcAccepted 'o string outcome_observation
  | OcDuplicate 'o string "outcome_observation option"
  | OcConflict
  | OcFenced

record 'o commit_input =
  cm_executionId :: string
  cm_executionAttemptId :: string
  cm_result :: "'o durable_outcome"
  cm_runtimeFence :: "outcome_fence option"

definition replay_outcome ::
    "'o port_env \<Rightarrow> string \<Rightarrow> string \<Rightarrow> outcome_observation option \<Rightarrow> attempt_error + 'o outcome_decision" where
  "replay_outcome E storedText text observation =
     (case decodeDurableOutcome E storedText of
        Inl e \<Rightarrow> Inl e
      | Inr committed \<Rightarrow>
          map_sum id (\<lambda>same. if same then OcDuplicate committed storedText observation else OcConflict)
            (sameDurableOutcome E storedText text))"

definition commitOutcome :: "'o port_env \<Rightarrow> 'o commit_input \<Rightarrow> repo \<Rightarrow> 'o outcome_decision answer" where
  "commitOutcome E input R =
     (let i = cm_executionAttemptId input; submission = cm_result input in
      if \<not> is_active R (cm_executionId input) i then (Inr OcFenced, R)
      else case map_get (rs_attempts R) i of
        None \<Rightarrow> (Inr OcFenced, R)
      | Some a \<Rightarrow>
          (case map_get (rs_committedOutcomes R) i of
             Some storedText \<Rightarrow>
               (replay_outcome E storedText (du_text submission)
                  (map_get (rs_outcomeControlObservations R) i), R)
           | None \<Rightarrow>
               if at_settlementKind a \<noteq> None then (Inr OcConflict, R)
               else (case assertRuntimeOutcomeFence a (cm_runtimeFence input) of
                 Inl e \<Rightarrow> (Inl e, R)
               | Inr _ \<Rightarrow>
                   let observation = snapshotAttemptOutcomeControl (map_get (rs_cancellations R) i);
                       R1 = R\<lparr>rs_committedOutcomes := map_set i (du_text submission) (rs_committedOutcomes R),
                              rs_outcomeControlObservations :=
                                map_set i observation (rs_outcomeControlObservations R),
                              rs_attempts := map_set i (settleAttempt ByOutcome a) (rs_attempts R)\<rparr> in
                   (map_sum id (\<lambda>o'. OcAccepted o' (du_text submission) observation)
                      (decodeDurableOutcome E (du_text submission)), R1))))"

definition abandonPendingAttempt :: "string \<Rightarrow> string \<Rightarrow> repo \<Rightarrow> provider_decision answer" where
  "abandonPendingAttempt executionAttemptId executionId R =
     (if \<not> is_active R executionId executionAttemptId then (Inr PvFenced, R)
      else case map_get (rs_attempts R) executionAttemptId of
        None \<Rightarrow> (Inr PvFenced, R)
      | Some a \<Rightarrow>
          (case at_status a of
             AttAllocated \<Rightarrow> (Inr PvIsAllocated, R)
           | AttProvisioning \<Rightarrow> (Inr PvIsProvisioning, R)
           | AttSettled \<Rightarrow>
               (Inr (if at_settlementKind a = Some ByAbandonment then PvAlreadyAbandoned
                     else PvAlreadySettled), R)
           | AttPending \<Rightarrow>
               (Inr PvAbandoned,
                R\<lparr>rs_attempts := map_set executionAttemptId (settleAttempt ByAbandonment a)
                     (rs_attempts R)\<rparr>)))"

section \<open>Recovery listings\<close>

definition recovery_selected :: "string \<Rightarrow> instant \<Rightarrow> attempt \<Rightarrow> bool" where
  "recovery_selected executionId now a \<longleftrightarrow>
     at_executionId a = executionId \<and> at_status a = AttAllocated \<and> at_allocationRef a \<noteq> None
     \<and> at_claimable a \<and> at_settlementKind a = None
     \<and> (case at_claimExpiresAt a of None \<Rightarrow> True | Some t \<Rightarrow> \<not> t < now)"

fun narrow_all :: "attempt list \<Rightarrow> attempt_error + attempt list" where
  "narrow_all [] = Inr []"
| "narrow_all (a # as) =
     (case toRecoverableAttempt a of
        Inl e \<Rightarrow> Inl e
      | Inr r \<Rightarrow> map_sum id ((#) r) (narrow_all as))"

definition getRecoverableAttempts :: "string \<Rightarrow> instant \<Rightarrow> repo \<Rightarrow> attempt_error + attempt list" where
  "getRecoverableAttempts executionId now R =
     map_sum id (js_sort compareRecoveryOrder)
       (narrow_all (filter (recovery_selected executionId now) (map snd (rs_attempts R))))"

definition open_operation :: "instant \<Rightarrow> repo \<Rightarrow> operation \<Rightarrow> (attempt \<times> operation) list" where
  "open_operation observedAt R p =
     (case map_get (rs_attempts R) (op_executionAttemptId p) of
        None \<Rightarrow> []
      | Some a \<Rightarrow>
          if isProviderOperationResolved a p \<or> held_at observedAt p then [] else [(a, p)])"

definition listOpenProviderOperations ::
    "'o port_env \<Rightarrow> string \<Rightarrow> int \<Rightarrow> repo \<Rightarrow> attempt_error + (attempt \<times> operation) list" where
  "listOpenProviderOperations E observedAt limit R =
     (if \<not> positive_int limit then Inl (RangeErr ''limit must be a positive safe integer'')
      else map_sum id
             (\<lambda>t. take (nat limit)
                    (js_sort (\<lambda>x y. compareRecoveryOrder (fst x) (fst y))
                       (concat (map (open_operation t R) (map snd (rs_operations R))))))
             (instantOf E observedAt))"

end
