(* ===== verification/Attempt_Invariant.thy ===== *)
theory Attempt_Invariant
  imports Attempt_Repository
begin

text \<open>
  The well-formedness of a repository state and the history order between two states: what never
  changes, and what only moves forward. Every operation changes the row of one attempt (and its
  provider operation), so both are proved through one lemma on such a write.
\<close>

section \<open>A well-formed attempt\<close>

definition idle_or_active :: "'z control_state_scheme \<Rightarrow> bool" where
  "idle_or_active c \<longleftrightarrow>
     (cs_activeOperationId c = None \<longleftrightarrow> cs_activeOperationKind c = None)
     \<and> (cs_activeOperationId c = None \<longleftrightarrow> cs_activeOperationKey c = None)
     \<and> (cs_activeOperationId c = None \<longleftrightarrow> cs_activeOperationAdmittedAt c = None)
     \<and> cs_activeOperationGeneration c
        = (if cs_activeOperationId c = None then None else Some (cs_runtimeGeneration c))"

definition control_ok :: "'z control_state_scheme \<Rightarrow> bool" where
  "control_ok c \<longleftrightarrow>
     idle_or_active c \<and> 0 \<le> cs_runtimeGeneration c
     \<and> (cs_runtimeGeneration c = 0 \<longleftrightarrow> cs_runtimeIncarnationId c = None)
     \<and> (cs_runtimeReadyAt c = None \<longrightarrow> cs_activeOperationKind c \<in> {None, Some RuntimeProbe})"

definition preparation_ok :: "attempt \<Rightarrow> bool" where
  "preparation_ok a \<longleftrightarrow>
     distinct (map pr_runtimeGeneration (at_preparationReceipts a))
     \<and> distinct (map pr_operationId (at_preparationReceipts a))
     \<and> (\<forall>r \<in> set (at_preparationReceipts a).
           receipt_ok r \<and> pr_runtimeGeneration r \<le> cs_runtimeGeneration a)
     \<and> (cs_activeOperationKind a = Some WorkspacePreparation \<longrightarrow>
           requires_preparation (at_instruction a)
           \<and> \<not> prepared_for (cs_runtimeGeneration a) (at_preparationReceipts a))
     \<and> (cs_activeOperationKind a \<in> {Some WorkloadInvocation, Some WorkflowRun} \<longrightarrow>
           requires_preparation (at_instruction a) \<longrightarrow>
           prepared_for (cs_runtimeGeneration a) (at_preparationReceipts a))"

definition bound_provider :: "attempt \<Rightarrow> bool" where
  "bound_provider a \<longleftrightarrow>
     at_providerId a \<noteq> None \<and> at_allocationLifetime a \<noteq> None \<and> at_provisionerIncarnationId a \<noteq> None"

definition lifecycle_ok :: "attempt \<Rightarrow> bool" where
  "lifecycle_ok a \<longleftrightarrow>
     (at_settlementKind a \<noteq> None \<longleftrightarrow> at_status a = AttSettled)
     \<and> (at_status a = AttSettled \<longrightarrow> cs_operationStartGate a = GateClosed)
     \<and> (at_claimable a \<longrightarrow> at_status a = AttAllocated)
     \<and> (at_status a = AttPending \<longrightarrow>
          at_providerId a = None \<and> at_allocationLifetime a = None \<and> at_provisionerIncarnationId a = None)
     \<and> (at_status a \<in> {AttPending, AttProvisioning} \<longrightarrow> at_allocationRef a = None)
     \<and> (at_status a = AttAllocated \<longrightarrow> at_allocationRef a \<noteq> None)
     \<and> (\<forall>r. at_allocationRef a = Some r \<longrightarrow>
           allocation_ref_ok r \<and> bound_provider a \<and> at_providerId a = Some (ref_providerId r))"

definition attempt_ok :: "attempt \<Rightarrow> bool" where
  "attempt_ok a \<longleftrightarrow> control_ok a \<and> preparation_ok a \<and> lifecycle_ok a"

text \<open>An operation belongs to an attempt with a provider, and its debt says what is allocated.\<close>

definition operation_ok :: "attempt \<Rightarrow> operation \<Rightarrow> bool" where
  "operation_ok a p \<longleftrightarrow>
     bound_provider a \<and> 1 \<le> op_generation p \<and> 0 \<le> op_failureCount p
     \<and> (op_obligation p = ProvisioningResolution \<longleftrightarrow> at_allocationRef a = None)
     \<and> (op_ownerId p = None \<longleftrightarrow> op_token p = None)
     \<and> (op_ownerId p = None \<longleftrightarrow> op_leaseExpiresAt p = None)"

section \<open>A well-formed repository\<close>

definition attempts_inv :: "repo \<Rightarrow> bool" where
  "attempts_inv R \<longleftrightarrow>
     map_wf (rs_attempts R) \<and> map_wf (rs_operations R)
     \<and> (\<forall>i a. map_get (rs_attempts R) i = Some a \<longrightarrow> at_executionAttemptId a = i \<and> attempt_ok a)"

definition operations_inv :: "repo \<Rightarrow> bool" where
  "operations_inv R \<longleftrightarrow>
     (\<forall>i p. map_get (rs_operations R) i = Some p \<longrightarrow>
        op_executionAttemptId p = i
        \<and> (\<exists>a. map_get (rs_attempts R) i = Some a \<and> operation_ok a p))
     \<and> (\<forall>i a. map_get (rs_attempts R) i = Some a \<longrightarrow> at_allocationRef a \<noteq> None \<longrightarrow>
          map_get (rs_operations R) i \<noteq> None)
     \<and> (\<forall>i a. map_get (rs_attempts R) i = Some a \<longrightarrow>
          at_settlementKind a = Some ByInfrastructureFailure \<longrightarrow> allocationTerminated R i)"

definition outcomes_inv :: "repo \<Rightarrow> bool" where
  "outcomes_inv R \<longleftrightarrow>
     (\<forall>i. map_get (rs_committedOutcomes R) i \<noteq> None \<longleftrightarrow>
          (\<exists>a. map_get (rs_attempts R) i = Some a \<and> at_settlementKind a = Some ByOutcome))
     \<and> (\<forall>i. map_get (rs_outcomeControlObservations R) i = None \<longleftrightarrow>
            map_get (rs_committedOutcomes R) i = None)"

definition owners_inv :: "repo \<Rightarrow> bool" where
  "owners_inv R \<longleftrightarrow>
     (\<forall>e i. is_active R e i \<longrightarrow> (\<exists>a. map_get (rs_attempts R) i = Some a \<and> at_executionId a = e))
     \<and> (\<forall>i a. map_get (rs_attempts R) i = Some a \<longrightarrow>
          is_active R (at_executionId a) i
          \<or> (cs_operationStartGate a = GateClosed \<and> \<not> at_claimable a))
     \<and> (\<forall>e k i. map_get (owner_bindings R e) k = Some i \<longrightarrow>
          (\<exists>a. map_get (rs_attempts R) i = Some a \<and> at_executionId a = e))
     \<and> (\<forall>i c. map_get (rs_cancellations R) i = Some c \<longrightarrow>
          ci_controlRevision c = 1
          \<and> (\<exists>a. map_get (rs_attempts R) i = Some a \<and> cs_operationStartGate a = GateClosed))"

definition repo_inv :: "repo \<Rightarrow> bool" where
  "repo_inv R \<longleftrightarrow> attempts_inv R \<and> operations_inv R \<and> outcomes_inv R \<and> owners_inv R"

section \<open>The history order\<close>

fun status_rank :: "attempt_status \<Rightarrow> int" where
  "status_rank AttPending = 0"
| "status_rank AttProvisioning = 1"
| "status_rank AttAllocated = 2"
| "status_rank AttSettled = 3"

definition kept :: "'a option \<Rightarrow> 'a option \<Rightarrow> bool" where
  "kept x y \<longleftrightarrow> x = None \<or> y = x"

definition attempt_le :: "attempt \<Rightarrow> attempt \<Rightarrow> bool" where
  "attempt_le a b \<longleftrightarrow>
     at_executionAttemptId b = at_executionAttemptId a \<and> at_executionId b = at_executionId a
     \<and> at_instruction b = at_instruction a \<and> at_createdAt b = at_createdAt a
     \<and> at_bootstrapDeadlineAt b = at_bootstrapDeadlineAt a
     \<and> at_claimExpiresAt b = at_claimExpiresAt a
     \<and> kept (at_providerId a) (at_providerId b)
     \<and> kept (at_allocationLifetime a) (at_allocationLifetime b)
     \<and> kept (at_provisionerIncarnationId a) (at_provisionerIncarnationId b)
     \<and> kept (at_settlementKind a) (at_settlementKind b)
     \<and> kept (map_option ref_providerId (at_allocationRef a))
             (map_option ref_providerId (at_allocationRef b))
     \<and> status_rank (at_status a) \<le> status_rank (at_status b)
     \<and> (cs_operationStartGate a = GateClosed \<longrightarrow> cs_operationStartGate b = GateClosed)
     \<and> cs_runtimeGeneration a \<le> cs_runtimeGeneration b
     \<and> (cs_runtimeGeneration a = cs_runtimeGeneration b \<longrightarrow>
          cs_runtimeIncarnationId a = cs_runtimeIncarnationId b
          \<and> kept (cs_runtimeReadyAt a) (cs_runtimeReadyAt b))
     \<and> (\<exists>new. at_preparationReceipts b = at_preparationReceipts a @ new)"

definition operation_le :: "operation \<Rightarrow> operation \<Rightarrow> bool" where
  "operation_le p q \<longleftrightarrow>
     op_executionAttemptId q = op_executionAttemptId p
     \<and> op_generation p \<le> op_generation q \<and> op_failureCount p \<le> op_failureCount q
     \<and> obligation_rank (op_obligation p) \<le> obligation_rank (op_obligation q)
     \<and> kept (op_completionEvidence p) (op_completionEvidence q)
     \<and> (op_generation p = op_generation q \<longrightarrow>
          op_token q \<in> {None, op_token p} \<and> op_ownerId q \<in> {None, op_ownerId p})"

definition map_extends :: "('k, 'v) js_map \<Rightarrow> ('k, 'v) js_map \<Rightarrow> bool" where
  "map_extends m m' \<longleftrightarrow> (\<forall>k v. map_get m k = Some v \<longrightarrow> map_get m' k = Some v)"

definition repo_le :: "repo \<Rightarrow> repo \<Rightarrow> bool" where
  "repo_le R S \<longleftrightarrow>
     (\<forall>i a. map_get (rs_attempts R) i = Some a \<longrightarrow>
        (\<exists>b. map_get (rs_attempts S) i = Some b \<and> attempt_le a b))
     \<and> (\<forall>i p. map_get (rs_operations R) i = Some p \<longrightarrow>
        (\<exists>q. map_get (rs_operations S) i = Some q \<and> operation_le p q))
     \<and> map_extends (rs_committedOutcomes R) (rs_committedOutcomes S)
     \<and> map_extends (rs_outcomeControlObservations R) (rs_outcomeControlObservations S)
     \<and> map_extends (rs_cancellations R) (rs_cancellations S)
     \<and> (\<forall>e. map_extends (owner_bindings R e) (owner_bindings S e))"

definition preserves :: "repo \<Rightarrow> repo \<Rightarrow> bool" where
  "preserves R S \<longleftrightarrow> repo_inv S \<and> repo_le R S"

lemma kept_refl [simp]: "kept x x"
  by (simp add: kept_def)

lemma kept_None [simp]: "kept None y"
  by (simp add: kept_def)

lemma kept_Some [simp]: "kept (Some x) y \<longleftrightarrow> y = Some x"
  by (auto simp: kept_def)

lemma kept_trans: "kept x y \<Longrightarrow> kept y z \<Longrightarrow> kept x z"
  by (auto simp: kept_def)

lemma attempt_le_refl [simp]: "attempt_le a a"
  by (simp add: attempt_le_def)

lemma attempt_le_trans: "attempt_le a b \<Longrightarrow> attempt_le b c \<Longrightarrow> attempt_le a c"
  unfolding attempt_le_def by (auto intro: kept_trans)

lemma operation_le_refl [simp]: "operation_le p p"
  by (simp add: operation_le_def)

lemma operation_le_trans: "operation_le p q \<Longrightarrow> operation_le q r \<Longrightarrow> operation_le p r"
  unfolding operation_le_def by (auto intro: kept_trans)

lemma map_extends_refl [simp]: "map_extends m m"
  by (simp add: map_extends_def)

lemma map_extends_trans: "map_extends m m' \<Longrightarrow> map_extends m' m'' \<Longrightarrow> map_extends m m''"
  by (simp add: map_extends_def)

lemma repo_le_refl [simp]: "repo_le R R"
  by (auto simp: repo_le_def)

lemma repo_le_trans: "repo_le R S \<Longrightarrow> repo_le S T \<Longrightarrow> repo_le R T"
  unfolding repo_le_def
  by (meson attempt_le_trans operation_le_trans map_extends_trans)

lemma preserves_refl [simp]: "preserves R R \<longleftrightarrow> repo_inv R"
  by (simp add: preserves_def)

lemma preserves_trans: "preserves R S \<Longrightarrow> (repo_inv S \<Longrightarrow> preserves S T) \<Longrightarrow> preserves R T"
  by (auto simp: preserves_def intro: repo_le_trans)

section \<open>One write\<close>

lemmas repo_inv_defs = repo_inv_def attempts_inv_def operations_inv_def outcomes_inv_def owners_inv_def

lemma inv_attempt:
  "repo_inv R \<Longrightarrow> map_get (rs_attempts R) i = Some a \<Longrightarrow>
     at_executionAttemptId a = i \<and> attempt_ok a"
  by (simp add: repo_inv_def attempts_inv_def)

lemma inv_operation:
  "repo_inv R \<Longrightarrow> map_get (rs_operations R) i = Some p \<Longrightarrow> map_get (rs_attempts R) i = Some a \<Longrightarrow>
     op_executionAttemptId p = i \<and> operation_ok a p"
  by (fastforce simp: repo_inv_def operations_inv_def)

lemma inv_allocated:
  "repo_inv R \<Longrightarrow> map_get (rs_attempts R) i = Some a \<Longrightarrow> at_allocationRef a \<noteq> None \<Longrightarrow>
     \<exists>p. map_get (rs_operations R) i = Some p"
  by (simp add: repo_inv_def operations_inv_def)

lemma inv_fenced:
  "repo_inv R \<Longrightarrow> map_get (rs_attempts R) i = Some a \<Longrightarrow>
     is_active R (at_executionId a) i \<or> (cs_operationStartGate a = GateClosed \<and> \<not> at_claimable a)"
  by (simp add: repo_inv_def owners_inv_def)

lemma inv_cancelled:
  "repo_inv R \<Longrightarrow> map_get (rs_cancellations R) i = Some c \<Longrightarrow>
     ci_controlRevision c = 1
     \<and> (\<exists>a. map_get (rs_attempts R) i = Some a \<and> cs_operationStartGate a = GateClosed)"
  by (simp add: repo_inv_def owners_inv_def)

lemma inv_binding:
  "repo_inv R \<Longrightarrow> map_get (owner_bindings R e) k = Some i \<Longrightarrow>
     \<exists>a. map_get (rs_attempts R) i = Some a \<and> at_executionId a = e"
  unfolding repo_inv_def owners_inv_def by blast

lemma inv_active:
  "repo_inv R \<Longrightarrow> is_active R e i \<Longrightarrow>
     \<exists>a. map_get (rs_attempts R) i = Some a \<and> at_executionId a = e"
  by (simp add: repo_inv_def owners_inv_def)

text \<open>Writing the row of one attempt, and possibly its provider operation.\<close>

definition write_row :: "string \<Rightarrow> attempt \<Rightarrow> operation option \<Rightarrow> repo \<Rightarrow> repo" where
  "write_row i a p R =
     R\<lparr>rs_attempts := map_set i a (rs_attempts R),
       rs_operations := (case p of None \<Rightarrow> rs_operations R | Some q \<Rightarrow> map_set i q (rs_operations R))\<rparr>"

lemma write_row_get [simp]:
  "map_get (rs_attempts (write_row i a p R)) j
     = (if j = i then Some a else map_get (rs_attempts R) j)"
  "map_get (rs_operations (write_row i a p R)) j
     = (if j = i \<and> p \<noteq> None then p else map_get (rs_operations R) j)"
  by (auto simp: write_row_def jm.get_put split: option.splits)

lemma write_row_frame [simp]:
  "rs_committedOutcomes (write_row i a p R) = rs_committedOutcomes R"
  "rs_outcomeControlObservations (write_row i a p R) = rs_outcomeControlObservations R"
  "rs_activeAttempts (write_row i a p R) = rs_activeAttempts R"
  "rs_requestBindings (write_row i a p R) = rs_requestBindings R"
  "rs_cancellations (write_row i a p R) = rs_cancellations R"
  "rs_controlEvidence (write_row i a p R) = rs_controlEvidence R"
  by (simp_all add: write_row_def)

lemma write_row_lookups [simp]:
  "is_active (write_row i a p R) e j = is_active R e j"
  "owner_bindings (write_row i a p R) e = owner_bindings R e"
  by (simp_all add: is_active_def owner_bindings_def)

text \<open>What a write owes to the rest of the repository.\<close>

definition row_step_ok :: "repo \<Rightarrow> string \<Rightarrow> attempt \<Rightarrow> attempt \<Rightarrow> operation option \<Rightarrow> bool" where
  "row_step_ok R i a b q \<longleftrightarrow>
     attempt_ok b \<and> attempt_le a b
     \<and> (\<forall>p'. q = Some p' \<longrightarrow>
          op_executionAttemptId p' = i \<and> operation_ok b p'
          \<and> (\<forall>p. map_get (rs_operations R) i = Some p \<longrightarrow> operation_le p p'))
     \<and> (q = None \<longrightarrow> (\<forall>p. map_get (rs_operations R) i = Some p \<longrightarrow> operation_ok b p))
     \<and> (at_allocationRef b \<noteq> None \<longrightarrow> q \<noteq> None \<or> map_get (rs_operations R) i \<noteq> None)
     \<and> (at_settlementKind b = Some ByInfrastructureFailure \<longrightarrow>
          at_settlementKind a = Some ByInfrastructureFailure \<or> allocationTerminated R i)
     \<and> (at_claimable b \<longrightarrow> at_claimable a \<or> is_active R (at_executionId a) i)"

text \<open>Only the commit of an outcome settles by an outcome.\<close>

definition row_write_ok :: "repo \<Rightarrow> string \<Rightarrow> attempt \<Rightarrow> attempt \<Rightarrow> operation option \<Rightarrow> bool" where
  "row_write_ok R i a b q \<longleftrightarrow>
     row_step_ok R i a b q
     \<and> (at_settlementKind b = Some ByOutcome \<longrightarrow> at_settlementKind a = Some ByOutcome)"

lemma obligation_rank_max: "obligation_rank TerminalConvergence \<le> obligation_rank x \<longleftrightarrow> x = TerminalConvergence"
  by (cases x) auto

lemma terminated_write:
  assumes "row_step_ok R i a b q" "allocationTerminated R j"
  shows "allocationTerminated (write_row i b q R) j"
proof -
  from assms(2) obtain p where p: "map_get (rs_operations R) j = Some p" "op_obligation p = TerminalConvergence"
    by (auto simp: allocationTerminated_def)
  show ?thesis
  proof (cases "j = i \<and> q \<noteq> None")
    case True
    then obtain p' where "q = Some p'" by auto
    with assms(1) True p have "operation_le p p'" by (auto simp: row_step_ok_def)
    with p have "op_obligation p' = TerminalConvergence"
      by (metis operation_le_def obligation_rank_max)
    with True \<open>q = Some p'\<close> show ?thesis by (simp add: allocationTerminated_def)
  next
    case False
    with p show ?thesis by (auto simp: allocationTerminated_def)
  qed
qed

lemma write_row_parts:
  assumes inv: "repo_inv R" and a: "map_get (rs_attempts R) i = Some a"
    and ok: "row_step_ok R i a b q"
  shows "attempts_inv (write_row i b q R) \<and> operations_inv (write_row i b q R)
         \<and> owners_inv (write_row i b q R)"
proof -
  let ?S = "write_row i b q R"
  have le: "attempt_le a b" and bok: "attempt_ok b" using ok by (auto simp: row_step_ok_def)
  have id: "at_executionAttemptId b = i" "at_executionId b = at_executionId a"
    using le inv_attempt [OF inv a] by (auto simp: attempt_le_def)
  have gate: "cs_operationStartGate a = GateClosed \<Longrightarrow> cs_operationStartGate b = GateClosed"
    using le by (auto simp: attempt_le_def)
  have "attempts_inv ?S"
    using inv bok id unfolding attempts_inv_def repo_inv_def
    by (auto simp: write_row_def jm.wf_put split: option.splits) (auto simp: jm.get_put split: if_splits)
  moreover have "operations_inv ?S"
    unfolding operations_inv_def
  proof (intro conjI allI impI)
    fix j p assume "map_get (rs_operations ?S) j = Some p"
    then show "op_executionAttemptId p = j"
      and "\<exists>c. map_get (rs_attempts ?S) j = Some c \<and> operation_ok c p"
      using ok inv_operation [OF inv, of j p] a inv
      by (auto simp: row_step_ok_def repo_inv_def operations_inv_def split: if_splits)
  next
    fix j c assume "map_get (rs_attempts ?S) j = Some c" "at_allocationRef c \<noteq> None"
    then show "map_get (rs_operations ?S) j \<noteq> None"
      using ok inv by (auto simp: row_step_ok_def repo_inv_def operations_inv_def split: if_splits)
  next
    fix j c assume "map_get (rs_attempts ?S) j = Some c"
      "at_settlementKind c = Some ByInfrastructureFailure"
    then have "allocationTerminated R j"
      using ok inv a by (auto simp: row_step_ok_def repo_inv_def operations_inv_def split: if_splits)
    then show "allocationTerminated ?S j" by (rule terminated_write [OF ok])
  qed
  moreover have "owners_inv ?S"
    unfolding owners_inv_def write_row_lookups write_row_frame
  proof (intro conjI allI impI)
    fix e j assume "is_active R e j"
    then show "\<exists>c. map_get (rs_attempts ?S) j = Some c \<and> at_executionId c = e"
      using inv_active [OF inv, of e j] id a by auto
  next
    fix j c assume "map_get (rs_attempts ?S) j = Some c"
    then show "is_active R (at_executionId c) j \<or> cs_operationStartGate c = GateClosed \<and> \<not> at_claimable c"
      using inv_fenced [OF inv, of j] a ok gate id by (auto simp: row_step_ok_def split: if_splits)
  next
    fix e k j assume "map_get (owner_bindings R e) k = Some j"
    then show "\<exists>c. map_get (rs_attempts ?S) j = Some c \<and> at_executionId c = e"
      using inv_binding [OF inv, of e k j] id a by auto
  next
    fix j c assume "map_get (rs_cancellations R) j = Some c"
    then show "ci_controlRevision c = 1"
      and "\<exists>c. map_get (rs_attempts ?S) j = Some c \<and> cs_operationStartGate c = GateClosed"
      using inv_cancelled [OF inv, of j c] gate a by (auto split: if_splits)
  qed
  ultimately show ?thesis by blast
qed

lemma write_row_inv:
  assumes inv: "repo_inv R" and a: "map_get (rs_attempts R) i = Some a"
    and ok: "row_write_ok R i a b q"
  shows "repo_inv (write_row i b q R)"
proof -
  let ?S = "write_row i b q R"
  have step: "row_step_ok R i a b q" using ok by (simp add: row_write_ok_def)
  have settle: "at_settlementKind b = Some ByOutcome \<longleftrightarrow> at_settlementKind a = Some ByOutcome"
  proof -
    have "kept (at_settlementKind a) (at_settlementKind b)"
      using step by (simp add: row_step_ok_def attempt_le_def)
    with ok show ?thesis by (auto simp: row_write_ok_def)
  qed
  have "(\<exists>c. map_get (rs_attempts ?S) j = Some c \<and> at_settlementKind c = Some ByOutcome)
          \<longleftrightarrow> (\<exists>c. map_get (rs_attempts R) j = Some c \<and> at_settlementKind c = Some ByOutcome)" for j
    using a settle by (cases "j = i") simp_all
  with inv have "outcomes_inv ?S"
    by (simp only: repo_inv_def outcomes_inv_def write_row_frame simp_thms)
  with write_row_parts [OF inv a step] show ?thesis by (simp add: repo_inv_def)
qed

lemma write_row_le:
  assumes "map_get (rs_attempts R) i = Some a" and "row_step_ok R i a b q"
  shows "repo_le R (write_row i b q R)"
  using assms by (auto simp: repo_le_def row_step_ok_def)

lemma write_row_preserves:
  "repo_inv R \<Longrightarrow> map_get (rs_attempts R) i = Some a \<Longrightarrow> row_write_ok R i a b q \<Longrightarrow>
     preserves R (write_row i b q R)"
  by (simp add: preserves_def write_row_inv write_row_le [of R i a] row_write_ok_def)

end
