(* ===== verification/Attempt_Laws.thy ===== *)
theory Attempt_Laws
  imports Attempt_Invariant
begin

text \<open>
  Every operation of the attempt repository keeps the state well formed and only moves it forward
  in the history order (\<open>preserves\<close>). The step relation \<open>attempt_step\<close> has one rule per operation
  that can write, and the locale \<open>guarded_history\<close> lifts the two facts to all later states.
\<close>

section \<open>Writes of one row\<close>

lemma bound_provider_le: "attempt_le a b \<Longrightarrow> bound_provider a \<Longrightarrow> bound_provider b"
  by (auto simp: attempt_le_def bound_provider_def)

lemma operation_ok_cong:
  "operation_ok a p \<Longrightarrow> attempt_le a b \<Longrightarrow> (at_allocationRef b = None \<longleftrightarrow> at_allocationRef a = None) \<Longrightarrow>
     operation_ok b p"
  using bound_provider_le [of a b] unfolding operation_ok_def by (elim conjE, intro conjI) simp_all

text \<open>A write that touches neither the allocation nor the settlement.\<close>

lemma control_write:
  assumes inv: "repo_inv R" and a: "map_get (rs_attempts R) i = Some a"
    and "attempt_ok b" and le: "attempt_le a b" and "at_settlementKind b = at_settlementKind a"
    and "at_allocationRef b = None \<longleftrightarrow> at_allocationRef a = None" and "at_claimable b \<longrightarrow> at_claimable a"
  shows "preserves R (R\<lparr>rs_attempts := map_set i b (rs_attempts R)\<rparr>)"
proof -
  have "row_write_ok R i a b None"
    unfolding row_write_ok_def row_step_ok_def
    using assms inv_operation [OF inv _ a] inv_allocated [OF inv a]
    by (auto intro: operation_ok_cong [OF _ le] simp: repo_inv_def operations_inv_def)
  from write_row_preserves [OF inv a this] show ?thesis by (simp add: write_row_def)
qed

text \<open>A write that settles the attempt otherwise than by an outcome.\<close>

lemmas control_defs = control_ok_def idle_or_active_def
lemmas lifecycle_defs = lifecycle_ok_def bound_provider_def

text \<open>The control facts do not depend on the lifecycle.\<close>

lemma part_updates [simp]:
  "control_ok (a\<lparr>at_status := s\<rparr>) = control_ok a"
  "preparation_ok (a\<lparr>at_status := s\<rparr>) = preparation_ok a"
  "control_ok (a\<lparr>at_allocationRef := r\<rparr>) = control_ok a"
  "preparation_ok (a\<lparr>at_allocationRef := r\<rparr>) = preparation_ok a"
  "control_ok (a\<lparr>at_claimable := b\<rparr>) = control_ok a"
  "preparation_ok (a\<lparr>at_claimable := b\<rparr>) = preparation_ok a"
  "control_ok (a\<lparr>at_providerId := p\<rparr>) = control_ok a"
  "preparation_ok (a\<lparr>at_providerId := p\<rparr>) = preparation_ok a"
  "control_ok (a\<lparr>at_allocationLifetime := l\<rparr>) = control_ok a"
  "preparation_ok (a\<lparr>at_allocationLifetime := l\<rparr>) = preparation_ok a"
  "control_ok (a\<lparr>at_provisionerIncarnationId := n\<rparr>) = control_ok a"
  "preparation_ok (a\<lparr>at_provisionerIncarnationId := n\<rparr>) = preparation_ok a"
  "control_ok (a\<lparr>at_settlementKind := k\<rparr>) = control_ok a"
  "preparation_ok (a\<lparr>at_settlementKind := k\<rparr>) = preparation_ok a"
  "control_ok (a\<lparr>cs_operationStartGate := g\<rparr>) = control_ok a"
  "preparation_ok (a\<lparr>cs_operationStartGate := g\<rparr>) = preparation_ok a"
  by (simp_all add: control_defs preparation_ok_def)

lemma obligation_rank_le: "obligation_rank x \<le> 2"
  by (cases x) auto

lemma settle_parts:
  "control_ok (settleAttempt k a) = control_ok a"
  "preparation_ok (settleAttempt k a) = preparation_ok a"
  "lifecycle_ok a \<Longrightarrow> lifecycle_ok (settleAttempt k a)"
  by (simp_all add: settleAttempt_def lifecycle_defs)

lemma settle_ok: "attempt_ok a \<Longrightarrow> attempt_ok (settleAttempt k a)"
  by (simp add: attempt_ok_def settle_parts)

lemma status_rank_max: "status_rank s \<le> 3"
  by (cases s) auto

lemma settle_le: "at_settlementKind a = None \<Longrightarrow> attempt_le a (settleAttempt k a)"
  by (simp add: attempt_le_def settleAttempt_def status_rank_max)

lemma settle_fields [simp]:
  "at_settlementKind (settleAttempt k a) = Some k"
  "at_allocationRef (settleAttempt k a) = at_allocationRef a"
  "at_claimable (settleAttempt k a) = False"
  "at_executionAttemptId (settleAttempt k a) = at_executionAttemptId a"
  "at_executionId (settleAttempt k a) = at_executionId a"
  "cs_operationStartGate (settleAttempt k a) = GateClosed"
  "bound_provider (settleAttempt k a) = bound_provider a"
  by (simp_all add: settleAttempt_def bound_provider_def)

lemma settle_write:
  assumes inv: "repo_inv R" and a: "map_get (rs_attempts R) i = Some a"
    and "at_settlementKind a = None" and "k \<noteq> ByOutcome"
    and "k = ByInfrastructureFailure \<longrightarrow> allocationTerminated R i"
  shows "preserves R (R\<lparr>rs_attempts := map_set i (settleAttempt k a) (rs_attempts R)\<rparr>)"
proof -
  have "row_write_ok R i a (settleAttempt k a) None"
    unfolding row_write_ok_def row_step_ok_def
    using assms inv_attempt [OF inv a] inv_operation [OF inv _ a] inv_allocated [OF inv a]
      settle_ok settle_le
    by (auto simp: operation_ok_def)
  from write_row_preserves [OF inv a this] show ?thesis by (simp add: write_row_def)
qed

text \<open>A write of the operation alone.\<close>

lemma write_row_same_attempt:
  assumes "map_get (rs_attempts R) i = Some a"
  shows "write_row i a (Some q) R = R\<lparr>rs_operations := map_set i q (rs_operations R)\<rparr>"
proof -
  have "map_set i a m = m" if "map_get m i = Some a" for m :: "(string, attempt) js_map"
    using that by (induction m) (auto simp: map_get_def split: if_splits)
  with assms show ?thesis by (simp add: write_row_def)
qed

lemma operation_write:
  assumes inv: "repo_inv R" and a: "map_get (rs_attempts R) i = Some a"
    and p: "map_get (rs_operations R) i = Some p"
    and "op_executionAttemptId q = op_executionAttemptId p" "operation_ok a q" "operation_le p q"
  shows "preserves R (R\<lparr>rs_operations := map_set i q (rs_operations R)\<rparr>)"
proof -
  have "row_write_ok R i a a (Some q)"
    unfolding row_write_ok_def row_step_ok_def
    using assms inv_attempt [OF inv a] inv_operation [OF inv p a] inv
    by (auto simp: repo_inv_def operations_inv_def)
  from write_row_preserves [OF inv a this] a show ?thesis by (simp add: write_row_same_attempt)
qed

section \<open>Runtime control\<close>

lemma reachable_facts:
  "runtimeReachability R a = None \<longleftrightarrow>
     at_settlementKind a = None \<and> is_active R (at_executionId a) (at_executionAttemptId a)
     \<and> at_allocationRef a \<noteq> None \<and> \<not> allocationTerminated R (at_executionAttemptId a)"
  by (simp add: runtimeReachability_def evaluateAttemptReachability_def Let_def)

lemma owned_attempt_Some:
  "owned_attempt R e i = Some a \<longleftrightarrow> map_get (rs_attempts R) i = Some a \<and> at_executionId a = e"
  by (auto simp: owned_attempt_def split: option.splits if_splits)

text \<open>The lifecycle facts do not depend on the control state except through the gate.\<close>

lemma lifecycle_control_update [simp]:
  "lifecycle_ok (a\<lparr>cs_runtimeGeneration := g\<rparr>) = lifecycle_ok a"
  "lifecycle_ok (a\<lparr>cs_runtimeIncarnationId := n\<rparr>) = lifecycle_ok a"
  "lifecycle_ok (a\<lparr>cs_runtimeReadyAt := t\<rparr>) = lifecycle_ok a"
  "lifecycle_ok (a\<lparr>cs_activeOperationId := x\<rparr>) = lifecycle_ok a"
  "lifecycle_ok (a\<lparr>cs_activeOperationKind := k\<rparr>) = lifecycle_ok a"
  "lifecycle_ok (a\<lparr>cs_activeOperationKey := y\<rparr>) = lifecycle_ok a"
  "lifecycle_ok (a\<lparr>cs_activeOperationGeneration := h\<rparr>) = lifecycle_ok a"
  "lifecycle_ok (a\<lparr>cs_activeOperationAdmittedAt := u\<rparr>) = lifecycle_ok a"
  "lifecycle_ok (a\<lparr>cs_lastCompletedOperationId := z\<rparr>) = lifecycle_ok a"
  "lifecycle_ok (a\<lparr>at_preparationReceipts := rs\<rparr>) = lifecycle_ok a"
  by (simp_all add: lifecycle_defs)

lemma prepared_for_old:
  "\<forall>r \<in> set rs. pr_runtimeGeneration r \<le> g \<Longrightarrow> \<not> prepared_for (g + 1) rs"
  by (auto simp: prepared_for_def list_ex_iff)

lemma registerRuntime_preserves:
  assumes inv: "repo_inv R"
  shows "preserves R (snd (registerRuntime input R))"
proof (cases "owned_attempt R (ri_executionId input) (ri_executionAttemptId input)")
  case (Some a)
  then have a: "map_get (rs_attempts R) (ri_executionAttemptId input) = Some a"
    by (simp add: owned_attempt_Some)
  let ?g = "cs_runtimeGeneration a + 1"
  let ?b = "clearActive (a\<lparr>cs_runtimeGeneration := ?g,
              cs_runtimeIncarnationId := Some (ri_runtimeIncarnationId input), cs_runtimeReadyAt := None\<rparr>)"
  have ok: "attempt_ok a" and id: "at_executionAttemptId a = ri_executionAttemptId input"
    using inv_attempt [OF inv a] by auto
  have "control_ok ?b" using ok by (simp add: attempt_ok_def control_defs clearActive_def)
  moreover have "preparation_ok ?b"
    using ok by (fastforce simp: attempt_ok_def preparation_ok_def clearActive_def)
  moreover have "lifecycle_ok ?b" using ok by (simp add: attempt_ok_def clearActive_def)
  ultimately have "attempt_ok ?b" by (simp add: attempt_ok_def)
  then have "preserves R (R\<lparr>rs_attempts := map_set (ri_executionAttemptId input) ?b (rs_attempts R)\<rparr>)"
    by (rule control_write [OF inv a]) (simp_all add: attempt_le_def clearActive_def)
  with Some inv id show ?thesis
    by (simp add: registerRuntime_def Let_def clearActive_def split: option.splits)
qed (simp add: registerRuntime_def inv)

lemma admission_facts:
  "evaluateOperationAdmission c input t instr receipts = None \<longleftrightarrow>
     cs_activeOperationId c = None \<and> cs_operationStartGate c = GateOpen
     \<and> (ai_operationKind input = RuntimeProbe \<or> cs_runtimeReadyAt c \<noteq> None)
     \<and> cs_runtimeGeneration c = ai_runtimeGeneration input
     \<and> (ai_operationKind input = WorkspacePreparation \<longrightarrow>
          requires_preparation instr \<and> \<not> prepared_for (cs_runtimeGeneration c) receipts)
     \<and> (ai_operationKind input \<in> {WorkloadInvocation, WorkflowRun} \<longrightarrow> requires_preparation instr \<longrightarrow>
          prepared_for (cs_runtimeGeneration c) receipts)"
  by (cases "cs_operationStartGate c"; cases "ai_operationKind input")
    (auto simp: evaluateOperationAdmission_def Let_def split: option.splits if_splits)

lemma admitOperation_preserves:
  assumes inv: "repo_inv R"
  shows "preserves R (snd (admitOperation input uuid now R))"
proof (cases "owned_attempt R (ai_executionId input) (ai_executionAttemptId input)")
  case (Some a)
  then have a: "map_get (rs_attempts R) (ai_executionAttemptId input) = Some a"
    by (simp add: owned_attempt_Some)
  let ?b = "a\<lparr>cs_activeOperationId := Some uuid, cs_activeOperationKind := Some (ai_operationKind input),
              cs_activeOperationKey := Some (ai_admissionKey input),
              cs_activeOperationGeneration := Some (cs_runtimeGeneration a),
              cs_activeOperationAdmittedAt := Some now\<rparr>"
  have ok: "attempt_ok a" and id: "at_executionAttemptId a = ai_executionAttemptId input"
    using inv_attempt [OF inv a] by auto
  show ?thesis
  proof (cases "evaluateOperationAdmission a input now (at_instruction a) (at_preparationReceipts a)")
    case None
    note facts = this [unfolded admission_facts]
    have "control_ok ?b" using ok facts by (auto simp: attempt_ok_def control_defs)
    moreover have "preparation_ok ?b" using ok facts by (auto simp: attempt_ok_def preparation_ok_def)
    moreover have "lifecycle_ok ?b" using ok by (simp add: attempt_ok_def)
    ultimately have "attempt_ok ?b" by (simp add: attempt_ok_def)
    then have "preserves R (R\<lparr>rs_attempts := map_set (ai_executionAttemptId input) ?b (rs_attempts R)\<rparr>)"
      by (rule control_write [OF inv a]) (simp_all add: attempt_le_def)
    with Some None inv id show ?thesis by (simp add: admitOperation_def split: option.splits)
  qed (use Some inv in \<open>simp add: admitOperation_def split: option.splits\<close>)
qed (simp add: admitOperation_def inv)

lemma completion_facts:
  "evaluateOperationCompletion c input = None \<longleftrightarrow>
     cs_lastCompletedOperationId c \<noteq> Some (co_operationId input)
     \<and> cs_activeOperationId c = Some (co_operationId input)
     \<and> cs_activeOperationGeneration c = Some (co_runtimeGeneration input)
     \<and> cs_activeOperationKind c \<notin> {Some WorkspacePreparation, Some WorkloadInvocation}"
  by (auto simp: evaluateOperationCompletion_def split: option.splits)

lemma completeOperation_preserves:
  assumes inv: "repo_inv R"
  shows "preserves R (snd (completeOperation input R))"
proof (cases "map_get (rs_attempts R) (co_executionAttemptId input)")
  case (Some a)
  let ?b = "(clearActive a)\<lparr>cs_lastCompletedOperationId := Some (co_operationId input)\<rparr>"
  have ok: "attempt_ok a" and id: "at_executionAttemptId a = co_executionAttemptId input"
    using inv_attempt [OF inv Some] by auto
  have "control_ok ?b" "preparation_ok ?b" "lifecycle_ok ?b"
    using ok by (simp_all add: attempt_ok_def control_defs preparation_ok_def clearActive_def)
  then have "attempt_ok ?b" by (simp add: attempt_ok_def)
  then have "preserves R (R\<lparr>rs_attempts := map_set (co_executionAttemptId input) ?b (rs_attempts R)\<rparr>)"
    by (rule control_write [OF inv Some]) (simp_all add: attempt_le_def clearActive_def)
  with Some inv id show ?thesis
    by (simp add: completeOperation_def clearActive_def split: option.splits)
qed (simp add: completeOperation_def inv)

lemma readiness_facts:
  "evaluateRuntimeReadiness c input = None \<longleftrightarrow>
     cs_runtimeGeneration c = rd_runtimeGeneration input \<and> cs_runtimeReadyAt c = None
     \<and> cs_activeOperationId c = None"
  by (auto simp: evaluateRuntimeReadiness_def split: option.splits)

lemma idle_ready: "idle_or_active (a\<lparr>cs_runtimeReadyAt := t\<rparr>) = idle_or_active a"
  by (simp add: idle_or_active_def)

lemma markRuntimeReady_preserves:
  assumes inv: "repo_inv R"
  shows "preserves R (snd (markRuntimeReady E input R))"
proof (cases "owned_attempt R (rd_executionId input) (rd_executionAttemptId input)")
  case (Some a)
  then have a: "map_get (rs_attempts R) (rd_executionAttemptId input) = Some a"
    by (simp add: owned_attempt_Some)
  have ok: "attempt_ok a" and id: "at_executionAttemptId a = rd_executionAttemptId input"
    using inv_attempt [OF inv a] by auto
  show ?thesis
  proof (cases "evaluateRuntimeReadiness a input")
    case None
    have "preserves R (R\<lparr>rs_attempts := map_set (rd_executionAttemptId input)
                          (a\<lparr>cs_runtimeReadyAt := Some t\<rparr>) (rs_attempts R)\<rparr>)" for t
    proof (rule control_write [OF inv a])
      show "attempt_ok (a\<lparr>cs_runtimeReadyAt := Some t\<rparr>)" using ok
        by (simp add: attempt_ok_def control_ok_def idle_ready preparation_ok_def)
      show "attempt_le a (a\<lparr>cs_runtimeReadyAt := Some t\<rparr>)"
        using None by (simp add: attempt_le_def readiness_facts)
    qed simp_all
    with Some None inv id show ?thesis by (simp add: markRuntimeReady_def split: option.splits sum.splits)
  qed (use Some inv in \<open>simp add: markRuntimeReady_def split: option.splits sum.splits\<close>)
qed (simp add: markRuntimeReady_def inv split: sum.splits)

lemma report_facts:
  "evaluatePreparationReport facts c instr receipts input = None \<longleftrightarrow>
     find (\<lambda>r. pr_operationId r = rp_operationId input) receipts = None
     \<and> evaluateAttemptReachability facts = None
     \<and> cs_runtimeGeneration c = rp_runtimeGeneration input
     \<and> cs_activeOperationId c = Some (rp_operationId input)
     \<and> cs_activeOperationKind c = Some WorkspacePreparation
     \<and> cs_activeOperationGeneration c = Some (rp_runtimeGeneration input)
     \<and> (\<exists>w. in_workspace instr = Some w
          \<and> canonicalStringify (sorted_ids_json (map sr_id (ws_sourceRoots w)))
            = canonicalStringify (sorted_ids_json (map fst (wb_sourceRoots (rp_result input)))))"
  by (auto simp: evaluatePreparationReport_def evaluateAttemptReachability_def
      split: option.splits if_splits)

lemma find_None_iff_all: "find P xs = None \<longleftrightarrow> (\<forall>x \<in> set xs. \<not> P x)"
  by (auto simp: find_None_iff)

lemma prepared_for_not: "\<not> prepared_for g rs \<longleftrightarrow> g \<notin> pr_runtimeGeneration ` set rs"
  by (auto simp: prepared_for_def list_ex_iff)

lemma report_write:
  assumes inv: "repo_inv R" and a: "map_get (rs_attempts R) i = Some a"
    and eval: "evaluatePreparationReport facts a (at_instruction a) (at_preparationReceipts a) input = None"
    and rs: "rs = at_preparationReceipts a
                  @ [\<lparr>pr_operationId = x, pr_runtimeGeneration = g, pr_result = res\<rparr>]"
    and input: "x = rp_operationId input" "g = rp_runtimeGeneration input"
    and all: "list_all receipt_ok rs"
  shows "preserves R (R\<lparr>rs_attempts := map_set i
           ((clearActive (a\<lparr>at_preparationReceipts := rs\<rparr>))\<lparr>cs_lastCompletedOperationId := Some x\<rparr>)
           (rs_attempts R)\<rparr>)"
proof (rule control_write [OF inv a])
  let ?b = "(clearActive (a\<lparr>at_preparationReceipts := rs\<rparr>))\<lparr>cs_lastCompletedOperationId := Some x\<rparr>"
  have ok: "attempt_ok a" using inv_attempt [OF inv a] by simp
  note facts = eval [unfolded report_facts]
  have fresh: "\<not> prepared_for (cs_runtimeGeneration a) (at_preparationReceipts a)"
    using ok facts by (simp add: attempt_ok_def preparation_ok_def)
  have "preparation_ok ?b"
    using ok facts fresh all input
    by (auto simp: attempt_ok_def preparation_ok_def clearActive_def rs find_None_iff_all
        prepared_for_not list_all_iff)
  moreover have "control_ok ?b"
    using ok by (simp add: attempt_ok_def control_defs clearActive_def)
  moreover have "lifecycle_ok ?b" using ok by (simp add: attempt_ok_def clearActive_def)
  ultimately show "attempt_ok ?b" by (simp add: attempt_ok_def)
qed (simp_all add: attempt_le_def clearActive_def rs)

lemma reportOperation_preserves: "repo_inv R \<Longrightarrow> preserves R (snd (reportOperation input R))"
  unfolding reportOperation_def parsePreparationReceipts_def
  by (simp split: sum.splits option.splits)
    (auto simp: owned_attempt_Some elim!: report_write [OF _ _ _ refl])

section \<open>Provider operations\<close>

lemma authorized_facts:
  "authorize R c = Authorized a p \<longleftrightarrow>
     map_get (rs_attempts R) (cl_executionAttemptId c) = Some a
     \<and> map_get (rs_operations R) (cl_executionAttemptId c) = Some p
     \<and> \<not> isProviderOperationResolved a p
     \<and> op_token p = Some (cl_token c) \<and> op_generation p = cl_generation c
     \<and> op_ownerId p = Some (cl_ownerId c)"
  by (auto simp: authorize_def split: option.splits if_splits)

lemma operation_update_ok:
  "operation_ok a p \<Longrightarrow> operation_ok a (p\<lparr>op_lastFailure := f\<rparr>)"
  "operation_ok a p \<Longrightarrow> operation_ok a (p\<lparr>op_completionEvidence := e\<rparr>)"
  "operation_ok a p \<Longrightarrow> operation_ok a (p\<lparr>op_failureCount := op_failureCount p + 1\<rparr>)"
  "operation_ok a p \<Longrightarrow> operation_ok a (p\<lparr>op_ownerId := None, op_token := None, op_leaseExpiresAt := None\<rparr>)"
  "operation_ok a p \<Longrightarrow> op_ownerId p \<noteq> None \<Longrightarrow> operation_ok a (p\<lparr>op_leaseExpiresAt := Some l\<rparr>)"
  "operation_ok a p \<Longrightarrow>
     operation_ok a (p\<lparr>op_generation := op_generation p + 1, op_ownerId := Some x, op_token := Some y,
                       op_leaseExpiresAt := Some l\<rparr>)"
  by (auto simp: operation_ok_def)

text \<open>A claim-fenced write of the operation.\<close>

lemma claimed_write:
  assumes inv: "repo_inv R" and auth: "authorize R c = Authorized a p"
    and "operation_ok a p \<Longrightarrow> operation_ok a q" and le: "operation_le p q"
  shows "preserves R (R\<lparr>rs_operations := map_set (cl_executionAttemptId c) q (rs_operations R)\<rparr>)"
proof -
  from auth have a: "map_get (rs_attempts R) (cl_executionAttemptId c) = Some a"
    and p: "map_get (rs_operations R) (cl_executionAttemptId c) = Some p"
    by (simp_all add: authorized_facts)
  show ?thesis
    by (rule operation_write [OF inv a p])
      (use assms inv_operation [OF inv p a] in \<open>simp_all add: operation_le_def\<close>)
qed

lemma renew_preserves:
  assumes inv: "repo_inv R"
  shows "preserves R (snd (renewProviderOperationClaim E c lease R))"
proof (cases "authorize R c")
  case (Authorized a p)
  then have "op_ownerId p \<noteq> None" by (simp add: authorized_facts)
  then have "preserves R (R\<lparr>rs_operations := map_set (cl_executionAttemptId c)
               (p\<lparr>op_leaseExpiresAt := Some l\<rparr>) (rs_operations R)\<rparr>)" for l
    by (intro claimed_write [OF inv Authorized] operation_update_ok) (simp_all add: operation_le_def)
  with Authorized inv show ?thesis
    by (simp add: renewProviderOperationClaim_def split: sum.splits)
qed (simp_all add: renewProviderOperationClaim_def inv)

lemma takeOver_preserves:
  assumes inv: "repo_inv R"
  shows "preserves R (snd (takeOverProviderOperation E i owner observed lease uuid R))"
proof -
  have "preserves R (R\<lparr>rs_operations := map_set i
          (p\<lparr>op_generation := op_generation p + 1, op_ownerId := Some owner, op_token := Some uuid,
             op_leaseExpiresAt := Some l\<rparr>) (rs_operations R)\<rparr>)"
    if a: "map_get (rs_attempts R) i = Some a" and p: "map_get (rs_operations R) i = Some p" for a p l
    by (rule operation_write [OF inv a p])
      (use inv_operation [OF inv p a] in \<open>simp_all add: operation_le_def operation_update_ok\<close>)
  with inv show ?thesis
    by (simp add: takeOverProviderOperation_def Let_def split: option.splits sum.splits bool.splits)
qed

lemma handoff_preserves:
  assumes inv: "repo_inv R"
  shows "preserves R (snd (handoffProviderOperation E c ev R))"
proof (cases "authorize R c")
  case (Authorized a p)
  have "preserves R (R\<lparr>rs_operations := map_set (cl_executionAttemptId c)
          (p\<lparr>op_ownerId := None, op_token := None, op_leaseExpiresAt := None, op_lastFailure := f\<rparr>)
          (rs_operations R)\<rparr>)" for f
    by (rule claimed_write [OF inv Authorized]) (auto simp: operation_le_def operation_ok_def)
  with Authorized inv show ?thesis
    by (simp add: handoffProviderOperation_def split: sum.splits)
qed (simp_all add: handoffProviderOperation_def inv split: sum.splits)

lemma uncertainty_preserves:
  assumes inv: "repo_inv R"
  shows "preserves R (snd (recordProviderOperationUncertainty E c ev R))"
proof (cases "authorize R c")
  case (Authorized a p)
  have "preserves R (R\<lparr>rs_operations := map_set (cl_executionAttemptId c)
          (p\<lparr>op_failureCount := op_failureCount p + 1, op_lastFailure := f\<rparr>) (rs_operations R)\<rparr>)" for f
    by (rule claimed_write [OF inv Authorized]) (auto simp: operation_le_def operation_ok_def)
  with Authorized inv show ?thesis
    by (simp add: recordProviderOperationUncertainty_def split: sum.splits)
qed (simp_all add: recordProviderOperationUncertainty_def inv split: sum.splits)

lemma completion_write:
  assumes inv: "repo_inv R" and a: "map_get (rs_attempts R) (op_executionAttemptId p) = Some a"
    and p: "map_get (rs_operations R) (op_executionAttemptId p) = Some p"
  shows "preserves R (recordProviderCompletionEvidence p ev R)"
proof (cases "op_completionEvidence p")
  case None
  have "preserves R (R\<lparr>rs_operations := map_set (op_executionAttemptId p)
          (p\<lparr>op_completionEvidence := Some ev\<rparr>) (rs_operations R)\<rparr>)"
    by (rule operation_write [OF inv a p])
      (use inv_operation [OF inv p a] None in \<open>simp_all add: operation_le_def operation_update_ok\<close>)
  with None show ?thesis by (simp add: recordProviderCompletionEvidence_def)
qed (simp add: recordProviderCompletionEvidence_def inv)

lemma completeProvider_preserves:
  assumes inv: "repo_inv R"
  shows "preserves R (snd (completeProviderOperation E c ev R))"
proof -
  have "preserves R (recordProviderCompletionEvidence p e R)"
    if "map_get (rs_attempts R) (cl_executionAttemptId c) = Some a"
      "map_get (rs_operations R) (cl_executionAttemptId c) = Some p" for a p e
    using inv_operation [OF inv that(2,1)] that by (intro completion_write [OF inv]) auto
  with inv show ?thesis
    by (simp add: completeProviderOperation_def split: sum.splits option.splits)
qed

lemma row_write:
  assumes "repo_inv R" and "map_get (rs_attempts R) i = Some a" and "row_write_ok R i a b (Some q)"
    and "at_executionAttemptId b = i" and "op_executionAttemptId q = i"
  shows "preserves R (put_operation q (put_attempt b R))"
  using write_row_preserves [OF assms(1-3)] assms(4,5) by (simp add: write_row_def)

lemma applyAllocation_preserves:
  assumes inv: "repo_inv R"
  shows "preserves R (snd (applyAllocation c ref bc R))"
proof (cases "authorize R c")
  case (Authorized a p)
  let ?i = "cl_executionAttemptId c"
  from Authorized have a: "map_get (rs_attempts R) ?i = Some a"
    and p: "map_get (rs_operations R) ?i = Some p" by (simp_all add: authorized_facts)
  have ok: "attempt_ok a" and ia: "at_executionAttemptId a = ?i" using inv_attempt [OF inv a] by auto
  have pok: "operation_ok a p" and ip: "op_executionAttemptId p = ?i" using inv_operation [OF inv p a] by auto
  let ?b = "a\<lparr>at_status := (if at_settlementKind a = None then AttAllocated else at_status a),
              at_allocationRef := Some ref,
              at_claimable := (at_settlementKind a = None \<and> bc
                               \<and> is_active R (at_executionId a) (at_executionAttemptId a))\<rparr>"
  let ?q = "p\<lparr>op_obligation := AllocationControl\<rparr>"
  have "preserves R (put_operation ?q (put_attempt ?b R))"
    if "allocation_ref_ok ref" "at_providerId a = Some (ref_providerId ref)" "at_allocationRef a = None"
  proof (rule row_write [OF inv a])
    have pending: "at_status a \<noteq> AttPending" "op_obligation p = ProvisioningResolution"
      using ok pok that by (auto simp: attempt_ok_def lifecycle_defs operation_ok_def)
    have "status_rank (at_status a) \<le> 2 \<or> at_settlementKind a \<noteq> None"
      using ok by (cases "at_status a") (auto simp: attempt_ok_def lifecycle_ok_def)
    then have le: "attempt_le a ?b" using that by (auto simp: attempt_le_def)
    have "control_ok ?b" "preparation_ok ?b" using ok by (simp_all add: attempt_ok_def)
    moreover have "lifecycle_ok ?b"
      using ok pok that pending by (auto simp: attempt_ok_def lifecycle_defs operation_ok_def)
    ultimately have "attempt_ok ?b" by (simp add: attempt_ok_def)
    moreover have "operation_ok ?b ?q" using pok by (auto simp: operation_ok_def bound_provider_def)
    moreover have "operation_le p ?q" using pending by (simp add: operation_le_def)
    moreover have "at_settlementKind a = Some ByInfrastructureFailure \<Longrightarrow> allocationTerminated R ?i"
      using inv a by (auto simp: repo_inv_def operations_inv_def)
    ultimately show "row_write_ok R ?i a ?b (Some ?q)"
      using le p ia ip by (simp add: row_write_ok_def row_step_ok_def)
  qed (use ia ip in simp_all)
  with Authorized inv show ?thesis
    by (cases "at_settlementKind a"; cases "at_allocationRef a")
      (simp_all add: applyAllocation_def parseAllocationRef_def requireAllocationRefProvider_def Let_def)
qed (simp_all add: applyAllocation_def inv split: sum.splits)

lemma sameAllocationRef_provider:
  assumes "allocation_ref_ok r" "allocation_ref_ok s" "sameAllocationRef r s"
  shows "ref_providerId r = ref_providerId s"
proof -
  have "json_data (ref_json r)" "json_data (ref_json s)"
    using assms(1,2) by (auto simp: ref_json_def allocation_ref_ok_def)
  then have "json_same (ref_json r) (ref_json s)"
    using assms(3) canon_eq_iff canonicalStringify_eq_iff by (simp add: sameAllocationRef_def)
  then show ?thesis by (simp add: ref_json_def)
qed

lemma evolve_preserves:
  assumes inv: "repo_inv R"
  shows "preserves R (snd (evolveAllocationRef c e cur nxt R))"
proof (cases "authorize R c")
  case (Authorized a p)
  let ?i = "cl_executionAttemptId c"
  from Authorized have a: "map_get (rs_attempts R) ?i = Some a" by (simp add: authorized_facts)
  have ok: "attempt_ok a" and ia: "at_executionAttemptId a = ?i" using inv_attempt [OF inv a] by auto
  have "preserves R (R\<lparr>rs_attempts := map_set ?i (a\<lparr>at_allocationRef := Some nxt\<rparr>) (rs_attempts R)\<rparr>)"
    if "at_allocationRef a = Some r" "sameAllocationRef r cur" "allocation_ref_ok cur"
      "allocation_ref_ok nxt" "ref_providerId cur = ref_providerId nxt" for r
  proof (rule control_write [OF inv a])
    have "allocation_ref_ok r" using ok that by (simp add: attempt_ok_def lifecycle_ok_def)
    then have prov: "ref_providerId nxt = ref_providerId r"
      using sameAllocationRef_provider [of r cur] that by simp
    show "attempt_ok (a\<lparr>at_allocationRef := Some nxt\<rparr>)"
      using ok that prov by (auto simp: attempt_ok_def lifecycle_defs)
    show "attempt_le a (a\<lparr>at_allocationRef := Some nxt\<rparr>)" using that prov by (simp add: attempt_le_def)
  qed (use that in simp_all)
  with Authorized inv ia show ?thesis
    by (simp add: evolveAllocationRef_def parseAllocationRefEvolution_def parseAllocationRef_def
        split: option.splits)
qed (simp_all add: evolveAllocationRef_def inv split: sum.splits)

lemma close_unallocated_preserves:
  assumes inv: "repo_inv R" and auth: "authorize R c = Authorized a p"
  shows "preserves R (snd (close_unallocated a p ev R))"
proof -
  let ?i = "cl_executionAttemptId c"
  from auth have a: "map_get (rs_attempts R) ?i = Some a" and p: "map_get (rs_operations R) ?i = Some p"
    by (simp_all add: authorized_facts)
  have ia: "at_executionAttemptId a = ?i" using inv_attempt [OF inv a] by simp
  have ip: "op_executionAttemptId p = ?i" using inv_operation [OF inv p a] by simp
  show ?thesis
  proof (cases "at_settlementKind a")
    case None
    let ?S = "R\<lparr>rs_attempts := map_set ?i (settleAttempt ByAbandonment a) (rs_attempts R)\<rparr>"
    have "preserves R ?S" by (rule settle_write [OF inv a None]) simp_all
    moreover have "preserves ?S (recordProviderCompletionEvidence p ev ?S)" if "repo_inv ?S"
      by (rule completion_write [OF that]) (simp_all add: ip p jm.get_put)
    ultimately have "preserves R (recordProviderCompletionEvidence p ev ?S)" by (rule preserves_trans)
    with None ia show ?thesis by (simp add: close_unallocated_def)
  qed (use completion_write [OF inv] a p ip in \<open>simp add: close_unallocated_def\<close>)
qed

lemma absent_preserves:
  "repo_inv R \<Longrightarrow> preserves R (snd (recordProvisioningAbsent E c e ev R))"
  unfolding recordProvisioningAbsent_def
  by (simp add: close_unallocated_preserves split: sum.splits authorization.splits option.splits)

lemma lost_preserves:
  "repo_inv R \<Longrightarrow> preserves R (snd (recordProvisionerIncarnationLost E c e proof R))"
  unfolding recordProvisionerIncarnationLost_def
  by (simp add: close_unallocated_preserves split: sum.splits authorization.splits option.splits)

lemma terminated_preserves:
  assumes inv: "repo_inv R"
  shows "preserves R (snd (recordAllocationTerminated E c ev R))"
proof (cases "authorize R c")
  case (Authorized a p)
  then have "op_executionAttemptId p = cl_executionAttemptId c"
    using inv_operation [OF inv] by (auto simp: authorized_facts)
  moreover have "preserves R (R\<lparr>rs_operations := map_set (cl_executionAttemptId c)
      (p\<lparr>op_obligation := TerminalConvergence, op_lastFailure := f\<rparr>) (rs_operations R)\<rparr>)"
    if "at_allocationRef a \<noteq> None" for f
    by (rule claimed_write [OF inv Authorized])
      (use that in \<open>auto simp: operation_le_def operation_ok_def obligation_rank_le\<close>)
  ultimately show ?thesis
    using Authorized inv by (simp add: recordAllocationTerminated_def split: sum.splits)
qed (simp_all add: recordAllocationTerminated_def inv split: sum.splits)

lemma infrastructure_preserves:
  assumes inv: "repo_inv R"
  shows "preserves R (snd (recordInfrastructureFailure c e R))"
proof (cases "authorize R c")
  case (Authorized a p)
  then have a: "map_get (rs_attempts R) (cl_executionAttemptId c) = Some a"
    and p: "map_get (rs_operations R) (cl_executionAttemptId c) = Some p"
    by (simp_all add: authorized_facts)
  have "preserves R (R\<lparr>rs_attempts := map_set (cl_executionAttemptId c)
          (settleAttempt ByInfrastructureFailure a) (rs_attempts R)\<rparr>)"
    if "at_settlementKind a = None" "op_obligation p = TerminalConvergence"
    by (rule settle_write [OF inv a]) (use that p in \<open>simp_all add: allocationTerminated_def\<close>)
  with Authorized inv inv_attempt [OF inv a] show ?thesis
    by (simp add: recordInfrastructureFailure_def)
qed (simp_all add: recordInfrastructureFailure_def inv)

lemma abandon_preserves:
  assumes inv: "repo_inv R"
  shows "preserves R (snd (abandonPendingAttempt i e R))"
proof -
  have "preserves R (R\<lparr>rs_attempts := map_set i (settleAttempt ByAbandonment a) (rs_attempts R)\<rparr>)"
    if a: "map_get (rs_attempts R) i = Some a" and "at_status a = AttPending" for a
    by (rule settle_write [OF inv a])
      (use that inv_attempt [OF inv a] in \<open>auto simp: attempt_ok_def lifecycle_ok_def\<close>)
  with inv show ?thesis
    by (simp add: abandonPendingAttempt_def split: option.splits attempt_status.splits)
qed

lemma begin_preserves:
  assumes inv: "repo_inv R"
  shows "preserves R (snd (beginProvisioning E input uuid R))"
proof (cases "map_get (rs_attempts R) (bg_executionAttemptId input)")
  case (Some a)
  let ?i = "bg_executionAttemptId input"
  let ?b = "a\<lparr>at_status := AttProvisioning, at_providerId := Some (bg_providerId input),
              at_allocationLifetime := Some (bg_allocationLifetime input),
              at_provisionerIncarnationId := Some (bg_provisionerIncarnationId input)\<rparr>"
  let ?q = "\<lambda>l. \<lparr>op_executionAttemptId = ?i, op_generation = 1, op_ownerId = Some (bg_ownerId input),
                 op_token = Some uuid, op_leaseExpiresAt = Some l, op_obligation = ProvisioningResolution,
                 op_failureCount = 0, op_lastFailure = None, op_completionEvidence = None\<rparr>"
  have ok: "attempt_ok a" and ia: "at_executionAttemptId a = ?i" using inv_attempt [OF inv Some] by auto
  show ?thesis
  proof (cases "at_status a = AttPending")
    case True
    then have a: "at_providerId a = None" "at_allocationRef a = None" "at_settlementKind a = None"
      "at_allocationLifetime a = None" "at_provisionerIncarnationId a = None"
      using ok by (auto simp: attempt_ok_def lifecycle_ok_def)
    have none: "map_get (rs_operations R) ?i = None"
    proof (rule ccontr)
      assume "map_get (rs_operations R) ?i \<noteq> None"
      then obtain p where "map_get (rs_operations R) ?i = Some p" by auto
      from inv_operation [OF inv this Some] a show False by (simp add: operation_ok_def bound_provider_def)
    qed
    have "attempt_ok ?b" using ok a by (auto simp: attempt_ok_def lifecycle_defs)
    moreover have "attempt_le a ?b" using a True by (auto simp: attempt_le_def kept_def)
    moreover have "operation_ok ?b (?q l)" for l using a by (simp add: operation_ok_def bound_provider_def)
    ultimately have w: "row_write_ok R ?i a ?b q" if "q = None \<or> q = Some (?q l)" for q l
      using that none a ia ok by (auto simp: row_write_ok_def row_step_ok_def attempt_ok_def lifecycle_ok_def)
    have "preserves R (put_operation (?q l) (put_attempt ?b R))" for l
      by (rule row_write [OF inv Some w]) (simp_all add: ia)
    moreover have "preserves R (R\<lparr>rs_attempts := map_set ?i ?b (rs_attempts R)\<rparr>)"
      using write_row_preserves [OF inv Some w [of None]] by (simp add: write_row_def)
    ultimately show ?thesis
      using Some inv ia a by (simp add: beginProvisioning_def Let_def split: sum.splits)
  qed (use Some inv in \<open>simp add: beginProvisioning_def split: option.splits\<close>)
qed (simp add: beginProvisioning_def inv)

section \<open>Cancellation and control evidence\<close>

lemma close_gate_write:
  assumes inv: "repo_inv R" and a: "map_get (rs_attempts R) i = Some a"
  shows "preserves R (R\<lparr>rs_attempts := map_set i (close_gate a) (rs_attempts R)\<rparr>)"
  by (rule control_write [OF inv a])
    (use inv_attempt [OF inv a] in \<open>auto simp: attempt_ok_def lifecycle_defs close_gate_def attempt_le_def\<close>)

text \<open>A cancellation is recorded once: the first intent, or the stored one again.\<close>

definition intent_ok :: "repo \<Rightarrow> string \<Rightarrow> cancellation_intent \<Rightarrow> bool" where
  "intent_ok R i intent \<longleftrightarrow>
     (case map_get (rs_cancellations R) i of
        None \<Rightarrow> ci_controlRevision intent = 1
      | Some stored \<Rightarrow> intent = stored)"

lemma frame_lookups [simp]:
  "is_active (R\<lparr>rs_cancellations := m\<rparr>) e i = is_active R e i"
  "owner_bindings (R\<lparr>rs_cancellations := m\<rparr>) e = owner_bindings R e"
  "allocationTerminated (R\<lparr>rs_cancellations := m\<rparr>) i = allocationTerminated R i"
  "is_active (R\<lparr>rs_controlEvidence := m'\<rparr>) e i = is_active R e i"
  "owner_bindings (R\<lparr>rs_controlEvidence := m'\<rparr>) e = owner_bindings R e"
  "allocationTerminated (R\<lparr>rs_controlEvidence := m'\<rparr>) i = allocationTerminated R i"
  by (simp_all add: is_active_def owner_bindings_def allocationTerminated_def)

lemma cancellation_write:
  assumes inv: "repo_inv R" and a: "map_get (rs_attempts R) i = Some a"
    and gate: "cs_operationStartGate a = GateClosed" and intent: "intent_ok R i intent"
  shows "preserves R (R\<lparr>rs_cancellations := map_set i intent (rs_cancellations R)\<rparr>)"
proof -
  let ?S = "R\<lparr>rs_cancellations := map_set i intent (rs_cancellations R)\<rparr>"
  have rev: "ci_controlRevision intent = 1"
    using intent inv_cancelled [OF inv, of i] by (auto simp: intent_ok_def split: option.splits)
  have "owners_inv ?S"
    using inv rev a gate unfolding repo_inv_def owners_inv_def by (simp add: jm.get_put)
  moreover have "attempts_inv ?S" "operations_inv ?S" "outcomes_inv ?S"
    using inv by (simp_all add: repo_inv_def attempts_inv_def operations_inv_def outcomes_inv_def)
  moreover have "map_extends (rs_cancellations R) (rs_cancellations ?S)"
    using intent by (auto simp: map_extends_def jm.get_put intent_ok_def)
  then have "repo_le R ?S" by (auto simp: repo_le_def)
  ultimately show ?thesis by (simp add: preserves_def repo_inv_def)
qed

lemma cancel_row_preserves:
  assumes inv: "repo_inv R" and a: "map_get (rs_attempts R) i = Some a" and intent: "intent_ok R i intent"
  shows "preserves R (cancel_row (i, a, intent) R)"
proof -
  let ?S = "R\<lparr>rs_attempts := map_set i (close_gate a) (rs_attempts R)\<rparr>"
  have "preserves R ?S" by (rule close_gate_write [OF inv a])
  moreover have "preserves ?S (?S\<lparr>rs_cancellations := map_set i intent (rs_cancellations ?S)\<rparr>)"
    if "repo_inv ?S"
    by (rule cancellation_write [OF that, of i "close_gate a"])
      (use intent in \<open>simp_all add: jm.get_put close_gate_def intent_ok_def\<close>)
  ultimately have "preserves R (?S\<lparr>rs_cancellations := map_set i intent (rs_cancellations ?S)\<rparr>)"
    by (rule preserves_trans)
  then show ?thesis by (cases R) (simp add: cancel_row_def)
qed

lemma decided_intent_ok:
  "evaluateAttemptCancellation (map_get (rs_cancellations R) i) key reason now
     \<in> {CnAccepted intent, CnReplayed intent} \<Longrightarrow> intent_ok R i intent"
  by (auto simp: intent_ok_def evaluateAttemptCancellation_def split: option.splits if_splits)

lemma cancel_attempt_preserves:
  assumes inv: "repo_inv R"
  shows "preserves R (snd (requestAttemptCancellation e i key reason now R))"
proof -
  have "preserves R (R\<lparr>rs_cancellations := map_set i intent (rs_cancellations R),
                       rs_attempts := map_set i (close_gate a) (rs_attempts R)\<rparr>)"
    if "owned_attempt R e i = Some a"
      "evaluateAttemptCancellation (map_get (rs_cancellations R) i) key reason now \<in> {CnAccepted intent, CnReplayed intent}"
    for a intent
    using cancel_row_preserves [OF inv, of i a intent] decided_intent_ok [OF that(2)] that(1)
    by (simp add: owned_attempt_Some cancel_row_def)
  with inv show ?thesis
    by (simp add: requestAttemptCancellation_def split: sum.splits option.splits cancellation_decision.splits)
qed

lemma cancel_rows_fold:
  assumes "repo_inv R" and "distinct (map fst rows)"
    and "\<forall>(i, a, intent) \<in> set rows. map_get (rs_attempts R) i = Some a \<and> intent_ok R i intent"
  shows "preserves R (fold cancel_row rows R)"
  using assms
proof (induction rows arbitrary: R)
  case (Cons row rows)
  obtain i a intent where row: "row = (i, a, intent)" by (cases row)
  let ?S = "cancel_row row R"
  have "preserves R ?S" using cancel_row_preserves Cons.prems row by auto
  moreover have "preserves ?S (fold cancel_row rows ?S)" if "repo_inv ?S"
    using that Cons.prems row
    by (intro Cons.IH) (force simp: cancel_row_def jm.get_put intent_ok_def)+
  ultimately show ?case by (auto intro: preserves_trans)
qed simp

lemma cancellation_rows_Cons:
  "cancellation_rows R key reason now ((i, a) # xs) = Inr rows \<longleftrightarrow>
     (\<exists>intent rest.
        evaluateAttemptCancellation (map_get (rs_cancellations R) i) key reason now
          \<in> {CnAccepted intent, CnReplayed intent}
        \<and> cancellation_rows R key reason now xs = Inr rest \<and> rows = (i, a, intent) # rest)"
  by (cases "cancellation_rows R key reason now xs") (auto split: cancellation_decision.splits)

lemma cancellation_rows_keys:
  "cancellation_rows R key reason now xs = Inr rows \<Longrightarrow> map fst rows = map fst xs"
proof (induction xs arbitrary: rows)
  case (Cons x xs)
  then show ?case by (cases x) (auto simp only: cancellation_rows_Cons list.map fst_conv)
qed simp

lemma cancellation_rows_mem:
  "cancellation_rows R key reason now xs = Inr rows \<Longrightarrow> (i, a, intent) \<in> set rows \<Longrightarrow>
     (i, a) \<in> set xs \<and> intent_ok R i intent"
proof (induction xs arbitrary: rows)
  case (Cons x xs)
  obtain j b where x: "x = (j, b)" by (cases x)
  from Cons.prems(1) [unfolded x cancellation_rows_Cons] obtain n rest
    where d: "evaluateAttemptCancellation (map_get (rs_cancellations R) j) key reason now
               \<in> {CnAccepted n, CnReplayed n}"
      and rest: "cancellation_rows R key reason now xs = Inr rest" and rows: "rows = (j, b, n) # rest"
    by blast
  from Cons.IH [OF rest] decided_intent_ok [OF d] Cons.prems(2) rows x show ?case by auto
qed simp

lemma request_cancellation_preserves:
  assumes inv: "repo_inv R"
  shows "preserves R (snd (requestCancellation e reason uuid now R))"
proof -
  let ?xs = "filter (\<lambda>(_, a). at_executionId a = e) (rs_attempts R)"
  have wf: "map_wf (rs_attempts R)" using inv by (simp add: repo_inv_def attempts_inv_def)
  have "preserves R (fold cancel_row rows R)"
    if rows: "cancellation_rows R uuid reason now ?xs = Inr rows" for rows
  proof (rule cancel_rows_fold [OF inv])
    show "distinct (map fst rows)"
      using wf by (simp only: cancellation_rows_keys [OF rows] map_wf_def distinct_map_fst_filter)
    show "\<forall>(i, a, intent) \<in> set rows. map_get (rs_attempts R) i = Some a \<and> intent_ok R i intent"
      using cancellation_rows_mem [OF rows] mem_map_get [OF wf] by fastforce
  qed
  with inv show ?thesis by (simp add: requestCancellation_def split: sum.splits)
qed

lemma put_fact_preserves: "repo_inv R \<Longrightarrow> preserves R (put_fact i key f R)"
  by (auto simp: preserves_def put_fact_def repo_inv_defs repo_le_def)

lemma receipt_preserves: "repo_inv R \<Longrightarrow> preserves R (snd (recordAttemptControlReceipt E e r R))"
  by (simp add: recordAttemptControlReceipt_def Let_def put_fact_preserves split: sum.splits)

lemma control_report_preserves: "repo_inv R \<Longrightarrow> preserves R (snd (reportAttemptControl E e r R))"
  by (simp add: reportAttemptControl_def Let_def put_fact_preserves split: sum.splits)

section \<open>Outcomes and creation\<close>

lemma outcome_write:
  assumes inv: "repo_inv R" and a: "map_get (rs_attempts R) i = Some a"
    and unsettled: "at_settlementKind a = None" and none: "map_get (rs_committedOutcomes R) i = None"
  shows "preserves R (R\<lparr>rs_committedOutcomes := map_set i t (rs_committedOutcomes R),
           rs_outcomeControlObservations := map_set i ob (rs_outcomeControlObservations R),
           rs_attempts := map_set i (settleAttempt ByOutcome a) (rs_attempts R)\<rparr>)"
    (is "preserves R ?T")
proof -
  let ?b = "settleAttempt ByOutcome a"
  let ?S = "write_row i ?b None R"
  have ok: "attempt_ok a" using inv_attempt [OF inv a] by simp
  have step: "row_step_ok R i a ?b None"
    unfolding row_step_ok_def
    using settle_ok [OF ok] settle_le [OF unsettled] inv_operation [OF inv _ a] inv_allocated [OF inv a]
    by (auto simp: operation_ok_def)
  have T: "?T = ?S\<lparr>rs_committedOutcomes := map_set i t (rs_committedOutcomes R),
                   rs_outcomeControlObservations := map_set i ob (rs_outcomeControlObservations R)\<rparr>"
    by (cases R) (simp add: write_row_def)
  have frame: "is_active ?T e j = is_active ?S e j" "owner_bindings ?T e = owner_bindings ?S e"
    "allocationTerminated ?T j = allocationTerminated ?S j" for e j
    by (simp_all add: T is_active_def owner_bindings_def allocationTerminated_def)
  have "attempts_inv ?T" "operations_inv ?T" "owners_inv ?T"
    using write_row_parts [OF inv a step] unfolding attempts_inv_def operations_inv_def owners_inv_def frame
    by (simp_all add: T)
  moreover have "outcomes_inv ?T"
    using inv none by (simp add: repo_inv_def outcomes_inv_def jm.get_put)
  moreover have "map_get (rs_outcomeControlObservations R) i = None"
    using inv none by (simp add: repo_inv_def outcomes_inv_def)
  then have "repo_le R ?T"
    using write_row_le [OF a step] none
    by (auto simp: T repo_le_def map_extends_def jm.get_put owner_bindings_def)
  ultimately show ?thesis by (simp add: preserves_def repo_inv_def)
qed

lemma commitOutcome_preserves: "repo_inv R \<Longrightarrow> preserves R (snd (commitOutcome E input R))"
  unfolding commitOutcome_def Let_def
  by (simp add: outcome_write split: option.splits sum.splits)

lemma fresh_fields [simp]:
  "at_executionAttemptId (fresh_attempt input t d) = cr_executionAttemptId input"
  "at_executionId (fresh_attempt input t d) = cr_executionId input"
  "at_instruction (fresh_attempt input t d) = cr_instruction input"
  "at_preparationReceipts (fresh_attempt input t d) = []"
  "at_status (fresh_attempt input t d) = AttPending"
  "at_allocationRef (fresh_attempt input t d) = None"
  "at_createdAt (fresh_attempt input t d) = t"
  "at_bootstrapDeadlineAt (fresh_attempt input t d) = Some d"
  "at_providerId (fresh_attempt input t d) = None"
  "at_allocationLifetime (fresh_attempt input t d) = None"
  "at_provisionerIncarnationId (fresh_attempt input t d) = None"
  "at_settlementKind (fresh_attempt input t d) = None"
  "at_claimable (fresh_attempt input t d) = False"
  "at_claimExpiresAt (fresh_attempt input t d) = None"
  "cs_runtimeGeneration (fresh_attempt input t d) = 0"
  "cs_runtimeIncarnationId (fresh_attempt input t d) = None"
  "cs_runtimeReadyAt (fresh_attempt input t d) = None"
  "cs_operationStartGate (fresh_attempt input t d) = GateOpen"
  "cs_activeOperationId (fresh_attempt input t d) = None"
  "cs_activeOperationKind (fresh_attempt input t d) = None"
  "cs_activeOperationKey (fresh_attempt input t d) = None"
  "cs_activeOperationGeneration (fresh_attempt input t d) = None"
  "cs_activeOperationAdmittedAt (fresh_attempt input t d) = None"
  by (simp_all add: fresh_attempt_def INITIAL_ATTEMPT_CONTROL_STATE_def control_state.defs attempt.defs)

lemma fresh_ok: "attempt_ok (fresh_attempt input t d)"
  by (simp add: attempt_ok_def control_defs preparation_ok_def lifecycle_defs)

lemma supersede_write:
  assumes inv: "repo_inv R" and a: "map_get (rs_attempts R) i = Some a"
  shows "preserves R (R\<lparr>rs_attempts := map_set i (supersede a) (rs_attempts R)\<rparr>)"
  by (rule control_write [OF inv a])
    (use inv_attempt [OF inv a] in
      \<open>auto simp: attempt_ok_def lifecycle_defs supersede_def attempt_le_def split: if_splits\<close>)

text \<open>Adding a fresh attempt to a repository in which its owner has no attempt that may start work.\<close>

lemma fresh_insert:
  assumes inv: "repo_inv R" and new: "map_get (rs_attempts R) i = None"
    and id: "i = cr_executionAttemptId input" and e: "e = cr_executionId input"
    and fenced: "\<And>j a. map_get (rs_attempts R) j = Some a \<Longrightarrow> at_executionId a = e \<Longrightarrow>
                   cs_operationStartGate a = GateClosed \<and> \<not> at_claimable a"
  shows "preserves R (R\<lparr>rs_attempts := map_set i (fresh_attempt input t d) (rs_attempts R),
                        rs_activeAttempts := map_set e i (rs_activeAttempts R)\<rparr>)"
    (is "preserves R ?S")
proof -
  let ?f = "fresh_attempt input t d"
  have att: "map_get (rs_attempts ?S) j = (if j = i then Some ?f else map_get (rs_attempts R) j)" for j
    by (simp add: jm.get_put)
  have act: "is_active ?S x j = (if x = e then j = i else is_active R x j)" for x j
    by (auto simp: is_active_def jm.get_put)
  have same: "owner_bindings ?S x = owner_bindings R x" "allocationTerminated ?S j = allocationTerminated R j"
    for x j by (simp_all add: owner_bindings_def allocationTerminated_def)
  have noop: "map_get (rs_operations R) i = None" "map_get (rs_committedOutcomes R) i = None"
    "map_get (rs_cancellations R) i = None"
    using inv new by (auto simp: repo_inv_def operations_inv_def outcomes_inv_def owners_inv_def)
      (metis option.distinct(1) option.exhaust)+
  have "attempts_inv ?S"
    using inv fresh_ok unfolding attempts_inv_def repo_inv_def att
    by (auto simp: id jm.wf_put split: if_splits)
  moreover have "operations_inv ?S"
    using inv noop unfolding operations_inv_def repo_inv_def att same by auto
  moreover have "outcomes_inv ?S"
    using inv noop new unfolding outcomes_inv_def repo_inv_def att by auto
  moreover have "owners_inv ?S"
    unfolding owners_inv_def att act same
  proof (intro conjI allI impI)
    fix x j assume "if x = e then j = i else is_active R x j"
    then show "\<exists>a. (if j = i then Some ?f else map_get (rs_attempts R) j) = Some a \<and> at_executionId a = x"
      using inv_active [OF inv, of x j] new e by (auto split: if_splits)
  next
    fix j a assume "(if j = i then Some ?f else map_get (rs_attempts R) j) = Some a"
    then show "(if at_executionId a = e then j = i else is_active R (at_executionId a) j)
               \<or> cs_operationStartGate a = GateClosed \<and> \<not> at_claimable a"
      using inv_fenced [OF inv, of j a] fenced [of j a] e by (auto split: if_splits)
  next
    fix x k j assume "map_get (owner_bindings R x) k = Some j"
    then show "\<exists>a. (if j = i then Some ?f else map_get (rs_attempts R) j) = Some a \<and> at_executionId a = x"
      using inv_binding [OF inv, of x k j] new by auto
  next
    fix j c assume "map_get (rs_cancellations ?S) j = Some c"
    then show "ci_controlRevision c = 1"
      and "\<exists>a. (if j = i then Some ?f else map_get (rs_attempts R) j) = Some a
                \<and> cs_operationStartGate a = GateClosed"
      using inv_cancelled [OF inv, of j c] new by auto
  qed
  moreover have "repo_le R ?S"
    unfolding repo_le_def att same using new by (auto simp: jm.get_put)
  ultimately show ?thesis by (simp add: preserves_def repo_inv_def)
qed

lemma supersede_fields [simp]:
  "at_executionAttemptId (supersede a) = at_executionAttemptId a"
  "at_executionId (supersede a) = at_executionId a"
  by (simp_all add: supersede_def)

lemma map_has_None: "\<not> map_has m k \<longleftrightarrow> map_get m k = None"
  by (simp add: map_has_get)

lemma insertAttempt_preserves:
  assumes inv: "repo_inv R"
  shows "preserves R (snd (insertAttempt input now R))"
proof -
  let ?e = "cr_executionId input" and ?i = "cr_executionAttemptId input"
  let ?active = "Option.bind (map_get (rs_activeAttempts R) ?e) (map_get (rs_attempts R))"
  define S where "S = (case ?active of None \<Rightarrow> R | Some a \<Rightarrow> put_attempt (supersede a) R)"
  have pres: "preserves R S"
    unfolding S_def using inv inv_attempt [OF inv]
    by (auto split: option.splits bind_splits intro!: supersede_write)
  have fenced: "cs_operationStartGate a = GateClosed \<and> \<not> at_claimable a"
    if "map_get (rs_attempts S) j = Some a" "at_executionId a = ?e" for j a
  proof (cases "is_active R ?e j")
    case True
    then obtain b where "map_get (rs_attempts R) j = Some b" using inv_active [OF inv] by blast
    then have S: "S = put_attempt (supersede b) R" and b: "at_executionAttemptId b = j" "attempt_ok b"
      using True inv_attempt [OF inv] by (auto simp: S_def is_active_def)
    then have "a = supersede b" using that by (simp add: jm.get_put supersede_def)
    with b show ?thesis by (auto simp: supersede_def attempt_ok_def lifecycle_ok_def)
  next
    case False
    have "\<not> is_active S ?e j" using False by (auto simp: S_def is_active_def split: option.splits)
    with that inv_fenced [of S j a] pres show ?thesis by (auto simp: preserves_def)
  qed
  have new: "map_get (rs_attempts S) ?i = None" if "map_get (rs_attempts R) ?i = None"
    using that inv_attempt [OF inv]
    by (auto simp: S_def jm.get_put supersede_def split: option.splits bind_splits)
  have active: "rs_activeAttempts S = rs_activeAttempts R" by (simp add: S_def split: option.splits)
  have "preserves R (S\<lparr>rs_attempts := map_set ?i (fresh_attempt input t d) (rs_attempts S),
                       rs_activeAttempts := map_set ?e ?i (rs_activeAttempts S)\<rparr>)"
    if "map_get (rs_attempts R) ?i = None" for t d
    by (rule preserves_trans [OF pres])
      (rule fresh_insert [OF _ new [OF that] refl refl], assumption, rule fenced)
  with inv show ?thesis
    unfolding insertAttempt_def
    by (simp add: map_has_None Let_def S_def [symmetric] split: sum.splits prod.splits)
qed

lemma createAttempt_preserves: "repo_inv R \<Longrightarrow> preserves R (snd (createAttempt input now R))"
  by (simp add: createAttempt_def insertAttempt_preserves split: sum.splits)

lemma insertAttempt_result:
  assumes "insertAttempt input now R = (Inr a, S)"
  shows "at_executionAttemptId a = cr_executionAttemptId input" "at_executionId a = cr_executionId input"
    "map_get (rs_attempts S) (cr_executionAttemptId input) = Some a"
    "is_active S (cr_executionId input) (cr_executionAttemptId input)"
    "rs_requestBindings S = rs_requestBindings R" "map_get (rs_attempts R) (cr_executionAttemptId input) = None"
    "at_instruction a = cr_instruction input"
  using assms unfolding insertAttempt_def
  by (auto simp: Let_def jm.get_put is_active_def map_has_get split: sum.splits prod.splits if_splits option.splits)

lemma binding_write:
  assumes inv: "repo_inv R" and a: "map_get (rs_attempts R) i = Some a" "at_executionId a = e"
    and new: "map_get (owner_bindings R e) k = None"
  shows "preserves R (R\<lparr>rs_requestBindings :=
           map_set e (map_set k i (owner_bindings R e)) (rs_requestBindings R)\<rparr>)" (is "preserves R ?S")
proof -
  have bind: "owner_bindings ?S x = (if x = e then map_set k i (owner_bindings R e) else owner_bindings R x)" for x
    by (simp add: owner_bindings_def jm.get_put)
  have same: "is_active ?S x j = is_active R x j" "allocationTerminated ?S j = allocationTerminated R j"
    for x j by (simp_all add: is_active_def allocationTerminated_def)
  have "attempts_inv ?S" "operations_inv ?S" "outcomes_inv ?S"
    using inv unfolding repo_inv_def attempts_inv_def operations_inv_def outcomes_inv_def same by simp_all
  moreover have "map_get (owner_bindings ?S x) y = Some j \<Longrightarrow>
      \<exists>a. map_get (rs_attempts R) j = Some a \<and> at_executionId a = x" for x y j
    using inv_binding [OF inv, of x y j] a by (auto simp: bind jm.get_put split: if_splits)
  then have "owners_inv ?S" using inv unfolding repo_inv_def owners_inv_def same by simp
  moreover have "map_extends (owner_bindings R x) (owner_bindings ?S x)" for x
    using new by (auto simp: bind map_extends_def jm.get_put)
  then have "repo_le R ?S" by (auto simp: repo_le_def)
  ultimately show ?thesis by (simp add: preserves_def repo_inv_def)
qed

lemma ensureAttempt_preserves:
  assumes inv: "repo_inv R"
  shows "preserves R (snd (ensureAttempt input now R))"
proof -
  have "preserves R (S\<lparr>rs_requestBindings :=
          map_set (cr_executionId s) (map_set k (at_executionAttemptId a) (owner_bindings R (cr_executionId s)))
            (rs_requestBindings S)\<rparr>)"
    if ins: "insertAttempt (create_input.truncate s) now R = (Inr a, S)"
      and new: "map_get (owner_bindings R (cr_executionId s)) k = None" for s :: ensure_input and a S k
  proof -
    have pres: "preserves R S" using insertAttempt_preserves [OF inv] ins by (metis snd_conv)
    note res = insertAttempt_result [OF ins]
    have "owner_bindings S e = owner_bindings R e" for e using res by (simp add: owner_bindings_def)
    with res new pres binding_write [of S "at_executionAttemptId a" a "cr_executionId s" k]
    show ?thesis by (auto intro: preserves_trans simp: create_input.defs)
  qed
  moreover have "preserves R S" if "insertAttempt j now R = (Inl e, S)" for j e S
    using insertAttempt_preserves [OF inv, of j now] that by simp
  ultimately show ?thesis
    using inv unfolding ensureAttempt_def by (auto split: sum.splits option.splits prod.splits)
qed

section \<open>Steps\<close>

inductive attempt_step :: "'o port_env \<Rightarrow> repo \<Rightarrow> repo \<Rightarrow> bool" for E where
  create: "attempt_step E R (snd (createAttempt input now R))"
| ensure: "attempt_step E R (snd (ensureAttempt request now R))"
| start_provisioning: "attempt_step E R (snd (beginProvisioning E b uuid R))"
| renew: "attempt_step E R (snd (renewProviderOperationClaim E c lease R))"
| take_over: "attempt_step E R (snd (takeOverProviderOperation E i owner observed lease uuid R))"
| handoff: "attempt_step E R (snd (handoffProviderOperation E c ev R))"
| uncertainty: "attempt_step E R (snd (recordProviderOperationUncertainty E c e R))"
| complete_provider: "attempt_step E R (snd (completeProviderOperation E c e R))"
| allocation: "attempt_step E R (snd (recordAllocation c ref R))"
| discovery: "attempt_step E R (snd (recordDiscoveredAllocation c ref R))"
| evolve: "attempt_step E R (snd (evolveAllocationRef c owner cur nxt R))"
| absent: "attempt_step E R (snd (recordProvisioningAbsent E c owner e R))"
| lost: "attempt_step E R (snd (recordProvisionerIncarnationLost E c owner prf R))"
| terminated: "attempt_step E R (snd (recordAllocationTerminated E c e R))"
| infrastructure: "attempt_step E R (snd (recordInfrastructureFailure c owner R))"
| register: "attempt_step E R (snd (registerRuntime r R))"
| admit: "attempt_step E R (snd (admitOperation adm uuid now R))"
| report: "attempt_step E R (snd (reportOperation rep R))"
| complete: "attempt_step E R (snd (completeOperation co R))"
| ready: "attempt_step E R (snd (markRuntimeReady E rdy R))"
| cancel_attempt: "attempt_step E R (snd (requestAttemptCancellation owner i key reason now R))"
| cancel_all: "attempt_step E R (snd (requestCancellation owner reason uuid now R))"
| receipt: "attempt_step E R (snd (recordAttemptControlReceipt E owner rcpt R))"
| control_report: "attempt_step E R (snd (reportAttemptControl E owner crep R))"
| commit: "attempt_step E R (snd (commitOutcome E ci R))"
| abandon: "attempt_step E R (snd (abandonPendingAttempt i owner R))"

lemmas attempt_preserves =
  createAttempt_preserves ensureAttempt_preserves begin_preserves renew_preserves takeOver_preserves
  handoff_preserves uncertainty_preserves completeProvider_preserves applyAllocation_preserves
  evolve_preserves absent_preserves lost_preserves terminated_preserves infrastructure_preserves
  registerRuntime_preserves admitOperation_preserves reportOperation_preserves
  completeOperation_preserves markRuntimeReady_preserves cancel_attempt_preserves
  request_cancellation_preserves receipt_preserves control_report_preserves
  commitOutcome_preserves abandon_preserves

lemma attempt_step_preserves: "attempt_step E R S \<Longrightarrow> repo_inv R \<Longrightarrow> preserves R S"
  by (induction rule: attempt_step.induct)
    (simp_all add: attempt_preserves recordAllocation_def recordDiscoveredAllocation_def)

text \<open>
  A system whose steps keep an invariant and, in states that satisfy it, only move forward in an
  order.
\<close>

locale guarded_history =
  fixes step :: "'s \<Rightarrow> 's \<Rightarrow> bool" and inv :: "'s \<Rightarrow> bool" and le :: "'s \<Rightarrow> 's \<Rightarrow> bool"
  assumes step_inv: "step s t \<Longrightarrow> inv s \<Longrightarrow> inv t"
    and step_le: "step s t \<Longrightarrow> inv s \<Longrightarrow> le s t"
    and le_refl: "le s s"
    and le_trans: "le s t \<Longrightarrow> le t u \<Longrightarrow> le s u"
begin

lemma steps_inv: "step\<^sup>*\<^sup>* s t \<Longrightarrow> inv s \<Longrightarrow> inv t"
  by (induction rule: rtranclp_induct) (auto intro: step_inv)

lemma steps_le: "step\<^sup>*\<^sup>* s t \<Longrightarrow> inv s \<Longrightarrow> le s t"
  by (induction rule: rtranclp_induct) (auto intro: le_refl le_trans step_le steps_inv)

end

interpretation attempts: guarded_history "attempt_step E" repo_inv repo_le
proof
  show "attempt_step E s t \<Longrightarrow> repo_inv s \<Longrightarrow> repo_inv t" for s t
    using attempt_step_preserves by (auto simp: preserves_def)
  show "attempt_step E s t \<Longrightarrow> repo_inv s \<Longrightarrow> repo_le s t" for s t
    using attempt_step_preserves by (auto simp: preserves_def)
qed (auto intro: repo_le_trans)

abbreviation attempt_steps :: "'o port_env \<Rightarrow> repo \<Rightarrow> repo \<Rightarrow> bool" where
  "attempt_steps E \<equiv> (attempt_step E)\<^sup>*\<^sup>*"

lemma empty_repo_inv: "repo_inv empty_repo"
  by (simp add: repo_inv_defs empty_repo_def is_active_def owner_bindings_def)

lemma reachable_inv: "attempt_steps E empty_repo R \<Longrightarrow> repo_inv R"
  by (rule attempts.steps_inv [OF _ empty_repo_inv])

end
