(* ===== verification/Attempt_Authority.thy ===== *)
theory Attempt_Authority
  imports Attempt_Laws
begin

text \<open>
  The attempt authority of \<open>subsystems/workflow-engine/src/execution-attempt-authority.ts\<close>, the service
  a process talks to: it generates identifiers, passes every call on to the repository, and keeps one
  in-process waiter per attempt it created. A waiter is a deferred promise; the promises built so far
  are the list \<open>au_deferreds\<close>, each with the attempt it was built for, and the waiter map holds the
  position of the promise, because a caller that awaits it keeps it after the map entry is gone.

  An operation that goes on after awaiting the repository has an argument \<open>world\<close>: what the rest of the
  process does to the authority in between. \<open>world\<close> is any function here; the laws are stated for a
  \<open>world\<close> that takes steps of the authority itself. \<open>outcome-convergence.ts\<close>, the boundary an outcome
  is submitted through, is modelled the same way.
\<close>

section \<open>State\<close>

datatype outcome_acceptance = Projected | RecordedOnly

record 'o accepted_outcome =
  ao_outcome :: 'o
  ao_controlObservation :: "outcome_observation option"
  ao_acceptance :: outcome_acceptance

datatype 'o promise = Pending | Resolved "'o accepted_outcome" | Rejected string

record 'o authority =
  au_repository :: repo
  au_supportsRecovery :: bool
  au_bootstrapTimeoutMs :: int
  au_waiters :: "(string, nat) js_map"
  au_deferreds :: "(string \<times> 'o promise) list"

datatype authority_error =
    PortError attempt_error
  | RecoveryUnsupported string
  | ProviderIdentityMismatch string string
  | ConfigurationError
  | OwnerError string
  | ProtocolError string
  | PublishError string

type_synonym ('o, 'd) reply = "(authority_error + 'd) \<times> 'o authority"

definition newAuthority :: "repo \<Rightarrow> bool \<Rightarrow> int \<Rightarrow> authority_error + 'o authority" where
  "newAuthority R recovery bootstrapTimeoutMs =
     (if \<not> positive_int bootstrapTimeoutMs then Inl ConfigurationError
      else Inr \<lparr>au_repository = R, au_supportsRecovery = recovery,
                au_bootstrapTimeoutMs = bootstrapTimeoutMs, au_waiters = [], au_deferreds = []\<rparr>)"

text \<open>\<open>return this.repository.operation(input)\<close>\<close>

definition delegate :: "(repo \<Rightarrow> 'd answer) \<Rightarrow> 'o authority \<Rightarrow> ('o, 'd) reply" where
  "delegate operation A =
     (case operation (au_repository A) of
        (result, R) \<Rightarrow> (map_sum PortError id result, A\<lparr>au_repository := R\<rparr>))"

section \<open>Waiters\<close>

definition installWaiter :: "string \<Rightarrow> 'o authority \<Rightarrow> 'o authority" where
  "installWaiter executionAttemptId A =
     A\<lparr>au_waiters := map_set executionAttemptId (length (au_deferreds A)) (au_waiters A),
       au_deferreds := au_deferreds A @ [(executionAttemptId, Pending)]\<rparr>"

text \<open>Resolving or rejecting a promise that is already settled has no effect.\<close>

definition settle_promise :: "nat \<Rightarrow> 'o promise \<Rightarrow> 'o authority \<Rightarrow> 'o authority" where
  "settle_promise n p A =
     (if n < length (au_deferreds A) \<and> snd (au_deferreds A ! n) = Pending
      then A\<lparr>au_deferreds := (au_deferreds A)[n := (fst (au_deferreds A ! n), p)]\<rparr>
      else A)"

definition discardWaiter :: "string \<Rightarrow> 'o authority \<Rightarrow> 'o authority" where
  "discardWaiter executionAttemptId A =
     A\<lparr>au_waiters := map_delete executionAttemptId (au_waiters A)\<rparr>"

definition settle_waiter :: "string \<Rightarrow> 'o promise \<Rightarrow> 'o authority \<Rightarrow> 'o authority" where
  "settle_waiter executionAttemptId p A =
     (case map_get (au_waiters A) executionAttemptId of
        None \<Rightarrow> A
      | Some n \<Rightarrow> discardWaiter executionAttemptId (settle_promise n p A))"

definition rejectWaiterWith :: "string \<Rightarrow> string \<Rightarrow> 'o authority \<Rightarrow> 'o authority" where
  "rejectWaiterWith executionAttemptId failure A = settle_waiter executionAttemptId (Rejected failure) A"

definition rejectAndDiscardWaiter :: "string \<Rightarrow> string \<Rightarrow> 'o authority \<Rightarrow> 'o authority" where
  "rejectAndDiscardWaiter executionAttemptId failure A = rejectWaiterWith executionAttemptId failure A"

definition waitForOutcome :: "string \<Rightarrow> 'o authority \<Rightarrow> nat option" where
  "waitForOutcome executionAttemptId A = map_get (au_waiters A) executionAttemptId"

datatype 'o settlement_decision =
    SettleAccepted "'o accepted_outcome"
  | SettleConflict
  | SettleFenced

definition quoted :: "string \<Rightarrow> string" where
  "quoted s = [CHR 0x27] @ s @ [CHR 0x27]"

definition conflict_message :: "string \<Rightarrow> string" where
  "conflict_message i =
     ''Outcome conflict for attempt '' @ quoted i @ '': a different outcome was already committed''"

definition fenced_message :: "string \<Rightarrow> string" where
  "fenced_message i =
     ''Attempt '' @ quoted i
     @ '' has been fenced: it is no longer the active attempt for this execution''"

definition settleWaiterInternal :: "string \<Rightarrow> 'o settlement_decision \<Rightarrow> 'o authority \<Rightarrow> 'o authority" where
  "settleWaiterInternal executionAttemptId decision A =
     settle_waiter executionAttemptId
       (case decision of
          SettleAccepted v \<Rightarrow> Resolved v
        | SettleConflict \<Rightarrow> Rejected (conflict_message executionAttemptId)
        | SettleFenced \<Rightarrow> Rejected (fenced_message executionAttemptId)) A"

definition settleOutcome :: "string \<Rightarrow> 'o settlement_decision \<Rightarrow> 'o authority \<Rightarrow> 'o authority" where
  "settleOutcome executionAttemptId decision A = settleWaiterInternal executionAttemptId decision A"

section \<open>Operations passed on to the repository\<close>

definition authorityBeginProvisioning ::
    "'e port_env \<Rightarrow> begin_input \<Rightarrow> string \<Rightarrow> 'o authority \<Rightarrow> ('o, provider_decision) reply" where
  "authorityBeginProvisioning E input uuid = delegate (beginProvisioning E input uuid)"

definition authorityRenewProviderOperationClaim ::
    "'e port_env \<Rightarrow> claim \<Rightarrow> string \<Rightarrow> 'o authority \<Rightarrow> ('o, provider_decision) reply" where
  "authorityRenewProviderOperationClaim E c lease = delegate (renewProviderOperationClaim E c lease)"

definition authorityTakeOverProviderOperation ::
    "'e port_env \<Rightarrow> string \<Rightarrow> string \<Rightarrow> string \<Rightarrow> string \<Rightarrow> string \<Rightarrow> 'o authority \<Rightarrow> ('o, provider_decision) reply" where
  "authorityTakeOverProviderOperation E i owner observed lease uuid = delegate (takeOverProviderOperation E i owner observed lease uuid)"

definition authorityHandoffProviderOperation ::
    "'e port_env \<Rightarrow> claim \<Rightarrow> evidence option \<Rightarrow> 'o authority \<Rightarrow> ('o, provider_decision) reply" where
  "authorityHandoffProviderOperation E c ev = delegate (handoffProviderOperation E c ev)"

definition authorityRecordProviderOperationUncertainty ::
    "'e port_env \<Rightarrow> claim \<Rightarrow> evidence \<Rightarrow> 'o authority \<Rightarrow> ('o, provider_decision) reply" where
  "authorityRecordProviderOperationUncertainty E c ev = delegate (recordProviderOperationUncertainty E c ev)"

definition authorityCompleteProviderOperation ::
    "'e port_env \<Rightarrow> claim \<Rightarrow> evidence \<Rightarrow> 'o authority \<Rightarrow> ('o, provider_decision) reply" where
  "authorityCompleteProviderOperation E c ev = delegate (completeProviderOperation E c ev)"

definition authorityRecordAllocation ::
    "claim \<Rightarrow> allocation_ref \<Rightarrow> 'o authority \<Rightarrow> ('o, provider_decision) reply" where
  "authorityRecordAllocation c ref = delegate (recordAllocation c ref)"

definition authorityRecordAllocationTerminated ::
    "'e port_env \<Rightarrow> claim \<Rightarrow> evidence \<Rightarrow> 'o authority \<Rightarrow> ('o, provider_decision) reply" where
  "authorityRecordAllocationTerminated E c ev = delegate (recordAllocationTerminated E c ev)"

definition authorityRegisterRuntime ::
    "register_input \<Rightarrow> 'o authority \<Rightarrow> ('o, runtime_decision) reply" where
  "authorityRegisterRuntime input = delegate (registerRuntime input)"

definition authorityAdmitOperation ::
    "admit_input \<Rightarrow> string \<Rightarrow> instant \<Rightarrow> 'o authority \<Rightarrow> ('o, runtime_decision) reply" where
  "authorityAdmitOperation input uuid now = delegate (admitOperation input uuid now)"

definition authorityCompleteOperation ::
    "complete_input \<Rightarrow> 'o authority \<Rightarrow> ('o, runtime_decision) reply" where
  "authorityCompleteOperation input = delegate (completeOperation input)"

definition authorityMarkRuntimeReady ::
    "'e port_env \<Rightarrow> ready_input \<Rightarrow> 'o authority \<Rightarrow> ('o, runtime_decision) reply" where
  "authorityMarkRuntimeReady E input = delegate (markRuntimeReady E input)"

definition authorityReportOperation ::
    "report_input \<Rightarrow> 'o authority \<Rightarrow> ('o, runtime_decision) reply" where
  "authorityReportOperation input = delegate (reportOperation input)"

definition authorityRequestAttemptCancellation ::
    "string \<Rightarrow> string \<Rightarrow> string \<Rightarrow> string option \<Rightarrow> instant \<Rightarrow> 'o authority \<Rightarrow> ('o, cancellation_decision) reply" where
  "authorityRequestAttemptCancellation executionId i key reason now = delegate (requestAttemptCancellation executionId i key reason now)"

definition authorityRequestCancellation ::
    "string \<Rightarrow> string option \<Rightarrow> string \<Rightarrow> instant \<Rightarrow> 'o authority \<Rightarrow> ('o, unit) reply" where
  "authorityRequestCancellation executionId reason uuid now = delegate (requestCancellation executionId reason uuid now)"

definition authorityRecordAttemptControlReceipt ::
    "'e port_env \<Rightarrow> string \<Rightarrow> control_receipt \<Rightarrow> 'o authority \<Rightarrow> ('o, evidence_decision) reply" where
  "authorityRecordAttemptControlReceipt E executionId receipt = delegate (recordAttemptControlReceipt E executionId receipt)"

definition authorityReportAttemptControl ::
    "'e port_env \<Rightarrow> string \<Rightarrow> control_report \<Rightarrow> 'o authority \<Rightarrow> ('o, evidence_decision) reply" where
  "authorityReportAttemptControl E executionId report = delegate (reportAttemptControl E executionId report)"

lemmas authority_calls [attempt_defs] =
  authorityBeginProvisioning_def authorityRenewProviderOperationClaim_def
  authorityTakeOverProviderOperation_def authorityHandoffProviderOperation_def
  authorityRecordProviderOperationUncertainty_def authorityCompleteProviderOperation_def
  authorityRecordAllocation_def authorityRecordAllocationTerminated_def
  authorityRegisterRuntime_def authorityAdmitOperation_def authorityCompleteOperation_def
  authorityMarkRuntimeReady_def authorityReportOperation_def
  authorityRequestAttemptCancellation_def authorityRequestCancellation_def
  authorityRecordAttemptControlReceipt_def authorityReportAttemptControl_def

section \<open>Operations that touch waiters\<close>

definition authorityCreateAttempt ::
    "string \<Rightarrow> instruction \<Rightarrow> string \<Rightarrow> instant \<Rightarrow> ('o authority \<Rightarrow> 'o authority)
     \<Rightarrow> 'o authority \<Rightarrow> ('o, attempt) reply" where
  "authorityCreateAttempt executionId instr uuid now world A =
     (case delegate (createAttempt
              \<lparr>cr_executionAttemptId = uuid, cr_executionId = executionId, cr_instruction = instr,
               cr_bootstrapTimeoutMs = au_bootstrapTimeoutMs A\<rparr> now) A of
        (Inl e, A1) \<Rightarrow> (Inl e, A1)
      | (Inr a, A1) \<Rightarrow> (Inr a, installWaiter uuid (world A1)))"

definition snapshotEnsureExecutionAttemptInput ::
    "string \<Rightarrow> string \<Rightarrow> instruction \<Rightarrow> attempt_error + instruction" where
  "snapshotEnsureExecutionAttemptInput executionId requestKey instr =
     (case requireIdentity executionId ''executionId'' of
        Inl e \<Rightarrow> Inl e
      | Inr _ \<Rightarrow> (case requireIdentity requestKey ''requestKey'' of
                    Inl e \<Rightarrow> Inl e
                  | Inr _ \<Rightarrow> parseInstruction instr))"

definition authorityEnsureAttempt ::
    "string \<Rightarrow> string \<Rightarrow> instruction \<Rightarrow> string \<Rightarrow> instant \<Rightarrow> 'o authority \<Rightarrow> ('o, ensure_decision) reply" where
  "authorityEnsureAttempt executionId requestKey instr uuid now A =
     (case snapshotEnsureExecutionAttemptInput executionId requestKey instr of
        Inl e \<Rightarrow> (Inl (PortError e), A)
      | Inr i \<Rightarrow>
          delegate (ensureAttempt
            \<lparr>cr_executionAttemptId = uuid, cr_executionId = executionId, cr_instruction = i,
             cr_bootstrapTimeoutMs = au_bootstrapTimeoutMs A, en_requestKey = requestKey\<rparr> now) A)"

definition reported :: "string \<Rightarrow> string \<Rightarrow> string" where
  "reported source summary =
     source @ '' reported '' @ quoted summary"

definition authorityRecordProvisioningAbsent ::
    "'e port_env \<Rightarrow> claim \<Rightarrow> string \<Rightarrow> evidence \<Rightarrow> ('o authority \<Rightarrow> 'o authority)
     \<Rightarrow> 'o authority \<Rightarrow> ('o, provider_decision) reply" where
  "authorityRecordProvisioningAbsent E c executionId ev world A =
     (case delegate (recordProvisioningAbsent E c executionId ev) A of
        (Inr PvRecorded, A1) \<Rightarrow>
          (Inr PvRecorded,
           rejectWaiterWith (cl_executionAttemptId c)
             (''Attempt '' @ quoted (cl_executionAttemptId c) @ '' provisioning produced no allocation: ''
              @ reported (ev_source ev) (ev_summary ev)) (world A1))
      | other \<Rightarrow> other)"

definition authorityRecordProvisionerIncarnationLost ::
    "'e port_env \<Rightarrow> claim \<Rightarrow> string \<Rightarrow> loss_proof \<Rightarrow> ('o authority \<Rightarrow> 'o authority)
     \<Rightarrow> 'o authority \<Rightarrow> ('o, provider_decision) reply" where
  "authorityRecordProvisionerIncarnationLost E c executionId proof world A =
     (case delegate (recordProvisionerIncarnationLost E c executionId proof) A of
        (Inr PvRecorded, A1) \<Rightarrow>
          (Inr PvRecorded,
           rejectWaiterWith (cl_executionAttemptId c)
             (''Attempt '' @ quoted (cl_executionAttemptId c) @ '' lost the provisioner incarnation ''
              @ quoted (lp_provisionerIncarnationId proof) @ '' its allocation was bound to: ''
              @ reported (ev_source (lp_evidence proof)) (ev_summary (lp_evidence proof))) (world A1))
      | other \<Rightarrow> other)"

definition authorityRecordInfrastructureFailure ::
    "claim \<Rightarrow> string \<Rightarrow> ('o authority \<Rightarrow> 'o authority) \<Rightarrow> 'o authority \<Rightarrow> ('o, provider_decision) reply" where
  "authorityRecordInfrastructureFailure c executionId world A =
     (case delegate (recordInfrastructureFailure c executionId) A of
        (Inr PvRecorded, A1) \<Rightarrow>
          (Inr PvRecorded,
           rejectWaiterWith (cl_executionAttemptId c)
             (''Attempt '' @ quoted (cl_executionAttemptId c) @ '' suffered infrastructure failure: ''
              @ ''the provider allocation terminated without an acknowledged outcome'') (world A1))
      | other \<Rightarrow> other)"

definition authorityAbandonPendingAttempt ::
    "string \<Rightarrow> string \<Rightarrow> ('o authority \<Rightarrow> 'o authority) \<Rightarrow> 'o authority \<Rightarrow> ('o, provider_decision) reply" where
  "authorityAbandonPendingAttempt executionAttemptId executionId world A =
     (case delegate (abandonPendingAttempt executionAttemptId executionId) A of
        (Inr d, A1) \<Rightarrow>
          (Inr d, if d = PvAbandoned \<or> d = PvAlreadyAbandoned
                  then discardWaiter executionAttemptId (world A1) else world A1)
      | (Inl e, A1) \<Rightarrow> (Inl e, A1))"

text \<open>What the authority does with the repository's decision once the await is over.\<close>

definition settle_decision :: "string \<Rightarrow> 'o outcome_decision \<Rightarrow> 'o authority \<Rightarrow> 'o authority" where
  "settle_decision executionAttemptId d A =
     (case d of
        OcConflict \<Rightarrow> settleWaiterInternal executionAttemptId SettleConflict A
      | OcFenced \<Rightarrow> settleWaiterInternal executionAttemptId SettleFenced A
      | _ \<Rightarrow> A)"

definition authorityCommitOutcome ::
    "'o port_env \<Rightarrow> 'o commit_input \<Rightarrow> ('o authority \<Rightarrow> 'o authority) \<Rightarrow> 'o authority
     \<Rightarrow> ('o, 'o outcome_decision) reply" where
  "authorityCommitOutcome E input world A =
     (case delegate (commitOutcome E input) A of
        (Inr d, A1) \<Rightarrow> (Inr d, settle_decision (cm_executionAttemptId input) d (world A1))
      | (Inl e, A1) \<Rightarrow> (Inl e, A1))"

section \<open>Recovery\<close>

definition requireRecovery :: "string \<Rightarrow> 'o authority \<Rightarrow> authority_error + unit" where
  "requireRecovery operation A =
     (if au_supportsRecovery A then Inr () else Inl (RecoveryUnsupported operation))"

definition authorityEvolveAllocationRef ::
    "claim \<Rightarrow> string \<Rightarrow> allocation_ref \<Rightarrow> allocation_ref \<Rightarrow> 'o authority \<Rightarrow> ('o, provider_decision) reply" where
  "authorityEvolveAllocationRef c executionId current next A =
     (case requireRecovery ''evolveAllocationRef'' A of
        Inl e \<Rightarrow> (Inl e, A)
      | Inr _ \<Rightarrow>
          if ref_providerId current \<noteq> ref_providerId next
          then (Inl (ProviderIdentityMismatch (ref_providerId current) (ref_providerId next)), A)
          else delegate (evolveAllocationRef c executionId current next) A)"

definition authorityRecordDiscoveredAllocation ::
    "claim \<Rightarrow> allocation_ref \<Rightarrow> 'o authority \<Rightarrow> ('o, provider_decision) reply" where
  "authorityRecordDiscoveredAllocation c ref A =
     (case requireRecovery ''recordDiscoveredAllocation'' A of
        Inl e \<Rightarrow> (Inl e, A)
      | Inr _ \<Rightarrow> delegate (recordDiscoveredAllocation c ref) A)"

definition authorityGetRecoverableAttempts ::
    "string \<Rightarrow> instant \<Rightarrow> 'o authority \<Rightarrow> authority_error + attempt list" where
  "authorityGetRecoverableAttempts executionId now A =
     (case requireRecovery ''getRecoverableAttempts'' A of
        Inl e \<Rightarrow> Inl e
      | Inr _ \<Rightarrow> map_sum PortError id (getRecoverableAttempts executionId now (au_repository A)))"

definition authorityListOpenProviderOperations ::
    "'e port_env \<Rightarrow> string \<Rightarrow> int \<Rightarrow> 'o authority \<Rightarrow> authority_error + (attempt \<times> operation) list" where
  "authorityListOpenProviderOperations E observedAt limit A =
     (case requireRecovery ''listOpenProviderOperations'' A of
        Inl e \<Rightarrow> Inl e
      | Inr _ \<Rightarrow> map_sum PortError id (listOpenProviderOperations E observedAt limit (au_repository A)))"

section \<open>The submission boundary\<close>

record 'o convergence_input =
  ov_executionId :: string
  ov_executionAttemptId :: string
  ov_outcome :: 'o
  ov_duplicate :: bool
  ov_controlObservation :: "outcome_observation option"

text \<open>The owner's side: an optional check before the commit, and convergence after it; both may throw.\<close>

record 'o owner_port =
  ow_validate :: "(string \<Rightarrow> 'o \<Rightarrow> string option) option"
  ow_converge :: "'o convergence_input \<Rightarrow> string + outcome_acceptance"

record 'o submission =
  sb_executionId :: string
  sb_executionAttemptId :: string
  sb_outcome :: 'o
  sb_runtimeFence :: "outcome_fence option"

datatype ack = AckAccepted | AckDuplicate | AckConflict | AckFenced

definition submission_commit :: "'o submission \<Rightarrow> 'o durable_outcome \<Rightarrow> 'o commit_input" where
  "submission_commit input durable =
     \<lparr>cm_executionId = sb_executionId input, cm_executionAttemptId = sb_executionAttemptId input,
      cm_result = durable, cm_runtimeFence = sb_runtimeFence input\<rparr>"

text \<open>The waiter settles on a fresh decode of the text the attempt holds.\<close>

definition settle_converged ::
    "'o port_env \<Rightarrow> string \<Rightarrow> bool \<Rightarrow> string \<Rightarrow> outcome_observation option \<Rightarrow> outcome_acceptance
     \<Rightarrow> 'o authority \<Rightarrow> ('o, ack) reply" where
  "settle_converged E executionAttemptId isDuplicate text observation acceptance A =
     (case decodeDurableOutcome E text of
        Inl e \<Rightarrow> (Inl (PortError e), A)
      | Inr fresh \<Rightarrow>
          (Inr (if isDuplicate then AckDuplicate else AckAccepted),
           settleOutcome executionAttemptId
             (SettleAccepted \<lparr>ao_outcome = fresh, ao_controlObservation = observation,
                              ao_acceptance = acceptance\<rparr>) A))"

text \<open>
  A submission between two awaits. It waits for the owner's validation with the rendering made from the
  submitted outcome, then for the repository's commit, whose decision the authority acts on when the
  call returns, and for an accepted or duplicate decision for the owner's convergence. The decision's
  text and observation are what is carried on to the settlement.
\<close>

datatype 'o submission_stage =
    AwaitingValidation "'o owner_port" "'o submission" "'o durable_outcome"
  | AwaitingCommit "'o owner_port" "'o submission" "'o outcome_decision"
  | AwaitingConvergence "'o submission" bool string "outcome_observation option" "string + outcome_acceptance"

definition begin_submission ::
    "'o port_env \<Rightarrow> 'o owner_port \<Rightarrow> 'o submission \<Rightarrow> attempt_error + 'o submission_stage" where
  "begin_submission E owner input = map_sum id (AwaitingValidation owner input) (durableOutcome E (sb_outcome input))"

definition validation_error :: "'o owner_port \<Rightarrow> 'o submission \<Rightarrow> 'o durable_outcome \<Rightarrow> string option" where
  "validation_error owner input durable =
     (case ow_validate owner of
        None \<Rightarrow> None
      | Some validate \<Rightarrow> validate (sb_executionId input) (du_outcome durable))"

definition start_convergence ::
    "'o owner_port \<Rightarrow> 'o submission \<Rightarrow> bool \<Rightarrow> 'o \<Rightarrow> string \<Rightarrow> outcome_observation option \<Rightarrow> 'o submission_stage" where
  "start_convergence owner input isDuplicate out text observation =
     AwaitingConvergence input isDuplicate text observation
       (ow_converge owner
          \<lparr>ov_executionId = sb_executionId input, ov_executionAttemptId = sb_executionAttemptId input,
           ov_outcome = out, ov_duplicate = isDuplicate, ov_controlObservation = observation\<rparr>)"

text \<open>What runs when an await is over: to the next await or to the answer.\<close>

fun resume_submission ::
    "'o port_env \<Rightarrow> 'o submission_stage \<Rightarrow> 'o authority
     \<Rightarrow> 'o authority \<times> ((authority_error + ack) + 'o submission_stage)" where
  "resume_submission E (AwaitingValidation owner input durable) A =
     (case validation_error owner input durable of
        Some e \<Rightarrow> (A, Inl (Inl (OwnerError e)))
      | None \<Rightarrow>
          (case delegate (commitOutcome E (submission_commit input durable)) A of
             (Inl e, A1) \<Rightarrow> (A1, Inl (Inl e))
           | (Inr decision, A1) \<Rightarrow> (A1, Inr (AwaitingCommit owner input decision))))"
| "resume_submission E (AwaitingCommit owner input decision) A =
     (settle_decision (sb_executionAttemptId input) decision A,
      case decision of
        OcConflict \<Rightarrow> Inl (Inr AckConflict)
      | OcFenced \<Rightarrow> Inl (Inr AckFenced)
      | OcAccepted out text ob \<Rightarrow> Inr (start_convergence owner input False out text (Some ob))
      | OcDuplicate out text ob \<Rightarrow> Inr (start_convergence owner input True out text ob))"
| "resume_submission E (AwaitingConvergence input isDuplicate text observation converged) A =
     (case converged of
        Inl e \<Rightarrow> (A, Inl (Inl (OwnerError e)))
      | Inr acceptance \<Rightarrow>
          (case settle_converged E (sb_executionAttemptId input) isDuplicate text observation acceptance A of
             (answer, A1) \<Rightarrow> (A1, Inl answer)))"

fun stage_rank :: "'o submission_stage \<Rightarrow> nat" where
  "stage_rank (AwaitingValidation owner input durable) = 2"
| "stage_rank (AwaitingCommit owner input decision) = 1"
| "stage_rank (AwaitingConvergence input isDuplicate text observation converged) = 0"

lemma resume_submission_rank:
  "resume_submission E stage A = (B, Inr stage') \<Longrightarrow> stage_rank stage' < stage_rank stage"
  by (cases stage)
    (auto simp: start_convergence_def split: option.splits sum.splits prod.splits outcome_decision.splits)

text \<open>The whole call: the rest of the process runs at each await.\<close>

function run_submission ::
    "'o port_env \<Rightarrow> (nat \<Rightarrow> 'o authority \<Rightarrow> 'o authority) \<Rightarrow> nat \<Rightarrow> 'o submission_stage \<Rightarrow> 'o authority
     \<Rightarrow> ('o, ack) reply" where
  "run_submission E world k stage A =
     (case resume_submission E stage (world k A) of
        (B, Inl answer) \<Rightarrow> (answer, B)
      | (B, Inr stage') \<Rightarrow> run_submission E world (Suc k) stage' B)"
  by pat_completeness auto
termination
  by (relation "measure (\<lambda>(E, world, k, stage, A). stage_rank stage)")
    (auto dest: resume_submission_rank [OF sym])

declare run_submission.simps [simp del]

definition submitAttemptOutcome ::
    "'o port_env \<Rightarrow> 'o owner_port \<Rightarrow> 'o submission \<Rightarrow> (nat \<Rightarrow> 'o authority \<Rightarrow> 'o authority)
     \<Rightarrow> 'o authority \<Rightarrow> ('o, ack) reply" where
  "submitAttemptOutcome E owner input world A =
     (case begin_submission E owner input of
        Inl e \<Rightarrow> (Inl (PortError e), A)
      | Inr stage \<Rightarrow> run_submission E world 0 stage A)"

section \<open>A submission in one piece\<close>

text \<open>
  The call written as one expression, over the authority's own \<open>commitOutcome\<close>. The stages compute
  exactly this.
\<close>

definition converge_and_settle ::
    "'o port_env \<Rightarrow> 'o owner_port \<Rightarrow> 'o submission \<Rightarrow> bool \<Rightarrow> 'o \<Rightarrow> string \<Rightarrow> outcome_observation option
     \<Rightarrow> ('o authority \<Rightarrow> 'o authority) \<Rightarrow> 'o authority \<Rightarrow> ('o, ack) reply" where
  "converge_and_settle E owner input isDuplicate out text observation world A =
     (case ow_converge owner
             \<lparr>ov_executionId = sb_executionId input, ov_executionAttemptId = sb_executionAttemptId input,
              ov_outcome = out, ov_duplicate = isDuplicate, ov_controlObservation = observation\<rparr> of
        Inl e \<Rightarrow> (Inl (OwnerError e), world A)
      | Inr acceptance \<Rightarrow>
          settle_converged E (sb_executionAttemptId input) isDuplicate text observation acceptance (world A))"

lemma run_convergence:
  "run_submission E world k (start_convergence owner input dup out text ob) A
   = converge_and_settle E owner input dup out text ob (world k) A"
  by (subst run_submission.simps)
    (auto simp: start_convergence_def converge_and_settle_def split: sum.splits prod.splits)

lemma run_commit:
  "run_submission E world k (AwaitingCommit owner input decision) A =
     (let A1 = settle_decision (sb_executionAttemptId input) decision (world k A) in
      case decision of
        OcConflict \<Rightarrow> (Inr AckConflict, A1)
      | OcFenced \<Rightarrow> (Inr AckFenced, A1)
      | OcAccepted out text ob \<Rightarrow> converge_and_settle E owner input False out text (Some ob) (world (Suc k)) A1
      | OcDuplicate out text ob \<Rightarrow> converge_and_settle E owner input True out text ob (world (Suc k)) A1)"
  by (subst run_submission.simps) (simp add: run_convergence Let_def split: outcome_decision.splits)

lemma submitAttemptOutcome_eq:
  "submitAttemptOutcome E owner input world A =
     (case durableOutcome E (sb_outcome input) of
        Inl e \<Rightarrow> (Inl (PortError e), A)
      | Inr durable \<Rightarrow>
          (case validation_error owner input durable of
             Some e \<Rightarrow> (Inl (OwnerError e), world 0 A)
           | None \<Rightarrow>
               (case authorityCommitOutcome E (submission_commit input durable) (world 1) (world 0 A) of
                  (Inl e, A1) \<Rightarrow> (Inl e, A1)
                | (Inr OcConflict, A1) \<Rightarrow> (Inr AckConflict, A1)
                | (Inr OcFenced, A1) \<Rightarrow> (Inr AckFenced, A1)
                | (Inr (OcAccepted out text ob), A1) \<Rightarrow>
                    converge_and_settle E owner input False out text (Some ob) (world 2) A1
                | (Inr (OcDuplicate out text ob), A1) \<Rightarrow>
                    converge_and_settle E owner input True out text ob (world 2) A1)))"
proof (cases "durableOutcome E (sb_outcome input)")
  case (Inr d)
  have "run_submission E world 0 (AwaitingValidation owner input d) A =
     (case validation_error owner input d of
        Some e \<Rightarrow> (Inl (OwnerError e), world 0 A)
      | None \<Rightarrow>
          (case delegate (commitOutcome E (submission_commit input d)) (world 0 A) of
             (Inl e, A1) \<Rightarrow> (Inl e, A1)
           | (Inr decision, A1) \<Rightarrow> run_submission E world 1 (AwaitingCommit owner input decision) A1))"
    by (subst run_submission.simps) (simp split: option.splits sum.splits prod.splits)
  then show ?thesis
    using Inr
    by (auto simp: submitAttemptOutcome_def begin_submission_def run_commit authorityCommitOutcome_def Let_def
        submission_commit_def numeral_2_eq_2 split: option.splits sum.splits prod.splits outcome_decision.splits)
qed (simp add: submitAttemptOutcome_def begin_submission_def)

end
