(* ===== verification/Attempt_Handlers.thy ===== *)
theory Attempt_Handlers
  imports Attempt_Authority
begin

text \<open>
  The bus handlers in front of the attempt authority: runtime registration with its bounded probe
  (\<open>runtime-registration.ts\<close>), operation admission (\<open>operation-admission.ts\<close>), instruction, preparation,
  control and outcome reports (\<open>execution-attempt-handlers.ts\<close>), the delivery of an accepted cancellation
  (\<open>attempt-control-delivery.ts\<close>) and the identity every one of them is fenced by
  (\<open>execution-bound-access.ts\<close>). A payload is the record its schema describes, and parsing checks what
  the schema requires of the fields. The bus is the record \<open>bus_port\<close>: what a request to the runtime
  answers (\<open>None\<close> for a timeout, an absent responder or a thrown error) and whether publishing an event
  throws. \<open>world k\<close> is what the rest of the process does during the \<open>k\<close>-th await of a handler.
\<close>

section \<open>Who is calling\<close>

record transport_peer =
  pe_kind :: string
  pe_id :: "string option"
  pe_authenticated :: bool
  pe_claims :: "(string \<times> js_value) list"

record call_context =
  cx_local :: bool
  cx_peer :: "transport_peer option"

record peer_identity =
  pi_executionAttemptId :: string
  pi_executionId :: string

definition resolveExecutionAttemptPeer :: "call_context \<Rightarrow> peer_identity option" where
  "resolveExecutionAttemptPeer ctx =
     (case cx_peer ctx of
        None \<Rightarrow> None
      | Some peer \<Rightarrow>
          if \<not> pe_authenticated peer \<or> pe_kind peer \<noteq> ''workflow-execution-attempt'' then None
          else (case pe_id peer of
            None \<Rightarrow> None
          | Some i \<Rightarrow>
              if i = [] then None
              else (case map_of (pe_claims peer) ''executionId'' of
                Some (JStr e) \<Rightarrow>
                  if e = [] then None
                  else Some \<lparr>pi_executionAttemptId = i, pi_executionId = e\<rparr>
              | _ \<Rightarrow> None)))"

definition isExecutionBoundAccessAllowed :: "call_context \<Rightarrow> string \<Rightarrow> bool" where
  "isExecutionBoundAccessAllowed ctx executionId \<longleftrightarrow>
     cx_local ctx
     \<or> map_option pi_executionId (resolveExecutionAttemptPeer ctx) = Some executionId"

definition requireAttemptPeer :: "call_context \<Rightarrow> string \<Rightarrow> authority_error + peer_identity" where
  "requireAttemptPeer ctx executionAttemptId =
     (case resolveExecutionAttemptPeer ctx of
        None \<Rightarrow> Inl (ProtocolError ''Attempt requests require an authenticated workflow-execution-attempt peer'')
      | Some peer \<Rightarrow>
          if pi_executionAttemptId peer \<noteq> executionAttemptId
          then Inl (ProtocolError ''Request executionAttemptId does not match authenticated peer identity'')
          else Inr peer)"

section \<open>The bus\<close>

record delivery =
  dv_executionAttemptId :: string
  dv_runtimeIncarnationId :: string
  dv_operationId :: string
  dv_operationKind :: operation_kind
  dv_runtimeGeneration :: int

datatype receipt = ReceiptCompleted | ReceiptDuplicate | ReceiptRefused

record control_delivery =
  dl_executionAttemptId :: string
  dl_runtimeIncarnationId :: string
  dl_runtimeGeneration :: int
  dl_cancellation :: cancellation_intent

datatype delivery_refusal = DeliveryStaleGeneration | DeliveryUnsupported
datatype control_response = ControlReceived control_receipt | ControlRefused delivery_refusal

datatype attempt_event =
    RuntimeReadyEvent string int instant
  | OperationAdmittedEvent string string operation_kind int instant

record bus_port =
  bp_deliver :: "delivery \<Rightarrow> receipt option"
  bp_deliverControl :: "control_delivery \<Rightarrow> control_response option"
  bp_publishFails :: "attempt_event \<Rightarrow> string option"

type_synonym ('o, 'd) handled = "(authority_error + 'd) \<times> attempt_event list \<times> 'o authority"

section \<open>Runtime registration\<close>

record register_request =
  rq_executionAttemptId :: string
  rq_runtimeIncarnationId :: string

definition register_request_ok :: "register_request \<Rightarrow> bool" where
  "register_request_ok r \<longleftrightarrow>
     is_identifier (rq_executionAttemptId r) \<and> is_identifier (rq_runtimeIncarnationId r)"

datatype register_response =
    RegisteredReady int
  | RegisteredDuplicate int
  | RegistrationRefused runtime_decision
  | ProbeFailed

text \<open>What a registration reports as its generation; a refusal hands out no fence.\<close>

fun response_generation :: "register_response \<Rightarrow> int" where
  "response_generation (RegisteredReady g) = g"
| "response_generation (RegisteredDuplicate g) = g"
| "response_generation _ = 0"

definition announceReadiness ::
    "bus_port \<Rightarrow> string \<Rightarrow> int \<Rightarrow> 'o authority \<Rightarrow> string option \<times> attempt_event list" where
  "announceReadiness bus executionAttemptId runtimeGeneration A =
     (case getAttemptControlState executionAttemptId (au_repository A) of
        None \<Rightarrow> (None, [])
      | Some control \<Rightarrow>
          if cs_runtimeGeneration control \<noteq> runtimeGeneration then (None, [])
          else (case cs_runtimeReadyAt control of
            None \<Rightarrow> (None, [])
          | Some acceptedAt \<Rightarrow>
              let event = RuntimeReadyEvent executionAttemptId runtimeGeneration acceptedAt in
              (bp_publishFails bus event, [event])))"

definition releaseAdmittedProbe :: "string \<Rightarrow> string \<Rightarrow> int \<Rightarrow> 'o authority \<Rightarrow> 'o authority" where
  "releaseAdmittedProbe executionAttemptId operationId runtimeGeneration A =
     snd (authorityCompleteOperation
       \<lparr>co_executionAttemptId = executionAttemptId, co_operationId = operationId,
        co_runtimeGeneration = runtimeGeneration\<rparr> A)"

fun admitted_operation :: "runtime_decision \<Rightarrow> string option" where
  "admitted_operation (RtAdmitted i g t) = Some i"
| "admitted_operation (RtDuplicateAdmission i g t) = Some i"
| "admitted_operation _ = None"

fun proven_readiness :: "runtime_decision \<Rightarrow> instant option" where
  "proven_readiness (RtReady t) = Some t"
| "proven_readiness (RtDuplicateReadiness t) = Some t"
| "proven_readiness _ = None"

text \<open>Steps 5 and 6 of the handshake: persist the completion, then make readiness durable.\<close>

definition confirm_probe ::
    "'e port_env \<Rightarrow> string \<Rightarrow> string \<Rightarrow> int \<Rightarrow> string \<Rightarrow> string \<Rightarrow> (nat \<Rightarrow> 'o authority \<Rightarrow> 'o authority)
     \<Rightarrow> 'o authority \<Rightarrow> ('o, instant option) reply" where
  "confirm_probe E executionAttemptId executionId runtimeGeneration operationId readyAt world A =
     (case authorityCompleteOperation
             \<lparr>co_executionAttemptId = executionAttemptId, co_operationId = operationId,
              co_runtimeGeneration = runtimeGeneration\<rparr> A of
        (Inl e, A1) \<Rightarrow> (Inl e, A1)
      | (Inr completion, A1) \<Rightarrow>
          if completion \<noteq> RtCompleted \<and> completion \<noteq> RtDuplicateCompletion then (Inr None, world 3 A1)
          else (case authorityMarkRuntimeReady E
                       \<lparr>rd_executionAttemptId = executionAttemptId, rd_executionId = executionId,
                        rd_runtimeGeneration = runtimeGeneration, rd_readyAt = readyAt\<rparr> (world 3 A1) of
            (Inl e, A2) \<Rightarrow> (Inl e, A2)
          | (Inr readiness, A2) \<Rightarrow> (Inr (proven_readiness readiness), world 4 A2)))"

definition proveRuntimeEndpoint ::
    "'e port_env \<Rightarrow> bus_port \<Rightarrow> string \<Rightarrow> string \<Rightarrow> string \<Rightarrow> int \<Rightarrow> string \<Rightarrow> instant \<Rightarrow> string
     \<Rightarrow> (nat \<Rightarrow> 'o authority \<Rightarrow> 'o authority) \<Rightarrow> 'o authority \<Rightarrow> ('o, instant option) reply" where
  "proveRuntimeEndpoint E bus executionAttemptId executionId runtimeIncarnationId runtimeGeneration
     uuid now readyAt world A =
     (case authorityAdmitOperation
             \<lparr>ai_executionAttemptId = executionAttemptId, ai_executionId = executionId,
              ai_operationKind = RuntimeProbe, ai_admissionKey = ''probe:'' @ runtimeIncarnationId,
              ai_runtimeGeneration = runtimeGeneration\<rparr> uuid now A of
        (Inl e, A1) \<Rightarrow> (Inl e, A1)
      | (Inr admission, A1) \<Rightarrow>
          (case admitted_operation admission of
             None \<Rightarrow> (Inr None, world 1 A1)
           | Some operationId \<Rightarrow>
               let delivered = bp_deliver bus
                     \<lparr>dv_executionAttemptId = executionAttemptId,
                      dv_runtimeIncarnationId = runtimeIncarnationId, dv_operationId = operationId,
                      dv_operationKind = RuntimeProbe, dv_runtimeGeneration = runtimeGeneration\<rparr>;
                   A2 = world 2 (world 1 A1) in
               if delivered = Some ReceiptCompleted \<or> delivered = Some ReceiptDuplicate
               then confirm_probe E executionAttemptId executionId runtimeGeneration operationId readyAt world A2
               else (Inr None, world 3 (releaseAdmittedProbe executionAttemptId operationId runtimeGeneration A2))))"

text \<open>The end of a registration: announce, then answer.\<close>

definition announce_and_reply ::
    "bus_port \<Rightarrow> string \<Rightarrow> int \<Rightarrow> register_response \<Rightarrow> ('o authority \<Rightarrow> 'o authority) \<Rightarrow> 'o authority
     \<Rightarrow> ('o, register_response) handled" where
  "announce_and_reply bus executionAttemptId runtimeGeneration response world A =
     (case announceReadiness bus executionAttemptId runtimeGeneration A of
        (Some e, events) \<Rightarrow> (Inl (PublishError e), events, world A)
      | (None, events) \<Rightarrow> (Inr response, events, world A))"

definition handleRuntimeRegister ::
    "'e port_env \<Rightarrow> bus_port \<Rightarrow> call_context \<Rightarrow> register_request \<Rightarrow> string \<Rightarrow> instant \<Rightarrow> string
     \<Rightarrow> (nat \<Rightarrow> 'o authority \<Rightarrow> 'o authority) \<Rightarrow> 'o authority \<Rightarrow> ('o, register_response) handled" where
  "handleRuntimeRegister E bus ctx request uuid now readyAt world A =
     (case resolveExecutionAttemptPeer ctx of
        None \<Rightarrow>
          (Inl (ProtocolError ''Runtime registration requires an authenticated workflow-execution-attempt peer''),
           [], A)
      | Some peer \<Rightarrow>
          if \<not> register_request_ok request then (Inl (ProtocolError ''runtime.register''), [], A)
          else if rq_executionAttemptId request \<noteq> pi_executionAttemptId peer
          then (Inl (ProtocolError ''Registration payload does not match authenticated peer identity''), [], A)
          else
            let i = rq_executionAttemptId request; n = rq_runtimeIncarnationId request in
            (case authorityRegisterRuntime
                    \<lparr>ri_executionAttemptId = i, ri_executionId = pi_executionId peer,
                     ri_runtimeIncarnationId = n\<rparr> A of
               (Inl e, A1) \<Rightarrow> (Inl e, [], A1)
             | (Inr registration, A1) \<Rightarrow>
                 let prove = (\<lambda>g.
                       case proveRuntimeEndpoint E bus i (pi_executionId peer) n g uuid now readyAt world
                              (world 0 A1) of
                         (Inl e, A2) \<Rightarrow> (Inl e, [], A2)
                       | (Inr None, A2) \<Rightarrow> (Inr ProbeFailed, [], A2)
                       | (Inr (Some t), A2) \<Rightarrow> announce_and_reply bus i g (RegisteredReady g) (world 5) A2) in
                 (case registration of
                    RtRegistered g \<Rightarrow> prove g
                  | RtDuplicateRegistration g None \<Rightarrow> prove g
                  | RtDuplicateRegistration g (Some t) \<Rightarrow>
                      announce_and_reply bus i g (RegisteredDuplicate g) (world 5) (world 0 A1)
                  | refusal \<Rightarrow> (Inr (RegistrationRefused refusal), [], world 0 A1))))"

section \<open>Operation admission\<close>

record admit_request =
  aq_executionAttemptId :: string
  aq_operationKind :: operation_kind
  aq_admissionKey :: string
  aq_runtimeGeneration :: int

definition admit_request_ok :: "admit_request \<Rightarrow> bool" where
  "admit_request_ok r \<longleftrightarrow>
     is_identifier (aq_executionAttemptId r) \<and> is_identifier (aq_admissionKey r)
     \<and> positive_int (aq_runtimeGeneration r)"

datatype admit_response =
    ResponseAdmitted string
  | ResponseDuplicate string
  | ResponseRefused runtime_decision

definition announce_admission ::
    "bus_port \<Rightarrow> admit_request \<Rightarrow> string \<Rightarrow> int \<Rightarrow> instant \<Rightarrow> admit_response \<Rightarrow> 'o authority
     \<Rightarrow> ('o, admit_response) handled" where
  "announce_admission bus request operationId runtimeGeneration admittedAt response A =
     (let event = OperationAdmittedEvent (aq_executionAttemptId request) operationId
                    (aq_operationKind request) runtimeGeneration admittedAt in
      case bp_publishFails bus event of
        Some e \<Rightarrow> (Inl (PublishError e), [event], A)
      | None \<Rightarrow> (Inr response, [event], A))"

definition handleOperationAdmit ::
    "bus_port \<Rightarrow> call_context \<Rightarrow> admit_request \<Rightarrow> string \<Rightarrow> instant
     \<Rightarrow> (nat \<Rightarrow> 'o authority \<Rightarrow> 'o authority) \<Rightarrow> 'o authority \<Rightarrow> ('o, admit_response) handled" where
  "handleOperationAdmit bus ctx request uuid now world A =
     (case resolveExecutionAttemptPeer ctx of
        None \<Rightarrow>
          (Inl (ProtocolError ''Operation admission requires an authenticated workflow-execution-attempt peer''),
           [], A)
      | Some peer \<Rightarrow>
          if \<not> admit_request_ok request then (Inl (ProtocolError ''operation.admit''), [], A)
          else if aq_executionAttemptId request \<noteq> pi_executionAttemptId peer
          then (Inl (ProtocolError ''Admission payload does not match authenticated peer identity''), [], A)
          else if aq_operationKind request = RuntimeProbe
          then (Inl (ProtocolError ''the bounded probe is admitted only by runtime registration''), [], A)
          else
            (case authorityAdmitOperation
                    \<lparr>ai_executionAttemptId = aq_executionAttemptId request,
                     ai_executionId = pi_executionId peer, ai_operationKind = aq_operationKind request,
                     ai_admissionKey = aq_admissionKey request,
                     ai_runtimeGeneration = aq_runtimeGeneration request\<rparr> uuid now A of
               (Inl e, A1) \<Rightarrow> (Inl e, [], A1)
             | (Inr (RtAdmitted i g t), A1) \<Rightarrow>
                 announce_admission bus request i g t (ResponseAdmitted i) (world 0 A1)
             | (Inr (RtDuplicateAdmission i g t), A1) \<Rightarrow>
                 announce_admission bus request i g t (ResponseDuplicate i) (world 0 A1)
             | (Inr refusal, A1) \<Rightarrow> (Inr (ResponseRefused refusal), [], world 0 A1)))"

section \<open>Instructions and reports\<close>

datatype instruction_response =
    InstructionFound instruction
  | InstructionNotFound
  | InstructionStaleGeneration

definition handleInstructionGet ::
    "call_context \<Rightarrow> string \<Rightarrow> int \<Rightarrow> (nat \<Rightarrow> 'o authority \<Rightarrow> 'o authority) \<Rightarrow> 'o authority
     \<Rightarrow> ('o, instruction_response) reply" where
  "handleInstructionGet ctx executionAttemptId runtimeGeneration world A =
     (if \<not> is_identifier executionAttemptId \<or> \<not> positive_int runtimeGeneration
      then (Inl (ProtocolError ''instruction.get''), A)
      else (case requireAttemptPeer ctx executionAttemptId of
        Inl e \<Rightarrow> (Inl e, A)
      | Inr peer \<Rightarrow>
          (case getInstruction (pi_executionId peer) (pi_executionAttemptId peer) (au_repository A) of
             None \<Rightarrow> (Inr InstructionNotFound, world 0 A)
           | Some instr \<Rightarrow>
               (Inr (if map_option cs_runtimeGeneration
                          (getAttemptControlState (pi_executionAttemptId peer) (au_repository (world 0 A)))
                        \<noteq> Some runtimeGeneration
                     then InstructionStaleGeneration else InstructionFound instr),
                world 1 (world 0 A)))))"

definition handleControlReport ::
    "'e port_env \<Rightarrow> call_context \<Rightarrow> control_report \<Rightarrow> 'o authority \<Rightarrow> ('o, evidence_decision) reply" where
  "handleControlReport E ctx request A =
     (if \<not> control_report_ok E request then (Inl (ProtocolError ''control.report''), A)
      else (case requireAttemptPeer ctx (cc_executionAttemptId request) of
        Inl e \<Rightarrow> (Inl e, A)
      | Inr peer \<Rightarrow> authorityReportAttemptControl E (pi_executionId peer) request A))"

record report_request =
  pq_executionAttemptId :: string
  pq_runtimeGeneration :: int
  pq_operationId :: string
  pq_result :: workspace_binding

definition report_request_ok :: "report_request \<Rightarrow> bool" where
  "report_request_ok r \<longleftrightarrow>
     is_identifier (pq_executionAttemptId r) \<and> positive_int (pq_runtimeGeneration r)
     \<and> is_identifier (pq_operationId r) \<and> binding_ok (pq_result r)"

definition handleOperationReport ::
    "call_context \<Rightarrow> report_request \<Rightarrow> 'o authority \<Rightarrow> ('o, runtime_decision) reply" where
  "handleOperationReport ctx request A =
     (if \<not> report_request_ok request then (Inl (ProtocolError ''operation.report''), A)
      else (case requireAttemptPeer ctx (pq_executionAttemptId request) of
        Inl e \<Rightarrow> (Inl e, A)
      | Inr peer \<Rightarrow>
          authorityReportOperation
            \<lparr>rp_executionAttemptId = pq_executionAttemptId request, rp_executionId = pi_executionId peer,
             rp_operationId = pq_operationId request, rp_runtimeGeneration = pq_runtimeGeneration request,
             rp_result = pq_result request\<rparr> A))"

section \<open>Outcomes\<close>

datatype failure_stage = StartupStage | PreparationStage | InvocationStage

datatype wire_outcome =
    TechnicalFailure failure_stage string
  | WorkloadResult js_value
  | CancelledOutcome "string option"

fun wire_outcome_ok :: "wire_outcome \<Rightarrow> bool" where
  "wire_outcome_ok (TechnicalFailure stage message) = size_within 1 8192 message"
| "wire_outcome_ok (WorkloadResult v) = json_data v"
| "wire_outcome_ok (CancelledOutcome reason) =
     (case reason of None \<Rightarrow> True | Some r \<Rightarrow> size_within 1 8192 r)"

record outcome_request =
  oq_executionAttemptId :: string
  oq_runtimeGeneration :: int
  oq_operationId :: "string option"
  oq_outcome :: wire_outcome

definition operation_optional :: "wire_outcome \<Rightarrow> bool" where
  "operation_optional o' \<longleftrightarrow>
     (case o' of CancelledOutcome r \<Rightarrow> True | TechnicalFailure stage m \<Rightarrow> stage = StartupStage | _ \<Rightarrow> False)"

definition outcome_request_ok :: "outcome_request \<Rightarrow> bool" where
  "outcome_request_ok r \<longleftrightarrow>
     is_identifier (oq_executionAttemptId r) \<and> positive_int (oq_runtimeGeneration r)
     \<and> (case oq_operationId r of None \<Rightarrow> operation_optional (oq_outcome r) | Some i \<Rightarrow> is_identifier i)
     \<and> wire_outcome_ok (oq_outcome r)"

text \<open>
  The stage the report names: \<open>None\<close> for a startup failure, otherwise the kind of operation that must be
  active (itself absent when a cancelled report meets an idle slot).
\<close>

fun outcome_stage :: "wire_outcome \<Rightarrow> operation_kind option \<Rightarrow> operation_kind option option" where
  "outcome_stage (TechnicalFailure StartupStage m) k = None"
| "outcome_stage (TechnicalFailure PreparationStage m) k = Some (Some WorkspacePreparation)"
| "outcome_stage (TechnicalFailure InvocationStage m) k = Some (Some WorkloadInvocation)"
| "outcome_stage (CancelledOutcome r) k = Some k"
| "outcome_stage (WorkloadResult v) k = Some (Some WorkloadInvocation)"

fun is_cancelled :: "wire_outcome \<Rightarrow> bool" where
  "is_cancelled (CancelledOutcome r) = True"
| "is_cancelled _ = False"

text \<open>An absent operation id of the request is \<open>undefined\<close>, which differs from the stored \<open>null\<close>.\<close>

definition matchesOutcomeCorrelation :: "control_state option \<Rightarrow> outcome_request \<Rightarrow> bool" where
  "matchesOutcomeCorrelation control request \<longleftrightarrow>
     (case control of
        None \<Rightarrow> False
      | Some c \<Rightarrow>
          if cs_runtimeGeneration c \<noteq> oq_runtimeGeneration request then False
          else if is_cancelled (oq_outcome request) \<and> oq_operationId request = None
          then cs_activeOperationId c = None
          else (case outcome_stage (oq_outcome request) (cs_activeOperationKind c) of
            None \<Rightarrow> oq_operationId request = None \<and> cs_activeOperationId c = None
          | Some stage \<Rightarrow>
              \<not> (oq_operationId request = None \<or> cs_activeOperationId c \<noteq> oq_operationId request
                 \<or> cs_activeOperationGeneration c \<noteq> Some (oq_runtimeGeneration request)
                 \<or> cs_activeOperationKind c \<noteq> stage
                 \<or> stage \<noteq> Some WorkspacePreparation \<and> stage \<noteq> Some WorkloadInvocation)))"

definition handleOutcomeSubmit ::
    "'o port_env \<Rightarrow> 'o owner_port \<Rightarrow> (instruction \<Rightarrow> wire_outcome \<Rightarrow> string + 'o) \<Rightarrow> call_context
     \<Rightarrow> outcome_request \<Rightarrow> (nat \<Rightarrow> 'o authority \<Rightarrow> 'o authority) \<Rightarrow> 'o authority \<Rightarrow> ('o, ack) reply" where
  "handleOutcomeSubmit E owner decodeOutcome ctx request world A =
     (if \<not> outcome_request_ok request then (Inl (ProtocolError ''outcome.submit''), A)
      else (case requireAttemptPeer ctx (oq_executionAttemptId request) of
        Inl e \<Rightarrow> (Inl e, A)
      | Inr peer \<Rightarrow>
          (case getInstruction (pi_executionId peer) (pi_executionAttemptId peer) (au_repository A) of
             None \<Rightarrow> (Inl (ProtocolError ''No instruction belongs to this authenticated Attempt''), world 3 A)
           | Some instr \<Rightarrow>
               let A1 = world 3 A in
               if \<not> matchesOutcomeCorrelation
                      (getAttemptControlState (pi_executionAttemptId peer) (au_repository A1)) request
               then (Inr AckFenced, world 4 A1)
               else (case decodeOutcome instr (oq_outcome request) of
                 Inl e \<Rightarrow> (Inl (OwnerError e), world 5 (world 4 A1))
               | Inr out \<Rightarrow>
                   (case submitAttemptOutcome E owner
                           \<lparr>sb_executionId = pi_executionId peer,
                            sb_executionAttemptId = pi_executionAttemptId peer, sb_outcome = out,
                            sb_runtimeFence =
                              Some \<lparr>fn_runtimeGeneration = oq_runtimeGeneration request,
                                    fn_operationId = oq_operationId request\<rparr>\<rparr>
                           world (world 5 (world 4 A1)) of
                      (Inl e, A2) \<Rightarrow>
                        (if e = PortError RuntimeOutcomeFenceMismatch then Inr AckFenced else Inl e, A2)
                    | (Inr d, A2) \<Rightarrow> (Inr d, A2))))))"

section \<open>Delivering a cancellation\<close>

datatype control_result =
    ControlNotFound
  | ControlNotRequested
  | ControlRuntimeUnregistered
  | ControlEvidenceComplete
  | ControlAborted
  | ControlUnavailable
  | ControlInvalidReceipt
  | ControlDeliveryRefused delivery_refusal
  | ControlPersisted evidence_decision

definition matchesDeliveredReceipt :: "control_delivery \<Rightarrow> control_receipt \<Rightarrow> bool" where
  "matchesDeliveredReceipt d r \<longleftrightarrow>
     cc_executionAttemptId r = dl_executionAttemptId d
     \<and> cc_runtimeIncarnationId r = dl_runtimeIncarnationId d
     \<and> cc_runtimeGeneration r = dl_runtimeGeneration d
     \<and> cc_controlRevision r = ci_controlRevision (dl_cancellation d)
     \<and> cc_requestKey r = ci_requestKey (dl_cancellation d)"

text \<open>The answer as its schema reads it: a malformed one counts as none.\<close>

definition parsed_response :: "'e port_env \<Rightarrow> control_response option \<Rightarrow> control_response option" where
  "parsed_response E r =
     (case r of
        Some (ControlReceived receipt) \<Rightarrow> if control_receipt_ok E receipt then r else None
      | _ \<Rightarrow> r)"

definition deliver_cancellation ::
    "'e port_env \<Rightarrow> bus_port \<Rightarrow> string \<Rightarrow> control_delivery \<Rightarrow> bool \<Rightarrow> ('o authority \<Rightarrow> 'o authority)
     \<Rightarrow> 'o authority \<Rightarrow> ('o, control_result) reply" where
  "deliver_cancellation E bus executionId delivery abortedMeanwhile world A =
     (case parsed_response E (bp_deliverControl bus delivery) of
        None \<Rightarrow> (Inr (if abortedMeanwhile then ControlAborted else ControlUnavailable), world A)
      | Some (ControlRefused reason) \<Rightarrow> (Inr (ControlDeliveryRefused reason), world A)
      | Some (ControlReceived receipt) \<Rightarrow>
          if \<not> matchesDeliveredReceipt delivery receipt then (Inr ControlInvalidReceipt, world A)
          else (case authorityRecordAttemptControlReceipt E executionId receipt (world A) of
                  (Inl e, A1) \<Rightarrow> (Inl e, A1)
                | (Inr persistence, A1) \<Rightarrow> (Inr (ControlPersisted persistence), A1)))"

definition reconcileAttemptCancellation ::
    "'e port_env \<Rightarrow> bus_port \<Rightarrow> string \<Rightarrow> string \<Rightarrow> int \<Rightarrow> (nat \<Rightarrow> bool)
     \<Rightarrow> (nat \<Rightarrow> 'o authority \<Rightarrow> 'o authority) \<Rightarrow> 'o authority \<Rightarrow> ('o, control_result) reply" where
  "reconcileAttemptCancellation E bus executionId executionAttemptId timeoutMs aborted world A =
     (if \<not> positive_int timeoutMs
      then (Inl (PortError (TypeErr ''timeoutMs must be a positive safe integer'')), A)
      else if aborted 0 then (Inr ControlAborted, A)
      else
        let state = readAttemptCancellationControl executionId executionAttemptId (au_repository A);
            A1 = world 0 A in
        if aborted 1 then (Inr ControlAborted, A1)
        else (case state of
          None \<Rightarrow> (Inr ControlNotFound, A1)
        | Some st \<Rightarrow>
            (case cx_cancellation st of
               None \<Rightarrow> (Inr ControlNotRequested, A1)
             | Some intent \<Rightarrow>
                 let g = cs_runtimeGeneration (cx_control st) in
                 (case cs_runtimeIncarnationId (cx_control st) of
                    None \<Rightarrow> (Inr ControlRuntimeUnregistered, A1)
                  | Some n \<Rightarrow>
                      if g = 0 then (Inr ControlRuntimeUnregistered, A1)
                      else if (case find (\<lambda>f. ce_controlRevision f = ci_controlRevision intent
                                              \<and> ce_runtimeGeneration f = g) (cx_evidence st) of
                                 None \<Rightarrow> False
                               | Some f \<Rightarrow> ce_receipt f \<noteq> None \<and> ce_report f \<noteq> None)
                      then (Inr ControlEvidenceComplete, A1)
                      else deliver_cancellation E bus executionId
                             \<lparr>dl_executionAttemptId = executionAttemptId, dl_runtimeIncarnationId = n,
                              dl_runtimeGeneration = g, dl_cancellation = intent\<rparr>
                             (aborted 2) (world 1) A1))))"

end
