(* ===== verification/Attempt_Properties.thy ===== *)
theory Attempt_Properties
  imports Attempt_Laws
begin

text \<open>
  The promises of the execution-attempt port, for every repository state an arbitrary sequence of
  operations reaches from the empty one: one owner per provider operation and one attempt per
  execution that may start work, settlements and outcomes that never change, work that only starts
  on a prepared, ready and current runtime, and replays that answer with what the first call did.
\<close>

section \<open>A sample history\<close>

definition sample_env :: "int port_env" where
  "sample_env =
     \<lparr>isoDatetime = (\<lambda>_. True),
      dateParse = (\<lambda>s. if s = ''soon'' then Some 2000 else if s = ''later'' then Some 9000
                       else if s = ''now'' then Some 5000 else None),
      jsonParse = (\<lambda>s. if s = ''7'' then Some (JNum 7) else if s = ''8'' then Some (JNum 8) else None),
      codec_parse = (\<lambda>v. case v of JNum n \<Rightarrow> Some n | _ \<Rightarrow> None),
      codec_validate = Some,
      codec_serialize = int_text\<rparr>"

definition sample_workspace :: workspace_requirement where
  "sample_workspace =
     \<lparr>ws_provisioning = CreateWorkspace, ws_custody = DisposableCustody,
      ws_sourceRoots = [\<lparr>sr_id = ''main'', sr_path = ''repo/src'', sr_source = None\<rparr>], ws_setup = []\<rparr>"

definition sample_instruction :: instruction where
  "sample_instruction =
     \<lparr>in_id = ''job'', in_revision = ''r1'', in_workload = (''shell'', ''1'', JObj [(''x'', JNum 1)]),
      in_workspace = Some sample_workspace, in_preservation = [SourceState]\<rparr>"

definition sample_request :: ensure_input where
  "sample_request =
     \<lparr>cr_executionAttemptId = ''a1'', cr_executionId = ''e1'', cr_instruction = sample_instruction,
      cr_bootstrapTimeoutMs = 60000, en_requestKey = ''k1''\<rparr>"

definition sample_begin :: begin_input where
  "sample_begin =
     \<lparr>bg_executionAttemptId = ''a1'', bg_executionId = ''e1'', bg_providerId = ''docker'',
      bg_allocationLifetime = ProviderManaged, bg_provisionerIncarnationId = ''p1'',
      bg_ownerId = ''c1'', bg_leaseExpiresAt = ''soon''\<rparr>"

definition sample_claim :: claim where
  "sample_claim =
     \<lparr>cl_executionAttemptId = ''a1'', cl_generation = 1, cl_ownerId = ''c1'', cl_token = ''t1'',
      cl_leaseExpiresAt = 2000\<rparr>"

definition sample_ref :: allocation_ref where
  "sample_ref = \<lparr>ref_version = 1, ref_providerId = ''docker'', ref_providerData = [(''id'', JStr ''c9'')]\<rparr>"

definition sample_created :: repo where
  "sample_created = snd (ensureAttempt sample_request 1000 empty_repo)"

definition sample_started :: repo where
  "sample_started = snd (beginProvisioning sample_env sample_begin ''t1'' sample_created)"

definition sample_allocated :: repo where
  "sample_allocated = snd (recordAllocation sample_claim sample_ref sample_started)"

definition sample_register :: register_input where
  "sample_register =
     \<lparr>ri_executionAttemptId = ''a1'', ri_executionId = ''e1'', ri_runtimeIncarnationId = ''boot1''\<rparr>"

definition sample_registered :: repo where
  "sample_registered = snd (registerRuntime sample_register sample_allocated)"

definition sample_readiness :: ready_input where
  "sample_readiness =
     \<lparr>rd_executionAttemptId = ''a1'', rd_executionId = ''e1'', rd_runtimeGeneration = 1,
      rd_readyAt = ''now''\<rparr>"

definition sample_ready :: repo where
  "sample_ready = snd (markRuntimeReady sample_env sample_readiness sample_registered)"

definition sample_admission :: "operation_kind \<Rightarrow> admit_input" where
  "sample_admission k =
     \<lparr>ai_executionAttemptId = ''a1'', ai_executionId = ''e1'', ai_operationKind = k,
      ai_admissionKey = ''adm'', ai_runtimeGeneration = 1\<rparr>"

definition sample_preparing :: repo where
  "sample_preparing = snd (admitOperation (sample_admission WorkspacePreparation) ''op1'' 5100 sample_ready)"

definition sample_report :: report_input where
  "sample_report =
     \<lparr>rp_executionAttemptId = ''a1'', rp_executionId = ''e1'', rp_operationId = ''op1'',
      rp_runtimeGeneration = 1,
      rp_result = \<lparr>wb_workspaceRoot = ''/w'', wb_sourceRoots = [(''main'', ''/w/repo/src'')]\<rparr>\<rparr>"

definition sample_prepared :: repo where
  "sample_prepared = snd (reportOperation sample_report sample_preparing)"

definition sample_running :: repo where
  "sample_running = snd (admitOperation (sample_admission WorkloadInvocation) ''op2'' 5200 sample_prepared)"

lemma sample_step_created: "attempt_steps sample_env empty_repo sample_created"
  unfolding sample_created_def by (rule r_into_rtranclp) (rule ensure)

lemma sample_step_started: "attempt_steps sample_env empty_repo sample_started"
  unfolding sample_started_def
  by (rule rtranclp.rtrancl_into_rtrancl [OF sample_step_created]) (rule start_provisioning)

lemma sample_step_allocated: "attempt_steps sample_env empty_repo sample_allocated"
  unfolding sample_allocated_def
  by (rule rtranclp.rtrancl_into_rtrancl [OF sample_step_started]) (rule allocation)

lemma sample_step_registered: "attempt_steps sample_env empty_repo sample_registered"
  unfolding sample_registered_def
  by (rule rtranclp.rtrancl_into_rtrancl [OF sample_step_allocated]) (rule register)

lemma sample_step_ready: "attempt_steps sample_env empty_repo sample_ready"
  unfolding sample_ready_def
  by (rule rtranclp.rtrancl_into_rtrancl [OF sample_step_registered]) (rule ready)

lemma sample_step_preparing: "attempt_steps sample_env empty_repo sample_preparing"
  unfolding sample_preparing_def
  by (rule rtranclp.rtrancl_into_rtrancl [OF sample_step_ready]) (rule admit)

lemma sample_step_prepared: "attempt_steps sample_env empty_repo sample_prepared"
  unfolding sample_prepared_def
  by (rule rtranclp.rtrancl_into_rtrancl [OF sample_step_preparing]) (rule report)

lemma sample_step_running: "attempt_steps sample_env empty_repo sample_running"
  unfolding sample_running_def
  by (rule rtranclp.rtrancl_into_rtrancl [OF sample_step_prepared]) (rule admit)

lemma sample_reaches_running:
  "map_option (\<lambda>a. (cs_activeOperationId a, cs_activeOperationKind a, cs_runtimeReadyAt a))
     (map_get (rs_attempts sample_running) ''a1'')
   = Some (Some ''op2'', Some WorkloadInvocation, Some 5000)"
  by code_simp

section \<open>Ownership of provider operations\<close>

lemma one_step: "attempt_step E R S \<Longrightarrow> attempt_steps E R S"
  by (rule r_into_rtranclp)

lemma step_reach: "attempt_steps E empty_repo R \<Longrightarrow> attempt_step E R S \<Longrightarrow> repo_inv R \<and> repo_inv S"
  using reachable_inv attempts.step_inv by blast

lemma later_attempt:
  assumes "repo_inv R" "attempt_steps E R S" "map_get (rs_attempts R) i = Some a"
  obtains b where "map_get (rs_attempts S) i = Some b" "attempt_le a b"
  using attempts.steps_le [OF assms(2,1)] assms(3) unfolding repo_le_def by blast

lemma later_operation:
  assumes "repo_inv R" "attempt_steps E R S" "map_get (rs_operations R) i = Some p"
  obtains q where "map_get (rs_operations S) i = Some q" "operation_le p q"
  using attempts.steps_le [OF assms(2,1)] assms(3) unfolding repo_le_def by blast

lemma stale_claim_stays_stale:
  assumes inv: "repo_inv R" and p: "map_get (rs_operations R) (cl_executionAttemptId c) = Some p"
    and gen: "cl_generation c \<le> op_generation p"
    and stale: "cl_generation c = op_generation p \<longrightarrow>
                  op_token p \<noteq> Some (cl_token c) \<or> op_ownerId p \<noteq> Some (cl_ownerId c)"
    and steps: "attempt_steps E R S"
  shows "authorize S c \<noteq> Authorized a q"
proof
  assume auth: "authorize S c = Authorized a q"
  obtain r where "map_get (rs_operations S) (cl_executionAttemptId c) = Some r" "operation_le p r"
    using later_operation [OF inv steps p] .
  with auth have le: "operation_le p q" and c: "op_generation q = cl_generation c"
    "op_token q = Some (cl_token c)" "op_ownerId q = Some (cl_ownerId c)"
    by (auto simp: authorized_facts)
  from le c gen have "op_generation p = op_generation q" by (simp add: operation_le_def)
  with le stale c show False by (auto simp: operation_le_def)
qed

lemma takeOver_claimed:
  assumes "takeOverProviderOperation E i owner observed lease uuid R = (Inr (PvClaimed c), S)"
  shows "cl_executionAttemptId c = i"
    and "\<exists>a p q. map_get (rs_attempts R) i = Some a \<and> map_get (rs_operations R) i = Some p
           \<and> \<not> isProviderOperationResolved a p \<and> cl_generation c = op_generation p + 1
           \<and> map_get (rs_operations S) i = Some q \<and> rs_attempts S = rs_attempts R
           \<and> op_generation q = cl_generation c \<and> op_token q = Some (cl_token c)
           \<and> op_ownerId q = Some (cl_ownerId c) \<and> op_completionEvidence q = op_completionEvidence p"
  using assms unfolding takeOverProviderOperation_def
  by (auto simp: Let_def jm.get_put split: option.splits if_splits sum.splits bool.splits)



section \<open>Settlement\<close>

lemma map_sum_id_Inr: "map_sum id f x = Inr y \<longleftrightarrow> (\<exists>z. x = Inr z \<and> y = f z)"
  by (cases x) auto

lemma commitOutcome_accepted:
  assumes "commitOutcome E input R = (Inr (OcAccepted out t ob), S)"
  shows "is_active R (cm_executionId input) (cm_executionAttemptId input)
         \<and> (\<exists>a. map_get (rs_attempts R) (cm_executionAttemptId input) = Some a
              \<and> map_get (rs_attempts S) (cm_executionAttemptId input) = Some (settleAttempt ByOutcome a))
         \<and> map_get (rs_committedOutcomes S) (cm_executionAttemptId input) = Some t
         \<and> map_get (rs_outcomeControlObservations S) (cm_executionAttemptId input) = Some ob
         \<and> decodeDurableOutcome E t = Inr out"
  using assms unfolding commitOutcome_def replay_outcome_def
  by (auto simp: Let_def jm.get_put map_sum_id_Inr split: if_splits option.splits sum.splits)

text \<open>
  C13. A committed outcome is final: once a commit is accepted, in every later state the settlement
  of the attempt reads back exactly the committed text, its decoded outcome and the control facts
  observed at the commit.\<close>

theorem committed_outcome_is_final:
  assumes reach: "attempt_steps E empty_repo R"
    and commit: "commitOutcome E input R = (Inr (OcAccepted out t ob), S)"
    and steps: "attempt_steps E S T"
    and ids: "cm_executionId input \<noteq> []" "cm_executionAttemptId input \<noteq> []"
  shows "\<exists>a current.
           readAttemptSettlement E (cm_executionId input) (cm_executionAttemptId input) T
           = Inr (SrOutcome a current \<lparr>du_text = t, du_outcome = out\<rparr> (Some ob))"
proof -
  let ?i = "cm_executionAttemptId input" and ?e = "cm_executionId input"
  have "attempt_step E R S" using attempt_step.commit [of E R input] commit by simp
  with reach have inv: "repo_inv R" "repo_inv S" and invT: "repo_inv T"
    using reachable_inv attempts.step_inv attempts.steps_inv steps by blast+
  from commitOutcome_accepted [OF commit] have act: "is_active R ?e ?i"
    and S: "map_get (rs_committedOutcomes S) ?i = Some t"
    "map_get (rs_outcomeControlObservations S) ?i = Some ob"
    and out: "decodeDurableOutcome E t = Inr out"
    and a: "\<exists>a. map_get (rs_attempts R) ?i = Some a
            \<and> map_get (rs_attempts S) ?i = Some (settleAttempt ByOutcome a)"
    by blast+
  from a inv_active [OF inv(1) act] obtain a where
    "map_get (rs_attempts S) ?i = Some (settleAttempt ByOutcome a)" "at_executionId a = ?e" by auto
  moreover obtain b where b: "map_get (rs_attempts T) ?i = Some b" "attempt_le (settleAttempt ByOutcome a) b"
    using later_attempt [OF inv(2) steps calculation(1)] .
  ultimately have be: "at_executionId b = ?e" "at_settlementKind b = Some ByOutcome"
    by (simp_all add: attempt_le_def)
  have bi: "at_executionAttemptId b = ?i" "at_status b = AttSettled"
    using inv_attempt [OF invT b(1)] be by (auto simp: attempt_ok_def lifecycle_ok_def)
  have T: "map_get (rs_committedOutcomes T) ?i = Some t"
    "map_get (rs_outcomeControlObservations T) ?i = Some ob"
    using attempts.steps_le [OF steps inv(2)] S by (simp_all add: repo_le_def map_extends_def)
  show ?thesis
    using b T be bi out ids
    by (simp add: readAttemptSettlement_def requireIdentity_def readAttemptSettlementSnapshot_def)
qed

definition sample_commit :: "int commit_input" where
  "sample_commit =
     \<lparr>cm_executionId = ''e1'', cm_executionAttemptId = ''a1'',
      cm_result = \<lparr>du_text = ''7'', du_outcome = 7\<rparr>,
      cm_runtimeFence = Some \<lparr>fn_runtimeGeneration = 1, fn_operationId = Some ''op2''\<rparr>\<rparr>"

theorem committed_outcome_is_final_witness:
  "\<exists>a current. readAttemptSettlement sample_env ''e1'' ''a1''
      (snd (requestCancellation ''e1'' None ''u'' 6000 (snd (commitOutcome sample_env sample_commit sample_running))))
    = Inr (SrOutcome a current \<lparr>du_text = ''7'', du_outcome = 7\<rparr>
        (Some \<lparr>ob_controlRevision = 0, ob_cancellation = None\<rparr>))"
proof -
  let ?c = "commitOutcome sample_env sample_commit sample_running"
  have "fst ?c = Inr (OcAccepted 7 ''7'' \<lparr>ob_controlRevision = 0, ob_cancellation = None\<rparr>)" by code_simp
  then have c: "?c = (Inr (OcAccepted 7 ''7'' \<lparr>ob_controlRevision = 0, ob_cancellation = None\<rparr>), snd ?c)"
    by (metis prod.collapse)
  have "cm_executionId sample_commit = ''e1''" "cm_executionAttemptId sample_commit = ''a1''"
    by (simp_all add: sample_commit_def)
  with committed_outcome_is_final [OF sample_step_running c one_step [OF cancel_all]]
  show ?thesis by simp
qed

text \<open>
  An infrastructure failure is settled only on evidence: in every reachable state, an attempt
  settled that way owns an allocation and its provider operation has recorded that allocation's
  termination.\<close>

lemma infrastructure_failure_follows_termination:
  assumes reach: "attempt_steps E empty_repo R"
    and a: "map_get (rs_attempts R) i = Some a" and k: "at_settlementKind a = Some ByInfrastructureFailure"
  shows "at_allocationRef a \<noteq> None
         \<and> (\<exists>p. map_get (rs_operations R) i = Some p \<and> op_obligation p = TerminalConvergence)"
proof -
  have inv: "repo_inv R" by (rule reachable_inv [OF reach])
  then have "allocationTerminated R i" using a k by (simp add: repo_inv_def operations_inv_def)
  then obtain p where p: "map_get (rs_operations R) i = Some p" "op_obligation p = TerminalConvergence"
    by (auto simp: allocationTerminated_def)
  with inv_operation [OF inv p(1) a] show ?thesis by (auto simp: operation_ok_def)
qed

definition sample_evidence :: evidence where
  "sample_evidence =
     \<lparr>ev_source = ''docker'', ev_summary = ''container exited'', ev_observedAt = ''now'', ev_code = None\<rparr>"

definition sample_terminated :: repo where
  "sample_terminated = snd (recordAllocationTerminated sample_env sample_claim sample_evidence sample_running)"

definition sample_failed :: repo where
  "sample_failed = snd (recordInfrastructureFailure sample_claim ''e1'' sample_terminated)"

lemma sample_step_failed: "attempt_steps sample_env empty_repo sample_failed"
  unfolding sample_failed_def sample_terminated_def
  by (rule rtranclp.rtrancl_into_rtrancl
      [OF rtranclp.rtrancl_into_rtrancl [OF sample_step_running terminated] infrastructure])

section \<open>Starting work\<close>

text \<open>
  C14. At most one attempt of an execution may still start work: in every reachable state, two
  attempts of the same owner whose start gates are open are the same attempt, and it is the one the
  owner's active pointer names.\<close>

theorem one_open_attempt_per_owner:
  assumes reach: "attempt_steps E empty_repo R"
    and a: "map_get (rs_attempts R) i = Some a" "cs_operationStartGate a = GateOpen"
    and b: "map_get (rs_attempts R) j = Some b" "cs_operationStartGate b = GateOpen"
    and owner: "at_executionId a = at_executionId b"
  shows "i = j \<and> is_active R (at_executionId a) i"
proof -
  have inv: "repo_inv R" by (rule reachable_inv [OF reach])
  have "is_active R (at_executionId a) i" "is_active R (at_executionId b) j"
    using inv_fenced [OF inv a(1)] inv_fenced [OF inv b(1)] a b by auto
  with owner show ?thesis by (simp add: is_active_def)
qed

definition sample_replaced :: repo where
  "sample_replaced =
     snd (createAttempt (create_input.truncate (sample_request\<lparr>cr_executionAttemptId := ''a2''\<rparr>)) 7000
            sample_running)"

theorem one_open_attempt_per_owner_witness:
  "map_option cs_operationStartGate (map_get (rs_attempts sample_replaced) ''a1'') = Some GateClosed
   \<and> map_option cs_operationStartGate (map_get (rs_attempts sample_replaced) ''a2'') = Some GateOpen
   \<and> is_active sample_replaced ''e1'' ''a2''"
proof -
  have reach: "attempt_steps sample_env empty_repo sample_replaced"
    unfolding sample_replaced_def
    by (rule rtranclp.rtrancl_into_rtrancl [OF sample_step_running create])
  have g1: "map_option cs_operationStartGate (map_get (rs_attempts sample_replaced) ''a1'') = Some GateClosed"
    by code_simp
  have g2: "map_option (\<lambda>a. (cs_operationStartGate a, at_executionId a))
              (map_get (rs_attempts sample_replaced) ''a2'') = Some (GateOpen, ''e1'')"
    by code_simp
  then obtain b where "map_get (rs_attempts sample_replaced) ''a2'' = Some b"
    "cs_operationStartGate b = GateOpen" "at_executionId b = ''e1''" by auto
  with one_open_attempt_per_owner [OF reach this(1,2) this(1,2)] g1 show ?thesis by simp
qed

text \<open>
  C15. No workload runs unprepared: in every reachable state, an attempt whose active operation is a
  workload or workflow invocation has its readiness recorded, the operation belongs to the current
  runtime generation, a runtime incarnation is registered when that generation is positive (a report
  for generation 0 records readiness before any runtime registered, so at generation 0 there is none:
  \<open>readiness_without_runtime\<close> below), a required workspace was prepared for that very generation, and
  no generation was ever prepared twice.\<close>

theorem invocation_is_prepared:
  assumes reach: "attempt_steps E empty_repo R" and a: "map_get (rs_attempts R) i = Some a"
    and k: "cs_activeOperationKind a = Some k" "k = WorkloadInvocation \<or> k = WorkflowRun"
  shows "cs_runtimeReadyAt a \<noteq> None \<and> cs_activeOperationId a \<noteq> None
         \<and> cs_activeOperationGeneration a = Some (cs_runtimeGeneration a)
         \<and> (cs_runtimeGeneration a = 0 \<longleftrightarrow> cs_runtimeIncarnationId a = None)
         \<and> (requires_preparation (at_instruction a) \<longrightarrow>
              (\<exists>r \<in> set (at_preparationReceipts a). pr_runtimeGeneration r = cs_runtimeGeneration a))
         \<and> distinct (map pr_runtimeGeneration (at_preparationReceipts a))"
proof -
  have "attempt_ok a" using inv_attempt [OF reachable_inv [OF reach] a] by simp
  then have c: "control_ok a" and p: "preparation_ok a" by (simp_all add: attempt_ok_def)
  from c k have "cs_runtimeReadyAt a \<noteq> None" "cs_activeOperationId a \<noteq> None"
    "cs_activeOperationGeneration a = Some (cs_runtimeGeneration a)"
    "cs_runtimeGeneration a = 0 \<longleftrightarrow> cs_runtimeIncarnationId a = None"
    by (auto simp: control_defs)
  moreover from p k have "requires_preparation (at_instruction a) \<longrightarrow>
      prepared_for (cs_runtimeGeneration a) (at_preparationReceipts a)"
    and "distinct (map pr_runtimeGeneration (at_preparationReceipts a))"
    by (auto simp: preparation_ok_def)
  ultimately show ?thesis by (simp add: prepared_for_def list_ex_iff)
qed

theorem invocation_is_prepared_witness:
  "map_option cs_runtimeGeneration (map_get (rs_attempts sample_running) ''a1'') = Some 1
   \<and> (\<exists>a. map_get (rs_attempts sample_running) ''a1'' = Some a
         \<and> (\<exists>r \<in> set (at_preparationReceipts a). pr_runtimeGeneration r = cs_runtimeGeneration a))"
proof -
  have f: "map_option (\<lambda>a. (cs_activeOperationKind a, cs_runtimeGeneration a, in_workspace (at_instruction a)))
             (map_get (rs_attempts sample_running) ''a1'')
           = Some (Some WorkloadInvocation, 1, Some sample_workspace)"
    by code_simp
  then obtain a where a: "map_get (rs_attempts sample_running) ''a1'' = Some a"
    "cs_activeOperationKind a = Some WorkloadInvocation" "requires_preparation (at_instruction a)"
    by (auto simp: requires_preparation_def)
  from invocation_is_prepared [OF sample_step_running a(1,2)] a f show ?thesis by auto
qed

text \<open>
  C27. A cancelled attempt never starts work again: after an accepted cancellation, in every later
  state the recorded intent is still the accepted one and no admission for that attempt, by any
  caller, is granted.\<close>

theorem cancelled_attempt_never_admits:
  assumes reach: "attempt_steps E empty_repo R"
    and cancel: "requestAttemptCancellation e i key reason now R = (Inr (CnAccepted intent), S)"
    and steps: "attempt_steps E S T" and adm: "ai_executionAttemptId input = i"
  shows "readCancellation i T = Some intent
         \<and> fst (admitOperation input uuid t T) \<noteq> Inr (RtAdmitted x g u)"
proof -
  have step: "attempt_step E R S"
    using cancel_attempt [of E R e i key reason now] cancel by simp
  have invS: "repo_inv S" and invT: "repo_inv T"
    using step_reach [OF reach step] attempts.steps_inv [OF steps] by auto
  have "map_get (rs_cancellations S) i = Some intent"
    using cancel unfolding requestAttemptCancellation_def
    by (auto simp: jm.get_put split: sum.splits option.splits cancellation_decision.splits)
  then have T: "map_get (rs_cancellations T) i = Some intent"
    using attempts.steps_le [OF steps invS] by (simp add: repo_le_def map_extends_def)
  then obtain a where a: "map_get (rs_attempts T) i = Some a" "cs_operationStartGate a = GateClosed"
    using inv_cancelled [OF invT] by blast
  have "fst (admitOperation input uuid t T) \<noteq> Inr (RtAdmitted x g u)"
    using a adm
    by (auto simp: admitOperation_def owned_attempt_def runtimeReachability_def Let_def
        evaluateAttemptReachability_def evaluateOperationAdmission_def
        split: option.splits if_splits)
  with T show ?thesis by (simp add: readCancellation_def)
qed

definition sample_intent :: cancellation_intent where
  "sample_intent =
     \<lparr>ci_requestKey = ''stop'', ci_controlRevision = 1, ci_requestedAt = 6000, ci_reason = Some ''user''\<rparr>"

theorem cancelled_attempt_never_admits_witness:
  "fst (admitOperation (sample_admission WorkspacePreparation) ''op9'' 6100
         (snd (requestAttemptCancellation ''e1'' ''a1'' ''stop'' (Some ''user'') 6000 sample_ready)))
     \<noteq> Inr (RtAdmitted ''op9'' 1 6100)
   \<and> fst (admitOperation (sample_admission WorkspacePreparation) ''op9'' 6100 sample_ready)
     = Inr (RtAdmitted ''op9'' 1 6100)"
proof -
  let ?c = "requestAttemptCancellation ''e1'' ''a1'' ''stop'' (Some ''user'') 6000 sample_ready"
  have "fst ?c = Inr (CnAccepted sample_intent)" by code_simp
  then have c: "?c = (Inr (CnAccepted sample_intent), snd ?c)" by (metis prod.collapse)
  have "fst (admitOperation (sample_admission WorkspacePreparation) ''op9'' 6100 sample_ready)
        = Inr (RtAdmitted ''op9'' 1 6100)"
    by code_simp
  with cancelled_attempt_never_admits [OF sample_step_ready c rtranclp.rtrancl_refl,
      of "sample_admission WorkspacePreparation"]
  show ?thesis by (simp add: sample_admission_def)
qed

section \<open>History\<close>

lemma map_extends_kept: "map_extends m m' \<Longrightarrow> kept (map_get m k) (map_get m' k)"
  by (cases "map_get m k") (auto simp: map_extends_def)

text \<open>
  History only moves forward: between a reachable state and any later one, every attempt keeps
  its owner, assignment, provider binding and settlement, its status never goes back, a closed gate
  stays closed and the runtime generation never decreases; every provider operation keeps its
  completion evidence and neither its generation nor its obligation goes back; committed outcomes
  and cancellation intents are unchanged.\<close>

lemma attempt_history_forward:
  assumes reach: "attempt_steps E empty_repo R" and steps: "attempt_steps E R S"
    and a: "map_get (rs_attempts R) i = Some a"
  shows "(\<exists>b. map_get (rs_attempts S) i = Some b
            \<and> at_executionId b = at_executionId a \<and> at_instruction b = at_instruction a
            \<and> kept (at_providerId a) (at_providerId b) \<and> kept (at_settlementKind a) (at_settlementKind b)
            \<and> status_rank (at_status a) \<le> status_rank (at_status b)
            \<and> (cs_operationStartGate a = GateClosed \<longrightarrow> cs_operationStartGate b = GateClosed)
            \<and> cs_runtimeGeneration a \<le> cs_runtimeGeneration b)
         \<and> (\<forall>p. map_get (rs_operations R) i = Some p \<longrightarrow>
              (\<exists>q. map_get (rs_operations S) i = Some q \<and> op_generation p \<le> op_generation q
                   \<and> obligation_rank (op_obligation p) \<le> obligation_rank (op_obligation q)
                   \<and> kept (op_completionEvidence p) (op_completionEvidence q)))
         \<and> kept (map_get (rs_committedOutcomes R) i) (map_get (rs_committedOutcomes S) i)
         \<and> kept (map_get (rs_cancellations R) i) (map_get (rs_cancellations S) i)"
proof -
  have inv: "repo_inv R" by (rule reachable_inv [OF reach])
  have le: "repo_le R S" by (rule attempts.steps_le [OF steps inv])
  obtain b where b: "map_get (rs_attempts S) i = Some b" "attempt_le a b"
    using later_attempt [OF inv steps a] .
  have ops: "\<exists>q. map_get (rs_operations S) i = Some q \<and> operation_le p q"
    if "map_get (rs_operations R) i = Some p" for p
    using le that unfolding repo_le_def by blast
  have "kept (map_get (rs_committedOutcomes R) i) (map_get (rs_committedOutcomes S) i)"
    "kept (map_get (rs_cancellations R) i) (map_get (rs_cancellations S) i)"
    using le by (auto simp: repo_le_def intro: map_extends_kept)
  with b ops show ?thesis
    unfolding attempt_le_def operation_le_def by (intro conjI allI impI) (blast | simp)+
qed

section \<open>Replays\<close>

lemma ensure_created:
  assumes "ensureAttempt input now R = (Inr (EnCreated a), S)"
  shows "map_get (owner_bindings S (cr_executionId input)) (en_requestKey input) = Some (at_executionAttemptId a)
         \<and> map_get (rs_attempts S) (at_executionAttemptId a) = Some a
         \<and> at_executionId a = cr_executionId input \<and> at_instruction a = cr_instruction input"
proof -
  obtain s where snap: "snapshotEnsureExecutionAttemptPersistenceInput input = Inr s"
    using assms by (cases "snapshotEnsureExecutionAttemptPersistenceInput input") (auto simp: ensureAttempt_def)
  have new: "map_get (owner_bindings R (cr_executionId s)) (en_requestKey s) = None"
    using assms by (cases "map_get (owner_bindings R (cr_executionId s)) (en_requestKey s)")
      (auto simp: ensureAttempt_def snap replayEnsuredAttempt_def split: option.splits if_splits)
  obtain S1 where ins: "insertAttempt (create_input.truncate s) now R = (Inr a, S1)"
    and S: "S = S1\<lparr>rs_requestBindings :=
                map_set (cr_executionId s)
                  (map_set (en_requestKey s) (at_executionAttemptId a) (owner_bindings R (cr_executionId s)))
                  (rs_requestBindings S1)\<rparr>"
    using assms by (cases "insertAttempt (create_input.truncate s) now R")
      (auto simp: ensureAttempt_def snap new split: sum.splits)
  from snap have s: "cr_executionId s = cr_executionId input" "en_requestKey s = en_requestKey input"
    "cr_instruction s = cr_instruction input"
    unfolding snapshotEnsureExecutionAttemptPersistenceInput_def parseInstruction_def
    by (auto split: sum.splits if_splits)
  from insertAttempt_result [OF ins] s S show ?thesis
    by (auto simp: owner_bindings_def jm.get_put create_input.defs)
qed

text \<open>
  An owner request is answered with one attempt for good: once a request created an attempt,
  the same demand under the same key is answered, in every later state and whatever candidate
  identity and budget it carries, by replaying that attempt, and nothing is written.\<close>

lemma ensure_replays_original:
  assumes reach: "attempt_steps E empty_repo R"
    and created: "ensureAttempt input now R = (Inr (EnCreated a), S)"
    and steps: "attempt_steps E S T"
    and again: "snapshotEnsureExecutionAttemptPersistenceInput again = Inr again"
      "cr_executionId again = cr_executionId input" "en_requestKey again = en_requestKey input"
      "cr_instruction again = cr_instruction input"
  shows "\<exists>b. ensureAttempt again now' T = (Inr (EnReplayed b), T)
             \<and> at_executionAttemptId b = at_executionAttemptId a"
proof -
  have step: "attempt_step E R S" using ensure [of E R input now] created by simp
  have invS: "repo_inv S" using step_reach [OF reach step] by simp
  note c = ensure_created [OF created]
  have T: "map_get (owner_bindings T (cr_executionId input)) (en_requestKey input)
             = Some (at_executionAttemptId a)"
    using attempts.steps_le [OF steps invS] c by (simp add: repo_le_def map_extends_def)
  from c obtain b where b: "map_get (rs_attempts T) (at_executionAttemptId a) = Some b" "attempt_le a b"
    using later_attempt [OF invS steps] by blast
  then have "at_executionId b = cr_executionId input" "at_instruction b = cr_instruction input"
    "at_executionAttemptId b = at_executionAttemptId a"
    using c by (simp_all add: attempt_le_def)
  with T b(1) again show ?thesis by (simp add: ensureAttempt_def replayEnsuredAttempt_def)
qed

text \<open>
  Admission is idempotent: a retry of a granted admission, under its key and with any fresh
  identifier and clock, is answered with the operation, generation and instant the first call
  received, and nothing is written.\<close>

lemma admission_replay:
  assumes inv: "attempt_steps E empty_repo R"
    and first: "admitOperation input uuid now R = (Inr (RtAdmitted x g t), S)"
  shows "admitOperation input uuid' now' S = (Inr (RtDuplicateAdmission x g t), S)"
proof -
  from first obtain a where a: "owned_attempt R (ai_executionId input) (ai_executionAttemptId input) = Some a"
    and r: "runtimeReachability R a = None"
    and e: "x = uuid" "g = cs_runtimeGeneration a" "t = now"
    and S: "S = put_attempt
       (a\<lparr>cs_activeOperationId := Some uuid, cs_activeOperationKind := Some (ai_operationKind input),
          cs_activeOperationKey := Some (ai_admissionKey input),
          cs_activeOperationGeneration := Some (cs_runtimeGeneration a),
          cs_activeOperationAdmittedAt := Some now\<rparr>) R"
    unfolding admitOperation_def evaluateOperationAdmission_def runtimeReachability_def
      evaluateAttemptReachability_def
    by (auto simp: Let_def split: option.splits if_splits)
  let ?b = "a\<lparr>cs_activeOperationId := Some uuid, cs_activeOperationKind := Some (ai_operationKind input),
              cs_activeOperationKey := Some (ai_admissionKey input),
              cs_activeOperationGeneration := Some (cs_runtimeGeneration a),
              cs_activeOperationAdmittedAt := Some now\<rparr>"
  have "at_executionAttemptId a = ai_executionAttemptId input"
    using a inv_attempt [OF reachable_inv [OF inv]] by (simp add: owned_attempt_Some)
  then have b: "owned_attempt S (ai_executionId input) (ai_executionAttemptId input) = Some ?b"
    using a by (simp add: S owned_attempt_Some jm.get_put)
  moreover have "runtimeReachability S ?b = None"
    using r unfolding reachable_facts by (simp add: S is_active_def allocationTerminated_def)
  ultimately show ?thesis
    using e by (simp add: admitOperation_def evaluateOperationAdmission_def)
qed

section \<open>Shape of the stored records\<close>

text \<open>
  C40. The stored record never describes an impossible attempt: in every reachable state the members
  of the active operation are all present or all absent and carry the current generation, an attempt
  has a settlement exactly when its status says so and then its gate is closed, and a claimable
  attempt is unsettled, allocated, bound to the provider its reference names and the active attempt
  of its owner.\<close>

theorem reachable_attempt_shape:
  assumes reach: "attempt_steps E empty_repo R" and a: "map_get (rs_attempts R) i = Some a"
  shows "at_executionAttemptId a = i
         \<and> (cs_activeOperationId a = None \<longleftrightarrow> cs_activeOperationKind a = None)
         \<and> (cs_activeOperationId a = None \<longleftrightarrow> cs_activeOperationKey a = None)
         \<and> (cs_activeOperationId a = None \<longleftrightarrow> cs_activeOperationAdmittedAt a = None)
         \<and> cs_activeOperationGeneration a
           = (if cs_activeOperationId a = None then None else Some (cs_runtimeGeneration a))
         \<and> (at_settlementKind a \<noteq> None \<longleftrightarrow> at_status a = AttSettled)
         \<and> (at_status a = AttSettled \<longrightarrow> cs_operationStartGate a = GateClosed)
         \<and> (at_claimable a \<longrightarrow>
              at_settlementKind a = None \<and> is_active R (at_executionId a) i
              \<and> (\<exists>r. at_allocationRef a = Some r \<and> at_providerId a = Some (ref_providerId r)))"
proof -
  have inv: "repo_inv R" by (rule reachable_inv [OF reach])
  have ok: "at_executionAttemptId a = i" "control_ok a" "lifecycle_ok a"
    using inv_attempt [OF inv a] by (simp_all add: attempt_ok_def)
  have claim: "at_settlementKind a = None \<and> is_active R (at_executionId a) i
              \<and> (\<exists>r. at_allocationRef a = Some r \<and> at_providerId a = Some (ref_providerId r))"
    if "at_claimable a"
  proof -
    have "at_status a = AttAllocated" using ok(3) that by (simp add: lifecycle_ok_def)
    with ok(3) have "at_settlementKind a = None"
      "\<exists>r. at_allocationRef a = Some r \<and> at_providerId a = Some (ref_providerId r)"
      by (auto simp: lifecycle_ok_def)
    with inv_fenced [OF inv a] that show ?thesis by blast
  qed
  from ok(2) have "idle_or_active a" by (simp add: control_ok_def)
  moreover from ok(3) have "at_settlementKind a \<noteq> None \<longleftrightarrow> at_status a = AttSettled"
    "at_status a = AttSettled \<longrightarrow> cs_operationStartGate a = GateClosed"
    by (simp_all add: lifecycle_ok_def)
  ultimately show ?thesis
    using ok(1) claim unfolding idle_or_active_def by (intro conjI) blast+
qed

theorem reachable_attempt_shape_witness:
  "\<exists>a. map_get (rs_attempts sample_allocated) ''a1'' = Some a \<and> at_claimable a
       \<and> is_active sample_allocated (at_executionId a) ''a1''"
proof -
  have "map_option at_claimable (map_get (rs_attempts sample_allocated) ''a1'') = Some True" by code_simp
  then obtain a where a: "map_get (rs_attempts sample_allocated) ''a1'' = Some a" "at_claimable a" by auto
  with reachable_attempt_shape [OF sample_step_allocated a(1)] show ?thesis by blast
qed

section \<open>Reads\<close>

text \<open>
  The repository never finds its own state corrupt: in every reachable state, no settlement read
  reports contradictory facts or a foreign identity, and no owner request meets a corrupt binding.\<close>

lemma reachable_reads_are_coherent:
  assumes reach: "attempt_steps E empty_repo R"
  shows "readAttemptSettlement E e i R \<notin> {Inl CorruptSettlementFacts, Inl CorruptSettlementIdentity}
         \<and> fst (ensureAttempt input now R) \<noteq> Inl CorruptRequestBinding"
proof
  have inv: "repo_inv R" by (rule reachable_inv [OF reach])
  have decode: "decodeDurableOutcome E t \<noteq> Inl CorruptSettlementFacts"
    "decodeDurableOutcome E t \<noteq> Inl CorruptSettlementIdentity" for t
    by (auto simp: decodeDurableOutcome_def split: option.splits)
  show "readAttemptSettlement E e i R \<notin> {Inl CorruptSettlementFacts, Inl CorruptSettlementIdentity}"
  proof (cases "map_get (rs_attempts R) i")
    case (Some a)
    have ok: "at_executionAttemptId a = i" "at_settlementKind a \<noteq> None \<longleftrightarrow> at_status a = AttSettled"
      using inv_attempt [OF inv Some] by (simp_all add: attempt_ok_def lifecycle_ok_def)
    have out: "map_get (rs_committedOutcomes R) i \<noteq> None \<longleftrightarrow> at_settlementKind a = Some ByOutcome"
      using inv Some by (simp add: repo_inv_def outcomes_inv_def)
    show ?thesis
      using Some ok out decode
      by (cases "at_settlementKind a"; cases "the (at_settlementKind a)")
        (auto simp: readAttemptSettlement_def requireIdentity_def readAttemptSettlementSnapshot_def
          Let_def split: sum.splits)
  qed (auto simp: readAttemptSettlement_def requireIdentity_def readAttemptSettlementSnapshot_def)
  have replay: "replayEnsuredAttempt x ins (map_get (rs_attempts R) b) \<noteq> Inl CorruptRequestBinding"
    if "map_get (owner_bindings R x) k = Some b" for x k b ins
    using inv_binding [OF inv that] by (auto simp: replayEnsuredAttempt_def split: if_splits)
  have insert: "fst (insertAttempt j now R) \<noteq> Inl CorruptRequestBinding" for j
    by (auto simp: insertAttempt_def createAttemptTiming_def Let_def split: sum.splits prod.splits if_splits)
  have snap: "snapshotEnsureExecutionAttemptPersistenceInput input \<noteq> Inl CorruptRequestBinding"
    by (auto simp: snapshotEnsureExecutionAttemptPersistenceInput_def requireIdentity_def
        parseInstruction_def split: sum.splits if_splits)
  show "fst (ensureAttempt input now R) \<noteq> Inl CorruptRequestBinding"
  proof (cases "snapshotEnsureExecutionAttemptPersistenceInput input")
    case (Inr s)
    show ?thesis
      using replay insert [of "create_input.truncate s"]
      by (cases "insertAttempt (create_input.truncate s) now R")
        (auto simp: ensureAttempt_def Inr split: option.splits sum.splits)
  qed (use snap in \<open>simp add: ensureAttempt_def\<close>)
qed

interpretation recovery_order: js_comparator compareRecoveryOrder
proof
  fix x y z :: attempt
  show "compareRecoveryOrder x x \<le> 0" by (simp add: compareRecoveryOrder_def str_cmp_refl)
  show "compareRecoveryOrder x y \<le> 0 \<or> compareRecoveryOrder y x \<le> 0"
    using str_cmp_flip [of "at_executionAttemptId x" "at_executionAttemptId y"]
    by (auto simp: compareRecoveryOrder_def Let_def)
  show "compareRecoveryOrder x y \<le> 0 \<Longrightarrow> compareRecoveryOrder y z \<le> 0 \<Longrightarrow> compareRecoveryOrder x z \<le> 0"
    using str_cmp_trans [of "at_executionAttemptId x" "at_executionAttemptId y" "at_executionAttemptId z"]
    by (auto simp: compareRecoveryOrder_def Let_def split: if_splits)
qed

lemma narrow_all_total:
  "\<forall>a \<in> set as. toRecoverableAttempt a = Inr a \<Longrightarrow> narrow_all as = Inr as"
  by (induction as) auto

text \<open>
  The recovery listing never fails and never omits: in every reachable state it returns exactly
  the allocated, claimable, unsettled and unexpired attempts of the execution, oldest first, with ties
  in the order of their identifiers.\<close>

lemma recoverable_listing_complete:
  assumes reach: "attempt_steps E empty_repo R"
  shows "\<exists>as. getRecoverableAttempts e now R = Inr as
             \<and> set as = {a. \<exists>i. map_get (rs_attempts R) i = Some a \<and> recovery_selected e now a}
             \<and> sorted_wrt (\<lambda>a b. compareRecoveryOrder a b \<le> 0) as"
proof -
  have inv: "repo_inv R" by (rule reachable_inv [OF reach])
  let ?sel = "filter (recovery_selected e now) (map snd (rs_attempts R))"
  have wf: "map_wf (rs_attempts R)" using inv by (simp add: repo_inv_def attempts_inv_def)
  have mem: "a \<in> set ?sel \<longleftrightarrow> (\<exists>i. map_get (rs_attempts R) i = Some a) \<and> recovery_selected e now a" for a
  proof -
    have "a \<in> snd ` set (rs_attempts R) \<longleftrightarrow> (\<exists>i. map_get (rs_attempts R) i = Some a)"
    proof
      assume "a \<in> snd ` set (rs_attempts R)"
      then obtain i where "(i, a) \<in> set (rs_attempts R)" by auto
      from mem_map_get [OF wf this] show "\<exists>i. map_get (rs_attempts R) i = Some a" ..
    next
      assume "\<exists>i. map_get (rs_attempts R) i = Some a"
      then obtain i where "(i, a) \<in> set (rs_attempts R)" using map_get_mem by fast
      then show "a \<in> snd ` set (rs_attempts R)" by (rule image_eqI [rotated]) simp
    qed
    then show ?thesis by auto
  qed
  have "toRecoverableAttempt a = Inr a" if "a \<in> set ?sel" for a
  proof -
    from that mem obtain i where "map_get (rs_attempts R) i = Some a" "recovery_selected e now a" by blast
    with inv_attempt [OF inv] have "lifecycle_ok a" "recovery_selected e now a" by (auto simp: attempt_ok_def)
    then show ?thesis
      by (auto simp: toRecoverableAttempt_def recovery_selected_def lifecycle_defs)
  qed
  then have "getRecoverableAttempts e now R = Inr (js_sort compareRecoveryOrder ?sel)"
    by (simp add: getRecoverableAttempts_def narrow_all_total)
  with mem recovery_order.js_sort_ordered [of ?sel] show ?thesis by auto
qed

section \<open>Timing\<close>

text \<open>
  The bootstrap deadline is the creation instant plus the granted budget, strictly later and
  within the range JavaScript can represent; a budget that is not a positive safe integer, or a
  deadline outside that range, is refused with nothing written.\<close>

lemma bootstrap_deadline_bounds:
  "(case createAttempt input now R of
      (Inr a, S) \<Rightarrow>
        at_createdAt a = now
        \<and> at_bootstrapDeadlineAt a = Some (now + cr_bootstrapTimeoutMs input)
        \<and> now < now + cr_bootstrapTimeoutMs input
        \<and> \<bar>now + cr_bootstrapTimeoutMs input\<bar> \<le> 8640000000000000
    | (Inl _, S) \<Rightarrow> S = R)"
  unfolding createAttempt_def insertAttempt_def createAttemptTiming_def parseInstruction_def
    positive_int_def MAX_SAFE_INTEGER_def MAX_DATE_MS_def Let_def
  by (simp split: sum.splits prod.splits)

section \<open>Two defects\<close>

text \<open>
  \<open>beginProvisioning\<close> binds the provider before it parses the lease deadline: an unparsable deadline
  throws and leaves an attempt that is provisioning, bound to a provider and without an operation.
\<close>

lemma unparsable_lease_strands_attempt:
  assumes "dateParse E (bg_leaseExpiresAt input) = None"
    and "map_get (rs_attempts R) (bg_executionAttemptId input) = Some a"
    and "at_executionId a = bg_executionId input" "is_active R (bg_executionId input) (bg_executionAttemptId input)"
    and "at_settlementKind a = None" "at_allocationRef a = None" "cs_operationStartGate a = GateOpen"
    and "at_status a = AttPending" "map_get (rs_operations R) (bg_executionAttemptId input) = None"
  shows "\<exists>S b. beginProvisioning E input uuid R = (Inl (InvalidInstant (bg_leaseExpiresAt input)), S)
           \<and> map_get (rs_attempts S) (bg_executionAttemptId input) = Some b
           \<and> at_status b = AttProvisioning \<and> at_providerId b = Some (bg_providerId input)
           \<and> map_get (rs_operations S) (bg_executionAttemptId input) = None
           \<and> fst (beginProvisioning E input uuid' S) = Inr PvAlreadyProvisioning"
  using assms
  by (simp add: beginProvisioning_def Let_def normalizeInstant_def instantOf_def jm.get_put is_active_def)

text \<open>
  Readiness is fenced by the generation alone, and the generation of an attempt without a runtime is
  0: a report for generation 0 marks an allocated attempt ready before any runtime registered.
\<close>

lemma readiness_without_runtime:
  "map_option (\<lambda>a. (cs_runtimeIncarnationId a, cs_runtimeReadyAt a))
     (map_get (rs_attempts (snd (markRuntimeReady sample_env
         (sample_readiness\<lparr>rd_runtimeGeneration := 0\<rparr>) sample_allocated))) ''a1'')
   = Some (None, Some 5000)"
  by code_simp

end
