(* ===== verification/Attempt_Authority_Laws.thy ===== *)
theory Attempt_Authority_Laws
  imports Attempt_Authority Attempt_Properties
begin

text \<open>
  A process that runs the authority: repository calls, waiter bookkeeping and submissions in flight
  interleave at every await. The submissions in flight form a multiset of the stages of
  \<open>submitAttemptOutcome\<close>, and one step of the process resumes one of them up to its next await. The state satisfies an invariant and only moves
  forward, so the locale \<open>guarded_history\<close> gives both for every later state.
\<close>

section \<open>The process\<close>

type_synonym 'o process = "'o authority \<times> 'o submission_stage multiset"

inductive process_step :: "'o port_env \<Rightarrow> 'o process \<Rightarrow> 'o process \<Rightarrow> bool" for E where
  port: "attempt_step E (au_repository A) R \<Longrightarrow> process_step E (A, T) (A\<lparr>au_repository := R\<rparr>, T)"
| install: "process_step E (A, T) (installWaiter i A, T)"
| reject: "process_step E (A, T) (rejectWaiterWith i m A, T)"
| discard: "process_step E (A, T) (discardWaiter i A, T)"
| submit: "begin_submission E owner s = Inr k \<Longrightarrow> process_step E (A, T) (A, add_mset k T)"
| resume: "resume_submission E k A = (B, Inr k') \<Longrightarrow> process_step E (A, add_mset k T) (B, add_mset k' T)"
| finish: "resume_submission E k A = (B, Inl answer) \<Longrightarrow> process_step E (A, add_mset k T) (B, T)"

abbreviation process_steps :: "'o port_env \<Rightarrow> 'o process \<Rightarrow> 'o process \<Rightarrow> bool" where
  "process_steps E \<equiv> (process_step E)\<^sup>*\<^sup>*"

section \<open>The invariant\<close>

definition holds_outcome :: "repo \<Rightarrow> string \<Rightarrow> string \<Rightarrow> outcome_observation option \<Rightarrow> bool" where
  "holds_outcome R i t ob \<longleftrightarrow>
     map_get (rs_committedOutcomes R) i = Some t \<and> map_get (rs_outcomeControlObservations R) i = ob"

definition settled_with :: "'o port_env \<Rightarrow> repo \<Rightarrow> string \<Rightarrow> 'o accepted_outcome \<Rightarrow> bool" where
  "settled_with E R i v \<longleftrightarrow>
     (\<exists>t. holds_outcome R i t (ao_controlObservation v) \<and> decodeDurableOutcome E t = Inr (ao_outcome v))"

fun task_ok :: "repo \<Rightarrow> 'o submission_stage \<Rightarrow> bool" where
  "task_ok R (AwaitingValidation owner s d) \<longleftrightarrow> True"
| "task_ok R (AwaitingCommit owner s dec) \<longleftrightarrow>
     (case dec of
        OcAccepted out t ob \<Rightarrow> holds_outcome R (sb_executionAttemptId s) t (Some ob)
      | OcDuplicate out t ob \<Rightarrow> holds_outcome R (sb_executionAttemptId s) t ob
      | _ \<Rightarrow> True)"
| "task_ok R (AwaitingConvergence s dup t ob converged) \<longleftrightarrow> holds_outcome R (sb_executionAttemptId s) t ob"

definition waiters_ok :: "'o authority \<Rightarrow> bool" where
  "waiters_ok A \<longleftrightarrow>
     (\<forall>i n. map_get (au_waiters A) i = Some n \<longrightarrow>
        n < length (au_deferreds A) \<and> au_deferreds A ! n = (i, Pending))"

definition promises_ok :: "'o port_env \<Rightarrow> 'o authority \<Rightarrow> bool" where
  "promises_ok E A \<longleftrightarrow>
     (\<forall>i v. (i, Resolved v) \<in> set (au_deferreds A) \<longrightarrow> settled_with E (au_repository A) i v)"

definition process_inv :: "'o port_env \<Rightarrow> 'o process \<Rightarrow> bool" where
  "process_inv E P \<longleftrightarrow>
     (case P of (A, T) \<Rightarrow>
        repo_inv (au_repository A) \<and> waiters_ok A \<and> promises_ok E A
        \<and> (\<forall>k \<in># T. task_ok (au_repository A) k))"

definition authority_le :: "'o authority \<Rightarrow> 'o authority \<Rightarrow> bool" where
  "authority_le A B \<longleftrightarrow>
     repo_le (au_repository A) (au_repository B)
     \<and> length (au_deferreds A) \<le> length (au_deferreds B)
     \<and> (\<forall>n < length (au_deferreds A).
          fst (au_deferreds B ! n) = fst (au_deferreds A ! n)
          \<and> (snd (au_deferreds A ! n) \<noteq> Pending \<longrightarrow> au_deferreds B ! n = au_deferreds A ! n))"

definition process_le :: "'o process \<Rightarrow> 'o process \<Rightarrow> bool" where
  "process_le P Q \<longleftrightarrow> authority_le (fst P) (fst Q)"

lemma authority_le_refl [simp]: "authority_le A A"
  by (simp add: authority_le_def)

lemma authority_le_trans: "authority_le A B \<Longrightarrow> authority_le B C \<Longrightarrow> authority_le A C"
  unfolding authority_le_def by (auto intro: repo_le_trans)

section \<open>What a step keeps\<close>

lemma repo_inv_observed:
  assumes "repo_inv R" and "map_get (rs_committedOutcomes R) i = Some t"
  obtains ob where "map_get (rs_outcomeControlObservations R) i = Some ob"
  using assms unfolding repo_inv_def outcomes_inv_def
  by (cases "map_get (rs_outcomeControlObservations R) i") auto

lemma holds_outcome_le:
  assumes "holds_outcome R i t ob" and inv: "repo_inv R" and le: "repo_le R S"
  shows "holds_outcome S i t ob"
proof -
  from assms obtain o' where "ob = Some o'" "map_get (rs_outcomeControlObservations R) i = Some o'"
    using repo_inv_observed [OF inv] by (metis holds_outcome_def)
  with assms show ?thesis by (auto simp: holds_outcome_def repo_le_def map_extends_def)
qed

lemma task_ok_le:
  "task_ok R k \<Longrightarrow> repo_inv R \<Longrightarrow> repo_le R S \<Longrightarrow> task_ok S k"
  by (cases k) (auto intro: holds_outcome_le split: outcome_decision.splits)

lemma settled_with_le:
  "settled_with E R i v \<Longrightarrow> repo_inv R \<Longrightarrow> repo_le R S \<Longrightarrow> settled_with E S i v"
  by (auto simp: settled_with_def intro: holds_outcome_le)

text \<open>A write of the repository.\<close>

lemma repository_write:
  assumes "process_inv E (A, T)" and pres: "preserves (au_repository A) R"
  shows "process_inv E (A\<lparr>au_repository := R\<rparr>, T)" and "authority_le A (A\<lparr>au_repository := R\<rparr>)"
proof -
  from assms have R: "repo_inv (au_repository A)" "repo_inv R" "repo_le (au_repository A) R"
    by (auto simp: process_inv_def preserves_def)
  have "promises_ok E (A\<lparr>au_repository := R\<rparr>)"
    using assms(1) settled_with_le [OF _ R(1,3)] by (simp add: process_inv_def promises_ok_def) blast
  with R assms(1) task_ok_le [OF _ R(1,3)] show "process_inv E (A\<lparr>au_repository := R\<rparr>, T)"
    by (auto simp: process_inv_def waiters_ok_def)
  from R show "authority_le A (A\<lparr>au_repository := R\<rparr>)" by (simp add: authority_le_def)
qed

text \<open>A settlement of a waiter.\<close>

lemma settle_waiter_repository [simp]: "au_repository (settle_waiter i p A) = au_repository A"
  by (simp add: settle_waiter_def discardWaiter_def settle_promise_def split: option.splits)

lemma settle_waiter_deferreds:
  assumes "waiters_ok A"
  shows "au_deferreds (settle_waiter i p A)
         = (case map_get (au_waiters A) i of
              None \<Rightarrow> au_deferreds A | Some n \<Rightarrow> (au_deferreds A)[n := (i, p)])"
  using assms
  by (auto simp: settle_waiter_def discardWaiter_def settle_promise_def waiters_ok_def split: option.splits)

lemma settle_waiter_waiters:
  "map_get (au_waiters (settle_waiter i p A)) j = (if j = i then None else map_get (au_waiters A) j)"
  by (auto simp: settle_waiter_def discardWaiter_def settle_promise_def jm.get_del split: option.splits)

lemma settle_waiter_keeps:
  assumes inv: "process_inv E (A, T)" and ok: "\<And>v. p = Resolved v \<Longrightarrow> settled_with E (au_repository A) i v"
  shows "process_inv E (settle_waiter i p A, T)" and "authority_le A (settle_waiter i p A)"
proof -
  have w: "waiters_ok A" and pr: "promises_ok E A" using inv by (auto simp: process_inv_def)
  have "n \<noteq> m" if "map_get (au_waiters A) i = Some n" "map_get (au_waiters A) j = Some m" "j \<noteq> i" for j n m
    using w that unfolding waiters_ok_def by (metis fst_conv)
  then have "waiters_ok (settle_waiter i p A)"
    using w unfolding waiters_ok_def settle_waiter_waiters settle_waiter_deferreds [OF w]
    by (auto split: option.splits if_splits simp: nth_list_update)
  moreover have "promises_ok E (settle_waiter i p A)"
    using pr ok w unfolding promises_ok_def settle_waiter_deferreds [OF w]
    by (auto split: option.splits dest!: subsetD [OF set_update_subset_insert])
  ultimately show "process_inv E (settle_waiter i p A, T)"
    using inv by (auto simp: process_inv_def)
  show "authority_le A (settle_waiter i p A)"
    using w unfolding authority_le_def settle_waiter_deferreds [OF w]
    by (auto split: option.splits simp: nth_list_update waiters_ok_def)
qed

lemma rejection_keeps:
  assumes inv: "process_inv E (A, T)"
  shows "process_inv E (settle_waiter i (Rejected m) A, T) \<and> authority_le A (settle_waiter i (Rejected m) A)"
  using settle_waiter_keeps [OF inv, of "Rejected m" i] by simp

lemma resolution_keeps:
  assumes inv: "process_inv E (A, T)" and "settled_with E (au_repository A) i v"
  shows "process_inv E (settle_waiter i (Resolved v) A, T) \<and> authority_le A (settle_waiter i (Resolved v) A)"
  using settle_waiter_keeps [OF inv, of "Resolved v" i] assms(2) by simp

lemma installWaiter_keeps:
  assumes "process_inv E (A, T)"
  shows "process_inv E (installWaiter i A, T)" and "authority_le A (installWaiter i A)"
  using assms
  by (auto simp: process_inv_def installWaiter_def waiters_ok_def promises_ok_def authority_le_def
      jm.get_put nth_append split: if_splits)
    (metis less_SucI)+

lemma discardWaiter_keeps:
  assumes "process_inv E (A, T)"
  shows "process_inv E (discardWaiter i A, T)" and "authority_le A (discardWaiter i A)"
  using assms
  by (auto simp: process_inv_def discardWaiter_def waiters_ok_def promises_ok_def authority_le_def
      jm.get_del split: if_splits)

lemma commitOutcome_decision_holds:
  assumes inv: "repo_inv R" and c: "commitOutcome E input R = (Inr dec, S)"
  shows "(case dec of
            OcAccepted out t ob \<Rightarrow> holds_outcome S (cm_executionAttemptId input) t (Some ob)
          | OcDuplicate out t ob \<Rightarrow> holds_outcome S (cm_executionAttemptId input) t ob
          | _ \<Rightarrow> True)"
  using c unfolding commitOutcome_def replay_outcome_def holds_outcome_def
  by (auto simp: Let_def jm.get_put map_sum_id_Inr split: if_splits option.splits sum.splits)

lemma delegate_result:
  assumes "delegate f A = (r, B)"
  shows "B = A\<lparr>au_repository := snd (f (au_repository A))\<rparr>"
    and "r = map_sum PortError id (fst (f (au_repository A)))"
  using assms by (auto simp: delegate_def split: prod.splits)

lemma delegate_Inr:
  assumes "delegate f A = (Inr d, B)"
  shows "f (au_repository A) = (Inr d, au_repository B)"
  using delegate_result [OF assms] by (cases "f (au_repository A)"; cases "fst (f (au_repository A))") auto

lemma commit_keeps:
  assumes d: "delegate (commitOutcome E input) A = (r, B)" and inv: "process_inv E (A, T)"
  shows "process_inv E (B, T)" and "authority_le A B"
proof -
  have "preserves (au_repository A) (snd (commitOutcome E input (au_repository A)))"
    using inv by (simp add: process_inv_def commitOutcome_preserves)
  from repository_write [OF inv this] delegate_result(1) [OF d]
  show "process_inv E (B, T)" "authority_le A B" by simp_all
qed

definition in_flight :: "'r + 'o submission_stage \<Rightarrow> 'o submission_stage multiset" where
  "in_flight x = (case x of Inl _ \<Rightarrow> {#} | Inr k \<Rightarrow> {#k#})"

lemma resume_validation_keeps:
  assumes "resume_submission E (AwaitingValidation owner s d) A = (B, x)" and inv: "process_inv E (A, T)"
  shows "process_inv E (B, in_flight x + T) \<and> authority_le A B"
proof (cases "validation_error owner s d")
  case (Some e)
  then show ?thesis using assms by (auto simp: in_flight_def)
next
  case None
  obtain r C where d: "delegate (commitOutcome E (submission_commit s d)) A = (r, C)" by fastforce
  have r: "repo_inv (au_repository A)" using inv by (simp add: process_inv_def)
  note keeps = commit_keeps [OF d inv]
  show ?thesis
  proof (cases r)
    case (Inl e)
    then show ?thesis using assms(1) None d keeps by (auto simp: in_flight_def)
  next
    case (Inr dec)
    have "task_ok (au_repository C) (AwaitingCommit owner s dec)"
      using commitOutcome_decision_holds [OF r delegate_Inr [OF d [unfolded Inr]]] 
      by (cases dec) (simp_all add: submission_commit_def)
    then show ?thesis
      using assms(1) None d keeps Inr by (auto simp: in_flight_def process_inv_def simp del: task_ok.simps)
  qed
qed

lemma resume_commit_keeps:
  assumes "resume_submission E (AwaitingCommit owner s dec) A = (B, x)" and inv: "process_inv E (A, T)"
    and ok: "task_ok (au_repository A) (AwaitingCommit owner s dec)"
  shows "process_inv E (B, in_flight x + T) \<and> authority_le A B"
  using assms rejection_keeps [OF inv, of "sb_executionAttemptId s"]
  by (cases dec)
    (auto simp: settle_decision_def settleWaiterInternal_def in_flight_def start_convergence_def process_inv_def)

lemma resume_convergence_keeps:
  assumes "resume_submission E (AwaitingConvergence s dup t ob converged) A = (B, x)" and inv: "process_inv E (A, T)"
    and ok: "task_ok (au_repository A) (AwaitingConvergence s dup t ob converged)"
  shows "process_inv E (B, in_flight x + T) \<and> authority_le A B"
proof -
  have "settled_with E (au_repository A) (sb_executionAttemptId s)
          \<lparr>ao_outcome = out, ao_controlObservation = ob, ao_acceptance = acc\<rparr>"
    if "decodeDurableOutcome E t = Inr out" for out acc
    using ok that by (auto simp: settled_with_def)
  with assms resolution_keeps [OF inv] show ?thesis
    by (auto simp: settle_converged_def settleOutcome_def settleWaiterInternal_def in_flight_def split: sum.splits)
qed

lemma resume_keeps:
  assumes r: "resume_submission E k A = (B, x)" and inv: "process_inv E (A, add_mset k T)"
  shows "process_inv E (B, in_flight x + T) \<and> authority_le A B"
proof -
  have i: "process_inv E (A, T)" and ok: "task_ok (au_repository A) k" using inv by (simp_all add: process_inv_def)
  show ?thesis
    using resume_validation_keeps [OF _ i] resume_commit_keeps [OF _ i] resume_convergence_keeps [OF _ i] r ok
    by (cases k) (simp_all only:)
qed

lemma process_step_keeps:
  assumes "process_step E P Q" and "process_inv E P"
  shows "process_inv E Q \<and> process_le P Q"
  using assms
proof (induction rule: process_step.induct)
  case (port A R T)
  then have "preserves (au_repository A) R"
    using attempt_step_preserves by (auto simp: process_inv_def)
  with repository_write [OF port.prems] show ?case by (simp add: process_le_def)
next
  case (install A T i)
  then show ?case using installWaiter_keeps [OF install] by (simp add: process_le_def)
next
  case (reject A T i m)
  then show ?case using rejection_keeps [OF reject] by (simp add: process_le_def rejectWaiterWith_def)
next
  case (discard A T i)
  then show ?case using discardWaiter_keeps [OF discard] by (simp add: process_le_def)
next
  case (submit owner s k A T)
  then show ?case by (cases "durableOutcome E (sb_outcome s)") (auto simp: begin_submission_def process_inv_def process_le_def)
next
  case (resume k A B k' T)
  from resume_keeps [OF resume] show ?case by (simp add: in_flight_def process_le_def)
next
  case (finish k A B answer T)
  from resume_keeps [OF finish] show ?case by (simp add: in_flight_def process_le_def)
qed

interpretation process: guarded_history "process_step E" "process_inv E" process_le
proof
  show "process_step E s t \<Longrightarrow> process_inv E s \<Longrightarrow> process_inv E t" for s t
    using process_step_keeps by blast
  show "process_step E s t \<Longrightarrow> process_inv E s \<Longrightarrow> process_le s t" for s t
    using process_step_keeps by blast
qed (auto simp: process_le_def intro: authority_le_trans)

lemma newAuthority_inv:
  "repo_inv R \<Longrightarrow> newAuthority R rec ms = Inr A \<Longrightarrow> process_inv E (A, {#})"
  by (auto simp: newAuthority_def process_inv_def waiters_ok_def promises_ok_def split: if_splits)

text \<open>
  A call of \<open>submitAttemptOutcome\<close> is a run of the process, whatever the others do at its awaits: the
  stages it goes through are the steps above.
\<close>

lemma run_submission_process:
  assumes "\<And>k B T. process_steps E (B, T) (world k B, T)"
  shows "process_steps E (A, add_mset st T) (snd (run_submission E world k st A), T)"
  using assms
proof (induction E world k st A rule: run_submission.induct)
  case (1 E world k st A)
  have w: "process_steps E (A, add_mset st T) (world k A, add_mset st T)" by (rule "1.prems")
  obtain B x where r: "resume_submission E st (world k A) = (B, x)" by fastforce
  show ?case
  proof (cases x)
    case (Inl answer)
    with r have "process_step E (world k A, add_mset st T) (B, T)" by (auto intro: finish)
    with w r Inl show ?thesis by (subst run_submission.simps) (simp add: rtranclp.rtrancl_into_rtrancl)
  next
    case (Inr st')
    with r have "process_step E (world k A, add_mset st T) (B, add_mset st' T)" by (auto intro: resume)
    with w have "process_steps E (A, add_mset st T) (B, add_mset st' T)" by (rule rtranclp.rtrancl_into_rtrancl)
    also have "process_steps E (B, add_mset st' T) (snd (run_submission E world (Suc k) st' B), T)"
      by (rule "1.IH" [OF r [symmetric] Inr "1.prems"])
    finally show ?thesis using r Inr by (subst run_submission.simps) simp
  qed
qed

lemma submitAttemptOutcome_process:
  assumes "\<And>k B T. process_steps E (B, T) (world k B, T)"
  shows "process_steps E (A, T) (snd (submitAttemptOutcome E owner s world A), T)"
proof (cases "begin_submission E owner s")
  case (Inr st)
  have "process_step E (A, T) (A, add_mset st T)" by (rule submit [OF Inr])
  then show ?thesis
    using run_submission_process [where world = world and T = T and st = st and k = 0 and A = A, OF assms] Inr
    by (simp add: submitAttemptOutcome_def converse_rtranclp_into_rtranclp)
qed (simp add: submitAttemptOutcome_def)

end
