(* ===== verification/Authority_Properties.thy ===== *)
theory Authority_Properties
  imports Attempt_Authority_Laws
begin

text \<open>
  What a process that runs the attempt authority promises to the code that waits for an outcome, at
  every interleaving of its calls, its waiters and the submissions in flight.
\<close>

section \<open>A sample process\<close>

definition sample_fresh :: "int authority" where
  "sample_fresh =
     \<lparr>au_repository = empty_repo, au_supportsRecovery = True, au_bootstrapTimeoutMs = 60000,
      au_waiters = [], au_deferreds = []\<rparr>"

definition sample_waiting :: "int authority" where
  "sample_waiting = installWaiter ''a1'' (sample_fresh\<lparr>au_repository := sample_running\<rparr>)"

definition sample_submission :: "int \<Rightarrow> int submission" where
  "sample_submission n =
     \<lparr>sb_executionId = ''e1'', sb_executionAttemptId = ''a1'', sb_outcome = n, sb_runtimeFence = None\<rparr>"

definition sample_result :: "int durable_outcome" where
  "sample_result = \<lparr>du_text = ''7'', du_outcome = 7\<rparr>"

definition sample_observation :: outcome_observation where
  "sample_observation = \<lparr>ob_controlRevision = 0, ob_cancellation = None\<rparr>"

definition sample_owner :: "int owner_port" where
  "sample_owner = \<lparr>ow_validate = Some (\<lambda>_ n. if n < 0 then Some ''negative'' else None), ow_converge = (\<lambda>_. Inr Projected)\<rparr>"

definition sample_committed :: "int authority" where
  "sample_committed =
     snd (delegate (commitOutcome sample_env (submission_commit (sample_submission 7) sample_result)) sample_waiting)"

lemma sample_new: "newAuthority empty_repo True 60000 = Inr sample_fresh"
  by (simp add: newAuthority_def positive_int_def MAX_SAFE_INTEGER_def sample_fresh_def)

lemma sample_rendering: "durableOutcome sample_env (sb_outcome (sample_submission 7)) = Inr sample_result"
  by code_simp

lemma sample_commit_decision:
  "delegate (commitOutcome sample_env (submission_commit (sample_submission 7) sample_result)) sample_waiting
   = (Inr (OcAccepted 7 ''7'' sample_observation), sample_committed)"
proof -
  have "fst (delegate (commitOutcome sample_env (submission_commit (sample_submission 7) sample_result))
           sample_waiting) = Inr (OcAccepted 7 ''7'' sample_observation)"
    by code_simp
  then show ?thesis by (simp add: prod_eq_iff sample_committed_def)
qed

section \<open>Waiters and the committed outcome\<close>

lemma port_steps:
  "attempt_steps E (au_repository A) R \<Longrightarrow> process_steps E (A, T) (A\<lparr>au_repository := R\<rparr>, T)"
proof (induction rule: rtranclp_induct)
  case (step R S)
  have "process_step E (A\<lparr>au_repository := R\<rparr>, T) ((A\<lparr>au_repository := R\<rparr>)\<lparr>au_repository := S\<rparr>, T)"
    by (rule port) (use step in simp)
  with step.IH show ?case by simp
qed simp

lemma started_process_inv:
  assumes "attempt_steps E empty_repo R" and "newAuthority R rec ms = Inr A0"
    and "process_steps E (A0, {#}) P"
  shows "process_inv E P"
  by (rule process.steps_inv [OF assms(3)]) (rule newAuthority_inv [OF reachable_inv [OF assms(1)] assms(2)])

lemma sample_waiting_steps: "process_steps sample_env (sample_fresh, {#}) (sample_waiting, {#})"
proof -
  have "process_steps sample_env (sample_fresh, {#}) (sample_fresh\<lparr>au_repository := sample_running\<rparr>, {#})"
    by (rule port_steps) (simp add: sample_fresh_def sample_step_running)
  then show ?thesis
    unfolding sample_waiting_def by (rule rtranclp.rtrancl_into_rtrancl) (rule install)
qed

abbreviation sample_decided :: "int submission_stage" where
  "sample_decided \<equiv> AwaitingCommit sample_owner (sample_submission 7) (OcAccepted 7 ''7'' sample_observation)"

lemma sample_committed_steps: "process_steps sample_env (sample_fresh, {#}) (sample_committed, {#sample_decided#})"
proof -
  let ?k = "AwaitingValidation sample_owner (sample_submission 7) sample_result"
  have b: "begin_submission sample_env sample_owner (sample_submission 7) = Inr ?k"
    by (simp add: begin_submission_def sample_rendering)
  have r: "resume_submission sample_env ?k sample_waiting = (sample_committed, Inr sample_decided)"
    by (simp add: validation_error_def sample_owner_def sample_result_def [THEN arg_cong, of du_outcome] sample_commit_decision)
  have "process_steps sample_env (sample_fresh, {#}) (sample_waiting, {#?k#})"
    by (rule rtranclp.rtrancl_into_rtrancl [OF sample_waiting_steps submit [OF b]])
  then show ?thesis by (rule rtranclp.rtrancl_into_rtrancl) (rule resume [OF r])
qed

lemma outcome_read:
  assumes inv: "repo_inv R" and h: "holds_outcome R i t ob" and d: "decodeDurableOutcome E t = Inr out"
    and i: "i \<noteq> []"
  obtains a where "map_get (rs_attempts R) i = Some a"
    and "at_executionId a \<noteq> [] \<Longrightarrow>
           \<exists>current. readAttemptSettlement E (at_executionId a) i R
             = Inr (SrOutcome a current \<lparr>du_text = t, du_outcome = out\<rparr> ob)"
proof -
  from inv h obtain a where a: "map_get (rs_attempts R) i = Some a" "at_settlementKind a = Some ByOutcome"
    unfolding repo_inv_def outcomes_inv_def holds_outcome_def by blast
  moreover have "at_executionAttemptId a = i" "at_status a = AttSettled"
    using inv_attempt [OF inv a(1)] a by (auto simp: attempt_ok_def lifecycle_ok_def)
  ultimately show thesis
    using that h d i
    by (auto simp: readAttemptSettlement_def requireIdentity_def readAttemptSettlementSnapshot_def
        holds_outcome_def)
qed

text \<open>
  C16. A waiter is resolved with the outcome the attempt holds. A process interleaves calls of the
  repository, waiter bookkeeping and any number of \<open>submitAttemptOutcome\<close> calls, each suspended at its
  awaits (validation, commit, convergence) and resumed in any order. Once a promise of attempt \<open>i\<close> is
  resolved, in every later state of the process it still carries the same value, and the settlement
  of \<open>i\<close> reads back exactly that outcome and the control facts observed when it was committed: a
  duplicate submission too resolves the waiter from the text the attempt holds, not from its own.\<close>

theorem waiter_receives_committed_outcome:
  assumes reach: "attempt_steps E empty_repo R" and start: "newAuthority R rec ms = Inr A0"
    and steps: "process_steps E (A0, {#}) (A, T)" and later: "process_steps E (A, T) (B, U)"
    and n: "n < length (au_deferreds A)" and res: "au_deferreds A ! n = (i, Resolved v)" and i: "i \<noteq> []"
  shows "au_deferreds B ! n = (i, Resolved v)
         \<and> (\<exists>a. map_get (rs_attempts (au_repository B)) i = Some a
              \<and> (at_executionId a \<noteq> [] \<longrightarrow>
                   (\<exists>current t. readAttemptSettlement E (at_executionId a) i (au_repository B)
                      = Inr (SrOutcome a current \<lparr>du_text = t, du_outcome = ao_outcome v\<rparr>
                               (ao_controlObservation v)))))"
proof -
  have invA: "process_inv E (A, T)" by (rule started_process_inv [OF reach start steps])
  have invB: "process_inv E (B, U)" by (rule process.steps_inv [OF later invA])
  have le: "authority_le A B" using process.steps_le [OF later invA] by (simp add: process_le_def)
  with n res have B: "au_deferreds B ! n = (i, Resolved v)" "n < length (au_deferreds B)"
    by (auto simp: authority_le_def)
  then have "settled_with E (au_repository B) i v"
    using invB nth_mem [of n "au_deferreds B"] by (auto simp: process_inv_def promises_ok_def)
  then obtain t where t: "holds_outcome (au_repository B) i t (ao_controlObservation v)"
    "decodeDurableOutcome E t = Inr (ao_outcome v)" by (auto simp: settled_with_def)
  have "repo_inv (au_repository B)" using invB by (simp add: process_inv_def)
  from outcome_read [OF this t i] B(1) show ?thesis by (metis (lifting))
qed

definition sample_settled :: "int authority" where
  "sample_settled =
     snd (settle_converged sample_env ''a1'' False ''7'' (Some sample_observation) Projected sample_committed)"

lemma sample_settled_steps: "process_steps sample_env (sample_fresh, {#}) (sample_settled, {#})"
proof -
  let ?k = "AwaitingConvergence (sample_submission 7) False ''7'' (Some sample_observation) (Inr Projected)"
  have 1: "resume_submission sample_env sample_decided sample_committed = (sample_committed, Inr ?k)"
    by (simp add: settle_decision_def start_convergence_def sample_owner_def)
  have 2: "\<exists>answer. resume_submission sample_env ?k sample_committed = (sample_settled, Inl answer)"
    by (simp add: sample_settled_def sample_submission_def split: prod.splits)
  have "process_steps sample_env (sample_fresh, {#}) (sample_committed, {#?k#})"
    by (rule rtranclp.rtrancl_into_rtrancl [OF sample_committed_steps resume [OF 1]])
  with 2 show ?thesis by (metis finish rtranclp.rtrancl_into_rtrancl)
qed

theorem waiter_receives_committed_outcome_witness:
  "\<exists>v. ao_outcome v = 7 \<and> ao_acceptance v = Projected \<and> au_deferreds sample_settled ! 0 = (''a1'', Resolved v)
     \<and> (\<exists>a current t. map_get (rs_attempts (au_repository sample_settled)) ''a1'' = Some a
          \<and> readAttemptSettlement sample_env ''e1'' ''a1'' (au_repository sample_settled)
            = Inr (SrOutcome a current \<lparr>du_text = t, du_outcome = 7\<rparr> (ao_controlObservation v)))"
proof -
  let ?v = "\<lparr>ao_outcome = 7, ao_controlObservation = Some sample_observation, ao_acceptance = Projected\<rparr>"
  have "0 < length (au_deferreds sample_settled)" "au_deferreds sample_settled ! 0 = (''a1'', Resolved ?v)"
    by code_simp+
  moreover have "map_option at_executionId (map_get (rs_attempts (au_repository sample_settled)) ''a1'')
                 = Some ''e1''"
    by code_simp
  ultimately show ?thesis
    using waiter_receives_committed_outcome
      [OF rtranclp.rtrancl_refl sample_new sample_settled_steps rtranclp.rtrancl_refl, of 0 "''a1''" ?v]
    by (intro exI [of _ ?v]) auto
qed

section \<open>Retries\<close>

text \<open>Interference with the repository alone, between the segments of one submission.\<close>

definition repository_world :: "(nat \<Rightarrow> repo \<Rightarrow> repo) \<Rightarrow> nat \<Rightarrow> 'o authority \<Rightarrow> 'o authority" where
  "repository_world g k A = A\<lparr>au_repository := g k (au_repository A)\<rparr>"

lemma committed_replay:
  assumes inv: "repo_inv R" and act: "is_active R (cm_executionId c) (cm_executionAttemptId c)"
    and h: "holds_outcome R (cm_executionAttemptId c) t ob" and d: "decodeDurableOutcome E t = Inr out"
    and same: "sameDurableOutcome E t (du_text (cm_result c)) = Inr True"
  shows "commitOutcome E c R = (Inr (OcDuplicate out t ob), R)"
  using inv_active [OF inv act] act h d same
  by (auto simp: commitOutcome_def holds_outcome_def replay_outcome_def)

text \<open>
  C30. A submission that committed but did not converge is finished by its retry. While the attempt is
  still the active one and its waiter is installed, submitting an outcome that renders as the same
  outcome again is answered as a duplicate and resolves the waiter with the outcome and the control
  facts of the first commit, whatever the rest of the process does to the repository at the retry's
  awaits, provided the owner's validation, which runs again, accepts the outcome again (the contract
  asks for a retry-stable verdict) and the convergence of the retry, which is handed the committed
  outcome, its control facts and the duplicate mark, succeeds.\<close>

theorem retry_settles_waiter:
  assumes reach: "attempt_steps E empty_repo R" and start: "newAuthority R rec ms = Inr A0"
    and steps: "process_steps E (A0, {#}) (A, T)"
    and others: "\<And>k S. attempt_steps E S (g k S)"
    and committed: "map_get (rs_committedOutcomes (au_repository A)) i = Some t"
    and obs: "map_get (rs_outcomeControlObservations (au_repository A)) i = ob"
    and waiter: "map_get (au_waiters A) i = Some n"
    and s: "sb_executionAttemptId s = i" "durableOutcome E (sb_outcome s) = Inr d"
    and same: "sameDurableOutcome E t (du_text d) = Inr True" "decodeDurableOutcome E t = Inr out"
    and valid: "validation_error owner s d = None"
    and conv: "ow_converge owner
           \<lparr>ov_executionId = sb_executionId s, ov_executionAttemptId = i, ov_outcome = out,
            ov_duplicate = True, ov_controlObservation = ob\<rparr> = Inr acc"
    and act: "is_active (g 0 (au_repository A)) (sb_executionId s) i"
  shows "\<exists>B. submitAttemptOutcome E owner s (repository_world g) A = (Inr AckDuplicate, B)
           \<and> ob \<noteq> None
           \<and> au_deferreds B ! n
              = (i, Resolved \<lparr>ao_outcome = out, ao_controlObservation = ob, ao_acceptance = acc\<rparr>)"
proof -
  let ?R = "au_repository A" and ?S = "g 0 (au_repository A)"
  have inv: "process_inv E (A, T)" by (rule started_process_inv [OF reach start steps])
  then have w: "waiters_ok A" and r: "repo_inv ?R" by (auto simp: process_inv_def)
  have ob: "ob \<noteq> None" using repo_inv_observed [OF r committed] obs by (metis option.distinct(1))
  have h: "holds_outcome ?S i t ob"
    by (rule holds_outcome_le [OF _ r attempts.steps_le [OF others r]])
      (use committed obs in \<open>simp add: holds_outcome_def\<close>)
  have c: "commitOutcome E (submission_commit s d) ?S = (Inr (OcDuplicate out t ob), ?S)"
    by (rule committed_replay [OF attempts.steps_inv [OF others r]])
      (use act h s same in \<open>simp_all add: submission_commit_def\<close>)
  let ?v = "\<lparr>ao_outcome = out, ao_controlObservation = ob, ao_acceptance = acc\<rparr>"
  let ?B = "settle_waiter i (Resolved ?v) (A\<lparr>au_repository := g 2 (g 1 ?S)\<rparr>)"
  have "submitAttemptOutcome E owner s (repository_world g) A = (Inr AckDuplicate, ?B)"
    using conv
    by (simp add: submitAttemptOutcome_eq s valid authorityCommitOutcome_def delegate_def c
        repository_world_def settle_decision_def converge_and_settle_def settle_converged_def same
        settleOutcome_def settleWaiterInternal_def)
  moreover have "au_deferreds ?B ! n = (i, Resolved ?v)"
    using w waiter by (subst settle_waiter_deferreds) (auto simp: waiters_ok_def)
  ultimately show ?thesis using ob by blast
qed

theorem retry_settles_waiter_witness:
  "\<exists>B. submitAttemptOutcome sample_env sample_owner (sample_submission 7)
             (repository_world (\<lambda>_ R. R)) sample_committed = (Inr AckDuplicate, B)
     \<and> au_deferreds B ! 0
        = (''a1'', Resolved \<lparr>ao_outcome = 7, ao_controlObservation = Some sample_observation, ao_acceptance = Projected\<rparr>)"
proof -
  have "map_get (rs_committedOutcomes (au_repository sample_committed)) ''a1'' = Some ''7''"
    "map_get (rs_outcomeControlObservations (au_repository sample_committed)) ''a1'' = Some sample_observation"
    "map_get (au_waiters sample_committed) ''a1'' = Some 0"
    "sb_executionAttemptId (sample_submission 7) = ''a1''"
    "sameDurableOutcome sample_env ''7'' (du_text sample_result) = Inr True"
    "decodeDurableOutcome sample_env ''7'' = Inr 7"
    "validation_error sample_owner (sample_submission 7) sample_result = None"
    "is_active (au_repository sample_committed) (sb_executionId (sample_submission 7)) ''a1''"
    by code_simp+
  from retry_settles_waiter [OF rtranclp.rtrancl_refl sample_new sample_committed_steps
      rtranclp.rtrancl_refl this(1,2,3,4) sample_rendering this(5,6,7), of Projected] this(8)
  show ?thesis by (auto simp: sample_owner_def)
qed

text \<open>
  A committed outcome does not protect its waiter: a submission that conflicts with it, made before the
  first submission converged, rejects the waiter, and the convergence that follows finds none to
  resolve.
\<close>

lemma conflict_rejects_committed_waiter:
  assumes inv: "process_inv E (A, T)"
    and committed: "map_get (rs_committedOutcomes (au_repository A)) i = Some t"
    and waiter: "map_get (au_waiters A) i = Some n"
    and s: "sb_executionAttemptId s = i" "durableOutcome E (sb_outcome s) = Inr d"
    and other: "sameDurableOutcome E t (du_text d) = Inr False" "decodeDurableOutcome E t = Inr out"
    and valid: "validation_error owner s d = None" and act: "is_active (au_repository A) (sb_executionId s) i"
  shows "\<exists>B. submitAttemptOutcome E owner s (\<lambda>_. id) A = (Inr AckConflict, B)
           \<and> au_deferreds B ! n = (i, Rejected (conflict_message i))
           \<and> map_get (au_waiters B) i = None
           \<and> map_get (rs_committedOutcomes (au_repository B)) i = Some t"
proof -
  let ?R = "au_repository A"
  have w: "waiters_ok A" and r: "repo_inv ?R" using inv by (auto simp: process_inv_def)
  have "\<exists>a. map_get (rs_attempts ?R) i = Some a" using inv_active [OF r act] by blast
  then have c: "commitOutcome E (submission_commit s d) ?R = (Inr OcConflict, ?R)"
    using act committed other
    by (auto simp: commitOutcome_def submission_commit_def s replay_outcome_def)
  let ?B = "settle_waiter i (Rejected (conflict_message i)) A"
  have "submitAttemptOutcome E owner s (\<lambda>_. id) A = (Inr AckConflict, ?B)"
    by (simp add: submitAttemptOutcome_eq s valid authorityCommitOutcome_def delegate_def c
        settle_decision_def settleWaiterInternal_def) (simp add: submission_commit_def s)
  moreover have "au_deferreds ?B ! n = (i, Rejected (conflict_message i))"
    using w waiter by (subst settle_waiter_deferreds) (auto simp: waiters_ok_def)
  ultimately show ?thesis using committed by (auto simp: settle_waiter_waiters)
qed

end
