(* ===== verification/Handler_Properties.thy ===== *)
theory Handler_Properties
  imports Attempt_Handlers Authority_Properties
begin

text \<open>
  What the bus handlers of the attempt authority promise to the runtimes that call them. A handler
  awaits the repository and the bus, and meanwhile the rest of the process may do anything the
  repository allows: the facts a handler builds on are the ones that survive every later step.
\<close>

section \<open>Facts that survive interference\<close>

text \<open>The runtime \<open>n\<close> owns generation \<open>g\<close> of the attempt, unless a newer runtime replaced it.\<close>

definition owns_generation :: "repo \<Rightarrow> string \<Rightarrow> int \<Rightarrow> string \<Rightarrow> bool" where
  "owns_generation R i g n \<longleftrightarrow>
     0 < g \<and> (\<exists>a. map_get (rs_attempts R) i = Some a \<and> g \<le> cs_runtimeGeneration a
                \<and> (cs_runtimeGeneration a = g \<longrightarrow> cs_runtimeIncarnationId a = Some n))"

definition ready_since :: "repo \<Rightarrow> string \<Rightarrow> int \<Rightarrow> instant \<Rightarrow> bool" where
  "ready_since R i g t \<longleftrightarrow>
     (\<exists>a. map_get (rs_attempts R) i = Some a \<and> g \<le> cs_runtimeGeneration a
        \<and> (cs_runtimeGeneration a = g \<longrightarrow> cs_runtimeReadyAt a = Some t))"

lemma owns_generation_steps:
  assumes "owns_generation R i g n" "repo_inv R" "attempt_steps E R S"
  shows "owns_generation S i g n"
proof -
  from assms(1) obtain a where a: "map_get (rs_attempts R) i = Some a" "g \<le> cs_runtimeGeneration a"
    "cs_runtimeGeneration a = g \<longrightarrow> cs_runtimeIncarnationId a = Some n" and g: "0 < g"
    by (auto simp: owns_generation_def)
  obtain b where "map_get (rs_attempts S) i = Some b" "attempt_le a b"
    using later_attempt [OF assms(2,3) a(1)] .
  with a g show ?thesis by (force simp: owns_generation_def attempt_le_def)
qed

lemma ready_since_steps:
  assumes "ready_since R i g t" "repo_inv R" "attempt_steps E R S"
  shows "ready_since S i g t"
proof -
  from assms(1) obtain a where a: "map_get (rs_attempts R) i = Some a" "g \<le> cs_runtimeGeneration a"
    "cs_runtimeGeneration a = g \<longrightarrow> cs_runtimeReadyAt a = Some t"
    by (auto simp: ready_since_def)
  obtain b where "map_get (rs_attempts S) i = Some b" "attempt_le a b"
    using later_attempt [OF assms(2,3) a(1)] .
  with a show ?thesis by (force simp: ready_since_def attempt_le_def)
qed

text \<open>
  What a handler relies on: during an await the rest of the process changes the repository by its
  operations only. The steps a handler takes itself are of the same kind.
\<close>

definition interleaved :: "'o port_env \<Rightarrow> (nat \<Rightarrow> 'o authority \<Rightarrow> 'o authority) \<Rightarrow> bool" where
  "interleaved E world \<longleftrightarrow> (\<forall>k A. attempt_steps E (au_repository A) (au_repository (world k A)))"

definition evolves :: "'o port_env \<Rightarrow> 'o authority \<Rightarrow> 'o authority \<Rightarrow> bool" where
  "evolves E A B \<longleftrightarrow> attempt_steps E (au_repository A) (au_repository B)"

lemma evolves_refl [simp]: "evolves E A A"
  by (simp add: evolves_def)

lemma evolves_trans [trans]: "evolves E A B \<Longrightarrow> evolves E B C \<Longrightarrow> evolves E A C"
  by (simp add: evolves_def)

lemma evolves_world: "interleaved E world \<Longrightarrow> evolves E A B \<Longrightarrow> evolves E A (world k B)"
  by (auto simp: interleaved_def evolves_def intro: rtranclp_trans)

lemma evolves_delegate:
  assumes "\<And>R. attempt_step E R (snd (f R))" and "evolves E A B" and "delegate f B = (r, C)"
  shows "evolves E A C"
  using assms(2) assms(1) [of "au_repository B"] delegate_result(1) [OF assms(3)]
  by (simp add: evolves_def)

lemma evolves_inv: "evolves E A B \<Longrightarrow> repo_inv (au_repository A) \<Longrightarrow> repo_inv (au_repository B)"
  unfolding evolves_def by (rule attempts.steps_inv)

lemma interleaved_id: "interleaved E (\<lambda>_. id)"
  by (simp add: interleaved_def)

section \<open>Registration\<close>

lemma register_outcome:
  assumes inv: "repo_inv R" and r: "registerRuntime input R = (Inr d, S)"
    and d: "d = RtRegistered g \<or> d = RtDuplicateRegistration g t"
  shows "owns_generation S (ri_executionAttemptId input) g (ri_runtimeIncarnationId input)"
    and "d = RtDuplicateRegistration g (Some u) \<Longrightarrow> ready_since S (ri_executionAttemptId input) g u"
proof -
  let ?i = "ri_executionAttemptId input"
  from r d obtain a where a: "map_get (rs_attempts R) ?i = Some a"
    by (auto simp: registerRuntime_def owned_attempt_def split: option.splits if_splits)
  have ok: "at_executionAttemptId a = ?i" "0 \<le> cs_runtimeGeneration a"
    "cs_runtimeGeneration a = 0 \<longleftrightarrow> cs_runtimeIncarnationId a = None"
    using inv_attempt [OF inv a] by (auto simp: attempt_ok_def control_ok_def)
  show "owns_generation S ?i g (ri_runtimeIncarnationId input)"
    using r d a ok
    by (auto simp: registerRuntime_def owned_attempt_def runtimeReachability_def Let_def
        evaluateAttemptReachability_def evaluateRuntimeRegistration_def owns_generation_def jm.get_put
        clearActive_def split: option.splits if_splits)
  show "ready_since S ?i g u" if "d = RtDuplicateRegistration g (Some u)"
    using r that a
    by (auto simp: registerRuntime_def owned_attempt_def runtimeReachability_def Let_def
        evaluateAttemptReachability_def evaluateRuntimeRegistration_def ready_since_def
        split: option.splits if_splits)
qed

lemma ready_outcome:
  assumes inv: "repo_inv R" and m: "markRuntimeReady E input R = (Inr d, S)" and t: "proven_readiness d = Some t"
  shows "ready_since S (rd_executionAttemptId input) (rd_runtimeGeneration input) t"
  using m t inv_attempt [OF inv, of "rd_executionAttemptId input"]
  by (auto simp: markRuntimeReady_def owned_attempt_def runtimeReachability_def Let_def
      evaluateAttemptReachability_def evaluateRuntimeReadiness_def ready_since_def jm.get_put
      split: option.splits if_splits sum.splits)

lemma confirm_probe_evolves:
  assumes w: "interleaved E world" and c: "confirm_probe E i e g op readyAt world A = (r, B)"
    and inv: "repo_inv (au_repository A)"
  shows "evolves E A B \<and> (\<forall>t. r = Inr (Some t) \<longrightarrow> ready_since (au_repository B) i g t)"
proof -
  obtain r1 A1 where c1: "authorityCompleteOperation
      \<lparr>co_executionAttemptId = i, co_operationId = op, co_runtimeGeneration = g\<rparr> A = (r1, A1)" by fastforce
  have A1: "evolves E A A1" by (rule evolves_delegate [OF _ evolves_refl c1 [unfolded attempt_defs]]) (rule complete)
  then have A1': "evolves E A (world 3 A1)" by (rule evolves_world [OF w])
  obtain r2 A2 where c2: "authorityMarkRuntimeReady E
      \<lparr>rd_executionAttemptId = i, rd_executionId = e, rd_runtimeGeneration = g, rd_readyAt = readyAt\<rparr>
      (world 3 A1) = (r2, A2)" by fastforce
  have A2: "evolves E A A2" by (rule evolves_delegate [OF _ A1' c2 [unfolded attempt_defs]]) (rule ready)
  have "ready_since (au_repository (world 4 A2)) i g t" if "r2 = Inr d" "proven_readiness d = Some t" for d t
  proof -
    have "ready_since (au_repository A2) i g t"
      using ready_outcome [OF evolves_inv [OF A1' inv] delegate_Inr [OF c2 [unfolded attempt_defs that(1)]] that(2)]
      by simp
    then show ?thesis
      using ready_since_steps evolves_inv [OF A2 inv] w unfolding interleaved_def by blast
  qed
  with c A1 A1' A2 evolves_world [OF w A2] show ?thesis
    unfolding confirm_probe_def c1 by (cases r1; cases r2) (auto simp: c2 split: if_splits)
qed

lemma prove_endpoint_evolves:
  assumes w: "interleaved E world"
    and p: "proveRuntimeEndpoint E bus i e n g uuid now readyAt world A = (r, B)"
    and inv: "repo_inv (au_repository A)"
  shows "evolves E A B \<and> (\<forall>t. r = Inr (Some t) \<longrightarrow> ready_since (au_repository B) i g t)"
proof -
  obtain r1 A1 where c1: "authorityAdmitOperation
      \<lparr>ai_executionAttemptId = i, ai_executionId = e, ai_operationKind = RuntimeProbe,
       ai_admissionKey = ''probe:'' @ n, ai_runtimeGeneration = g\<rparr> uuid now A = (r1, A1)" by fastforce
  have A1: "evolves E A A1" by (rule evolves_delegate [OF _ evolves_refl c1 [unfolded attempt_defs]]) (rule admit)
  define A2 where "A2 = world 2 (world 1 A1)"
  have A2: "evolves E A A2" unfolding A2_def by (intro evolves_world [OF w] A1)
  have rel: "evolves E A (releaseAdmittedProbe i op g A2)" for op
    unfolding releaseAdmittedProbe_def attempt_defs
    by (rule evolves_delegate [OF _ A2 prod.collapse [symmetric]]) (rule complete)
  have conf: "evolves E A C \<and> (\<forall>t. q = Inr (Some t) \<longrightarrow> ready_since (au_repository C) i g t)"
    if "confirm_probe E i e g op readyAt world A2 = (q, C)" for op q C
    using confirm_probe_evolves [OF w that evolves_inv [OF A2 inv]] evolves_trans [OF A2] by blast
  show ?thesis
    using p A1 evolves_world [OF w A1] evolves_world [OF w rel] conf
    unfolding proveRuntimeEndpoint_def c1
    by (cases r1) (auto simp: Let_def A2_def split: option.splits if_splits)
qed

lemma announced:
  assumes "announceReadiness bus i g A = (x, events)" and "ev \<in> set events"
  shows "\<exists>t. ev = RuntimeReadyEvent i g t \<and> ready_since (au_repository A) i g t"
  using assms
  by (auto simp: announceReadiness_def getAttemptControlState_def toAttemptControlState_def
      control_state.defs Let_def ready_since_def split: option.splits if_splits)

text \<open>What an answered registration and its announcement leave behind.\<close>

definition registered_as :: "repo \<Rightarrow> string \<Rightarrow> string \<Rightarrow> int \<Rightarrow> attempt_event list \<Rightarrow> bool" where
  "registered_as R i n g events \<longleftrightarrow>
     owns_generation R i g n \<and> (\<exists>t. ready_since R i g t)
     \<and> (\<forall>ev \<in> set events. \<exists>t. ev = RuntimeReadyEvent i g t \<and> ready_since R i g t)"

lemma announce_registered:
  assumes w: "interleaved E world" and inv: "repo_inv (au_repository A)"
    and own: "owns_generation (au_repository A) i g n" and rd: "ready_since (au_repository A) i g t"
    and h: "announce_and_reply bus i g resp (world k) A = (Inr r, events, B)"
  shows "r = resp \<and> registered_as (au_repository B) i n g events"
proof -
  have st: "attempt_steps E (au_repository A) (au_repository (world k A))"
    using w by (simp add: interleaved_def)
  from h obtain x where an: "announceReadiness bus i g A = (x, events)" and B: "B = world k A" "r = resp"
    by (auto simp: announce_and_reply_def split: prod.splits option.splits)
  show ?thesis
    using own rd announced [OF an] B owns_generation_steps [OF _ inv st] ready_since_steps [OF _ inv st]
    unfolding registered_as_def by blast
qed

text \<open>
  C18. A runtime that is told it is registered owns what it is told: whatever happens during the
  handshake, after a \<open>ready\<close> or \<open>duplicate\<close> answer with generation \<open>g\<close> (a positive number) the attempt has
  reached generation \<open>g\<close>, and as long as no newer runtime replaced it the stored incarnation is the
  caller's and its readiness is recorded; every readiness announced along the way names this attempt,
  this generation and the recorded instant.\<close>

theorem registration_answer_is_durable:
  assumes reach: "attempt_steps E empty_repo (au_repository A)" and w: "interleaved E world"
    and h: "handleRuntimeRegister E bus ctx request uuid now readyAt world A = (Inr response, events, B)"
    and g: "response_generation response \<noteq> 0"
  shows "registered_as (au_repository B) (rq_executionAttemptId request) (rq_runtimeIncarnationId request)
           (response_generation response) events"
proof -
  have inv: "repo_inv (au_repository A)" by (rule reachable_inv [OF reach])
  let ?i = "rq_executionAttemptId request" and ?n = "rq_runtimeIncarnationId request"
  from h obtain peer where peer: "resolveExecutionAttemptPeer ctx = Some peer"
    and ok: "register_request_ok request" "pi_executionAttemptId peer = ?i"
    by (auto simp: handleRuntimeRegister_def split: option.splits if_splits)
  obtain r1 A1 where c1: "authorityRegisterRuntime
      \<lparr>ri_executionAttemptId = ?i, ri_executionId = pi_executionId peer, ri_runtimeIncarnationId = ?n\<rparr> A
      = (r1, A1)" by fastforce
  have A1: "evolves E A A1" by (rule evolves_delegate [OF _ evolves_refl c1 [unfolded attempt_defs]]) (rule register)
  have A0: "evolves E A1 (world 0 A1)" by (rule evolves_world [OF w evolves_refl])
  have inv1: "repo_inv (au_repository A1)" by (rule evolves_inv [OF A1 inv])
  have inv0: "repo_inv (au_repository (world 0 A1))" by (rule evolves_inv [OF A0 inv1])
  obtain d where d: "r1 = Inr d"
    using h ok peer by (cases r1) (auto simp: handleRuntimeRegister_def c1 Let_def)
  note reg = register_outcome [OF inv delegate_Inr [OF c1 [unfolded attempt_defs d]]]
  have own: "owns_generation (au_repository (world 0 A1)) ?i g ?n"
    if "d = RtRegistered g \<or> d = RtDuplicateRegistration g t" for g t
    using owns_generation_steps [OF _ inv1 A0 [unfolded evolves_def]] reg(1) [OF that] by simp
  have dup: ?thesis if "d = RtDuplicateRegistration g' (Some u)" for g' u
  proof -
    have "ready_since (au_repository (world 0 A1)) ?i g' u"
      using ready_since_steps [OF _ inv1 A0 [unfolded evolves_def]] reg(2) [OF _ that] that by simp
    moreover have "announce_and_reply bus ?i g' (RegisteredDuplicate g') (world 5) (world 0 A1)
        = (Inr response, events, B)"
      using h ok peer that by (simp add: handleRuntimeRegister_def c1 d Let_def)
    ultimately show ?thesis using announce_registered [OF w inv0 own [OF disjI2 [OF that]]] by force
  qed
  have fresh: ?thesis
    if d': "d = RtRegistered g' \<or> d = RtDuplicateRegistration g' None" for g'
  proof -
    obtain r2 A2 where p: "proveRuntimeEndpoint E bus ?i (pi_executionId peer) ?n g' uuid now readyAt world
        (world 0 A1) = (r2, A2)" by fastforce
    obtain u where r2: "r2 = Inr (Some u)"
      and ann: "announce_and_reply bus ?i g' (RegisteredReady g') (world 5) A2 = (Inr response, events, B)"
      using h ok peer d' g
      by (auto simp: handleRuntimeRegister_def c1 d Let_def p split: sum.splits option.splits)
    note pr = prove_endpoint_evolves [OF w p inv0]
    have "owns_generation (au_repository A2) ?i g' ?n"
      using owns_generation_steps [OF own inv0] pr d' by (auto simp: evolves_def)
    with announce_registered [OF w _ this _ ann] pr r2 evolves_inv [OF _ inv0] show ?thesis by auto
  qed
  show ?thesis
  proof (cases d)
    case (RtDuplicateRegistration g' x)
    then show ?thesis using dup fresh by (cases x) auto
  next
    case (RtRegistered g')
    then show ?thesis using fresh by blast
  qed (use h ok peer g in \<open>auto simp: handleRuntimeRegister_def c1 d Let_def\<close>)
qed

definition sample_context :: call_context where
  "sample_context =
     \<lparr>cx_local = False,
      cx_peer = Some \<lparr>pe_kind = ''workflow-execution-attempt'', pe_id = Some ''a1'', pe_authenticated = True,
                      pe_claims = [(''executionId'', JStr ''e1'')]\<rparr>\<rparr>"

definition sample_bus :: "receipt option \<Rightarrow> bus_port" where
  "sample_bus r =
     \<lparr>bp_deliver = (\<lambda>_. r), bp_deliverControl = (\<lambda>_. None), bp_publishFails = (\<lambda>_. None)\<rparr>"

definition sample_register_request :: register_request where
  "sample_register_request = \<lparr>rq_executionAttemptId = ''a1'', rq_runtimeIncarnationId = ''boot1''\<rparr>"

theorem registration_answer_is_durable_witness:
  "\<exists>B. handleRuntimeRegister sample_env (sample_bus (Some ReceiptCompleted)) sample_context
        sample_register_request ''op0'' 4000 ''now'' (\<lambda>_. id) (sample_fresh\<lparr>au_repository := sample_allocated\<rparr>)
      = (Inr (RegisteredReady 1), [RuntimeReadyEvent ''a1'' 1 5000], B)
      \<and> registered_as (au_repository B) ''a1'' ''boot1'' 1 [RuntimeReadyEvent ''a1'' 1 5000]"
proof -
  let ?A = "sample_fresh\<lparr>au_repository := sample_allocated\<rparr>"
  let ?h = "handleRuntimeRegister sample_env (sample_bus (Some ReceiptCompleted)) sample_context
        sample_register_request ''op0'' 4000 ''now'' (\<lambda>_. id) ?A"
  have "fst ?h = Inr (RegisteredReady 1)" "fst (snd ?h) = [RuntimeReadyEvent ''a1'' 1 5000]"
    by code_simp+
  then have h: "?h = (Inr (RegisteredReady 1), [RuntimeReadyEvent ''a1'' 1 5000], snd (snd ?h))"
    by (simp add: prod_eq_iff)
  have r: "attempt_steps sample_env empty_repo (au_repository ?A)" by (simp add: sample_step_allocated)
  have "rq_executionAttemptId sample_register_request = ''a1''"
    "rq_runtimeIncarnationId sample_register_request = ''boot1''"
    by (simp_all add: sample_register_request_def)
  with registration_answer_is_durable [OF r interleaved_id h] h show ?thesis
    by (intro exI [of _ "snd (snd ?h)"]) simp
qed

section \<open>A dead endpoint\<close>

lemma reachability_put [simp]:
  "runtimeReachability (R\<lparr>rs_attempts := m\<rparr>) a = runtimeReachability R a"
  by (simp add: runtimeReachability_def is_active_def allocationTerminated_def)

lemma reachability_control [simp]:
  "runtimeReachability R (a\<lparr>cs_runtimeGeneration := g\<rparr>) = runtimeReachability R a"
  "runtimeReachability R (a\<lparr>cs_runtimeIncarnationId := n\<rparr>) = runtimeReachability R a"
  "runtimeReachability R (a\<lparr>cs_runtimeReadyAt := t\<rparr>) = runtimeReachability R a"
  "runtimeReachability R (a\<lparr>cs_activeOperationId := x1\<rparr>) = runtimeReachability R a"
  "runtimeReachability R (a\<lparr>cs_activeOperationKind := x2\<rparr>) = runtimeReachability R a"
  "runtimeReachability R (a\<lparr>cs_activeOperationKey := x3\<rparr>) = runtimeReachability R a"
  "runtimeReachability R (a\<lparr>cs_activeOperationGeneration := x4\<rparr>) = runtimeReachability R a"
  "runtimeReachability R (a\<lparr>cs_activeOperationAdmittedAt := x5\<rparr>) = runtimeReachability R a"
  "runtimeReachability R (a\<lparr>cs_lastCompletedOperationId := x6\<rparr>) = runtimeReachability R a"
  "runtimeReachability R (clearActive a) = runtimeReachability R a"
  by (simp_all add: runtimeReachability_def clearActive_def)

text \<open>The attempt after a successful registration, and after its probe was admitted and released.\<close>

definition reregistered :: "string \<Rightarrow> attempt \<Rightarrow> attempt" where
  "reregistered n a =
     clearActive (a\<lparr>cs_runtimeGeneration := cs_runtimeGeneration a + 1, cs_runtimeIncarnationId := Some n,
                    cs_runtimeReadyAt := None\<rparr>)"

lemma register_writes:
  assumes "map_get (rs_attempts R) i = Some a" "at_executionAttemptId a = i" "at_executionId a = e"
    "runtimeReachability R a = None"
    "evaluateRuntimeRegistration a
       \<lparr>ri_executionAttemptId = i, ri_executionId = e, ri_runtimeIncarnationId = n\<rparr> = None"
  shows "registerRuntime \<lparr>ri_executionAttemptId = i, ri_executionId = e, ri_runtimeIncarnationId = n\<rparr> R
         = (Inr (RtRegistered (cs_runtimeGeneration a + 1)), put_attempt (reregistered n a) R)"
  using assms by (simp add: registerRuntime_def owned_attempt_def reregistered_def Let_def)

lemma reregistered_fields [simp]:
  "at_executionAttemptId (reregistered n a) = at_executionAttemptId a"
  "at_executionId (reregistered n a) = at_executionId a"
  "at_settlementKind (reregistered n a) = at_settlementKind a"
  "cs_runtimeGeneration (reregistered n a) = cs_runtimeGeneration a + 1"
  "cs_runtimeIncarnationId (reregistered n a) = Some n"
  "cs_runtimeReadyAt (reregistered n a) = None"
  "cs_activeOperationId (reregistered n a) = None"
  "cs_operationStartGate (reregistered n a) = cs_operationStartGate a"
  "cs_lastCompletedOperationId (reregistered n a) = cs_lastCompletedOperationId a"
  "runtimeReachability R (reregistered n a) = runtimeReachability R a"
  by (simp_all add: reregistered_def clearActive_def runtimeReachability_def)

text \<open>
  A runtime that registers and then does not answer its probe leaves the attempt as free as it found
  it: the registration is answered with a failed probe and announces nothing, the slot the probe took is
  released, no readiness is recorded, and the next incarnation is registered under the next generation.\<close>

lemma dead_endpoint_leaves_attempt_idle:
  assumes reach: "attempt_steps E empty_repo (au_repository A)"
    and peer: "resolveExecutionAttemptPeer ctx = Some \<lparr>pi_executionAttemptId = i, pi_executionId = e\<rparr>"
    and req: "register_request_ok \<lparr>rq_executionAttemptId = i, rq_runtimeIncarnationId = n\<rparr>"
    and a: "map_get (rs_attempts (au_repository A)) i = Some a" "at_executionId a = e"
    and free: "runtimeReachability (au_repository A) a = None"
      "evaluateRuntimeRegistration a
         \<lparr>ri_executionAttemptId = i, ri_executionId = e, ri_runtimeIncarnationId = n\<rparr> = None"
    and dead: "\<And>d. bp_deliver bus d \<notin> {Some ReceiptCompleted, Some ReceiptDuplicate}"
    and uuid: "cs_lastCompletedOperationId a \<noteq> Some uuid" and n': "n' \<noteq> n"
  shows "\<exists>B b. handleRuntimeRegister E bus ctx \<lparr>rq_executionAttemptId = i, rq_runtimeIncarnationId = n\<rparr>
                 uuid now readyAt (\<lambda>_. id) A = (Inr ProbeFailed, [], B)
           \<and> map_get (rs_attempts (au_repository B)) i = Some b
           \<and> cs_activeOperationId b = None \<and> cs_runtimeReadyAt b = None
           \<and> cs_runtimeGeneration b = cs_runtimeGeneration a + 1
           \<and> fst (registerRuntime \<lparr>ri_executionAttemptId = i, ri_executionId = e, ri_runtimeIncarnationId = n'\<rparr>
                    (au_repository B)) = Inr (RtRegistered (cs_runtimeGeneration a + 2))"
proof -
  let ?R = "au_repository A" and ?b = "reregistered n a" and ?g = "cs_runtimeGeneration a + 1"
  have inv: "repo_inv ?R" by (rule reachable_inv [OF reach])
  have id: "at_executionAttemptId a = i" using inv_attempt [OF inv a(1)] by simp
  have unsettled: "at_settlementKind a = None" using free(1) by (simp add: reachable_facts)
  let ?S = "put_attempt ?b ?R"
  let ?adm = "\<lparr>ai_executionAttemptId = i, ai_executionId = e, ai_operationKind = RuntimeProbe,
               ai_admissionKey = ''probe:'' @ n, ai_runtimeGeneration = ?g\<rparr>"
  let ?p = "?b\<lparr>cs_activeOperationId := Some uuid, cs_activeOperationKind := Some RuntimeProbe,
               cs_activeOperationKey := Some (''probe:'' @ n), cs_activeOperationGeneration := Some ?g,
               cs_activeOperationAdmittedAt := Some now\<rparr>"
  have reg: "registerRuntime \<lparr>ri_executionAttemptId = i, ri_executionId = e, ri_runtimeIncarnationId = n\<rparr> ?R
             = (Inr (RtRegistered ?g), ?S)"
    by (rule register_writes [OF a(1) id a(2) free])
  have S: "map_get (rs_attempts ?S) i = Some ?b" by (simp add: jm.get_put id)
  have again: "fst (registerRuntime \<lparr>ri_executionAttemptId = i, ri_executionId = e,
                      ri_runtimeIncarnationId = n'\<rparr> T) = Inr (RtRegistered (?g + 1))"
    if "map_get (rs_attempts T) i = Some c" "at_executionAttemptId c = i" "at_executionId c = e"
      "runtimeReachability T c = None" "cs_activeOperationId c = None" "cs_runtimeGeneration c = ?g"
      "cs_runtimeIncarnationId c = Some n" for T c
    using register_writes [OF that(1-4), of n'] that n' by (simp add: evaluateRuntimeRegistration_def)
  show ?thesis
  proof (cases "cs_operationStartGate a")
    case GateOpen
    have adm: "admitOperation ?adm uuid now ?S = (Inr (RtAdmitted uuid ?g now), put_attempt ?p ?S)"
      using S a free GateOpen
      by (simp add: admitOperation_def owned_attempt_def evaluateOperationAdmission_def)
    let ?c = "(clearActive ?p)\<lparr>cs_lastCompletedOperationId := Some uuid\<rparr>"
    have rel: "completeOperation \<lparr>co_executionAttemptId = i, co_operationId = uuid, co_runtimeGeneration = ?g\<rparr>
                 (put_attempt ?p ?S) = (Inr RtCompleted, put_attempt ?c (put_attempt ?p ?S))"
      using uuid unsettled
      by (simp add: completeOperation_def jm.get_put id evaluateOperationCompletion_def clearActive_def)
    let ?B = "A\<lparr>au_repository := put_attempt ?c (put_attempt ?p ?S)\<rparr>"
    have h: "handleRuntimeRegister E bus ctx \<lparr>rq_executionAttemptId = i, rq_runtimeIncarnationId = n\<rparr>
            uuid now readyAt (\<lambda>_. id) A = (Inr ProbeFailed, [], ?B)"
      using dead
      by (simp add: handleRuntimeRegister_def peer req Let_def attempt_defs delegate_def
          reg [simplified] adm [simplified] rel [simplified]
          proveRuntimeEndpoint_def releaseAdmittedProbe_def)
    have m: "map_get (rs_attempts (au_repository ?B)) i = Some ?c"
      by (simp add: jm.get_put id clearActive_def)
    have r: "fst (registerRuntime \<lparr>ri_executionAttemptId = i, ri_executionId = e,
                    ri_runtimeIncarnationId = n'\<rparr> (au_repository ?B)) = Inr (RtRegistered (?g + 1))"
      by (rule again [OF m]) (use a id free in \<open>simp_all add: clearActive_def\<close>)
    show ?thesis
      by (intro exI [of _ ?B] exI [of _ ?c] conjI h m) (use r in \<open>simp_all add: clearActive_def\<close>)
  next
    case GateClosed
    have adm: "admitOperation ?adm uuid now ?S = (Inr RtGateClosed, ?S)"
      using S a free GateClosed
      by (simp add: admitOperation_def owned_attempt_def evaluateOperationAdmission_def)
    let ?B = "A\<lparr>au_repository := ?S\<rparr>"
    have h: "handleRuntimeRegister E bus ctx \<lparr>rq_executionAttemptId = i, rq_runtimeIncarnationId = n\<rparr>
            uuid now readyAt (\<lambda>_. id) A = (Inr ProbeFailed, [], ?B)"
      by (simp add: handleRuntimeRegister_def peer req Let_def attempt_defs delegate_def
          reg [simplified] adm [simplified]
          proveRuntimeEndpoint_def)
    have m: "map_get (rs_attempts (au_repository ?B)) i = Some ?b" using S by simp
    have r: "fst (registerRuntime \<lparr>ri_executionAttemptId = i, ri_executionId = e,
                    ri_runtimeIncarnationId = n'\<rparr> (au_repository ?B)) = Inr (RtRegistered (?g + 1))"
      by (rule again [OF m]) (use a id free in simp_all)
    show ?thesis by (intro exI [of _ ?B] exI [of _ ?b] conjI h m) (use r in simp_all)
  qed
qed

section \<open>Outcomes\<close>

lemma evolves_settle [simp]: "evolves E A (settle_decision i d B) \<longleftrightarrow> evolves E A B"
  by (cases d) (simp_all add: settle_decision_def settleWaiterInternal_def evolves_def)

lemma evolves_port: "evolves E A B \<Longrightarrow> attempt_step E (au_repository B) R \<Longrightarrow> evolves E A (B\<lparr>au_repository := R\<rparr>)"
  by (simp add: evolves_def)

lemma replay_not_accepted: "replay_outcome E stored submitted ob \<noteq> Inr (OcAccepted out t o')"
  by (cases "sameDurableOutcome E stored submitted") (auto simp: replay_outcome_def split: sum.splits)

text \<open>A commit that is accepted found the attempt open, with the fence's slot in place.\<close>

lemma commit_accepted:
  assumes inv: "repo_inv R" and c: "commitOutcome E input R = (Inr (OcAccepted out t ob), S)"
    and f: "cm_runtimeFence input = Some f"
  obtains a where "map_get (rs_attempts R) (cm_executionAttemptId input) = Some a"
    "at_executionId a = cm_executionId input" "is_active R (cm_executionId input) (cm_executionAttemptId input)"
    "at_settlementKind a = None" "cs_runtimeGeneration a = fn_runtimeGeneration f"
    "cs_activeOperationId a = fn_operationId f"
    "fn_operationId f \<noteq> None \<longrightarrow> cs_activeOperationGeneration a = Some (fn_runtimeGeneration f)"
    "map_get (rs_committedOutcomes R) (cm_executionAttemptId input) = None"
    "t = du_text (cm_result input)" "map_get (rs_committedOutcomes S) (cm_executionAttemptId input) = Some t"
proof -
  let ?i = "cm_executionAttemptId input"
  from c have act: "is_active R (cm_executionId input) ?i" by (auto simp: commitOutcome_def Let_def split: if_splits)
  then obtain a where a: "map_get (rs_attempts R) ?i = Some a" "at_executionId a = cm_executionId input"
    using inv_active [OF inv] by blast
  have none: "map_get (rs_committedOutcomes R) ?i = None"
    using c act a
    by (cases "map_get (rs_committedOutcomes R) ?i") (auto simp: commitOutcome_def Let_def replay_not_accepted)
  then have u: "at_settlementKind a = None"
    using c act a by (auto simp: commitOutcome_def Let_def split: if_splits)
  have "assertRuntimeOutcomeFence a (Some f) = Inr ()"
    using c act a none u f
    by (cases "assertRuntimeOutcomeFence a (Some f)") (auto simp: commitOutcome_def Let_def)
  moreover from this have "t = du_text (cm_result input)" "map_get (rs_committedOutcomes S) ?i = Some t"
    using c act a none u f
    by (auto simp: commitOutcome_def Let_def jm.get_put split: sum.splits)
       (cases "decodeDurableOutcome E (du_text (cm_result input))"; simp)+
  ultimately show ?thesis
    using that [OF a act u _ _ _ none] by (auto simp: assertRuntimeOutcomeFence_def split: if_splits)
qed

lemma converge_ack:
  "converge_and_settle E owner s dup out t ob world A = (Inr ack, B) \<Longrightarrow>
     ack = (if dup then AckDuplicate else AckAccepted) \<and> au_repository B = au_repository (world A)"
  by (auto simp: converge_and_settle_def settle_converged_def settleOutcome_def settleWaiterInternal_def
      split: sum.splits)

text \<open>An accepted submission is an accepted commit, and nothing later undoes it.\<close>

lemma submit_accepted:
  assumes inv: "repo_inv (au_repository A)" and w: "interleaved E world"
    and h: "submitAttemptOutcome E owner s world A = (Inr AckAccepted, B)" and f: "sb_runtimeFence s = Some f"
  obtains d R S out ob where "durableOutcome E (sb_outcome s) = Inr d" "attempt_steps E (au_repository A) R"
    "commitOutcome E (submission_commit s d) R = (Inr (OcAccepted out (du_text d) ob), S)"
    "map_get (rs_committedOutcomes S) (sb_executionAttemptId s) = Some (du_text d)"
    "attempt_steps E S (au_repository B)"
proof -
  from h obtain d where d: "durableOutcome E (sb_outcome s) = Inr d"
    by (auto simp: submitAttemptOutcome_eq split: sum.splits)
  define c where "c = commitOutcome E (submission_commit s d)"
  define R where "R = au_repository (world 0 A)"
  have R: "attempt_steps E (au_repository A) R" using w by (simp add: interleaved_def R_def)
  obtain x S where x: "c R = (x, S)" by fastforce
  have S: "attempt_steps E (au_repository A) S"
    using R attempt_step.commit [of E R "submission_commit s d"] x by (simp add: c_def)
  define A1 where "A1 = settle_decision (sb_executionAttemptId s) (projr x) (world 1 ((world 0 A)\<lparr>au_repository := S\<rparr>))"
  have steps: "attempt_steps E S (au_repository (world 2 A1))"
  proof -
    have "evolves E ((world 0 A)\<lparr>au_repository := S\<rparr>) A1"
      unfolding A1_def evolves_settle by (rule evolves_world [OF w evolves_refl])
    from evolves_world [OF w this] show ?thesis by (simp add: evolves_def)
  qed
  have auth: "authorityCommitOutcome E (submission_commit s d) (world 1) (world 0 A)
      = (case x of Inl e \<Rightarrow> (Inl (PortError e), (world 0 A)\<lparr>au_repository := S\<rparr>) | Inr dec \<Rightarrow> (Inr dec, A1))"
    using x unfolding authorityCommitOutcome_def delegate_def c_def R_def A1_def
    by (cases x) (simp_all add: submission_commit_def)
  obtain out t ob where dec: "x = Inr (OcAccepted out t ob)"
    and conv: "converge_and_settle E owner s False out t (Some ob) (world 2) A1 = (Inr AckAccepted, B)"
  proof (cases x)
    case (Inl e)
    with h show ?thesis by (simp add: submitAttemptOutcome_eq d auth del: One_nat_def split: option.splits)
  next
    case (Inr dec)
    with h that show ?thesis
      by (cases dec) (auto simp: submitAttemptOutcome_eq d auth simp del: One_nat_def split: option.splits
          dest!: converge_ack)
  qed
  have B: "au_repository B = au_repository (world 2 A1)"
    using converge_ack [OF conv] by simp
  have c': "commitOutcome E (submission_commit s d) R = (Inr (OcAccepted out t ob), S)"
    using x dec by (simp add: c_def)
  have "t = du_text d" "map_get (rs_committedOutcomes S) (sb_executionAttemptId s) = Some t"
    using f by (auto intro: commit_accepted [OF attempts.steps_inv [OF R inv] c'] simp: submission_commit_def)
  then show ?thesis using that [OF d R] c' steps B by simp
qed

text \<open>
  C17. An outcome is accepted only from the slot that produced it. When the handler acknowledges a report
  as accepted, the request has one committing write, a single step of the repository from a state \<open>R\<close>
  without an outcome for the attempt to a state \<open>S\<close> that holds one, with \<open>R\<close> later than the request and
  the answer later than \<open>S\<close>. In \<open>R\<close>, at the very write, the attempt of the authenticated peer was its
  owner's current one and unsettled, and it ran exactly the runtime generation and the operation the
  report names (an operation of that generation, when the report names one). The text written renders
  what the owner decoded from the report for this attempt's instruction, and it is still the committed
  text when the answer is given.\<close>

theorem accepted_outcome_is_current:
  assumes reach: "attempt_steps E empty_repo (au_repository A)" and w: "interleaved E world"
    and h: "handleOutcomeSubmit E owner decodeOutcome ctx request world A = (Inr AckAccepted, B)"
  shows "\<exists>R S a out d. resolveExecutionAttemptPeer ctx
            = Some \<lparr>pi_executionAttemptId = oq_executionAttemptId request, pi_executionId = at_executionId a\<rparr>
          \<and> attempt_steps E (au_repository A) R \<and> attempt_step E R S \<and> attempt_steps E S (au_repository B)
          \<and> map_get (rs_committedOutcomes R) (oq_executionAttemptId request) = None
          \<and> map_get (rs_committedOutcomes S) (oq_executionAttemptId request) = Some (du_text d)
          \<and> map_get (rs_attempts R) (oq_executionAttemptId request) = Some a
          \<and> is_active R (at_executionId a) (oq_executionAttemptId request) \<and> at_settlementKind a = None
          \<and> cs_runtimeGeneration a = oq_runtimeGeneration request
          \<and> cs_activeOperationId a = oq_operationId request
          \<and> (oq_operationId request \<noteq> None \<longrightarrow> cs_activeOperationGeneration a = Some (oq_runtimeGeneration request))
          \<and> decodeOutcome (at_instruction a) (oq_outcome request) = Inr out \<and> durableOutcome E out = Inr d
          \<and> map_get (rs_committedOutcomes (au_repository B)) (oq_executionAttemptId request) = Some (du_text d)"
proof -
  let ?i = "oq_executionAttemptId request" and ?f = "\<lparr>fn_runtimeGeneration = oq_runtimeGeneration request,
                                                     fn_operationId = oq_operationId request\<rparr>"
  have inv: "repo_inv (au_repository A)" by (rule reachable_inv [OF reach])
  define A1 where "A1 = world 5 (world 4 (world 3 A))"
  have A1: "evolves E A A1" unfolding A1_def by (intro evolves_world [OF w] evolves_refl)
  from h obtain peer where ok: "outcome_request_ok request" "requireAttemptPeer ctx ?i = Inr peer"
    by (auto simp: handleOutcomeSubmit_def split: if_splits sum.splits)
  then have peer: "resolveExecutionAttemptPeer ctx = Some peer" "pi_executionAttemptId peer = ?i"
    by (auto simp: requireAttemptPeer_def split: option.splits if_splits)
  let ?s = "\<lambda>out. \<lparr>sb_executionId = pi_executionId peer, sb_executionAttemptId = ?i, sb_outcome = out,
                  sb_runtimeFence = Some ?f\<rparr>"
  from h ok peer(2) obtain instr out where instr: "getInstruction (pi_executionId peer) ?i (au_repository A) = Some instr"
    and out: "decodeOutcome instr (oq_outcome request) = Inr out"
    and sub: "submitAttemptOutcome E owner (?s out) world A1 = (Inr AckAccepted, B)"
    by (auto simp: handleOutcomeSubmit_def Let_def A1_def split: if_splits sum.splits option.splits prod.splits)
  obtain d R S out' ob where d: "durableOutcome E (sb_outcome (?s out)) = Inr d"
    and R: "attempt_steps E (au_repository A1) R"
    and c: "commitOutcome E (submission_commit (?s out) d) R = (Inr (OcAccepted out' (du_text d) ob), S)"
    and S: "map_get (rs_committedOutcomes S) (sb_executionAttemptId (?s out)) = Some (du_text d)"
    and SB: "attempt_steps E S (au_repository B)"
    by (rule submit_accepted [OF evolves_inv [OF A1 inv] w sub]) simp
  have AR: "attempt_steps E (au_repository A) R" using A1 R by (simp add: evolves_def)
  have RS: "attempt_step E R S" using attempt_step.commit [of E R "submission_commit (?s out) d"] c by simp
  have "repo_inv S" using attempts.steps_inv [OF _ inv, of E S] AR RS by (metis rtranclp.rtrancl_into_rtrancl)
  then have B: "map_get (rs_committedOutcomes (au_repository B)) ?i = Some (du_text d)"
    using attempts.steps_le [OF SB] S by (auto simp: repo_le_def map_extends_def)
  have f: "cm_runtimeFence (submission_commit (?s out) d) = Some ?f" by (simp add: submission_commit_def)
  obtain a where a: "map_get (rs_attempts R) ?i = Some a" "at_executionId a = pi_executionId peer"
    "is_active R (pi_executionId peer) ?i" "at_settlementKind a = None"
    "cs_runtimeGeneration a = oq_runtimeGeneration request" "cs_activeOperationId a = oq_operationId request"
    "oq_operationId request \<noteq> None \<longrightarrow> cs_activeOperationGeneration a = Some (oq_runtimeGeneration request)"
    "map_get (rs_committedOutcomes R) ?i = None"
    using commit_accepted [OF attempts.steps_inv [OF AR inv] c f] by (auto simp: submission_commit_def)
  from instr obtain a0 where a0: "map_get (rs_attempts (au_repository A)) ?i = Some a0" "at_instruction a0 = instr"
    by (auto simp: getInstruction_def owned_attempt_def split: option.splits if_splits)
  then have "at_instruction a = instr"
    using later_attempt [OF inv AR a0(1)] a(1) by (force simp: attempt_le_def)
  with a AR RS SB S B d out peer show ?thesis
    by (intro exI [of _ R] exI [of _ S] exI [of _ a] exI [of _ out] exI [of _ d]) (cases peer, auto)
qed

definition sample_outcome_request :: outcome_request where
  "sample_outcome_request =
     \<lparr>oq_executionAttemptId = ''a1'', oq_runtimeGeneration = 1, oq_operationId = Some ''op2'',
      oq_outcome = WorkloadResult (JNum 7)\<rparr>"

definition sample_decode :: "instruction \<Rightarrow> wire_outcome \<Rightarrow> string + int" where
  "sample_decode instr o' = (case o' of WorkloadResult (JNum n) \<Rightarrow> Inr n | _ \<Rightarrow> Inl ''unknown'')"

theorem accepted_outcome_is_current_witness:
  "\<exists>B d. handleOutcomeSubmit sample_env sample_owner sample_decode sample_context sample_outcome_request (\<lambda>_. id)
        (sample_fresh\<lparr>au_repository := sample_running\<rparr>) = (Inr AckAccepted, B)
      \<and> durableOutcome sample_env 7 = Inr d
      \<and> map_get (rs_committedOutcomes (au_repository B)) ''a1'' = Some (du_text d)"
proof -
  let ?A = "sample_fresh\<lparr>au_repository := sample_running\<rparr>"
  let ?h = "handleOutcomeSubmit sample_env sample_owner sample_decode sample_context sample_outcome_request
              (\<lambda>_. id) ?A"
  have "fst ?h = Inr AckAccepted" by code_simp
  then have h: "?h = (Inr AckAccepted, snd ?h)" by (simp add: prod_eq_iff)
  have r: "attempt_steps sample_env empty_repo (au_repository ?A)" by (simp add: sample_step_running)
  have q: "oq_executionAttemptId sample_outcome_request = ''a1''"
    "oq_outcome sample_outcome_request = WorkloadResult (JNum 7)"
    by (simp_all add: sample_outcome_request_def)
  from accepted_outcome_is_current [OF r interleaved_id h] h show ?thesis
    by (intro exI [of _ "snd ?h"]) (auto simp: q sample_decode_def)
qed

end
