(* ===== verification/Handler_Confinement.thy ===== *)
theory Handler_Confinement
  imports Handler_Properties
begin

text \<open>
  A runtime reaches its own attempt and no other: whatever request it sends to the handlers of the
  attempt authority, everything the process knows about any other attempt stays as it is.
\<close>

section \<open>What is known about one attempt\<close>

definition attempt_row where
  "attempt_row j R =
     (map_get (rs_attempts R) j, map_get (rs_operations R) j, map_get (rs_committedOutcomes R) j,
      map_get (rs_outcomeControlObservations R) j, map_get (rs_cancellations R) j,
      map_get (rs_controlEvidence R) j)"

definition quiet :: "'o port_env \<Rightarrow> string \<Rightarrow> 'o authority \<Rightarrow> 'o authority \<Rightarrow> bool" where
  "quiet E j A B \<longleftrightarrow>
     evolves E A B \<and> attempt_row j (au_repository B) = attempt_row j (au_repository A)
     \<and> map_get (au_waiters B) j = map_get (au_waiters A) j"

lemma quiet_refl [simp]: "quiet E j A A"
  by (simp add: quiet_def)

lemma quiet_trans [trans]: "quiet E j A B \<Longrightarrow> quiet E j B C \<Longrightarrow> quiet E j A C"
  by (auto simp: quiet_def intro: evolves_trans)

text \<open>What the rest of the process does meanwhile does not concern the attempt either.\<close>

definition calm :: "'o port_env \<Rightarrow> string \<Rightarrow> (nat \<Rightarrow> 'o authority \<Rightarrow> 'o authority) \<Rightarrow> bool" where
  "calm E j world \<longleftrightarrow> (\<forall>k C. quiet E j C (world k C))"

lemma quiet_world: "calm E j world \<Longrightarrow> quiet E j A B \<Longrightarrow> quiet E j A (world k B)"
  using quiet_trans unfolding calm_def by blast

lemma quiet_inv: "quiet E j A B \<Longrightarrow> repo_inv (au_repository A) \<Longrightarrow> repo_inv (au_repository B)"
  unfolding quiet_def using evolves_inv by blast

section \<open>The operations of the repository\<close>

lemma row_attempts:
  "i \<noteq> j \<Longrightarrow> attempt_row j (R\<lparr>rs_attempts := map_set i a (rs_attempts R)\<rparr>) = attempt_row j R"
  by (simp add: attempt_row_def jm.get_put)

lemma row_evidence: "i \<noteq> j \<Longrightarrow> attempt_row j (put_fact i k f R) = attempt_row j R"
  by (simp add: attempt_row_def put_fact_def jm.get_put)

lemma owned_id: "repo_inv R \<Longrightarrow> owned_attempt R e i = Some a \<Longrightarrow> at_executionAttemptId a = i"
  using inv_attempt [of R i a] by (auto simp: owned_attempt_def split: option.splits if_splits)

lemma clearActive_id [simp]: "at_executionAttemptId (clearActive a) = at_executionAttemptId a"
  by (simp add: clearActive_def)

lemma register_row:
  "repo_inv R \<Longrightarrow> ri_executionAttemptId x \<noteq> j \<Longrightarrow> attempt_row j (snd (registerRuntime x R)) = attempt_row j R"
  using owned_id [of R "ri_executionId x" "ri_executionAttemptId x"]
  by (auto simp: registerRuntime_def Let_def simp: row_attempts split: option.splits)

lemma admit_row:
  "repo_inv R \<Longrightarrow> ai_executionAttemptId x \<noteq> j \<Longrightarrow> attempt_row j (snd (admitOperation x uuid now R)) = attempt_row j R"
  using owned_id [of R "ai_executionId x" "ai_executionAttemptId x"]
  by (auto simp: admitOperation_def simp: row_attempts split: option.splits)

lemma complete_row:
  "repo_inv R \<Longrightarrow> co_executionAttemptId x \<noteq> j \<Longrightarrow> attempt_row j (snd (completeOperation x R)) = attempt_row j R"
  using inv_attempt [of R "co_executionAttemptId x"]
  by (auto simp: completeOperation_def simp: row_attempts split: option.splits)

lemma ready_row:
  "repo_inv R \<Longrightarrow> rd_executionAttemptId x \<noteq> j \<Longrightarrow> attempt_row j (snd (markRuntimeReady E x R)) = attempt_row j R"
  using owned_id [of R "rd_executionId x" "rd_executionAttemptId x"]
  by (auto simp: markRuntimeReady_def simp: row_attempts split: option.splits sum.splits)

lemma report_row:
  "rp_executionAttemptId x \<noteq> j \<Longrightarrow> attempt_row j (snd (reportOperation x R)) = attempt_row j R"
  by (auto simp: reportOperation_def simp: row_attempts split: option.splits sum.splits)

lemma control_row:
  "cc_executionAttemptId x \<noteq> j \<Longrightarrow> attempt_row j (snd (reportAttemptControl E e x R)) = attempt_row j R"
  by (auto simp: reportAttemptControl_def Let_def simp: row_evidence split: sum.splits)

lemma commit_row:
  "cm_executionAttemptId x \<noteq> j \<Longrightarrow> attempt_row j (snd (commitOutcome E x R)) = attempt_row j R"
  by (auto simp: commitOutcome_def Let_def attempt_row_def jm.get_put split: option.splits sum.splits)

lemma quiet_delegate:
  assumes "\<And>R. attempt_step E R (snd (f R))" and "attempt_row j (snd (f (au_repository B))) = attempt_row j (au_repository B)"
    and "quiet E j A B" and C: "delegate f B = (r, C)"
  shows "quiet E j A C"
proof -
  have "evolves E A C" by (rule evolves_delegate [OF assms(1) _ C]) (use assms(3) in \<open>simp add: quiet_def\<close>)
  then show ?thesis using assms(2,3) delegate_result(1) [OF C] by (simp add: quiet_def)
qed

lemma quiet_call:
  assumes "quiet E j A B" "repo_inv (au_repository A)"
  shows "ri_executionAttemptId x1 \<noteq> j \<Longrightarrow> authorityRegisterRuntime x1 B = (r1, C) \<Longrightarrow> quiet E j A C"
    and "ai_executionAttemptId x2 \<noteq> j \<Longrightarrow> authorityAdmitOperation x2 uuid now B = (r2, C) \<Longrightarrow> quiet E j A C"
    and "co_executionAttemptId x3 \<noteq> j \<Longrightarrow> authorityCompleteOperation x3 B = (r3, C) \<Longrightarrow> quiet E j A C"
    and "rd_executionAttemptId x4 \<noteq> j \<Longrightarrow> authorityMarkRuntimeReady E x4 B = (r4, C) \<Longrightarrow> quiet E j A C"
    and "rp_executionAttemptId x5 \<noteq> j \<Longrightarrow> authorityReportOperation x5 B = (r5, C) \<Longrightarrow> quiet E j A C"
    and "cc_executionAttemptId x6 \<noteq> j \<Longrightarrow> authorityReportAttemptControl E e x6 B = (r6, C) \<Longrightarrow> quiet E j A C"
    and "cm_executionAttemptId x7 \<noteq> j \<Longrightarrow> delegate (commitOutcome E x7) B = (r7, C) \<Longrightarrow> quiet E j A C"
proof -
  note inv = quiet_inv [OF assms]
  note q = quiet_delegate [OF _ _ assms(1)]
  show "ri_executionAttemptId x1 \<noteq> j \<Longrightarrow> authorityRegisterRuntime x1 B = (r1, C) \<Longrightarrow> quiet E j A C"
    unfolding attempt_defs by (rule q [OF attempt_step.register register_row [OF inv]])
  show "ai_executionAttemptId x2 \<noteq> j \<Longrightarrow> authorityAdmitOperation x2 uuid now B = (r2, C) \<Longrightarrow> quiet E j A C"
    unfolding attempt_defs by (rule q [OF attempt_step.admit admit_row [OF inv]])
  show "co_executionAttemptId x3 \<noteq> j \<Longrightarrow> authorityCompleteOperation x3 B = (r3, C) \<Longrightarrow> quiet E j A C"
    unfolding attempt_defs by (rule q [OF attempt_step.complete complete_row [OF inv]])
  show "rd_executionAttemptId x4 \<noteq> j \<Longrightarrow> authorityMarkRuntimeReady E x4 B = (r4, C) \<Longrightarrow> quiet E j A C"
    unfolding attempt_defs by (rule q [OF attempt_step.ready ready_row [OF inv]])
  show "rp_executionAttemptId x5 \<noteq> j \<Longrightarrow> authorityReportOperation x5 B = (r5, C) \<Longrightarrow> quiet E j A C"
    unfolding attempt_defs by (rule q [OF attempt_step.report report_row])
  show "cc_executionAttemptId x6 \<noteq> j \<Longrightarrow> authorityReportAttemptControl E e x6 B = (r6, C) \<Longrightarrow> quiet E j A C"
    unfolding attempt_defs by (rule q [OF attempt_step.control_report control_row])
  show "cm_executionAttemptId x7 \<noteq> j \<Longrightarrow> delegate (commitOutcome E x7) B = (r7, C) \<Longrightarrow> quiet E j A C"
    unfolding attempt_defs by (rule q [OF attempt_step.commit commit_row])
qed

section \<open>The handlers\<close>

lemma confirm_probe_quiet:
  assumes w: "calm E j world" and inv: "repo_inv (au_repository A)" and i: "i \<noteq> j"
    and q: "quiet E j A B"
  shows "quiet E j A (snd (confirm_probe E i e g op readyAt world B))"
proof -
  obtain r1 A1 where c1: "authorityCompleteOperation
      \<lparr>co_executionAttemptId = i, co_operationId = op, co_runtimeGeneration = g\<rparr> B = (r1, A1)" by fastforce
  have A1: "quiet E j A A1" by (rule quiet_call(3) [OF q inv _ c1]) (simp add: i)
  have A1': "quiet E j A (world 3 A1)" by (rule quiet_world [OF w A1])
  obtain r2 A2 where c2: "authorityMarkRuntimeReady E
      \<lparr>rd_executionAttemptId = i, rd_executionId = e, rd_runtimeGeneration = g, rd_readyAt = readyAt\<rparr>
      (world 3 A1) = (r2, A2)" by fastforce
  have A2: "quiet E j A A2" by (rule quiet_call(4) [OF A1' inv _ c2]) (simp add: i)
  show ?thesis
    unfolding confirm_probe_def c1 using A1 A1' A2 quiet_world [OF w A2]
    by (cases r1; cases r2) (auto simp: c2)
qed

lemma prove_endpoint_quiet:
  assumes w: "calm E j world" and inv: "repo_inv (au_repository A)" and i: "i \<noteq> j"
    and q: "quiet E j A B"
  shows "quiet E j A (snd (proveRuntimeEndpoint E bus i e n g uuid now readyAt world B))"
proof -
  obtain r1 A1 where c1: "authorityAdmitOperation
      \<lparr>ai_executionAttemptId = i, ai_executionId = e, ai_operationKind = RuntimeProbe,
       ai_admissionKey = ''probe:'' @ n, ai_runtimeGeneration = g\<rparr> uuid now B = (r1, A1)" by fastforce
  have A1: "quiet E j A A1" by (rule quiet_call(2) [OF q inv _ c1]) (simp add: i)
  define A2 where "A2 = world 2 (world 1 A1)"
  have A2: "quiet E j A A2" unfolding A2_def by (intro quiet_world [OF w] A1)
  have rel: "quiet E j A (releaseAdmittedProbe i op g A2)" for op
    unfolding releaseAdmittedProbe_def by (rule quiet_call(3) [OF A2 inv _ prod.collapse [symmetric]]) (simp add: i)
  show ?thesis
    using A1 quiet_world [OF w A1] quiet_world [OF w rel] confirm_probe_quiet [OF w inv i A2]
    unfolding proveRuntimeEndpoint_def c1
    by (cases r1) (auto simp: Let_def A2_def split: option.splits if_splits)
qed

lemma announce_quiet:
  assumes w: "calm E j world" and q: "quiet E j A B"
  shows "quiet E j A (snd (snd (announce_and_reply bus i g resp (world k) B)))"
  using quiet_world [OF w q] by (simp add: announce_and_reply_def split: prod.splits option.splits)

lemma register_quiet:
  assumes w: "calm E j world" and inv: "repo_inv (au_repository A)"
    and j: "\<And>p. resolveExecutionAttemptPeer ctx = Some p \<Longrightarrow> pi_executionAttemptId p \<noteq> j"
  shows "quiet E j A (snd (snd (handleRuntimeRegister E bus ctx request uuid now readyAt world A)))"
proof (cases "resolveExecutionAttemptPeer ctx")
  case None
  then show ?thesis by (simp add: handleRuntimeRegister_def)
next
  case (Some p)
  let ?i = "rq_executionAttemptId request" and ?n = "rq_runtimeIncarnationId request"
  show ?thesis
  proof (cases "register_request_ok request \<and> ?i = pi_executionAttemptId p")
    case False
    with Some show ?thesis by (auto simp: handleRuntimeRegister_def)
  next
    case True
    with j [OF Some] have i: "?i \<noteq> j" by simp
    obtain r1 A1 where c1: "authorityRegisterRuntime
        \<lparr>ri_executionAttemptId = ?i, ri_executionId = pi_executionId p, ri_runtimeIncarnationId = ?n\<rparr> A
        = (r1, A1)" by fastforce
    have A1: "quiet E j A A1" by (rule quiet_call(1) [OF quiet_refl inv _ c1]) (simp add: i)
    have A0: "quiet E j A (world 0 A1)" by (rule quiet_world [OF w A1])
    have pr: "quiet E j A (snd (proveRuntimeEndpoint E bus ?i (pi_executionId p) ?n g uuid now readyAt world (world 0 A1)))"
      for g by (rule prove_endpoint_quiet [OF w inv i A0])
    have prove: "quiet E j A (snd (snd (case proveRuntimeEndpoint E bus ?i (pi_executionId p) ?n g uuid now readyAt
          world (world 0 A1) of
            (Inl e, A2) \<Rightarrow> (Inl e, [], A2) | (Inr None, A2) \<Rightarrow> (Inr ProbeFailed, [], A2)
          | (Inr (Some t), A2) \<Rightarrow> announce_and_reply bus ?i g (RegisteredReady g) (world 5) A2)))" for g
      using pr [of g] announce_quiet [OF w pr [of g]] by (auto split: prod.splits sum.splits option.splits)
    have p: "pi_executionAttemptId p = ?i" "register_request_ok request" using True by simp_all
    show ?thesis
      using A0 A1 prove announce_quiet [OF w A0] Some
      by (cases r1) (auto simp: handleRuntimeRegister_def p c1 Let_def split: runtime_decision.splits option.splits)
  qed
qed

lemma admit_quiet:
  assumes w: "calm E j world" and inv: "repo_inv (au_repository A)"
    and j: "\<And>p. resolveExecutionAttemptPeer ctx = Some p \<Longrightarrow> pi_executionAttemptId p \<noteq> j"
  shows "quiet E j A (snd (snd (handleOperationAdmit bus ctx request uuid now world A)))"
proof (cases "resolveExecutionAttemptPeer ctx")
  case None
  then show ?thesis by (simp add: handleOperationAdmit_def)
next
  case (Some p)
  obtain r1 A1 where c1: "authorityAdmitOperation
      \<lparr>ai_executionAttemptId = aq_executionAttemptId request, ai_executionId = pi_executionId p,
       ai_operationKind = aq_operationKind request, ai_admissionKey = aq_admissionKey request,
       ai_runtimeGeneration = aq_runtimeGeneration request\<rparr> uuid now A = (r1, A1)" by fastforce
  show ?thesis
  proof (cases "pi_executionAttemptId p = aq_executionAttemptId request")
    case False
    with Some show ?thesis by (auto simp: handleOperationAdmit_def)
  next
    case True
    have A1: "quiet E j A A1"
      by (rule quiet_call(2) [OF quiet_refl inv _ c1]) (use j [OF Some] True in simp)
    then show ?thesis
      using quiet_world [OF w A1, of 0] Some True
      by (cases r1) (auto simp: handleOperationAdmit_def c1 announce_admission_def Let_def
          split: runtime_decision.splits option.splits)
  qed
qed

lemma required_peer:
  "requireAttemptPeer ctx i = Inr p \<Longrightarrow> resolveExecutionAttemptPeer ctx = Some p \<and> pi_executionAttemptId p = i"
  by (auto simp: requireAttemptPeer_def split: option.splits if_splits)

lemma reports_quiet:
  assumes inv: "repo_inv (au_repository A)"
    and j: "\<And>p. resolveExecutionAttemptPeer ctx = Some p \<Longrightarrow> pi_executionAttemptId p \<noteq> j"
  shows "quiet E j A (snd (handleControlReport E ctx report A))"
    and "quiet E j A (snd (handleOperationReport ctx request A))"
proof -
  have "quiet E j A (snd (authorityReportAttemptControl E e report A))" if "cc_executionAttemptId report \<noteq> j" for e
    by (rule quiet_call(6) [OF quiet_refl inv that prod.collapse [symmetric]])
  with j show "quiet E j A (snd (handleControlReport E ctx report A))"
    by (auto simp: handleControlReport_def dest!: required_peer split: sum.splits)
  have "quiet E j A (snd (authorityReportOperation x A))" if "rp_executionAttemptId x \<noteq> j" for x
    by (rule quiet_call(5) [OF quiet_refl inv that prod.collapse [symmetric]])
  with j show "quiet E j A (snd (handleOperationReport ctx request A))"
    by (auto simp: handleOperationReport_def dest!: required_peer split: sum.splits)
qed

lemma settle_quiet: "i \<noteq> j \<Longrightarrow> quiet E j A B \<Longrightarrow> quiet E j A (settle_waiter i p B)"
  by (simp add: quiet_def evolves_def settle_waiter_waiters)

lemma settle_decision_quiet: "i \<noteq> j \<Longrightarrow> quiet E j A B \<Longrightarrow> quiet E j A (settle_decision i d B)"
  by (cases d) (simp_all add: settle_decision_def settleWaiterInternal_def settle_quiet)

lemma converge_quiet:
  assumes w: "calm E j world" and q: "quiet E j A B" and i: "sb_executionAttemptId s \<noteq> j"
  shows "quiet E j A (snd (converge_and_settle E owner s dup out t ob (world k) B))"
  using quiet_world [OF w q, of k] i
  by (auto simp: converge_and_settle_def settle_converged_def settleOutcome_def settleWaiterInternal_def
      intro: settle_quiet split: sum.splits)

lemma submit_quiet:
  assumes w: "calm E j world" and inv: "repo_inv (au_repository A)" and i: "sb_executionAttemptId s \<noteq> j"
    and q: "quiet E j A B"
  shows "quiet E j A (snd (submitAttemptOutcome E owner s world B))"
proof (cases "durableOutcome E (sb_outcome s)")
  case (Inr d)
  have B: "quiet E j A (world 0 B)" by (rule quiet_world [OF w q])
  obtain r C where C: "delegate (commitOutcome E (submission_commit s d)) (world 0 B) = (r, C)" by fastforce
  have cid: "cm_executionAttemptId (submission_commit s d) = sb_executionAttemptId s"
    by (simp add: submission_commit_def)
  have qC: "quiet E j A C" by (rule quiet_call(7) [OF B inv _ C]) (simp add: cid i)
  let ?D = "\<lambda>dec. settle_decision (sb_executionAttemptId s) dec (world 1 C)"
  have D: "quiet E j A (?D dec)" for dec by (rule settle_decision_quiet [OF i quiet_world [OF w qC]])
  have auth: "authorityCommitOutcome E (submission_commit s d) (world 1) (world 0 B)
      = (case r of Inl e \<Rightarrow> (Inl e, C) | Inr dec \<Rightarrow> (Inr dec, ?D dec))"
    by (cases r) (simp_all add: authorityCommitOutcome_def C cid)
  show ?thesis
    using B qC D converge_quiet [OF w D i]
    by (cases r) (auto simp: submitAttemptOutcome_eq Inr auth simp del: One_nat_def
        split: option.splits outcome_decision.splits)
qed (simp add: submitAttemptOutcome_eq q)

lemma outcome_quiet:
  assumes w: "calm E j world" and inv: "repo_inv (au_repository A)"
    and j: "\<And>p. resolveExecutionAttemptPeer ctx = Some p \<Longrightarrow> pi_executionAttemptId p \<noteq> j"
  shows "quiet E j A (snd (handleOutcomeSubmit E owner decodeOutcome ctx request world A))"
proof (cases "requireAttemptPeer ctx (oq_executionAttemptId request)")
  case (Inr p)
  have i: "pi_executionAttemptId p \<noteq> j" using j required_peer [OF Inr] by simp
  have A3: "quiet E j A (world 3 A)" "quiet E j A (world 4 (world 3 A))"
    and A5: "quiet E j A (world 5 (world 4 (world 3 A)))"
    by (intro quiet_world [OF w] quiet_refl)+
  let ?s = "\<lambda>out. \<lparr>sb_executionId = pi_executionId p, sb_executionAttemptId = pi_executionAttemptId p,
       sb_outcome = out, sb_runtimeFence = Some \<lparr>fn_runtimeGeneration = oq_runtimeGeneration request,
                                                fn_operationId = oq_operationId request\<rparr>\<rparr>"
  have sub: "quiet E j A B" if "submitAttemptOutcome E owner (?s out) world (world 5 (world 4 (world 3 A))) = (r, B)"
    for out r B
    using submit_quiet [OF w inv _ A5, of "?s out" owner] i that by simp
  from A3 A5 sub Inr show ?thesis
    by (auto simp: handleOutcomeSubmit_def Let_def split: option.splits sum.splits prod.splits if_splits)
qed (simp add: handleOutcomeSubmit_def)

text \<open>
  C20. A peer reaches its own attempt only: whatever it sends to registration, admission, control report,
  preparation report or outcome submission, everything recorded about another attempt (its row, its
  provider operation, outcome, observation, cancellation and control evidence) and the in-process waiter for it
  stay as they were, provided the rest of the process does not touch that attempt meanwhile. A caller
  that is no authenticated attempt peer changes nothing of any attempt.\<close>

theorem handlers_confined_to_peer:
  assumes reach: "attempt_steps E empty_repo (au_repository A)" and w: "calm E j world"
    and j: "map_option pi_executionAttemptId (resolveExecutionAttemptPeer ctx) \<noteq> Some j"
  shows "quiet E j A (snd (snd (handleRuntimeRegister E bus ctx register uuid now readyAt world A)))
       \<and> quiet E j A (snd (snd (handleOperationAdmit bus ctx admission uuid now world A)))
       \<and> quiet E j A (snd (handleControlReport E ctx control A))
       \<and> quiet E j A (snd (handleOperationReport ctx preparation A))
       \<and> quiet E j A (snd (handleOutcomeSubmit E owner decodeOutcome ctx outcome world A))"
proof -
  have inv: "repo_inv (au_repository A)" by (rule reachable_inv [OF reach])
  have j': "pi_executionAttemptId p \<noteq> j" if "resolveExecutionAttemptPeer ctx = Some p" for p using j that by auto
  show ?thesis
    by (intro conjI register_quiet [OF w inv] admit_quiet [OF w inv] reports_quiet [OF inv] outcome_quiet [OF w inv])
       (simp_all add: j')
qed

theorem handlers_confined_to_peer_witness:
  "\<exists>B r. handleOutcomeSubmit sample_env sample_owner sample_decode sample_context sample_outcome_request (\<lambda>_. id)
        (sample_fresh\<lparr>au_repository := sample_running\<rparr>) = (r, B) \<and> quiet sample_env ''a2''
        (sample_fresh\<lparr>au_repository := sample_running\<rparr>) B"
proof -
  let ?A = "sample_fresh\<lparr>au_repository := sample_running\<rparr>"
  have r: "attempt_steps sample_env empty_repo (au_repository ?A)" by (simp add: sample_step_running)
  have c: "calm sample_env ''a2'' (\<lambda>_. id)" by (simp add: calm_def)
  have j: "map_option pi_executionAttemptId (resolveExecutionAttemptPeer sample_context) \<noteq> Some ''a2''" by code_simp
  show ?thesis using handlers_confined_to_peer [OF r c j] by (metis prod.collapse)
qed

end
