(* ===== verification/Bootstrap_Start.thy ===== *)
theory Bootstrap_Start
  imports Attempt_Handlers
begin

text \<open>
  The start barrier of a worker: a booted runtime asks for permission and the authority observes the
  repository until the allocation is durable, the request's lease is over or the request is cancelled
  (\<open>bootstrap-start.ts\<close>, \<open>bootstrap-start-handler.ts\<close>). Time is counted in milliseconds. The world of a
  request is the repository at every instant, how long its \<open>k\<close>-th read takes (\<open>None\<close> for a read that
  never answers) and whether it rejects, how late its \<open>k\<close>-th poll timer fires and how late the \<open>k\<close>-th
  arming of its deadline timer does. A read observes the instant at which it is made. A timer of Node
  waits at least one millisecond, and of two events due at one instant the cancellation comes first.
\<close>

section \<open>One observation\<close>

datatype start_refusal =
    StartNotFound
  | StartResolved
  | StartFenced
  | StartAllocationTerminated
  | StartGateClosed
  | StartExpired

datatype start_response = StartPermitted | StartPending | StartRefused start_refusal

datatype start_error = StartCancelled | StartTimedOut | StartNoDeadline | StartReadFailed string

definition evaluateStart :: "bootstrap_start_state option \<Rightarrow> int \<Rightarrow> start_response" where
  "evaluateStart state now =
     (case state of
        None \<Rightarrow> StartRefused StartNotFound
      | Some s \<Rightarrow>
          if bs_settled s then StartRefused StartResolved
          else if \<not> bs_active s then StartRefused StartFenced
          else if bs_allocationTerminated s then StartRefused StartAllocationTerminated
          else if bs_operationStartGate s = GateClosed then StartRefused StartGateClosed
          else (case bs_bootstrapDeadlineAt s of
            None \<Rightarrow> StartRefused StartExpired
          | Some deadline \<Rightarrow>
              if deadline \<le> now then StartRefused StartExpired
              else if bs_allocated s then StartPermitted else StartPending))"

section \<open>Waiting\<close>

definition LEASE_MS :: int where "LEASE_MS = 30000"
definition RESPONSE_MARGIN_MS :: int where "RESPONSE_MARGIN_MS = 1000"
definition POLL_INTERVAL_MS :: int where "POLL_INTERVAL_MS = 100"

lemmas start_constants = LEASE_MS_def RESPONSE_MARGIN_MS_def POLL_INTERVAL_MS_def

record start_world =
  sw_history :: "int \<Rightarrow> repo"
  sw_latency :: "nat \<Rightarrow> nat option"
  sw_failure :: "nat \<Rightarrow> string option"
  sw_lag :: "nat \<Rightarrow> nat"
  sw_deadlineLag :: "nat \<Rightarrow> nat"

text \<open>When the merged signal of the caller and of the observation timer aborts, and with which reason.\<close>

type_synonym ending = "start_error \<times> int"

definition merged_signal :: "int option \<Rightarrow> int \<Rightarrow> ending" where
  "merged_signal abort timer =
     (case abort of
        Some a \<Rightarrow> if a \<le> timer then (StartCancelled, a) else (StartTimedOut, timer)
      | None \<Rightarrow> (StartTimedOut, timer))"

text \<open>The read settles first or the signal aborts first; a read that rejects passes its error on.\<close>

definition readUntilCancelled :: "nat option \<Rightarrow> string option \<Rightarrow> ending \<Rightarrow> int \<Rightarrow> ending + int" where
  "readUntilCancelled latency failure signal now =
     (case latency of
        None \<Rightarrow> Inl signal
      | Some l \<Rightarrow>
          if snd signal \<le> now + int l then Inl signal
          else (case failure of
                  Some e \<Rightarrow> Inl (StartReadFailed e, now + int l)
                | None \<Rightarrow> Inr (now + int l)))"

definition waitForObservation :: "int \<Rightarrow> nat \<Rightarrow> ending \<Rightarrow> int \<Rightarrow> ending + int" where
  "waitForObservation milliseconds lag signal now =
     (let t = now + milliseconds + int lag in if snd signal \<le> t then Inl signal else Inr t)"

text \<open>The instant at which an armed deadline timer fires.\<close>

definition armObservationTimeout :: "int \<Rightarrow> nat \<Rightarrow> int \<Rightarrow> int" where
  "armObservationTimeout deadline lag now = now + max 1 (max 0 (deadline - now)) + int lag"

lemma read_time: "readUntilCancelled l f s now = Inr t \<Longrightarrow> now \<le> t \<and> t < snd s"
  by (auto simp: readUntilCancelled_def split: option.splits if_splits)

lemma wait_time: "waitForObservation ms lag s now = Inr t \<Longrightarrow> now + ms \<le> t \<and> t < snd s"
  by (auto simp: waitForObservation_def Let_def split: if_splits)

section \<open>The observation loop\<close>

text \<open>
  The answer comes with its instant and with the number of reads made. A pending observation has a
  deadline (the refusal \<open>StartExpired\<close> comes first), so the branch without one is never taken.
\<close>

type_synonym start_reply = "(start_error + start_response) \<times> int \<times> nat"

function observe ::
    "start_world \<Rightarrow> string \<Rightarrow> string \<Rightarrow> int option \<Rightarrow> int \<Rightarrow> int \<Rightarrow> nat \<Rightarrow> int \<Rightarrow> int \<Rightarrow> start_reply" where
  "observe W executionId executionAttemptId abort leaseDeadline requestDeadline k timer now =
     (let signal = merged_signal abort timer;
          state = readBootstrapStartState executionId executionAttemptId (sw_history W now) in
      if snd signal \<le> now then (Inl (fst signal), now, k)
      else (case readUntilCancelled (sw_latency W k) (sw_failure W k) signal now of
        Inl (e, t) \<Rightarrow> (Inl e, t, Suc k)
      | Inr t \<Rightarrow>
          if evaluateStart state t \<noteq> StartPending then (Inr (evaluateStart state t), t, Suc k)
          else (case Option.bind state bs_bootstrapDeadlineAt of
            None \<Rightarrow> (Inr StartPending, t, Suc k)
          | Some durableDeadline \<Rightarrow>
              let timer' = armObservationTimeout (min requestDeadline (durableDeadline + RESPONSE_MARGIN_MS))
                             (sw_deadlineLag W (Suc k)) t;
                  remaining = min leaseDeadline durableDeadline - t in
              if remaining \<le> 0 then (Inr StartPending, t, Suc k)
              else (case waitForObservation (min POLL_INTERVAL_MS remaining) (sw_lag W k)
                           (merged_signal abort timer') t of
                Inl (e, u) \<Rightarrow> (Inl e, u, Suc k)
              | Inr u \<Rightarrow>
                  observe W executionId executionAttemptId abort leaseDeadline requestDeadline (Suc k) timer' u))))"
  by pat_completeness auto

termination
proof (relation "measure (\<lambda>(W, e, i, abort, lease, req, k, timer, now). nat (lease - now))", simp)
qed (auto simp: POLL_INTERVAL_MS_def dest!: read_time wait_time)

declare observe.simps [simp del]

definition awaitBootstrapStart ::
    "start_world \<Rightarrow> string \<Rightarrow> string \<Rightarrow> int option \<Rightarrow> int option \<Rightarrow> int \<Rightarrow> start_reply" where
  "awaitBootstrapStart W executionId executionAttemptId abort deadline now =
     (if (case abort of Some a \<Rightarrow> a \<le> now | None \<Rightarrow> False) then (Inl StartCancelled, now, 0)
      else (case deadline of
        None \<Rightarrow> (Inl StartNoDeadline, now, 0)
      | Some d \<Rightarrow>
          let leaseDeadline = min (now + LEASE_MS) (d - RESPONSE_MARGIN_MS);
              requestDeadline = min d (leaseDeadline + RESPONSE_MARGIN_MS) in
          observe W executionId executionAttemptId abort leaseDeadline requestDeadline 0
            (armObservationTimeout requestDeadline (sw_deadlineLag W 0) now) now))"

text \<open>
  The handler: the identity is the authenticated peer's, the signal is the request's merged with the
  shutdown of the handler, and a request without a deadline gets one.
\<close>

definition earliest :: "int option \<Rightarrow> int option \<Rightarrow> int option" where
  "earliest a b = (case (a, b) of (Some x, Some y) \<Rightarrow> Some (min x y) | (None, _) \<Rightarrow> b | (_, None) \<Rightarrow> a)"

definition handleBootstrapStart ::
    "start_world \<Rightarrow> call_context \<Rightarrow> string \<Rightarrow> int option \<Rightarrow> int option \<Rightarrow> int option \<Rightarrow> int
     \<Rightarrow> authority_error + start_reply" where
  "handleBootstrapStart W ctx executionAttemptId signal shutdown deadline now =
     (case resolveExecutionAttemptPeer ctx of
        None \<Rightarrow> Inl (ProtocolError ''Bootstrap start requires an authenticated workflow-execution-attempt peer'')
      | Some peer \<Rightarrow>
          if \<not> is_identifier executionAttemptId then Inl (ProtocolError ''bootstrap.awaitStart'')
          else if executionAttemptId \<noteq> pi_executionAttemptId peer
          then Inl (ProtocolError ''Bootstrap start executionAttemptId does not match authenticated peer identity'')
          else Inr (awaitBootstrapStart W (pi_executionId peer) executionAttemptId (earliest signal shutdown)
                      (Some (case deadline of Some d \<Rightarrow> d | None \<Rightarrow> now + 31000)) now))"

end
