(* ===== verification/Bootstrap_Properties.thy ===== *)
theory Bootstrap_Properties
  imports Bootstrap_Start Handler_Properties
begin

text \<open>
  What the start barrier promises: it answers by its deadline as far as its deadline timer is punctual,
  within a bounded number of reads, it
  permits only what the repository allows, its refusals are final and it notices an allocation within
  one poll interval. Reading the repository at growing instants follows its history.
\<close>

section \<open>The repository over time\<close>

definition chronicle :: "'o port_env \<Rightarrow> start_world \<Rightarrow> int \<Rightarrow> bool" where
  "chronicle E W now \<longleftrightarrow>
     attempt_steps E empty_repo (sw_history W now)
     \<and> (\<forall>s t. now \<le> s \<longrightarrow> s \<le> t \<longrightarrow> attempt_steps E (sw_history W s) (sw_history W t))"

lemma chronicle_steps:
  "chronicle E W now \<Longrightarrow> now \<le> s \<Longrightarrow> s \<le> t \<Longrightarrow> attempt_steps E (sw_history W s) (sw_history W t)"
  by (auto simp: chronicle_def)

lemma chronicle_inv: "chronicle E W now \<Longrightarrow> now \<le> t \<Longrightarrow> repo_inv (sw_history W t)"
  unfolding chronicle_def by (meson order_refl reachable_inv rtranclp_trans)

text \<open>An attempt that may not start, at \<open>now\<close> and whatever happens afterwards.\<close>

definition barred :: "repo \<Rightarrow> string \<Rightarrow> string \<Rightarrow> int \<Rightarrow> bool" where
  "barred R e i now \<longleftrightarrow>
     (\<exists>a. map_get (rs_attempts R) i = Some a
        \<and> (at_executionId a \<noteq> e \<or> at_settlementKind a \<noteq> None \<or> allocationTerminated R i
           \<or> cs_operationStartGate a = GateClosed
           \<or> (case at_bootstrapDeadlineAt a of None \<Rightarrow> True | Some d \<Rightarrow> d \<le> now)))"

lemma terminated_stays:
  assumes "repo_inv R" "attempt_steps E R S" "allocationTerminated R i"
  shows "allocationTerminated S i"
proof -
  from assms(3) obtain p where p: "map_get (rs_operations R) i = Some p"
    and t: "op_obligation p = TerminalConvergence"
    by (auto simp: allocationTerminated_def)
  obtain q where q: "map_get (rs_operations S) i = Some q" "operation_le p q"
    using later_operation [OF assms(1,2) p] .
  with t have "op_obligation q = TerminalConvergence"
    by (cases "op_obligation q") (auto simp: operation_le_def)
  with q(1) show ?thesis by (simp add: allocationTerminated_def)
qed

lemma barred_stays:
  assumes "repo_inv R" "attempt_steps E R S" "barred R e i now" "now \<le> t"
  shows "barred S e i t"
proof -
  from assms(3) obtain a where a: "map_get (rs_attempts R) i = Some a"
    and b: "at_executionId a \<noteq> e \<or> at_settlementKind a \<noteq> None \<or> allocationTerminated R i
           \<or> cs_operationStartGate a = GateClosed
           \<or> (case at_bootstrapDeadlineAt a of None \<Rightarrow> True | Some d \<Rightarrow> d \<le> now)"
    by (auto simp: barred_def)
  obtain c where c: "map_get (rs_attempts S) i = Some c" "attempt_le a c"
    using later_attempt [OF assms(1,2) a] .
  have "at_settlementKind c \<noteq> None" if "at_settlementKind a \<noteq> None"
    using c(2) that by (auto simp: attempt_le_def)
  with b c terminated_stays [OF assms(1,2), of i] assms(4) show ?thesis
    unfolding barred_def by (auto simp: attempt_le_def split: option.splits)
qed

text \<open>A refusal bars the attempt, and a barred attempt is refused.\<close>

lemma read_start_state:
  "map_get (rs_attempts R) i = Some a \<Longrightarrow> readBootstrapStartState e i R =
     (if at_executionId a \<noteq> e then None
      else Some \<lparr>bs_settled = (at_settlementKind a \<noteq> None), bs_active = is_active R e i,
                 bs_allocated = (at_allocationRef a \<noteq> None), bs_allocationTerminated = allocationTerminated R i,
                 bs_operationStartGate = cs_operationStartGate a, bs_bootstrapDeadlineAt = at_bootstrapDeadlineAt a\<rparr>)"
  by (simp add: readBootstrapStartState_def)

lemma not_refused:
  assumes "\<And>r. evaluateStart (readBootstrapStartState e i R) t \<noteq> StartRefused r"
  obtains a d where "map_get (rs_attempts R) i = Some a" "at_executionId a = e" "at_settlementKind a = None"
    "is_active R e i" "\<not> allocationTerminated R i" "cs_operationStartGate a = GateOpen"
    "at_bootstrapDeadlineAt a = Some d" "t < d"
    "evaluateStart (readBootstrapStartState e i R) t
       = (if at_allocationRef a = None then StartPending else StartPermitted)"
proof -
  obtain a where a: "map_get (rs_attempts R) i = Some a"
    using assms by (cases "map_get (rs_attempts R) i")
      (auto simp: readBootstrapStartState_def evaluateStart_def)
  show ?thesis
  proof (cases "at_executionId a = e \<and> at_settlementKind a = None \<and> is_active R e i
      \<and> \<not> allocationTerminated R i \<and> cs_operationStartGate a = GateOpen")
    case True
    then obtain d where "at_bootstrapDeadlineAt a = Some d" "t < d"
      using assms [of StartExpired] a by (cases "at_bootstrapDeadlineAt a")
        (auto simp: read_start_state evaluateStart_def split: if_splits)
    with True a show ?thesis by (intro that [of a d]) (simp_all add: read_start_state evaluateStart_def)
  next
    case False
    then have "\<exists>r. evaluateStart (readBootstrapStartState e i R) t = StartRefused r"
      using a by (cases "cs_operationStartGate a") (auto simp: read_start_state evaluateStart_def)
    with assms show ?thesis by blast
  qed
qed

lemma refused_barred:
  assumes inv: "repo_inv R" and a: "map_get (rs_attempts R) i = Some a"
    and r: "evaluateStart (readBootstrapStartState e i R) t = StartRefused r"
  shows "barred R e i t"
proof (rule ccontr)
  assume "\<not> barred R e i t"
  then have *: "at_executionId a = e" "at_settlementKind a = None" "\<not> allocationTerminated R i"
    "cs_operationStartGate a = GateOpen" "\<exists>d. at_bootstrapDeadlineAt a = Some d \<and> t < d"
    using a by (cases "cs_operationStartGate a"; force simp: barred_def split: option.splits)+
  then have "is_active R e i"
    using inv a unfolding repo_inv_def owners_inv_def by force
  with * a r show False by (auto simp: read_start_state evaluateStart_def split: if_splits)
qed

lemma barred_refused:
  assumes "barred R e i now" "now \<le> t"
  shows "\<exists>r. evaluateStart (readBootstrapStartState e i R) t = StartRefused r"
proof (rule ccontr)
  assume "\<not> ?thesis"
  then have "\<And>r. evaluateStart (readBootstrapStartState e i R) t \<noteq> StartRefused r" by blast
  then obtain a d where "map_get (rs_attempts R) i = Some a" "at_executionId a = e" "at_settlementKind a = None"
    "\<not> allocationTerminated R i" "cs_operationStartGate a = GateOpen" "at_bootstrapDeadlineAt a = Some d" "t < d"
    by (rule not_refused)
  with assms show False by (auto simp: barred_def)
qed

section \<open>One turn of the loop\<close>

lemma signal_time:
  "snd (merged_signal abort timer) = (case abort of Some a \<Rightarrow> min a timer | None \<Rightarrow> timer)"
  by (auto simp: merged_signal_def split: option.splits)

lemma arm_time: "armObservationTimeout d lag now = max (now + 1) d + int lag"
  by (auto simp: armObservationTimeout_def)

text \<open>A turn is cancelled, or answers from its read, or sleeps and goes on.\<close>

lemma observe_turn:
  assumes "observe W e i abort lease req k timer now = (r, t, n)"
  obtains
    (Cancelled) err where "r = Inl err" "n \<le> Suc k" "now \<le> t"
      "t \<le> max now (max timer (max lease req + int (sw_deadlineLag W (Suc k))))"
  | (Answered) l where "r = Inr (evaluateStart (readBootstrapStartState e i (sw_history W now)) t)" "n = Suc k"
      "sw_latency W k = Some l" "sw_failure W k = None" "t = now + int l" "t < timer"
  | (Again) s d u where "now \<le> s" "s < timer" "s < u" "s < lease" "s < d"
      "evaluateStart (readBootstrapStartState e i (sw_history W now)) s = StartPending"
      "Option.bind (readBootstrapStartState e i (sw_history W now)) bs_bootstrapDeadlineAt = Some d"
      "s + min 100 (min lease d - s) \<le> u" "u < max (s + 1) (min req (d + 1000)) + int (sw_deadlineLag W (Suc k))"
      "observe W e i abort lease req (Suc k) (max (s + 1) (min req (d + 1000)) + int (sw_deadlineLag W (Suc k))) u = (r, t, n)"
proof -
  let ?sig = "merged_signal abort timer"
  let ?st = "readBootstrapStartState e i (sw_history W now)"
  note o = assms [unfolded observe.simps [of W e i abort lease req k timer now] Let_def arm_time start_constants]
  have T: "snd ?sig \<le> timer" by (auto simp: signal_time split: option.splits)
  show ?thesis
  proof (cases "snd ?sig \<le> now")
    case True
    with o show ?thesis by (intro Cancelled) auto
  next
    case late: False
    show ?thesis
    proof (cases "readUntilCancelled (sw_latency W k) (sw_failure W k) ?sig now")
      case (Inl x)
      then have "now \<le> snd x \<and> snd x \<le> snd ?sig"
        using late by (auto simp: readUntilCancelled_def split: option.splits if_splits)
      with Inl o late T show ?thesis by (intro Cancelled [of "fst x"]) (auto simp: split_beta)
    next
      case (Inr s)
      then obtain l where l: "sw_latency W k = Some l" "sw_failure W k = None" "s = now + int l" and s: "now \<le> s" "s < snd ?sig"
        by (auto simp: readUntilCancelled_def split: option.splits if_splits)
      show ?thesis
      proof (cases "evaluateStart ?st s = StartPending")
        case False
        with o Inr late l s T show ?thesis by (intro Answered [of l]) auto
      next
        case pend: True
        then obtain x d where d: "?st = Some x" "bs_bootstrapDeadlineAt x = Some d" "s < d"
          by (auto simp: evaluateStart_def split: option.splits if_splits)
        show ?thesis
        proof (cases "min lease d \<le> s")
          case True
          with d(3) have "lease \<le> s" by simp
          with o Inr late l s T pend d show ?thesis by (intro Answered [of l]) (auto simp: min_def split: if_splits)
        next
          case more: False
          let ?timer = "max (s + 1) (min req (d + 1000)) + int (sw_deadlineLag W (Suc k))"
          let ?wait = "waitForObservation (min 100 (min lease d - s)) (sw_lag W k) (merged_signal abort ?timer) s"
          have sig': "s < snd (merged_signal abort ?timer)" "snd (merged_signal abort ?timer) \<le> ?timer"
            using s by (auto simp: signal_time split: option.splits)
          have w: "(case ?wait of Inl (err, u) \<Rightarrow> (Inl err, u, Suc k)
                    | Inr u \<Rightarrow> observe W e i abort lease req (Suc k) ?timer u) = (r, t, n)"
            using o Inr late pend d more by simp
          show ?thesis
          proof (cases ?wait)
            case (Inl y)
            then have y: "y = merged_signal abort ?timer"
              by (auto simp: waitForObservation_def Let_def split: if_splits)
            have "?timer \<le> max lease req + int (sw_deadlineLag W (Suc k))" using more by auto
            then have "snd y \<le> max lease req + int (sw_deadlineLag W (Suc k))" unfolding y by (rule order_trans [OF sig'(2)])
            moreover have "s < snd y" unfolding y by (rule sig')
            moreover have "r = Inl (fst y) \<and> t = snd y \<and> n = Suc k" using w Inl by (auto simp: split_beta)
            ultimately show ?thesis using s by (intro Cancelled [of "fst y"]) auto
          next
            case (Inr u)
            note wt = wait_time [OF this]
            have "s < u" using wt more by (auto simp: min_def split: if_splits)
            with wt w Inr sig' s T pend d more show ?thesis by (intro Again [of s u d]) auto
          qed
        qed
      qed
    qed
  qed
qed


section \<open>The barrier\<close>

lemma chronicle_later: "chronicle E W now \<Longrightarrow> now \<le> u \<Longrightarrow> chronicle E W u"
  unfolding chronicle_def by (meson order_refl order_trans rtranclp_trans)

lemma barred_later:
  "chronicle E W now \<Longrightarrow> now \<le> s \<Longrightarrow> s \<le> t \<Longrightarrow> barred (sw_history W s) e i u \<Longrightarrow> u \<le> v
   \<Longrightarrow> barred (sw_history W t) e i v"
  using barred_stays [OF chronicle_inv chronicle_steps] by blast

text \<open>An attempt that is barred is read once and refused.\<close>

lemma barred_observe:
  assumes "barred (sw_history W now) e i now" "observe W e i abort lease req k timer now = (r, t, n)"
  shows "n \<le> Suc k \<and> (\<forall>x. r = Inr x \<longrightarrow> (\<exists>y. x = StartRefused y))"
  using assms(2)
proof (cases rule: observe_turn)
  case (Answered l)
  then show ?thesis using barred_refused [OF assms(1), of t] by auto
next
  case (Again s d u)
  then show ?thesis using barred_refused [OF assms(1), of s] by auto
qed auto

text \<open>A turn needs at most one read for each hundred milliseconds of the lease that are left.\<close>

definition read_budget :: "int \<Rightarrow> nat" where
  "read_budget rest = nat ((rest + 99) div 100)"

lemma read_budget_step:
  assumes "min (now + 100) lease \<le> u" "now < lease"
  shows "Suc (read_budget (lease - u)) \<le> read_budget (lease - now)"
proof (cases "lease \<le> u")
  case True
  then show ?thesis using assms(2) by (simp add: read_budget_def)
next
  case False
  then have "(lease - u + 99) div 100 \<le> (lease - now + 99 + (- 1) * 100) div 100"
    using assms(1) by (intro zdiv_mono1) auto
  also have "\<dots> = (lease - now + 99) div 100 - 1" by (subst div_mult_self1) auto
  finally show ?thesis using False by (simp add: read_budget_def)
qed

lemma observe_bounds:
  assumes "chronicle E W now" "\<And>j. sw_deadlineLag W j \<le> J"
    and "observe W e i abort lease req k timer now = (r, t, n)" and "lease \<le> req"
  shows "n \<le> k + 1 + read_budget (lease - now) \<and> now \<le> t \<and> t \<le> max now (max timer (req + int J))"
  using assms(1,3)
proof (induction "nat (lease - now)" arbitrary: k timer now rule: less_induct)
  case less
  have J: "int (sw_deadlineLag W (Suc k)) \<le> int J" using assms(2) by simp
  from less.prems(2) show ?case
  proof (cases rule: observe_turn)
    case (Again s d u)
    let ?timer = "max (s + 1) (min req (d + 1000)) + int (sw_deadlineLag W (Suc k))"
    have timer: "?timer \<le> req + int J" "u < ?timer" using Again(4,9) assms(4) J by auto
    have u: "chronicle E W u" by (rule chronicle_later [OF less.prems(1)]) (use Again in simp)
    have IH: "n \<le> Suc k + 1 + read_budget (lease - u) \<and> u \<le> t \<and> t \<le> max u (max ?timer (req + int J))"
      by (rule less.hyps [OF _ u Again(10)]) (use Again in auto)
    have budget: "1 \<le> read_budget (lease - now)" using Again by (simp add: read_budget_def)
    have "n \<le> k + 1 + read_budget (lease - now)"
    proof (cases "min (s + 100) lease \<le> u")
      case True
      then have "Suc (read_budget (lease - u)) \<le> read_budget (lease - now)"
        using Again(1,4) by (intro read_budget_step) auto
      with IH show ?thesis by simp
    next
      case False
      then have "d \<le> u" using Again by auto
      moreover obtain a where "map_get (rs_attempts (sw_history W now)) i = Some a" "at_bootstrapDeadlineAt a = Some d"
        using Again(7) by (auto simp: readBootstrapStartState_def split: option.splits if_splits)
      ultimately have "barred (sw_history W now) e i u" by (auto simp: barred_def)
      then have "barred (sw_history W u) e i u" using barred_later [OF less.prems(1), of now u] Again by simp
      from barred_observe [OF this Again(10)] budget show ?thesis by simp
    qed
    moreover have "now \<le> u" using Again by simp
    ultimately show ?thesis using IH timer by auto
  qed (use J assms(4) in auto)
qed

text \<open>
  C19. The start barrier always answers: a request made at \<open>now\<close> is answered, refused or fails no later
  than 31 seconds after it was made and no later than its own deadline (one millisecond after \<open>now\<close>
  when that deadline has already passed), plus the \<open>J\<close> milliseconds by which its deadline timer fires late
  at most, even when a read of the repository rejects or never returns and however late the poll
  timers are; and it reads the repository at most 301 times.\<close>

theorem bootstrap_start_terminates:
  assumes "chronicle E W now" "\<And>k. sw_deadlineLag W k \<le> J"
    and "awaitBootstrapStart W e i abort deadline now = (r, t, n)"
  shows "now \<le> t \<and> t \<le> now + 31000 + int J \<and> n \<le> 301
         \<and> (\<forall>d. deadline = Some d \<longrightarrow> t \<le> max (now + 1) d + int J)"
proof (cases "n = 0 \<and> t = now")
  case False
  then obtain d where d: "deadline = Some d"
    using assms(3) by (auto simp: awaitBootstrapStart_def split: if_splits option.splits)
  define lease where "lease = min (now + 30000) (d - 1000)"
  define req where "req = min d (lease + 1000)"
  have J: "int (sw_deadlineLag W 0) \<le> int J" using assms(2) by simp
  have "observe W e i abort lease req 0 (max (now + 1) req + int (sw_deadlineLag W 0)) now = (r, t, n)"
    using False assms(3) d
    by (auto simp: awaitBootstrapStart_def Let_def arm_time start_constants lease_def req_def split: if_splits option.splits)
  from observe_bounds [OF assms(1,2) this] have *: "n \<le> 1 + read_budget (lease - now)" "now \<le> t" "t \<le> max (now + 1) req + int J"
    using J by (auto simp: req_def lease_def)
  moreover have "read_budget (lease - now) \<le> 300" by (auto simp: read_budget_def lease_def)
  ultimately show ?thesis using d by (auto simp: req_def lease_def)
qed auto

definition sample_start :: start_world where
  "sample_start = \<lparr>sw_history = (\<lambda>_. sample_allocated), sw_latency = (\<lambda>_. None),
     sw_failure = (\<lambda>_. None), sw_lag = (\<lambda>_. 0), sw_deadlineLag = (\<lambda>_. 3)\<rparr>"

lemma sample_chronicle: "chronicle sample_env (sample_start\<lparr>sw_latency := l\<rparr>) now"
  by (simp add: chronicle_def sample_start_def sample_step_allocated)

theorem bootstrap_start_terminates_witness:
  "awaitBootstrapStart sample_start ''e1'' ''a1'' None (Some 9000) 2000 = (Inl StartTimedOut, 9003, 1)
   \<and> (9003 :: int) \<le> 2000 + 31000 + 3 \<and> (1 :: nat) \<le> 301"
proof -
  have h: "awaitBootstrapStart sample_start ''e1'' ''a1'' None (Some 9000) 2000 = (Inl StartTimedOut, 9003, 1)"
    by code_simp
  have "sample_start\<lparr>sw_latency := \<lambda>_. None\<rparr> = sample_start" by (simp add: sample_start_def)
  with sample_chronicle [of "\<lambda>_. None" 2000] have c: "chronicle sample_env sample_start 2000" by simp
  have "sw_deadlineLag sample_start k \<le> 3" for k by (simp add: sample_start_def)
  from bootstrap_start_terminates [OF c this h] h show ?thesis by simp
qed

section \<open>Permission\<close>

lemma observe_answer:
  assumes "observe W e i abort lease req k timer now = (Inr x, t, n)"
  shows "\<exists>u. now \<le> u \<and> u \<le> t \<and> x = evaluateStart (readBootstrapStartState e i (sw_history W u)) t"
  using assms
proof (induction "nat (lease - now)" arbitrary: k timer now rule: less_induct)
  case less
  from less.prems show ?case
  proof (cases rule: observe_turn)
    case (Again s d u)
    have "\<exists>v. u \<le> v \<and> v \<le> t \<and> x = evaluateStart (readBootstrapStartState e i (sw_history W v)) t"
      by (rule less.hyps [OF _ Again(10)]) (use Again in auto)
    moreover have "now \<le> u" using Again by simp
    ultimately show ?thesis using order_trans by blast
  qed (auto intro: exI [of _ now])
qed

lemma await_answer:
  assumes "awaitBootstrapStart W e i abort deadline now = (Inr x, t, n)"
  shows "\<exists>u. now \<le> u \<and> u \<le> t \<and> x = evaluateStart (readBootstrapStartState e i (sw_history W u)) t"
  using assms by (auto simp: awaitBootstrapStart_def Let_def split: if_splits option.splits intro: observe_answer)

text \<open>
  C28. The barrier permits a start only on a durable fact: at some instant of the request the repository
  held this attempt under this owner as its current one, allocated, not settled, its allocation not
  terminated and its start gate open, and its bootstrap deadline lies after the answer.\<close>

theorem bootstrap_permission_sound:
  assumes "awaitBootstrapStart W e i abort deadline now = (Inr StartPermitted, t, n)"
  shows "\<exists>u a d. now \<le> u \<and> u \<le> t \<and> map_get (rs_attempts (sw_history W u)) i = Some a
           \<and> at_executionId a = e \<and> is_active (sw_history W u) e i \<and> at_allocationRef a \<noteq> None
           \<and> at_settlementKind a = None \<and> \<not> allocationTerminated (sw_history W u) i
           \<and> cs_operationStartGate a = GateOpen \<and> at_bootstrapDeadlineAt a = Some d \<and> t < d"
proof -
  from await_answer [OF assms] obtain u where u: "now \<le> u" "u \<le> t"
    and p: "StartPermitted = evaluateStart (readBootstrapStartState e i (sw_history W u)) t" by blast
  then have "evaluateStart (readBootstrapStartState e i (sw_history W u)) t \<noteq> StartRefused r" for r
    by (metis start_response.distinct(3))
  then show ?thesis
    by (rule not_refused) (use u p in \<open>force split: if_splits\<close>)
qed

theorem bootstrap_permission_sound_witness:
  "awaitBootstrapStart (sample_start\<lparr>sw_latency := \<lambda>_. Some 5\<rparr>) ''e1'' ''a1'' None (Some 9000) 2000
     = (Inr StartPermitted, 2005, 1)
   \<and> (\<exists>a. map_get (rs_attempts sample_allocated) ''a1'' = Some a \<and> at_allocationRef a \<noteq> None)"
proof -
  have h: "awaitBootstrapStart (sample_start\<lparr>sw_latency := \<lambda>_. Some 5\<rparr>) ''e1'' ''a1'' None (Some 9000) 2000
     = (Inr StartPermitted, 2005, 1)"
    by code_simp
  from bootstrap_permission_sound [OF h] h show ?thesis by (auto simp: sample_start_def)
qed

text \<open>
  C39. A refusal is final: once the barrier has refused an attempt that the repository knows, no later
  request for it is permitted or even left pending, whatever happens to the repository in between.\<close>

theorem bootstrap_refusal_final:
  assumes c: "chronicle E W now" and a: "map_get (rs_attempts (sw_history W now)) i \<noteq> None"
    and refused: "awaitBootstrapStart W e i abort deadline now = (Inr (StartRefused reason), t, n)"
    and later: "t \<le> now'" "awaitBootstrapStart W e i abort' deadline' now' = (Inr x, t', n')"
  shows "\<exists>reason'. x = StartRefused reason'"
proof -
  from await_answer [OF refused] obtain u where u: "now \<le> u" "u \<le> t"
    and r: "StartRefused reason = evaluateStart (readBootstrapStartState e i (sw_history W u)) t" by blast
  from a obtain b where "map_get (rs_attempts (sw_history W now)) i = Some b" by blast
  then obtain b' where "map_get (rs_attempts (sw_history W u)) i = Some b'"
    using later_attempt [OF chronicle_inv [OF c order_refl] chronicle_steps [OF c order_refl u(1)]] by blast
  then have bar: "barred (sw_history W u) e i t"
    using refused_barred [OF chronicle_inv [OF c u(1)]] r by metis
  from await_answer [OF later(2)] obtain v where v: "now' \<le> v" "v \<le> t'"
    and x: "x = evaluateStart (readBootstrapStartState e i (sw_history W v)) t'" by blast
  have "barred (sw_history W v) e i t'" using barred_later [OF c u(1) _ bar] u v later(1) by simp
  then show ?thesis using barred_refused x by blast
qed

theorem bootstrap_refusal_final_witness:
  "\<exists>x t n. awaitBootstrapStart (sample_start\<lparr>sw_latency := \<lambda>_. Some 5\<rparr>) ''e1'' ''a1'' None (Some 900000000) 100000000
     = (Inr (StartRefused x), t, n)"
proof -
  let ?W = "sample_start\<lparr>sw_latency := \<lambda>_. Some 5\<rparr>"
  let ?again = "awaitBootstrapStart ?W ''e1'' ''a1'' None (Some 900000000) 100000000"
  have h: "awaitBootstrapStart ?W ''e1'' ''a1'' None (Some 900000000) 90000000
             = (Inr (StartRefused StartExpired), 90000005, 1)"
    "map_get (rs_attempts (sw_history ?W 90000000)) ''a1'' \<noteq> None" "(90000005 :: int) \<le> 100000000"
    "\<not> isl (fst ?again)"
    by code_simp+
  then obtain x t n where again: "?again = (Inr x, t, n)" by (cases ?again; cases "fst ?again") auto
  from bootstrap_refusal_final [OF sample_chronicle h(2,1,3) again] again show ?thesis by blast
qed

section \<open>Promptness\<close>

text \<open>
  From \<open>from\<close> on the attempt may start, until \<open>until\<close>; before that it is at worst pending. The reads and
  timers of a request are prompt when they are late by less than the response margin taken together.
\<close>

definition startable :: "start_world \<Rightarrow> string \<Rightarrow> string \<Rightarrow> int \<Rightarrow> int \<Rightarrow> int \<Rightarrow> bool" where
  "startable W e i now from until \<longleftrightarrow>
     (\<forall>u t. now \<le> u \<longrightarrow> u \<le> t \<longrightarrow> t \<le> until \<longrightarrow>
        evaluateStart (readBootstrapStartState e i (sw_history W u)) t
          \<in> (if from \<le> u then {StartPermitted} else {StartPermitted, StartPending}))"

definition prompt :: "start_world \<Rightarrow> nat \<Rightarrow> nat \<Rightarrow> bool" where
  "prompt W latency lag \<longleftrightarrow>
     (\<forall>k. (\<exists>l. sw_latency W k = Some l \<and> l \<le> latency) \<and> sw_failure W k = None \<and> sw_lag W k \<le> lag)"

lemma observe_prompt:
  assumes st: "startable W e i now0 from (lim + int L)" and pr: "prompt W L J" and LJ: "L + J < 1000"
    and lim: "from + 100 + int L + int J \<le> lim" and lease: "from + int L \<le> lease"
    and u: "now0 \<le> u" "u \<le> lim" "u + int L < timer"
  shows "\<exists>t n. observe W e i None lease (lease + 1000) k timer u = (Inr StartPermitted, t, n) \<and> t \<le> lim + int L"
  using u
proof (induction "nat (lease - u)" arbitrary: k timer u rule: less_induct)
  case less
  let ?st = "readBootstrapStartState e i (sw_history W u)"
  obtain l where l: "sw_latency W k = Some l" "l \<le> L" "sw_failure W k = None" and lag: "sw_lag W k \<le> J"
    using pr by (auto simp: prompt_def)
  define s where "s = u + int l"
  have s: "u \<le> s" "s < timer" "s \<le> lim + int L" using l less.prems by (auto simp: s_def)
  have dec: "evaluateStart ?st s \<in> (if from \<le> u then {StartPermitted} else {StartPermitted, StartPending})"
    using st less.prems(1) s unfolding startable_def by blast
  have rd: "readUntilCancelled (sw_latency W k) (sw_failure W k) (StartTimedOut, timer) u = Inr s"
    using s by (simp add: readUntilCancelled_def l s_def)
  note o = observe.simps [of W e i None lease "lease + 1000" k timer u, unfolded Let_def arm_time start_constants]
  show ?case
  proof (cases "evaluateStart ?st s = StartPermitted")
    case True
    with s show ?thesis by (simp add: o merged_signal_def rd)
  next
    case False
    with dec have pend: "evaluateStart ?st s = StartPending" and early: "u < from" by (auto split: if_splits)
    then obtain x d where d: "?st = Some x" "bs_bootstrapDeadlineAt x = Some d" "s < d"
      by (auto simp: evaluateStart_def split: option.splits if_splits)
    have sl: "s < lease" using early l lease by (simp add: s_def)
    let ?timer = "max (s + 1) (min (lease + 1000) (d + 1000)) + int (sw_deadlineLag W (Suc k))"
    define w where "w = s + min 100 (min lease d - s) + int (sw_lag W k)"
    have w: "s < w" "w \<le> min lease d + int (sw_lag W k)" "w \<le> s + 100 + int (sw_lag W k)"
      using sl d(3) by (auto simp: w_def)
    have wt: "w + int L < ?timer" using w(2) lag LJ by auto
    have "waitForObservation (min 100 (min lease d - s)) (sw_lag W k) (StartTimedOut, ?timer) s = Inr w"
      using wt w(1) by (auto simp: waitForObservation_def w_def [symmetric] Let_def)
    then have "observe W e i None lease (lease + 1000) k timer u
        = observe W e i None lease (lease + 1000) (Suc k) ?timer w"
      using s pend d sl by (simp add: o merged_signal_def rd) (simp add: min_def split: if_splits)
    moreover have "\<exists>t n. observe W e i None lease (lease + 1000) (Suc k) ?timer w = (Inr StartPermitted, t, n)
        \<and> t \<le> lim + int L"
    proof (rule less.hyps)
      show "nat (lease - w) < nat (lease - u)" "now0 \<le> w" using w(1) s sl less.prems(1) by auto
      have "s \<le> from + int L" using early l by (simp add: s_def)
      then show "w \<le> lim" using w(3) lag lim by simp
    qed (rule wt)
    ultimately show ?thesis by simp
  qed
qed

text \<open>
  C29. An allocation is noticed within one poll interval: when the attempt may start from the instant \<open>from\<close> on
  and the lease of an uncancelled request reaches that far, the request is permitted at most 100
  milliseconds after it, plus the time two reads and one timer take; a read and a timer
  may together be late by less than the response margin of one second.\<close>

theorem bootstrap_permission_prompt:
  assumes st: "startable W e i now from (max now from + 100 + 2 * int L + int J)" and pr: "prompt W L J"
    and LJ: "L + J < 1000" and lease: "max now from + int L \<le> min (now + 30000) (d - 1000)"
  shows "\<exists>t n. awaitBootstrapStart W e i None (Some d) now = (Inr StartPermitted, t, n)
           \<and> t \<le> max now from + 100 + 2 * int L + int J"
proof -
  let ?lease = "min (now + 30000) (d - 1000)" and ?lim = "max now from + 100 + int L + int J"
  have req: "min d (?lease + 1000) = ?lease + 1000" by simp
  have st': "startable W e i now from (?lim + int L)" using st by (simp add: algebra_simps)
  have "\<exists>t n. observe W e i None ?lease (?lease + 1000) 0 (max (now + 1) (?lease + 1000) + int (sw_deadlineLag W 0)) now
          = (Inr StartPermitted, t, n) \<and> t \<le> ?lim + int L"
    by (rule observe_prompt [OF st' pr LJ]) (use lease in auto)
  then obtain t n where o: "observe W e i None ?lease (?lease + 1000) 0 (max (now + 1) (?lease + 1000) + int (sw_deadlineLag W 0)) now
          = (Inr StartPermitted, t, n)" and t: "t \<le> ?lim + int L" by blast
  then have "awaitBootstrapStart W e i None (Some d) now = (Inr StartPermitted, t, n)"
    by (simp only: awaitBootstrapStart_def Let_def arm_time start_constants option.case req if_False)
  then show ?thesis using t lease by (intro exI [of _ t] exI [of _ n]) auto
qed


text \<open>An allocation that becomes durable while a request is waiting.\<close>

definition sample_waiting_start :: start_world where
  "sample_waiting_start =
     \<lparr>sw_history = (\<lambda>t. if t < 2250 then sample_started else sample_allocated),
      sw_latency = (\<lambda>_. Some 5), sw_failure = (\<lambda>_. None), sw_lag = (\<lambda>_. 1), sw_deadlineLag = (\<lambda>_. 2)\<rparr>"

theorem bootstrap_permission_prompt_witness:
  "\<exists>t n. awaitBootstrapStart sample_waiting_start ''e1'' ''a1'' None (Some 9000) 2000 = (Inr StartPermitted, t, n)
           \<and> t \<le> 2361"
proof -
  let ?state = "\<lambda>x. Some \<lparr>bs_settled = False, bs_active = True, bs_allocated = x, bs_allocationTerminated = False,
                         bs_operationStartGate = GateOpen, bs_bootstrapDeadlineAt = Some 61000\<rparr>"
  have "readBootstrapStartState ''e1'' ''a1'' sample_started = ?state False"
    "readBootstrapStartState ''e1'' ''a1'' sample_allocated = ?state True"
    by code_simp+
  then have "startable sample_waiting_start ''e1'' ''a1'' 2000 2250 (max 2000 2250 + 100 + 2 * int 5 + int 1)"
    by (auto simp: startable_def sample_waiting_start_def evaluateStart_def)
  moreover have "prompt sample_waiting_start 5 1" by (simp add: prompt_def sample_waiting_start_def)
  ultimately show ?thesis using bootstrap_permission_prompt [of sample_waiting_start "''e1''" "''a1''" 2000 2250 5 1 9000] by simp
qed

end
