(* ===== verification/Workflow_State.thy ===== *)
theory Workflow_State
  imports Attempt_Handlers
begin

text \<open>
  The state of a workflow execution: JSON Patch documents between two values
  (\<open>workflow-state-json-patch.ts\<close>), the state table with its mutation log (\<open>storage/state-handler.ts\<close>,
  \<open>storage/schema.ts\<close>), the public handlers (\<open>workflow-executor-handlers.ts\<close>) and the context a step
  reads and updates state through (\<open>runtime/workflow-state-context.ts\<close>). A database transaction is one
  function from the tables to an error or a result and the new tables; an error rolls back. A JSON
  column holds the value that was written to it. Rows are only removed by the cascade from a deleted
  execution, which is not modelled, and sequences are taken to stay inside the \<open>int4\<close> column.
\<close>

section \<open>JSON Patch\<close>

datatype patch_operation =
    PatchAdd string js_value
  | PatchReplace string js_value
  | PatchTest string js_value
  | PatchRemove string
  | PatchMove string string
  | PatchCopy string string

definition pointer_ok :: "string \<Rightarrow> bool" where
  "pointer_ok path \<longleftrightarrow> path = [] \<or> hd path = CHR ''/''"

fun patch_operation_ok :: "patch_operation \<Rightarrow> bool" where
  "patch_operation_ok (PatchAdd path v) = (pointer_ok path \<and> json_data v)"
| "patch_operation_ok (PatchReplace path v) = (pointer_ok path \<and> json_data v)"
| "patch_operation_ok (PatchTest path v) = (pointer_ok path \<and> json_data v)"
| "patch_operation_ok (PatchRemove path) = pointer_ok path"
| "patch_operation_ok (PatchMove path src) = (pointer_ok path \<and> pointer_ok src)"
| "patch_operation_ok (PatchCopy path src) = (pointer_ok path \<and> pointer_ok src)"

definition replaceAll :: "char \<Rightarrow> string \<Rightarrow> string \<Rightarrow> string" where
  "replaceAll c r s = concat (map (\<lambda>x. if x = c then r else [x]) s)"

definition escapeJsonPointerSegment :: "string \<Rightarrow> string" where
  "escapeJsonPointerSegment segment = replaceAll (CHR ''/'') ''~1'' (replaceAll (CHR ''~'') ''~0'' segment)"

definition child_path :: "string \<Rightarrow> string \<Rightarrow> string" where
  "child_path path segment = path @ CHR ''/'' # segment"

text \<open>
  \<open>Object.is\<close> compares two primitives by value and is false for values of different kinds; two arrays
  and two objects are compared member by member before it is reached.
\<close>

definition jsonValuesEqual :: "js_value \<Rightarrow> js_value \<Rightarrow> bool" where
  "jsonValuesEqual left right \<longleftrightarrow> left = right"

definition patch_keys :: "(string \<times> js_value) list \<Rightarrow> (string \<times> js_value) list \<Rightarrow> string list" where
  "patch_keys before after = js_sort str_cmp (set_of_list (map fst before @ map fst after))"

lemma size_member: "map_of fs k = Some v \<Longrightarrow> size v < Suc (size_list (size_prod (\<lambda>_. 0) size) fs)"
  by (induction fs) (auto split: if_splits)

lemma size_element: "i < length vs \<Longrightarrow> size (vs ! i) < Suc (size_list size vs)"
  using size_list_estimation' [of "vs ! i" vs "size (vs ! i)" size] by simp

function appendJsonPatchOperations :: "string \<Rightarrow> js_value \<Rightarrow> js_value \<Rightarrow> patch_operation list" where
  "appendJsonPatchOperations path before after =
     (case (before, after) of
        (JArr bs, JArr as) \<Rightarrow>
          concat (map (\<lambda>i. appendJsonPatchOperations (child_path path (int_text (int i))) (bs ! i) (as ! i))
                    [0..<min (length bs) (length as)])
          @ map (\<lambda>i. PatchRemove (child_path path (int_text (int i)))) (rev [length as..<length bs])
          @ map (\<lambda>i. PatchAdd (child_path path (int_text (int i))) (as ! i)) [length bs..<length as]
      | (JObj bs, JObj as) \<Rightarrow>
          concat (map (\<lambda>key.
            let childPath = child_path path (escapeJsonPointerSegment key) in
            case (map_of bs key, map_of as key) of
              (None, Some a) \<Rightarrow> [PatchAdd childPath a]
            | (Some b, None) \<Rightarrow> [PatchRemove childPath]
            | (Some b, Some a) \<Rightarrow> appendJsonPatchOperations childPath b a
            | (None, None) \<Rightarrow> []) (patch_keys bs as))
      | _ \<Rightarrow> if jsonValuesEqual before after then [] else [PatchReplace path after])"
  by pat_completeness auto
termination
  by (relation "measure (\<lambda>(path, b, a). size b)") (auto intro: size_element size_member [OF sym])

declare appendJsonPatchOperations.simps [simp del]

definition createWorkflowStatePatch :: "js_value \<Rightarrow> js_value \<Rightarrow> patch_operation list" where
  "createWorkflowStatePatch before after = appendJsonPatchOperations [] before after"

section \<open>The tables\<close>

datatype state_error =
    ForeignKeyViolation
  | UniqueViolation
  | NoWorkflowState string
  | ExpectedSequenceRequired
  | SequenceConflict int int
  | StateUnauthorized string
  | StateSchemaViolation string
  | MalformedPatch
  | MutatorError string

record state_row =
  sr_sequence :: int
  sr_value :: js_value
  sr_updatedAt :: int

record state_event =
  se_patch :: "patch_operation list"
  se_value :: js_value
  se_createdAt :: int

record state_db =
  db_executions :: "string list"
  db_states :: "(string, state_row) js_map"
  db_events :: "(string \<times> int, state_event) js_map"

record patched_state =
  ps_executionId :: string
  ps_sequence :: int
  ps_patch :: "patch_operation list"
  ps_value :: js_value

definition insert_new :: "'k \<Rightarrow> 'v \<Rightarrow> ('k, 'v) js_map \<Rightarrow> ('k, 'v) js_map" where
  "insert_new k v m = (if map_get m k = None then map_set k v m else m)"

definition initializeWorkflowState ::
    "string \<Rightarrow> js_value \<Rightarrow> int \<Rightarrow> state_db \<Rightarrow> (state_error + unit) \<times> state_db" where
  "initializeWorkflowState executionId initialValue now db =
     (if executionId \<notin> set (db_executions db) then (Inl ForeignKeyViolation, db)
      else (Inr (),
        db\<lparr>db_states := insert_new executionId
             \<lparr>sr_sequence = 0, sr_value = initialValue, sr_updatedAt = now\<rparr> (db_states db),
           db_events := insert_new (executionId, 0)
             \<lparr>se_patch = [], se_value = initialValue, se_createdAt = now\<rparr> (db_events db)\<rparr>))"

definition getWorkflowState :: "string \<Rightarrow> state_db \<Rightarrow> (int \<times> js_value) option" where
  "getWorkflowState executionId db =
     map_option (\<lambda>row. (sr_sequence row, sr_value row)) (map_get (db_states db) executionId)"

definition patchWorkflowState ::
    "string \<Rightarrow> int option \<Rightarrow> js_value \<Rightarrow> int \<Rightarrow> state_db \<Rightarrow> (state_error + patched_state) \<times> state_db" where
  "patchWorkflowState executionId expectedSequence nextValue now db =
     (case map_get (db_states db) executionId of
        None \<Rightarrow> (Inl (NoWorkflowState executionId), db)
      | Some current \<Rightarrow>
          (case expectedSequence of
             None \<Rightarrow> (Inl ExpectedSequenceRequired, db)
           | Some expected \<Rightarrow>
               let nextSequence = sr_sequence current + 1;
                   persistedPatch = createWorkflowStatePatch (sr_value current) nextValue in
               if sr_sequence current \<noteq> expected
               then (Inl (SequenceConflict expected (sr_sequence current)), db)
               else if map_get (db_events db) (executionId, nextSequence) \<noteq> None
               then (Inl UniqueViolation, db)
               else (Inr \<lparr>ps_executionId = executionId, ps_sequence = nextSequence,
                          ps_patch = persistedPatch, ps_value = nextValue\<rparr>,
                     db\<lparr>db_states := map_set executionId
                          \<lparr>sr_sequence = nextSequence, sr_value = nextValue, sr_updatedAt = now\<rparr> (db_states db),
                        db_events := map_set (executionId, nextSequence)
                          \<lparr>se_patch = persistedPatch, se_value = nextValue, se_createdAt = now\<rparr>
                          (db_events db)\<rparr>)))"

section \<open>The public handlers and the state context\<close>

text \<open>
  \<open>check\<close> is the validation of a value against the schema of the execution's workflow snapshot (loaded
  from storage, checked by a JSON Schema validator): the message of a violation, if any. \<open>world k\<close> is what
  happens to the tables during the \<open>k\<close>-th await. The result of \<open>handleStatePatch\<close> is what the storage
  answers: the handler emits all of it as the \<open>state.updated\<close> event, fire and forget, and answers with
  the identifier, the sequence and the value.
\<close>

definition handleStateGet ::
    "call_context \<Rightarrow> string \<Rightarrow> state_db \<Rightarrow> state_error + int \<times> js_value" where
  "handleStateGet ctx executionId db =
     (if \<not> isExecutionBoundAccessAllowed ctx executionId then Inl (StateUnauthorized executionId)
      else (case getWorkflowState executionId db of
        None \<Rightarrow> Inl (NoWorkflowState executionId)
      | Some state \<Rightarrow> Inr state))"

definition handleStatePatch ::
    "(js_value \<Rightarrow> string option) \<Rightarrow> call_context \<Rightarrow> string \<Rightarrow> int option \<Rightarrow> patch_operation list \<Rightarrow> js_value \<Rightarrow> int
     \<Rightarrow> (state_db \<Rightarrow> state_db) \<Rightarrow> state_db \<Rightarrow> (state_error + patched_state) \<times> state_db" where
  "handleStatePatch check ctx executionId expectedSequence patch nextValue now world db =
     (if \<not> isExecutionBoundAccessAllowed ctx executionId then (Inl (StateUnauthorized executionId), db)
      else if expectedSequence = None then (Inl ExpectedSequenceRequired, db)
      else
        let db1 = world db in
        case check nextValue of
          Some message \<Rightarrow> (Inl (StateSchemaViolation message), db1)
        | None \<Rightarrow>
            if \<not> list_all patch_operation_ok patch then (Inl MalformedPatch, db1)
            else patchWorkflowState executionId expectedSequence nextValue now db1)"

definition update_state ::
    "(js_value \<Rightarrow> string option) \<Rightarrow> call_context \<Rightarrow> string \<Rightarrow> (js_value \<Rightarrow> string + js_value) \<Rightarrow> int
     \<Rightarrow> (nat \<Rightarrow> state_db \<Rightarrow> state_db) \<Rightarrow> state_db \<Rightarrow> (state_error + js_value) \<times> state_db" where
  "update_state check ctx executionId mutator now world db =
     (case handleStateGet ctx executionId db of
        Inl e \<Rightarrow> (Inl e, db)
      | Inr (sequence, current) \<Rightarrow>
          (case mutator current of
             Inl e \<Rightarrow> (Inl (MutatorError e), world 0 db)
           | Inr nextValue \<Rightarrow>
               (case handleStatePatch check ctx executionId (Some sequence)
                       (createWorkflowStatePatch current nextValue) nextValue now (world 1) (world 0 db) of
                  (Inl e, db1) \<Rightarrow> (Inl e, db1)
                | (Inr result, db1) \<Rightarrow> (Inr (ps_value result), db1))))"

end
