(* ===== verification/Workflow_State_Laws.thy ===== *)
theory Workflow_State_Laws
  imports Workflow_State
begin

text \<open>
  The reference semantics of JSON Patch (RFC 6902 with the pointers of RFC 6901) on JSON values, as
  laws of a lens that reads and writes the value a pointer names, and the proof that a generated patch
  leads from the first value to the second.
\<close>

section \<open>Pointers\<close>

fun unescape_segment :: "string \<Rightarrow> string" where
  "unescape_segment (c # d # s) =
     (if c = CHR ''~'' \<and> d = CHR ''0'' then CHR ''~'' # unescape_segment s
      else if c = CHR ''~'' \<and> d = CHR ''1'' then CHR ''/'' # unescape_segment s
      else c # unescape_segment (d # s))"
| "unescape_segment s = s"

fun split_slash :: "string \<Rightarrow> string list" where
  "split_slash [] = [[]]"
| "split_slash (c # s) =
     (if c = CHR ''/'' then [] # split_slash s
      else (case split_slash s of [] \<Rightarrow> [[c]] | x # xs \<Rightarrow> (c # x) # xs))"

fun parse_pointer :: "string \<Rightarrow> string list option" where
  "parse_pointer [] = Some []"
| "parse_pointer (c # s) = (if c = CHR ''/'' then Some (map unescape_segment (split_slash s)) else None)"

definition pointer :: "string list \<Rightarrow> string" where
  "pointer segs = concat (map (\<lambda>s. CHR ''/'' # escapeJsonPointerSegment s) segs)"

definition escaped :: "char \<Rightarrow> string" where
  "escaped c = (if c = CHR ''~'' then ''~0'' else if c = CHR ''/'' then ''~1'' else [c])"

lemma escape_chars: "escapeJsonPointerSegment s = concat (map escaped s)"
  by (induction s) (auto simp: escapeJsonPointerSegment_def replaceAll_def escaped_def)

lemma unescape_plain: "c \<noteq> CHR ''~'' \<Longrightarrow> unescape_segment (c # s) = c # unescape_segment s"
  by (cases s) auto

lemma unescape_escape_segment: "unescape_segment (escapeJsonPointerSegment s) = s"
  unfolding escape_chars
proof (induction s)
  case (Cons c s)
  consider "c = CHR ''~''" | "c = CHR ''/''" | "c \<noteq> CHR ''~''" "c \<noteq> CHR ''/''" by blast
  then show ?case
    using Cons by cases (simp_all add: escaped_def unescape_plain)
qed simp

lemma escape_no_slash: "CHR ''/'' \<notin> set (escapeJsonPointerSegment s)"
  unfolding escape_chars by (auto simp: escaped_def)

lemma split_slash_nonempty: "split_slash s \<noteq> []"
  by (cases s) (auto split: list.splits)

lemma split_slash_segment:
  "CHR ''/'' \<notin> set x \<Longrightarrow> split_slash (x @ CHR ''/'' # y) = x # split_slash y"
  "CHR ''/'' \<notin> set x \<Longrightarrow> split_slash x = [x]"
  by (induction x) auto

lemma parse_pointer_pointer [simp]: "parse_pointer (pointer segs) = Some segs"
proof (induction segs)
  case (Cons s segs)
  show ?case
  proof (cases segs)
    case Nil
    then show ?thesis
      by (simp add: pointer_def split_slash_segment(2) escape_no_slash unescape_escape_segment)
  next
    case (Cons t ts)
    with \<open>parse_pointer (pointer segs) = Some segs\<close> show ?thesis
      by (simp add: pointer_def split_slash_segment(1) escape_no_slash unescape_escape_segment)
  qed
qed (simp add: pointer_def)

lemma child_path_key: "child_path (pointer segs) (escapeJsonPointerSegment k) = pointer (segs @ [k])"
  by (simp add: child_path_def pointer_def)

lemma unescaped_text: "\<forall>c \<in> set s. escaped c = [c] \<Longrightarrow> concat (map escaped s) = s"
  by (induction s) auto

lemma escape_index: "escapeJsonPointerSegment (int_text (int i)) = int_text (int i)"
proof -
  have "\<forall>c \<in> set (int_text (int i)). escaped c = [c]"
    using nat_text_digits [of "int i"] by (auto simp: int_text_def escaped_def is_digit_def)
  then show ?thesis by (simp add: escape_chars unescaped_text)
qed

lemma child_path_index: "child_path (pointer segs) (int_text (int i)) = pointer (segs @ [int_text (int i)])"
  using child_path_key [of segs "int_text (int i)"] by (simp add: escape_index)

section \<open>Reading and writing at a pointer\<close>

definition segment_index :: "nat \<Rightarrow> string \<Rightarrow> nat option" where
  "segment_index n s = find (\<lambda>i. int_text (int i) = s) [0..<n]"

fun child :: "js_value \<Rightarrow> string \<Rightarrow> js_value option" where
  "child (JObj fs) s = map_of fs s"
| "child (JArr vs) s = map_option ((!) vs) (segment_index (length vs) s)"
| "child _ s = None"

fun put_child :: "js_value \<Rightarrow> string \<Rightarrow> js_value \<Rightarrow> js_value" where
  "put_child (JObj fs) s x = JObj (map_set s x fs)"
| "put_child (JArr vs) s x =
     (case segment_index (length vs) s of None \<Rightarrow> JArr vs | Some i \<Rightarrow> JArr (vs[i := x]))"
| "put_child v s x = v"

fun value_at :: "string list \<Rightarrow> js_value \<Rightarrow> js_value option" where
  "value_at [] v = Some v"
| "value_at (s # segs) v = Option.bind (child v s) (value_at segs)"

fun put_at :: "string list \<Rightarrow> js_value \<Rightarrow> js_value \<Rightarrow> js_value" where
  "put_at [] x v = x"
| "put_at (s # segs) x v =
     (case child v s of None \<Rightarrow> v | Some w \<Rightarrow> put_child v s (put_at segs x w))"

lemma segment_index_text: "segment_index n (int_text (int i)) = (if i < n then Some i else None)"
proof (cases "i < n")
  case True
  then show ?thesis by (simp add: segment_index_def find_Some_iff, intro exI [of _ i]) simp
qed (auto simp: segment_index_def find_None_iff)

lemma segment_index_bound: "segment_index n s = Some i \<Longrightarrow> i < n"
  by (auto simp: segment_index_def find_Some_iff)

lemma child_put: "child v s = Some w \<Longrightarrow> child (put_child v s x) s = Some x"
  using segment_index_bound by (cases v) (auto simp: map_of_map_set)

lemma map_set_set: "map_set k x (map_set k y m) = map_set k x m"
  by (induction k y m rule: map_set.induct) auto

lemma put_child_put: "child v s = Some w \<Longrightarrow> put_child (put_child v s x) s y = put_child v s y"
  by (cases v) (auto simp: map_set_set)

lemma map_set_same: "map_of m k = Some x \<Longrightarrow> map_set k x m = m"
  by (induction m) auto

lemma put_child_same: "child v s = Some w \<Longrightarrow> put_child v s w = v"
  by (cases v) (auto simp: map_set_same)

lemma value_put: "value_at segs v = Some w \<Longrightarrow> value_at segs (put_at segs x v) = Some x"
  by (induction segs arbitrary: v) (auto simp: bind_eq_Some_conv child_put)

lemma put_put: "value_at segs v = Some w \<Longrightarrow> put_at segs y (put_at segs x v) = put_at segs y v"
  by (induction segs arbitrary: v) (auto simp: bind_eq_Some_conv child_put put_child_put)

lemma put_same: "value_at segs v = Some w \<Longrightarrow> put_at segs w v = v"
  by (induction segs arbitrary: v) (auto simp: bind_eq_Some_conv put_child_same)

lemma value_at_append: "value_at (segs @ rest) v = Option.bind (value_at segs v) (value_at rest)"
proof (induction segs arbitrary: v)
  case (Cons s segs)
  then show ?case by (cases "child v s") auto
qed simp

lemma put_at_append:
  "value_at segs v = Some w \<Longrightarrow> put_at (segs @ rest) x v = put_at segs (put_at rest x w) v"
  by (induction segs arbitrary: v) (auto simp: bind_eq_Some_conv)

section \<open>Applying a patch\<close>

fun add_member :: "string \<Rightarrow> js_value \<Rightarrow> js_value \<Rightarrow> js_value option" where
  "add_member s x (JObj fs) = Some (JObj (map_set s x fs))"
| "add_member s x (JArr vs) =
     (if s = ''-'' then Some (JArr (vs @ [x]))
      else map_option (\<lambda>i. JArr (take i vs @ x # drop i vs)) (segment_index (Suc (length vs)) s))"
| "add_member s x _ = None"

fun remove_member :: "string \<Rightarrow> js_value \<Rightarrow> js_value option" where
  "remove_member s (JObj fs) = (if map_of fs s = None then None else Some (JObj (map_delete s fs)))"
| "remove_member s (JArr vs) =
     map_option (\<lambda>i. JArr (take i vs @ drop (Suc i) vs)) (segment_index (length vs) s)"
| "remove_member s _ = None"

definition change_parent :: "string list \<Rightarrow> (string \<Rightarrow> js_value \<Rightarrow> js_value option) \<Rightarrow> js_value \<Rightarrow> js_value option" where
  "change_parent segs f v =
     Option.bind (value_at (butlast segs) v)
       (\<lambda>p. map_option (\<lambda>p'. put_at (butlast segs) p' v) (f (last segs) p))"

definition add_at :: "string list \<Rightarrow> js_value \<Rightarrow> js_value \<Rightarrow> js_value option" where
  "add_at segs x v = (if segs = [] then Some x else change_parent segs (\<lambda>s. add_member s x) v)"

definition remove_at :: "string list \<Rightarrow> js_value \<Rightarrow> js_value option" where
  "remove_at segs v = (if segs = [] then None else change_parent segs remove_member v)"

fun apply_operation :: "patch_operation \<Rightarrow> js_value \<Rightarrow> js_value option" where
  "apply_operation (PatchAdd path x) v = Option.bind (parse_pointer path) (\<lambda>segs. add_at segs x v)"
| "apply_operation (PatchReplace path x) v =
     Option.bind (parse_pointer path) (\<lambda>segs. if value_at segs v = None then None else Some (put_at segs x v))"
| "apply_operation (PatchTest path x) v =
     Option.bind (parse_pointer path) (\<lambda>segs. Option.bind (value_at segs v)
       (\<lambda>w. if json_same w x then Some v else None))"
| "apply_operation (PatchRemove path) v = Option.bind (parse_pointer path) (\<lambda>segs. remove_at segs v)"
| "apply_operation (PatchMove path src) v =
     Option.bind (parse_pointer src) (\<lambda>from. Option.bind (value_at from v) (\<lambda>x.
       Option.bind (remove_at from v) (\<lambda>v'. Option.bind (parse_pointer path) (\<lambda>segs. add_at segs x v'))))"
| "apply_operation (PatchCopy path src) v =
     Option.bind (parse_pointer src) (\<lambda>from. Option.bind (value_at from v) (\<lambda>x.
       Option.bind (parse_pointer path) (\<lambda>segs. add_at segs x v)))"

fun apply_patch :: "patch_operation list \<Rightarrow> js_value \<Rightarrow> js_value option" where
  "apply_patch [] v = Some v"
| "apply_patch (p # ps) v = Option.bind (apply_operation p v) (apply_patch ps)"

lemma apply_patch_append: "apply_patch (ps @ qs) v = Option.bind (apply_patch ps v) (apply_patch qs)"
proof (induction ps arbitrary: v)
  case (Cons p ps)
  then show ?case by (cases "apply_operation p v") auto
qed simp

section \<open>Generated patches\<close>

text \<open>
  At a place that holds \<open>b\<close>, the operations generated for \<open>b\<close> and \<open>a\<close> put a value there that is the
  same as \<open>a\<close>, whatever document the place is in.
\<close>

definition leads_to :: "js_value \<Rightarrow> js_value \<Rightarrow> bool" where
  "leads_to b a \<longleftrightarrow>
     (\<forall>segs doc. value_at segs doc = Some b \<longrightarrow>
        (\<exists>v. json_same v a
           \<and> apply_patch (appendJsonPatchOperations (pointer segs) b a) doc = Some (put_at segs v doc)))"

lemma json_same_refl: "json_data v \<Longrightarrow> json_same v v"
  using canon_eq_iff by blast

lemma leads_replace:
  assumes "json_data a" and "\<And>p. appendJsonPatchOperations p b a = (if b = a then [] else [PatchReplace p a])"
  shows "leads_to b a"
  unfolding leads_to_def using assms json_same_refl [OF assms(1)]
  by (intro allI impI exI [of _ a]) (auto simp: put_same)

lemma apply_add_member:
  assumes "value_at segs doc = Some p" "add_member s x p = Some p'"
  shows "apply_operation (PatchAdd (pointer (segs @ [s])) x) doc = Some (put_at segs p' doc)"
  using assms by (simp add: add_at_def change_parent_def)

lemma apply_remove_member:
  assumes "value_at segs doc = Some p" "remove_member s p = Some p'"
  shows "apply_operation (PatchRemove (pointer (segs @ [s]))) doc = Some (put_at segs p' doc)"
  using assms by (simp add: remove_at_def change_parent_def)

lemma leads_child:
  assumes l: "leads_to b a" and v: "value_at segs doc = Some p" and c: "child p s = Some b"
  obtains x where "json_same x a"
    "apply_patch (appendJsonPatchOperations (pointer (segs @ [s])) b a) doc = Some (put_at segs (put_child p s x) doc)"
proof -
  have "value_at (segs @ [s]) doc = Some b" using v c by (simp add: value_at_append)
  with l obtain x where "json_same x a"
    "apply_patch (appendJsonPatchOperations (pointer (segs @ [s])) b a) doc = Some (put_at (segs @ [s]) x doc)"
    unfolding leads_to_def by blast
  then show ?thesis using that [of x] put_at_append [OF v, of "[s]" x] c by simp
qed

subsection \<open>Objects\<close>

definition key_operations :: "string \<Rightarrow> (string \<times> js_value) list \<Rightarrow> (string \<times> js_value) list \<Rightarrow> string
    \<Rightarrow> patch_operation list" where
  "key_operations path bs as key =
     (let childPath = child_path path (escapeJsonPointerSegment key) in
      case (map_of bs key, map_of as key) of
        (None, Some a) \<Rightarrow> [PatchAdd childPath a]
      | (Some b, None) \<Rightarrow> [PatchRemove childPath]
      | (Some b, Some a) \<Rightarrow> appendJsonPatchOperations childPath b a
      | (None, None) \<Rightarrow> [])"

definition same_member :: "js_value option \<Rightarrow> js_value option \<Rightarrow> bool" where
  "same_member x y \<longleftrightarrow> rel_option json_same x y"

lemma key_step:
  assumes l: "\<And>b a. map_of bs k = Some b \<Longrightarrow> map_of as k = Some a \<Longrightarrow> leads_to b a"
    and as: "\<And>a. map_of as k = Some a \<Longrightarrow> json_data a"
    and v: "value_at segs doc = Some (JObj hs)" and hs: "map_wf hs" "map_of hs k = map_of bs k"
  obtains hs' where "map_wf hs'" "same_member (map_of hs' k) (map_of as k)" "\<And>j. j \<noteq> k \<Longrightarrow> map_of hs' j = map_of hs j"
    "apply_patch (key_operations (pointer segs) bs as k) doc = Some (put_at segs (JObj hs') doc)"
proof (cases "map_of bs k")
  case None
  show ?thesis
  proof (cases "map_of as k")
    case (Some a)
    with None as [OF Some] show ?thesis
      by (intro that [of "map_set k a hs"])
         (simp_all add: hs map_set_wf map_of_map_set same_member_def json_same_refl key_operations_def
            child_path_key apply_add_member [OF v] del: apply_operation.simps)
  next
    case none: None
    show ?thesis
      by (rule that [of hs]) (simp_all add: None none hs same_member_def key_operations_def put_same [OF v])
  qed
next
  case (Some b)
  show ?thesis
  proof (cases "map_of as k")
    case None
    with Some hs show ?thesis
      by (intro that [of "map_delete k hs"])
         (simp_all add: jm.wf_del map_of_map_delete same_member_def key_operations_def
            child_path_key apply_remove_member [OF v] del: apply_operation.simps)
  next
    case a: (Some a)
    obtain x where "json_same x a"
      "apply_patch (appendJsonPatchOperations (pointer (segs @ [k])) b a) doc = Some (put_at segs (put_child (JObj hs) k x) doc)"
      by (rule leads_child [OF l [OF Some a] v, of k]) (simp_all add: hs Some)
    with Some a hs show ?thesis
      by (intro that [of "map_set k x hs"])
         (simp_all add: map_set_wf map_of_map_set same_member_def key_operations_def child_path_key)
  qed
qed

lemma key_steps:
  assumes l: "\<And>k b a. map_of bs k = Some b \<Longrightarrow> map_of as k = Some a \<Longrightarrow> leads_to b a"
    and as: "\<And>k a. map_of as k = Some a \<Longrightarrow> json_data a"
    and ks: "distinct ks" and v: "value_at segs doc = Some (JObj hs)" and hs: "map_wf hs"
      "\<And>k. k \<in> set ks \<Longrightarrow> map_of hs k = map_of bs k"
  shows "\<exists>hs'. map_wf hs' \<and> (\<forall>k \<in> set ks. same_member (map_of hs' k) (map_of as k))
           \<and> (\<forall>k. k \<notin> set ks \<longrightarrow> map_of hs' k = map_of hs k)
           \<and> apply_patch (concat (map (key_operations (pointer segs) bs as) ks)) doc = Some (put_at segs (JObj hs') doc)"
  using ks v hs
proof (induction ks arbitrary: doc hs)
  case Nil
  then show ?case by (intro exI [of _ hs]) (simp add: put_same)
next
  case (Cons k ks)
  obtain h1 where h1: "map_wf h1" "same_member (map_of h1 k) (map_of as k)" "\<And>j. j \<noteq> k \<Longrightarrow> map_of h1 j = map_of hs j"
    "apply_patch (key_operations (pointer segs) bs as k) doc = Some (put_at segs (JObj h1) doc)"
    by (rule key_step [of bs k as segs doc hs]) (use Cons.prems l as in auto)
  let ?doc = "put_at segs (JObj h1) doc"
  have "\<exists>hs'. map_wf hs' \<and> (\<forall>k \<in> set ks. same_member (map_of hs' k) (map_of as k))
          \<and> (\<forall>k. k \<notin> set ks \<longrightarrow> map_of hs' k = map_of h1 k)
          \<and> apply_patch (concat (map (key_operations (pointer segs) bs as) ks)) ?doc = Some (put_at segs (JObj hs') ?doc)"
  proof (rule Cons.IH)
    show "distinct ks" "value_at segs ?doc = Some (JObj h1)" using Cons.prems by (simp_all add: value_put)
    show "map_of h1 j = map_of bs j" if "j \<in> set ks" for j
    proof -
      have "j \<noteq> k" using Cons.prems(1) that by auto
      then show ?thesis using h1(3) [of j] Cons.prems(4) [of j] that by simp
    qed
  qed (rule h1(1))
  then obtain h2 where h2: "map_wf h2" "\<forall>k \<in> set ks. same_member (map_of h2 k) (map_of as k)"
    "\<forall>k. k \<notin> set ks \<longrightarrow> map_of h2 k = map_of h1 k"
    "apply_patch (concat (map (key_operations (pointer segs) bs as) ks)) ?doc = Some (put_at segs (JObj h2) ?doc)"
    by blast
  show ?case
    using Cons.prems h1 h2 by (intro exI [of _ h2]) (auto simp: apply_patch_append put_put [OF Cons.prems(2)])
qed

lemma json_same_members:
  assumes "map_wf hs" "map_wf as" "\<And>k. same_member (map_of hs k) (map_of as k)"
  shows "json_same (JObj hs) (JObj as)"
proof -
  have "fst ` set hs = fst ` set as"
    using assms(3) by (metis map_of_eq_None_iff option.rel_distinct(1,2) same_member_def set_eqI option.exhaust)
  then have "length hs = length as"
    using assms(1,2) by (metis distinct_card length_map list.set_map map_wf_def)
  moreover have "case map_of as k of None \<Rightarrow> False | Some u \<Rightarrow> json_same x u" if "(k, x) \<in> set hs" for k x
    using assms(3) [of k] that assms(1) by (cases "map_of as k") (auto simp: same_member_def map_wf_def)
  ultimately show ?thesis by auto
qed

lemma leads_object:
  assumes l: "\<And>k b a. map_of bs k = Some b \<Longrightarrow> map_of as k = Some a \<Longrightarrow> leads_to b a"
    and d: "json_data (JObj bs)" "json_data (JObj as)"
  shows "leads_to (JObj bs) (JObj as)"
  unfolding leads_to_def
proof (intro allI impI)
  fix segs doc
  assume v: "value_at segs doc = Some (JObj bs)"
  have ops: "appendJsonPatchOperations (pointer segs) (JObj bs) (JObj as)
      = concat (map (key_operations (pointer segs) bs as) (patch_keys bs as))"
    by (simp add: appendJsonPatchOperations.simps [of _ "JObj bs"] key_operations_def [abs_def])
  have wf: "map_wf bs" "map_wf as" using d by (simp_all add: map_wf_def)
  have "distinct (patch_keys bs as)"
    unfolding patch_keys_def by (metis distinct_set_of_list mset_js_sort mset_eq_imp_distinct_iff)
  then have "\<exists>hs. map_wf hs \<and> (\<forall>k \<in> set (patch_keys bs as). same_member (map_of hs k) (map_of as k))
      \<and> (\<forall>k. k \<notin> set (patch_keys bs as) \<longrightarrow> map_of hs k = map_of bs k)
      \<and> apply_patch (concat (map (key_operations (pointer segs) bs as) (patch_keys bs as))) doc
         = Some (put_at segs (JObj hs) doc)"
    using d by (intro key_steps l v wf) (auto dest: map_of_SomeD)
  then obtain hs where hs: "map_wf hs"
    "\<forall>k \<in> set (patch_keys bs as). same_member (map_of hs k) (map_of as k)"
    "\<forall>k. k \<notin> set (patch_keys bs as) \<longrightarrow> map_of hs k = map_of bs k"
    "apply_patch (appendJsonPatchOperations (pointer segs) (JObj bs) (JObj as)) doc = Some (put_at segs (JObj hs) doc)"
    unfolding ops by blast
  have "same_member (map_of hs k) (map_of as k)" for k
  proof (cases "k \<in> set (patch_keys bs as)")
    case False
    then have "map_of bs k = None" "map_of as k = None"
      by (auto simp: patch_keys_def map_of_eq_None_iff)
    with hs(3) False show ?thesis by (simp add: same_member_def)
  qed (use hs(2) in simp)
  from json_same_members [OF hs(1) wf(2) this] hs(4)
  show "\<exists>v. json_same v (JObj as)
     \<and> apply_patch (appendJsonPatchOperations (pointer segs) (JObj bs) (JObj as)) doc = Some (put_at segs v doc)"
    by blast
qed

subsection \<open>Arrays\<close>

lemma element_steps:
  assumes l: "\<And>i. m \<le> i \<Longrightarrow> i < n \<Longrightarrow> leads_to (bs ! i) (as ! i)" and n: "n \<le> length hs"
    and v: "value_at segs doc = Some (JArr hs)" and hs: "\<And>i. m \<le> i \<Longrightarrow> i < n \<Longrightarrow> hs ! i = bs ! i"
  shows "\<exists>hs'. length hs' = length hs \<and> (\<forall>i. m \<le> i \<longrightarrow> i < n \<longrightarrow> json_same (hs' ! i) (as ! i))
           \<and> (\<forall>i < m. hs' ! i = hs ! i) \<and> drop n hs' = drop n hs
           \<and> apply_patch (concat (map (\<lambda>i. appendJsonPatchOperations (child_path (pointer segs) (int_text (int i)))
                (bs ! i) (as ! i)) [m..<n])) doc = Some (put_at segs (JArr hs') doc)"
  using assms
proof (induction "n - m" arbitrary: m hs doc)
  case 0
  then show ?case by (intro exI [of _ hs]) (simp add: put_same)
next
  case (Suc d)
  then have mn: "m < n" by simp
  obtain x where x: "json_same x (as ! m)"
    "apply_patch (appendJsonPatchOperations (pointer (segs @ [int_text (int m)])) (bs ! m) (as ! m)) doc
       = Some (put_at segs (put_child (JArr hs) (int_text (int m)) x) doc)"
    by (rule leads_child [OF Suc.prems(1) [of m] Suc.prems(3), of "int_text (int m)"])
       (use mn Suc.prems in \<open>simp_all add: segment_index_text\<close>)
  let ?h = "hs[m := x]"
  let ?doc = "put_at segs (JArr ?h) doc"
  have step: "apply_patch (appendJsonPatchOperations (child_path (pointer segs) (int_text (int m))) (bs ! m) (as ! m)) doc
      = Some ?doc"
    using x(2) mn Suc.prems(2) by (simp add: child_path_index segment_index_text)
  have "\<exists>hs'. length hs' = length ?h \<and> (\<forall>i. Suc m \<le> i \<longrightarrow> i < n \<longrightarrow> json_same (hs' ! i) (as ! i))
           \<and> (\<forall>i < Suc m. hs' ! i = ?h ! i) \<and> drop n hs' = drop n ?h
           \<and> apply_patch (concat (map (\<lambda>i. appendJsonPatchOperations (child_path (pointer segs) (int_text (int i)))
                (bs ! i) (as ! i)) [Suc m..<n])) ?doc = Some (put_at segs (JArr hs') ?doc)"
    by (rule Suc.hyps(1)) (use Suc mn in \<open>auto simp: value_put\<close>)
  then obtain h' where h': "length h' = length hs" "\<forall>i. Suc m \<le> i \<longrightarrow> i < n \<longrightarrow> json_same (h' ! i) (as ! i)"
    "\<forall>i < Suc m. h' ! i = ?h ! i" "drop n h' = drop n ?h"
    "apply_patch (concat (map (\<lambda>i. appendJsonPatchOperations (child_path (pointer segs) (int_text (int i)))
                (bs ! i) (as ! i)) [Suc m..<n])) ?doc = Some (put_at segs (JArr h') ?doc)"
    by auto
  have same: "json_same (h' ! i) (as ! i)" if "m \<le> i" "i < n" for i
    using that x(1) h'(2,3) mn Suc.prems(2) by (cases "i = m") (auto simp: Suc_le_eq)
  show ?case
    using h' same mn step
    by (intro exI [of _ h']) (auto simp: upt_conv_Cons apply_patch_append put_put [OF Suc.prems(3)])
qed

lemma removal_steps:
  assumes "value_at segs doc = Some (JArr hs)" "n \<le> length hs"
  shows "apply_patch (map (\<lambda>i. PatchRemove (child_path (pointer segs) (int_text (int i)))) (rev [n..<length hs])) doc
         = Some (put_at segs (JArr (take n hs)) doc)"
  using assms
proof (induction "length hs - n" arbitrary: hs doc)
  case 0
  then show ?case by (simp add: put_same)
next
  case (Suc d)
  have "length hs = Suc (n + d)" using Suc.hyps(2) Suc.prems(2) by linarith
  then obtain k where m: "n \<le> k" "length hs = Suc k" using le_add1 by blast
  let ?m = k
  have "remove_member (int_text (int ?m)) (JArr hs) = Some (JArr (take ?m hs))"
    using m by (simp add: segment_index_text)
  note r = apply_remove_member [OF Suc.prems(1) this]
  let ?doc = "put_at segs (JArr (take ?m hs)) doc"
  have "apply_patch (map (\<lambda>i. PatchRemove (child_path (pointer segs) (int_text (int i)))) (rev [n..<length (take ?m hs)])) ?doc
      = Some (put_at segs (JArr (take n (take ?m hs))) ?doc)"
    by (rule Suc.hyps(1)) (use Suc m in \<open>auto simp: value_put\<close>)
  moreover have "rev [n..<length hs] = ?m # rev [n..<?m]" using m by (metis rev.simps(2) rev_rev_ident upt_Suc_append rev_append append_Cons append_Nil rev_singleton_conv)
  ultimately show ?case
    using m r by (simp add: child_path_index put_put [OF Suc.prems(1)] min_def del: apply_operation.simps)
qed

lemma addition_steps:
  assumes "value_at segs doc = Some (JArr hs)" "length hs \<le> length as"
  shows "apply_patch (map (\<lambda>i. PatchAdd (child_path (pointer segs) (int_text (int i))) (as ! i)) [length hs..<length as]) doc
         = Some (put_at segs (JArr (hs @ drop (length hs) as)) doc)"
  using assms
proof (induction "length as - length hs" arbitrary: hs doc)
  case 0
  then show ?case by (simp add: put_same)
next
  case (Suc d)
  let ?m = "length hs" and ?h = "hs @ [as ! length hs]"
  have m: "?m < length as" using Suc by simp
  have "int_text (int ?m) \<noteq> ''-''"
    using nat_text_digits [of "int ?m"] by (auto simp: int_text_def is_digit_def)
  then have "add_member (int_text (int ?m)) (as ! ?m) (JArr hs) = Some (JArr ?h)"
    by (simp add: segment_index_text)
  note r = apply_add_member [OF Suc.prems(1) this]
  let ?doc = "put_at segs (JArr ?h) doc"
  have "apply_patch (map (\<lambda>i. PatchAdd (child_path (pointer segs) (int_text (int i))) (as ! i)) [length ?h..<length as]) ?doc
      = Some (put_at segs (JArr (?h @ drop (length ?h) as)) ?doc)"
    by (rule Suc.hyps(1)) (use Suc m in \<open>auto simp: value_put\<close>)
  then show ?case
    using m r by (simp add: upt_conv_Cons child_path_index put_put [OF Suc.prems(1)] Cons_nth_drop_Suc
        del: apply_operation.simps)
qed

lemma leads_array:
  assumes l: "\<And>i. i < min (length bs) (length as) \<Longrightarrow> leads_to (bs ! i) (as ! i)" and d: "json_data (JArr as)"
  shows "leads_to (JArr bs) (JArr as)"
  unfolding leads_to_def
proof (intro allI impI)
  fix segs doc
  assume v: "value_at segs doc = Some (JArr bs)"
  let ?n = "min (length bs) (length as)"
  obtain hs where hs: "length hs = length bs" "\<forall>i < ?n. json_same (hs ! i) (as ! i)"
    "apply_patch (concat (map (\<lambda>i. appendJsonPatchOperations (child_path (pointer segs) (int_text (int i)))
                (bs ! i) (as ! i)) [0..<?n])) doc = Some (put_at segs (JArr hs) doc)"
    using element_steps [of 0 ?n bs as bs segs doc] l v by auto
  let ?doc = "put_at segs (JArr hs) doc"
  have v1: "value_at segs ?doc = Some (JArr hs)" using v by (rule value_put)
  let ?ops = "appendJsonPatchOperations (pointer segs) (JArr bs) (JArr as)"
  have "\<exists>vs. json_same (JArr vs) (JArr as) \<and> apply_patch ?ops doc = Some (put_at segs (JArr vs) doc)"
  proof (cases "length as \<le> length bs")
    case True
    then have "apply_patch ?ops doc = Some (put_at segs (JArr (take (length as) hs)) doc)"
      using removal_steps [OF v1, of "length as"] hs
      by (simp add: appendJsonPatchOperations.simps [of _ "JArr bs"] apply_patch_append put_put [OF v] min_def)
    moreover have "json_same (JArr (take (length as) hs)) (JArr as)"
      using hs True by (auto simp: list_all2_conv_all_nth min_def)
    ultimately show ?thesis by blast
  next
    case False
    then have "apply_patch ?ops doc = Some (put_at segs (JArr (hs @ drop (length bs) as)) doc)"
      using addition_steps [OF v1, of as] hs
      by (simp add: appendJsonPatchOperations.simps [of _ "JArr bs"] apply_patch_append put_put [OF v] min_def)
    moreover have "json_same (JArr (hs @ drop (length bs) as)) (JArr as)"
      using hs False d by (auto simp: list_all2_conv_all_nth nth_append min_def intro!: json_same_refl)
    ultimately show ?thesis by blast
  qed
  then show "\<exists>w. json_same w (JArr as) \<and> apply_patch ?ops doc = Some (put_at segs w doc)" by blast
qed

lemma patch_leads_to: "json_data b \<Longrightarrow> json_data a \<Longrightarrow> leads_to b a"
proof (induction b arbitrary: a rule: measure_induct_rule [of size])
  case (less b)
  show ?case
  proof (cases "(\<exists>bs as. b = JArr bs \<and> a = JArr as) \<or> (\<exists>bs as. b = JObj bs \<and> a = JObj as)")
    case False
    then show ?thesis
      using less.prems
      by (intro leads_replace)
         (auto simp: appendJsonPatchOperations.simps [of _ b a] jsonValuesEqual_def split: js_value.splits)
  next
    case True
    then show ?thesis
    proof (elim disjE exE conjE)
      fix bs as
      assume e: "b = JArr bs" "a = JArr as"
      show ?thesis unfolding e
        by (rule leads_array) (use less e in \<open>auto intro!: less.IH intro: size_element\<close>)
    next
      fix bs as
      assume e: "b = JObj bs" "a = JObj as"
      show ?thesis unfolding e
      proof (rule leads_object)
        fix k v w
        assume k: "map_of bs k = Some v" "map_of as k = Some w"
        then show "leads_to v w"
          using less.prems e size_member [OF k(1)] by (intro less.IH) (auto dest!: map_of_SomeD)
      qed (use less.prems e in simp_all)
    qed
  qed
qed

end
