(* ===== verification/Workflow_State_Properties.thy ===== *)
theory Workflow_State_Properties
  imports Workflow_State_Laws Attempt_Laws
begin

text \<open>
  What the state of an execution promises: a patch leads from the stored value to the accepted one, the
  mutation log is complete and replays to the snapshot, and an update is computed from the very value it
  replaces.
\<close>

section \<open>The round trip of a patch\<close>

text \<open>
  C23. A generated patch is the difference of two values: applied to the first value by the rules of JSON
  Patch, every operation of it succeeds and the result is the second value (object members compared by
  key), for any two JSON values, whatever characters the keys contain.\<close>

theorem state_patch_roundtrip:
  assumes "json_data before" "json_data after"
  shows "\<exists>v. apply_patch (createWorkflowStatePatch before after) before = Some v \<and> json_same v after"
  using patch_leads_to [OF assms] unfolding leads_to_def createWorkflowStatePatch_def
  by (metis pointer_def concat.simps(1) list.map(1) put_at.simps(1) value_at.simps(1))

theorem state_patch_roundtrip_witness:
  "\<exists>v. apply_patch (createWorkflowStatePatch (JObj [(''a/b'', JArr [JNum 1, JNull]), (''x'', JNum 0)])
                                            (JObj [(''n~'', JBool True), (''a/b'', JArr [JNum 2])]))
          (JObj [(''a/b'', JArr [JNum 1, JNull]), (''x'', JNum 0)]) = Some v
      \<and> json_same v (JObj [(''n~'', JBool True), (''a/b'', JArr [JNum 2])])"
  by (rule state_patch_roundtrip) simp_all

section \<open>The mutation log\<close>

text \<open>The operations on the tables; an execution row may appear at any time.\<close>

inductive state_step :: "state_db \<Rightarrow> state_db \<Rightarrow> bool" where
  execution: "state_step db (db\<lparr>db_executions := e # db_executions db\<rparr>)"
| initialize: "json_data v \<Longrightarrow> state_step db (snd (initializeWorkflowState e v now db))"
| patch: "json_data v \<Longrightarrow> state_step db (snd (patchWorkflowState e expected v now db))"

abbreviation state_steps :: "state_db \<Rightarrow> state_db \<Rightarrow> bool" where
  "state_steps \<equiv> state_step\<^sup>*\<^sup>*"

definition empty_state_db :: state_db where
  "empty_state_db = \<lparr>db_executions = [], db_states = [], db_events = []\<rparr>"

text \<open>Entry \<open>k\<close> of the log and the entry after it.\<close>

definition entry_follows :: "state_event \<Rightarrow> state_event \<Rightarrow> bool" where
  "entry_follows x y \<longleftrightarrow> (\<exists>v. apply_patch (se_patch y) (se_value x) = Some v \<and> json_same v (se_value y))"

definition consistent :: "state_row option \<Rightarrow> (int \<Rightarrow> state_event option) \<Rightarrow> bool" where
  "consistent row entry \<longleftrightarrow>
     (case row of
        None \<Rightarrow> \<forall>k. entry k = None
      | Some r \<Rightarrow>
          0 \<le> sr_sequence r \<and> (\<forall>k. entry k \<noteq> None \<longleftrightarrow> 0 \<le> k \<and> k \<le> sr_sequence r)
          \<and> map_option se_value (entry (sr_sequence r)) = Some (sr_value r)
          \<and> (\<forall>k x y. entry k = Some x \<longrightarrow> entry (k + 1) = Some y \<longrightarrow> entry_follows x y)
          \<and> (\<forall>k x. entry k = Some x \<longrightarrow> json_data (se_value x)))"

definition log_of :: "state_db \<Rightarrow> string \<Rightarrow> int \<Rightarrow> state_event option" where
  "log_of db e k = map_get (db_events db) (e, k)"

definition log_ok :: "state_db \<Rightarrow> string \<Rightarrow> bool" where
  "log_ok db e \<longleftrightarrow> consistent (map_get (db_states db) e) (log_of db e)"

definition state_inv :: "state_db \<Rightarrow> bool" where
  "state_inv db \<longleftrightarrow> (\<forall>e. log_ok db e)"

text \<open>What never changes: an entry of the log stays as it was written, and sequences only grow.\<close>

definition state_le :: "state_db \<Rightarrow> state_db \<Rightarrow> bool" where
  "state_le db db' \<longleftrightarrow>
     (\<forall>key x. map_get (db_events db) key = Some x \<longrightarrow> map_get (db_events db') key = Some x)
     \<and> (\<forall>e row. map_get (db_states db) e = Some row \<longrightarrow>
          (\<exists>row'. map_get (db_states db') e = Some row' \<and> sr_sequence row \<le> sr_sequence row'))"

lemma generated_entry:
  assumes "json_data (se_value x)" "json_data (se_value y)" "se_patch y = createWorkflowStatePatch (se_value x) (se_value y)"
  shows "entry_follows x y"
proof -
  have "value_at [] (se_value x) = Some (se_value x)" by simp
  then obtain v where "json_same v (se_value y)"
    "apply_patch (appendJsonPatchOperations (pointer []) (se_value x) (se_value y)) (se_value x)
       = Some (put_at [] v (se_value x))"
    using patch_leads_to [OF assms(1,2)] unfolding leads_to_def by blast
  then show ?thesis by (simp add: entry_follows_def assms(3) createWorkflowStatePatch_def pointer_def)
qed

lemma log_ok_other:
  assumes "log_ok db e" "map_get (db_states db') e = map_get (db_states db) e" "log_of db' e = log_of db e"
  shows "log_ok db' e"
  using assms by (simp add: log_ok_def)

lemma consistent_first: "json_data v \<Longrightarrow> sr_sequence r = 0 \<Longrightarrow> sr_value r = v \<Longrightarrow>
    consistent (Some r) ((\<lambda>_. None)(0 := Some \<lparr>se_patch = [], se_value = v, se_createdAt = t\<rparr>))"
  by (auto simp: consistent_def)

lemma consistent_next:
  assumes c: "consistent (Some r) entry" and v: "json_data v"
    and s: "sr_sequence s = sr_sequence r + 1" "sr_value s = v"
    and y: "se_value y = v" "se_patch y = createWorkflowStatePatch (sr_value r) v"
  shows "consistent (Some s) (entry(sr_sequence r + 1 := Some y))"
proof -
  let ?n = "sr_sequence r" and ?new = "entry(sr_sequence r + 1 := Some y)"
  from c have n: "0 \<le> ?n" and keys: "\<And>k. entry k \<noteq> None \<longleftrightarrow> 0 \<le> k \<and> k \<le> ?n"
    and last: "map_option se_value (entry ?n) = Some (sr_value r)"
    and follows: "\<And>k a b. entry k = Some a \<Longrightarrow> entry (k + 1) = Some b \<Longrightarrow> entry_follows a b"
    and data: "\<And>k a. entry k = Some a \<Longrightarrow> json_data (se_value a)"
    by (auto simp: consistent_def)
  from last obtain x where x: "entry ?n = Some x" "se_value x = sr_value r" by auto
  have new: "entry_follows x y" by (rule generated_entry) (use x y v data [OF x(1)] in simp_all)
  have "entry_follows a b" if a: "?new k = Some a" and b: "?new (k + 1) = Some b" for k a b
  proof -
    consider "k = ?n" | "k = ?n + 1" | "k \<noteq> ?n" "k \<noteq> ?n + 1" by blast
    then show ?thesis
    proof cases
      case 2
      then show ?thesis using b keys [of "?n + 1 + 1"] by simp
    qed (use a b x new follows in simp_all)
  qed
  moreover have "json_data (se_value a)" if "?new k = Some a" for k a
    using that v y(1) data by (auto split: if_splits)
  moreover have "?new k \<noteq> None \<longleftrightarrow> 0 \<le> k \<and> k \<le> ?n + 1" for k
    using keys [of k] n by auto
  ultimately show ?thesis using n s y(1) by (simp add: consistent_def)
qed

lemma initialize_inv:
  assumes inv: "state_inv db" and v: "json_data v"
  shows "state_inv (snd (initializeWorkflowState e v now db))" and "state_le db (snd (initializeWorkflowState e v now db))"
proof -
  let ?db = "snd (initializeWorkflowState e v now db)"
  have ok: "log_ok db f" for f using inv by (simp add: state_inv_def)
  have "log_ok ?db e"
  proof (cases "map_get (db_states db) e = None \<and> e \<in> set (db_executions db)")
    case True
    then have "log_of db e k = None" for k using ok [of e] by (simp add: log_ok_def consistent_def)
    with True have "log_of ?db e = (\<lambda>_. None)(0 := Some \<lparr>se_patch = [], se_value = v, se_createdAt = now\<rparr>)"
      by (auto simp: fun_eq_iff log_of_def initializeWorkflowState_def insert_new_def jm.get_put)
    with True consistent_first [OF v] show ?thesis
      by (simp add: log_ok_def initializeWorkflowState_def insert_new_def jm.get_put)
  next
    case False
    have "map_get (db_events db) (e, 0) \<noteq> None" if "map_get (db_states db) e \<noteq> None"
      using ok [of e] that by (auto simp: log_ok_def consistent_def log_of_def)
    with False show ?thesis
      by (intro log_ok_other [OF ok]) (auto simp: log_of_def fun_eq_iff initializeWorkflowState_def insert_new_def)
  qed
  moreover have "log_ok ?db f" if "f \<noteq> e" for f
    using that by (intro log_ok_other [OF ok])
      (auto simp: log_of_def fun_eq_iff initializeWorkflowState_def insert_new_def jm.get_put)
  ultimately show "state_inv ?db" unfolding state_inv_def by metis
  show "state_le db ?db"
    by (auto simp: state_le_def initializeWorkflowState_def insert_new_def jm.get_put)
qed

lemma patch_accepted:
  assumes "patchWorkflowState e expected v now db = (Inr p, db')"
  obtains row where "map_get (db_states db) e = Some row" "expected = Some (sr_sequence row)"
    "map_get (db_events db) (e, sr_sequence row + 1) = None"
    "p = \<lparr>ps_executionId = e, ps_sequence = sr_sequence row + 1,
          ps_patch = createWorkflowStatePatch (sr_value row) v, ps_value = v\<rparr>"
    "db' = db\<lparr>db_states := map_set e \<lparr>sr_sequence = sr_sequence row + 1, sr_value = v, sr_updatedAt = now\<rparr> (db_states db),
         db_events := map_set (e, sr_sequence row + 1)
           \<lparr>se_patch = createWorkflowStatePatch (sr_value row) v, se_value = v, se_createdAt = now\<rparr> (db_events db)\<rparr>"
  using assms by (auto simp: patchWorkflowState_def Let_def split: option.splits if_splits)

lemma patch_refused: "patchWorkflowState e expected v now db = (Inl err, db') \<Longrightarrow> db' = db"
  by (auto simp: patchWorkflowState_def Let_def split: option.splits if_splits)

lemma patch_inv:
  assumes inv: "state_inv db" and v: "json_data v" and p: "patchWorkflowState e expected v now db = (r, db')"
  shows "state_inv db' \<and> state_le db db'"
proof (cases r)
  case (Inl err)
  then have "db' = db" using p patch_refused by blast
  with inv show ?thesis by (simp add: state_le_def)
next
  case (Inr q)
  obtain row where row: "map_get (db_states db) e = Some row" "map_get (db_events db) (e, sr_sequence row + 1) = None"
    and db': "db' = db\<lparr>db_states := map_set e \<lparr>sr_sequence = sr_sequence row + 1, sr_value = v, sr_updatedAt = now\<rparr> (db_states db),
         db_events := map_set (e, sr_sequence row + 1)
           \<lparr>se_patch = createWorkflowStatePatch (sr_value row) v, se_value = v, se_createdAt = now\<rparr> (db_events db)\<rparr>"
    using p Inr by (auto elim: patch_accepted)
  have ok: "log_ok db f" for f using inv by (simp add: state_inv_def)
  have "consistent (Some row) (log_of db e)" using ok [of e] row by (simp add: log_ok_def)
  note consistent_next [OF this v]
  moreover have "log_of db' e = (log_of db e)(sr_sequence row + 1 := Some
      \<lparr>se_patch = createWorkflowStatePatch (sr_value row) v, se_value = v, se_createdAt = now\<rparr>)"
    by (auto simp: fun_eq_iff log_of_def db' jm.get_put)
  ultimately have "log_ok db' e" by (simp add: log_ok_def db' jm.get_put)
  moreover have "log_ok db' f" if "f \<noteq> e" for f
    using that by (intro log_ok_other [OF ok]) (auto simp: fun_eq_iff log_of_def db' jm.get_put)
  ultimately have "state_inv db'" unfolding state_inv_def by metis
  moreover have "state_le db db'" using row by (auto simp: state_le_def db' jm.get_put)
  ultimately show ?thesis ..
qed

lemma state_le_refl: "state_le db db"
  by (auto simp: state_le_def)

lemma state_le_trans: "state_le a b \<Longrightarrow> state_le b c \<Longrightarrow> state_le a c"
  unfolding state_le_def by (meson order_trans)

lemma state_step_keeps: "state_step a b \<Longrightarrow> state_inv a \<Longrightarrow> state_inv b \<and> state_le a b"
proof (induction rule: state_step.induct)
  case (execution db e)
  then show ?case by (simp add: state_inv_def log_ok_def log_of_def [abs_def] state_le_def)
next
  case (initialize v db e now)
  then show ?case by (simp add: initialize_inv)
next
  case (patch v db e expected now)
  then show ?case using patch_inv [OF patch(2,1) prod.collapse [symmetric]] by simp
qed

interpretation states: guarded_history state_step state_inv state_le
  by unfold_locales (auto dest: state_step_keeps intro: state_le_refl state_le_trans)

lemma empty_state_inv: "state_inv empty_state_db"
  by (simp add: state_inv_def log_ok_def consistent_def log_of_def empty_state_db_def)

lemma state_inv_row:
  assumes "state_inv db" "map_get (db_states db) e = Some row"
  shows "consistent (Some row) (log_of db e)"
  using assms by (metis log_ok_def state_inv_def)

lemma last_entry:
  assumes "state_inv db" "getWorkflowState e db = Some (n, v)"
  shows "map_option se_value (map_get (db_events db) (e, n)) = Some v"
proof -
  from assms(2) obtain row where row: "map_get (db_states db) e = Some row" "sr_sequence row = n" "sr_value row = v"
    by (auto simp: getWorkflowState_def)
  with state_inv_row [OF assms(1) row(1)] show ?thesis by (simp add: consistent_def log_of_def)
qed

lemma reachable_state: "state_steps empty_state_db db \<Longrightarrow> state_inv db"
  by (rule states.steps_inv [OF _ empty_state_inv])

definition counter :: "int \<Rightarrow> js_value" where
  "counter n = JObj [(''count'', JNum n)]"

definition first_state_db :: state_db where
  "first_state_db = snd (initializeWorkflowState ''e1'' (counter 0) 10
     (empty_state_db\<lparr>db_executions := ''e1'' # db_executions empty_state_db\<rparr>))"

definition second_state_db :: state_db where
  "second_state_db = snd (patchWorkflowState ''e1'' (Some 0) (counter 1) 20 first_state_db)"

lemma first_state_reachable: "state_steps empty_state_db first_state_db"
proof -
  have "state_step (empty_state_db\<lparr>db_executions := ''e1'' # db_executions empty_state_db\<rparr>) first_state_db"
    unfolding first_state_db_def by (rule state_step.initialize) (simp add: counter_def)
  with state_step.execution show ?thesis
    by (rule converse_rtranclp_into_rtranclp [OF _ r_into_rtranclp])
qed

lemma second_state_step: "state_steps first_state_db second_state_db"
  unfolding second_state_db_def by (rule r_into_rtranclp, rule state_step.patch) (simp add: counter_def)

text \<open>
  C22. The mutation log replays to the snapshot: in every reachable state of the tables an execution at
  sequence \<open>n\<close> has exactly the entries 0 to \<open>n\<close>, the last one holds the current value, the patch of each
  entry applied to the value of the entry before it gives its own value, and no operation
  on the state changes or removes an entry later.\<close>

theorem state_log_replays:
  assumes reach: "state_steps empty_state_db db" and cur: "getWorkflowState e db = Some (n, v)"
    and later: "state_steps db db'"
  shows "(\<forall>k. map_get (db_events db) (e, k) \<noteq> None \<longleftrightarrow> 0 \<le> k \<and> k \<le> n)
       \<and> map_option se_value (map_get (db_events db) (e, n)) = Some v
       \<and> (\<forall>k x y. map_get (db_events db) (e, k) = Some x \<longrightarrow> map_get (db_events db) (e, k + 1) = Some y \<longrightarrow>
            (\<exists>w. apply_patch (se_patch y) (se_value x) = Some w \<and> json_same w (se_value y)))
       \<and> (\<forall>k. 0 \<le> k \<longrightarrow> k \<le> n \<longrightarrow> map_get (db_events db') (e, k) = map_get (db_events db) (e, k))"
proof -
  from cur obtain row where row: "map_get (db_states db) e = Some row" "sr_sequence row = n" "sr_value row = v"
    by (auto simp: getWorkflowState_def)
  have inv: "state_inv db" by (rule reachable_state [OF reach])
  note c = state_inv_row [OF inv row(1)]
  have "map_get (db_events db') (e, k) = map_get (db_events db) (e, k)" if "0 \<le> k" "k \<le> n" for k
  proof -
    have "log_of db e k \<noteq> None" using c row(2) that by (simp add: consistent_def)
    then obtain x where "map_get (db_events db) (e, k) = Some x" by (auto simp: log_of_def)
    with states.steps_le [OF later inv] show ?thesis by (simp add: state_le_def)
  qed
  with c row show ?thesis by (simp add: consistent_def log_of_def [abs_def] entry_follows_def)
qed

theorem state_log_replays_witness:
  "getWorkflowState ''e1'' first_state_db = Some (0, counter 0)
   \<and> map_option se_value (map_get (db_events first_state_db) (''e1'', 0)) = Some (counter 0)
   \<and> map_get (db_events second_state_db) (''e1'', 0) = map_get (db_events first_state_db) (''e1'', 0)"
proof -
  have cur: "getWorkflowState ''e1'' first_state_db = Some (0, counter 0)" by code_simp
  show ?thesis
    using state_log_replays [OF first_state_reachable cur second_state_step] cur by simp
qed

text \<open>
  The row of an execution and its log: at an unchanged sequence the value is unchanged.\<close>

lemma sequence_fixes_value:
  assumes inv: "state_inv db" and steps: "state_steps db db'"
    and a: "getWorkflowState e db = Some (n, v)" and b: "getWorkflowState e db' = Some (n, w)"
  shows "w = v"
proof -
  have inv': "state_inv db'" by (rule states.steps_inv [OF steps inv])
  show ?thesis
    using last_entry [OF inv a] last_entry [OF inv' b] states.steps_le [OF steps inv]
    by (auto simp: state_le_def)
qed

text \<open>
  C21. No update is lost: an update through the state context that succeeds replaced the very value its
  mutator was given. Whatever other updates ran while it was awaiting, the new value stands at the
  sequence right after the one that was read, the entry before it in the log holds the value read, the
  value passed the schema check, and the caller was allowed to access the execution.\<close>

theorem update_replaces_what_it_read:
  assumes reach: "state_steps empty_state_db db" and w: "\<And>k d. state_steps d (world k d)"
    and h: "update_state check ctx e mutator now world db = (Inr v, db')"
  shows "\<exists>n current. getWorkflowState e db = Some (n, current) \<and> mutator current = Inr v
          \<and> getWorkflowState e db' = Some (n + 1, v) \<and> check v = None \<and> isExecutionBoundAccessAllowed ctx e
          \<and> map_option se_value (map_get (db_events db') (e, n)) = Some current
          \<and> map_get (db_events db') (e, n + 1)
             = Some \<lparr>se_patch = createWorkflowStatePatch current v, se_value = v, se_createdAt = now\<rparr>"
proof -
  from h obtain n current p where cur: "getWorkflowState e db = Some (n, current)" "mutator current = Inr v"
    and ok: "isExecutionBoundAccessAllowed ctx e" "check v = None"
    and p: "patchWorkflowState e (Some n) v now (world 1 (world 0 db)) = (Inr p, db')"
  proof -
    from h obtain n current nv where 1: "handleStateGet ctx e db = Inr (n, current)" "mutator current = Inr nv"
      by (auto simp: update_state_def split: sum.splits prod.splits)
    with h obtain p where 2: "handleStatePatch check ctx e (Some n) (createWorkflowStatePatch current nv) nv now
        (world 1) (world 0 db) = (Inr p, db')" "ps_value p = v"
      by (auto simp: update_state_def simp del: One_nat_def split: sum.splits prod.splits)
    then have 3: "patchWorkflowState e (Some n) nv now (world 1 (world 0 db)) = (Inr p, db')" "check nv = None"
      by (auto simp: handleStatePatch_def Let_def simp del: One_nat_def split: if_splits option.splits)
    then have "nv = v" using 2(2) by (auto elim!: patch_accepted)
    with 1 3 that [of n current p] show ?thesis
      by (auto simp: handleStateGet_def split: if_splits option.splits)
  qed
  let ?d = "world 1 (world 0 db)"
  have inv: "state_inv db" by (rule reachable_state [OF reach])
  have steps: "state_steps db ?d" using w rtranclp_trans by metis
  obtain row where row: "map_get (db_states ?d) e = Some row" "sr_sequence row = n"
    and db': "db' = ?d\<lparr>db_states := map_set e \<lparr>sr_sequence = n + 1, sr_value = v, sr_updatedAt = now\<rparr> (db_states ?d),
         db_events := map_set (e, n + 1)
           \<lparr>se_patch = createWorkflowStatePatch (sr_value row) v, se_value = v, se_createdAt = now\<rparr> (db_events ?d)\<rparr>"
    using p by (auto elim!: patch_accepted)
  have val: "sr_value row = current"
    using sequence_fixes_value [OF inv steps cur(1)] row by (simp add: getWorkflowState_def)
  have "map_option se_value (map_get (db_events ?d) (e, n)) = Some current"
    using last_entry [OF states.steps_inv [OF steps inv]] row val by (simp add: getWorkflowState_def)
  with cur ok val show ?thesis
    by (intro exI [of _ n] exI [of _ current]) (auto simp: db' getWorkflowState_def jm.get_put)
qed

theorem update_replaces_what_it_read_witness:
  "\<exists>n current. getWorkflowState ''e1'' first_state_db = Some (n, current)
     \<and> getWorkflowState ''e1'' (snd (update_state (\<lambda>_. None) \<lparr>cx_local = True, cx_peer = None\<rparr> ''e1''
          (\<lambda>_. Inr (counter 1)) 20 (\<lambda>_ d. d) first_state_db)) = Some (n + 1, counter 1)"
proof -
  let ?u = "update_state (\<lambda>_. None) \<lparr>cx_local = True, cx_peer = None\<rparr> ''e1''
          (\<lambda>_. Inr (counter 1)) 20 (\<lambda>_ d. d) first_state_db"
  have "fst ?u = Inr (counter 1)" by code_simp
  then have u: "?u = (Inr (counter 1), snd ?u)" by (metis prod.collapse)
  show ?thesis
    using update_replaces_what_it_read [OF first_state_reachable rtranclp.rtrancl_refl u] by blast
qed

end
