(* ===== verification/Rules.thy ===== *)
theory Rules
  imports Canonical_JSON
begin

text \<open>
  The rules engine (\<open>packages/rules/src\<close>): conditions over a context (\<open>types.ts\<close>, \<open>schemas.ts\<close>), their
  evaluation and the two bounded caches of compiled matchers (\<open>evaluator.ts\<close>). The expression compiler
  and the glob matcher are other packages and the parameter \<open>matchers\<close>: compiling may throw, an
  evaluation may throw and may give another answer each time (expressions can read the clock), so it
  also takes the number of evaluations before it.
\<close>

section \<open>Conditions and rules\<close>

text \<open>
  An operator object keeps every key it may carry, in the order in which the source tests them; the
  schema admits objects with exactly one key.
\<close>

record field_operator_object =
  fo_eq :: "js_prim option"
  fo_ne :: "js_prim option"
  fo_in :: "js_prim list option"
  fo_nin :: "js_prim list option"
  fo_contains :: "js_prim option"
  fo_containsPrefix :: "string option"
  fo_exists :: "bool option"
  fo_startsWith :: "string option"
  fo_endsWith :: "string option"
  fo_glob :: "string option"

datatype field_operator = FScalar js_prim | FObject field_operator_object

datatype rule_condition =
    FieldCondition string field_operator
  | AndCondition "rule_condition list"
  | OrCondition "rule_condition list"
  | NotCondition rule_condition
  | ExpressionCondition string

record 'action rule =
  rule_id :: string
  rule_name :: string
  rule_description :: "string option"
  rule_test :: rule_condition
  rule_action :: 'action
  rule_priority :: int
  rule_enabled :: bool
  rule_metadata :: "(string \<times> js_value) list option"

definition present_keys :: "field_operator_object \<Rightarrow> bool list" where
  "present_keys ob =
     [fo_eq ob \<noteq> None, fo_ne ob \<noteq> None, fo_in ob \<noteq> None, fo_nin ob \<noteq> None, fo_contains ob \<noteq> None,
      fo_containsPrefix ob \<noteq> None, fo_exists ob \<noteq> None, fo_startsWith ob \<noteq> None, fo_endsWith ob \<noteq> None,
      fo_glob ob \<noteq> None]"

fun field_operator_ok :: "field_operator \<Rightarrow> bool" where
  "field_operator_ok (FScalar _) = True"
| "field_operator_ok (FObject ob) = (length (filter id (present_keys ob)) = 1)"

fun rule_condition_ok :: "rule_condition \<Rightarrow> bool" where
  "rule_condition_ok (FieldCondition field operator) = (field \<noteq> [] \<and> field_operator_ok operator)"
| "rule_condition_ok (AndCondition cs) = (cs \<noteq> [] \<and> list_all rule_condition_ok cs)"
| "rule_condition_ok (OrCondition cs) = (cs \<noteq> [] \<and> list_all rule_condition_ok cs)"
| "rule_condition_ok (NotCondition c) = rule_condition_ok c"
| "rule_condition_ok (ExpressionCondition source) = (source \<noteq> [])"

definition rule_ok :: "('action \<Rightarrow> bool) \<Rightarrow> 'action rule \<Rightarrow> bool" where
  "rule_ok action_ok r \<longleftrightarrow>
     rule_id r \<noteq> [] \<and> rule_name r \<noteq> [] \<and> rule_condition_ok (rule_test r) \<and> action_ok (rule_action r)
     \<and> (case rule_metadata r of None \<Rightarrow> True | Some m \<Rightarrow> json_data (JObj m))"

section \<open>The caches\<close>

definition CACHE_LIMIT :: nat where
  "CACHE_LIMIT = 256"

definition getOrCreateCacheEntry ::
    "(string, 'v) js_map \<Rightarrow> string \<Rightarrow> (string \<Rightarrow> string + 'v) \<Rightarrow> (string + 'v) \<times> (string, 'v) js_map" where
  "getOrCreateCacheEntry cache key create =
     (case map_get cache key of
        Some existing \<Rightarrow> (Inr existing, map_set key existing (map_delete key cache))
      | None \<Rightarrow>
          (case create key of
             Inl e \<Rightarrow> (Inl e, cache)
           | Inr created \<Rightarrow>
               let cache1 = map_set key created cache in
               if CACHE_LIMIT < length cache1
               then (Inr created,
                     case map_keys cache1 of [] \<Rightarrow> cache1 | oldestKey # _ \<Rightarrow> map_delete oldestKey cache1)
               else (Inr created, cache1)))"

record ('x, 'g) matchers =
  compile :: "string \<Rightarrow> string + 'x"
  evalSync :: "nat \<Rightarrow> 'x \<Rightarrow> js_value \<Rightarrow> string + js_value"
  new_glob :: "string \<Rightarrow> string + 'g"
  glob_match :: "'g \<Rightarrow> string \<Rightarrow> bool"

record ('x, 'g) rules_state =
  expressionCache :: "(string, 'x) js_map"
  globCache :: "(string, 'g) js_map"
  evaluations :: nat

definition getCachedExpression ::
    "('x, 'g) matchers \<Rightarrow> string \<Rightarrow> ('x, 'g) rules_state \<Rightarrow> (string + 'x) \<times> ('x, 'g) rules_state" where
  "getCachedExpression M expression st =
     (case getOrCreateCacheEntry (expressionCache st) expression (compile M) of
        (r, cache) \<Rightarrow> (r, st\<lparr>expressionCache := cache\<rparr>))"

definition getCachedGlob ::
    "('x, 'g) matchers \<Rightarrow> string \<Rightarrow> ('x, 'g) rules_state \<Rightarrow> (string + 'g) \<times> ('x, 'g) rules_state" where
  "getCachedGlob M pattern st =
     (case getOrCreateCacheEntry (globCache st) pattern (new_glob M) of
        (r, cache) \<Rightarrow> (r, st\<lparr>globCache := cache\<rparr>))"

section \<open>Evaluation\<close>

fun js_truthy :: "js_value \<Rightarrow> bool" where
  "js_truthy JUndefined = False"
| "js_truthy JNull = False"
| "js_truthy (JBool b) = b"
| "js_truthy (JNum n) = (n \<noteq> 0)"
| "js_truthy (JStr s) = (s \<noteq> [])"
| "js_truthy (JArr _) = True"
| "js_truthy (JObj _) = True"
| "js_truthy (JFun _) = True"

fun rules_walk :: "js_value \<Rightarrow> string list \<Rightarrow> js_value" where
  "rules_walk current [] = current"
| "rules_walk current (part # parts) =
     (if current = JNull \<or> current = JUndefined \<or> \<not> is_object current then JUndefined
      else rules_walk (js_member current part) parts)"

definition rules_getPath :: "js_value \<Rightarrow> string \<Rightarrow> js_value" where
  "rules_getPath v path =
     (if v = JNull \<or> v = JUndefined then JUndefined else rules_walk v (split_on CHR ''.'' path))"

fun array_includes :: "js_value \<Rightarrow> js_prim \<Rightarrow> bool" where
  "array_includes (JArr vs) p = list_ex (\<lambda>v. strict_eq v p) vs"
| "array_includes _ p = False"

fun array_some_prefix :: "js_value \<Rightarrow> string \<Rightarrow> bool" where
  "array_some_prefix (JArr vs) p = list_ex (\<lambda>v. value_starts_with v p) vs"
| "array_some_prefix _ p = False"

fun matchesOperator ::
    "('x, 'g) matchers \<Rightarrow> js_value \<Rightarrow> field_operator \<Rightarrow> ('x, 'g) rules_state
     \<Rightarrow> (string + bool) \<times> ('x, 'g) rules_state" where
  "matchesOperator M actual (FScalar p) st = (Inr (strict_eq actual p), st)"
| "matchesOperator M actual (FObject ob) st =
     (case fo_eq ob of Some p \<Rightarrow> (Inr (strict_eq actual p), st) | None \<Rightarrow>
     (case fo_ne ob of Some p \<Rightarrow> (Inr (\<not> strict_eq actual p), st) | None \<Rightarrow>
     (case fo_in ob of Some ps \<Rightarrow> (Inr (list_ex (strict_eq actual) ps), st) | None \<Rightarrow>
     (case fo_nin ob of Some ps \<Rightarrow> (Inr (\<not> list_ex (strict_eq actual) ps), st) | None \<Rightarrow>
     (case fo_contains ob of Some p \<Rightarrow> (Inr (array_includes actual p), st) | None \<Rightarrow>
     (case fo_containsPrefix ob of Some p \<Rightarrow> (Inr (array_some_prefix actual p), st) | None \<Rightarrow>
     (case fo_exists ob of
        Some b \<Rightarrow> (Inr (if b then actual \<noteq> JUndefined else \<not> actual \<noteq> JUndefined), st) | None \<Rightarrow>
     (case fo_startsWith ob of Some p \<Rightarrow> (Inr (value_starts_with actual p), st) | None \<Rightarrow>
     (case fo_endsWith ob of Some p \<Rightarrow> (Inr (value_ends_with actual p), st) | None \<Rightarrow>
     (case fo_glob ob of
        Some pattern \<Rightarrow>
          (case actual of
             JStr s \<Rightarrow>
               (case getCachedGlob M pattern st of
                  (Inl e, st1) \<Rightarrow> (Inl e, st1)
                | (Inr g, st1) \<Rightarrow> (Inr (glob_match M g s), st1))
           | _ \<Rightarrow> (Inr False, st))
      | None \<Rightarrow> (Inr False, st)))))))))))"

fun evaluate ::
    "('x, 'g) matchers \<Rightarrow> js_value \<Rightarrow> rule_condition \<Rightarrow> ('x, 'g) rules_state
     \<Rightarrow> (string + bool) \<times> ('x, 'g) rules_state"
and evaluate_and ::
    "('x, 'g) matchers \<Rightarrow> js_value \<Rightarrow> rule_condition list \<Rightarrow> ('x, 'g) rules_state
     \<Rightarrow> (string + bool) \<times> ('x, 'g) rules_state"
and evaluate_or ::
    "('x, 'g) matchers \<Rightarrow> js_value \<Rightarrow> rule_condition list \<Rightarrow> ('x, 'g) rules_state
     \<Rightarrow> (string + bool) \<times> ('x, 'g) rules_state" where
  "evaluate M ctx (AndCondition cs) st = evaluate_and M ctx cs st"
| "evaluate M ctx (OrCondition cs) st = evaluate_or M ctx cs st"
| "evaluate M ctx (NotCondition c) st =
     (case evaluate M ctx c st of (Inl e, st1) \<Rightarrow> (Inl e, st1) | (Inr b, st1) \<Rightarrow> (Inr (\<not> b), st1))"
| "evaluate M ctx (ExpressionCondition source) st =
     (case getCachedExpression M source st of
        (Inl e, st1) \<Rightarrow> (Inl e, st1)
      | (Inr x, st1) \<Rightarrow>
          (map_sum id js_truthy (evalSync M (evaluations st1) x ctx),
           st1\<lparr>evaluations := Suc (evaluations st1)\<rparr>))"
| "evaluate M ctx (FieldCondition field operator) st =
     matchesOperator M (rules_getPath ctx field) operator st"
| "evaluate_and M ctx [] st = (Inr True, st)"
| "evaluate_and M ctx (c # cs) st =
     (case evaluate M ctx c st of
        (Inl e, st1) \<Rightarrow> (Inl e, st1)
      | (Inr b, st1) \<Rightarrow> if \<not> b then (Inr False, st1) else evaluate_and M ctx cs st1)"
| "evaluate_or M ctx [] st = (Inr False, st)"
| "evaluate_or M ctx (c # cs) st =
     (case evaluate M ctx c st of
        (Inl e, st1) \<Rightarrow> (Inl e, st1)
      | (Inr b, st1) \<Rightarrow> if b then (Inr True, st1) else evaluate_or M ctx cs st1)"

fun evaluateRules ::
    "('x, 'g) matchers \<Rightarrow> bool \<Rightarrow> js_value \<Rightarrow> 'action rule list \<Rightarrow> ('x, 'g) rules_state
     \<Rightarrow> (string + 'action rule list) \<times> ('x, 'g) rules_state" where
  "evaluateRules M includeDisabled ctx [] st = (Inr [], st)"
| "evaluateRules M includeDisabled ctx (rule # rules) st =
     (if \<not> includeDisabled \<and> \<not> rule_enabled rule then evaluateRules M includeDisabled ctx rules st
      else (case evaluate M ctx (rule_test rule) st of
        (Inl e, st1) \<Rightarrow> (Inl e, st1)
      | (Inr b, st1) \<Rightarrow>
          (case evaluateRules M includeDisabled ctx rules st1 of
             (Inl e, st2) \<Rightarrow> (Inl e, st2)
           | (Inr ms, st2) \<Rightarrow> (Inr (if b then rule # ms else ms), st2))))"

end
