(* ===== verification/Rules_Properties.thy ===== *)
theory Rules_Properties
  imports Rules "HOL-Library.Sublist"
begin

text \<open>
  What the rules engine promises: its caches are invisible and bounded and keep the most recently used
  matchers, and its field conditions agree with the payload filters of the bus.
\<close>

section \<open>The meaning of a condition\<close>

text \<open>
  The reference: nothing is cached, every matcher is compiled where it is used, and the first key that
  is present decides. The number is that of the expressions evaluated before.
\<close>

fun operator_meaning :: "('x, 'g) matchers \<Rightarrow> js_value \<Rightarrow> field_operator \<Rightarrow> string + bool" where
  "operator_meaning M v (FScalar p) = Inr (v = prim_value p)"
| "operator_meaning M v (FObject ob) =
     (let scalars = (case v of JArr vs \<Rightarrow> vs | _ \<Rightarrow> []);
          text_is = (\<lambda>P. case v of JStr s \<Rightarrow> P s | _ \<Rightarrow> False) in
      case List.map_filter id
        [map_option (\<lambda>p. Inr (v = prim_value p)) (fo_eq ob),
         map_option (\<lambda>p. Inr (v \<noteq> prim_value p)) (fo_ne ob),
         map_option (\<lambda>ps. Inr (v \<in> prim_value ` set ps)) (fo_in ob),
         map_option (\<lambda>ps. Inr (v \<notin> prim_value ` set ps)) (fo_nin ob),
         map_option (\<lambda>p. Inr (prim_value p \<in> set scalars)) (fo_contains ob),
         map_option (\<lambda>p. Inr (\<exists>w \<in> set scalars. case w of JStr s \<Rightarrow> prefix p s | _ \<Rightarrow> False)) (fo_containsPrefix ob),
         map_option (\<lambda>b. Inr (b \<longleftrightarrow> v \<noteq> JUndefined)) (fo_exists ob),
         map_option (\<lambda>p. Inr (text_is (prefix p))) (fo_startsWith ob),
         map_option (\<lambda>p. Inr (text_is (suffix p))) (fo_endsWith ob),
         map_option (\<lambda>p. case v of JStr s \<Rightarrow> map_sum id (\<lambda>g. glob_match M g s) (new_glob M p) | _ \<Rightarrow> Inr False)
           (fo_glob ob)]
      of [] \<Rightarrow> Inr False | answer # _ \<Rightarrow> answer)"

fun meaning :: "('x, 'g) matchers \<Rightarrow> js_value \<Rightarrow> rule_condition \<Rightarrow> nat \<Rightarrow> (string + bool) \<times> nat"
and meaning_until :: "bool \<Rightarrow> ('x, 'g) matchers \<Rightarrow> js_value \<Rightarrow> rule_condition list \<Rightarrow> nat \<Rightarrow> (string + bool) \<times> nat" where
  "meaning M ctx (FieldCondition field operator) n = (operator_meaning M (getPath ctx field) operator, n)"
| "meaning M ctx (AndCondition cs) n = meaning_until False M ctx cs n"
| "meaning M ctx (OrCondition cs) n = meaning_until True M ctx cs n"
| "meaning M ctx (NotCondition c) n = map_prod (map_sum id Not) id (meaning M ctx c n)"
| "meaning M ctx (ExpressionCondition source) n =
     (case compile M source of
        Inl e \<Rightarrow> (Inl e, n)
      | Inr x \<Rightarrow> (map_sum id js_truthy (evalSync M n x ctx), Suc n))"
| "meaning_until stop M ctx [] n = (Inr (\<not> stop), n)"
| "meaning_until stop M ctx (c # cs) n =
     (case meaning M ctx c n of
        (Inr b, k) \<Rightarrow> if b = stop then (Inr stop, k) else meaning_until stop M ctx cs k
      | (Inl e, k) \<Rightarrow> (Inl e, k))"

fun matching_rules ::
    "('x, 'g) matchers \<Rightarrow> js_value \<Rightarrow> 'action rule list \<Rightarrow> nat \<Rightarrow> (string + 'action rule list) \<times> nat" where
  "matching_rules M ctx [] n = (Inr [], n)"
| "matching_rules M ctx (r # rs) n =
     (case meaning M ctx (rule_test r) n of
        (Inl e, k) \<Rightarrow> (Inl e, k)
      | (Inr b, k) \<Rightarrow> map_prod (map_sum id (\<lambda>ms. if b then r # ms else ms)) id (matching_rules M ctx rs k))"

section \<open>The caches are invisible\<close>

definition cache_ok :: "(string \<Rightarrow> string + 'v) \<Rightarrow> (string, 'v) js_map \<Rightarrow> bool" where
  "cache_ok create cache \<longleftrightarrow>
     map_wf cache \<and> length cache \<le> CACHE_LIMIT \<and> (\<forall>(k, v) \<in> set cache. create k = Inr v)"

definition caches_ok :: "('x, 'g) matchers \<Rightarrow> ('x, 'g) rules_state \<Rightarrow> bool" where
  "caches_ok M st \<longleftrightarrow> cache_ok (compile M) (expressionCache st) \<and> cache_ok (new_glob M) (globCache st)"

lemma map_delete_fresh: "k \<notin> fst ` set m \<Longrightarrow> map_delete k m = m"
  by (auto simp: map_delete_def filter_id_conv)

lemma map_get_key: "map_get m k = None \<longleftrightarrow> k \<notin> fst ` set m"
  by (simp add: map_get_def map_of_eq_None_iff)

lemma map_get_length_delete:
  assumes "map_wf m" "map_get m k = Some v"
  shows "length (map_delete k m) < length m"
  using map_get_mem [OF assms(2)] unfolding map_delete_def by (intro length_filter_less) auto

text \<open>What an access does to the keys: a hit moves the key to the end, a miss appends it and drops the oldest.\<close>

lemma cache_access:
  assumes wf: "map_wf cache" and len: "length cache \<le> CACHE_LIMIT" and c: "create key = Inr v"
    and ok: "\<forall>(k, v) \<in> set cache. create k = Inr v"
  shows "getOrCreateCacheEntry cache key create =
    (Inr v, if length cache = CACHE_LIMIT \<and> key \<notin> fst ` set cache then tl cache @ [(key, v)]
            else map_delete key cache @ [(key, v)])"
proof (cases "map_get cache key")
  case (Some w)
  then have "w = v" using ok c map_get_mem [OF Some] by auto
  moreover have "key \<in> fst ` set cache" using map_get_mem [OF Some] by force
  moreover have "key \<notin> fst ` set (map_delete key cache)" by (auto simp: map_delete_def)
  ultimately show ?thesis using Some by (simp add: getOrCreateCacheEntry_def map_set_fresh)
next
  case None
  then have fresh: "key \<notin> fst ` set cache" by (simp add: map_get_key)
  show ?thesis
  proof (cases "length cache = CACHE_LIMIT")
    case True
    then obtain k0 v0 rest where cs: "cache = (k0, v0) # rest"
      by (cases cache) (auto simp: CACHE_LIMIT_def)
    have "k0 \<notin> fst ` set rest" "k0 \<noteq> key" using wf fresh by (auto simp: cs map_wf_def)
    then have "map_delete k0 (rest @ [(key, v)]) = rest @ [(key, v)]" by (intro map_delete_fresh) auto
    with True None fresh c show ?thesis
      by (simp add: getOrCreateCacheEntry_def map_set_fresh map_keys_def cs map_delete_def)
  next
    case False
    with None fresh c len show ?thesis
      by (simp add: getOrCreateCacheEntry_def map_set_fresh map_delete_fresh Let_def)
  qed
qed

lemma cached_value:
  assumes "cache_ok create cache" "getOrCreateCacheEntry cache key create = (r, cache')"
  shows "r = create key \<and> cache_ok create cache'"
proof (cases "create key")
  case (Inl e)
  then have "map_get cache key = None"
    using assms(1) map_get_mem by (cases "map_get cache key") (fastforce simp: cache_ok_def)+
  with Inl assms show ?thesis by (simp add: getOrCreateCacheEntry_def)
next
  case (Inr v)
  from assms(1) have c: "map_wf cache" "length cache \<le> CACHE_LIMIT" "\<forall>(k, v) \<in> set cache. create k = Inr v"
    by (simp_all add: cache_ok_def)
  have r: "r = Inr v" and cache': "cache' = (if length cache = CACHE_LIMIT \<and> key \<notin> fst ` set cache
      then tl cache @ [(key, v)] else map_delete key cache @ [(key, v)])"
    using cache_access [OF c(1,2) Inr c(3)] assms(2) by simp_all
  have "cache_ok create (tl cache @ [(key, v)])" if "length cache = CACHE_LIMIT" "key \<notin> fst ` set cache"
    using c that Inr by (cases cache) (auto simp: cache_ok_def map_wf_def CACHE_LIMIT_def)
  moreover have "cache_ok create (map_delete key cache @ [(key, v)])"
    if "\<not> (length cache = CACHE_LIMIT \<and> key \<notin> fst ` set cache)"
  proof -
    have "length (map_delete key cache) < CACHE_LIMIT"
    proof (cases "map_get cache key")
      case None
      then show ?thesis using that c(2) by (simp add: map_get_key map_delete_fresh)
    next
      case (Some w)
      then show ?thesis using map_get_length_delete [OF c(1) Some] c(2) by simp
    qed
    moreover have "map_wf (map_delete key cache @ [(key, v)])"
      using jm.wf_del [OF c(1)] by (auto simp: map_wf_def map_delete_mem)
    ultimately show ?thesis using c(3) Inr by (auto simp: cache_ok_def map_delete_mem)
  qed
  ultimately show ?thesis using r cache' Inr by simp
qed

lemma cached_glob:
  assumes "caches_ok M st" "getCachedGlob M p st = (r, st')"
  shows "r = new_glob M p \<and> caches_ok M st' \<and> evaluations st' = evaluations st"
  using assms by (auto simp: getCachedGlob_def caches_ok_def split: prod.splits dest: cached_value)

lemma cached_expression:
  assumes "caches_ok M st" "getCachedExpression M p st = (r, st')"
  shows "r = compile M p \<and> caches_ok M st' \<and> evaluations st' = evaluations st"
  using assms by (auto simp: getCachedExpression_def caches_ok_def split: prod.splits dest: cached_value)

lemma rules_getPath_eq: "rules_getPath = getPath"
proof -
  have "rules_walk v ps = walk_path v ps" for v ps
    by (induction v ps rule: rules_walk.induct) auto
  then show ?thesis by (simp add: fun_eq_iff rules_getPath_def getPath_def)
qed

lemma value_prefix: "value_starts_with v p = (case v of JStr s \<Rightarrow> prefix p s | _ \<Rightarrow> False)"
  by (cases v) (auto simp: starts_with_iff prefix_def)

lemma value_suffix: "value_ends_with v p = (case v of JStr s \<Rightarrow> suffix p s | _ \<Rightarrow> False)"
  by (cases v) (auto simp: ends_with_iff suffix_def)

lemma array_includes_iff: "array_includes v p \<longleftrightarrow> prim_value p \<in> set (case v of JArr vs \<Rightarrow> vs | _ \<Rightarrow> [])"
  by (cases v) (auto simp: strict_eq_def list_ex_iff)

lemma array_prefix_iff:
  "array_some_prefix v p \<longleftrightarrow>
     (\<exists>w \<in> set (case v of JArr vs \<Rightarrow> vs | _ \<Rightarrow> []). case w of JStr s \<Rightarrow> prefix p s | _ \<Rightarrow> False)"
  by (cases v) (simp_all add: list_ex_iff value_prefix)

lemma in_prims: "list_ex (strict_eq v) ps \<longleftrightarrow> v \<in> prim_value ` set ps"
  by (auto simp: list_ex_iff strict_eq_def)

lemma exists_iff: "(if b then v \<noteq> JUndefined else \<not> v \<noteq> JUndefined) \<longleftrightarrow> (b \<longleftrightarrow> v \<noteq> JUndefined)"
  by simp

lemmas operator_facts = strict_eq_def exists_iff in_prims array_includes_iff array_prefix_iff value_prefix value_suffix

lemma matchesOperator_meaning:
  assumes ok: "caches_ok M st" and m: "matchesOperator M v op st = (r, st')"
  shows "r = operator_meaning M v op \<and> caches_ok M st' \<and> evaluations st' = evaluations st"
proof (cases op)
  case (FScalar p)
  with assms show ?thesis by (auto simp: strict_eq_def)
next
  case (FObject ob)
  show ?thesis
  proof (cases "\<exists>s p. v = JStr s \<and> fo_glob ob = Some p \<and> fo_eq ob = None \<and> fo_ne ob = None \<and> fo_in ob = None
      \<and> fo_nin ob = None \<and> fo_contains ob = None \<and> fo_containsPrefix ob = None \<and> fo_exists ob = None
      \<and> fo_startsWith ob = None \<and> fo_endsWith ob = None")
    case True
    then obtain s p where v: "v = JStr s" "fo_glob ob = Some p" by blast
    obtain g st1 where g: "getCachedGlob M p st = (g, st1)" by force
    with cached_glob [OF ok g] True v FObject m show ?thesis
      by (auto simp: List.map_filter_def split: sum.splits)
  next
    case False
    with FObject m ok show ?thesis
      by (simp add: operator_facts List.map_filter_def Let_def split: option.splits; auto split: js_value.splits)
  qed
qed

text \<open>A run of the engine from \<open>st\<close> that gives \<open>r\<close>: the caches stay correct and \<open>r\<close> is what is meant.\<close>

definition agrees :: "('x, 'g) matchers \<Rightarrow> ('x, 'g) rules_state \<Rightarrow> 'r \<times> ('x, 'g) rules_state \<Rightarrow> 'r \<times> nat \<Rightarrow> bool" where
  "agrees M st run meant \<longleftrightarrow> (caches_ok M st \<longrightarrow> caches_ok M (snd run) \<and> meant = (fst run, evaluations (snd run)))"

lemma evaluate_agrees:
  "agrees M st (evaluate M ctx c st) (meaning M ctx c (evaluations st))"
  "agrees M st (evaluate_and M ctx cs st) (meaning_until False M ctx cs (evaluations st))"
  "agrees M st (evaluate_or M ctx cs st) (meaning_until True M ctx cs (evaluations st))"
proof (induction M ctx c st and M ctx cs st and M ctx cs st rule: evaluate_evaluate_and_evaluate_or.induct)
  case (3 M ctx c st)
  then show ?case by (auto simp: agrees_def split: prod.splits sum.splits)
next
  case (4 M ctx source st)
  obtain x st1 where x: "getCachedExpression M source st = (x, st1)" by force
  then show ?case using cached_expression [OF _ x]
    by (auto simp: agrees_def caches_ok_def split: sum.splits)
next
  case (5 M ctx field operator st)
  then show ?case
    using matchesOperator_meaning [of M st "getPath ctx field" operator]
    by (cases "matchesOperator M (getPath ctx field) operator st") (auto simp: agrees_def rules_getPath_eq)
next
  case (7 M ctx c cs st)
  then show ?case
    by (cases "evaluate M ctx c st"; cases "fst (evaluate M ctx c st)") (auto simp: agrees_def split: sum.splits)
next
  case (9 M ctx c cs st)
  then show ?case
    by (cases "evaluate M ctx c st"; cases "fst (evaluate M ctx c st)") (auto simp: agrees_def split: sum.splits)
qed (simp_all add: agrees_def)

lemma evaluateRules_agrees:
  "agrees M st (evaluateRules M inc ctx rules st)
     (matching_rules M ctx (filter (\<lambda>r. inc \<or> rule_enabled r) rules) (evaluations st))"
proof (induction M inc ctx rules st rule: evaluateRules.induct)
  case (2 M inc ctx r rules st)
  show ?case
  proof (cases "inc \<or> rule_enabled r")
    case True
    obtain b st1 where e: "evaluate M ctx (rule_test r) st = (b, st1)" by force
    with evaluate_agrees(1) [of M st ctx "rule_test r"] 2(2) [OF _ e [symmetric]] True show ?thesis
      by (cases b; cases "evaluateRules M inc ctx rules st1")
         (auto simp: agrees_def map_prod_def split: sum.splits prod.splits)
  qed (use 2(1) in simp)
qed (simp add: agrees_def)

text \<open>
  The states of the process: the caches start empty, conditions are evaluated, and expressions are
  evaluated elsewhere in between.\<close>

inductive rules_reached :: "('x, 'g) matchers \<Rightarrow> ('x, 'g) rules_state \<Rightarrow> bool" for M where
  start: "rules_reached M \<lparr>expressionCache = [], globCache = [], evaluations = 0\<rparr>"
| condition: "rules_reached M st \<Longrightarrow> rules_reached M (snd (evaluate M ctx c st))"
| elsewhere: "rules_reached M st \<Longrightarrow> evaluations st \<le> n \<Longrightarrow> rules_reached M (st\<lparr>evaluations := n\<rparr>)"

lemma rules_reached_ok: "rules_reached M st \<Longrightarrow> caches_ok M st"
proof (induction rule: rules_reached.induct)
  case (condition st ctx c)
  then show ?case using evaluate_agrees(1) [of M st ctx c] by (simp add: agrees_def)
qed (simp_all add: caches_ok_def cache_ok_def)

lemma rules_reached_rules: "rules_reached M st \<Longrightarrow> rules_reached M (snd (evaluateRules M inc ctx rules st))"
proof (induction M inc ctx rules st rule: evaluateRules.induct)
  case (2 M inc ctx r rules st)
  show ?case
  proof (cases "inc \<or> rule_enabled r")
    case True
    obtain b st1 where e: "evaluate M ctx (rule_test r) st = (b, st1)" by force
    have "rules_reached M st1" using rules_reached.condition [OF 2(3), of ctx "rule_test r"] e by simp
    with 2(2) [OF _ e [symmetric]] True e show ?thesis
      by (cases b; cases "evaluateRules M inc ctx rules st1"; cases "fst (evaluateRules M inc ctx rules st1)") auto
  qed (use 2 in simp)
qed simp

lemma matching_rules_subseq: "matching_rules M ctx rules n = (Inr ms, k) \<Longrightarrow> subseq ms rules"
proof (induction rules arbitrary: n ms)
  case (Cons r rules)
  obtain b j where m: "meaning M ctx (rule_test r) n = (b, j)" by force
  obtain rest l where t: "matching_rules M ctx rules j = (rest, l)" by force
  from Cons.prems m t Cons.IH [of j] show ?case
    by (cases b; cases rest) (auto split: if_splits)
qed simp

text \<open>
  C32. The matcher caches of the rules engine are invisible and bounded: in every state the process can
  reach, evaluating a list of rules gives what compiling every expression and glob afresh would give,
  the same error included; the matches are a subsequence of the rules in input order, none of them
  disabled unless asked for; and neither cache ever holds more than 256 entries.\<close>

theorem evaluateRules_uncached:
  assumes reach: "rules_reached M st" and r: "evaluateRules M includeDisabled ctx rules st = (r, st')"
  shows "r = fst (matching_rules M ctx (filter (\<lambda>rule. includeDisabled \<or> rule_enabled rule) rules) (evaluations st))
       \<and> (\<forall>ms. r = Inr ms \<longrightarrow> subseq ms (filter (\<lambda>rule. includeDisabled \<or> rule_enabled rule) rules))
       \<and> length (expressionCache st') \<le> 256 \<and> length (globCache st') \<le> 256"
proof -
  let ?rules = "filter (\<lambda>rule. includeDisabled \<or> rule_enabled rule) rules"
  have "agrees M st (r, st') (matching_rules M ctx ?rules (evaluations st))"
    using evaluateRules_agrees [of M st includeDisabled ctx rules] r by simp
  then have ok: "caches_ok M st'" and eq: "matching_rules M ctx ?rules (evaluations st) = (r, evaluations st')"
    using rules_reached_ok [OF reach] by (simp_all add: agrees_def)
  from ok have "length (expressionCache st') \<le> 256 \<and> length (globCache st') \<le> 256"
    by (simp add: caches_ok_def cache_ok_def CACHE_LIMIT_def)
  with eq matching_rules_subseq [of M ctx ?rules] show ?thesis by (metis fst_conv)
qed

definition sample_matchers :: "(string, string) matchers" where
  "sample_matchers = \<lparr>compile = (\<lambda>s. if s = ''('' then Inl ''syntax'' else Inr s), evalSync = (\<lambda>n x ctx. Inr (JNum (int n))),
     new_glob = Inr, glob_match = (=)\<rparr>"

definition sample_rule :: "string \<Rightarrow> rule_condition \<Rightarrow> bool \<Rightarrow> unit rule" where
  "sample_rule i c enabled = \<lparr>rule_id = i, rule_name = i, rule_description = None, rule_test = c, rule_action = (),
     rule_priority = 0, rule_enabled = enabled, rule_metadata = None\<rparr>"

definition sample_rules :: "unit rule list" where
  "sample_rules = [sample_rule ''a'' (ExpressionCondition ''x > 1'') True,
     sample_rule ''b'' (NotCondition (ExpressionCondition ''x > 2'')) False,
     sample_rule ''c'' (ExpressionCondition ''x > 1'') True]"

theorem evaluateRules_uncached_witness:
  "fst (evaluateRules sample_matchers False (JObj []) sample_rules \<lparr>expressionCache = [], globCache = [], evaluations = 0\<rparr>)
     = Inr [sample_rule ''c'' (ExpressionCondition ''x > 1'') True]"
proof -
  have "fst (matching_rules sample_matchers (JObj [])
      (filter (\<lambda>rule. False \<or> rule_enabled rule) sample_rules) 0) = Inr [sample_rule ''c'' (ExpressionCondition ''x > 1'') True]"
    by code_simp
  then show ?thesis
    using evaluateRules_uncached [OF rules_reached.start prod.collapse [symmetric], of sample_matchers False "JObj []" sample_rules]
    by simp
qed

section \<open>The most recently used matchers\<close>

lemma remdups_snoc: "remdups (xs @ [k]) = filter (\<lambda>x. x \<noteq> k) (remdups xs) @ [k]"
  by (induction xs) auto

lemma recent_keys:
  assumes d: "distinct R" and L: "0 < L" and C: "C = drop (length R - L) R"
  shows "(if length C = L \<and> k \<notin> set C then tl C @ [k] else filter (\<lambda>x. x \<noteq> k) C @ [k])
       = drop (length (filter (\<lambda>x. x \<noteq> k) R @ [k]) - L) (filter (\<lambda>x. x \<noteq> k) R @ [k])"
proof -
  define T where "T = take (length R - L) R"
  have R: "R = T @ C" by (simp add: T_def C)
  have len: "T = [] \<and> length C \<le> L \<or> length C = L" by (auto simp: T_def C)
  let ?f = "filter (\<lambda>x. x \<noteq> k)"
  have same: "?f X = X" if "k \<notin> set X" for X using that by (auto simp: filter_id_conv)
  show ?thesis
  proof (cases "k \<in> set C")
    case True
    then have T: "?f T = T" using d by (auto simp: R intro: same)
    from True obtain A B where "C = A @ k # B" by (meson split_list)
    moreover have "distinct C" using d by (simp add: R)
    ultimately have "length (?f C) + 1 = length C" by (simp add: same)
    with True T len show ?thesis by (auto simp: R)
  next
    case False
    then have "?f C = C" by (rule same)
    with False len L show ?thesis by (cases C) (auto simp: R)
  qed
qed

definition use_matchers :: "(string \<Rightarrow> string + 'v) \<Rightarrow> string list \<Rightarrow> (string, 'v) js_map" where
  "use_matchers create keys = fold (\<lambda>k cache. snd (getOrCreateCacheEntry cache k create)) keys []"

lemma use_matchers_ok: "cache_ok create (use_matchers create keys)"
proof (induction keys rule: rev_induct)
  case (snoc k keys)
  then show ?case
    using cached_value [OF snoc, of k] by (cases "getOrCreateCacheEntry (use_matchers create keys) k create")
      (simp add: use_matchers_def)
qed (simp add: use_matchers_def cache_ok_def)

text \<open>
  A matcher cache keeps the most recently used entries: after any sequence of uses of keys that
  compile, it holds exactly the last 256 distinct keys that were used, from the least to the most
  recently used one.\<close>

lemma cache_keeps_most_recent:
  assumes "\<forall>k \<in> set keys. \<exists>v. create k = Inr v"
  shows "map_keys (fold (\<lambda>k cache. snd (getOrCreateCacheEntry cache k create)) keys [])
       = drop (length (remdups keys) - 256) (remdups keys)"
proof -
  have "map fst (use_matchers create keys) = drop (length (remdups keys) - 256) (remdups keys)"
    using assms
  proof (induction keys rule: rev_induct)
    case (snoc k keys)
    let ?c = "use_matchers create keys"
    obtain v where v: "create k = Inr v" using snoc.prems by auto
    have ok: "map_wf ?c" "length ?c \<le> CACHE_LIMIT" "\<forall>(k, v) \<in> set ?c. create k = Inr v"
      using use_matchers_ok [of create keys] by (simp_all add: cache_ok_def)
    have IH: "map fst ?c = drop (length (remdups keys) - 256) (remdups keys)" using snoc by simp
    have del: "map fst (map_delete k ?c) = filter (\<lambda>x. x \<noteq> k) (map fst ?c)"
      by (simp add: map_delete_def filter_map comp_def)
    have "map fst (use_matchers create (keys @ [k])) =
        (if length (map fst ?c) = 256 \<and> k \<notin> set (map fst ?c) then tl (map fst ?c) @ [k]
         else filter (\<lambda>x. x \<noteq> k) (map fst ?c) @ [k])"
      using cache_access [OF ok(1,2) v ok(3)] del
      by (simp add: use_matchers_def map_tl CACHE_LIMIT_def)
    also have "\<dots> = drop (length (remdups (keys @ [k])) - 256) (remdups (keys @ [k]))"
      using recent_keys [OF distinct_remdups _ IH] by (simp add: remdups_snoc)
    finally show ?case .
  qed (simp add: use_matchers_def)
  then show ?thesis by (simp add: use_matchers_def map_keys_def)
qed

section \<open>Agreement with payload filters\<close>

text \<open>The same JSON object read as an operator of a rule.\<close>

fun as_field_operator :: "filter_operator \<Rightarrow> field_operator" where
  "as_field_operator (OpPrim p) = FScalar p"
| "as_field_operator (OpObj ob) = FObject
     \<lparr>fo_eq = None, fo_ne = op_ne ob, fo_in = op_in ob, fo_nin = None, fo_contains = None, fo_containsPrefix = None,
      fo_exists = op_exists ob, fo_startsWith = op_startsWith ob, fo_endsWith = op_endsWith ob, fo_glob = None\<rparr>"

definition as_condition :: "payload_filter \<Rightarrow> rule_condition" where
  "as_condition f = AndCondition (map (\<lambda>(path, operator). FieldCondition path (as_field_operator operator)) f)"

fun not_both_in_and_ne :: "filter_operator \<Rightarrow> bool" where
  "not_both_in_and_ne (OpPrim _) = True"
| "not_both_in_and_ne (OpObj ob) = (op_in ob = None \<or> op_ne ob = None)"

lemma operator_compat:
  "not_both_in_and_ne op \<Longrightarrow> matchesOperator M v (as_field_operator op) st = (Inr (matchOperator v op), st)"
  by (cases op) (auto split: option.splits)

text \<open>
  C33. Rules and payload filters agree, as the evaluator documents: a payload filter of the bus, read as
  the conjunction of field conditions with the same operators, accepts exactly the payloads the filter
  accepts, without touching a cache or throwing, for every filter that does not combine \<open>$in\<close> and
  \<open>$ne\<close> in one operator object.\<close>

theorem filter_rule_compat:
  assumes "\<forall>(path, operator) \<in> set f. not_both_in_and_ne operator"
  shows "evaluate M payload (as_condition f) st = (Inr (matchesFilter payload f), st)"
proof -
  have "evaluate_and M payload (map (\<lambda>(path, operator). FieldCondition path (as_field_operator operator)) f) st
      = (Inr (matchesFilter payload f), st)"
    using assms
  proof (induction f)
    case (Cons e f)
    then show ?case by (cases e) (simp add: operator_compat rules_getPath_eq)
  qed simp
  then show ?thesis by (simp add: as_condition_def)
qed

theorem filter_rule_compat_witness:
  "evaluate sample_matchers (JObj [(''n'', JNum 1)])
     (as_condition [(''n'', OpObj \<lparr>op_in = Some [PNum 1], op_ne = None, op_exists = None, op_startsWith = None,
        op_endsWith = None\<rparr>)]) \<lparr>expressionCache = [], globCache = [], evaluations = 0\<rparr>
   = (Inr (matchesFilter (JObj [(''n'', JNum 1)])
        [(''n'', OpObj \<lparr>op_in = Some [PNum 1], op_ne = None, op_exists = None, op_startsWith = None,
           op_endsWith = None\<rparr>)]), \<lparr>expressionCache = [], globCache = [], evaluations = 0\<rparr>)"
  by (rule filter_rule_compat) simp

text \<open>An operator object with both keys is read differently: the bus looks at \<open>$in\<close> first, the rules at \<open>$ne\<close>.\<close>

lemma in_and_ne_diverge:
  fixes M :: "('x, 'g) matchers"
  defines "f \<equiv> [(''n'', OpObj \<lparr>op_in = Some [PNum 1], op_ne = Some (PNum 1), op_exists = None, op_startsWith = None,
     op_endsWith = None\<rparr>)]"
  shows "matchesFilter (JObj [(''n'', JNum 1)]) f"
    and "fst (evaluate M (JObj [(''n'', JNum 1)]) (as_condition f) st) = Inr False"
  by (simp_all add: f_def as_condition_def getPath_def rules_getPath_def strict_eq_def)

end
