(* ===== verification/Spec2Isabelle.thy ===== *)
theory Spec2Isabelle
  imports Local_Handlers Ingress Correlation_Tracker Extension_Properties Handler_Confinement Bootstrap_Properties Workflow_State_Properties
    Rules_Properties
begin

text \<open>
  Verification of the core of the Makaio framework: its message bus (\<open>src/core/bus-core\<close>, with the
  subject and schema helpers of \<open>src/core/makaio-core\<close>), its extension kernel
  (\<open>src/packages/kernel/src/extension\<close>, with the manifest types and the name codec of
  \<open>src/core/contracts/src/extension\<close>) and the execution attempts of its workflow engine
  (\<open>src/subsystems/workflow-engine/src\<close>, with the contracts of
  \<open>src/core/contracts/src/execution-attempt\<close>).

  A bus holds event, request and interceptor handlers registered by local code, a namespace registry
  that knows the schema and routing flags of each subject, a set of registered transports, and what each
  transport has advertised about the handlers behind it. Requests walk one list in which local handlers
  and remote routes are interleaved by priority; events fan out to local handlers and then to
  transports; broadcasts ask everybody in parallel. Messages received from a transport enter the same
  operations.

  The extension kernel decides which extensions a host loads, sorts them by their dependencies, starts
  them one after the other, restarts or stops single extensions on request and shuts all of them down.
  Its lifecycle operations pass through one first-in first-out lane.

  An execution attempt is one try of the workflow engine to run work for an owner on infrastructure of a
  provider. The attempt repository is the durable authority about it: a newer attempt supersedes the
  older one, provider-side writes are fenced by a claim with a generation and a token, runtimes register
  under growing generations, operations pass one start gate, cancellation closes that gate, and one
  settlement ends the attempt. The attempt authority is the service of a process in front of it: it
  keeps a waiter for the outcome of each attempt it created and answers the requests of runtimes over
  the bus, each confined to the attempt its transport authenticated. A booted worker first passes the
  start barrier, then registers and proves its endpoint, then has its operations admitted and finally
  submits an outcome, which is committed, converged with its owner and handed to the waiter.

  \<^bold>\<open>Theories.\<close>
  \<^item> \<open>Prelude\<close>, \<open>JS_Collections\<close>: rule collections, names, the ordered \<open>Map\<close> and \<open>Set\<close> of JavaScript as
    association and distinct lists, the stable \<open>Array.prototype.sort\<close> with its comparator contract as a
    locale, string operations.
  \<^item> \<open>Subject_Matching\<close>: subject definitions and patterns (\<open>utils/subscription-matching.ts\<close>).
  \<^item> \<open>Payload_Filter\<close>: JavaScript values and declarative filters (\<open>utils/payload-filter.ts\<close>).
  \<^item> \<open>Namespace_Registry\<close>: \<open>registries/namespace-registry.ts\<close> and \<open>routing-metadata.ts\<close>. Zod schemas are a
    type parameter.
  \<^item> \<open>Handler_Registry\<close>: priority-ordered handler lists (\<open>utils/insert-sorted.ts\<close>, \<open>handler-merging.ts\<close>),
    with the registry contract as the locale \<open>priority_registry\<close>.
  \<^item> \<open>Bus_Context\<close>: wire messages, the state record of a bus (\<open>types/bus.ts\<close>), handler and transport
    lookups.
  \<^item> \<open>Subscriptions\<close>: \<open>on\<close>, \<open>intercept\<close>, registration of transports, remote subscriptions and advertised
    state (\<open>methods/on.ts\<close>, \<open>registries/advertised-state.ts\<close>, \<open>remote-subscriptions.ts\<close>); messages sent
    to peers are returned as an outbox. \<open>Subscription_Laws\<close> refines it to a directory of what each peer
    advertised (locale \<open>peer_directory\<close>); \<open>Bus_Invariant\<close> has the step relation of the whole routing
    state and its invariants; \<open>Local_Handlers\<close> the laws of registration and cleanup.
  \<^item> \<open>Routing\<close>: the merged list, the priority cursor, the choice of transports.
  \<^item> \<open>Bus_Errors\<close>: error classes, cancellation provenance, the error codec (\<open>utils/transport.ts\<close>).
  \<^item> \<open>Dispatch\<close>, \<open>Dispatch_Laws\<close>: the dispatch chain with deadline and readiness gate
    (\<open>methods/request/dispatch.ts\<close>, \<open>readiness-gate.ts\<close>) and what it guarantees.
  \<^item> \<open>Observation\<close>: \<open>__onAny\<close> handlers and message observers.
  \<^item> \<open>Request\<close>, \<open>Emit\<close>, \<open>Broadcast\<close>: the operations of a bus with payload validation and interceptors.
  \<^item> \<open>Ingress\<close>: messages arriving from a transport (\<open>registries/transport-registry.ts\<close>).

  \<^item> \<open>Correlation_Tracker\<close>: pending requests of a transport with their timers and abort listeners
    (\<open>utils/correlation-tracker.ts\<close>) as a step relation.
  \<^item> \<open>Extension_Graph\<close>, \<open>Extension_Graph_Laws\<close>: selection, overrides, boot enablement, topological sort
    and dependency closure (\<open>extension-selection.ts\<close>, \<open>topo-sort.ts\<close>, \<open>extension-entry-closure.ts\<close>); both
    pruning loops are instances of the locale \<open>dependency_pruning\<close>.
  \<^item> \<open>Extension_Name_Codec\<close>: names as path segments (\<open>extension-name-path-segment.ts\<close>), with the contracts
    \<open>canonical_codec\<close> and \<open>folding_codec\<close>.
  \<^item> \<open>Extension_Lifecycle\<close>, \<open>Extension_Coordinator\<close>: entries, starting, toggling, preferences, migrations,
    shutdown and the lane (\<open>extension-start-runner.ts\<close>, \<open>extension-toggle.ts\<close>,
    \<open>extension-coordinator.ts\<close> and the runners). \<open>Extension_Lifecycle_Laws\<close> has what each operation
    changes, \<open>Extension_Kernel\<close> the invariant of the reachable states, \<open>Extension_Properties\<close> what
    follows.

  \<^item> \<open>Canonical_JSON\<close>: the canonical text values are compared by (\<open>packages/utils/canonical-stringify.ts\<close>)
    with the text of \<open>JSON.stringify\<close>, which determines the value.
  \<^item> \<open>Attempt_Records\<close>, \<open>Attempt_Decisions\<close>: the records and contract schemas of an attempt, and the
    decision functions every realization of the port shares (\<open>execution-attempt-decisions.ts\<close>,
    \<open>execution-attempt-cancellation.ts\<close>, \<open>attempt-control-evidence.ts\<close>,
    \<open>execution-attempt-owner-recovery.ts\<close>).
  \<^item> \<open>Attempt_Repository\<close>: every operation of the reference realization
    (\<open>testing/in-memory-attempt-repository.ts\<close>, \<open>testing/attempt-record-codec.ts\<close>) on its eight maps.
    \<open>Attempt_Invariant\<close> has the invariant and the order of histories, \<open>Attempt_Laws\<close> that every
    operation keeps the one and moves along the other (step relation \<open>attempt_step\<close>, locale
    \<open>guarded_history\<close>), \<open>Attempt_Properties\<close> what follows.
  \<^item> \<open>Attempt_Authority\<close>: the service with its waiters and the submission of outcomes
    (\<open>execution-attempt-authority.ts\<close>, \<open>outcome-convergence.ts\<close>). A submission is a stage per await and
    the code that resumes it; \<open>submitAttemptOutcome\<close> runs the stages with the rest of the process in
    between. \<open>Attempt_Authority_Laws\<close> has a process that resumes any number of submissions in any order,
    a multiset of the same stages, as a second instance of \<open>guarded_history\<close>; \<open>Authority_Properties\<close>
    what its waiters receive.
  \<^item> \<open>Attempt_Handlers\<close>: the bus handlers in front of the authority (\<open>runtime-registration.ts\<close>,
    \<open>operation-admission.ts\<close>, \<open>execution-attempt-handlers.ts\<close>, \<open>attempt-control-delivery.ts\<close>,
    \<open>execution-bound-access.ts\<close>). \<open>Handler_Properties\<close> and \<open>Handler_Confinement\<close> have what they
    guarantee under any interference at their awaits.
  \<^item> \<open>Bootstrap_Start\<close>, \<open>Bootstrap_Properties\<close>: the start barrier of a booted worker
    (\<open>bootstrap-start.ts\<close>, \<open>bootstrap-start-handler.ts\<close>), a polling loop over the repository at every
    instant that ends because the lease runs out.
  \<^item> \<open>Workflow_State\<close>: the state value of a workflow execution (\<open>workflow-state-json-patch.ts\<close>,
    \<open>storage/state-handler.ts\<close>, the state handlers of \<open>workflow-executor-handlers.ts\<close>,
    \<open>runtime/workflow-state-context.ts\<close>). \<open>Workflow_State_Laws\<close> defines what applying a JSON Patch means
    (RFC 6902) and shows that a generated patch leads from the first value to the second;
    \<open>Workflow_State_Properties\<close> has the tables as a third instance of \<open>guarded_history\<close>.
  \<^item> \<open>Rules\<close>, \<open>Rules_Properties\<close>: the rules engine (\<open>src/packages/rules/src\<close>) with its bounded caches of
    compiled matchers, and its agreement with the payload filters of the bus.

  \<^bold>\<open>Modelling.\<close> Mutable registries are records passed through the operations. Handlers, interceptors and
  broadcast handlers are programs over the operations their context offers; they end, and they await
  what they start (the code does not time a hung local handler out, so such a handler is outside the
  theorems that say a dispatch settles). What lies outside the repository's logic is a parameter: the clock, transport
  latencies and replies, readiness, Zod's \<open>safeParse\<close>, \<open>z.toJSONSchema\<close>, \<open>nanoid\<close>. An asynchronous result
  that never settles is \<open>None\<close>. Numbers are integers: priorities, times and JSON numbers are not
  fractional. Recursion over the merged list ends because the index grows; no fuel is used. The code of
  extensions, their services and the durable stores are functions of everything called so far, so they
  may fail at one attempt and succeed at the next; the pruning and sorting loops end by measures. An
  operation of the attempt repository is one synchronous block, a function from the state to an error or
  a decision and the new state; the clock and generated identifiers are its arguments, and zod's
  date-time check, \<open>Date.parse\<close>, \<open>JSON.parse\<close> and the owner's outcome codec are the record \<open>port_env\<close>.
  A stored timestamp is the instant it denotes. An operation of the authority or a handler awaits in
  several places; what the rest of the process does during its \<open>k\<close>-th await is the argument \<open>world k\<close>, and
  the theorems hold for every \<open>world\<close> that acts through the operations of the repository. What the bus
  answers and what the owner of an attempt decides are the records \<open>bus_port\<close> and \<open>owner_port\<close>.

  \<^bold>\<open>What is shown.\<close> The routing state stays well formed in every reachable state and routes lead only to
  registered transports; advertisements are exactly the local and relayable foreign priorities; a
  dispatch starts entries in order, each once, never after its deadline, settles when it has one, and
  respects local-only, host-local and first-hop-only restrictions; requests settle in time, conform to
  their schemas, and are answered once on the receiving side, a second time only with the error of a
  rejected result send; an event starts every matching handler entry in priority order and is sent to
  each addressed transport; errors survive any number of hops; a tracked request settles at most once
  and is lost only when its identifier is tracked again while it is pending.

  Selection keeps the greatest set of extensions whose requirements are met, the sort puts dependencies
  first and refuses exactly the inputs a lemma lists; in every reachable state of the kernel an active extension
  has its required dependencies active, was collected at boot, and nothing inactive holds resources;
  boot settles and reports every extension; shutdown stops dependents first, destroys every service
  once and is the last operation; names and path segments are exact inverses, also under case folding.

  In every reachable state of the attempt repository an owner has at most one attempt that may still
  start work, a running invocation of an attempt with a workspace was prepared under the current
  runtime, an infrastructure failure follows recorded termination, and the recorded facts never
  contradict each other; a claim that was taken over never authorizes again, a committed outcome is read
  back by everybody for good, a cancelled attempt admits nothing, histories only move forward, and
  repeated requests replay the first decision.

  A waiter only ever receives the outcome its attempt durably holds, and the retry of a submission that
  committed but did not converge settles it; a runtime that is told it is registered owns the
  generation it is told and is recorded ready, one that does not answer leaves the attempt idle; an
  outcome is accepted only from the slot that produced it; no request of a runtime touches another
  attempt. The start barrier answers by its deadline, as far as its deadline timer is punctual, after at
  most 301 reads, permits only attempts the
  repository allows to start, notices an allocation within one poll interval, and its refusals are final.

  A generated patch applied to the stored value gives the accepted one; the mutation log of an execution
  is gapless and replays to its current value; an update that succeeds replaced the value its mutator
  was given, whatever ran in between. Evaluating rules gives what compiling every matcher afresh gives;
  a matcher cache holds the last 256 distinct keys used; field conditions and payload filters agree.

  Nine lemmas state behaviour that differs from what the code or its documentation intends:
  \<open>unsubscribe_removes_highest_priority\<close>, \<open>onward_cursor_exceeds_incoming\<close>,
  \<open>host_local_broadcast_is_relayed\<close>, \<open>tracking_again_loses_promise\<close>, \<open>disabled_cycle_aborts_boot\<close>,
  \<open>unparsable_lease_strands_attempt\<close>, \<open>readiness_without_runtime\<close>,
  \<open>conflict_rejects_committed_waiter\<close> and \<open>in_and_ne_diverge\<close>.

  \<^bold>\<open>Not modelled.\<close> \<open>extendSubjectSchema\<close> and nested subject trees (they rewrite Zod objects and build
  typed object trees), scoped and filtered buses and \<open>once\<close> (wrappers of the modelled operations), the
  test-only \<open>resetAllHandlers\<close>,
  channels and their cryptography, the concrete transports (socket and process I/O), telemetry
  projection, logging; of the extension kernel the resolution of configuration, warning toasts, window,
  tray and command surfaces and the RPC handlers; of the workflow engine the SQLite realization of
  the attempt port and the interpretation of workflow definitions; of the rest of the repository the
  adapters, runtimes, storage and user interface.
\<close>

end
